(* ===== verification/Prelude.thy ===== *)
theory Prelude
  imports Complex_Main "HOL-Library.Sublist"
begin

text \<open>
  Shared vocabulary of the development: Go strings as byte lists and the functions of the
  Go packages \<open>strings\<close> and \<open>strconv\<close> that the modelled code calls, Go maps as partial
  functions or association lists, and the generic lemmas the component theories share.

  A Go string is a byte sequence; \<open>char\<close> is a byte, so \<open>string\<close> models it exactly and
  \<open>length\<close> is Go's \<open>len\<close>. Errors are values of a sum type with the error on the left.
\<close>

named_theorems go_strings \<open>facts on the modelled functions of package strings\<close>
named_theorems frame \<open>which parts of a state an operation leaves alone\<close>
named_theorems inv_intros \<open>invariant preservation, one rule per operation\<close>

type_synonym ('k, 'v) gomap = "('k \<times> 'v) list"

section \<open>Decoded JSON\<close>

text \<open>
  What \<open>encoding/json\<close> decodes into an \<open>interface{}\<close>: an object is a Go map, given by its
  bindings. Numbers are \<open>float64\<close> in the code and exact rationals here.
\<close>

datatype json =
    JNull
  | JBool bool
  | JNum rat
  | JStr string
  | JArr "json list"
  | JObj "(string \<times> json) list"

type_synonym jobj = "(string, json) gomap"

text \<open>The Go idioms \<open>v, _ := m[k].(string)\<close> and \<open>v, ok := m[k].(string)\<close>.\<close>

definition get_str_ok :: "jobj \<Rightarrow> string \<Rightarrow> string option" where
  "get_str_ok m k = (case map_of m k of Some (JStr s) \<Rightarrow> Some s | _ \<Rightarrow> None)"

definition get_str :: "jobj \<Rightarrow> string \<Rightarrow> string" where
  "get_str m k = (case get_str_ok m k of Some s \<Rightarrow> s | None \<Rightarrow> [])"

definition get_bool :: "jobj \<Rightarrow> string \<Rightarrow> bool" where
  "get_bool m k = (map_of m k = Some (JBool True))"

definition get_num_ok :: "jobj \<Rightarrow> string \<Rightarrow> rat option" where
  "get_num_ok m k = (case map_of m k of Some (JNum x) \<Rightarrow> Some x | _ \<Rightarrow> None)"

definition get_arr_ok :: "jobj \<Rightarrow> string \<Rightarrow> json list option" where
  "get_arr_ok m k = (case map_of m k of Some (JArr xs) \<Rightarrow> Some xs | _ \<Rightarrow> None)"

definition get_obj_ok :: "jobj \<Rightarrow> string \<Rightarrow> jobj option" where
  "get_obj_ok m k = (case map_of m k of Some (JObj xs) \<Rightarrow> Some xs | _ \<Rightarrow> None)"

text \<open>Conversion of a \<open>float64\<close> to an integer type truncates towards zero.\<close>

definition rat_to_int :: "rat \<Rightarrow> int" where
  "rat_to_int x = (if 0 \<le> x then \<lfloor>x\<rfloor> else \<lceil>x\<rceil>)"

section \<open>Package strings\<close>

abbreviation has_prefix :: "string \<Rightarrow> string \<Rightarrow> bool" where
  "has_prefix s p \<equiv> prefix p s"

abbreviation has_suffix :: "string \<Rightarrow> string \<Rightarrow> bool" where
  "has_suffix s p \<equiv> suffix p s"

fun str_index :: "string \<Rightarrow> string \<Rightarrow> nat option" where
  "str_index [] pat = (if pat = [] then Some 0 else None)"
| "str_index (c # cs) pat =
     (if prefix pat (c # cs) then Some 0 else map_option Suc (str_index cs pat))"

fun str_last_index :: "string \<Rightarrow> string \<Rightarrow> nat option" where
  "str_last_index [] pat = (if pat = [] then Some 0 else None)"
| "str_last_index (c # cs) pat =
     (case str_last_index cs pat of
        Some i \<Rightarrow> Some (Suc i)
      | None \<Rightarrow> if prefix pat (c # cs) then Some 0 else None)"

definition contains :: "string \<Rightarrow> string \<Rightarrow> bool" where
  "contains s pat = (str_index s pat \<noteq> None)"

fun split_char :: "char \<Rightarrow> string \<Rightarrow> string list" where
  "split_char c [] = [[]]"
| "split_char c (x # xs) =
     (if x = c then [] # split_char c xs
      else (case split_char c xs of [] \<Rightarrow> [[x]] | y # ys \<Rightarrow> (x # y) # ys))"

text \<open>\<open>strings.SplitN(s, sep, 2)\<close>: the text before the first separator and, when there is
  one, the text after it.\<close>

definition cut_char :: "char \<Rightarrow> string \<Rightarrow> string \<times> string option" where
  "cut_char c s =
     (takeWhile (\<lambda>x. x \<noteq> c) s,
      case dropWhile (\<lambda>x. x \<noteq> c) s of [] \<Rightarrow> None | _ # r \<Rightarrow> Some r)"

fun join :: "string \<Rightarrow> string list \<Rightarrow> string" where
  "join sep [] = []"
| "join sep [x] = x"
| "join sep (x # y # ys) = x @ sep @ join sep (y # ys)"

text \<open>
  \<open>unicode.IsSpace\<close> on the UTF-8 encoding: the length in bytes of the white-space character
  a string starts with, and 0 if it starts with none. UTF-8 is self-synchronising, so the
  same patterns, reversed, recognise a trailing white-space character.
\<close>

definition ascii_space :: "char \<Rightarrow> bool" where
  "ascii_space c = (c \<in> {CHR 0x09, CHR 0x0A, CHR 0x0B, CHR 0x0C, CHR 0x0D, CHR '' ''})"

definition space2 :: "char \<Rightarrow> char \<Rightarrow> bool" where
  "space2 a b = (a = CHR 0xC2 \<and> (b = CHR 0x85 \<or> b = CHR 0xA0))"

definition space3 :: "char \<Rightarrow> char \<Rightarrow> char \<Rightarrow> bool" where
  "space3 a b c =
     (a = CHR 0xE1 \<and> b = CHR 0x9A \<and> c = CHR 0x80
      \<or> a = CHR 0xE2 \<and> b = CHR 0x80 \<and>
          c \<in> {CHR 0x80, CHR 0x81, CHR 0x82, CHR 0x83, CHR 0x84, CHR 0x85, CHR 0x86, CHR 0x87,
               CHR 0x88, CHR 0x89, CHR 0x8A, CHR 0xA8, CHR 0xA9, CHR 0xAF}
      \<or> a = CHR 0xE2 \<and> b = CHR 0x81 \<and> c = CHR 0x9F
      \<or> a = CHR 0xE3 \<and> b = CHR 0x80 \<and> c = CHR 0x80)"

fun trim_left :: "string \<Rightarrow> string" where
  "trim_left [] = []"
| "trim_left [a] = (if ascii_space a then [] else [a])"
| "trim_left [a, b] =
     (if ascii_space a then trim_left [b] else if space2 a b then [] else [a, b])"
| "trim_left (a # b # c # s) =
     (if ascii_space a then trim_left (b # c # s)
      else if space2 a b then trim_left (c # s)
      else if space3 a b c then trim_left s
      else a # b # c # s)"

fun trim_right_rev :: "string \<Rightarrow> string" where
  "trim_right_rev [] = []"
| "trim_right_rev [a] = (if ascii_space a then [] else [a])"
| "trim_right_rev [b, a] =
     (if ascii_space b then trim_right_rev [a] else if space2 a b then [] else [b, a])"
| "trim_right_rev (c # b # a # s) =
     (if ascii_space c then trim_right_rev (b # a # s)
      else if space2 b c then trim_right_rev (a # s)
      else if space3 a b c then trim_right_rev s
      else c # b # a # s)"

definition trim_space :: "string \<Rightarrow> string" where
  "trim_space s = rev (trim_right_rev (rev (trim_left s)))"

definition trim_right_chars :: "string \<Rightarrow> string \<Rightarrow> string" where
  "trim_right_chars cs s = rev (dropWhile (\<lambda>c. c \<in> set cs) (rev s))"

definition trim_prefix :: "string \<Rightarrow> string \<Rightarrow> string" where
  "trim_prefix s p = (if prefix p s then drop (length p) s else s)"

text \<open>\<open>strings.Fields\<close>: maximal runs of characters that are not white space.\<close>

fun fields_acc :: "string \<Rightarrow> string \<Rightarrow> string list" where
  "fields_acc w [] = (if w = [] then [] else [rev w])"
| "fields_acc w (a # s) =
     (if ascii_space a then (if w = [] then [] else [rev w]) @ fields_acc [] s
      else (case s of
          b # s' \<Rightarrow>
            (if space2 a b then (if w = [] then [] else [rev w]) @ fields_acc [] s'
             else (case s' of
                 c # s'' \<Rightarrow>
                   (if space3 a b c then (if w = [] then [] else [rev w]) @ fields_acc [] s''
                    else fields_acc (a # w) s)
               | [] \<Rightarrow> fields_acc (a # w) s))
        | [] \<Rightarrow> fields_acc (a # w) s))"

definition str_fields :: "string \<Rightarrow> string list" where
  "str_fields s = fields_acc [] s"

text \<open>
  \<open>strings.ToLower\<close>. Every byte outside A..Z is kept, with one exception class: of the
  non-ASCII characters only U+0130 and U+212A have an ASCII lower-case form. The modelled code
  compares lower-cased text with ASCII keywords only, for which this is exact.
\<close>

definition lower_char :: "char \<Rightarrow> char" where
  "lower_char c =
     (if 65 \<le> (of_char c :: nat) \<and> (of_char c :: nat) \<le> 90
      then char_of ((of_char c :: nat) + 32) else c)"

definition upper_char :: "char \<Rightarrow> char" where
  "upper_char c =
     (if 97 \<le> (of_char c :: nat) \<and> (of_char c :: nat) \<le> 122
      then char_of ((of_char c :: nat) - 32) else c)"

fun to_lower :: "string \<Rightarrow> string" where
  "to_lower (a # b # c # s) =
     (if a = CHR 0xC4 \<and> b = CHR 0xB0 then CHR ''i'' # to_lower (c # s)
      else if a = CHR 0xE2 \<and> b = CHR 0x84 \<and> c = CHR 0xAA then CHR ''k'' # to_lower s
      else lower_char a # to_lower (b # c # s))"
| "to_lower [a, b] =
     (if a = CHR 0xC4 \<and> b = CHR 0xB0 then ''i'' else [lower_char a, lower_char b])"
| "to_lower [a] = [lower_char a]"
| "to_lower [] = []"

text \<open>\<open>strings.ToUpper\<close>, compared with ASCII text only: U+017F and U+0131 are the non-ASCII
  characters with an ASCII upper-case form.\<close>

fun to_upper :: "string \<Rightarrow> string" where
  "to_upper (a # b # s) =
     (if a = CHR 0xC5 \<and> b = CHR 0xBF then CHR ''S'' # to_upper s
      else if a = CHR 0xC4 \<and> b = CHR 0xB1 then CHR ''I'' # to_upper s
      else upper_char a # to_upper (b # s))"
| "to_upper [a] = [upper_char a]"
| "to_upper [] = []"

section \<open>Package strconv\<close>

definition is_digit :: "char \<Rightarrow> bool" where
  "is_digit c = (48 \<le> (of_char c :: nat) \<and> (of_char c :: nat) \<le> 57)"

definition digit_val :: "char \<Rightarrow> int" where
  "digit_val c = int (of_char c) - 48"

definition digits_val :: "string \<Rightarrow> int" where
  "digits_val s = foldl (\<lambda>n c. 10 * n + digit_val c) 0 s"

text \<open>\<open>strconv.Atoi\<close> and \<open>ParseInt(s, 10, 64)\<close>: an optional sign, at least one digit, and a
  value that fits 64 bits.\<close>

definition atoi :: "string \<Rightarrow> int option" where
  "atoi s =
     (let neg = (s \<noteq> [] \<and> hd s = CHR ''-'');
          ds = (if s \<noteq> [] \<and> (hd s = CHR ''-'' \<or> hd s = CHR ''+'') then tl s else s)
      in if ds = [] \<or> \<not> list_all is_digit ds then None
         else let v = (if neg then - digits_val ds else digits_val ds)
              in if - (2 ^ 63) \<le> v \<and> v < 2 ^ 63 then Some v else None)"

fun nat_digits :: "nat \<Rightarrow> string" where
  "nat_digits n =
     (if n < 10 then [char_of (48 + n)]
      else nat_digits (n div 10) @ [char_of (48 + n mod 10)])"

declare nat_digits.simps [simp del]

definition itoa :: "int \<Rightarrow> string" where
  "itoa n = (if n < 0 then CHR ''-'' # nat_digits (nat (- n)) else nat_digits (nat n))"

section \<open>Facts on strings\<close>

lemma takeWhile_notin [simp]:
  "c \<notin> set xs \<Longrightarrow> takeWhile (\<lambda>x. x \<noteq> c) (xs @ ys) = xs @ takeWhile (\<lambda>x. x \<noteq> c) ys"
  by (induction xs) auto

lemma dropWhile_notin [simp]:
  "c \<notin> set xs \<Longrightarrow> dropWhile (\<lambda>x. x \<noteq> c) (xs @ ys) = dropWhile (\<lambda>x. x \<noteq> c) ys"
  by (induction xs) auto

lemma digits_val_snoc: "digits_val (s @ [c]) = 10 * digits_val s + digit_val c"
  by (simp add: digits_val_def)

lemma digit_char: "n < 10 \<Longrightarrow> is_digit (char_of (48 + n)) \<and> digit_val (char_of (48 + n)) = int n"
  for n :: nat
proof -
  assume "n < 10"
  then have "of_char (char_of (48 + n) :: char) = (48 + n :: nat)" by simp
  with \<open>n < 10\<close> show ?thesis by (simp add: is_digit_def digit_val_def)
qed

lemma nat_digits_digits: "nat_digits n \<noteq> [] \<and> list_all is_digit (nat_digits n)"
proof (induction n rule: nat_digits.induct)
  case (1 n)
  then show ?case
    using digit_char [of n] digit_char [of "n mod 10"] by (subst (1 2) nat_digits.simps) auto
qed

lemma digits_val_nat_digits [simp]: "digits_val (nat_digits n) = int n"
proof (induction n rule: nat_digits.induct)
  case (1 n)
  show ?case
  proof (cases "n < 10")
    case True
    then show ?thesis using digit_char [of n] by (subst nat_digits.simps) (simp add: digits_val_def)
  next
    case False
    have "10 * int (n div 10) + int (n mod 10) = int n" by presburger
    then show ?thesis
      using False 1 digit_char [of "n mod 10"] by (subst nat_digits.simps) (simp add: digits_val_snoc)
  qed
qed

lemma digit_not_sign: "is_digit c \<Longrightarrow> c \<noteq> CHR ''-'' \<and> c \<noteq> CHR ''+'' \<and> c \<noteq> CHR '':''"
  by (auto simp: is_digit_def)

lemma atoi_itoa [simp]: "- (2 ^ 63) \<le> n \<Longrightarrow> n < 2 ^ 63 \<Longrightarrow> atoi (itoa n) = Some n"
proof -
  assume b: "- (2 ^ 63) \<le> n" "n < 2 ^ 63"
  let ?d = "nat_digits (nat n)"
  have d: "?d \<noteq> []" "list_all is_digit ?d" using nat_digits_digits by auto
  then have "is_digit (hd ?d)" by (cases ?d) auto
  then have h: "hd ?d \<noteq> CHR ''-''" "hd ?d \<noteq> CHR ''+''" using digit_not_sign by auto
  show ?thesis
    using b d h nat_digits_digits [of "nat (- n)"] by (auto simp: atoi_def itoa_def Let_def)
qed

lemma colon_notin_itoa: "CHR '':'' \<notin> set (itoa n)"
  using nat_digits_digits [of "nat n"] nat_digits_digits [of "nat (- n)"] digit_not_sign
  by (auto simp: itoa_def list_all_iff)

lemma itoa_inj: "itoa m = itoa n \<longleftrightarrow> m = n"
proof
  assume eq: "itoa m = itoa n"
  have sign: "k < 0 \<longleftrightarrow> hd (itoa k) = CHR ''-''" for k
    using nat_digits_digits [of "nat k"] digit_not_sign
    by (cases "nat_digits (nat k)") (auto simp: itoa_def)
  have "m < 0 \<longleftrightarrow> n < 0" using eq sign by simp
  then have "nat_digits (nat m) = nat_digits (nat n) \<and> \<not> m < 0 \<and> \<not> n < 0
      \<or> nat_digits (nat (- m)) = nat_digits (nat (- n)) \<and> m < 0 \<and> n < 0"
    using eq by (auto simp: itoa_def split: if_splits)
  then show "m = n"
    by (metis digits_val_nat_digits int_nat_eq linorder_not_less neg_equal_iff_equal
        neg_less_0_iff_less order_less_imp_le)
qed simp

lemma str_index_Some_iff: "(\<exists>i. str_index s pat = Some i) \<longleftrightarrow> sublist pat s"
  by (induction s pat rule: str_index.induct) (auto simp: sublist_Cons_right)

lemma contains_iff_sublist [go_strings]: "contains s pat \<longleftrightarrow> sublist pat s"
  using str_index_Some_iff [of s pat] by (auto simp: contains_def)

lemma contains_append_right: "contains s pat \<Longrightarrow> contains (s @ t) pat"
  unfolding contains_iff_sublist sublist_def by (metis append_assoc)

lemma split_char_not_Nil [simp]: "split_char c s \<noteq> []"
  by (induction s) (auto split: list.splits)

lemma join_split_char [go_strings]: "join [c] (split_char c s) = s"
proof (induction s)
  case Nil
  then show ?case by simp
next
  case (Cons x xs)
  obtain y ys where yys: "split_char c xs = y # ys"
    by (cases "split_char c xs") auto
  show ?case
    using Cons.IH yys by (cases "x = c"; cases ys) auto
qed

lemma split_char_no_sep: "p \<in> set (split_char c s) \<Longrightarrow> c \<notin> set p"
  by (induction s arbitrary: p) (auto split: list.splits if_splits)

lemma cut_char_Some [go_strings]: "cut_char c s = (a, Some b) \<Longrightarrow> s = a @ c # b \<and> c \<notin> set a"
proof -
  assume h: "cut_char c s = (a, Some b)"
  then obtain x where x: "dropWhile (\<lambda>x. x \<noteq> c) s = x # b" and a: "a = takeWhile (\<lambda>x. x \<noteq> c) s"
    by (auto simp: cut_char_def split: list.splits)
  have "x = c" using x by (metis (full_types) hd_dropWhile list.distinct(1) list.sel(1))
  then show ?thesis
    using x a takeWhile_dropWhile_id [of "\<lambda>x. x \<noteq> c" s] by (auto dest: set_takeWhileD)
qed

lemma cut_char_None [go_strings]: "cut_char c s = (a, None) \<longleftrightarrow> a = s \<and> c \<notin> set s"
proof -
  have "dropWhile (\<lambda>x. x \<noteq> c) s = [] \<longleftrightarrow> c \<notin> set s" by auto
  moreover have "c \<notin> set s \<Longrightarrow> takeWhile (\<lambda>x. x \<noteq> c) s = s"
    by (simp add: takeWhile_eq_all_conv) metis
  ultimately show ?thesis
    by (cases "dropWhile (\<lambda>x. x \<noteq> c) s") (auto simp: cut_char_def simp del: dropWhile_eq_Nil_conv)
qed

lemma length_trim_left: "length (trim_left s) \<le> length s"
  by (induction s rule: trim_left.induct) auto

lemma length_trim_right_rev: "length (trim_right_rev s) \<le> length s"
  by (induction s rule: trim_right_rev.induct) auto

lemma length_trim_space: "length (trim_space s) \<le> length s"
  using length_trim_left [of s] length_trim_right_rev [of "rev (trim_left s)"]
  by (simp add: trim_space_def)

lemma trim_left_suffix: "suffix (trim_left s) s"
  by (induction s rule: trim_left.induct) (auto simp: suffix_Cons)

lemma trim_right_chars_prefix: "prefix (trim_right_chars cs s) s"
  by (metis rev_rev_ident suffix_dropWhile suffix_to_prefix trim_right_chars_def)

lemma trim_right_chars_snoc:
  "trim_right_chars cs (s @ [c]) = (if c \<in> set cs then trim_right_chars cs s else s @ [c])"
  by (simp add: trim_right_chars_def)

lemma trim_right_chars_Nil [simp]: "trim_right_chars cs [] = []"
  by (simp add: trim_right_chars_def)

text \<open>Printable ASCII without the space, the characters that no trimming or splitting at white
  space touches.\<close>

definition visible :: "char \<Rightarrow> bool" where
  "visible c = (33 \<le> (of_char c :: nat) \<and> (of_char c :: nat) \<le> 126)"

lemma visible_not_space: "visible c \<Longrightarrow> \<not> ascii_space c \<and> \<not> space2 c d \<and> \<not> space3 c d e"
  by (auto simp: visible_def ascii_space_def space2_def space3_def)

lemma fields_acc_visible:
  "list_all visible w \<Longrightarrow> fields_acc acc (w @ s) = fields_acc (rev w @ acc) s"
proof (induction w arbitrary: acc)
  case Nil
  then show ?case by simp
next
  case (Cons c w)
  have v: "visible c" using Cons.prems by simp
  have "fields_acc acc (c # (w @ s)) = fields_acc (c # acc) (w @ s)"
    using visible_not_space [OF v] by (cases "w @ s"; cases "tl (w @ s)") auto
  then show ?case using Cons by simp
qed

lemma str_fields_two [go_strings]:
  "list_all visible a \<Longrightarrow> list_all visible b \<Longrightarrow> a \<noteq> [] \<Longrightarrow> b \<noteq> [] \<Longrightarrow>
     str_fields (a @ CHR '' '' # b) = [a, b]"
  using fields_acc_visible [of b "[]" "[]"]
  by (simp add: str_fields_def fields_acc_visible ascii_space_def)

section \<open>Association lists as Go maps\<close>

text \<open>
  A Go map whose iteration order matters for nothing is a partial function; where the code
  ranges over it or takes its length, the model keeps a list of bindings with distinct keys.
\<close>

definition alist_put :: "'k \<Rightarrow> 'v \<Rightarrow> ('k, 'v) gomap \<Rightarrow> ('k, 'v) gomap" where
  "alist_put k v m =
     (if k \<in> fst ` set m then map (\<lambda>(a, b). if a = k then (a, v) else (a, b)) m
      else m @ [(k, v)])"

definition alist_del :: "'k \<Rightarrow> ('k, 'v) gomap \<Rightarrow> ('k, 'v) gomap" where
  "alist_del k m = filter (\<lambda>(a, _). a \<noteq> k) m"

definition gm_ok :: "('k, 'v) gomap \<Rightarrow> bool" where
  "gm_ok m = distinct (map fst m)"

lemma alist_put_lookup [simp]: "map_of (alist_put k v m) = (map_of m)(k \<mapsto> v)"
proof
  fix x
  show "map_of (alist_put k v m) x = ((map_of m)(k \<mapsto> v)) x"
  proof (cases "k \<in> fst ` set m")
    case True
    have "map_of (map (\<lambda>(a, b). if a = k then (a, v) else (a, b)) m) x =
        (if x = k then map_option (\<lambda>_. v) (map_of m x) else map_of m x)"
      by (induction m) auto
    moreover have "map_of m k \<noteq> None"
      using True by (simp add: map_of_eq_None_iff)
    ultimately show ?thesis
      using True by (auto simp: alist_put_def)
  next
    case False
    then have "map_of m k = None" by (simp add: map_of_eq_None_iff)
    with False show ?thesis
      by (auto simp: alist_put_def map_add_def split: option.splits)
  qed
qed

lemma alist_del_lookup [simp]: "map_of (alist_del k m) = (map_of m)(k := None)"
  by (rule ext) (induction m, auto simp: alist_del_def)

lemma gm_ok_Nil [simp]: "gm_ok []"
  by (simp add: gm_ok_def)

lemma keys_alist_put: "fst ` set (alist_put k v m) = insert k (fst ` set m)"
proof (cases "k \<in> fst ` set m")
  case True
  have "map fst (map (\<lambda>(a, b). if a = k then (a, v) else (a, b)) m) = map fst m"
    by (induction m) auto
  then have "fst ` set (map (\<lambda>(a, b). if a = k then (a, v) else (a, b)) m) = fst ` set m"
    by (metis list.set_map)
  with True show ?thesis by (auto simp: alist_put_def simp del: list.set_map)
next
  case False
  then show ?thesis by (simp add: alist_put_def)
qed

lemma gm_ok_put [intro, inv_intros]: "gm_ok m \<Longrightarrow> gm_ok (alist_put k v m)"
proof -
  assume ok: "gm_ok m"
  have "map fst (map (\<lambda>(a, b). if a = k then (a, v) else (a, b)) m) = map fst m"
    by (induction m) auto
  with ok show ?thesis by (auto simp: gm_ok_def alist_put_def simp del: map_map)
qed

lemma gm_ok_del [intro, inv_intros]: "gm_ok m \<Longrightarrow> gm_ok (alist_del k m)"
  unfolding gm_ok_def alist_del_def by (rule distinct_map_filter)

lemma gm_ok_filter [intro]: "gm_ok m \<Longrightarrow> gm_ok (filter P m)"
  unfolding gm_ok_def by (rule distinct_map_filter)

lemma map_of_filter_fst: "map_of (filter (\<lambda>(a, _). P a) m) k = (if P k then map_of m k else None)"
  by (induction m) auto

end
