(* ===== verification/GoTime.thy ===== *)
theory GoTime
  imports Prelude
begin

text \<open>
  What the program uses of Go's package \<open>time\<close>: an instant is the number of nanoseconds since
  1 January of year 1, 00:00 UTC (Go's zero time, which is also what \<open>Truncate\<close> rounds to), and
  a location is a fixed offset from UTC in nanoseconds. Clock and calendar fields are those of
  the proleptic Gregorian calendar, as in the Go package.
\<close>

type_synonym instant = int

abbreviation second_ns :: int where "second_ns \<equiv> 1000000000"
abbreviation minute_ns :: int where "minute_ns \<equiv> 60000000000"
abbreviation hour_ns :: int where "hour_ns \<equiv> 3600000000000"
abbreviation day_ns :: int where "day_ns \<equiv> 86400000000000"

definition truncate_to :: "int \<Rightarrow> instant \<Rightarrow> instant" where
  "truncate_to d t = t - t mod d"

section \<open>Calendar\<close>

text \<open>Days from day 0 (1 January of year 1) to 1 January of a year.\<close>

definition days_before :: "int \<Rightarrow> int" where
  "days_before y = 365 * (y - 1) + (y - 1) div 4 - (y - 1) div 100 + (y - 1) div 400"

definition is_leap :: "int \<Rightarrow> bool" where
  "is_leap y = (y mod 4 = 0 \<and> (y mod 100 \<noteq> 0 \<or> y mod 400 = 0))"

lemma div_pred:
  fixes y n :: int
  assumes "1 < n"
  shows "y div n = (y - 1) div n + (if y mod n = 0 then 1 else 0)"
proof (cases "y mod n = 0")
  case True
  have "y - 1 = (n - 1) + (y div n - 1) * n"
    using True div_mult_mod_eq [of y n] by (simp add: algebra_simps)
  then have "(y - 1) div n = (y div n - 1) + (n - 1) div n"
    using assms by (metis add.commute div_mult_self1 less_irrefl not_one_less_zero)
  with True assms show ?thesis by simp
next
  case False
  have r: "0 < y mod n" "y mod n < n" using False assms pos_mod_sign [of n y] pos_mod_bound [of n y] by linarith+
  have "y - 1 = (y mod n - 1) + (y div n) * n"
    using div_mult_mod_eq [of y n] by (simp add: algebra_simps)
  then have "(y - 1) div n = y div n + (y mod n - 1) div n"
    using assms by (metis add.commute div_mult_self1 less_irrefl not_one_less_zero)
  with r False show ?thesis by simp
qed

lemma days_before_step: "days_before (y + 1) = days_before y + (if is_leap y then 366 else 365)"
proof -
  have a: "y div 4 = (y - 1) div 4 + (if y mod 4 = 0 then 1 else 0)"
    and b: "y div 100 = (y - 1) div 100 + (if y mod 100 = 0 then 1 else 0)"
    and c: "y div 400 = (y - 1) div 400 + (if y mod 400 = 0 then 1 else 0)"
    by (rule div_pred, simp)+
  have d: "y mod 100 = 0 \<Longrightarrow> y mod 4 = 0"
    using mod_mod_cancel [of 4 100 y] by simp
  have e: "y mod 400 = 0 \<Longrightarrow> y mod 100 = 0"
    using mod_mod_cancel [of 100 400 y] by simp
  have n: "days_before (y + 1) = 365 * y + y div 4 - y div 100 + y div 400"
    by (simp add: days_before_def)
  have f: "days_before y = 365 * (y - 1) + (y - 1) div 4 - (y - 1) div 100 + (y - 1) div 400"
    by (simp add: days_before_def)
  have arith: "365 * y + (p + i) - (q + j) + (r + k) = 365 * (y - 1) + p - q + r + 365 + (i - j + k)"
    for p q r i j k :: int by simp
  show ?thesis
    unfolding n f a b c arith is_leap_def using d e
    by (cases "y mod 4 = 0"; cases "y mod 100 = 0"; cases "y mod 400 = 0") simp_all
qed

lemma days_before_less: "days_before y < days_before (y + 1)"
  by (simp add: days_before_step)

function year_from :: "int \<Rightarrow> int \<Rightarrow> int" where
  "year_from y n = (if days_before (y + 1) \<le> n then year_from (y + 1) n else y)"
  by pat_completeness auto
termination
proof (relation "measure (\<lambda>(y, n). nat (n - days_before y))")
  show "wf (measure (\<lambda>(y, n). nat (n - days_before y)))" by simp
next
  fix y n :: int
  assume "days_before (y + 1) \<le> n"
  then show "((y + 1, n), y, n) \<in> measure (\<lambda>(y, n). nat (n - days_before y))"
    using days_before_less [of y] by simp
qed

declare year_from.simps [simp del]

definition year_of_day :: "int \<Rightarrow> int" where
  "year_of_day n = year_from (if 0 \<le> n then n div 366 + 1 else n div 365 + 1) n"

lemma year_from_upper: "n < days_before (year_from y n + 1)"
proof (induction y n rule: year_from.induct)
  case (1 y n)
  then show ?case by (auto simp: year_from.simps [of y n])
qed

lemma year_from_lower: "days_before y \<le> n \<Longrightarrow> days_before (year_from y n) \<le> n"
proof (induction y n rule: year_from.induct)
  case (1 y n)
  then show ?case by (auto simp: year_from.simps [of y n])
qed

lemma year_start: "days_before (if 0 \<le> n then n div 366 + 1 else n div 365 + 1) \<le> n"
proof (cases "0 \<le> n")
  case True
  define m where "m = n div 366"
  have "0 \<le> m" "366 * m \<le> n" using True by (auto simp: m_def)
  moreover have "m div 4 - m div 100 + m div 400 \<le> m" using \<open>0 \<le> m\<close> by linarith
  ultimately show ?thesis using True by (simp add: days_before_def flip: m_def)
next
  case False
  define m where "m = n div 365"
  have "m < 0" "365 * m \<le> n" using False by (auto simp: m_def)
  moreover have "m div 4 - m div 100 + m div 400 \<le> 0" using \<open>m < 0\<close> by linarith
  ultimately show ?thesis using False by (simp add: days_before_def flip: m_def)
qed

lemma year_of_day_bounds:
  "days_before (year_of_day n) \<le> n" "n < days_before (year_of_day n + 1)"
  using year_from_lower [OF year_start [of n]] year_from_upper
  by (auto simp: year_of_day_def)

lemma days_before_mono: "y \<le> z \<Longrightarrow> days_before y \<le> days_before z"
proof (induction z rule: int_ge_induct)
  case base
  then show ?case by simp
next
  case (step i)
  then show ?case using days_before_less [of i] by simp
qed

lemma year_of_day_eq:
  assumes "days_before y \<le> n" "n < days_before (y + 1)"
  shows "year_of_day n = y"
proof (rule antisym)
  show "year_of_day n \<le> y"
    using days_before_mono [of "y + 1" "year_of_day n"] year_of_day_bounds(1) [of n] assms(2)
    by (cases "year_of_day n \<le> y") auto
  show "y \<le> year_of_day n"
    using days_before_mono [of "year_of_day n + 1" y] year_of_day_bounds(2) [of n] assms(1)
    by (cases "y \<le> year_of_day n") auto
qed

text \<open>Days of the year before each month; month 13 is the next year's January.\<close>

definition month_start :: "bool \<Rightarrow> int \<Rightarrow> int" where
  "month_start leap m =
     (if m \<le> 1 then 0
      else (if m = 2 then 31 else if m = 3 then 59 else if m = 4 then 90 else if m = 5 then 120
            else if m = 6 then 151 else if m = 7 then 181 else if m = 8 then 212
            else if m = 9 then 243 else if m = 10 then 273 else if m = 11 then 304
            else if m = 12 then 334 else 365)
           + (if leap \<and> 3 \<le> m then 1 else 0))"

definition month_of_yday :: "bool \<Rightarrow> int \<Rightarrow> int" where
  "month_of_yday leap d =
     (if d < month_start leap 2 then 1 else if d < month_start leap 3 then 2
      else if d < month_start leap 4 then 3 else if d < month_start leap 5 then 4
      else if d < month_start leap 6 then 5 else if d < month_start leap 7 then 6
      else if d < month_start leap 8 then 7 else if d < month_start leap 9 then 8
      else if d < month_start leap 10 then 9 else if d < month_start leap 11 then 10
      else if d < month_start leap 12 then 11 else 12)"

lemma month_of_yday_range: "1 \<le> month_of_yday l d \<and> month_of_yday l d \<le> 12"
  by (simp add: month_of_yday_def)

lemma month_of_yday_bounds:
  "0 \<le> d \<Longrightarrow> d < (if l then 366 else 365) \<Longrightarrow>
     month_start l (month_of_yday l d) \<le> d \<and> d < month_start l (month_of_yday l d + 1)"
  by (cases l) (auto simp: month_of_yday_def month_start_def)

lemma month_of_yday_eq:
  assumes "1 \<le> m" "m \<le> 12" "month_start l m \<le> d" "d < month_start l (m + 1)"
  shows "month_of_yday l d = m"
proof -
  have "m = 1 \<or> m = 2 \<or> m = 3 \<or> m = 4 \<or> m = 5 \<or> m = 6 \<or> m = 7 \<or> m = 8 \<or> m = 9
      \<or> m = 10 \<or> m = 11 \<or> m = 12" using assms(1,2) by presburger
  then show ?thesis using assms(3,4)
    by (cases l) (auto simp: month_of_yday_def month_start_def)
qed

text \<open>Local day number, and the calendar and clock fields of an instant at an offset.\<close>

definition local_day :: "int \<Rightarrow> instant \<Rightarrow> int" where
  "local_day off t = (t + off) div day_ns"

definition t_year :: "int \<Rightarrow> instant \<Rightarrow> int" where
  "t_year off t = year_of_day (local_day off t)"

definition t_month :: "int \<Rightarrow> instant \<Rightarrow> int" where
  "t_month off t =
     (let y = t_year off t in month_of_yday (is_leap y) (local_day off t - days_before y))"

definition t_day :: "int \<Rightarrow> instant \<Rightarrow> int" where
  "t_day off t =
     (let y = t_year off t; d = local_day off t - days_before y
      in d - month_start (is_leap y) (month_of_yday (is_leap y) d) + 1)"

definition t_weekday :: "int \<Rightarrow> instant \<Rightarrow> int" where
  "t_weekday off t = (local_day off t + 1) mod 7"

definition t_hour :: "int \<Rightarrow> instant \<Rightarrow> int" where
  "t_hour off t = (t + off) mod day_ns div hour_ns"

definition t_minute :: "int \<Rightarrow> instant \<Rightarrow> int" where
  "t_minute off t = (t + off) mod hour_ns div minute_ns"

text \<open>\<open>time.Date(y, m, d, 0, 0, 0, 0, loc)\<close> for a month up to 13, with a day that may be one
  past the end of the month: both are normalised.\<close>

definition go_date :: "int \<Rightarrow> int \<Rightarrow> int \<Rightarrow> int \<Rightarrow> instant" where
  "go_date off y m d =
     (days_before y + month_start (is_leap y) m + d - 1) * day_ns - off"

text \<open>The start of the next day and of the next month, as the code writes them.\<close>

definition next_day :: "int \<Rightarrow> instant \<Rightarrow> instant" where
  "next_day off t = go_date off (t_year off t) (t_month off t) (t_day off t + 1)"

definition next_month :: "int \<Rightarrow> instant \<Rightarrow> instant" where
  "next_month off t = go_date off (t_year off t) (t_month off t + 1) 1"

lemma next_day_eq: "next_day off t = (local_day off t + 1) * day_ns - off"
  by (simp add: next_day_def go_date_def t_day_def t_month_def Let_def)

lemma local_day_bounds:
  "local_day off t * day_ns \<le> t + off" "t + off < (local_day off t + 1) * day_ns"
  unfolding local_day_def
  using div_mult_mod_eq [of "t + off" day_ns] pos_mod_bound [of day_ns "t + off"]
    pos_mod_sign [of day_ns "t + off"] by (simp_all add: algebra_simps)

lemma next_day_greater: "t < next_day off t"
  using local_day_bounds(2) [of t off] by (simp add: next_day_eq)

lemma yday_bounds:
  "0 \<le> local_day off t - days_before (t_year off t)"
  "local_day off t - days_before (t_year off t) < (if is_leap (t_year off t) then 366 else 365)"
  using year_of_day_bounds [of "local_day off t"] days_before_step [of "t_year off t"]
  by (auto simp: t_year_def)

lemma local_day_less_next_month:
  "local_day off t < days_before (t_year off t) + month_start (is_leap (t_year off t)) (t_month off t + 1)"
  using month_of_yday_bounds [OF yday_bounds, of off t] by (simp add: t_month_def Let_def)

lemma next_month_greater: "t < next_month off t"
proof -
  let ?D = "days_before (t_year off t) + month_start (is_leap (t_year off t)) (t_month off t + 1)"
  have "local_day off t + 1 \<le> ?D" using local_day_less_next_month [of off t] by simp
  then have "(local_day off t + 1) * day_ns \<le> ?D * day_ns" by simp
  then show ?thesis
    using local_day_bounds(2) [of t off] by (simp add: next_month_def go_date_def)
qed

lemma same_day:
  assumes "t \<le> u" "u < next_day off t"
  shows "local_day off u = local_day off t"
proof -
  have lo: "local_day off t \<le> local_day off u"
    unfolding local_day_def using assms(1) by (intro zdiv_mono1) auto
  have "local_day off u * day_ns < (local_day off t + 1) * day_ns"
    using local_day_bounds(1) [where t = u and off = off] assms(2) unfolding next_day_eq by linarith
  then have "local_day off u < local_day off t + 1" by simp
  with lo show ?thesis by simp
qed

lemma fields_same_day:
  assumes "local_day off u = local_day off t"
  shows "t_month off u = t_month off t" "t_day off u = t_day off t"
    "t_weekday off u = t_weekday off t"
  using assms by (simp_all add: t_month_def t_day_def t_weekday_def t_year_def)

lemma same_month:
  assumes "t \<le> u" "u < next_month off t"
  shows "t_month off u = t_month off t"
proof -
  let ?y = "t_year off t" and ?m = "t_month off t"
  let ?l = "is_leap ?y" and ?b = "days_before (t_year off t)"
  have m: "1 \<le> ?m" "?m \<le> 12"
    using month_of_yday_range by (simp_all add: t_month_def Let_def)
  have ms: "month_start ?l ?m \<le> local_day off t - ?b"
    using month_of_yday_bounds [OF yday_bounds, of off t] by (simp add: t_month_def Let_def)
  have lo: "local_day off t \<le> local_day off u"
    unfolding local_day_def using assms(1) by (intro zdiv_mono1) auto
  have "u + off < (?b + month_start ?l (?m + 1)) * day_ns"
    using assms(2) by (simp add: next_month_def go_date_def)
  then have "local_day off u * day_ns < (?b + month_start ?l (?m + 1)) * day_ns"
    using local_day_bounds(1) [where t = u and off = off] by (rule order.strict_trans1 [rotated])
  then have hi: "local_day off u < ?b + month_start ?l (?m + 1)" by simp
  have "month_start ?l (?m + 1) \<le> (if ?l then 366 else 365)"
    by (simp add: month_start_def)
  with hi have "local_day off u < days_before (?y + 1)" by (simp add: days_before_step)
  moreover have "?b \<le> local_day off u" using lo yday_bounds(1) [of off t] by simp
  ultimately have y: "t_year off u = ?y"
    unfolding t_year_def [of off u] by (intro year_of_day_eq) auto
  show ?thesis
    unfolding t_month_def [of off u] Let_def y
    using m ms lo hi by (intro month_of_yday_eq) auto
qed

text \<open>Where the offset is a whole number of hours, all instants of one UTC hour share their
  local hour; so the code's hour skip leaves out no minute of a wanted hour.\<close>

lemma same_hour:
  assumes "off mod hour_ns = 0" "t \<le> u" "u < truncate_to hour_ns t + hour_ns"
  shows "t_hour off u = t_hour off t"
proof -
  obtain k where off: "off = k * hour_ns"
    using assms(1) by (metis div_mult_mod_eq add.right_neutral)
  define q where "q = t div hour_ns"
  have "t = q * hour_ns + t mod hour_ns" unfolding q_def by simp
  then have "q * hour_ns \<le> u" "u < q * hour_ns + hour_ns"
    using assms(2,3) pos_mod_sign [of hour_ns t] unfolding truncate_to_def by linarith+
  then have "u div hour_ns = q"
    by (intro int_div_pos_eq [of _ _ _ "u - q * hour_ns"]) auto
  then have "u div hour_ns = t div hour_ns" by (simp add: q_def)
  then have div_eq: "(u + off) div hour_ns = (t + off) div hour_ns" by (simp add: off)
  have "x mod day_ns div hour_ns = (x div hour_ns) mod 24" for x :: int
    using zmod_zmult2_eq [of 24 x hour_ns] by simp
  then show ?thesis using div_eq by (simp add: t_hour_def)
qed

end
