(* ===== verification/Cron.thy ===== *)
theory Cron
  imports GoTime
begin

text \<open>
  The cron engine, \<open>internal/cron/cron.go\<close>: validation of an expression, the parser of one
  field, and the search for the next firing time. The field sets, Go maps with \<open>true\<close> values,
  are lists of the members. The values of a field are Go \<open>int\<close>s; the loops that fill a set
  count up to the end of a range, which wraps only for an end within one step of
  \<open>2 ^ 63\<close>, so unbounded integers are used for the loop variable.

  The lemmas show that a validated field only yields values within its bounds, that the search
  for the next time terminates, and that in a zone a whole number of hours from UTC it returns
  the earliest matching minute. In a zone with a half-hour offset the hour skip, which rounds
  to UTC hours, can step over the first half of a wanted hour.
\<close>

section \<open>Validation\<close>

datatype field_error =
    EmptyValue
  | InvalidStep string
  | InvalidValue string
  | OutOfRange int int int
  | InvalidRangeStart string
  | InvalidRangeEnd string
  | InvalidRange int int int int

datatype cron_error = WrongFieldCount nat | FieldError nat string field_error

definition validate_value :: "string \<Rightarrow> int \<Rightarrow> int \<Rightarrow> field_error option" where
  "validate_value s mn mx =
     (case atoi s of
        None \<Rightarrow> Some (InvalidValue s)
      | Some v \<Rightarrow> if v < mn \<or> v > mx then Some (OutOfRange v mn mx) else None)"

definition validate_range :: "string \<Rightarrow> int \<Rightarrow> int \<Rightarrow> field_error option" where
  "validate_range expr mn mx =
     (case cut_char (CHR ''-'') expr of
        (_, None) \<Rightarrow> validate_value expr mn mx
      | (a, Some b) \<Rightarrow>
          (case atoi a of
             None \<Rightarrow> Some (InvalidRangeStart a)
           | Some st \<Rightarrow>
               (case atoi b of
                  None \<Rightarrow> Some (InvalidRangeEnd b)
                | Some en \<Rightarrow>
                    if st < mn \<or> en > mx \<or> st > en then Some (InvalidRange st en mn mx)
                    else None)))"

definition validate_part :: "string \<Rightarrow> int \<Rightarrow> int \<Rightarrow> field_error option" where
  "validate_part part0 mn mx =
     (let part = trim_space part0
      in if part = [] then Some EmptyValue
         else if part = ''*'' then None
         else (case cut_char (CHR ''/'') part of
             (a, Some b) \<Rightarrow>
               (case atoi b of
                  None \<Rightarrow> Some (InvalidStep b)
                | Some step \<Rightarrow>
                    if step \<le> 0 then Some (InvalidStep b)
                    else if a \<noteq> ''*'' then validate_range a mn mx else None)
           | (_, None) \<Rightarrow>
               if CHR ''-'' \<in> set part then validate_range part mn mx
               else validate_value part mn mx))"

fun validate_parts :: "string list \<Rightarrow> int \<Rightarrow> int \<Rightarrow> field_error option" where
  "validate_parts [] mn mx = None"
| "validate_parts (p # ps) mn mx =
     (case validate_part p mn mx of Some e \<Rightarrow> Some e | None \<Rightarrow> validate_parts ps mn mx)"

definition validate_field :: "string \<Rightarrow> int \<Rightarrow> int \<Rightarrow> field_error option" where
  "validate_field field mn mx = validate_parts (split_char (CHR '','') field) mn mx"

definition field_names :: "string list" where
  "field_names = [''minute'', ''hour'', ''day_of_month'', ''month'', ''day_of_week'']"

definition field_limits :: "(int \<times> int) list" where
  "field_limits = [(0, 59), (0, 23), (1, 31), (1, 12), (0, 6)]"

fun validate_fields :: "nat \<Rightarrow> string list \<Rightarrow> cron_error option" where
  "validate_fields i [] = None"
| "validate_fields i (f # fs) =
     (case validate_field f (fst (field_limits ! i)) (snd (field_limits ! i)) of
        Some e \<Rightarrow> Some (FieldError (i + 1) (field_names ! i) e)
      | None \<Rightarrow> validate_fields (i + 1) fs)"

definition validate :: "string \<Rightarrow> cron_error option" where
  "validate expr =
     (let fs = str_fields expr
      in if length fs \<noteq> 5 then Some (WrongFieldCount (length fs)) else validate_fields 0 fs)"

section \<open>Parsing a field\<close>

text \<open>The values of \<open>for i := start; i <= end; i += step\<close> with a positive step.\<close>

definition step_range :: "int \<Rightarrow> int \<Rightarrow> int \<Rightarrow> int list" where
  "step_range st en step = map (\<lambda>k. st + int k * step) [0..<nat ((en - st) div step + 1)]"

definition parse_part :: "string \<Rightarrow> int \<Rightarrow> int \<Rightarrow> int list" where
  "parse_part part0 mn mx =
     (let part = trim_space part0
      in (case cut_char (CHR ''/'') part of
          (a, Some b) \<Rightarrow>
            (let step = (case atoi b of None \<Rightarrow> 1 | Some n \<Rightarrow> if n \<le> 0 then 1 else n)
             in if a = ''*'' then step_range mn mx step
                else (case cut_char (CHR ''-'') a of
                    (x, Some y) \<Rightarrow>
                      (case (atoi x, atoi y) of
                         (Some st, Some en) \<Rightarrow> step_range st en step
                       | _ \<Rightarrow> [])
                  | (_, None) \<Rightarrow>
                      (case atoi a of Some st \<Rightarrow> step_range st mx step | None \<Rightarrow> [])))
        | (_, None) \<Rightarrow>
            if part = ''*'' then step_range mn mx 1
            else (case cut_char (CHR ''-'') part of
                (x, Some y) \<Rightarrow>
                  (case (atoi x, atoi y) of
                     (Some st, Some en) \<Rightarrow> step_range st en 1
                   | _ \<Rightarrow> [])
              | (_, None) \<Rightarrow>
                  (case atoi part of
                     Some v \<Rightarrow> if mn \<le> v \<and> v \<le> mx then [v] else []
                   | None \<Rightarrow> []))))"

definition parse_field :: "string \<Rightarrow> int \<Rightarrow> int \<Rightarrow> int list" where
  "parse_field field mn mx =
     (let vals = concat (map (\<lambda>p. parse_part p mn mx) (split_char (CHR '','') field))
      in if vals = [] then step_range mn mx 1 else vals)"

section \<open>The next firing time\<close>

record cron_sets =
  minute_set :: "int list"
  hour_set :: "int list"
  dom_set :: "int list"
  month_set :: "int list"
  dow_set :: "int list"

definition cron_matches :: "int \<Rightarrow> cron_sets \<Rightarrow> instant \<Rightarrow> bool" where
  "cron_matches off cs t =
     (t_month off t \<in> set (month_set cs) \<and> t_day off t \<in> set (dom_set cs) \<and>
      t_weekday off t \<in> set (dow_set cs) \<and> t_hour off t \<in> set (hour_set cs) \<and>
      t_minute off t \<in> set (minute_set cs))"

definition cron_skip :: "int \<Rightarrow> cron_sets \<Rightarrow> instant \<Rightarrow> instant" where
  "cron_skip off cs t =
     (if t_month off t \<notin> set (month_set cs) then next_month off t
      else if t_day off t \<notin> set (dom_set cs) \<or> t_weekday off t \<notin> set (dow_set cs)
        then next_day off t
      else if t_hour off t \<notin> set (hour_set cs) then truncate_to hour_ns t + hour_ns
      else t + minute_ns)"

lemma cron_skip_greater: "t < cron_skip off cs t"
proof -
  have "t < truncate_to hour_ns t + hour_ns"
    using pos_mod_bound [of hour_ns t] by (simp add: truncate_to_def)
  then show ?thesis
    using next_month_greater next_day_greater by (simp add: cron_skip_def)
qed

function next_loop :: "int \<Rightarrow> cron_sets \<Rightarrow> instant \<Rightarrow> instant \<Rightarrow> instant option" where
  "next_loop off cs limit t =
     (if t < limit then
        (if cron_matches off cs t then Some t else next_loop off cs limit (cron_skip off cs t))
      else None)"
  by pat_completeness auto
termination
proof (relation "measure (\<lambda>(off, cs, limit, t). nat (limit - t))")
  show "wf (measure (\<lambda>(off :: int, cs :: cron_sets, limit, t). nat (limit - t)))" by simp
next
  fix off :: int and cs :: cron_sets and limit t :: instant
  assume "t < limit"
  then show "((off, cs, limit, cron_skip off cs t), off, cs, limit, t)
      \<in> measure (\<lambda>(off, cs, limit, t). nat (limit - t))"
    using cron_skip_greater [of t off cs] by simp
qed

declare next_loop.simps [simp del]

definition cron_start :: "instant \<Rightarrow> instant" where
  "cron_start after = truncate_to minute_ns after + minute_ns"

definition cron_limit :: "instant \<Rightarrow> instant" where
  "cron_limit after = cron_start after + 366 * day_ns"

definition parse_sets :: "string list \<Rightarrow> cron_sets" where
  "parse_sets fs =
     \<lparr> minute_set = parse_field (fs ! 0) 0 59,
       hour_set = parse_field (fs ! 1) 0 23,
       dom_set = parse_field (fs ! 2) 1 31,
       month_set = parse_field (fs ! 3) 1 12,
       dow_set = parse_field (fs ! 4) 0 6 \<rparr>"

definition next_time :: "int \<Rightarrow> string \<Rightarrow> instant \<Rightarrow> instant" where
  "next_time off expr after =
     (let fs = str_fields expr
      in if length fs \<noteq> 5 then after + hour_ns
         else (case next_loop off (parse_sets fs) (cron_limit after) (cron_start after) of
             Some t \<Rightarrow> t
           | None \<Rightarrow> after + hour_ns))"

section \<open>Correctness of the parser\<close>

lemma set_step_range:
  "0 < step \<Longrightarrow> set (step_range st en step) = {v. st \<le> v \<and> v \<le> en \<and> (v - st) mod step = 0}"
proof -
  assume step: "0 < step"
  have "v \<in> set (step_range st en step)"
    if "st \<le> v" "v \<le> en" "(v - st) mod step = 0" for v
  proof -
    obtain k where k: "v - st = step * k" using \<open>(v - st) mod step = 0\<close> by auto
    have k0: "0 \<le> k" using k that(1) step by (metis diff_ge_0_iff_ge zero_le_mult_iff not_less order_less_le)
    have "step * k div step \<le> (en - st) div step"
      using k that(2) step by (intro zdiv_mono1) auto
    then have "nat k < nat ((en - st) div step + 1)" using k0 step by simp
    then show ?thesis
      using k k0 by (auto simp: step_range_def image_iff mult.commute intro!: bexI [of _ "nat k"])
  qed
  moreover have "st \<le> v \<and> v \<le> en \<and> (v - st) mod step = 0"
    if v: "v \<in> set (step_range st en step)" for v
  proof -
    obtain k where k: "k < nat ((en - st) div step + 1)" and vk: "v = st + int k * step"
      using v by (auto simp: step_range_def)
    have "int k \<le> (en - st) div step" using k by linarith
    then have "int k * step \<le> (en - st) div step * step" using step by simp
    also have "\<dots> \<le> en - st"
      using div_mult_mod_eq [of "en - st" step] pos_mod_sign [OF step, of "en - st"] by linarith
    finally show ?thesis using vk step by simp
  qed
  ultimately show ?thesis unfolding set_eq_iff mem_Collect_eq by metis
qed

lemma validate_value_ok:
  "validate_value s mn mx = None \<longleftrightarrow> (\<exists>v. atoi s = Some v \<and> mn \<le> v \<and> v \<le> mx)"
  by (auto simp: validate_value_def split: option.splits)

lemma cut_char_cases:
  obtains (none) "cut_char c s = (s, None)" "c \<notin> set s"
    | (some) a b where "cut_char c s = (a, Some b)" "c \<in> set s"
proof (cases "cut_char c s")
  case (Pair a r)
  then show ?thesis
    using none some cut_char_None [of c s a] cut_char_Some [of c s a]
    by (cases r) auto
qed

lemma parse_part_in_bounds:
  assumes "validate_part p mn mx = None" "mn \<le> mx"
  shows "set (parse_part p mn mx) \<subseteq> {mn..mx} \<and> parse_part p mn mx \<noteq> []"
proof -
  have nonempty: "step_range a b k \<noteq> []" if "0 < k" "a \<le> b" for a b k :: int
  proof -
    have "0 \<le> (b - a) div k" using that by (simp add: pos_imp_zdiv_nonneg_iff)
    then show ?thesis by (simp add: step_range_def)
  qed
  have stepped: "set (step_range a b k) \<subseteq> {mn..mx} \<and> step_range a b k \<noteq> []"
    if "0 < k" "mn \<le> a" "b \<le> mx" "a \<le> b" for a b k
    using that nonempty by (auto simp: set_step_range)
  let ?p = "trim_space p"
  show ?thesis
  proof (cases rule: cut_char_cases [of "CHR ''/''" ?p])
    case none
    show ?thesis
    proof (cases rule: cut_char_cases [of "CHR ''-''" ?p])
      case none': none
      then show ?thesis using assms none stepped [of 1]
        by (auto simp: validate_part_def parse_part_def Let_def validate_value_ok split: if_splits)
    next
      case (some a b)
      then show ?thesis using assms none stepped
        by (auto simp: validate_part_def parse_part_def Let_def validate_range_def
              split: if_splits option.splits)
    qed
  next
    case (some a b)
    then have star: "?p \<noteq> ''*''" and ne: "?p \<noteq> []" by auto
    obtain step where step: "atoi b = Some step" "0 < step"
      using assms(1) some star ne
      by (auto simp: validate_part_def Let_def split: option.splits if_splits)
    show ?thesis
    proof (cases "a = ''*''")
      case True
      then show ?thesis using assms(2) some step stepped by (simp add: parse_part_def Let_def)
    next
      case False
      then have vr: "validate_range a mn mx = None"
        using assms(1) some step star ne by (simp add: validate_part_def Let_def)
      show ?thesis
      proof (cases rule: cut_char_cases [of "CHR ''-''" a])
        case none': none
        then obtain v where "atoi a = Some v" "mn \<le> v" "v \<le> mx"
          using vr by (auto simp: validate_range_def validate_value_ok)
        then show ?thesis using some step False none' stepped [OF step(2), of v mx]
          by (simp add: parse_part_def Let_def)
      next
        case some': (some x y)
        then obtain st en where "atoi x = Some st" "atoi y = Some en" "mn \<le> st" "en \<le> mx" "st \<le> en"
          using vr by (auto simp: validate_range_def split: option.splits if_splits)
        then show ?thesis using some step False some' stepped [OF step(2), of st en]
          by (simp add: parse_part_def Let_def)
      qed
    qed
  qed
qed

lemma validate_parts_ok:
  "validate_parts ps mn mx = None \<longleftrightarrow> (\<forall>p \<in> set ps. validate_part p mn mx = None)"
  by (induction ps) (auto split: option.splits)

lemma parse_field_in_bounds:
  assumes "validate_field f mn mx = None" "mn \<le> mx"
  shows "set (parse_field f mn mx) \<subseteq> {mn..mx} \<and> parse_field f mn mx \<noteq> []"
proof -
  let ?ps = "split_char (CHR '','') f"
  have ok: "set (parse_part p mn mx) \<subseteq> {mn..mx} \<and> parse_part p mn mx \<noteq> []"
    if "p \<in> set ?ps" for p
    using that assms parse_part_in_bounds by (auto simp: validate_field_def validate_parts_ok)
  obtain p0 where "p0 \<in> set ?ps" using split_char_not_Nil [of "CHR '',''" f] by (cases ?ps) auto
  then have "concat (map (\<lambda>p. parse_part p mn mx) ?ps) \<noteq> []" using ok by auto
  then show ?thesis using ok by (fastforce simp: parse_field_def Let_def)
qed

section \<open>Correctness of the search\<close>

lemma next_loop_ge: "next_loop off cs limit t = Some r \<Longrightarrow> t \<le> r \<and> r < limit \<and> cron_matches off cs r"
proof (induction off cs limit t rule: next_loop.induct)
  case (1 off cs limit t)
  then show ?case
    using cron_skip_greater [of t off cs] by (auto simp: next_loop.simps [of off cs limit t] split: if_splits)
qed

text \<open>Nothing between a candidate and the next one the code tries matches.\<close>

lemma cron_skip_misses:
  assumes off: "off mod hour_ns = 0"
    and al: "t mod minute_ns = 0" "u mod minute_ns = 0"
    and nm: "\<not> cron_matches off cs t"
    and tu: "t \<le> u" "u < cron_skip off cs t"
  shows "\<not> cron_matches off cs u"
proof -
  consider (month) "t_month off t \<notin> set (month_set cs)" "cron_skip off cs t = next_month off t"
    | (day) "t_day off t \<notin> set (dom_set cs) \<or> t_weekday off t \<notin> set (dow_set cs)"
        "cron_skip off cs t = next_day off t"
    | (hour) "t_hour off t \<notin> set (hour_set cs)"
        "cron_skip off cs t = truncate_to hour_ns t + hour_ns"
    | (minute) "cron_skip off cs t = t + minute_ns"
    unfolding cron_skip_def by argo
  then show ?thesis
  proof cases
    case month
    then show ?thesis using same_month tu by (simp add: cron_matches_def)
  next
    case day
    then have eq: "local_day off u = local_day off t" using same_day tu by simp
    show ?thesis using day(1) by (auto simp: cron_matches_def fields_same_day(2,3) [OF eq])
  next
    case hour
    then show ?thesis using same_hour [OF off] tu by (simp add: cron_matches_def)
  next
    case minute
    have "minute_ns dvd u" "minute_ns dvd t" using al by (auto simp: dvd_eq_mod_eq_0)
    then have "(u - t) mod minute_ns = 0" by (metis dvd_diff dvd_eq_mod_eq_0)
    moreover have "(u - t) mod minute_ns = u - t"
      using tu minute by (intro mod_pos_pos_trivial) linarith+
    ultimately have "u = t" by linarith
    then show ?thesis using nm by simp
  qed
qed

lemma minute_aligned_hour: "(t - t mod hour_ns) mod minute_ns = 0"
proof -
  have "t - t mod hour_ns = minute_ns * (60 * (t div hour_ns))"
    using div_mult_mod_eq [of t hour_ns] by linarith
  then show ?thesis by simp
qed

lemma cron_skip_aligned:
  assumes "off mod hour_ns = 0" "t mod minute_ns = 0"
  shows "cron_skip off cs t mod minute_ns = 0"
proof -
  obtain k where off: "off = k * hour_ns"
    using assms(1) by (metis div_mult_mod_eq add.right_neutral)
  have go: "go_date off y m d mod minute_ns = 0" for y m d
  proof -
    have "go_date off y m d
        = minute_ns * (1440 * (days_before y + month_start (is_leap y) m + d - 1) - 60 * k)"
      by (simp add: go_date_def off algebra_simps)
    then show ?thesis by simp
  qed
  show ?thesis
    using assms(2) go minute_aligned_hour [of t]
    by (simp add: cron_skip_def next_month_def next_day_def truncate_to_def mod_add_eq [symmetric])
qed

lemma next_loop_least:
  assumes "off mod hour_ns = 0" "t mod minute_ns = 0"
    and "t \<le> u" "u < limit" "u mod minute_ns = 0" "cron_matches off cs u"
  shows "\<exists>r. next_loop off cs limit t = Some r \<and> r \<le> u"
  using assms
proof (induction off cs limit t rule: next_loop.induct)
  case (1 off cs limit t)
  show ?case
  proof (cases "cron_matches off cs t")
    case True
    then show ?thesis using 1 by (simp add: next_loop.simps [of off cs limit t])
  next
    case False
    have "cron_skip off cs t \<le> u"
      using cron_skip_misses [OF 1(2,3) 1(6) False 1(4)] 1(7) by linarith
    then show ?thesis
      using 1 False cron_skip_aligned by (simp add: next_loop.simps [of off cs limit t])
  qed
qed

lemma cron_start_aligned: "cron_start after mod minute_ns = 0"
  by (simp add: cron_start_def truncate_to_def mod_add_eq [symmetric])

lemma cron_start_greater: "after < cron_start after"
  using pos_mod_bound [of minute_ns after] by (simp add: cron_start_def truncate_to_def)

lemma next_time_after: "after < next_time off expr after"
  using next_loop_ge cron_start_greater [of after]
  by (fastforce simp: next_time_def Let_def split: option.splits)

lemma aligned_after_start:
  assumes "after < u" "u mod minute_ns = 0"
  shows "cron_start after \<le> u"
proof -
  obtain k where k: "u = k * minute_ns" using assms(2) by (metis div_mult_mod_eq add.right_neutral)
  define q where "q = after div minute_ns"
  have a: "after = q * minute_ns + after mod minute_ns" unfolding q_def by simp
  have s: "cron_start after = q * minute_ns + minute_ns"
    using a by (simp add: cron_start_def truncate_to_def)
  have "q * minute_ns < k * minute_ns"
    using assms(1) k a pos_mod_sign [of minute_ns after] by linarith
  then have "q + 1 \<le> k" by simp
  then have "(q + 1) * minute_ns \<le> k * minute_ns" by (intro mult_right_mono) auto
  then show ?thesis using k s by (simp add: algebra_simps)
qed

lemma next_loop_aligned:
  "next_loop off cs limit t = Some r \<Longrightarrow> off mod hour_ns = 0 \<Longrightarrow> t mod minute_ns = 0
     \<Longrightarrow> r mod minute_ns = 0"
proof (induction off cs limit t rule: next_loop.induct)
  case (1 off cs limit t)
  then show ?case
    using cron_skip_aligned [of off t cs]
    by (auto simp: next_loop.simps [of off cs limit t] split: if_splits)
qed

text \<open>The specification of the search: the minutes after a given time, up to the code's limit
  of 366 days, whose calendar and clock fields are in the five parsed sets.\<close>

definition firing_times :: "int \<Rightarrow> string \<Rightarrow> instant \<Rightarrow> instant set" where
  "firing_times off expr after =
     {u. after < u \<and> u < cron_limit after \<and> u mod minute_ns = 0
         \<and> cron_matches off (parse_sets (str_fields expr)) u}"

lemma next_loop_firing:
  assumes "off mod hour_ns = 0"
  shows "case next_loop off (parse_sets (str_fields expr)) (cron_limit after) (cron_start after) of
      None \<Rightarrow> firing_times off expr after = {}
    | Some r \<Rightarrow> r \<in> firing_times off expr after \<and> (\<forall>u \<in> firing_times off expr after. r \<le> u)"
proof -
  let ?cs = "parse_sets (str_fields expr)"
  have least: "\<exists>r. next_loop off ?cs (cron_limit after) (cron_start after) = Some r \<and> r \<le> u"
    if "u \<in> firing_times off expr after" for u
    using that next_loop_least [OF assms cron_start_aligned] aligned_after_start
    by (auto simp: firing_times_def)
  show ?thesis
  proof (cases "next_loop off ?cs (cron_limit after) (cron_start after)")
    case None
    then show ?thesis using least by fastforce
  next
    case (Some r)
    then have "r \<in> firing_times off expr after"
      using next_loop_ge [OF Some] next_loop_aligned [OF Some assms cron_start_aligned]
        cron_start_greater [of after] by (simp add: firing_times_def)
    then show ?thesis using Some least by fastforce
  qed
qed

section \<open>Properties\<close>



text \<open>Validation is sound for the parser: every field of an expression that \<open>validate\<close>
  accepts parses to a non-empty set of values within the bounds of that field, so the parser's
  silent fallbacks (a dropped part, a whole-range default) never apply to it.\<close>

theorem validate_parse_sound:
  assumes "validate expr = None"
  shows "length (str_fields expr) = 5
    \<and> (\<forall>i < 5. let (mn, mx) = field_limits ! i in
         set (parse_field (str_fields expr ! i) mn mx) \<subseteq> {mn..mx}
         \<and> (\<forall>p \<in> set (split_char (CHR '','') (str_fields expr ! i)). parse_part p mn mx \<noteq> []))"
proof -
  have len: "length (str_fields expr) = 5" and ok: "validate_fields 0 (str_fields expr) = None"
    using assms by (auto simp: validate_def Let_def split: if_splits)
  have vf: "validate_field (fs ! j) (fst (field_limits ! (i + j))) (snd (field_limits ! (i + j))) = None"
    if "validate_fields i fs = None" "j < length fs" for i j fs
    using that
  proof (induction i fs arbitrary: j rule: validate_fields.induct)
    case (2 i f fs)
    then show ?case by (cases j) (auto split: option.splits)
  qed simp
  have lim: "fst (field_limits ! i) \<le> snd (field_limits ! i)" if "i < 5" for i
    using that by (auto simp: field_limits_def less_Suc_eq eval_nat_numeral)
  show ?thesis
  proof (intro conjI allI impI)
    show "length (str_fields expr) = 5" by (rule len)
  next
    fix i :: nat
    assume i: "i < 5"
    have v: "validate_field (str_fields expr ! i) (fst (field_limits ! i)) (snd (field_limits ! i)) = None"
      using vf [OF ok, of i] i len by simp
    then have "validate_part p (fst (field_limits ! i)) (snd (field_limits ! i)) = None"
      if "p \<in> set (split_char (CHR '','') (str_fields expr ! i))" for p
      using that by (simp add: validate_field_def validate_parts_ok)
    then show "let (mn, mx) = field_limits ! i in
         set (parse_field (str_fields expr ! i) mn mx) \<subseteq> {mn..mx}
         \<and> (\<forall>p \<in> set (split_char (CHR '','') (str_fields expr ! i)). parse_part p mn mx \<noteq> [])"
      using parse_field_in_bounds [OF v lim [OF i]] parse_part_in_bounds lim [OF i]
      by (auto simp: Let_def split: prod.splits)
  qed
qed

lemma validate_parse_sound_witness:
  "validate ''*/15 0-6,12 1 * 1-5'' = None \<and> length (str_fields ''*/15 0-6,12 1 * 1-5'') = 5"
proof -
  have v: "validate ''*/15 0-6,12 1 * 1-5'' = None" by code_simp
  show ?thesis using validate_parse_sound [OF v] v by simp
qed

text \<open>In a zone with a half-hour offset (here +05:30) the search can step over firing
  times: at 08:45 local time, the expression \<open>* 9 * * *\<close> is given 09:30 although 09:00 matches.\<close>

theorem half_hour_zone_skips:
  "next_time 19800000000000 ''* 9 * * *'' 11700000000000 = 14400000000000
   \<and> 12600000000000 \<in> firing_times 19800000000000 ''* 9 * * *'' 11700000000000"
proof -
  have "next_time 19800000000000 ''* 9 * * *'' 11700000000000 = 14400000000000"
    by code_simp
  moreover have "cron_matches 19800000000000 (parse_sets (str_fields ''* 9 * * *'')) 12600000000000"
    by code_simp
  then have "12600000000000 \<in> firing_times 19800000000000 ''* 9 * * *'' 11700000000000"
    by (simp add: firing_times_def cron_limit_def cron_start_def truncate_to_def)
  ultimately show ?thesis by blast
qed

end
