(* ===== verification/EventBus.thy ===== *)
theory EventBus
  imports Prelude "HOL-Library.Multiset"
begin

text \<open>
  The publish/subscribe bus, \<open>events/bus.go\<close>: the handler table per event type, the global
  handlers, and the counter of subscription ids. Each operation holds the bus lock, so it is one
  atomic state transition. A handler is an opaque value of type \<open>'h\<close>; what calling it does is a
  parameter of \<open>publish\<close>, a function on the subscribers' state that also says whether the call
  panicked. The id counter is an unbounded number (\<open>uint64\<close> in the code; it is only incremented).
\<close>

record 'h subscription =
  sub_id :: nat
  sub_handler :: 'h

record 'h bus =
  handlers :: "(string, 'h subscription list) gomap"
  global :: "'h subscription list"
  next_id :: nat

definition new_bus :: "'h bus" where
  "new_bus = \<lparr> handlers = [], global = [], next_id = 0 \<rparr>"

definition typed_subs :: "'h bus \<Rightarrow> string \<Rightarrow> 'h subscription list" where
  "typed_subs b et = (case map_of (handlers b) et of Some subs \<Rightarrow> subs | None \<Rightarrow> [])"

definition subscribe :: "string \<Rightarrow> 'h \<Rightarrow> 'h bus \<Rightarrow> nat \<times> 'h bus" where
  "subscribe et h b =
     (let i = next_id b + 1
      in (i, b\<lparr> next_id := i,
               handlers := alist_put et (typed_subs b et @ [\<lparr> sub_id = i, sub_handler = h \<rparr>])
                             (handlers b) \<rparr>))"

definition subscribe_all :: "'h \<Rightarrow> 'h bus \<Rightarrow> nat \<times> 'h bus" where
  "subscribe_all h b =
     (let i = next_id b + 1
      in (i, b\<lparr> next_id := i, global := global b @ [\<lparr> sub_id = i, sub_handler = h \<rparr>] \<rparr>))"

text \<open>The inner loop of \<open>Unsubscribe\<close>: drop the first subscription with the id.\<close>

fun remove_sub :: "nat \<Rightarrow> 'h subscription list \<Rightarrow> 'h subscription list option" where
  "remove_sub i [] = None"
| "remove_sub i (s # ss) =
     (if sub_id s = i then Some ss else map_option ((#) s) (remove_sub i ss))"

text \<open>The outer loop ranges over the map in some order; the model uses the list's order. Ids are
  unique (\<open>bus_ok\<close> below), so at most one entry holds the id and the order does not matter.\<close>

fun remove_typed ::
  "nat \<Rightarrow> (string, 'h subscription list) gomap \<Rightarrow> (string, 'h subscription list) gomap option" where
  "remove_typed i [] = None"
| "remove_typed i ((et, subs) # m) =
     (case remove_sub i subs of
        Some subs' \<Rightarrow> Some ((et, subs') # m)
      | None \<Rightarrow> map_option ((#) (et, subs)) (remove_typed i m))"

definition unsubscribe :: "nat \<Rightarrow> 'h bus \<Rightarrow> 'h bus" where
  "unsubscribe i b =
     (case remove_typed i (handlers b) of
        Some m \<Rightarrow> b\<lparr> handlers := m \<rparr>
      | None \<Rightarrow> (case remove_sub i (global b) of
            Some g \<Rightarrow> b\<lparr> global := g \<rparr>
          | None \<Rightarrow> b))"

text \<open>\<open>Publish\<close> copies the two lists under the lock and calls the typed handlers, then the
  global ones. A panic is recovered and logged; it keeps what the handler did so far.\<close>

fun call_each ::
  "('h \<Rightarrow> 'e \<Rightarrow> 's \<Rightarrow> 's \<times> bool) \<Rightarrow> 'e \<Rightarrow> 'h subscription list \<Rightarrow> 's \<Rightarrow> 's \<times> nat list" where
  "call_each call ev [] st = (st, [])"
| "call_each call ev (s # ss) st =
     (let (st', panicked) = call (sub_handler s) ev st;
          (st'', log) = call_each call ev ss st'
      in (st'', if panicked then sub_id s # log else log))"

definition targets :: "'h bus \<Rightarrow> string \<Rightarrow> 'h subscription list" where
  "targets b et = typed_subs b et @ global b"

definition publish ::
  "('h \<Rightarrow> 'e \<Rightarrow> 's \<Rightarrow> 's \<times> bool) \<Rightarrow> 'h bus \<Rightarrow> string \<Rightarrow> 'e \<Rightarrow> 's \<Rightarrow> 's \<times> nat list" where
  "publish call b et ev st =
     (let (st1, log1) = call_each call ev (typed_subs b et) st;
          (st2, log2) = call_each call ev (global b) st1
      in (st2, log1 @ log2))"

section \<open>Invariant\<close>

definition all_subs :: "'h bus \<Rightarrow> 'h subscription list" where
  "all_subs b = concat (map snd (handlers b)) @ global b"

definition bus_ok :: "'h bus \<Rightarrow> bool" where
  "bus_ok b =
     (gm_ok (handlers b) \<and> distinct (map sub_id (all_subs b))
      \<and> (\<forall>s \<in> set (all_subs b). sub_id s \<le> next_id b))"

lemma bus_ok_new [simp, inv_intros]: "bus_ok new_bus"
  by (simp add: bus_ok_def new_bus_def all_subs_def)

lemma concat_alist_put:
  "gm_ok m \<Longrightarrow> mset (concat (map snd (alist_put k (the_default @ xs) m)))
     = mset (concat (map snd m)) + mset xs"
  if "the_default = (case map_of m k of Some v \<Rightarrow> v | None \<Rightarrow> [])"
  using that
proof (induction m arbitrary: the_default)
  case Nil
  then show ?case by (simp add: alist_put_def)
next
  case (Cons p m)
  obtain a v where p: "p = (a, v)" by force
  show ?case
  proof (cases "a = k")
    case True
    have "k \<notin> fst ` set m" using Cons.prems p True by (auto simp: gm_ok_def)
    then have "map (\<lambda>(a, b). if a = k then (a, the_default @ xs) else (a, b)) m = m"
      by (intro map_idI) force
    then show ?thesis using Cons.prems p True by (auto simp: alist_put_def simp del: map_map)
  next
    case False
    have "alist_put k (the_default @ xs) (p # m) = p # alist_put k (the_default @ xs) m"
      using p False by (auto simp: alist_put_def)
    then show ?thesis using Cons p False by (auto simp: gm_ok_def)
  qed
qed

lemma mset_all_subs_subscribe:
  assumes "bus_ok b" "subscribe et h b = (i, b')"
  shows "mset (all_subs b') = mset (all_subs b) + {# \<lparr> sub_id = i, sub_handler = h \<rparr> #}"
  using assms concat_alist_put [OF refl, of "handlers b" et "[\<lparr> sub_id = i, sub_handler = h \<rparr>]"]
  by (auto simp: subscribe_def Let_def all_subs_def bus_ok_def typed_subs_def)

lemma bus_ok_step:
  assumes "bus_ok b" "gm_ok (handlers b')" "i = next_id b + 1" "next_id b' = i"
    and m: "mset (all_subs b') = mset (all_subs b) + {# \<lparr> sub_id = i, sub_handler = h \<rparr> #}"
  shows "bus_ok b'"
proof -
  have "set (all_subs b') = insert \<lparr> sub_id = i, sub_handler = h \<rparr> (set (all_subs b))"
    using m by (metis set_mset_mset add_mset_add_single set_mset_add_mset_insert)
  moreover have "mset (map sub_id (all_subs b')) = mset (map sub_id (all_subs b) @ [i])"
    using m by (simp add: mset_map)
  then have "distinct (map sub_id (all_subs b')) = distinct (map sub_id (all_subs b) @ [i])"
    by (rule mset_eq_imp_distinct_iff)
  ultimately show ?thesis using assms(1-4) by (fastforce simp: bus_ok_def)
qed

lemma bus_ok_subscribe [inv_intros]:
  assumes "bus_ok b" "subscribe et h b = (i, b')"
  shows "bus_ok b'"
proof (rule bus_ok_step [OF assms(1) _ _ _ mset_all_subs_subscribe [OF assms]])
  show "gm_ok (handlers b')" "i = next_id b + 1" "next_id b' = i"
    using assms by (auto simp: subscribe_def Let_def bus_ok_def)
qed

lemma bus_ok_subscribe_all [inv_intros]:
  assumes "bus_ok b" "subscribe_all h b = (i, b')"
  shows "bus_ok b'"
proof (rule bus_ok_step [OF assms(1)])
  show "gm_ok (handlers b')" "i = next_id b + 1" "next_id b' = i"
    "mset (all_subs b') = mset (all_subs b) + {# \<lparr> sub_id = i, sub_handler = h \<rparr> #}"
    using assms by (auto simp: subscribe_all_def Let_def bus_ok_def all_subs_def)
qed

lemma remove_sub_filter:
  "distinct (map sub_id ss) \<Longrightarrow>
   remove_sub i ss = (if i \<in> sub_id ` set ss then Some (filter (\<lambda>s. sub_id s \<noteq> i) ss) else None)"
proof (induction ss)
  case (Cons s ss)
  have "sub_id s = i \<Longrightarrow> filter (\<lambda>s. sub_id s \<noteq> i) ss = ss"
    using Cons.prems by (intro filter_True) (auto simp: image_iff)
  then show ?case using Cons by auto
qed simp

lemma remove_typed_filter:
  "distinct (map sub_id (concat (map snd m))) \<Longrightarrow>
   remove_typed i m =
     (if i \<in> sub_id ` set (concat (map snd m))
      then Some (map (\<lambda>(et, ss). (et, filter (\<lambda>s. sub_id s \<noteq> i) ss)) m) else None)"
proof (induction m)
  case (Cons p m)
  obtain et ss where p: "p = (et, ss)" by force
  show ?case
  proof (cases "i \<in> sub_id ` set ss")
    case True
    then have "i \<notin> sub_id ` set (concat (map snd m))" using Cons.prems p by auto
    then have "map (\<lambda>(et, ss). (et, filter (\<lambda>s. sub_id s \<noteq> i) ss)) m = m"
      by (intro map_idI) (force simp: image_iff intro: filter_True)
    then show ?thesis using True Cons.prems p by (simp add: remove_sub_filter image_Un)
  next
    case False
    then have "filter (\<lambda>s. sub_id s \<noteq> i) ss = ss" by (auto intro: filter_True)
    then show ?thesis using False Cons p by (auto simp: remove_sub_filter)
  qed
qed simp

text \<open>Under the invariant, unsubscribing filters the id out of every list.\<close>

lemma unsubscribe_filter:
  assumes "bus_ok b"
  shows "unsubscribe i b =
    b\<lparr> handlers := map (\<lambda>(et, ss). (et, filter (\<lambda>s. sub_id s \<noteq> i) ss)) (handlers b),
       global := filter (\<lambda>s. sub_id s \<noteq> i) (global b) \<rparr>"
proof -
  let ?T = "concat (map snd (handlers b))"
  have d: "distinct (map sub_id ?T)" "distinct (map sub_id (global b))"
    and disj: "sub_id ` set ?T \<inter> sub_id ` set (global b) = {}"
    using assms by (auto simp: bus_ok_def all_subs_def)
  have idT: "map (\<lambda>(et, ss). (et, filter (\<lambda>s. sub_id s \<noteq> i) ss)) (handlers b) = handlers b"
    if "i \<notin> sub_id ` set ?T"
    using that by (intro map_idI) (force simp: image_iff intro: filter_True)
  have idG: "filter (\<lambda>s. sub_id s \<noteq> i) (global b) = global b" if "i \<notin> sub_id ` set (global b)"
    using that by (auto intro: filter_True)
  show ?thesis
    using remove_typed_filter [OF d(1), of i] remove_sub_filter [OF d(2), of i] disj idT idG
    by (cases "i \<in> sub_id ` set ?T"; cases "i \<in> sub_id ` set (global b)")
      (auto simp: unsubscribe_def simp del: set_concat)
qed

lemma typed_subs_unsubscribe:
  "bus_ok b \<Longrightarrow> typed_subs (unsubscribe i b) et = filter (\<lambda>s. sub_id s \<noteq> i) (typed_subs b et)"
proof -
  assume ok: "bus_ok b"
  have "map_of (map (\<lambda>(et, ss). (et, filter (\<lambda>s. sub_id s \<noteq> i) ss)) m) et
      = map_option (filter (\<lambda>s. sub_id s \<noteq> i)) (map_of m et)"
    for m :: "(string \<times> 'a subscription list) list"
    by (induction m) auto
  then show ?thesis
    by (auto simp: typed_subs_def unsubscribe_filter [OF ok] split: option.splits)
qed

lemma global_unsubscribe:
  "bus_ok b \<Longrightarrow> global (unsubscribe i b) = filter (\<lambda>s. sub_id s \<noteq> i) (global b)"
  by (simp add: unsubscribe_filter)

lemma all_subs_unsubscribe:
  "bus_ok b \<Longrightarrow> all_subs (unsubscribe i b) = filter (\<lambda>s. sub_id s \<noteq> i) (all_subs b)"
proof -
  assume ok: "bus_ok b"
  have "concat (map snd (map (\<lambda>(et, ss). (et, filter (\<lambda>s. sub_id s \<noteq> i) ss)) m))
      = filter (\<lambda>s. sub_id s \<noteq> i) (concat (map snd m))"
    for m :: "(string \<times> 'a subscription list) list"
    by (induction m) auto
  then show ?thesis by (simp add: all_subs_def unsubscribe_filter [OF ok] del: map_map)
qed

lemma bus_ok_unsubscribe [inv_intros]: "bus_ok b \<Longrightarrow> bus_ok (unsubscribe i b)"
proof -
  assume ok: "bus_ok b"
  have "map fst (map (\<lambda>(et, ss). (et, filter (\<lambda>s. sub_id s \<noteq> i) ss)) (handlers b))
      = map fst (handlers b)" by (induction "handlers b") auto
  then have "gm_ok (handlers (unsubscribe i b))"
    using ok by (simp add: bus_ok_def gm_ok_def unsubscribe_filter [OF ok] del: map_map)
  then show ?thesis
    using ok by (simp add: bus_ok_def all_subs_unsubscribe [OF ok] distinct_map_filter)
      (simp add: unsubscribe_filter [OF ok])
qed

lemma typed_subs_subscribe:
  "subscribe et h b = (i, b') \<Longrightarrow>
     typed_subs b' et' = typed_subs b et' @ (if et' = et then [\<lparr> sub_id = i, sub_handler = h \<rparr>] else [])"
  by (auto simp: subscribe_def Let_def typed_subs_def)

lemma fresh_id:
  "bus_ok b \<Longrightarrow> s \<in> set (all_subs b) \<Longrightarrow> sub_id s \<noteq> next_id b + 1"
  by (fastforce simp: bus_ok_def)

lemma typed_subs_in_all: "s \<in> set (typed_subs b et) \<Longrightarrow> s \<in> set (all_subs b)"
  by (auto simp: typed_subs_def all_subs_def split: option.splits) (metis map_of_SomeD snd_conv)

lemma global_in_all: "s \<in> set (global b) \<Longrightarrow> s \<in> set (all_subs b)"
  by (simp add: all_subs_def)

section \<open>The contract of the bus, as its clients use it\<close>

text \<open>
  The audit log, the action runner, the webhook dispatcher and the bot use the bus through
  these operations: whom a published event reaches (\<open>reached\<close>), and how subscribing and
  unsubscribing change that.
\<close>

locale event_source =
  fixes invar :: "'b \<Rightarrow> bool"
    and sub :: "string \<Rightarrow> 'h \<Rightarrow> 'b \<Rightarrow> nat \<times> 'b"
    and sub_all :: "'h \<Rightarrow> 'b \<Rightarrow> nat \<times> 'b"
    and unsub :: "nat \<Rightarrow> 'b \<Rightarrow> 'b"
    and reached :: "'b \<Rightarrow> string \<Rightarrow> (nat \<times> 'h) list"
  assumes invar_sub: "invar b \<Longrightarrow> sub et h b = (i, b') \<Longrightarrow> invar b'"
    and invar_sub_all: "invar b \<Longrightarrow> sub_all h b = (i, b') \<Longrightarrow> invar b'"
    and invar_unsub: "invar b \<Longrightarrow> invar (unsub i b)"
    and reached_sub: "invar b \<Longrightarrow> sub et h b = (i, b') \<Longrightarrow>
      \<exists>xs ys. reached b et' = xs @ ys \<and> reached b' et' = (if et' = et then xs @ (i, h) # ys else xs @ ys)"
    and reached_sub_all: "invar b \<Longrightarrow> sub_all h b = (i, b') \<Longrightarrow> reached b' et' = reached b et' @ [(i, h)]"
    and reached_unsub: "invar b \<Longrightarrow> reached (unsub i b) et' = filter (\<lambda>(j, _). j \<noteq> i) (reached b et')"
    and fresh_sub: "invar b \<Longrightarrow> sub et h b = (i, b') \<Longrightarrow> i \<notin> fst ` set (reached b et')"
    and fresh_sub_all: "invar b \<Longrightarrow> sub_all h b = (i, b') \<Longrightarrow> i \<notin> fst ` set (reached b et')"
begin

lemma filter_fresh: "i \<notin> fst ` set xs \<Longrightarrow> filter (\<lambda>(j, _). j \<noteq> i) xs = xs"
  by (rule filter_True) (auto simp: image_iff)

lemma sub_unsub:
  assumes "invar b" "sub et h b = (i, b')"
  shows "reached (unsub i b') et' = reached b et'"
proof -
  obtain xs ys where "reached b et' = xs @ ys"
    and r: "reached b' et' = (if et' = et then xs @ (i, h) # ys else xs @ ys)"
    using reached_sub [OF assms] by blast
  moreover have "i \<notin> fst ` set (reached b et')" using fresh_sub [OF assms] .
  ultimately show ?thesis
    using reached_unsub [OF invar_sub [OF assms], of i et'] filter_fresh [of i xs] filter_fresh [of i ys]
    by (auto simp: image_Un split: if_splits)
qed

lemma sub_all_unsub:
  assumes "invar b" "sub_all h b = (i, b')"
  shows "reached (unsub i b') et' = reached b et'"
  using reached_unsub [OF invar_sub_all [OF assms]] reached_sub_all [OF assms]
    filter_fresh [OF fresh_sub_all [OF assms]] by simp

lemma sub_all_once:
  assumes "invar b" "sub_all h b = (i, b')"
  shows "filter (\<lambda>(j, _). j = i) (reached b' et') = [(i, h)]"
proof -
  have "filter (\<lambda>(j, _). j = i) (reached b et') = []"
    using fresh_sub_all [OF assms, of et'] by (auto simp: filter_empty_conv image_iff)
  then show ?thesis using reached_sub_all [OF assms] by simp
qed

end

definition reached_ids :: "'h bus \<Rightarrow> string \<Rightarrow> (nat \<times> 'h) list" where
  "reached_ids b et = map (\<lambda>s. (sub_id s, sub_handler s)) (targets b et)"

lemma reached_ids_filter:
  "filter (\<lambda>(j, _). j \<noteq> i) (map (\<lambda>s. (sub_id s, sub_handler s)) xs)
     = map (\<lambda>s. (sub_id s, sub_handler s)) (filter (\<lambda>s. sub_id s \<noteq> i) xs)"
  by (induction xs) auto

interpretation bus: event_source bus_ok subscribe subscribe_all unsubscribe reached_ids
proof unfold_locales
  fix b :: "'h bus" and et h i b' et'
  assume ok: "bus_ok b" and s: "subscribe et h b = (i, b')"
  show "bus_ok b'" by (rule bus_ok_subscribe [OF ok s])
  have g: "global b' = global b" using s by (auto simp: subscribe_def Let_def)
  show "\<exists>xs ys. reached_ids b et' = xs @ ys
      \<and> reached_ids b' et' = (if et' = et then xs @ (i, h) # ys else xs @ ys)"
    by (rule exI [of _ "map (\<lambda>s. (sub_id s, sub_handler s)) (typed_subs b et')"],
        rule exI [of _ "map (\<lambda>s. (sub_id s, sub_handler s)) (global b)"])
      (simp add: reached_ids_def targets_def g typed_subs_subscribe [OF s])
  have "i = next_id b + 1" using s by (auto simp: subscribe_def Let_def)
  then show "i \<notin> fst ` set (reached_ids b et')"
    using fresh_id [OF ok] typed_subs_in_all [of _ b et'] global_in_all [of _ b]
    by (fastforce simp: reached_ids_def targets_def)
next
  fix b :: "'h bus" and h i b' et'
  assume ok: "bus_ok b" and s: "subscribe_all h b = (i, b')"
  show "bus_ok b'" by (rule bus_ok_subscribe_all [OF ok s])
  show "reached_ids b' et' = reached_ids b et' @ [(i, h)]"
    using s by (auto simp: subscribe_all_def Let_def reached_ids_def targets_def typed_subs_def)
  have "i = next_id b + 1" using s by (auto simp: subscribe_all_def Let_def)
  then show "i \<notin> fst ` set (reached_ids b et')"
    using fresh_id [OF ok] typed_subs_in_all [of _ b et'] global_in_all [of _ b]
    by (fastforce simp: reached_ids_def targets_def)
next
  fix b :: "'h bus" and i et'
  assume ok: "bus_ok b"
  show "bus_ok (unsubscribe i b)" by (rule bus_ok_unsubscribe [OF ok])
  show "reached_ids (unsubscribe i b) et' = filter (\<lambda>(j, _). j \<noteq> i) (reached_ids b et')"
    by (simp add: reached_ids_def reached_ids_filter targets_def
        typed_subs_unsubscribe [OF ok] global_unsubscribe [OF ok])
qed

section \<open>Properties\<close>

lemma call_each_append:
  "call_each call ev (xs @ ys) st =
     (let (st1, l1) = call_each call ev xs st; (st2, l2) = call_each call ev ys st1 in (st2, l1 @ l2))"
  by (induction xs arbitrary: st) (auto simp: Let_def split: prod.splits)

lemma publish_targets: "publish call b et ev st = call_each call ev (targets b et) st"
  by (simp add: publish_def targets_def call_each_append Let_def split: prod.splits)

lemma call_each_state:
  "fst (call_each call ev ss st) = foldl (\<lambda>s x. fst (call (sub_handler x) ev s)) st ss"
  by (induction ss arbitrary: st) (simp_all add: Let_def case_prod_beta)

text \<open>Delivery: publishing an event runs the handlers subscribed to its type in the order
  of their subscription and then the global ones, each exactly once and on the state the
  previous one left; a panicking handler stops none of the others.\<close>

theorem publish_delivers_all:
  "fst (publish call b et ev st) = foldl (\<lambda>s x. fst (call (sub_handler x) ev s)) st (targets b et)"
  by (simp add: publish_targets call_each_state)

text \<open>Subscribing and then unsubscribing with the returned id leaves the delivery of every
  event type as it was, for typed and for global handlers, and keeps the bus invariant (unique,
  bounded subscription ids).\<close>

theorem subscribe_unsubscribe_roundtrip:
  assumes "bus_ok b"
  shows "reached_ids (unsubscribe (fst (subscribe et h b)) (snd (subscribe et h b))) et' = reached_ids b et'
    \<and> reached_ids (unsubscribe (fst (subscribe_all h b)) (snd (subscribe_all h b))) et' = reached_ids b et'
    \<and> bus_ok (unsubscribe (fst (subscribe et h b)) (snd (subscribe et h b)))
    \<and> bus_ok (unsubscribe (fst (subscribe_all h b)) (snd (subscribe_all h b)))"
  using bus.sub_unsub [OF assms, of et h] bus.sub_all_unsub [OF assms, of h]
    bus_ok_subscribe [OF assms, of et h] bus_ok_subscribe_all [OF assms, of h]
  by (cases "subscribe et h b"; cases "subscribe_all h b") (simp add: bus_ok_unsubscribe)

lemma subscribe_unsubscribe_roundtrip_witness:
  "bus_ok (snd (subscribe_all True (snd (subscribe ''tick'' False new_bus))))
   \<and> reached_ids (unsubscribe 3 (snd (subscribe ''tick'' True
        (snd (subscribe_all True (snd (subscribe ''tick'' False new_bus))))))) ''tick''
     = [(1, False), (2, True)]"
proof -
  let ?b = "snd (subscribe_all True (snd (subscribe ''tick'' False new_bus)))"
  have ok: "bus_ok ?b"
    by (metis bus_ok_new bus_ok_subscribe bus_ok_subscribe_all prod.collapse)
  have "fst (subscribe ''tick'' True ?b) = 3" "reached_ids ?b ''tick'' = [(1, False), (2, True)]"
    by code_simp+
  then show ?thesis
    using subscribe_unsubscribe_roundtrip [OF ok, of "''tick''" True "''tick''"] ok by simp
qed

end
