(* ===== verification/WsHub.thy ===== *)
theory WsHub
  imports Prelude
begin

text \<open>
  WebSocket rooms: the hub of \<open>server/public/ws_hub.go\<close> and the connection handler
  \<open>apiWebSocket\<close> of \<open>server/public/handler.go\<close>. The code keeps pointers to clients in nested
  maps; the model keeps a store of clients, indexed by the order of their creation, and rooms
  that map client ids to indices. A client's buffered channel is the list of messages in it.
  The JSON texts the hub marshals are kept as the values they encode.
\<close>

datatype ws_msg =
    Welcome string string nat "string list"
  | JoinEvent string string nat
  | LeaveEvent string string nat
  | ErrorEvent string
  | Relayed jobj
  | ServerPush string

record ws_client =
  cl_id :: string
  cl_ch :: "ws_msg list"

type_synonym ws_room = "(string, nat) gomap"

record ws_hub =
  rooms :: "(string, ws_room) gomap"
  clients :: "ws_client list"

definition new_ws_hub :: ws_hub where
  "new_ws_hub = \<lparr> rooms = [], clients = [] \<rparr>"

definition ch_cap :: nat where "ch_cap = 128"

text \<open>\<open>select { case c.ch <- msg: default: }\<close>: queue the message if the buffer has room.\<close>

definition try_send :: "nat \<Rightarrow> ws_msg \<Rightarrow> ws_hub \<Rightarrow> bool \<times> ws_hub" where
  "try_send c msg h =
     (let cl = clients h ! c
      in if length (cl_ch cl) < ch_cap
         then (True, h\<lparr> clients := (clients h)[c := cl\<lparr> cl_ch := cl_ch cl @ [msg] \<rparr>] \<rparr>)
         else (False, h))"

definition send_error :: "nat \<Rightarrow> string \<Rightarrow> ws_hub \<Rightarrow> ws_hub" where
  "send_error c text h = snd (try_send c (ErrorEvent text) h)"

definition send_each :: "ws_msg \<Rightarrow> nat list \<Rightarrow> ws_hub \<Rightarrow> ws_hub" where
  "send_each msg cs h = fold (\<lambda>c h. snd (try_send c msg h)) cs h"

definition broadcast_all :: "string \<Rightarrow> ws_msg \<Rightarrow> ws_hub \<Rightarrow> ws_hub" where
  "broadcast_all key msg h =
     (case map_of (rooms h) key of
        None \<Rightarrow> h
      | Some room \<Rightarrow> send_each msg (map snd room) h)"

definition relay_one :: "ws_msg \<Rightarrow> nat \<Rightarrow> ws_hub \<Rightarrow> ws_hub" where
  "relay_one msg c h =
     (case try_send c msg h of
        (True, h') \<Rightarrow> h'
      | (False, h') \<Rightarrow> send_error c ''buffer full, message dropped'' h')"

definition broadcast :: "string \<Rightarrow> string \<Rightarrow> ws_msg \<Rightarrow> ws_hub \<Rightarrow> ws_hub" where
  "broadcast key sender msg h =
     (case map_of (rooms h) key of
        None \<Rightarrow> h
      | Some room \<Rightarrow>
          fold (relay_one msg) (filter (\<lambda>c. cl_id (clients h ! c) \<noteq> sender) (map snd room)) h)"

definition ws_join :: "string \<Rightarrow> string \<Rightarrow> ws_hub \<Rightarrow> nat \<times> ws_hub" where
  "ws_join key cid h =
     (let c = length (clients h);
          room = alist_put cid c (case map_of (rooms h) key of Some r \<Rightarrow> r | None \<Rightarrow> []);
          h1 = h\<lparr> clients := clients h @ [\<lparr> cl_id = cid, cl_ch = [] \<rparr>],
                  rooms := alist_put key room (rooms h) \<rparr>;
          h2 = snd (try_send c (Welcome cid key (length room) (map fst room)) h1)
      in (c, broadcast_all key (JoinEvent cid key (length room)) h2))"

definition ws_leave :: "string \<Rightarrow> string \<Rightarrow> ws_hub \<Rightarrow> ws_hub" where
  "ws_leave key cid h =
     (case map_of (rooms h) key of
        None \<Rightarrow> h
      | Some room \<Rightarrow>
          (let room' = alist_del cid room
           in if room' = [] then h\<lparr> rooms := alist_del key (rooms h) \<rparr>
              else broadcast_all key (LeaveEvent cid key (length room'))
                     (h\<lparr> rooms := alist_put key room' (rooms h) \<rparr>)))"

definition send_to :: "string \<Rightarrow> string \<Rightarrow> ws_msg \<Rightarrow> ws_hub \<Rightarrow> bool \<times> ws_hub" where
  "send_to key target msg h =
     (case map_of (rooms h) key of
        None \<Rightarrow> (False, h)
      | Some room \<Rightarrow>
          (case map_of room target of
             None \<Rightarrow> (False, h)
           | Some c \<Rightarrow> try_send c msg h))"

definition room_clients :: "string \<Rightarrow> ws_hub \<Rightarrow> string list option" where
  "room_clients key h = map_option (map fst) (map_of (rooms h) key)"

definition broadcast_to_room :: "string \<Rightarrow> string \<Rightarrow> ws_hub \<Rightarrow> ws_hub" where
  "broadcast_to_room key msg h = broadcast_all key (ServerPush msg) h"

definition active_rooms :: "string \<Rightarrow> ws_hub \<Rightarrow> (string \<times> nat) list" where
  "active_rooms pre h =
     map (\<lambda>(key, room). (key, length room)) (filter (\<lambda>(key, _). has_prefix key pre) (rooms h))"

section \<open>A connection\<close>

text \<open>
  \<open>apiWebSocket\<close> after the handshake: the connection keeps the handle of the room it joined
  first (whose channel the write pump drains), that room's key (for the deferred leave), and the
  key of the current room.
\<close>

record ws_conn =
  cn_id :: string
  cn_client :: nat
  cn_initial :: string
  cn_current :: string

record ws_config =
  wc_path :: string
  wc_room_column :: string

definition ws_room_key :: "int \<Rightarrow> string \<Rightarrow> string \<Rightarrow> string" where
  "ws_room_key site path room = itoa site @ '':'' @ path @ '':'' @ room"

definition conn_open :: "int \<Rightarrow> ws_config \<Rightarrow> string \<Rightarrow> string \<Rightarrow> ws_hub \<Rightarrow> ws_conn \<times> ws_hub" where
  "conn_open site cfg cid room h =
     (let key = ws_room_key site (wc_path cfg) room; (c, h') = ws_join key cid h
      in (\<lparr> cn_id = cid, cn_client = c, cn_initial = key, cn_current = key \<rparr>, h'))"

text \<open>The room switch: leave the current room and join the new one. The handle that \<open>join\<close>
  returns is dropped, as in the code.\<close>

definition conn_switch :: "int \<Rightarrow> ws_config \<Rightarrow> jobj \<Rightarrow> ws_conn \<times> ws_hub \<Rightarrow> ws_conn \<times> ws_hub" where
  "conn_switch site cfg msg s =
     (let (cn, h) = s in
      if wc_room_column cfg \<noteq> []
      then (case get_str_ok msg (wc_room_column cfg) of
          Some room \<Rightarrow>
            if room \<noteq> [] \<and> ws_room_key site (wc_path cfg) room \<noteq> cn_current cn
            then (cn\<lparr> cn_current := ws_room_key site (wc_path cfg) room \<rparr>,
                  snd (ws_join (ws_room_key site (wc_path cfg) room) (cn_id cn)
                         (ws_leave (cn_current cn) (cn_id cn) h)))
            else (cn, h)
        | None \<Rightarrow> (cn, h))
      else (cn, h))"

text \<open>One message read from the connection, already decoded to an object.\<close>

definition conn_message :: "int \<Rightarrow> ws_config \<Rightarrow> jobj \<Rightarrow> ws_conn \<times> ws_hub \<Rightarrow> ws_conn \<times> ws_hub" where
  "conn_message site cfg msg s =
     (let (cn, h) = conn_switch site cfg msg s;
          out = alist_put ''_sender'' (JStr (cn_id cn)) msg
      in (cn,
          (case get_str_ok out ''_to'' of
             Some to' \<Rightarrow>
               if to' \<noteq> [] then snd (send_to (cn_current cn) to' (Relayed out) h)
               else broadcast (cn_current cn) (cn_id cn) (Relayed out) h
           | None \<Rightarrow> broadcast (cn_current cn) (cn_id cn) (Relayed out) h)))"

text \<open>The write pump takes the oldest message of the connection's channel; closing runs the
  deferred leave of the room joined first.\<close>

definition conn_drain :: "ws_conn \<Rightarrow> ws_hub \<Rightarrow> ws_msg option \<times> ws_hub" where
  "conn_drain cn h =
     (case cl_ch (clients h ! cn_client cn) of
        [] \<Rightarrow> (None, h)
      | m # ms \<Rightarrow>
          (Some m, h\<lparr> clients := (clients h)[cn_client cn :=
                        (clients h ! cn_client cn)\<lparr> cl_ch := ms \<rparr>] \<rparr>))"

definition conn_close :: "ws_conn \<Rightarrow> ws_hub \<Rightarrow> ws_hub" where
  "conn_close cn h = ws_leave (cn_initial cn) (cn_id cn) h"

text \<open>\<open>GET /api/{path}/rooms\<close>: without a room, the rooms of one endpoint and their sizes.\<close>

datatype rooms_reply = RoomDetail string "string list" nat | RoomList "(string \<times> nat) list"

definition api_ws_rooms :: "int \<Rightarrow> string \<Rightarrow> string \<Rightarrow> ws_hub \<Rightarrow> rooms_reply" where
  "api_ws_rooms site path room h =
     (if room \<noteq> []
      then (let cs = (case room_clients (ws_room_key site path room) h of Some xs \<Rightarrow> xs | None \<Rightarrow> [])
            in RoomDetail room cs (length cs))
      else (let pre = itoa site @ '':'' @ path @ '':''
            in RoomList (map (\<lambda>(key, n). (drop (length pre) key, n)) (active_rooms pre h))))"

section \<open>Invariant\<close>

text \<open>Room keys are distinct, no room is empty, a client sits in a room under its own id, no
  handle is in two places, and no channel holds more than its capacity.\<close>

definition members :: "ws_hub \<Rightarrow> nat list" where
  "members h = concat (map (\<lambda>(_, room). map snd room) (rooms h))"

definition room_ok :: "ws_hub \<Rightarrow> ws_room \<Rightarrow> bool" where
  "room_ok h room =
     (room \<noteq> [] \<and> gm_ok room
      \<and> (\<forall>(cid, c) \<in> set room. c < length (clients h) \<and> cl_id (clients h ! c) = cid))"

definition hub_ok :: "ws_hub \<Rightarrow> bool" where
  "hub_ok h =
     (gm_ok (rooms h) \<and> (\<forall>(key, room) \<in> set (rooms h). room_ok h room)
      \<and> (\<forall>cl \<in> set (clients h). length (cl_ch cl) \<le> ch_cap))"

lemma hub_ok_new: "hub_ok new_ws_hub"
  by (simp add: hub_ok_def new_ws_hub_def)

lemma try_send_frame [frame]:
  "rooms (snd (try_send c m h)) = rooms h"
  "length (clients (snd (try_send c m h))) = length (clients h)"
  "c' \<noteq> c \<Longrightarrow> clients (snd (try_send c m h)) ! c' = clients h ! c'"
  by (simp_all add: try_send_def Let_def)

lemma try_send_id [frame]: "cl_id (clients (snd (try_send c m h)) ! c') = cl_id (clients h ! c')"
  by (cases "c < length (clients h)"; cases "c' = c")
    (simp_all add: try_send_def Let_def list_update_beyond)

lemma try_send_ok [inv_intros]: "hub_ok h \<Longrightarrow> hub_ok (snd (try_send c m h))"
proof -
  assume ok: "hub_ok h"
  have r: "room_ok (snd (try_send c m h)) room = room_ok h room" for room
    by (simp add: room_ok_def frame)
  have "length (cl_ch cl) \<le> ch_cap" if "cl \<in> set (clients (snd (try_send c m h)))" for cl
    using that ok set_update_subset_insert [of "clients h" c]
    by (fastforce simp: hub_ok_def try_send_def Let_def split: if_splits)
  then show ?thesis using ok by (simp add: hub_ok_def frame r)
qed

lemma relay_one_frame [frame]:
  "rooms (relay_one m c h) = rooms h"
  "length (clients (relay_one m c h)) = length (clients h)"
  "c' \<noteq> c \<Longrightarrow> clients (relay_one m c h) ! c' = clients h ! c'"
  "cl_id (clients (relay_one m c h) ! c'') = cl_id (clients h ! c'')"
  "hub_ok h \<Longrightarrow> hub_ok (relay_one m c h)"
proof -
  obtain b h' where t: "try_send c m h = (b, h')" by force
  have f: "rooms h' = rooms h" "length (clients h') = length (clients h)"
    "c' \<noteq> c \<Longrightarrow> clients h' ! c' = clients h ! c'"
    "cl_id (clients h' ! c'') = cl_id (clients h ! c'')" "hub_ok h \<Longrightarrow> hub_ok h'"
    using try_send_frame [where c = c and m = m and h = h] try_send_id [where c = c and m = m and h = h]
      try_send_ok [of h c m] t by auto
  have "relay_one m c h = (if b then h' else snd (try_send c (ErrorEvent ''buffer full, message dropped'') h'))"
    by (simp add: relay_one_def t send_error_def)
  then show "rooms (relay_one m c h) = rooms h"
    "length (clients (relay_one m c h)) = length (clients h)"
    "c' \<noteq> c \<Longrightarrow> clients (relay_one m c h) ! c' = clients h ! c'"
    "cl_id (clients (relay_one m c h) ! c'') = cl_id (clients h ! c'')"
    "hub_ok h \<Longrightarrow> hub_ok (relay_one m c h)"
    using f by (simp_all add: try_send_frame try_send_id try_send_ok)
qed

lemma fold_frame:
  assumes "\<And>c h. rooms (f c h) = rooms h" "\<And>c h. length (clients (f c h)) = length (clients h)"
    and "\<And>c c' h. c' \<noteq> c \<Longrightarrow> clients (f c h) ! c' = clients h ! c'"
    and "\<And>c c' h. cl_id (clients (f c h) ! c') = cl_id (clients h ! c')"
    and "\<And>c h. hub_ok h \<Longrightarrow> hub_ok (f c h)"
  shows "rooms (fold f cs h) = rooms h" "length (clients (fold f cs h)) = length (clients h)"
    "c' \<notin> set cs \<Longrightarrow> clients (fold f cs h) ! c' = clients h ! c'"
    "cl_id (clients (fold f cs h) ! c'') = cl_id (clients h ! c'')"
    "hub_ok h \<Longrightarrow> hub_ok (fold f cs h)"
  by (induction cs arbitrary: h) (auto simp: assms)

lemmas send_each_frame = fold_frame [where f = "\<lambda>c h. snd (try_send c m h)" for m,
    OF try_send_frame try_send_id try_send_ok, folded send_each_def]

lemmas relay_frame = fold_frame [where f = "relay_one m" for m, OF relay_one_frame]

lemma broadcast_all_frame [frame]:
  "rooms (broadcast_all key m h) = rooms h"
  "length (clients (broadcast_all key m h)) = length (clients h)"
  "cl_id (clients (broadcast_all key m h) ! c) = cl_id (clients h ! c)"
  "hub_ok h \<Longrightarrow> hub_ok (broadcast_all key m h)"
  by (auto simp: broadcast_all_def send_each_frame split: option.splits)

lemma broadcast_all_others:
  "(\<And>room. map_of (rooms h) key = Some room \<Longrightarrow> c \<notin> snd ` set room) \<Longrightarrow>
     clients (broadcast_all key m h) ! c = clients h ! c"
  by (auto simp: broadcast_all_def send_each_frame split: option.splits)

lemma broadcast_frame [frame]:
  "rooms (broadcast key s m h) = rooms h"
  "length (clients (broadcast key s m h)) = length (clients h)"
  "hub_ok h \<Longrightarrow> hub_ok (broadcast key s m h)"
  by (auto simp: broadcast_def relay_frame split: option.splits)

lemma broadcast_others:
  "(\<And>room. map_of (rooms h) key = Some room \<Longrightarrow> c \<notin> snd ` set room \<or> cl_id (clients h ! c) = s) \<Longrightarrow>
     clients (broadcast key s m h) ! c = clients h ! c"
  by (cases "map_of (rooms h) key") (force simp: broadcast_def relay_frame)+

subsection \<open>Joining and leaving\<close>

definition room_of :: "ws_hub \<Rightarrow> string \<Rightarrow> ws_room" where
  "room_of h key = (case map_of (rooms h) key of Some r \<Rightarrow> r | None \<Rightarrow> [])"

lemma rooms_join [frame]:
  "rooms (snd (ws_join key cid h))
     = alist_put key (alist_put cid (length (clients h)) (room_of h key)) (rooms h)"
  by (simp add: ws_join_def Let_def frame room_of_def)

lemma fst_ws_join [simp]: "fst (ws_join key cid h) = length (clients h)"
  by (simp add: ws_join_def Let_def)

lemma length_join [frame]: "length (clients (snd (ws_join key cid h))) = Suc (length (clients h))"
  by (simp add: ws_join_def Let_def frame)

lemma rooms_leave [frame]:
  "rooms (ws_leave key cid h) =
     (case map_of (rooms h) key of
        None \<Rightarrow> rooms h
      | Some room \<Rightarrow> if alist_del cid room = [] then alist_del key (rooms h)
                     else alist_put key (alist_del cid room) (rooms h))"
  by (simp add: ws_leave_def Let_def frame split: option.splits)

lemma length_leave [frame]: "length (clients (ws_leave key cid h)) = length (clients h)"
  by (simp add: ws_leave_def Let_def frame split: option.splits)

lemma set_alist_put: "set (alist_put k v m) \<subseteq> insert (k, v) (set m)"
  by (auto simp: alist_put_def split: if_splits)

lemma alist_put_not_Nil [simp]: "alist_put k v m \<noteq> []"
  by (cases m) (auto simp: alist_put_def)

lemma map_of_in_rooms: "map_of (rooms h) key = Some room \<Longrightarrow> (key, room) \<in> set (rooms h)"
  by (rule map_of_SomeD)

lemma hub_ok_room: "hub_ok h \<Longrightarrow> map_of (rooms h) key = Some room \<Longrightarrow> room_ok h room"
  using map_of_in_rooms by (fastforce simp: hub_ok_def)

lemma room_of_bound:
  "hub_ok h \<Longrightarrow> (cid, c) \<in> set (room_of h key) \<Longrightarrow> c < length (clients h) \<and> cl_id (clients h ! c) = cid"
  using hub_ok_room [of h key] by (cases "map_of (rooms h) key") (fastforce simp: room_of_def room_ok_def)+

lemma hub_ok_leave [inv_intros]:
  assumes ok: "hub_ok h"
  shows "hub_ok (ws_leave key cid h)"
proof (cases "map_of (rooms h) key")
  case None
  then show ?thesis using ok by (simp add: ws_leave_def)
next
  case (Some room)
  let ?room = "alist_del cid room"
  have r: "room_ok h room" using hub_ok_room [OF ok Some] .
  show ?thesis
  proof (cases "?room = []")
    case True
    then show ?thesis using Some ok
      by (auto simp: ws_leave_def hub_ok_def room_ok_def alist_del_def [of key] gm_ok_filter)
  next
    case False
    then have "room_ok h ?room" using r by (auto simp: room_ok_def alist_del_def intro: gm_ok_filter)
    then have "hub_ok (h\<lparr> rooms := alist_put key ?room (rooms h) \<rparr>)"
      using ok set_alist_put [of key ?room "rooms h"] by (fastforce simp: hub_ok_def room_ok_def)
    then show ?thesis using Some False by (simp add: ws_leave_def Let_def frame)
  qed
qed

lemma hub_ok_join [inv_intros]:
  assumes ok: "hub_ok h"
  shows "hub_ok (snd (ws_join key cid h))"
proof -
  let ?c = "length (clients h)"
  let ?room = "alist_put cid ?c (room_of h key)"
  let ?h = "h\<lparr> clients := clients h @ [\<lparr> cl_id = cid, cl_ch = [] \<rparr>], rooms := alist_put key ?room (rooms h) \<rparr>"
  have g: "gm_ok (room_of h key)"
    using ok hub_ok_room by (fastforce simp: room_of_def room_ok_def split: option.splits)
  have old: "room_ok ?h room" if "room_ok h room" for room
    using that by (fastforce simp: room_ok_def nth_append)
  have "room_ok ?h ?room"
    using g set_alist_put [of cid ?c "room_of h key"] room_of_bound [OF ok, of _ _ key]
    by (fastforce simp: room_ok_def nth_append)
  then have "hub_ok ?h"
    using ok old set_alist_put [of key ?room "rooms h"]
    by (fastforce simp: hub_ok_def)
  then show ?thesis
    by (simp add: ws_join_def Let_def frame room_of_def inv_intros)
qed

lemma hub_ok_send_to [inv_intros]: "hub_ok h \<Longrightarrow> hub_ok (snd (send_to key t m h))"
  by (simp add: send_to_def try_send_ok split: option.splits)

lemma hub_ok_switch [inv_intros]: "hub_ok (snd s) \<Longrightarrow> hub_ok (snd (conn_switch site cfg msg s))"
  by (cases s) (auto simp: conn_switch_def Let_def inv_intros split: option.splits)

lemma hub_ok_message [inv_intros]:
  assumes "hub_ok (snd s)"
  shows "hub_ok (snd (conn_message site cfg msg s))"
proof -
  obtain cn h where s: "conn_switch site cfg msg s = (cn, h)" by force
  then have "hub_ok h" using hub_ok_switch [OF assms, of site cfg msg] by simp
  then show ?thesis using s
    by (auto simp: conn_message_def Let_def frame inv_intros split: option.splits)
qed

lemma hub_ok_drain [inv_intros]:
  assumes "hub_ok h" "cn_client cn < length (clients h)"
  shows "hub_ok (snd (conn_drain cn h))"
proof (cases "cl_ch (clients h ! cn_client cn)")
  case Nil
  then show ?thesis using assms by (simp add: conn_drain_def)
next
  case (Cons m ms)
  let ?h = "h\<lparr> clients := (clients h)[cn_client cn := (clients h ! cn_client cn)\<lparr> cl_ch := ms \<rparr>] \<rparr>"
  have id: "cl_id (clients ?h ! c) = cl_id (clients h ! c)" for c
    using assms(2) by (cases "c = cn_client cn") simp_all
  have "length (cl_ch (clients h ! cn_client cn)) \<le> ch_cap"
    using assms by (auto simp: hub_ok_def)
  then have "\<forall>cl \<in> set (clients ?h). length (cl_ch cl) \<le> ch_cap"
    using assms(1) set_update_subset_insert [of "clients h" "cn_client cn"] Cons
    by (fastforce simp: hub_ok_def)
  moreover have "room_ok ?h room = room_ok h room" for room
    unfolding room_ok_def id by simp
  ultimately show ?thesis using assms Cons by (simp add: conn_drain_def hub_ok_def)
qed

text \<open>Hub states reachable by connections that open, send, drain and close, and by server
  pushes, in any order.\<close>

inductive hub_reachable :: "ws_hub \<Rightarrow> bool" where
  start: "hub_reachable new_ws_hub"
| opened: "hub_reachable h \<Longrightarrow> hub_reachable (snd (conn_open site cfg cid room h))"
| message: "hub_reachable h \<Longrightarrow> hub_reachable (snd (conn_message site cfg msg (cn, h)))"
| drain: "hub_reachable h \<Longrightarrow> cn_client cn < length (clients h) \<Longrightarrow> hub_reachable (snd (conn_drain cn h))"
| close: "hub_reachable h \<Longrightarrow> hub_reachable (conn_close cn h)"
| push: "hub_reachable h \<Longrightarrow> hub_reachable (broadcast_to_room key text h)"

lemma reachable_hub_ok: "hub_reachable h \<Longrightarrow> hub_ok h"
proof (induction rule: hub_reachable.induct)
  case (opened h site cfg cid room)
  then show ?case
    using hub_ok_join by (simp add: conn_open_def Let_def case_prod_beta)
next
  case (message h site cfg msg cn)
  then show ?case using hub_ok_message [of "(cn, h)"] by simp
qed (simp_all add: hub_ok_new hub_ok_drain conn_close_def hub_ok_leave broadcast_to_room_def
    broadcast_all_frame)

subsection \<open>What a broadcast delivers\<close>

lemma room_handles_distinct: "room_ok h room \<Longrightarrow> distinct (map snd room)"
proof -
  assume ok: "room_ok h room"
  have ids: "cl_id (clients h ! snd x) = fst x" if "x \<in> set room" for x
    using ok that by (auto simp: room_ok_def)
  have "inj_on snd (set room)"
    by (rule inj_onI) (metis ids prod_eqI)
  moreover have "distinct room" using ok by (simp add: room_ok_def gm_ok_def distinct_map)
  ultimately show ?thesis by (simp add: distinct_map)
qed

lemma relay_one_target:
  assumes "c < length (clients h)" "length (cl_ch (clients h ! c)) \<le> ch_cap"
  shows "clients (relay_one m c h) ! c =
    (if length (cl_ch (clients h ! c)) < ch_cap
     then (clients h ! c)\<lparr> cl_ch := cl_ch (clients h ! c) @ [m] \<rparr> else clients h ! c)"
  using assms by (simp add: relay_one_def send_error_def try_send_def Let_def)

lemma fold_relay_target:
  assumes "distinct cs" "\<forall>c \<in> set cs. c < length (clients h)" "hub_ok h" "c < length (clients h)"
  shows "clients (fold (relay_one m) cs h) ! c =
    (if c \<in> set cs \<and> length (cl_ch (clients h ! c)) < ch_cap
     then (clients h ! c)\<lparr> cl_ch := cl_ch (clients h ! c) @ [m] \<rparr> else clients h ! c)"
  using assms
proof (induction cs arbitrary: h)
  case Nil
  then show ?case by simp
next
  case (Cons d cs)
  have len: "length (cl_ch (clients h ! c)) \<le> ch_cap" if "c < length (clients h)" for c
    using Cons.prems(3) that by (auto simp: hub_ok_def)
  have IH: "clients (fold (relay_one m) cs (relay_one m d h)) ! c =
    (if c \<in> set cs \<and> length (cl_ch (clients (relay_one m d h) ! c)) < ch_cap
     then (clients (relay_one m d h) ! c)\<lparr> cl_ch := cl_ch (clients (relay_one m d h) ! c) @ [m] \<rparr>
     else clients (relay_one m d h) ! c)"
    using Cons.prems by (intro Cons.IH) (auto simp: relay_one_frame)
  show ?case
  proof (cases "c = d")
    case True
    then show ?thesis using Cons.prems IH relay_one_target [of d h m] len [of d] by simp
  next
    case False
    then show ?thesis using IH by (simp add: relay_one_frame)
  qed
qed

section \<open>Properties\<close>

text \<open>C22. Room isolation: relaying a message to a room appends it to the channel of every member
  other than the sender whose buffer has space, and changes no other channel (no other room's, no
  full one, not the sender's), whatever has happened on the hub before.\<close>

theorem broadcast_exact:
  assumes "hub_reachable h" "c < length (clients h)"
  shows "clients (broadcast key sender m h) ! c =
    (if c \<in> snd ` set (room_of h key) \<and> cl_id (clients h ! c) \<noteq> sender
        \<and> length (cl_ch (clients h ! c)) < ch_cap
     then (clients h ! c)\<lparr> cl_ch := cl_ch (clients h ! c) @ [m] \<rparr> else clients h ! c)"
proof (cases "map_of (rooms h) key")
  case None
  then show ?thesis by (simp add: broadcast_def room_of_def)
next
  case (Some room)
  have ok: "hub_ok h" by (rule reachable_hub_ok [OF assms(1)])
  have r: "room_ok h room" by (rule hub_ok_room [OF ok Some])
  let ?cs = "filter (\<lambda>c. cl_id (clients h ! c) \<noteq> sender) (map snd room)"
  have "distinct ?cs" using room_handles_distinct [OF r] by simp
  moreover have "\<forall>c \<in> set ?cs. c < length (clients h)" using r by (auto simp: room_ok_def)
  ultimately show ?thesis
    using fold_relay_target [OF _ _ ok assms(2), of ?cs m] Some
    by (auto simp: broadcast_def room_of_def)
qed

lemma broadcast_exact_witness:
  "cl_ch (clients (broadcast ''1:chat:'' ''a'' (ServerPush ''hi'')
      (snd (conn_open 1 \<lparr> wc_path = ''chat'', wc_room_column = [] \<rparr> ''a'' [] new_ws_hub))) ! 0)
   = cl_ch (clients (snd (conn_open 1 \<lparr> wc_path = ''chat'', wc_room_column = [] \<rparr> ''a'' [] new_ws_hub)) ! 0)"
proof -
  let ?h = "snd (conn_open 1 \<lparr> wc_path = ''chat'', wc_room_column = [] \<rparr> ''a'' [] new_ws_hub)"
  have r: "hub_reachable ?h" by (intro hub_reachable.intros)
  have n: "0 < length (clients ?h)" and i: "cl_id (clients ?h ! 0) = ''a''" by code_simp+
  show ?thesis
    using broadcast_exact [OF r n, of "''1:chat:''" "''a''" "ServerPush ''hi''"] i by simp
qed

text \<open>Hub invariant: in every reachable state no empty room is kept, room keys and client ids
  within a room are distinct, a client sits in a room under its own id, and no outbound buffer
  exceeds its capacity of 128.\<close>

theorem hub_invariant:
  assumes "hub_reachable h"
  shows "gm_ok (rooms h)
    \<and> (\<forall>(key, room) \<in> set (rooms h). room \<noteq> [] \<and> gm_ok room \<and> distinct (map snd room)
         \<and> (\<forall>(cid, c) \<in> set room. c < length (clients h) \<and> cl_id (clients h ! c) = cid))
    \<and> (\<forall>cl \<in> set (clients h). length (cl_ch cl) \<le> 128)"
  using reachable_hub_ok [OF assms] room_handles_distinct
  by (fastforce simp: hub_ok_def room_ok_def ch_cap_def)

lemma hub_invariant_witness:
  "gm_ok (rooms (conn_close \<lparr> cn_id = ''a'', cn_client = 0, cn_initial = ''1:chat:'', cn_current = [] \<rparr>
     (snd (conn_open 1 \<lparr> wc_path = ''chat'', wc_room_column = [] \<rparr> ''a'' [] new_ws_hub))))"
  using hub_invariant [OF hub_reachable.close [OF hub_reachable.opened [OF hub_reachable.start]]]
  by blast

text \<open>Room switching loses the connection: after a message with another room in the room
  column, the hub holds a new client for the connection's id in that room, but the write pump
  still drains the channel of the first join; no later relay to the current room reaches it. And
  closing the connection leaves only the first room, so the id stays in the room it moved to.\<close>

theorem switch_disconnects_pump:
  fixes site :: int and cid :: string
  assumes "hub_reachable h" "wc_room_column cfg \<noteq> []"
    and "get_str_ok msg (wc_room_column cfg) = Some room'" "room' \<noteq> []" "room' \<noteq> room"
  defines "s1 \<equiv> conn_open site cfg cid room h"
  defines "s2 \<equiv> conn_switch site cfg msg s1"
  shows "clients (broadcast (cn_current (fst s2)) sender m (snd s2)) ! cn_client (fst s2)
      = clients (snd s2) ! cn_client (fst s2)
    \<and> map_of (room_of (conn_close (fst s2) (snd s2)) (cn_current (fst s2))) cid \<noteq> None"
proof -
  have ok: "hub_ok h" by (rule reachable_hub_ok [OF assms(1)])
  let ?k = "ws_room_key site (wc_path cfg) room" and ?k' = "ws_room_key site (wc_path cfg) room'"
  have kk: "?k' \<noteq> ?k" using assms(5) by (simp add: ws_room_key_def)
  let ?h1 = "snd (ws_join ?k cid h)"
  let ?c = "length (clients h)"
  have s1: "s1 = (\<lparr> cn_id = cid, cn_client = ?c, cn_initial = ?k, cn_current = ?k \<rparr>, ?h1)"
    by (simp add: s1_def conn_open_def Let_def case_prod_beta)
  let ?h2 = "ws_leave ?k cid ?h1"
  let ?h3 = "snd (ws_join ?k' cid ?h2)"
  have s2: "s2 = (\<lparr> cn_id = cid, cn_client = ?c, cn_initial = ?k, cn_current = ?k' \<rparr>, ?h3)"
    using assms(2-4) kk by (simp add: s2_def s1 conn_switch_def)
  have same: "map_of (rooms ?h2) ?k' = map_of (rooms h) ?k'"
    using kk by (auto simp: frame split: option.splits)
  have room3: "map_of (rooms ?h3) ?k' = Some (alist_put cid (Suc ?c) (room_of h ?k'))"
    by (simp add: rooms_join length_leave length_join room_of_def same)
  have "?c \<notin> snd ` set (alist_put cid (Suc ?c) (room_of h ?k'))"
    using set_alist_put [of cid "Suc ?c" "room_of h ?k'"] room_of_bound [OF ok, of _ _ ?k'] by fastforce
  then have "clients (broadcast ?k' sender m ?h3) ! ?c = clients ?h3 ! ?c"
    using room3 by (intro broadcast_others) simp
  moreover have "map_of (rooms (ws_leave ?k cid ?h3)) ?k' = map_of (rooms ?h3) ?k'"
    using kk by (simp add: rooms_leave split: option.splits)
  then have "map_of (room_of (ws_leave ?k cid ?h3) ?k') cid = Some (Suc ?c)"
    using room3 by (simp add: room_of_def)
  ultimately show ?thesis by (simp add: s2 conn_close_def)
qed

lemma switch_disconnects_pump_witness:
  "get_str_ok [(''room'', JStr ''b'')] ''room'' = Some ''b''
   \<and> map_of (room_of (conn_close
        (fst (conn_switch 1 \<lparr> wc_path = ''chat'', wc_room_column = ''room'' \<rparr> [(''room'', JStr ''b'')]
           (conn_open 1 \<lparr> wc_path = ''chat'', wc_room_column = ''room'' \<rparr> ''x'' ''a'' new_ws_hub)))
        (snd (conn_switch 1 \<lparr> wc_path = ''chat'', wc_room_column = ''room'' \<rparr> [(''room'', JStr ''b'')]
           (conn_open 1 \<lparr> wc_path = ''chat'', wc_room_column = ''room'' \<rparr> ''x'' ''a'' new_ws_hub))))
        (cn_current (fst (conn_switch 1 \<lparr> wc_path = ''chat'', wc_room_column = ''room'' \<rparr> [(''room'', JStr ''b'')]
           (conn_open 1 \<lparr> wc_path = ''chat'', wc_room_column = ''room'' \<rparr> ''x'' ''a'' new_ws_hub))))) ''x'' \<noteq> None"
proof -
  have g: "get_str_ok [(''room'', JStr ''b'')]
      (wc_room_column \<lparr> wc_path = ''chat'', wc_room_column = ''room'' \<rparr>) = Some ''b''"
    by (simp add: get_str_ok_def)
  show ?thesis
    using switch_disconnects_pump [OF hub_reachable.start _ g, of "''a''" 1 "''x''"] g by simp
qed

end
