(* ===== verification/PlanData.thy ===== *)
theory PlanData
  imports Prelude
begin

text \<open>
  The build specification of \<open>brain/plan.go\<close>: the \<open>Plan\<close> and \<open>PlanPatch\<close> types,
  \<open>ApplyPatch\<close>, \<open>ValidatePlan\<close>, and the endpoint normalisation and tool selection
  that \<open>brain/stages.go\<close> runs on a plan. A nil-able Go pointer or map is an option; the
  only operation that tells a nil map from an empty one is a write to it, which panics.
\<close>

section \<open>Types\<close>

record library_spec =
  lib_name :: string
  lib_url :: string
  lib_purpose :: string

record typography_spec =
  heading_font :: string
  body_font :: string

record design_system =
  ds_colors :: "(string, string) gomap option"
  ds_extended :: "(string, string) gomap option"
  ds_typography :: "typography_spec option"
  ds_intent :: string
  ds_dark :: bool
  ds_components :: "(string, string) gomap option"

record layout_spec =
  lay_style :: string
  lay_nav :: "string list"
  lay_header :: string
  lay_footer :: string

record section_spec =
  sec_name :: string
  sec_purpose :: string
  sec_hint :: string
  sec_endpoints :: "string list"
  sec_flow :: string

record page_spec =
  pg_path :: string
  pg_title :: string
  pg_purpose :: string
  pg_sections :: "section_spec list"
  pg_endpoints :: "string list"
  pg_auth :: bool
  pg_notes :: string

record webhook_spec =
  wh_name :: string
  wh_direction :: string
  wh_url :: string
  wh_events :: "string list"

record action_spec =
  ac_name :: string
  ac_event :: string
  ac_type :: string
  ac_config :: jobj
  ac_filter :: jobj

record component_spec =
  cmp_name :: string
  cmp_purpose :: string

record task_spec =
  tk_name :: string
  tk_description :: string
  tk_prompt :: string
  tk_cron :: string
  tk_interval :: int

record endpoint_spec =
  ep_action :: string
  ep_path :: string
  ep_table :: string
  ep_requires_auth :: bool
  ep_public_read :: bool
  ep_streaming :: "bool option"
  ep_room_column :: string
  ep_write_table :: string
  ep_events :: "string list"
  ep_username_col :: string
  ep_password_col :: string
  ep_default_role :: string
  ep_role_column :: string
  ep_jwt_hours :: int
  ep_public_columns :: "string list"
  ep_owner_column :: string

record column_def =
  col_name :: string
  col_type :: string
  col_primary :: bool
  col_required :: bool

record table_spec =
  tb_name :: string
  tb_purpose :: string
  tb_columns :: "column_def list"
  tb_seed :: "json option"
  tb_searchable :: "string list"

record plan_question =
  q_question :: string
  q_type :: string
  q_options :: "string list"
  q_secret :: string
  q_fields :: string

record plan =
  p_app_type :: string
  p_architecture :: string
  p_auth_strategy :: string
  p_design :: "design_system option"
  p_layout :: "layout_spec option"
  p_tables :: "table_spec list"
  p_endpoints :: "endpoint_spec list"
  p_pages :: "page_spec list"
  p_libraries :: "library_spec list"
  p_exclusions :: "string list"
  p_webhooks :: "webhook_spec list"
  p_actions :: "action_spec list"
  p_components :: "component_spec list"
  p_tasks :: "task_spec list"
  p_questions :: "plan_question list"

record plan_patch =
  add_pages :: "page_spec list"
  modify_pages :: "page_spec list"
  remove_pages :: "string list"
  add_endpoints :: "endpoint_spec list"
  modify_endpoints :: "endpoint_spec list"
  add_tables :: "table_spec list"
  modify_tables :: "table_spec list"
  add_webhooks :: "webhook_spec list"
  add_components :: "component_spec list"
  add_tasks :: "task_spec list"
  update_css :: bool
  update_nav :: bool
  update_auth_strategy :: string
  update_design :: "design_system option"
  update_layout :: "layout_spec option"

definition section_names :: "page_spec \<Rightarrow> string list" where
  "section_names pg = map sec_name (pg_sections pg)"

definition get_architecture :: "plan \<Rightarrow> string" where
  "get_architecture p = p_architecture p"

definition has_websocket_endpoints :: "plan \<Rightarrow> bool" where
  "has_websocket_endpoints p = list_ex (\<lambda>ep. ep_action ep = ''create_websocket'') (p_endpoints p)"

definition has_parameterized_routes :: "plan \<Rightarrow> bool" where
  "has_parameterized_routes p = list_ex (\<lambda>pg. contains (pg_path pg) '':'') (p_pages p)"

text \<open>The zero values the code and the witnesses start from.\<close>

definition empty_endpoint :: endpoint_spec where
  "empty_endpoint =
     \<lparr>ep_action = [], ep_path = [], ep_table = [], ep_requires_auth = False, ep_public_read = False,
      ep_streaming = None, ep_room_column = [], ep_write_table = [], ep_events = [],
      ep_username_col = [], ep_password_col = [], ep_default_role = [], ep_role_column = [],
      ep_jwt_hours = 0, ep_public_columns = [], ep_owner_column = []\<rparr>"

definition empty_page :: page_spec where
  "empty_page = \<lparr>pg_path = [], pg_title = [], pg_purpose = [], pg_sections = [], pg_endpoints = [],
     pg_auth = False, pg_notes = []\<rparr>"

definition empty_design :: design_system where
  "empty_design = \<lparr>ds_colors = None, ds_extended = None, ds_typography = None, ds_intent = [],
     ds_dark = False, ds_components = None\<rparr>"

definition empty_layout :: layout_spec where
  "empty_layout = \<lparr>lay_style = [], lay_nav = [], lay_header = [], lay_footer = []\<rparr>"

definition empty_plan :: plan where
  "empty_plan = \<lparr>p_app_type = [], p_architecture = [], p_auth_strategy = [], p_design = None,
     p_layout = None, p_tables = [], p_endpoints = [], p_pages = [], p_libraries = [],
     p_exclusions = [], p_webhooks = [], p_actions = [], p_components = [], p_tasks = [],
     p_questions = []\<rparr>"

definition empty_patch :: plan_patch where
  "empty_patch = \<lparr>add_pages = [], modify_pages = [], remove_pages = [], add_endpoints = [],
     modify_endpoints = [], add_tables = [], modify_tables = [], add_webhooks = [],
     add_components = [], add_tasks = [], update_css = False, update_nav = False,
     update_auth_strategy = [], update_design = None, update_layout = None\<rparr>"

section \<open>Applying a patch\<close>

fun remove_first :: "('a \<Rightarrow> bool) \<Rightarrow> 'a list \<Rightarrow> 'a list" where
  "remove_first P [] = []"
| "remove_first P (x # xs) = (if P x then xs else x # remove_first P xs)"

fun replace_first :: "('a \<Rightarrow> bool) \<Rightarrow> 'a \<Rightarrow> 'a list \<Rightarrow> 'a list" where
  "replace_first P y [] = []"
| "replace_first P y (x # xs) = (if P x then y # xs else x # replace_first P y xs)"

definition replace_or_append :: "('a \<Rightarrow> bool) \<Rightarrow> 'a \<Rightarrow> 'a list \<Rightarrow> 'a list" where
  "replace_or_append P y xs = (if list_ex P xs then replace_first P y xs else xs @ [y])"

text \<open>The exclusion filter looks for ``no auth'' in the exclusions joined by spaces.\<close>

definition patch_add_endpoints :: "plan \<Rightarrow> plan_patch \<Rightarrow> endpoint_spec list" where
  "patch_add_endpoints p patch =
     (if p_exclusions p = [] then add_endpoints patch
      else filter (\<lambda>ep. \<not> (ep_action ep = ''create_auth''
                         \<and> contains (join '' '' (p_exclusions p)) ''no auth''))
             (add_endpoints patch))"

definition patch_pages :: "plan_patch \<Rightarrow> page_spec list \<Rightarrow> page_spec list" where
  "patch_pages patch ps =
     fold (\<lambda>m. replace_first (\<lambda>pg. pg_path pg = pg_path m) m) (modify_pages patch)
       (fold (\<lambda>rm. remove_first (\<lambda>pg. pg_path pg = rm)) (remove_pages patch) ps)
     @ add_pages patch"

definition patch_endpoints :: "plan_patch \<Rightarrow> endpoint_spec list \<Rightarrow> endpoint_spec list" where
  "patch_endpoints patch es =
     fold (\<lambda>m. replace_or_append (\<lambda>e. ep_path e = ep_path m \<and> ep_action e = ep_action m) m)
       (modify_endpoints patch) es"

definition patch_tables :: "plan_patch \<Rightarrow> table_spec list \<Rightarrow> table_spec list" where
  "patch_tables patch ts =
     fold (\<lambda>m. replace_or_append (\<lambda>t. tb_name t = tb_name m) m) (modify_tables patch) ts
     @ add_tables patch"

definition put_all :: "('k, 'v) gomap \<Rightarrow> ('k, 'v) gomap \<Rightarrow> ('k, 'v) gomap" where
  "put_all new old = fold (\<lambda>(k, v). alist_put k v) new old"

text \<open>A map the code creates when it is missing, then fills; and one it only fills: writing a
  key of the patch to a nil map panics, here the value None.\<close>

definition merge_made :: "('k, 'v) gomap option \<Rightarrow> ('k, 'v) gomap option \<Rightarrow> ('k, 'v) gomap option" where
  "merge_made new old =
     (case new of None \<Rightarrow> old
      | Some n \<Rightarrow> Some (put_all n (case old of None \<Rightarrow> [] | Some m \<Rightarrow> m)))"

definition merge_unmade ::
  "('k, 'v) gomap option \<Rightarrow> ('k, 'v) gomap option \<Rightarrow> ('k, 'v) gomap option option" where
  "merge_unmade new old =
     (case new of None \<Rightarrow> Some old
      | Some n \<Rightarrow> (case old of
           None \<Rightarrow> if n = [] then Some None else None
         | Some m \<Rightarrow> Some (Some (put_all n m))))"

definition patch_design :: "design_system \<Rightarrow> design_system \<Rightarrow> design_system option" where
  "patch_design u d =
     (case merge_unmade (ds_colors u) (ds_colors d) of
        None \<Rightarrow> None
      | Some cs \<Rightarrow> Some (d\<lparr>
          ds_colors := cs,
          ds_typography := (case ds_typography u of None \<Rightarrow> ds_typography d | Some t \<Rightarrow> Some t),
          ds_intent := (if ds_intent u \<noteq> [] then ds_intent u else ds_intent d),
          ds_dark := ds_dark u,
          ds_extended := merge_made (ds_extended u) (ds_extended d),
          ds_components := merge_made (ds_components u) (ds_components d)\<rparr>))"

text \<open>\<open>ApplyPatch\<close>; None is a panic.\<close>

definition apply_patch :: "plan \<Rightarrow> plan_patch \<Rightarrow> plan option" where
  "apply_patch p patch =
     (let p1 = p\<lparr>
        p_pages := patch_pages patch (p_pages p),
        p_endpoints := patch_endpoints patch (p_endpoints p) @ patch_add_endpoints p patch,
        p_tables := patch_tables patch (p_tables p),
        p_webhooks := p_webhooks p @ add_webhooks patch,
        p_components := p_components p @ add_components patch,
        p_tasks := p_tasks p @ add_tasks patch,
        p_auth_strategy := (if update_auth_strategy patch \<noteq> [] then update_auth_strategy patch
                            else p_auth_strategy p),
        p_layout := (case update_layout patch of None \<Rightarrow> p_layout p | Some l \<Rightarrow> Some l)\<rparr>
      in case update_design patch of
           None \<Rightarrow> Some p1
         | Some u \<Rightarrow> (case p_design p of
              None \<Rightarrow> Some (p1\<lparr>p_design := Some u\<rparr>)
            | Some d \<Rightarrow> map_option (\<lambda>d'. p1\<lparr>p_design := Some d'\<rparr>) (patch_design u d)))"

section \<open>Validating a plan\<close>

datatype plan_error =
    AppTypeRequired
  | NoPages
  | DuplicatePath string
  | NoHomepage
  | ColorsRequired
  | NoPrimaryColor
  | NoBgColor
  | LayoutRequired
  | BadHeader string
  | BadFooter string
  | BadAction nat string
  | EndpointPathRequired nat
  | TableNameRequired nat
  | DuplicateColumn string string
  | NoNonSystemColumns string

fun dup_paths :: "string list \<Rightarrow> page_spec list \<Rightarrow> plan_error list" where
  "dup_paths seen [] = []"
| "dup_paths seen (pg # ps) =
     (if pg_path pg \<in> set seen then [DuplicatePath (pg_path pg)] else [])
     @ dup_paths (pg_path pg # seen) ps"

text \<open>Indexing a map with a missing key gives the zero value, here the empty string.\<close>

definition color :: "design_system \<Rightarrow> string \<Rightarrow> string" where
  "color d k = (case ds_colors d of None \<Rightarrow> []
                | Some m \<Rightarrow> (case map_of m k of None \<Rightarrow> [] | Some v \<Rightarrow> v))"

definition validate_design :: "design_system option \<Rightarrow> plan_error list" where
  "validate_design od =
     (case od of None \<Rightarrow> []
      | Some d \<Rightarrow>
          (if (case ds_colors d of None \<Rightarrow> True | Some m \<Rightarrow> m = []) then [ColorsRequired]
           else (if color d ''primary'' = [] then [NoPrimaryColor] else [])
                @ (if color d ''bg'' = [] then [NoBgColor] else [])))"

definition valid_chrome :: "string list" where
  "valid_chrome = [''full'', ''minimal'', ''none'']"

definition validate_layout :: "layout_spec option \<Rightarrow> plan_error list" where
  "validate_layout ol =
     (case ol of None \<Rightarrow> [LayoutRequired]
      | Some l \<Rightarrow>
          (if lay_header l \<noteq> [] \<and> lay_header l \<notin> set valid_chrome
           then [BadHeader (lay_header l)] else [])
          @ (if lay_footer l \<noteq> [] \<and> lay_footer l \<notin> set valid_chrome
             then [BadFooter (lay_footer l)] else []))"

definition valid_actions :: "string list" where
  "valid_actions = [''create_api'', ''create_auth'', ''create_websocket'', ''create_stream'',
     ''create_upload'', ''create_llm'']"

fun validate_endpoints :: "nat \<Rightarrow> endpoint_spec list \<Rightarrow> plan_error list" where
  "validate_endpoints i [] = []"
| "validate_endpoints i (ep # es) =
     (if ep_action ep \<notin> set valid_actions then [BadAction i (ep_action ep)] else [])
     @ (if ep_path ep = [] then [EndpointPathRequired i] else [])
     @ validate_endpoints (Suc i) es"

definition system_columns :: "string list" where
  "system_columns = [''id'', ''created_at'', ''updated_at'']"

text \<open>The column loop: the errors, the names seen and the number of non-system columns.\<close>

fun validate_columns :: "string \<Rightarrow> string list \<Rightarrow> nat \<Rightarrow> column_def list \<Rightarrow> plan_error list \<times> nat" where
  "validate_columns t seen n [] = ([], n)"
| "validate_columns t seen n (c # cs) =
     (let (es, k) = validate_columns t (col_name c # seen)
                      (if col_name c \<notin> set system_columns then Suc n else n) cs
      in ((if col_name c \<in> set seen then [DuplicateColumn t (col_name c)] else []) @ es, k))"

fun validate_tables :: "nat \<Rightarrow> table_spec list \<Rightarrow> plan_error list" where
  "validate_tables i [] = []"
| "validate_tables i (t # ts) =
     (if tb_name t = [] then [TableNameRequired i]
      else (let (es, n) = validate_columns (tb_name t) [] 0 (tb_columns t)
            in es @ (if n = 0 \<and> tb_columns t \<noteq> [] then [NoNonSystemColumns (tb_name t)] else [])))
     @ validate_tables (Suc i) ts"

definition validate_plan :: "plan \<Rightarrow> plan_error list" where
  "validate_plan p =
     (if p_app_type p = [] then [AppTypeRequired] else [])
     @ (if length (p_pages p) < 1 then [NoPages] else [])
     @ dup_paths [] (p_pages p)
     @ (if ''/'' \<notin> set (map pg_path (p_pages p)) then [NoHomepage] else [])
     @ validate_design (p_design p)
     @ validate_layout (p_layout p)
     @ validate_endpoints 0 (p_endpoints p)
     @ validate_tables 0 (p_tables p)"

section \<open>Facts on patches\<close>

lemma replace_first_key:
  "(\<And>x. P x \<Longrightarrow> f x = f y) \<Longrightarrow> map f (replace_first P y xs) = map f xs"
  by (induction xs) auto

lemma remove_first_key: "map f (remove_first (\<lambda>x. f x = k) xs) = remove1 k (map f xs)"
  by (induction xs) auto

lemma fold_remove_first:
  "map f (fold (\<lambda>k. remove_first (\<lambda>x. f x = k)) ks xs) = fold remove1 ks (map f xs)"
  by (induction ks arbitrary: xs) (auto simp: remove_first_key)

lemma fold_replace_first:
  "map f (fold (\<lambda>m. replace_first (\<lambda>x. f x = f m) m) ms xs) = map f xs"
  by (induction ms arbitrary: xs) (auto simp: replace_first_key)

lemma patch_page_paths:
  "map pg_path (patch_pages patch ps) =
     fold remove1 (remove_pages patch) (map pg_path ps) @ map pg_path (add_pages patch)"
  by (simp add: patch_pages_def fold_replace_first fold_remove_first)

definition lookup_by :: "('a \<Rightarrow> 'k) \<Rightarrow> 'k \<Rightarrow> 'a list \<Rightarrow> 'a option" where
  "lookup_by f k xs = find (\<lambda>x. f x = k) xs"

lemma lookup_by_None [simp]: "lookup_by f k xs = None \<longleftrightarrow> k \<notin> f ` set xs"
  by (auto simp: lookup_by_def find_None_iff)

lemma lookup_replace_first:
  "lookup_by f k (replace_first (\<lambda>x. f x = f y) y xs) =
     (if f y = k \<and> k \<in> f ` set xs then Some y else lookup_by f k xs)"
  by (induction xs) (auto simp: lookup_by_def)

lemma set_key_replace_first [simp]:
  "f ` set (replace_first (\<lambda>x. f x = f y) y xs) = f ` set xs"
  by (induction xs) auto

lemma lookup_fold_replace:
  "lookup_by f k (fold (\<lambda>m. replace_first (\<lambda>x. f x = f m) m) ms xs) =
     (if k \<in> f ` set xs \<and> k \<in> f ` set ms then lookup_by f k (rev ms) else lookup_by f k xs)"
proof (induction ms arbitrary: xs)
  case Nil
  then show ?case by simp
next
  case (Cons m ms)
  have app: "lookup_by f k (as @ bs) =
      (if k \<in> f ` set as then lookup_by f k as else lookup_by f k bs)" for as bs
    by (induction as) (auto simp: lookup_by_def)
  show ?case
    by (auto simp: Cons.IH lookup_replace_first app) (auto simp: lookup_by_def)
qed

lemma list_ex_key: "list_ex (\<lambda>x. f x = f y) xs \<longleftrightarrow> f y \<in> f ` set xs"
  by (induction xs) auto

lemma lookup_replace_or_append:
  "lookup_by f k (replace_or_append (\<lambda>x. f x = f y) y xs) =
     (if f y = k then Some y else lookup_by f k xs)"
proof (cases "list_ex (\<lambda>x. f x = f y) xs")
  case True
  then show ?thesis
    by (simp add: replace_or_append_def lookup_replace_first) (simp add: list_ex_key, blast)
next
  case False
  then have "f y \<notin> f ` set xs" by (simp add: list_ex_key)
  then show ?thesis
    using False by (induction xs) (auto simp: replace_or_append_def lookup_by_def)
qed

lemma lookup_fold_roa:
  "lookup_by f k (fold (\<lambda>m. replace_or_append (\<lambda>x. f x = f m) m) ms xs) =
     (if k \<in> f ` set ms then lookup_by f k (rev ms) else lookup_by f k xs)"
proof (induction ms arbitrary: xs)
  case Nil
  then show ?case by simp
next
  case (Cons m ms)
  have app: "lookup_by f k (as @ bs) =
      (if k \<in> f ` set as then lookup_by f k as else lookup_by f k bs)" for as bs
    by (induction as) (auto simp: lookup_by_def)
  show ?case
    by (auto simp: Cons.IH lookup_replace_or_append app) (auto simp: lookup_by_def)
qed

lemma replace_or_append_keys:
  "map f (replace_or_append (\<lambda>x. f x = f y) y xs) =
     (if f y \<in> f ` set xs then map f xs else map f xs @ [f y])"
  by (simp add: replace_or_append_def list_ex_key replace_first_key)

lemma replace_or_append_distinct:
  "distinct (map f xs) \<Longrightarrow> distinct (map f (replace_or_append (\<lambda>x. f x = f y) y xs))"
  by (simp add: replace_or_append_keys)

lemma replace_or_append_set:
  "f ` set (replace_or_append (\<lambda>x. f x = f y) y xs) = insert (f y) (f ` set xs)"
proof -
  have "set (map f (replace_or_append (\<lambda>x. f x = f y) y xs)) = insert (f y) (set (map f xs))"
    unfolding replace_or_append_keys by auto
  then show ?thesis by simp
qed

lemma fold_roa_distinct:
  "distinct (map f xs) \<Longrightarrow>
     distinct (map f (fold (\<lambda>m. replace_or_append (\<lambda>x. f x = f m) m) ms xs))"
  by (induction ms arbitrary: xs) (simp_all add: replace_or_append_distinct)

lemma fold_roa_keys:
  "f ` set (fold (\<lambda>m. replace_or_append (\<lambda>x. f x = f m) m) ms xs) = f ` set ms \<union> f ` set xs"
  by (induction ms arbitrary: xs) (simp_all add: replace_or_append_set)

lemma put_all_lookup: "map_of (put_all new old) k =
    (case map_of (rev new) k of Some v \<Rightarrow> Some v | None \<Rightarrow> map_of old k)"
  by (induction new arbitrary: old rule: list.induct)
     (auto simp: put_all_def map_add_def split: option.splits)

lemma gm_ok_put_all [inv_intros]: "gm_ok old \<Longrightarrow> gm_ok (put_all new old)"
  by (induction new arbitrary: old) (auto simp: put_all_def intro: inv_intros)

section \<open>Facts on validation\<close>

lemma dup_paths_Nil_iff:
  "dup_paths seen ps = [] \<longleftrightarrow> distinct (map pg_path ps) \<and> set seen \<inter> pg_path ` set ps = {}"
  by (induction ps arbitrary: seen) auto

lemma validate_endpoints_Nil_iff:
  "validate_endpoints i es = [] \<longleftrightarrow>
     (\<forall>ep\<in>set es. ep_action ep \<in> set valid_actions \<and> ep_path ep \<noteq> [])"
  by (induction es arbitrary: i) auto

lemma validate_columns_spec:
  "(fst (validate_columns t seen n cs) = [] \<longleftrightarrow>
     distinct (map col_name cs) \<and> set seen \<inter> col_name ` set cs = {})
   \<and> snd (validate_columns t seen n cs) =
       n + length (filter (\<lambda>c. col_name c \<notin> set system_columns) cs)"
  by (induction cs arbitrary: seen n) (auto simp: case_prod_beta Let_def)

lemma validate_tables_Nil_iff:
  "validate_tables i ts = [] \<longleftrightarrow>
     (\<forall>t\<in>set ts. tb_name t \<noteq> [] \<and> distinct (map col_name (tb_columns t)) \<and>
        (tb_columns t \<noteq> [] \<longrightarrow> (\<exists>c\<in>set (tb_columns t). col_name c \<notin> set system_columns)))"
  by (induction ts arbitrary: i)
     (auto simp: case_prod_beta Let_def validate_columns_spec filter_empty_conv)

text \<open>What a plan must satisfy, stated on the plan alone.\<close>

definition design_wf :: "design_system \<Rightarrow> bool" where
  "design_wf d = (color d ''primary'' \<noteq> [] \<and> color d ''bg'' \<noteq> [])"

definition layout_wf :: "layout_spec \<Rightarrow> bool" where
  "layout_wf l = (lay_header l \<in> set ([] # valid_chrome) \<and> lay_footer l \<in> set ([] # valid_chrome))"

definition endpoint_wf :: "endpoint_spec \<Rightarrow> bool" where
  "endpoint_wf ep = (ep_action ep \<in> set valid_actions \<and> ep_path ep \<noteq> [])"

definition table_wf :: "table_spec \<Rightarrow> bool" where
  "table_wf t = (tb_name t \<noteq> [] \<and> distinct (map col_name (tb_columns t))
     \<and> (tb_columns t = [] \<or> (\<exists>c\<in>set (tb_columns t). col_name c \<notin> set system_columns)))"

definition plan_wf :: "plan \<Rightarrow> bool" where
  "plan_wf p = (p_app_type p \<noteq> []
     \<and> distinct (map pg_path (p_pages p)) \<and> ''/'' \<in> pg_path ` set (p_pages p)
     \<and> (case p_design p of None \<Rightarrow> True | Some d \<Rightarrow> design_wf d)
     \<and> (case p_layout p of None \<Rightarrow> False | Some l \<Rightarrow> layout_wf l)
     \<and> (\<forall>ep\<in>set (p_endpoints p). endpoint_wf ep) \<and> (\<forall>t\<in>set (p_tables p). table_wf t))"

lemma validate_design_Nil_iff:
  "validate_design od = [] \<longleftrightarrow> (case od of None \<Rightarrow> True | Some d \<Rightarrow> design_wf d)"
  by (auto simp: validate_design_def design_wf_def color_def split: option.splits)

lemma validate_layout_Nil_iff:
  "validate_layout ol = [] \<longleftrightarrow> (case ol of None \<Rightarrow> False | Some l \<Rightarrow> layout_wf l)"
  by (auto simp: validate_layout_def layout_wf_def split: option.splits)

lemma validate_plan_Nil_iff: "validate_plan p = [] \<longleftrightarrow> plan_wf p"
  unfolding validate_plan_def append_is_Nil_conv dup_paths_Nil_iff validate_design_Nil_iff
    validate_layout_Nil_iff validate_endpoints_Nil_iff validate_tables_Nil_iff plan_wf_def
    endpoint_wf_def table_wf_def
  by (cases "p_pages p") (auto split: option.splits)

section \<open>What a patch does to a plan\<close>

lemma apply_patch_fields:
  assumes "apply_patch p patch = Some p'"
  shows "p_pages p' = patch_pages patch (p_pages p)"
    and "p_endpoints p' = patch_endpoints patch (p_endpoints p) @ patch_add_endpoints p patch"
    and "p_tables p' = patch_tables patch (p_tables p)"
    and "p_app_type p' = p_app_type p"
    and "p_layout p' = (case update_layout patch of None \<Rightarrow> p_layout p | Some l \<Rightarrow> Some l)"
    and "(case update_design patch of None \<Rightarrow> Some (p_design p)
          | Some u \<Rightarrow> (case p_design p of None \<Rightarrow> Some (Some u)
               | Some d \<Rightarrow> map_option Some (patch_design u d))) = Some (p_design p')"
  using assms by (auto simp: apply_patch_def Let_def split: option.splits)

lemma patch_endpoints_key:
  "patch_endpoints patch es =
     fold (\<lambda>m. replace_or_append (\<lambda>e. (ep_path e, ep_action e) = (ep_path m, ep_action m)) m)
       (modify_endpoints patch) es"
  by (simp add: patch_endpoints_def)

lemma lookup_by_append:
  "lookup_by f k (as @ bs) = (if k \<in> f ` set as then lookup_by f k as else lookup_by f k bs)"
  by (induction as) (auto simp: lookup_by_def)

lemma lookup_roa_append:
  "lookup_by f k (fold (\<lambda>m. replace_or_append (\<lambda>x. f x = f m) m) ms xs @ ys) =
     (if k \<in> f ` set ms then lookup_by f k (rev ms) else lookup_by f k (xs @ ys))"
  by (simp add: lookup_by_append lookup_fold_roa fold_roa_keys)

lemma lookup_patch_endpoints:
  "lookup_by (\<lambda>e. (ep_path e, ep_action e)) k (patch_endpoints patch es @ ys) =
     (if k \<in> (\<lambda>e. (ep_path e, ep_action e)) ` set (modify_endpoints patch)
      then lookup_by (\<lambda>e. (ep_path e, ep_action e)) k (rev (modify_endpoints patch))
      else lookup_by (\<lambda>e. (ep_path e, ep_action e)) k (es @ ys))"
  unfolding patch_endpoints_key by (rule lookup_roa_append)

lemma lookup_patch_tables:
  "lookup_by tb_name n (patch_tables patch ts) =
     (if n \<in> tb_name ` set (modify_tables patch)
      then lookup_by tb_name n (rev (modify_tables patch))
      else lookup_by tb_name n (ts @ add_tables patch))"
  unfolding patch_tables_def by (rule lookup_roa_append)

lemma lookup_patch_pages:
  assumes "path \<in> set (fold remove1 (remove_pages patch) (map pg_path ps))"
    and "path \<in> pg_path ` set (modify_pages patch)"
  shows "lookup_by pg_path path (patch_pages patch ps) = lookup_by pg_path path (rev (modify_pages patch))"
proof -
  let ?kept = "fold (\<lambda>rm. remove_first (\<lambda>pg. pg_path pg = rm)) (remove_pages patch) ps"
  let ?mod = "fold (\<lambda>m. replace_first (\<lambda>pg. pg_path pg = pg_path m) m) (modify_pages patch) ?kept"
  have kept: "path \<in> pg_path ` set ?kept"
    using assms(1) fold_remove_first [of pg_path "remove_pages patch" ps] by (metis list.set_map)
  then have "path \<in> pg_path ` set ?mod"
    by (metis fold_replace_first list.set_map)
  then show ?thesis
    using kept assms(2) by (simp add: patch_pages_def lookup_by_append lookup_fold_replace)
qed

lemma merge_unmade_color:
  assumes "merge_unmade new old = Some (Some m)" "old = Some m0"
  shows "map_of m k = (case new of None \<Rightarrow> map_of m0 k
           | Some n \<Rightarrow> (case map_of (rev n) k of Some v \<Rightarrow> Some v | None \<Rightarrow> map_of m0 k))"
  using assms by (auto simp: merge_unmade_def put_all_lookup split: option.splits)

text \<open>A patch that keeps a valid plan valid.\<close>

definition patch_wf :: "plan \<Rightarrow> plan_patch \<Rightarrow> bool" where
  "patch_wf p patch =
     ((let kept = fold remove1 (remove_pages patch) (map pg_path (p_pages p)) @ map pg_path (add_pages patch)
      in distinct kept \<and> ''/'' \<in> set kept)
     \<and> (\<forall>ep\<in>set (modify_endpoints patch) \<union> set (add_endpoints patch). endpoint_wf ep)
     \<and> (\<forall>t\<in>set (modify_tables patch) \<union> set (add_tables patch). table_wf t)
     \<and> (case update_layout patch of None \<Rightarrow> True | Some l \<Rightarrow> layout_wf l)
     \<and> (case update_design patch of None \<Rightarrow> True
        | Some u \<Rightarrow> (case p_design p of None \<Rightarrow> design_wf u
             | Some d \<Rightarrow> (case ds_colors u of None \<Rightarrow> True | Some m \<Rightarrow> \<forall>b\<in>set m. snd b \<noteq> []))))"

lemma set_replace_first: "set (replace_first P y xs) \<subseteq> insert y (set xs)"
  by (induction xs) auto

lemma set_fold_roa: "set (fold (\<lambda>m. replace_or_append (P m) m) ms xs) \<subseteq> set ms \<union> set xs"
proof (induction ms arbitrary: xs)
  case (Cons m ms)
  have "set (replace_or_append (P m) m xs) \<subseteq> insert m (set xs)"
    using set_replace_first [of "P m" m xs] by (auto simp: replace_or_append_def)
  then show ?case using Cons [of "replace_or_append (P m) m xs"] by auto
qed simp

lemma patch_design_wf:
  assumes "design_wf d" and ne: "\<And>m b. ds_colors u = Some m \<Longrightarrow> b \<in> set m \<Longrightarrow> snd b \<noteq> []"
  shows "\<exists>d'. patch_design u d = Some d' \<and> design_wf d'"
proof -
  obtain m0 where m0: "ds_colors d = Some m0"
    using assms(1) by (cases "ds_colors d") (auto simp: design_wf_def color_def)
  then obtain m where m: "merge_unmade (ds_colors u) (Some m0) = Some (Some m)"
    by (cases "ds_colors u") (auto simp: merge_unmade_def)
  have ne': "v \<noteq> []" if "ds_colors u = Some n" "map_of (rev n) k = Some v" for n k v
    using ne [OF that(1), of "(k, v)"] map_of_SomeD [OF that(2)] by simp
  have keep: "color (d\<lparr>ds_colors := Some m\<rparr>) k \<noteq> []" if "color d k \<noteq> []" for k
    using that ne' merge_unmade_color [OF m refl, of k] m0
    by (auto simp: color_def split: option.splits)
  then show ?thesis
    using assms(1) m m0 by (auto simp: patch_design_def design_wf_def color_def)
qed

lemma apply_patch_wf:
  assumes "plan_wf p" "patch_wf p patch"
  shows "\<exists>p'. apply_patch p patch = Some p' \<and> plan_wf p'"
proof -
  have des: "\<exists>p'. apply_patch p patch = Some p' \<and>
      (case p_design p' of None \<Rightarrow> True | Some d \<Rightarrow> design_wf d)"
  proof (cases "update_design patch")
    case None
    then show ?thesis using assms by (auto simp: apply_patch_def Let_def plan_wf_def)
  next
    case (Some u)
    show ?thesis
    proof (cases "p_design p")
      case None
      then show ?thesis
        using assms Some by (auto simp: apply_patch_def Let_def patch_wf_def)
    next
      case d: (Some d)
      have "\<exists>d'. patch_design u d = Some d' \<and> design_wf d'"
        by (rule patch_design_wf) (use assms Some d in \<open>auto simp: plan_wf_def patch_wf_def\<close>)
      then show ?thesis using Some d by (auto simp: apply_patch_def Let_def)
    qed
  qed
  then obtain p' where p': "apply_patch p patch = Some p'"
    and dwf: "case p_design p' of None \<Rightarrow> True | Some d \<Rightarrow> design_wf d" by blast
  note f = apply_patch_fields [OF p']
  have paths: "map pg_path (p_pages p') =
      fold remove1 (remove_pages patch) (map pg_path (p_pages p)) @ map pg_path (add_pages patch)"
    using f(1) patch_page_paths by simp
  have eps: "endpoint_wf ep" if "ep \<in> set (p_endpoints p')" for ep
    using that assms f(2) set_fold_roa unfolding patch_endpoints_def patch_add_endpoints_def
    by (fastforce simp: plan_wf_def patch_wf_def split: if_splits)
  have tbs: "table_wf t" if "t \<in> set (p_tables p')" for t
    using that assms f(3) set_fold_roa unfolding patch_tables_def
    by (fastforce simp: plan_wf_def patch_wf_def)
  have lay: "case p_layout p' of None \<Rightarrow> False | Some l \<Rightarrow> layout_wf l"
    using assms f(5) by (auto simp: plan_wf_def patch_wf_def split: option.splits)
  have "distinct (map pg_path (p_pages p'))" "''/'' \<in> set (map pg_path (p_pages p'))"
    unfolding paths using assms(2) by (simp_all add: patch_wf_def Let_def)
  then have "plan_wf p'"
    unfolding plan_wf_def using assms(1) f(4) dwf lay eps tbs by (auto simp: plan_wf_def)
  then show ?thesis using p' by blast
qed

section \<open>Properties\<close>

text \<open>\<open>ValidatePlan\<close> is exact: it reports no error just for the plans with an app type,
  distinct page paths including the home page, a design system with its primary and background
  colours when there is one, a layout with known chrome, endpoints with known actions and
  paths, and tables with a name, distinct columns and a column of their own.\<close>

theorem validate_plan_exact:
  "validate_plan p = [] \<longleftrightarrow>
     p_app_type p \<noteq> []
     \<and> distinct (map pg_path (p_pages p)) \<and> ''/'' \<in> pg_path ` set (p_pages p)
     \<and> (case p_design p of None \<Rightarrow> True
        | Some d \<Rightarrow> color d ''primary'' \<noteq> [] \<and> color d ''bg'' \<noteq> [])
     \<and> (case p_layout p of None \<Rightarrow> False | Some l \<Rightarrow> layout_wf l)
     \<and> list_all endpoint_wf (p_endpoints p) \<and> list_all table_wf (p_tables p)"
  unfolding validate_plan_Nil_iff plan_wf_def design_wf_def list_all_iff by (rule refl)

text \<open>C31. A valid plan stays valid under every patch whose pages keep the paths distinct and the
  home page present, whose endpoints, tables and layout are valid, and which overwrites no
  colour with the empty string; in particular \<open>ApplyPatch\<close> does not panic on it.\<close>

theorem apply_patch_preserves_valid:
  assumes "validate_plan p = []" and "patch_wf p patch"
  shows "\<exists>p'. apply_patch p patch = Some p' \<and> validate_plan p' = []"
  using apply_patch_wf assms unfolding validate_plan_Nil_iff by blast

definition demo_page :: "string \<Rightarrow> string \<Rightarrow> page_spec" where
  "demo_page path title = empty_page\<lparr>pg_path := path, pg_title := title\<rparr>"

definition demo_plan :: plan where
  "demo_plan = empty_plan\<lparr>p_app_type := ''blog'', p_layout := Some empty_layout,
     p_pages := [demo_page ''/'' ''Home'', demo_page ''/about'' ''About''],
     p_endpoints := [empty_endpoint\<lparr>ep_action := ''create_api'', ep_path := ''posts''\<rparr>],
     p_design := Some (empty_design\<lparr>ds_colors := Some [(''primary'', ''#112233''), (''bg'', ''#ffffff'')]\<rparr>)\<rparr>"

definition demo_patch :: plan_patch where
  "demo_patch = empty_patch\<lparr>remove_pages := [''/about''], modify_pages := [demo_page ''/'' ''Start''],
     add_pages := [demo_page ''/news'' ''News''],
     modify_endpoints := [empty_endpoint\<lparr>ep_action := ''create_auth'', ep_path := ''posts''\<rparr>],
     update_design := Some (empty_design\<lparr>ds_colors := Some [(''accent'', ''#ff0000'')]\<rparr>)\<rparr>"

lemmas demo_defs = demo_plan_def demo_patch_def demo_page_def empty_plan_def empty_patch_def
  empty_page_def empty_endpoint_def empty_design_def empty_layout_def

lemma demo_plan_valid: "validate_plan demo_plan = []"
  by code_simp

lemma demo_patch_ok: "patch_wf demo_plan demo_patch"
  by (simp add: patch_wf_def demo_defs endpoint_wf_def valid_actions_def Let_def)

theorem apply_patch_preserves_valid_witness:
  "validate_plan demo_plan = [] \<and> patch_wf demo_plan demo_patch
   \<and> (\<exists>p'. apply_patch demo_plan demo_patch = Some p' \<and> validate_plan p' = [])"
  using apply_patch_preserves_valid [OF demo_plan_valid demo_patch_ok] demo_plan_valid demo_patch_ok
  by simp

text \<open>What a patch does: the page paths are the old ones less one occurrence per removal,
  then the added ones; at a path that survives the removals the page is its last modification,
  or the old page; an endpoint is found under its path and action, and a table under its name, as
  its last modification, then as before, then as added.\<close>

theorem apply_patch_functional:
  assumes "apply_patch p patch = Some p'"
  shows "map pg_path (p_pages p') =
      fold remove1 (remove_pages patch) (map pg_path (p_pages p)) @ map pg_path (add_pages patch)
    \<and> (\<forall>path. path \<in> set (fold remove1 (remove_pages patch) (map pg_path (p_pages p))) \<longrightarrow>
        path \<in> pg_path ` set (modify_pages patch) \<longrightarrow>
        lookup_by pg_path path (p_pages p') = lookup_by pg_path path (rev (modify_pages patch)))
    \<and> (\<forall>k. lookup_by (\<lambda>e. (ep_path e, ep_action e)) k (p_endpoints p') =
        (if k \<in> (\<lambda>e. (ep_path e, ep_action e)) ` set (modify_endpoints patch)
         then lookup_by (\<lambda>e. (ep_path e, ep_action e)) k (rev (modify_endpoints patch))
         else lookup_by (\<lambda>e. (ep_path e, ep_action e)) k
                (p_endpoints p @ patch_add_endpoints p patch)))
    \<and> (\<forall>n. lookup_by tb_name n (p_tables p') =
        (if n \<in> tb_name ` set (modify_tables patch)
         then lookup_by tb_name n (rev (modify_tables patch))
         else lookup_by tb_name n (p_tables p @ add_tables patch)))"
  unfolding apply_patch_fields(1,2,3) [OF assms]
  by (simp add: patch_page_paths lookup_patch_pages lookup_patch_endpoints lookup_patch_tables)

theorem apply_patch_functional_witness:
  "case apply_patch demo_plan demo_patch of None \<Rightarrow> False
   | Some p' \<Rightarrow> map pg_path (p_pages p') = [''/'', ''/news'']
       \<and> lookup_by pg_path ''/'' (p_pages p') = Some (demo_page ''/'' ''Start'')"
proof -
  obtain p' where p': "apply_patch demo_plan demo_patch = Some p'"
    using apply_patch_wf demo_plan_valid demo_patch_ok unfolding validate_plan_Nil_iff by blast
  then show ?thesis
    using apply_patch_functional [OF p']
    by (simp add: demo_defs lookup_by_def)
qed

text \<open>\<open>ApplyPatch\<close> panics exactly when the patch carries colours and the plan has a design
  system without a colour map.\<close>

theorem apply_patch_panics_iff:
  "apply_patch p patch = None \<longleftrightarrow>
     (\<exists>u d m. update_design patch = Some u \<and> p_design p = Some d
        \<and> ds_colors u = Some m \<and> m \<noteq> [] \<and> ds_colors d = None)"
  by (auto simp: apply_patch_def Let_def patch_design_def merge_unmade_def split: option.splits)

end
