(* ===== verification/SiteDb.thy ===== *)
theory SiteDb
  imports PlanData
begin

text \<open>
  The per-site database as the brain uses it: the singleton row of \<open>ho_pipeline_state\<close> and
  the operations on it (\<open>brain/plan.go\<close>), the stage log, the owner questions, and the tables
  the validators of \<open>brain/stages.go\<close> read, with the columns that
  \<open>db/site_migrations/001_initial.sql\<close> creates. A nullable column is an option; a write
  is a function on the row, and the callers say which writes fail.
\<close>

section \<open>Pipeline state\<close>

datatype stage =
    StageExpand
  | StagePlan
  | StageBuild
  | StageValidate
  | StageComplete
  | StageMonitoring
  | StageUpdatePlan
  | StageOther string

fun stage_name :: "stage \<Rightarrow> string" where
  "stage_name StageExpand = ''EXPAND''"
| "stage_name StagePlan = ''PLAN''"
| "stage_name StageBuild = ''BUILD''"
| "stage_name StageValidate = ''VALIDATE''"
| "stage_name StageComplete = ''COMPLETE''"
| "stage_name StageMonitoring = ''MONITORING''"
| "stage_name StageUpdatePlan = ''UPDATE_PLAN''"
| "stage_name (StageOther s) = s"

datatype brain_state = StateIdle | StateBuilding | StateMonitoring | StatePaused | StateError

definition pause_owner_answers :: string where
  "pause_owner_answers = ''awaiting_owner_answers''"

definition pause_approval :: string where
  "pause_approval = ''awaiting_approval''"

record pipeline_row =
  pr_stage :: stage
  pr_plan_json :: "string option"
  pr_tool_calls :: int
  pr_update_desc :: "string option"
  pr_error_count :: int
  pr_last_error :: "string option"
  pr_paused :: bool
  pr_pause_reason :: "string option"
  pr_checkpoint :: "string option"
  pr_build_tokens :: int
  pr_started_at :: "string option"
  pr_updated_at :: "string option"

text \<open>The row a fresh site starts with: the column defaults of the migration.\<close>

definition initial_row :: "string \<Rightarrow> pipeline_row" where
  "initial_row now =
     \<lparr>pr_stage = StageExpand, pr_plan_json = None, pr_tool_calls = 0, pr_update_desc = None,
      pr_error_count = 0, pr_last_error = None, pr_paused = False, pr_pause_reason = None,
      pr_checkpoint = None, pr_build_tokens = 0, pr_started_at = Some now, pr_updated_at = Some now\<rparr>"

record pipeline_state =
  ps_stage :: stage
  ps_plan_json :: string
  ps_tool_calls :: int
  ps_error_count :: int
  ps_last_error :: string
  ps_paused :: bool
  ps_pause_reason :: string
  ps_update_desc :: string
  ps_started_at :: int
  ps_updated_at :: int

definition null_string :: "string option \<Rightarrow> string" where
  "null_string v = (case v of Some s \<Rightarrow> s | None \<Rightarrow> [])"

text \<open>\<open>LoadPipelineState\<close>: a timestamp that \<open>time.Parse\<close> (the argument) rejects is logged
  and stays the zero time.\<close>

definition load_time :: "(string \<Rightarrow> int option) \<Rightarrow> string option \<Rightarrow> int" where
  "load_time parse v = (case v of Some s \<Rightarrow> (case parse s of Some t \<Rightarrow> t | None \<Rightarrow> 0) | None \<Rightarrow> 0)"

definition load_pipeline_state :: "(string \<Rightarrow> int option) \<Rightarrow> pipeline_row \<Rightarrow> pipeline_state" where
  "load_pipeline_state parse r =
     \<lparr>ps_stage = pr_stage r, ps_plan_json = null_string (pr_plan_json r),
      ps_tool_calls = pr_tool_calls r, ps_error_count = pr_error_count r,
      ps_last_error = null_string (pr_last_error r), ps_paused = pr_paused r,
      ps_pause_reason = null_string (pr_pause_reason r),
      ps_update_desc = null_string (pr_update_desc r),
      ps_started_at = load_time parse (pr_started_at r),
      ps_updated_at = load_time parse (pr_updated_at r)\<rparr>"

definition save_pipeline_state :: "string \<Rightarrow> pipeline_state \<Rightarrow> pipeline_row \<Rightarrow> pipeline_row" where
  "save_pipeline_state now s r =
     r\<lparr>pr_stage := ps_stage s, pr_plan_json := Some (ps_plan_json s),
       pr_tool_calls := ps_tool_calls s, pr_error_count := ps_error_count s,
       pr_last_error := Some (ps_last_error s), pr_paused := ps_paused s,
       pr_pause_reason := Some (ps_pause_reason s), pr_updated_at := Some now\<rparr>"

definition advance_stage :: "string \<Rightarrow> stage \<Rightarrow> pipeline_row \<Rightarrow> pipeline_row" where
  "advance_stage now st r = r\<lparr>pr_stage := st, pr_error_count := 0, pr_updated_at := Some now\<rparr>"

definition reset_pipeline :: "string \<Rightarrow> pipeline_row \<Rightarrow> pipeline_row" where
  "reset_pipeline now r =
     r\<lparr>pr_stage := StageExpand, pr_plan_json := None, pr_tool_calls := 0, pr_error_count := 0,
       pr_last_error := None, pr_paused := False, pr_pause_reason := None,
       pr_started_at := Some now, pr_updated_at := Some now\<rparr>"

definition pause_pipeline :: "string \<Rightarrow> string \<Rightarrow> pipeline_row \<Rightarrow> pipeline_row" where
  "pause_pipeline now reason r =
     r\<lparr>pr_paused := True, pr_pause_reason := Some reason, pr_updated_at := Some now\<rparr>"

definition resume_pipeline :: "string \<Rightarrow> pipeline_row \<Rightarrow> pipeline_row" where
  "resume_pipeline now r = r\<lparr>pr_paused := False, pr_pause_reason := None, pr_updated_at := Some now\<rparr>"

text \<open>\<open>IncrementErrorCount\<close>: the write, and the count that is read back.\<close>

definition increment_error_count :: "string \<Rightarrow> string \<Rightarrow> pipeline_row \<Rightarrow> pipeline_row \<times> int" where
  "increment_error_count now msg r =
     (let r' = r\<lparr>pr_error_count := pr_error_count r + 1, pr_last_error := Some msg,
                pr_updated_at := Some now\<rparr>
      in (r', pr_error_count r'))"

section \<open>Stage log\<close>

record stage_log_entry =
  sl_id :: int
  sl_stage :: stage
  sl_status :: string
  sl_input_tokens :: int
  sl_output_tokens :: int
  sl_tool_calls :: int
  sl_duration_ms :: int
  sl_error :: "string option"
  sl_completed_at :: "string option"

type_synonym stage_log = "stage_log_entry list"

text \<open>AUTOINCREMENT hands out an id larger than every id used before; the log is only ever
  appended to, so that is the largest present plus one.\<close>

definition next_log_id :: "stage_log \<Rightarrow> int" where
  "next_log_id l = foldl max 0 (map sl_id l) + 1"

definition log_stage_start :: "stage \<Rightarrow> stage_log \<Rightarrow> stage_log \<times> int" where
  "log_stage_start st l =
     (l @ [\<lparr>sl_id = next_log_id l, sl_stage = st, sl_status = ''started'', sl_input_tokens = 0,
            sl_output_tokens = 0, sl_tool_calls = 0, sl_duration_ms = 0, sl_error = None,
            sl_completed_at = None\<rparr>], next_log_id l)"

definition log_stage_complete ::
  "string \<Rightarrow> int \<Rightarrow> int \<Rightarrow> int \<Rightarrow> int \<Rightarrow> int \<Rightarrow> stage_log \<Rightarrow> stage_log" where
  "log_stage_complete now i inp outp calls ms l =
     map (\<lambda>e. if sl_id e = i
            then e\<lparr>sl_status := ''completed'', sl_input_tokens := inp, sl_output_tokens := outp,
                   sl_tool_calls := calls, sl_duration_ms := ms, sl_completed_at := Some now\<rparr>
            else e) l"

definition log_stage_error :: "string \<Rightarrow> int \<Rightarrow> string \<Rightarrow> stage_log \<Rightarrow> stage_log" where
  "log_stage_error now i msg l =
     map (\<lambda>e. if sl_id e = i
            then e\<lparr>sl_status := ''failed'', sl_error := Some msg, sl_completed_at := Some now\<rparr>
            else e) l"

section \<open>Site tables\<close>

record question_row =
  qr_question :: string
  qr_status :: string
  qr_options :: string
  qr_type :: string
  qr_secret :: "string option"
  qr_fields :: "string option"

record page_row =
  pgr_path :: string
  pgr_content :: "string option"
  pgr_assets :: "string option"
  pgr_deleted :: bool

text \<open>A row of \<open>ho_assets\<close> has the columns of the migration. A query that names another column
  is an error of the database, here None.\<close>

definition ho_assets_columns :: "string list" where
  "ho_assets_columns = [''id'', ''filename'', ''content_type'', ''size'', ''storage_path'',
     ''alt_text'', ''scope'', ''created_at'']"

type_synonym asset_row = "(string, string) gomap"

record layout_row =
  lr_name :: string
  lr_head :: "string option"

record site_db =
  sd_row :: pipeline_row
  sd_log :: stage_log
  sd_questions :: "question_row list"
  sd_tables :: "string list"
  sd_endpoints :: "(string, string list) gomap"
  sd_pages :: "page_row list"
  sd_assets :: "asset_row list"
  sd_layouts :: "layout_row list"

definition fresh_db :: "string \<Rightarrow> site_db" where
  "fresh_db now = \<lparr>sd_row = initial_row now, sd_log = [], sd_questions = [], sd_tables = [],
     sd_endpoints = [], sd_pages = [], sd_assets = [], sd_layouts = []\<rparr>"

definition on_row :: "(pipeline_row \<Rightarrow> pipeline_row) \<Rightarrow> site_db \<Rightarrow> site_db" where
  "on_row f d = d\<lparr>sd_row := f (sd_row d)\<rparr>"

definition endpoint_paths :: "string \<Rightarrow> site_db \<Rightarrow> string list" where
  "endpoint_paths tbl d = (case map_of (sd_endpoints d) tbl of Some ps \<Rightarrow> ps | None \<Rightarrow> [])"

definition find_page :: "string \<Rightarrow> site_db \<Rightarrow> page_row option" where
  "find_page path d = find (\<lambda>p. pgr_path p = path \<and> \<not> pgr_deleted p) (sd_pages d)"

definition asset_val :: "asset_row \<Rightarrow> string \<Rightarrow> string" where
  "asset_val a c = (case map_of a c of Some v \<Rightarrow> v | None \<Rightarrow> [])"

text \<open>SQLite's \<open>LIKE '%.css'\<close> ignores the case of ASCII letters.\<close>

definition like_suffix :: "string \<Rightarrow> string \<Rightarrow> bool" where
  "like_suffix s suf = has_suffix (map lower_char s) suf"

definition select_assets ::
  "string list \<Rightarrow> (asset_row \<Rightarrow> bool) \<Rightarrow> site_db \<Rightarrow> string list list option" where
  "select_assets cols P d =
     (if set cols \<subseteq> set ho_assets_columns
      then Some (map (\<lambda>a. map (asset_val a) cols) (filter P (sd_assets d)))
      else None)"

definition global_file :: "string \<Rightarrow> asset_row \<Rightarrow> bool" where
  "global_file suf a = (asset_val a ''scope'' = ''global'' \<and> like_suffix (asset_val a ''filename'') suf)"

section \<open>The contract of the pipeline row\<close>

text \<open>
  What the worker relies on: advancing sets the stage and clears the error count, a failure
  counts one, and pausing and resuming touch neither.
\<close>

locale build_store =
  fixes stage_of :: "'r \<Rightarrow> stage"
    and errors_of :: "'r \<Rightarrow> int"
    and paused_of :: "'r \<Rightarrow> bool"
    and reason_of :: "'r \<Rightarrow> string option"
    and advance :: "stage \<Rightarrow> 'r \<Rightarrow> 'r"
    and count_error :: "string \<Rightarrow> 'r \<Rightarrow> 'r"
    and pause :: "string \<Rightarrow> 'r \<Rightarrow> 'r"
    and resume :: "'r \<Rightarrow> 'r"
    and reset :: "'r \<Rightarrow> 'r"
  assumes advance_law: "stage_of (advance s r) = s \<and> errors_of (advance s r) = 0
      \<and> paused_of (advance s r) = paused_of r"
    and count_law: "errors_of (count_error m r) = errors_of r + 1 \<and> stage_of (count_error m r) = stage_of r
      \<and> paused_of (count_error m r) = paused_of r"
    and pause_law: "paused_of (pause m r) \<and> reason_of (pause m r) = Some m
      \<and> stage_of (pause m r) = stage_of r \<and> errors_of (pause m r) = errors_of r"
    and resume_law: "\<not> paused_of (resume r) \<and> reason_of (resume r) = None
      \<and> stage_of (resume r) = stage_of r \<and> errors_of (resume r) = errors_of r"
    and reset_law: "stage_of (reset r) = StageExpand \<and> errors_of (reset r) = 0 \<and> \<not> paused_of (reset r)"
begin

lemma errors_add: "errors_of (fold count_error ms r) = errors_of r + int (length ms)
    \<and> stage_of (fold count_error ms r) = stage_of r"
  by (induction ms arbitrary: r) (auto simp: count_law)

lemma pause_resume: "stage_of (resume (pause m r)) = stage_of r \<and> \<not> paused_of (resume (pause m r))
    \<and> errors_of (resume (pause m r)) = errors_of r"
  by (simp add: pause_law resume_law)

lemma advance_clears: "errors_of (advance s (fold count_error ms r)) = 0"
  by (simp add: advance_law)

lemma reset_after: "stage_of (reset (pause m r)) = StageExpand \<and> \<not> paused_of (reset (pause m r))"
  by (simp add: reset_law)

end

lemma row_ops [simp]:
  "pr_stage (advance_stage now st r) = st" "pr_error_count (advance_stage now st r) = 0"
  "pr_paused (advance_stage now st r) = pr_paused r"
  "pr_stage (pause_pipeline now m r) = pr_stage r" "pr_paused (pause_pipeline now m r)"
  "pr_pause_reason (pause_pipeline now m r) = Some m"
  "pr_error_count (pause_pipeline now m r) = pr_error_count r"
  "pr_stage (resume_pipeline now r) = pr_stage r" "\<not> pr_paused (resume_pipeline now r)"
  "pr_pause_reason (resume_pipeline now r) = None"
  "pr_error_count (resume_pipeline now r) = pr_error_count r"
  "pr_stage (reset_pipeline now r) = StageExpand" "\<not> pr_paused (reset_pipeline now r)"
  "pr_error_count (reset_pipeline now r) = 0"
  "pr_stage (fst (increment_error_count now m r)) = pr_stage r"
  "pr_paused (fst (increment_error_count now m r)) = pr_paused r"
  "pr_error_count (fst (increment_error_count now m r)) = pr_error_count r + 1"
  by (simp_all add: advance_stage_def pause_pipeline_def resume_pipeline_def reset_pipeline_def
      increment_error_count_def Let_def)

interpretation store: build_store pr_stage pr_error_count pr_paused pr_pause_reason
  "advance_stage now" "\<lambda>m r. fst (increment_error_count now m r)" "pause_pipeline now"
  "resume_pipeline now" "reset_pipeline now" for now
  by unfold_locales simp_all

section \<open>Facts on the stage log\<close>

lemma foldl_max_ge: "m \<le> foldl max m xs \<and> (\<forall>x\<in>set xs. x \<le> foldl max m xs)" for m :: int
proof (induction xs arbitrary: m)
  case (Cons x xs)
  have "max m x \<le> foldl max (max m x) xs" "\<forall>y\<in>set xs. y \<le> foldl max (max m x) xs"
    using Cons [of "max m x"] by auto
  then show ?case by auto
qed simp

lemma next_log_id_fresh: "e \<in> set l \<Longrightarrow> sl_id e < next_log_id l"
  using foldl_max_ge [of 0 "map sl_id l"] by (auto simp: next_log_id_def)

lemma log_start_distinct:
  "distinct (map sl_id l) \<Longrightarrow> log_stage_start st l = (l', i) \<Longrightarrow> distinct (map sl_id l') \<and> i \<notin> sl_id ` set l"
  using next_log_id_fresh by (fastforce simp: log_stage_start_def)

lemma log_update_ids [simp]:
  "map sl_id (log_stage_complete now i a b c d l) = map sl_id l"
  "map sl_id (log_stage_error now i m l) = map sl_id l"
  by (induction l) (auto simp: log_stage_complete_def log_stage_error_def)

lemma select_unknown_column: "c \<in> set cols \<Longrightarrow> c \<notin> set ho_assets_columns \<Longrightarrow> select_assets cols P d = None"
  by (auto simp: select_assets_def)

end
