(* ===== verification/PlanTools.thy ===== *)
theory PlanTools
  imports PlanData
begin

text \<open>
  What \<open>brain/stages.go\<close> derives from a plan before the build: the tool set of
  \<open>buildToolSetForPlan\<close>, and \<open>normalizePlanEndpoints\<close>, which adds the CRUD endpoints the
  pages refer to. The order in which Go ranges over the set of missing paths is the
  argument \<open>order\<close>.
\<close>

section \<open>Tool set\<close>

definition core_tools :: "string list" where
  "core_tools = [''manage_pages'', ''manage_files'', ''manage_layout'', ''manage_schema'',
     ''manage_endpoints'', ''manage_data'', ''manage_communication'', ''manage_secrets'',
     ''manage_providers'', ''manage_testing'', ''manage_plan'', ''make_http_request'']"

definition notes_need_http :: "page_spec \<Rightarrow> bool" where
  "notes_need_http pg =
     (let lower = to_lower (pg_notes pg)
      in contains lower ''http request'' \<or> contains lower ''external api''
         \<or> contains lower ''fetch from'')"

definition path_suggests_payment :: "endpoint_spec \<Rightarrow> bool" where
  "path_suggests_payment ep =
     (let lower = to_lower (ep_path ep)
      in contains lower ''payment'' \<or> contains lower ''checkout''
         \<or> contains lower ''subscription'' \<or> contains lower ''stripe'')"

definition build_tool_set_for_plan :: "plan \<Rightarrow> string list" where
  "build_tool_set_for_plan p =
     core_tools
     @ (if p_actions p \<noteq> [] then [''manage_actions''] else [])
     @ (if p_webhooks p \<noteq> [] then [''manage_webhooks''] else [])
     @ (if p_tasks p \<noteq> [] then [''manage_scheduler''] else [])
     @ (if list_ex (\<lambda>ep. ep_action ep = ''create_upload'') (p_endpoints p)
        then [''manage_media'', ''manage_blobs''] else [])
     @ (if list_ex (\<lambda>t. tb_searchable t \<noteq> []) (p_tables p) then [''manage_search''] else [])
     @ (if list_ex notes_need_http (p_pages p) then [''make_http_request''] else [])
     @ (if list_ex (\<lambda>a. ac_type a = ''send_email'') (p_actions p)
        then [''manage_email'', ''manage_providers''] else [])
     @ (if list_ex path_suggests_payment (p_endpoints p)
        then [''manage_payments'', ''manage_providers'', ''manage_secrets''] else [])
     @ (if p_tasks p \<noteq> [] then [''manage_jobs''] else [])
     @ (if p_components p \<noteq> [] then [''manage_components''] else [])
     @ (if list_ex (\<lambda>pg. \<not> pg_auth pg) (p_pages p) then [''manage_seo''] else [])"

section \<open>CRUD paths\<close>

definition sub_routes :: "string list" where
  "sub_routes = [''chat'', ''complete'', ''stream'', ''upload'', ''ws'', ''rooms'']"

definition crud_methods :: "string list" where
  "crud_methods = [''GET'', ''POST'', ''PUT'', ''DELETE'']"

definition extract_crud_path :: "string \<Rightarrow> string" where
  "extract_crud_path ref =
     (case str_fields (fst (cut_char (CHR ''?'') ref)) of
        m # u # _ \<Rightarrow>
          (if to_upper m \<notin> set crud_methods then []
           else (let url = trim_prefix u ''/api/''
                 in if url = [] then []
                    else (let (base, sub) = cut_char (CHR ''/'') url
                          in if base \<in> set sub_routes then []
                             else (case sub of
                                 Some s \<Rightarrow> if s \<in> set sub_routes then [] else base
                               | None \<Rightarrow> base))))
      | _ \<Rightarrow> [])"

section \<open>Endpoint normalisation\<close>

definition page_refs :: "page_spec \<Rightarrow> string list" where
  "page_refs pg = pg_endpoints pg @ concat (map sec_endpoints (pg_sections pg))"

definition existing_api :: "plan \<Rightarrow> string list" where
  "existing_api p = map ep_path (filter (\<lambda>ep. ep_action ep = ''create_api'') (p_endpoints p))"

definition needed_crud :: "plan \<Rightarrow> string list" where
  "needed_crud p =
     remdups (filter (\<lambda>path. path \<noteq> [] \<and> path \<in> set (map tb_name (p_tables p))
                          \<and> path \<notin> set (existing_api p))
                (map extract_crud_path (concat (map page_refs (p_pages p)))))"

definition crud_endpoint :: "string \<Rightarrow> endpoint_spec" where
  "crud_endpoint path =
     empty_endpoint\<lparr>ep_action := ''create_api'', ep_path := path, ep_table := path\<rparr>"

definition normalize_plan_endpoints ::
  "(string list \<Rightarrow> string list) \<Rightarrow> plan \<Rightarrow> plan \<times> string list" where
  "normalize_plan_endpoints order p =
     (let paths = order (needed_crud p)
      in (p\<lparr>p_endpoints := p_endpoints p @ map crud_endpoint paths\<rparr>, paths))"

section \<open>Facts\<close>

lemma extract_crud_path_base:
  assumes "method \<in> set crud_methods" "list_all visible name" "name \<noteq> []"
    "CHR ''/'' \<notin> set name" "CHR ''?'' \<notin> set name" "name \<notin> set sub_routes"
    and "list_all visible tail" "CHR ''?'' \<notin> set tail" "tail \<notin> set sub_routes"
    and q: "q = [] \<or> (\<exists>r. q = CHR ''?'' # r)
        \<or> q = CHR ''/'' # tail \<or> (\<exists>r. q = CHR ''/'' # tail @ CHR ''?'' # r)"
  shows "extract_crud_path (method @ '' /api/'' @ name @ q) = name"
proof -
  define rest where "rest = takeWhile (\<lambda>x. x \<noteq> CHR ''?'') q"
  have tw: "takeWhile (\<lambda>x. x \<noteq> CHR ''?'') (tail @ CHR ''?'' # r) = tail" for r
    using assms(8) by (subst takeWhile_append2) auto
  have tw': "takeWhile (\<lambda>x. x \<noteq> CHR ''?'') tail = tail"
    using assms(8) by (subst takeWhile_eq_all_conv) auto
  have rest: "rest = [] \<or> rest = CHR ''/'' # tail"
    using q assms(8) unfolding rest_def by (auto simp: tw tw')
  have m: "list_all visible method" "method \<noteq> []" "CHR ''?'' \<notin> set method" "to_upper method = method"
    using assms(1) by (auto simp: crud_methods_def visible_def upper_char_def)
  have v: "list_all visible (''/api/'' @ name @ rest)"
    using assms(2,7) rest by (auto simp: visible_def)
  have "cut_char (CHR ''?'') (method @ '' /api/'' @ name @ q) =
      (method @ CHR '' '' # ''/api/'' @ name @ rest,
       snd (cut_char (CHR ''?'') (method @ '' /api/'' @ name @ q)))"
    using m(3) assms(5) by (simp add: cut_char_def rest_def)
  then have fst: "str_fields (fst (cut_char (CHR ''?'') (method @ '' /api/'' @ name @ q))) =
      [method, ''/api/'' @ name @ rest]"
    using str_fields_two [OF m(1) v m(2)] by (metis append_is_Nil_conv fst_conv list.distinct(1))
  have tp: "trim_prefix (''/api/'' @ name @ rest) ''/api/'' = name @ rest"
    by (simp add: trim_prefix_def)
  have cut0: "cut_char (CHR ''/'') name = (name, None)" using assms(4) by (simp add: cut_char_None)
  have cut1: "cut_char (CHR ''/'') (name @ CHR ''/'' # tail) = (name, Some tail)"
    using assms(4) by (simp add: cut_char_def)
  have cut: "cut_char (CHR ''/'') (name @ rest) =
      (name, if rest = [] then None else Some tail)"
    using rest cut0 cut1 by (elim disjE) simp_all
  show ?thesis
    unfolding extract_crud_path_def fst list.case tp m(4)
    using assms(1,3,6,9) by (simp add: Let_def cut)
qed

lemma in_needed_crud:
  "path \<in> set (needed_crud p) \<longleftrightarrow>
     path \<noteq> [] \<and> path \<in> tb_name ` set (p_tables p) \<and> path \<notin> set (existing_api p)
     \<and> (\<exists>pg\<in>set (p_pages p). \<exists>r\<in>set (page_refs pg). extract_crud_path r = path)"
proof -
  have "path \<in> set (needed_crud p) \<longleftrightarrow>
      path \<noteq> [] \<and> path \<in> tb_name ` set (p_tables p) \<and> path \<notin> set (existing_api p)
      \<and> path \<in> extract_crud_path ` (\<Union>pg\<in>set (p_pages p). set (page_refs pg))"
    by (auto simp: needed_crud_def)
  then show ?thesis by (simp add: image_iff eq_commute)
qed

lemma existing_api_normalize:
  "existing_api (p\<lparr>p_endpoints := p_endpoints p @ map crud_endpoint paths\<rparr>) = existing_api p @ paths"
proof -
  have "map ep_path (filter (\<lambda>ep. ep_action ep = ''create_api'') (map crud_endpoint paths)) = paths"
    by (induction paths) (auto simp: crud_endpoint_def)
  then show ?thesis by (simp add: existing_api_def)
qed

lemma distinct_needed: "distinct (needed_crud p)"
  by (simp add: needed_crud_def)

section \<open>Properties\<close>

text \<open>A page reference such as \<open>GET /api/posts/12?limit=5\<close> is read as the CRUD resource
  \<open>posts\<close>: for every standard method, every visible resource name that is not the name of a
  sub-route, and every tail and query string, the name comes back.\<close>

theorem extract_crud_path_roundtrip:
  assumes "method \<in> set crud_methods" "list_all visible name" "name \<noteq> []"
    "CHR ''/'' \<notin> set name" "CHR ''?'' \<notin> set name" "name \<notin> set sub_routes"
    and "list_all visible tail" "CHR ''?'' \<notin> set tail" "tail \<notin> set sub_routes"
    and "q = [] \<or> (\<exists>r. q = CHR ''?'' # r)
        \<or> q = CHR ''/'' # tail \<or> (\<exists>r. q = CHR ''/'' # tail @ CHR ''?'' # r)"
  shows "extract_crud_path (method @ '' /api/'' @ name @ q) = name"
  using assms by (rule extract_crud_path_base)

theorem extract_crud_path_roundtrip_witness:
  "extract_crud_path (''GET'' @ '' /api/'' @ ''posts'' @ ''/12?limit=5'') = ''posts''"
  by (rule extract_crud_path_roundtrip [where tail = "''12''"])
     (simp_all add: crud_methods_def sub_routes_def visible_def)

text \<open>C32. After \<open>normalizePlanEndpoints\<close>, whatever order the map is ranged over in, every
  table that a page or section reaches through a CRUD reference has a \<open>create_api\<close> endpoint;
  the endpoints of the plan are kept, each injected path is a table without one, injected
  once, and a second run injects nothing.\<close>

theorem normalize_plan_endpoints_complete:
  assumes order: "\<And>xs. set (order xs) = set xs \<and> (distinct xs \<longrightarrow> distinct (order xs))"
    and run: "normalize_plan_endpoints order p = (p', injected)"
  shows "(\<forall>pg\<in>set (p_pages p'). \<forall>r\<in>set (page_refs pg).
            extract_crud_path r \<noteq> [] \<longrightarrow> extract_crud_path r \<in> tb_name ` set (p_tables p') \<longrightarrow>
            (\<exists>ep\<in>set (p_endpoints p'). ep_action ep = ''create_api'' \<and> ep_path ep = extract_crud_path r))
    \<and> p_endpoints p' = p_endpoints p @ map crud_endpoint injected
    \<and> p' = p\<lparr>p_endpoints := p_endpoints p'\<rparr>
    \<and> distinct injected
    \<and> set injected \<subseteq> tb_name ` set (p_tables p) - set (existing_api p)
    \<and> normalize_plan_endpoints order p' = (p', [])"
proof -
  have inj: "injected = order (needed_crud p)"
    and p': "p' = p\<lparr>p_endpoints := p_endpoints p @ map crud_endpoint injected\<rparr>"
    using run by (auto simp: normalize_plan_endpoints_def Let_def)
  have set_inj: "set injected = set (needed_crud p)" using order inj by simp
  have ex: "existing_api p' = existing_api p @ injected"
    unfolding p' by (rule existing_api_normalize)
  have none: "needed_crud p' = []"
  proof -
    have "path \<notin> set (needed_crud p')" for path
      unfolding in_needed_crud ex using set_inj in_needed_crud [of path p] by (auto simp: p')
    then show ?thesis by (metis last_in_set)
  qed
  have order_Nil: "order [] = []" using order [of "[]"] by simp
  have again: "normalize_plan_endpoints order p' = (p', [])"
    by (simp add: normalize_plan_endpoints_def none order_Nil)
  have cov: "\<exists>ep\<in>set (p_endpoints p'). ep_action ep = ''create_api'' \<and> ep_path ep = extract_crud_path r"
    if "pg \<in> set (p_pages p')" "r \<in> set (page_refs pg)" "extract_crud_path r \<noteq> []"
      "extract_crud_path r \<in> tb_name ` set (p_tables p')" for pg r
  proof -
    have "extract_crud_path r \<in> set (existing_api p')"
      using none that in_needed_crud [of "extract_crud_path r" p'] by auto
    then show ?thesis unfolding existing_api_def by auto
  qed
  have "distinct injected" using order inj distinct_needed by blast
  moreover have "set injected \<subseteq> tb_name ` set (p_tables p) - set (existing_api p)"
    unfolding set_inj using in_needed_crud by auto
  ultimately show ?thesis using cov again p' by auto
qed

definition crud_demo :: plan where
  "crud_demo = demo_plan\<lparr>
     p_pages := [demo_page ''/'' ''Home''\<lparr>pg_endpoints := [''GET /api/posts'', ''POST /api/tags'']\<rparr>],
     p_tables := [\<lparr>tb_name = ''tags'', tb_purpose = [], tb_columns = [], tb_seed = None,
       tb_searchable = []\<rparr>]\<rparr>"

theorem normalize_plan_endpoints_complete_witness:
  "case normalize_plan_endpoints (\<lambda>xs. xs) crud_demo of (p', injected) \<Rightarrow>
     injected = [''tags''] \<and> p_endpoints p' = p_endpoints crud_demo @ [crud_endpoint ''tags'']"
proof -
  obtain p' injected where run: "normalize_plan_endpoints (\<lambda>xs. xs) crud_demo = (p', injected)"
    by (cases "normalize_plan_endpoints (\<lambda>xs. xs) crud_demo")
  have "needed_crud crud_demo = [''tags'']" by code_simp
  then have "injected = [''tags'']"
    using run by (simp add: normalize_plan_endpoints_def)
  then show ?thesis
    using normalize_plan_endpoints_complete [OF _ run] run by simp
qed

end
