(* ===== verification/Progress.thy ===== *)
theory Progress
  imports PlanData
begin

text \<open>
  The build trackers of \<open>brain/progress.go\<close> and the helpers of \<open>brain/helpers.go\<close>. A
  Go \<open>map[string]bool\<close> that only ever gets \<open>true\<close> entries is the list of its keys,
  without repetition. Tool arguments are decoded JSON objects.
\<close>

section \<open>Go text helpers\<close>

text \<open>
  The runes of a string, each as the bytes that re-encode it: \<open>[]rune(s)\<close> turns an
  invalid byte into U+FFFD. \<open>rune_width\<close> is the length of the well-formed rune a string
  starts with.
\<close>

definition byte_in :: "nat \<Rightarrow> nat \<Rightarrow> char \<Rightarrow> bool" where
  "byte_in lo hi c = (lo \<le> (of_char c :: nat) \<and> (of_char c :: nat) \<le> hi)"

abbreviation cont_byte :: "char \<Rightarrow> bool" where
  "cont_byte \<equiv> byte_in 128 191"

definition second_ok :: "char \<Rightarrow> char \<Rightarrow> bool" where
  "second_ok a b =
     (if a = CHR 0xE0 then byte_in 160 191 b
      else if a = CHR 0xED then byte_in 128 159 b
      else if a = CHR 0xF0 then byte_in 144 191 b
      else if a = CHR 0xF4 then byte_in 128 143 b
      else cont_byte b)"

fun rune_width :: "string \<Rightarrow> nat option" where
  "rune_width [] = None"
| "rune_width (a # s) =
     (if byte_in 0 127 a then Some 1
      else (case s of [] \<Rightarrow> None
       | b # s \<Rightarrow>
          (if byte_in 194 223 a then (if cont_byte b then Some 2 else None)
           else (case s of [] \<Rightarrow> None
            | c # s \<Rightarrow>
               (if byte_in 224 239 a then (if second_ok a b \<and> cont_byte c then Some 3 else None)
                else (case s of [] \<Rightarrow> None
                 | d # s \<Rightarrow>
                    (if byte_in 240 244 a \<and> second_ok a b \<and> cont_byte c \<and> cont_byte d then Some 4
                     else None)))))))"

definition rune_error :: string where
  "rune_error = [CHR 0xEF, CHR 0xBF, CHR 0xBD]"

function go_runes :: "string \<Rightarrow> string list" where
  "go_runes [] = []"
| "go_runes (c # cs) =
     (case rune_width (c # cs) of
        None \<Rightarrow> rune_error # go_runes cs
      | Some w \<Rightarrow> take w (c # cs) # go_runes (drop (w - 1) cs))"
  by pat_completeness auto
termination by (relation "measure length") auto

definition truncate_text :: "string \<Rightarrow> nat \<Rightarrow> string" where
  "truncate_text s n =
     (if length s \<le> n then s
      else if length (go_runes s) \<le> n then s
      else concat (take n (go_runes s)) @ ''...'')"

section \<open>Errors and payloads\<close>

definition permanent_patterns :: "string list" where
  "permanent_patterns = [''no api key'', ''no model configured'', ''provider not available'',
     ''failed to decrypt'', ''has no api key'', ''has no base_url'']"

definition is_permanent_error :: "string \<Rightarrow> bool" where
  "is_permanent_error err =
     (let msg = to_lower err
      in list_ex (contains msg) permanent_patterns
         \<or> (contains msg ''send request:'' \<and> \<not> contains msg ''api error''
            \<and> \<not> contains msg ''timeout'' \<and> \<not> contains msg ''context deadline exceeded''))"

definition is_interactive_tool :: "string \<Rightarrow> bool" where
  "is_interactive_tool name =
     (name \<in> {''manage_communication'', ''manage_pages'', ''manage_files'', ''manage_layout'',
              ''manage_schema'', ''manage_data'', ''manage_endpoints''})"

text \<open>The dynamic types a command payload holds. The conversion of a \<open>float64\<close> outside the
  64-bit range is left to the implementation by Go; the model truncates.\<close>

datatype payload_value =
    PInt64 int
  | PFloat rat
  | PInt int
  | PStr string
  | POther

type_synonym payload = "(string, payload_value) gomap"

definition payload_int64 :: "payload \<Rightarrow> string \<Rightarrow> int" where
  "payload_int64 p key =
     (case map_of p key of
        Some (PInt64 v) \<Rightarrow> v
      | Some (PFloat v) \<Rightarrow> rat_to_int v
      | Some (PInt v) \<Rightarrow> v
      | Some (PStr v) \<Rightarrow> (case atoi v of Some n \<Rightarrow> n | None \<Rightarrow> 0)
      | _ \<Rightarrow> 0)"

definition payload_str :: "payload \<Rightarrow> string \<Rightarrow> string option" where
  "payload_str p key = (case map_of p key of Some (PStr v) \<Rightarrow> Some v | _ \<Rightarrow> None)"

section \<open>Build progress\<close>

record build_progress =
  bp_plan :: plan
  bp_tables_total :: nat
  bp_pages_total :: nat
  bp_endpoints_total :: nat
  bp_tables_done :: "string list"
  bp_pages_done :: "string list"
  bp_endpoints_done :: "string list"
  bp_calls :: nat
  bp_nudge_sent :: bool
  bp_post_iters :: nat
  bp_grace_iters :: nat
  bp_checkpointed :: bool

definition new_build_progress :: "plan \<Rightarrow> build_progress" where
  "new_build_progress p =
     \<lparr>bp_plan = p, bp_tables_total = length (p_tables p), bp_pages_total = length (p_pages p),
      bp_endpoints_total = length (p_endpoints p), bp_tables_done = [], bp_pages_done = [],
      bp_endpoints_done = [], bp_calls = 0, bp_nudge_sent = False, bp_post_iters = 0,
      bp_grace_iters = 0, bp_checkpointed = False\<rparr>"

definition endpoint_key :: "endpoint_spec \<Rightarrow> string" where
  "endpoint_key ep = ep_action ep @ '':'' @ ep_path ep"

definition remaining_list :: "build_progress \<Rightarrow> string list" where
  "remaining_list bp =
     map (\<lambda>t. ''table: '' @ tb_name t)
       (filter (\<lambda>t. tb_name t \<notin> set (bp_tables_done bp)) (p_tables (bp_plan bp)))
     @ map (\<lambda>ep. ''endpoint: '' @ ep_action ep @ '' '' @ ep_path ep)
       (filter (\<lambda>ep. endpoint_key ep \<notin> set (bp_endpoints_done bp)) (p_endpoints (bp_plan bp)))
     @ map (\<lambda>pg. ''page: '' @ pg_path pg @ '' ('' @ pg_title pg @ '')'')
       (filter (\<lambda>pg. pg_path pg \<notin> set (bp_pages_done bp)) (p_pages (bp_plan bp)))"

definition remaining_items :: "build_progress \<Rightarrow> string" where
  "remaining_items bp =
     (let items = remaining_list bp
      in if items = [] then []
         else ''REMINDER '' @ [CHR 0xE2, CHR 0x80, CHR 0x94]
              @ '' these plan items are still missing. Create them now:'' @ [CHR 0x0A] @ ''- ''
              @ join (CHR 0x0A # ''- '') items)"

definition all_complete :: "build_progress \<Rightarrow> bool" where
  "all_complete bp =
     (bp_tables_total bp \<le> length (bp_tables_done bp)
      \<and> bp_endpoints_total bp \<le> length (bp_endpoints_done bp)
      \<and> bp_pages_total bp \<le> length (bp_pages_done bp))"

definition track_tool_result :: "string \<Rightarrow> jobj \<Rightarrow> build_progress \<Rightarrow> build_progress" where
  "track_tool_result tool args bp =
     (let bp = bp\<lparr>bp_calls := Suc (bp_calls bp)\<rparr>; action = get_str args ''action''
      in if tool = ''manage_schema'' then
           (let name = get_str args ''table_name''
            in if action = ''create'' \<and> name \<noteq> []
               then bp\<lparr>bp_tables_done := List.insert name (bp_tables_done bp)\<rparr> else bp)
         else if tool = ''manage_pages'' then
           (let path = get_str args ''path''
            in if (action = ''save'' \<or> action = []) \<and> path \<noteq> []
               then bp\<lparr>bp_pages_done := List.insert path (bp_pages_done bp)\<rparr> else bp)
         else if tool = ''manage_endpoints'' then
           (let path = get_str args ''path''
            in if has_prefix action ''create_'' \<and> path \<noteq> []
               then bp\<lparr>bp_endpoints_done :=
                      List.insert (action @ '':'' @ path) (bp_endpoints_done bp)\<rparr> else bp)
         else bp)"

definition progress_payload :: "build_progress \<Rightarrow> (string \<times> nat) list" where
  "progress_payload bp =
     [(''tables_done'', length (bp_tables_done bp)), (''tables_total'', bp_tables_total bp),
      (''pages_done'', length (bp_pages_done bp)), (''pages_total'', bp_pages_total bp),
      (''endpoints_done'', length (bp_endpoints_done bp)),
      (''endpoints_total'', bp_endpoints_total bp), (''tool_calls'', bp_calls bp)]"

definition infrastructure_complete :: "build_progress \<Rightarrow> bool" where
  "infrastructure_complete bp =
     ((bp_tables_total bp = 0 \<or> bp_tables_total bp \<le> length (bp_tables_done bp))
      \<and> (bp_endpoints_total bp = 0 \<or> bp_endpoints_total bp \<le> length (bp_endpoints_done bp))
      \<and> length (bp_pages_done bp) < bp_pages_total bp)"

section \<open>Build cost\<close>

record cost_tracker =
  ct_total :: int
  ct_alerted :: "int list"
  ct_budget :: int
  ct_wrap_up_sent :: bool

definition default_token_budget :: int where
  "default_token_budget = 3000000"

definition cost_alert_thresholds :: "int list" where
  "cost_alert_thresholds = [500000, 1000000, 2000000]"

definition new_cost_tracker :: cost_tracker where
  "new_cost_tracker = \<lparr>ct_total = 0, ct_alerted = [], ct_budget = default_token_budget,
     ct_wrap_up_sent = False\<rparr>"

text \<open>The thresholds are whole tenths of a million, so one decimal prints them exactly.\<close>

definition alert_label :: "int \<Rightarrow> string" where
  "alert_label t =
     (if 1000000 \<le> t then itoa (t div 1000000) @ ''.'' @ itoa (t mod 1000000 div 100000) @ ''M''
      else itoa (t div 1000) @ ''K'')"

definition add_tokens :: "int \<Rightarrow> cost_tracker \<Rightarrow> cost_tracker \<times> string" where
  "add_tokens tokens ct =
     (let ct = ct\<lparr>ct_total := ct_total ct + tokens\<rparr>
      in case find (\<lambda>t. t \<le> ct_total ct \<and> t \<notin> set (ct_alerted ct)) cost_alert_thresholds of
           None \<Rightarrow> (ct, [])
         | Some t \<Rightarrow>
             (ct\<lparr>ct_alerted := ct_alerted ct @ [t]\<rparr>,
              ''Token usage alert: this build has used '' @ alert_label t @ '' tokens so far (''
              @ itoa (ct_total ct)
              @ '' total). Large builds may incur significant API costs.''))"

section \<open>Progress messages\<close>

definition file_ext :: "string \<Rightarrow> string" where
  "file_ext filename =
     (case str_last_index filename ''.'' of
        None \<Rightarrow> [] | Some i \<Rightarrow> to_lower (drop (i + 1) filename))"

definition file_type_table :: "(string list \<times> string) list" where
  "file_type_table =
     [([''js'', ''mjs'', ''ts'', ''jsx'', ''tsx''], ''script''),
      ([''css'', ''scss'', ''sass'', ''less''], ''stylesheet''),
      ([''json'', ''xml'', ''yml'', ''yaml'', ''toml''], ''data file''),
      ([''svg''], ''SVG''),
      ([''png'', ''jpg'', ''jpeg'', ''gif'', ''webp'', ''ico'', ''bmp'', ''avif''], ''image''),
      ([''woff'', ''woff2'', ''ttf'', ''otf'', ''eot''], ''font''),
      ([''mp4'', ''webm'', ''ogg'', ''mov''], ''video''),
      ([''mp3'', ''wav'', ''flac'', ''aac'', ''m4a''], ''audio''),
      ([''pdf''], ''document'')]"

definition file_type_label :: "string \<Rightarrow> string" where
  "file_type_label filename =
     (case find (\<lambda>(exts, _). file_ext filename \<in> set exts) file_type_table of
        Some (_, label) \<Rightarrow> label | None \<Rightarrow> ''file'')"

definition tool_progress_message :: "string \<Rightarrow> jobj \<Rightarrow> string" where
  "tool_progress_message tool args =
     (let action = get_str args ''action''
      in if tool = ''manage_files'' \<and> action = ''save'' then
           (let f = get_str args ''filename''
            in if f \<noteq> [] then ''Created **'' @ f @ ''** ('' @ file_type_label f @ '')'' else [])
         else if tool = ''manage_files'' \<and> action = ''delete'' then
           (let f = get_str args ''filename''
            in if f \<noteq> [] then ''Deleted **'' @ f @ ''**'' else [])
         else if tool = ''manage_layout'' \<and> action = ''save'' then
           (let n = get_str args ''name''
            in ''Saved layout: **'' @ (if n = [] then ''default'' else n) @ ''**'')
         else if tool = ''manage_schema'' \<and> action = ''create'' then
           (let t = get_str args ''table_name''
            in if t \<noteq> [] then ''Created table: **'' @ t @ ''**'' else [])
         else if tool = ''manage_endpoints'' \<and> has_prefix action ''create_'' then
           (let p = get_str args ''path''
            in if p \<noteq> [] then ''Created endpoint: **/api/'' @ p @ ''** ('' @ action @ '')'' else [])
         else [])"

section \<open>Facts on truncation\<close>

lemma rune_width_bounds: "rune_width s = Some w \<Longrightarrow> 0 < w \<and> w \<le> length s"
  by (cases s rule: rune_width.cases) (auto split: list.splits if_splits)

lemma concat_go_runes: "rune_error \<notin> set (go_runes s) \<Longrightarrow> concat (go_runes s) = s"
proof (induction s rule: go_runes.induct)
  case (2 c cs)
  show ?case
  proof (cases "rune_width (c # cs)")
    case None
    then show ?thesis using 2 by simp
  next
    case (Some w)
    then have "0 < w" using rune_width_bounds by blast
    then have "take w (c # cs) @ drop (w - 1) cs = c # cs" by (cases w) auto
    then show ?thesis using Some 2 by simp
  qed
qed simp

lemma concat_take_prefix: "prefix (concat (take n xs)) (concat xs)"
  by (metis append_take_drop_id concat_append prefixI)

lemma truncate_text_spec:
  assumes "rune_error \<notin> set (go_runes s)"
  shows "truncate_text s n = s \<or> (\<exists>t. truncate_text s n = t @ ''...'' \<and> prefix t s)"
  using concat_take_prefix [of n "go_runes s"] concat_go_runes [OF assms]
  by (auto simp: truncate_text_def)

section \<open>Facts on the trackers\<close>

definition track_all :: "(string \<times> jobj) list \<Rightarrow> plan \<Rightarrow> build_progress" where
  "track_all calls p = fold (\<lambda>(tool, args). track_tool_result tool args) calls (new_build_progress p)"

definition progress_ok :: "plan \<Rightarrow> build_progress \<Rightarrow> bool" where
  "progress_ok p bp =
     (bp_plan bp = p \<and> bp_tables_total bp = length (p_tables p)
      \<and> bp_pages_total bp = length (p_pages p) \<and> bp_endpoints_total bp = length (p_endpoints p)
      \<and> distinct (bp_tables_done bp) \<and> distinct (bp_pages_done bp) \<and> distinct (bp_endpoints_done bp))"

lemma progress_ok_new [inv_intros]: "progress_ok p (new_build_progress p)"
  by (simp add: progress_ok_def new_build_progress_def)

lemma progress_ok_track [inv_intros]:
  "progress_ok p bp \<Longrightarrow> progress_ok p (track_tool_result tool args bp)"
  by (simp add: progress_ok_def track_tool_result_def Let_def)

lemma progress_ok_track_all: "progress_ok p (track_all calls p)"
proof -
  have "progress_ok p bp \<Longrightarrow> progress_ok p (fold (\<lambda>(tool, args). track_tool_result tool args) calls bp)" for bp
    by (induction calls arbitrary: bp) (auto intro: inv_intros)
  then show ?thesis using progress_ok_new by (simp add: track_all_def)
qed

text \<open>Counting distinct finished keys against the planned list.\<close>

lemma count_done_iff:
  assumes "distinct done" "distinct (map f xs)" "set done \<subseteq> f ` set xs"
  shows "length xs \<le> length done \<longleftrightarrow> f ` set xs \<subseteq> set done"
proof -
  have d: "card (set done) = length done" using assms(1) by (rule distinct_card)
  have "card (f ` set xs) = length xs"
    using distinct_card [OF assms(2)] by simp
  then show ?thesis
    using d assms(3) card_mono [of "set done" "f ` set xs"] card_seteq [of "f ` set xs" "set done"]
    by auto
qed

lemma count_done_dup:
  assumes "distinct done" "\<not> distinct (map f xs)" "set done \<subseteq> f ` set xs"
  shows "length done < length xs"
proof -
  have "length done = card (set done)" using assms(1) by (simp add: distinct_card)
  also have "\<dots> \<le> card (f ` set xs)" by (rule card_mono) (use assms in auto)
  also have "\<dots> \<noteq> length xs" using assms(2) card_distinct [of "map f xs"] by auto
  moreover have "card (f ` set xs) \<le> length xs" using card_length [of "map f xs"] by simp
  ultimately show ?thesis by linarith
qed

lemma remaining_list_Nil_iff:
  assumes "progress_ok p bp"
  shows "remaining_list bp = [] \<longleftrightarrow>
     tb_name ` set (p_tables p) \<subseteq> set (bp_tables_done bp)
     \<and> endpoint_key ` set (p_endpoints p) \<subseteq> set (bp_endpoints_done bp)
     \<and> pg_path ` set (p_pages p) \<subseteq> set (bp_pages_done bp)"
  using assms by (auto simp: remaining_list_def progress_ok_def filter_empty_conv)

lemma remaining_items_Nil_iff: "remaining_items bp = [] \<longleftrightarrow> remaining_list bp = []"
  by (simp add: remaining_items_def Let_def)

lemma add_tokens_prefix:
  assumes "ct_alerted ct = take n cost_alert_thresholds" "n \<le> 3"
    and "add_tokens t ct = (ct', m)"
  shows "ct_alerted ct' = take (if m = [] then n else Suc n) cost_alert_thresholds
    \<and> (m \<noteq> [] \<longrightarrow> n < 3) \<and> ct_total ct' = ct_total ct + t"
proof -
  have "n = 0 \<or> n = 1 \<or> n = 2 \<or> n = 3" using assms(2) by linarith
  then show ?thesis
    using assms(1,3)
    by (elim disjE)
       (auto simp: add_tokens_def cost_alert_thresholds_def Let_def split: if_splits)
qed

definition add_all_tokens :: "int list \<Rightarrow> cost_tracker \<times> string list" where
  "add_all_tokens ts =
     foldl (\<lambda>(ct, ms) t. (let (ct', m) = add_tokens t ct in (ct', if m = [] then ms else ms @ [m])))
       (new_cost_tracker, []) ts"

lemma add_all_tokens_snoc:
  "add_all_tokens (ts @ [t]) =
     (let (ct', m) = add_tokens t (fst (add_all_tokens ts))
      in (ct', if m = [] then snd (add_all_tokens ts) else snd (add_all_tokens ts) @ [m]))"
  by (simp add: add_all_tokens_def case_prod_beta)

lemma add_all_tokens_inv:
  "length (snd (add_all_tokens ts)) \<le> 3
   \<and> ct_alerted (fst (add_all_tokens ts)) = take (length (snd (add_all_tokens ts))) cost_alert_thresholds
   \<and> ct_total (fst (add_all_tokens ts)) = sum_list ts"
proof (induction ts rule: rev_induct)
  case Nil
  then show ?case by (simp add: add_all_tokens_def new_cost_tracker_def)
next
  case (snoc t ts)
  obtain ct' m where r: "add_tokens t (fst (add_all_tokens ts)) = (ct', m)"
    by (cases "add_tokens t (fst (add_all_tokens ts))")
  show ?case
    using add_tokens_prefix [OF _ _ r, of "length (snd (add_all_tokens ts))"] snoc.IH
    by (auto simp: add_all_tokens_snoc r Let_def split: if_splits)
qed

section \<open>Properties\<close>

text \<open>Whatever the stages report, the cost alerts come in the order of the thresholds, each
  at most once, at most three in a build, and the running total is the sum of what was added.\<close>

theorem cost_alerts_in_order:
  "case add_all_tokens ts of (ct, alerts) \<Rightarrow>
     ct_total ct = sum_list ts
     \<and> ct_alerted ct = take (length alerts) cost_alert_thresholds
     \<and> length alerts \<le> 3 \<and> distinct (ct_alerted ct)"
proof -
  have "distinct cost_alert_thresholds" by (simp add: cost_alert_thresholds_def)
  then show ?thesis
    using add_all_tokens_inv [of ts] by (simp add: case_prod_beta)
qed

text \<open>When the plan names every table, endpoint and page once, and the build creates only
  planned items, \<open>allComplete\<close> holds exactly when the reminder of missing items is empty.\<close>

theorem all_complete_iff_none_remaining:
  assumes "bp = track_all calls p"
    and "distinct (map tb_name (p_tables p))" "distinct (map endpoint_key (p_endpoints p))"
      "distinct (map pg_path (p_pages p))"
    and "set (bp_tables_done bp) \<subseteq> tb_name ` set (p_tables p)"
      "set (bp_endpoints_done bp) \<subseteq> endpoint_key ` set (p_endpoints p)"
      "set (bp_pages_done bp) \<subseteq> pg_path ` set (p_pages p)"
  shows "all_complete bp \<longleftrightarrow> remaining_items bp = []"
proof -
  have ok: "progress_ok p bp" using assms(1) progress_ok_track_all by simp
  then have d: "distinct (bp_tables_done bp)" "distinct (bp_endpoints_done bp)"
      "distinct (bp_pages_done bp)" by (auto simp: progress_ok_def)
  note c = count_done_iff [OF d(1) assms(2,5)] count_done_iff [OF d(2) assms(3,6)]
    count_done_iff [OF d(3) assms(4,7)]
  show ?thesis
    unfolding remaining_items_Nil_iff remaining_list_Nil_iff [OF ok] all_complete_def
    using c ok by (simp add: progress_ok_def)
qed

definition demo_calls :: "(string \<times> jobj) list" where
  "demo_calls =
     [(''manage_pages'', [(''action'', JStr ''save''), (''path'', JStr ''/'')]),
      (''manage_pages'', [(''path'', JStr ''/about'')]),
      (''manage_endpoints'', [(''action'', JStr ''create_api''), (''path'', JStr ''posts'')])]"

theorem all_complete_iff_none_remaining_witness:
  "all_complete (track_all demo_calls demo_plan)
   \<and> remaining_items (track_all demo_calls demo_plan) = []"
proof -
  let ?bp = "track_all demo_calls demo_plan"
  have dn: "bp_tables_done ?bp = []" "bp_endpoints_done ?bp = [''create_api:posts'']"
      "set (bp_pages_done ?bp) = {''/'', ''/about''}"
    by (simp_all add: track_all_def demo_calls_def track_tool_result_def new_build_progress_def
        get_str_def get_str_ok_def Let_def) auto
  have pl: "p_tables demo_plan = []" "map endpoint_key (p_endpoints demo_plan) = [''create_api:posts'']"
      "endpoint_key ` set (p_endpoints demo_plan) = {''create_api:posts''}"
      "map pg_path (p_pages demo_plan) = [''/'', ''/about'']"
      "pg_path ` set (p_pages demo_plan) = {''/'', ''/about''}"
    by (simp_all add: demo_defs endpoint_key_def)
  have "all_complete ?bp"
    by (simp add: all_complete_def track_all_def demo_calls_def track_tool_result_def
        new_build_progress_def get_str_def get_str_ok_def Let_def demo_defs)
  moreover have "all_complete ?bp \<longleftrightarrow> remaining_items ?bp = []"
    by (rule all_complete_iff_none_remaining [OF refl, of demo_plan])
       (simp_all add: dn pl)
  ultimately show ?thesis by simp
qed

definition crud_plan :: "string list \<Rightarrow> endpoint_spec list \<Rightarrow> plan" where
  "crud_plan tables eps = empty_plan\<lparr>p_pages := [demo_page ''/'' ''Home''], p_endpoints := eps,
     p_tables := map (\<lambda>n. \<lparr>tb_name = n, tb_purpose = [], tb_columns = [], tb_seed = None,
       tb_searchable = []\<rparr>) tables\<rparr>"

text \<open>\<open>allComplete\<close> compares counts only. A build that creates as many unplanned items as
  it leaves out counts as complete while \<open>remainingItems\<close> still lists the missing ones, and
  a plan with the same endpoint twice is never complete, although every planned item exists.\<close>

theorem all_complete_counts_only:
  "(all_complete (track_all
      [(''manage_schema'', [(''action'', JStr ''create''), (''table_name'', JStr ''tags'')]),
       (''manage_pages'', [(''path'', JStr ''/'')])]
      (crud_plan [''posts''] [])) \<and>
    remaining_list (track_all
      [(''manage_schema'', [(''action'', JStr ''create''), (''table_name'', JStr ''tags'')]),
       (''manage_pages'', [(''path'', JStr ''/'')])]
      (crud_plan [''posts''] [])) = [''table: posts''])
   \<and> (\<forall>p calls. \<not> distinct (map endpoint_key (p_endpoints p)) \<longrightarrow>
        set (bp_endpoints_done (track_all calls p)) \<subseteq> endpoint_key ` set (p_endpoints p) \<longrightarrow>
        \<not> all_complete (track_all calls p))"
proof (intro conjI allI impI)
  fix p calls
  assume dup: "\<not> distinct (map endpoint_key (p_endpoints p))"
    and sub: "set (bp_endpoints_done (track_all calls p)) \<subseteq> endpoint_key ` set (p_endpoints p)"
  have ok: "progress_ok p (track_all calls p)" by (rule progress_ok_track_all)
  then have "length (bp_endpoints_done (track_all calls p)) < length (p_endpoints p)"
    using count_done_dup [OF _ dup sub] by (simp add: progress_ok_def)
  then show "\<not> all_complete (track_all calls p)"
    using ok by (simp add: all_complete_def progress_ok_def)
qed (code_simp)+

definition dup_demo :: plan where
  "dup_demo = crud_plan [] (replicate 2 (empty_endpoint\<lparr>ep_action := ''create_api'', ep_path := ''posts''\<rparr>))"

theorem all_complete_counts_only_witness:
  "\<not> all_complete (track_all demo_calls dup_demo) \<and> remaining_list (track_all demo_calls dup_demo) = []"
proof
  have "bp_endpoints_done (track_all demo_calls dup_demo) = [''create_api:posts'']"
    by (simp add: track_all_def demo_calls_def track_tool_result_def new_build_progress_def
        get_str_def get_str_ok_def Let_def)
  then show "\<not> all_complete (track_all demo_calls dup_demo)"
    using conjunct2 [OF all_complete_counts_only, rule_format, of dup_demo demo_calls]
    by (simp add: dup_demo_def crud_plan_def empty_plan_def empty_endpoint_def endpoint_key_def
        numeral_2_eq_2)
qed code_simp

end
