(* ===== verification/Validate.thy ===== *)
theory Validate
  imports SiteDb PlanTools Progress
begin

text \<open>
  The build validators of \<open>brain/stages.go\<close>: \<open>validateBuild\<close> and the checks it calls, each
  over the tables of the site database, and \<open>isCriticalIssue\<close>, which decides by the text of
  an issue whether the VALIDATE stage may complete. The decoder of the stored asset list is
  the argument \<open>dec\<close>, and the order in which Go ranges over a map the argument \<open>order\<close>.
\<close>

section \<open>Existence checks\<close>

definition em_dash :: string where
  "em_dash = [CHR 0xE2, CHR 0x80, CHR 0x94]"

definition endpoint_action_tables :: "(string \<times> string) list" where
  "endpoint_action_tables =
     [(''create_api'', ''ho_api_endpoints''), (''create_auth'', ''ho_auth_endpoints''),
      (''create_websocket'', ''ho_ws_endpoints''), (''create_stream'', ''ho_stream_endpoints''),
      (''create_upload'', ''ho_upload_endpoints''), (''create_llm'', ''ho_llm_endpoints'')]"

definition system_tables :: "string list" where
  "system_tables = [''ho_pages'', ''ho_page_versions'', ''ho_assets'', ''ho_files'',
     ''ho_file_versions'', ''ho_brain_log'', ''ho_memory'', ''ho_chat_messages'',
     ''ho_questions'', ''ho_answers'', ''ho_dynamic_tables'', ''ho_api_endpoints'',
     ''ho_auth_endpoints'', ''ho_oauth_providers'', ''ho_webhooks'', ''ho_webhook_subscriptions'',
     ''ho_webhook_logs'', ''ho_analytics'', ''ho_secrets'', ''ho_scheduled_tasks'',
     ''ho_task_runs'', ''ho_activity_log'', ''ho_approval_rules'', ''ho_site_snapshots'',
     ''ho_service_providers'', ''ho_llm_log'', ''ho_layouts'', ''ho_layout_versions'',
     ''ho_pipeline_state'', ''ho_stage_log'', ''ho_upload_endpoints'', ''ho_stream_endpoints'',
     ''ho_redirects'', ''ho_ws_endpoints'', ''ho_seo_meta'', ''ho_blobs'', ''ho_jobs'',
     ''ho_actions'', ''ho_llm_endpoints'']"

definition is_system_table :: "string \<Rightarrow> bool" where
  "is_system_table name = (name \<in> set system_tables)"

definition table_issue :: "string \<Rightarrow> string" where
  "table_issue n =
     (if is_system_table n
      then ''Table '' @ [CHR 0x27] @ n @ [CHR 0x27] @ '' collides with a reserved system table ''
           @ em_dash @ '' rename it (e.g. '' @ [CHR 0x27] @ ''user_'' @ n @ [CHR 0x27] @ '' or ''
           @ [CHR 0x27] @ ''app_'' @ n @ [CHR 0x27]
           @ '') and update endpoints/pages that reference it''
      else ''Table '' @ [CHR 0x27] @ n @ [CHR 0x27] @ '' not created'')"

definition validate_tables_exist :: "site_db \<Rightarrow> plan \<Rightarrow> string list" where
  "validate_tables_exist d p =
     map (\<lambda>t. table_issue (tb_name t)) (filter (\<lambda>t. tb_name t \<notin> set (sd_tables d)) (p_tables p))"

definition endpoint_exists :: "site_db \<Rightarrow> endpoint_spec \<Rightarrow> bool" where
  "endpoint_exists d ep =
     (case map_of endpoint_action_tables (ep_action ep) of
        None \<Rightarrow> False | Some tbl \<Rightarrow> ep_path ep \<in> set (endpoint_paths tbl d))"

definition endpoint_issue :: "endpoint_spec \<Rightarrow> string" where
  "endpoint_issue ep =
     ''Endpoint '' @ [CHR 0x27] @ ep_action ep @ '' '' @ ep_path ep @ [CHR 0x27] @ '' not created''"

definition endpoint_table_names :: "string list" where
  "endpoint_table_names = [''ho_api_endpoints'', ''ho_upload_endpoints'', ''ho_auth_endpoints'',
     ''ho_stream_endpoints'', ''ho_ws_endpoints'', ''ho_llm_endpoints'']"

definition path_exists :: "site_db \<Rightarrow> string \<Rightarrow> bool" where
  "path_exists d path = list_ex (\<lambda>tbl. path \<in> set (endpoint_paths tbl d)) endpoint_table_names"

definition ref_issue :: "page_spec \<Rightarrow> string \<Rightarrow> string" where
  "ref_issue pg r =
     ''Page '' @ [CHR 0x27] @ pg_path pg @ [CHR 0x27] @ '' references '' @ [CHR 0x27] @ r
     @ [CHR 0x27] @ '' but no endpoint exists for path '' @ [CHR 0x27] @ extract_crud_path r
     @ [CHR 0x27]"

text \<open>The cross-check of page references; a reference is looked at once over all pages.\<close>

fun check_refs :: "site_db \<Rightarrow> string list \<Rightarrow> (page_spec \<times> string) list \<Rightarrow> string list" where
  "check_refs d seen [] = []"
| "check_refs d seen ((pg, r) # rs) =
     (if r \<in> set seen then check_refs d seen rs
      else (let crud = extract_crud_path r
            in (if crud \<noteq> [] \<and> \<not> path_exists d crud then [ref_issue pg r] else []))
           @ check_refs d (r # seen) rs)"

definition validate_endpoints_exist :: "site_db \<Rightarrow> plan \<Rightarrow> string list" where
  "validate_endpoints_exist d p =
     map endpoint_issue (filter (\<lambda>ep. \<not> endpoint_exists d ep) (p_endpoints p))
     @ check_refs d [] (concat (map (\<lambda>pg. map (\<lambda>r. (pg, r)) (pg_endpoints pg)) (p_pages p)))"

definition page_content :: "site_db \<Rightarrow> string \<Rightarrow> string" where
  "page_content d path = (case find_page path d of None \<Rightarrow> [] | Some r \<Rightarrow> null_string (pgr_content r))"

definition page_issue :: "page_spec \<Rightarrow> string" where
  "page_issue pg = ''Page '' @ [CHR 0x27] @ pg_path pg @ [CHR 0x27] @ '' ('' @ pg_title pg
     @ '') missing or empty''"

definition validate_pages_exist :: "site_db \<Rightarrow> plan \<Rightarrow> string list" where
  "validate_pages_exist d p =
     map page_issue (filter (\<lambda>pg. page_content d (pg_path pg) = []) (p_pages p))"

definition validate_auth_strategy :: "site_db \<Rightarrow> plan \<Rightarrow> string list" where
  "validate_auth_strategy d p =
     (if p_auth_strategy p \<noteq> ''jwt'' then []
      else if endpoint_paths ''ho_auth_endpoints'' d = []
      then [''auth_strategy is '' @ [CHR 0x27] @ ''jwt'' @ [CHR 0x27]
            @ '' but no auth endpoint was created '' @ em_dash
            @ '' use manage_endpoints create_auth'']
      else [])"

definition validate_global_css :: "site_db \<Rightarrow> string list" where
  "validate_global_css d =
     (if list_ex (global_file ''.css'') (sd_assets d) then [] else [''No global CSS file found''])"

definition validate_layout_exists :: "site_db \<Rightarrow> string list" where
  "validate_layout_exists d = (if sd_layouts d = [] then [''No layout created''] else [])"

section \<open>Wiring checks\<close>

definition assets_set :: "string option \<Rightarrow> bool" where
  "assets_set v = (null_string v \<noteq> [] \<and> v \<noteq> Some ''[]'')"

definition asset_exists :: "site_db \<Rightarrow> string \<Rightarrow> bool" where
  "asset_exists d fn = list_ex (\<lambda>a. asset_val a ''filename'' = fn) (sd_assets d)"

definition validate_page_assets :: "(string \<Rightarrow> string list option) \<Rightarrow> site_db \<Rightarrow> string list" where
  "validate_page_assets dec d =
     concat (map (\<lambda>r. (case dec (null_string (pgr_assets r)) of
           None \<Rightarrow> []
         | Some fs \<Rightarrow> map (\<lambda>a. ''Page '' @ [CHR 0x27] @ pgr_path r @ [CHR 0x27]
               @ '' references asset '' @ [CHR 0x27] @ a @ [CHR 0x27] @ '' which doesn''
               @ [CHR 0x27] @ ''t exist'')
             (filter (\<lambda>a. \<not> asset_exists d a) fs)))
       (filter (\<lambda>r. \<not> pgr_deleted r \<and> assets_set (pgr_assets r)) (sd_pages d)))"

definition page_assets :: "site_db \<Rightarrow> string \<Rightarrow> string option" where
  "page_assets d path = (case find_page path d of None \<Rightarrow> None | Some r \<Rightarrow> pgr_assets r)"

definition validate_page_endpoint_js :: "site_db \<Rightarrow> plan \<Rightarrow> string list" where
  "validate_page_endpoint_js d p =
     (if list_ex (global_file ''.js'') (sd_assets d) then []
      else map (\<lambda>pg. ''Page '' @ [CHR 0x27] @ pg_path pg @ [CHR 0x27]
                  @ '' lists endpoints but has no JS assets wired'')
             (filter (\<lambda>pg. pg_endpoints pg \<noteq> [] \<and> \<not> assets_set (page_assets d (pg_path pg)))
               (p_pages p)))"

definition validate_layout_head :: "site_db \<Rightarrow> string list" where
  "validate_layout_head d =
     (case find (\<lambda>l. lr_name l = ''default'') (sd_layouts d) of
        Some l \<Rightarrow> (if null_string (lr_head l) = []
           then [''Default layout has no head_content (missing fonts, favicon, or CDN links)''] else [])
      | None \<Rightarrow> [''Default layout has no head_content (missing fonts, favicon, or CDN links)''])"

definition has_placeholder :: "string \<Rightarrow> bool" where
  "has_placeholder c =
     (let lower = to_lower c
      in contains lower ''lorem ipsum'' \<or> contains lower ''todo:''
         \<or> contains lower ''<!-- todo'' \<or> contains lower ''placeholder text'')"

definition validate_no_placeholders :: "site_db \<Rightarrow> plan \<Rightarrow> string list" where
  "validate_no_placeholders d p =
     map (\<lambda>pg. ''Page '' @ [CHR 0x27] @ pg_path pg @ [CHR 0x27] @ '' contains placeholder text'')
       (filter (\<lambda>pg. page_content d (pg_path pg) \<noteq> []
                   \<and> has_placeholder (page_content d (pg_path pg))) (p_pages p))"

section \<open>Stylesheet and script checks\<close>

text \<open>The layout the plan asks for, with the defaults of \<open>brain/prompts.go\<close>.\<close>

definition chromeless_keywords :: "string list" where
  "chromeless_keywords = [''game'', ''canvas'', ''art'', ''immersive'', ''visuali'', ''experiment'',
     ''animation'', ''3d'', ''webgl'', ''demo'', ''screensaver'', ''generative'', ''chat'',
     ''messenger'', ''fullscreen'', ''quiz'', ''survey'', ''poll'', ''music'', ''audio'',
     ''meditation'', ''breathing'', ''typing'', ''whiteboard'', ''drawing'', ''paint'', ''sketch'',
     ''puzzle'', ''simulation'', ''simulator'', ''map'', ''globe'', ''kiosk'', ''card-game'',
     ''board-game'', ''snake'', ''tetris'', ''pong'']"

definition minimal_keywords :: "string list" where
  "minimal_keywords = [''calculator'', ''timer'', ''clock'', ''converter'', ''reader'', ''viewer'',
     ''player'', ''editor'', ''terminal'', ''ide'', ''notebook'', ''tool'', ''utility'',
     ''dashboard'', ''admin'', ''panel'', ''form'', ''wizard'', ''onboarding'']"

definition infer_layout_defaults :: "string \<Rightarrow> string \<times> string" where
  "infer_layout_defaults app_type =
     (let lower = to_lower app_type
      in if list_ex (contains lower) chromeless_keywords then (''none'', ''none'')
         else if list_ex (contains lower) minimal_keywords then (''minimal'', ''none'')
         else (''full'', ''full''))"

definition layout_header_footer :: "plan \<Rightarrow> string \<times> string" where
  "layout_header_footer p =
     (let (h, f) = infer_layout_defaults (p_app_type p)
      in case p_layout p of
           None \<Rightarrow> (h, f)
         | Some l \<Rightarrow> (if lay_header l \<noteq> [] then lay_header l else h,
                      if lay_footer l \<noteq> [] then lay_footer l else f))"

text \<open>The content of the first global stylesheet: None when the query fails or has no row.\<close>

definition global_css :: "site_db \<Rightarrow> string option" where
  "global_css d =
     (case select_assets [''content''] (global_file ''.css'') d of
        Some ((c # _) # _) \<Rightarrow> Some c | _ \<Rightarrow> None)"

definition validate_css_responsive :: "site_db \<Rightarrow> plan \<Rightarrow> string list" where
  "validate_css_responsive d p =
     (if layout_header_footer p = (''none'', ''none'') then []
      else (let css = null_string (global_css d)
            in if css \<noteq> [] \<and> \<not> contains css ''@media''
               then [''Global CSS has no @media responsive breakpoints''] else []))"

definition class_char :: "char \<Rightarrow> bool" where
  "class_char c = (c = CHR ''-'' \<or> c = CHR ''_'' \<or> is_digit c
     \<or> (97 \<le> (of_char c :: nat) \<and> (of_char c :: nat) \<le> 122)
     \<or> (65 \<le> (of_char c :: nat) \<and> (of_char c :: nat) \<le> 90))"

function line_classes :: "string \<Rightarrow> string list" where
  "line_classes [] = []"
| "line_classes (c # cs) =
     (if c = CHR ''.''
      then (let w = takeWhile class_char cs
            in (if w \<noteq> [] then [w] else []) @ line_classes (dropWhile class_char cs))
      else line_classes cs)"
  by pat_completeness auto
termination
  by (relation "measure length") (auto simp: length_dropWhile_le less_Suc_eq_le)

definition css_classes :: "string \<Rightarrow> string list" where
  "css_classes css = concat (map (\<lambda>l. line_classes (trim_space l)) (split_char (CHR 0x0A) css))"

lemma str_index_drop: "str_index s pat = Some i \<Longrightarrow> pat \<noteq> [] \<Longrightarrow> length (drop (i + length pat) s) < length s"
  by (cases s) (auto split: if_splits)

definition class_attr :: string where
  "class_attr = ''class='' @ [CHR 0x22]"

function extract_class_attrs :: "string \<Rightarrow> string list" where
  "extract_class_attrs s =
     (case str_index s class_attr of None \<Rightarrow> []
      | Some i \<Rightarrow>
          (let rest = drop (i + length class_attr) s
           in case str_index rest [CHR 0x22] of None \<Rightarrow> []
              | Some j \<Rightarrow> take j rest # extract_class_attrs (drop (j + 1) rest)))"
  by pat_completeness auto
termination
proof (relation "measure length")
  fix s i rest j
  assume "str_index s class_attr = Some i" "rest = drop (i + length class_attr) s"
  then have "length rest < length s" using str_index_drop [of s class_attr i] by (simp add: class_attr_def)
  then show "(drop (j + 1) rest, s) \<in> measure length" by simp
qed simp

declare extract_class_attrs.simps [simp del]

definition skip_prefixes :: "string list" where
  "skip_prefixes = [''mt-'', ''mb-'', ''pt-'', ''pb-'', ''text-'', ''flex'', ''items-'', ''justify-'',
     ''gap-'', ''w-'', ''h-'', ''p-'', ''m-'', ''bg-'', ''font-'', ''rounded'']"

definition layout_keywords :: "string list" where
  "layout_keywords = [''grid'', ''container'', ''section'', ''wrapper'', ''layout'', ''cta'',
     ''actions'', ''group'', ''list'', ''row'', ''col'']"

definition html_classes :: "site_db \<Rightarrow> string list" where
  "html_classes d =
     concat (map (\<lambda>r. concat (map str_fields (extract_class_attrs (null_string (pgr_content r)))))
       (filter (\<lambda>r. \<not> pgr_deleted r \<and> pgr_content r \<noteq> None) (sd_pages d)))"

definition missing_class :: "string \<Rightarrow> site_db \<Rightarrow> string \<Rightarrow> bool" where
  "missing_class css d cls =
     (cls \<notin> set (css_classes css) \<and> \<not> list_ex (has_prefix cls) skip_prefixes
      \<and> (2 \<le> count_list (html_classes d) cls \<or> list_ex (contains (to_lower cls)) layout_keywords))"

definition validate_css_completeness :: "(string list \<Rightarrow> string list) \<Rightarrow> site_db \<Rightarrow> string list" where
  "validate_css_completeness order d =
     (let css = null_string (global_css d)
      in if css = [] then []
         else (let missing = filter (missing_class css d) (order (remdups (html_classes d)))
               in if missing = [] then []
                  else [''CSS classes used in HTML but not defined in stylesheet (likely missing layout/spacing styles): ''
                        @ join '', '' (take 8 missing)]))"

text \<open>\<open>console.log\<close> more than three lines below any mention of an error handler.\<close>

definition log_line_unhandled :: "string list \<Rightarrow> nat \<Rightarrow> bool" where
  "log_line_unhandled ls i =
     (contains (trim_space (ls ! i)) ''console.log''
      \<and> \<not> list_ex (\<lambda>l. let prev = to_lower (trim_space l)
                     in contains prev ''catch'' \<or> contains prev ''onerror'' \<or> contains prev ''error'')
           (take 4 (rev (take (Suc i) ls))))"

definition console_log_outside_catch :: "string \<Rightarrow> bool" where
  "console_log_outside_catch js =
     (let ls = split_char (CHR 0x0A) js in list_ex (log_line_unhandled ls) [0..<length ls])"

definition js_assets :: "site_db \<Rightarrow> string list list" where
  "js_assets d =
     (case select_assets [''filename'', ''content'']
             (\<lambda>a. like_suffix (asset_val a ''filename'') ''.js'' \<and> asset_val a ''content'' \<noteq> []) d of
        Some rs \<Rightarrow> rs | None \<Rightarrow> [])"

definition validate_no_console_log :: "site_db \<Rightarrow> string list" where
  "validate_no_console_log d =
     map (\<lambda>r. ''Asset '' @ [CHR 0x27] @ r ! 0 @ [CHR 0x27]
            @ '' has console.log outside error handlers '' @ em_dash @ '' remove for production'')
       (filter (\<lambda>r. console_log_outside_catch (r ! 1)) (js_assets d))"

fun root_block_end :: "int \<Rightarrow> string \<Rightarrow> string option" where
  "root_block_end depth [] = None"
| "root_block_end depth (c # cs) =
     (if c = CHR ''{'' then root_block_end (depth + 1) cs
      else if c = CHR ''}'' then
        (if depth - 1 = 0 then Some cs else root_block_end (depth - 1) cs)
      else root_block_end depth cs)"

definition outside_root :: "string \<Rightarrow> string" where
  "outside_root css =
     (case str_index css '':root'' of None \<Rightarrow> css
      | Some start \<Rightarrow>
          (case str_index (drop start css) ''{'' of None \<Rightarrow> css
           | Some b \<Rightarrow>
               (case root_block_end 0 (drop (start + b) css) of None \<Rightarrow> css
                | Some rest \<Rightarrow> take start css @ rest)))"

text \<open>\<open>strings.Count\<close>: the non-overlapping occurrences, and one more than the number of runes
  for the empty pattern.\<close>

function count_occ :: "string \<Rightarrow> string \<Rightarrow> nat" where
  "count_occ s pat =
     (if pat = [] then Suc (length (go_runes s))
      else (case str_index s pat of None \<Rightarrow> 0
            | Some i \<Rightarrow> Suc (count_occ (drop (i + length pat) s) pat)))"
  by pat_completeness auto
termination
  by (relation "measure (\<lambda>(s, _). length s)") (auto dest: str_index_drop)

declare count_occ.simps [simp del]

definition count_hardcoded_design_colors :: "string \<Rightarrow> (string, string) gomap \<Rightarrow> nat" where
  "count_hardcoded_design_colors css colors =
     (let lower = to_lower (outside_root css)
      in sum_list (map (\<lambda>(_, hex). count_occ lower (to_lower hex)) colors))"

definition validate_design_token_usage :: "site_db \<Rightarrow> plan \<Rightarrow> string list" where
  "validate_design_token_usage d p =
     (case p_design p of None \<Rightarrow> []
      | Some ds \<Rightarrow>
          (let cs = (case ds_colors ds of None \<Rightarrow> [] | Some m \<Rightarrow> m); css = null_string (global_css d)
           in if cs = [] \<or> css = [] then []
              else if \<not> contains css ''--color-''
              then [''Global CSS does not define --color-* custom properties from design tokens'']
              else (let n = count_hardcoded_design_colors css cs
                    in if 5 < n
                       then [''Global CSS has '' @ itoa (int n) @ '' hardcoded design-token colors ''
                             @ em_dash @ '' use var(--color-*) instead'']
                       else [])))"

section \<open>All checks, and their severity\<close>

definition validate_build ::
  "(string \<Rightarrow> string list option) \<Rightarrow> (string list \<Rightarrow> string list) \<Rightarrow> site_db \<Rightarrow> plan \<Rightarrow> string list" where
  "validate_build dec order d p =
     validate_tables_exist d p @ validate_endpoints_exist d p @ validate_pages_exist d p
     @ validate_auth_strategy d p @ validate_global_css d @ validate_layout_exists d
     @ validate_page_assets dec d @ validate_page_endpoint_js d p @ validate_css_responsive d p
     @ validate_css_completeness order d @ validate_layout_head d @ validate_no_placeholders d p
     @ validate_no_console_log d @ validate_design_token_usage d p"

definition critical_keywords :: "string list" where
  "critical_keywords = [''not created'', ''missing or empty'', ''No global CSS'', ''No layout'',
     ''no auth endpoint'', ''no head_content'', ''no JS assets wired'',
     ''doesn'' @ [CHR 0x27] @ ''t exist'', ''no @media'']"

definition is_critical_issue :: "string \<Rightarrow> bool" where
  "is_critical_issue issue =
     (let lower = to_lower issue in list_ex (\<lambda>k. contains lower (to_lower k)) critical_keywords)"

section \<open>Facts on the lower-case form\<close>

definition ascii :: "char \<Rightarrow> bool" where
  "ascii c = ((of_char c :: nat) < 128)"

lemma to_lower_ascii_Cons: "ascii c \<Longrightarrow> to_lower (c # s) = lower_char c # to_lower s"
  by (cases "c # s" rule: to_lower.cases) (auto simp: ascii_def)

lemma to_lower_ascii: "list_all ascii t \<Longrightarrow> to_lower (t @ s) = map lower_char t @ to_lower s"
  by (induction t) (auto simp: to_lower_ascii_Cons)

lemma to_lower_append: "ascii c \<Longrightarrow> to_lower (s @ c # t) = to_lower s @ to_lower (c # t)"
proof (induction s rule: to_lower.induct)
  case (1 a b e s)
  then show ?case by auto
next
  case (2 a b)
  then show ?case by (cases t) (auto simp: ascii_def to_lower_ascii_Cons)
next
  case (3 a)
  have "c \<noteq> CHR 0xB0" "c \<noteq> CHR 0x84" using 3 by (auto simp: ascii_def)
  then show ?case by (cases t) (auto simp: to_lower_ascii_Cons [OF 3])
qed simp

lemma contains_append_left: "contains s pat \<Longrightarrow> contains (t @ s) pat"
  unfolding contains_iff_sublist sublist_def by (metis append_assoc)

lemma contains_self: "contains (s @ pat @ t) pat"
  unfolding contains_iff_sublist by (simp add: sublist_appendI)

text \<open>A text that ends in an ASCII keyword phrase contains its lower-case form.\<close>

lemma lower_contains:
  assumes "list_all ascii k" "k \<noteq> []"
  shows "contains (to_lower (s @ k @ t)) (map lower_char k)"
proof -
  obtain c k' where k: "k = c # k'" using assms(2) by (cases k) auto
  then have "to_lower (s @ k @ t) = to_lower s @ to_lower (k @ t)"
    using assms(1) to_lower_append [of c s "k' @ t"] by simp
  then show ?thesis using to_lower_ascii [OF assms(1)] contains_self by simp
qed

lemma critical_if_keyword:
  assumes "k \<in> set critical_keywords"
  shows "is_critical_issue (s @ k @ t)"
proof -
  have all: "list_all (\<lambda>k. list_all ascii k \<and> k \<noteq> [] \<and> to_lower k = map lower_char k) critical_keywords"
    by code_simp
  then have "list_all ascii k" "k \<noteq> []" "to_lower k = map lower_char k"
    using assms by (auto simp: list_all_iff)
  then have "contains (to_lower (s @ k @ t)) (to_lower k)"
    using lower_contains [of k s t] by simp
  then show ?thesis using assms by (auto simp: is_critical_issue_def Let_def list_ex_iff)
qed

lemma critical_keyword_mem [simp]:
  "''not created'' \<in> set critical_keywords" "''missing or empty'' \<in> set critical_keywords"
  "''no auth endpoint'' \<in> set critical_keywords" "''No global CSS'' \<in> set critical_keywords"
  "''No layout'' \<in> set critical_keywords" "''no head_content'' \<in> set critical_keywords"
  "''no JS assets wired'' \<in> set critical_keywords"
  "''doesn'' @ CHR 0x27 # ''t exist'' \<in> set critical_keywords"
  by (simp_all add: critical_keywords_def)

lemma critical_table: "\<not> is_system_table n \<Longrightarrow> is_critical_issue (table_issue n)"
  using critical_if_keyword [of "''not created''" "''Table '' @ [CHR 0x27] @ n @ [CHR 0x27] @ '' ''" "[]"]
  by (simp add: table_issue_def)

lemma critical_endpoint: "is_critical_issue (endpoint_issue ep)"
  using critical_if_keyword [of "''not created''"
      "''Endpoint '' @ [CHR 0x27] @ ep_action ep @ '' '' @ ep_path ep @ [CHR 0x27] @ '' ''" "[]"]
  by (simp add: endpoint_issue_def)

lemma critical_page: "is_critical_issue (page_issue pg)"
  using critical_if_keyword [of "''missing or empty''"
      "''Page '' @ [CHR 0x27] @ pg_path pg @ [CHR 0x27] @ '' ('' @ pg_title pg @ '') ''" "[]"]
  by (simp add: page_issue_def)

lemma critical_unwired: "is_critical_issue (''Page '' @ [CHR 0x27] @ path @ [CHR 0x27]
    @ '' lists endpoints but has no JS assets wired'')"
  using critical_if_keyword [of "''no JS assets wired''"
      "''Page '' @ [CHR 0x27] @ path @ [CHR 0x27] @ '' lists endpoints but has ''" "[]"]
  by simp

lemma critical_asset: "is_critical_issue (''Page '' @ [CHR 0x27] @ path @ [CHR 0x27]
    @ '' references asset '' @ [CHR 0x27] @ a @ [CHR 0x27] @ '' which doesn'' @ [CHR 0x27] @ ''t exist'')"
  using critical_if_keyword [OF critical_keyword_mem(8), of
      "''Page '' @ [CHR 0x27] @ path @ [CHR 0x27] @ '' references asset '' @ [CHR 0x27] @ a @ [CHR 0x27] @ '' which ''" "[]"]
  by (simp del: critical_keyword_mem)

lemma critical_fixed:
  "is_critical_issue ''No global CSS file found'' \<and> is_critical_issue ''No layout created''
   \<and> is_critical_issue ''Default layout has no head_content (missing fonts, favicon, or CDN links)''
   \<and> is_critical_issue (''auth_strategy is '' @ [CHR 0x27] @ ''jwt'' @ [CHR 0x27]
       @ '' but no auth endpoint was created '' @ em_dash @ '' use manage_endpoints create_auth'')"
  by code_simp

section \<open>The stylesheet queries\<close>

lemma content_no_column: "''content'' \<notin> set ho_assets_columns"
  by (simp add: ho_assets_columns_def)

lemma global_css_None: "global_css d = None"
  using select_unknown_column [OF _ content_no_column] by (simp add: global_css_def)

lemma js_assets_Nil: "js_assets d = []"
  using select_unknown_column [OF _ content_no_column] by (simp add: js_assets_def)

lemmas dead_queries = global_css_None js_assets_Nil

section \<open>Properties\<close>


text \<open>Four checks of the build never report anything. They read the column \<open>content\<close> of
  \<open>ho_assets\<close>, which the schema does not have, so their query fails and they return no issue,
  whatever the stylesheets and scripts are.\<close>

theorem stylesheet_checks_never_report:
  "validate_css_responsive d p = [] \<and> validate_css_completeness order d = []
   \<and> validate_no_console_log d = [] \<and> validate_design_token_usage d p = []"
  by (simp add: validate_css_responsive_def validate_css_completeness_def dead_queries
      validate_no_console_log_def validate_design_token_usage_def null_string_def Let_def
      split: option.splits)

definition reserved_plan :: "string \<Rightarrow> plan" where
  "reserved_plan n = demo_plan\<lparr>p_tables :=
     [\<lparr>tb_name = n, tb_purpose = [], tb_columns = [], tb_seed = None, tb_searchable = []\<rparr>]\<rparr>"

text \<open>A plan with a table of a reserved name is a valid plan; in no database with only tables
  of its own does it get that table, and the one issue the validator then reports on its
  tables is not critical, so the stage completes without it.\<close>

theorem reserved_table_not_critical:
  "list_all (\<lambda>n. validate_plan (reserved_plan n) = []
     \<and> validate_tables_exist (fresh_db now) (reserved_plan n) = [table_issue n]
     \<and> \<not> is_critical_issue (table_issue n)) [''ho_jobs'', ''ho_files'']"
proof -
  have v: "validate_plan (reserved_plan ''ho_jobs'') = []" "validate_plan (reserved_plan ''ho_files'') = []"
    by (code_simp)+
  have c: "\<not> is_critical_issue (table_issue ''ho_jobs'')" "\<not> is_critical_issue (table_issue ''ho_files'')"
    by (code_simp)+
  show ?thesis
    using v c by (simp add: validate_tables_exist_def reserved_plan_def fresh_db_def)
qed

definition built_db :: site_db where
  "built_db = (fresh_db ''now'')\<lparr>
     sd_endpoints := [(''ho_api_endpoints'', [''posts''])],
     sd_pages := [\<lparr>pgr_path = ''/'', pgr_content = Some ''<h1>Home</h1>'', pgr_assets = None, pgr_deleted = False\<rparr>,
       \<lparr>pgr_path = ''/about'', pgr_content = Some ''<h1>About</h1>'', pgr_assets = None, pgr_deleted = False\<rparr>],
     sd_assets := [[(''filename'', ''style.css''), (''scope'', ''global'')]],
     sd_layouts := [\<lparr>lr_name = ''default'', lr_head = Some ''<link>''\<rparr>]\<rparr>"


end
