(* ===== verification/JsonRepair.thy ===== *)
theory JsonRepair
  imports Prelude
begin

text \<open>
  The tolerant JSON extraction of \<open>brain/plan.go\<close>: \<open>findJSONEnd\<close>, \<open>extractJSON\<close>,
  \<open>countBracketStack\<close>, \<open>repairTruncatedJSON\<close> and \<open>repairJSON\<close>, which turn the raw
  answer of a language model into text for the JSON decoder. A Go index of -1 is None, and
  the bracket stack is a list with its top first.
\<close>

section \<open>Scanning\<close>

abbreviation quote :: char where "quote \<equiv> CHR 0x22"
abbreviation backslash :: char where "backslash \<equiv> CHR 0x5C"

definition opener :: "char \<Rightarrow> bool" where
  "opener c = (c = CHR ''{'' \<or> c = CHR ''['')"

definition closer :: "char \<Rightarrow> bool" where
  "closer c = (c = CHR ''}'' \<or> c = CHR '']'')"

text \<open>The loop of \<open>findJSONEnd\<close>: position, depth, \<open>inString\<close> and \<open>escaped\<close>.\<close>

fun find_end_loop :: "nat \<Rightarrow> int \<Rightarrow> bool \<Rightarrow> bool \<Rightarrow> string \<Rightarrow> nat option" where
  "find_end_loop i depth ins esc [] = None"
| "find_end_loop i depth ins esc (c # cs) =
     (if esc then find_end_loop (Suc i) depth ins False cs
      else if c = backslash \<and> ins then find_end_loop (Suc i) depth ins True cs
      else if c = quote then find_end_loop (Suc i) depth (\<not> ins) False cs
      else if ins then find_end_loop (Suc i) depth ins False cs
      else if opener c then find_end_loop (Suc i) (depth + 1) ins False cs
      else if closer c then
        (if depth - 1 = 0 then Some (Suc i) else find_end_loop (Suc i) (depth - 1) ins False cs)
      else find_end_loop (Suc i) depth ins False cs)"

definition find_json_end :: "string \<Rightarrow> nat option" where
  "find_json_end s = find_end_loop 0 0 False False s"

text \<open>One character of the loop of \<open>countBracketStack\<close>, and the loop.\<close>

record scan =
  sc_stack :: string
  sc_ins :: bool
  sc_esc :: bool

definition scan_start :: scan where
  "scan_start = \<lparr>sc_stack = [], sc_ins = False, sc_esc = False\<rparr>"

definition pop_if :: "char \<Rightarrow> string \<Rightarrow> string" where
  "pop_if c st = (case st of [] \<Rightarrow> [] | x # r \<Rightarrow> if x = c then r else st)"

definition scan_char :: "char \<Rightarrow> scan \<Rightarrow> scan" where
  "scan_char c s =
     (if sc_esc s then s\<lparr>sc_esc := False\<rparr>
      else if c = backslash \<and> sc_ins s then s\<lparr>sc_esc := True\<rparr>
      else if c = quote then s\<lparr>sc_ins := \<not> sc_ins s\<rparr>
      else if sc_ins s then s
      else if opener c then s\<lparr>sc_stack := c # sc_stack s\<rparr>
      else if c = CHR ''}'' then s\<lparr>sc_stack := pop_if (CHR ''{'') (sc_stack s)\<rparr>
      else if c = CHR '']'' then s\<lparr>sc_stack := pop_if (CHR ''['') (sc_stack s)\<rparr>
      else s)"

definition scan_all :: "string \<Rightarrow> scan \<Rightarrow> scan" where
  "scan_all s = fold scan_char s"

definition count_bracket_stack :: "string \<Rightarrow> string \<times> bool" where
  "count_bracket_stack s =
     (let r = scan_all s scan_start in (sc_stack r, sc_ins r))"

section \<open>Repairing a truncated text\<close>

definition json_ws :: string where
  "json_ws = [CHR '' '', CHR 0x09, CHR 0x0A, CHR 0x0D]"

definition ends_with :: "char \<Rightarrow> string \<Rightarrow> bool" where
  "ends_with c s = (s \<noteq> [] \<and> last s = c)"

text \<open>Dropping a key left without its value.\<close>

definition drop_dangling_key :: "string \<Rightarrow> string" where
  "drop_dangling_key s =
     (if ends_with (CHR '':'') s then
        (let s = trim_right_chars json_ws (butlast s)
         in if ends_with quote s then
              (case str_last_index (butlast s) [quote] of Some q \<Rightarrow> take q s | None \<Rightarrow> s)
            else s)
      else s)"

definition cut_in_string :: "string \<Rightarrow> string" where
  "cut_in_string s =
     (case str_last_index s [quote] of
        Some q \<Rightarrow>
          (if 0 < q then
             trim_right_chars (json_ws @ '','')
               (drop_dangling_key (trim_right_chars json_ws (take q s)))
           else s)
      | None \<Rightarrow> s)"

definition closing :: "char \<Rightarrow> char" where
  "closing c = (if c = CHR ''{'' then CHR ''}'' else CHR '']'')"

definition repair_truncated_json :: "string \<Rightarrow> string" where
  "repair_truncated_json s0 =
     (let s = trim_space s0
      in if s = [] \<or> \<not> opener (hd s) then s
         else (let (stack, ins) = count_bracket_stack s
               in if stack = [] then s
                  else (let t = (if ins then cut_in_string s
                                 else trim_right_chars (json_ws @ '',:'') s)
                        in t @ map closing (fst (count_bracket_stack t)))))"

section \<open>Extraction\<close>

text \<open>
  The expression \<open>```(?:json)?\s*\n?(.*?)```\<close>, matched leftmost with its greedy and lazy
  parts: from an opening fence the optional tag and all white space are skipped, and the group
  runs to the next fence. When no fence follows, giving back white space or the tag finds none
  either.
\<close>

definition re_space :: "char \<Rightarrow> bool" where
  "re_space c = (c \<in> {CHR 0x09, CHR 0x0A, CHR 0x0C, CHR 0x0D, CHR '' ''})"

definition fence :: string where
  "fence = ''```''"

definition fence_body :: "string \<Rightarrow> (string \<times> string) option" where
  "fence_body s =
     (case str_index s fence of None \<Rightarrow> None
      | Some i \<Rightarrow>
          (let body = dropWhile re_space (trim_prefix (drop (i + 3) s) ''json'')
           in map_option (\<lambda>j. (take j body, drop (j + 3) body)) (str_index body fence)))"

lemma fence_body_shorter: "fence_body s = Some (a, b) \<Longrightarrow> length b < length s"
proof -
  assume h: "fence_body s = Some (a, b)"
  then obtain i j where i: "str_index s fence = Some i"
    and b: "b = drop (j + 3) (dropWhile re_space (trim_prefix (drop (i + 3) s) ''json''))"
    by (auto simp: fence_body_def Let_def split: option.splits)
  have "s \<noteq> []" using i by (cases s) (auto simp: fence_def split: if_splits)
  moreover have "length (trim_prefix (drop (i + 3) s) ''json'') \<le> length s - 3"
    by (auto simp: trim_prefix_def)
  moreover have "length b \<le> length (trim_prefix (drop (i + 3) s) ''json'')"
    unfolding b using length_dropWhile_le by (metis diff_le_self length_drop order_trans)
  moreover have "3 \<le> length s"
    using i
  proof (induction s arbitrary: i)
    case (Cons c cs)
    then show ?case
      by (auto simp: fence_def split: if_splits dest!: prefix_length_le)
  qed (simp add: fence_def)
  ultimately show ?thesis by linarith
qed

function json_fences :: "string \<Rightarrow> string list" where
  "json_fences s = (case fence_body s of None \<Rightarrow> [] | Some (body, rest) \<Rightarrow> body # json_fences rest)"
  by pat_completeness auto
termination
  by (relation "measure length") (auto dest: fence_body_shorter)

declare json_fences.simps [simp del]

definition starts_json :: "string \<Rightarrow> bool" where
  "starts_json s = (s \<noteq> [] \<and> opener (hd s))"

definition extract_json :: "string \<Rightarrow> string" where
  "extract_json raw0 =
     (let raw = trim_space raw0; fs = map trim_space (json_fences raw)
      in if raw = [] then raw
         else if fs \<noteq> [] then
           (case find starts_json fs of Some c \<Rightarrow> c | None \<Rightarrow> hd fs)
         else if opener (hd raw) then
           (case find_json_end raw of
              Some e \<Rightarrow> if 0 < e \<and> e < length raw then take e raw else raw
            | None \<Rightarrow> raw)
         else
           (case str_index raw ''{'' of
              None \<Rightarrow> raw
            | Some start \<Rightarrow>
                (case str_last_index raw ''}'' of
                   Some e \<Rightarrow> if start < e then drop start (take (e + 1) raw) else raw
                 | None \<Rightarrow> raw)))"

section \<open>Repair\<close>

definition strip_comment_lines :: "string \<Rightarrow> string" where
  "strip_comment_lines s =
     join [CHR 0x0A]
       (filter (\<lambda>l. \<not> has_prefix (trim_space l) ''//'') (split_char (CHR 0x0A) s))"

text \<open>The expression \<open>,\s*([\]}])\<close>, replaced by its group.\<close>

function strip_trailing_commas :: "string \<Rightarrow> string" where
  "strip_trailing_commas [] = []"
| "strip_trailing_commas (c # cs) =
     (if c = CHR '','' then
        (case dropWhile re_space cs of
           d # r \<Rightarrow> if closer d then d # strip_trailing_commas r else c # strip_trailing_commas cs
         | [] \<Rightarrow> c # strip_trailing_commas cs)
      else c # strip_trailing_commas cs)"
  by pat_completeness auto
termination
proof (relation "measure length")
  fix c d :: char and cs r :: string
  assume "dropWhile re_space cs = d # r"
  then have "length (d # r) \<le> length cs" by (metis length_dropWhile_le)
  then show "(r, c # cs) \<in> measure length" by simp
qed auto

definition repair_json :: "string \<Rightarrow> string" where
  "repair_json s = repair_truncated_json (strip_trailing_commas (strip_comment_lines s))"

section \<open>Facts on the scanner\<close>

lemma scan_all_append: "scan_all (s @ t) r = scan_all t (scan_all s r)"
  by (simp add: scan_all_def)

lemma scan_all_Nil [simp]: "scan_all [] r = r"
  by (simp add: scan_all_def)

lemma scan_all_Cons: "scan_all (c # s) r = scan_all s (scan_char c r)"
  by (simp add: scan_all_def)

lemma scan_all_snoc: "scan_all (s @ [c]) r = scan_char c (scan_all s r)"
  by (simp add: scan_all_def)

text \<open>A stack only ever holds openers, and an escape only happens inside a string.\<close>

definition scan_ok :: "scan \<Rightarrow> bool" where
  "scan_ok r = (list_all opener (sc_stack r) \<and> (sc_esc r \<longrightarrow> sc_ins r))"

lemma scan_ok_char [inv_intros]: "scan_ok r \<Longrightarrow> scan_ok (scan_char c r)"
  by (auto simp: scan_ok_def scan_char_def pop_if_def split: list.splits)

lemma scan_ok_all: "scan_ok r \<Longrightarrow> scan_ok (scan_all s r)"
  by (induction s arbitrary: r) (auto simp: scan_all_Cons intro: inv_intros)

lemma scan_ok_start [simp]: "scan_ok scan_start"
  by (simp add: scan_ok_def scan_start_def)

lemma scan_ok_of [simp]: "scan_ok (scan_all s scan_start)"
  by (rule scan_ok_all) simp

text \<open>Closing the open brackets from the top empties the stack, outside a string.\<close>

lemma scan_closing:
  "list_all opener st \<Longrightarrow> scan_all (map closing st) \<lparr>sc_stack = st, sc_ins = False, sc_esc = False\<rparr>
     = scan_start"
proof (induction st)
  case (Cons c st)
  have "scan_char (closing c) \<lparr>sc_stack = c # st, sc_ins = False, sc_esc = False\<rparr> =
      \<lparr>sc_stack = st, sc_ins = False, sc_esc = False\<rparr>"
    using Cons.prems by (auto simp: scan_char_def closing_def opener_def pop_if_def)
  then show ?case using Cons by (simp add: scan_all_Cons)
qed (simp add: scan_start_def)

lemma close_balanced:
  assumes "\<not> snd (count_bracket_stack t)"
  shows "count_bracket_stack (t @ map closing (fst (count_bracket_stack t))) = ([], False)"
proof -
  let ?r = "scan_all t scan_start"
  have ok: "scan_ok ?r" by simp
  have "\<not> sc_ins ?r" using assms by (simp add: count_bracket_stack_def Let_def)
  then have r: "?r = \<lparr>sc_stack = sc_stack ?r, sc_ins = False, sc_esc = False\<rparr>"
    using ok by (auto simp: scan_ok_def)
  have "scan_all (map closing (sc_stack ?r)) ?r = scan_start"
    using scan_closing [of "sc_stack ?r"] ok r by (metis scan_ok_def)
  then show ?thesis
    by (simp add: count_bracket_stack_def Let_def scan_all_append scan_start_def)
qed

text \<open>Dropping characters that are not quotes from the right of a text that ends outside a
  string leaves a text that ends outside a string.\<close>

lemma ins_after_drop:
  assumes "\<not> sc_ins (scan_all s scan_start)" "quote \<notin> set cs"
  shows "\<not> sc_ins (scan_all (trim_right_chars cs s) scan_start)"
  using assms(1)
proof (induction s rule: rev_induct)
  case (snoc c s)
  show ?case
  proof (cases "c \<in> set cs")
    case True
    then have "c \<noteq> quote" using assms(2) by auto
    then have "sc_ins (scan_char c r) = sc_ins r" for r by (simp add: scan_char_def)
    then have "\<not> sc_ins (scan_all s scan_start)" using snoc.prems by (simp add: scan_all_snoc)
    then show ?thesis using True snoc.IH by (simp add: trim_right_chars_snoc)
  next
    case False
    then show ?thesis using snoc.prems by (simp add: trim_right_chars_snoc)
  qed
qed simp

text \<open>Without a backslash, being inside a string is the parity of the quotes seen.\<close>

lemma scan_no_esc:
  assumes "backslash \<notin> set s" "\<not> sc_esc r"
  shows "\<not> sc_esc (scan_all s r) \<and> (sc_ins (scan_all s r) \<longleftrightarrow> sc_ins r \<noteq> odd (count_list s quote))"
  using assms
proof (induction s arbitrary: r)
  case (Cons c s)
  have e: "\<not> sc_esc (scan_char c r)" and i: "sc_ins (scan_char c r) = (sc_ins r \<noteq> (c = quote))"
    using Cons.prems by (auto simp: scan_char_def)
  show ?case using Cons.IH [OF _ e] Cons.prems i by (auto simp: scan_all_Cons)
qed simp

lemma ins_iff_odd:
  "backslash \<notin> set s \<Longrightarrow> sc_ins (scan_all s scan_start) \<longleftrightarrow> odd (count_list s quote)"
  using scan_no_esc [of s scan_start] by (simp add: scan_start_def)

lemma last_index_char_None: "str_last_index s [c] = None \<longleftrightarrow> c \<notin> set s"
  by (induction s) (auto split: option.splits)

lemma last_index_char:
  "str_last_index s [c] = Some q \<Longrightarrow> q < length s \<and> s ! q = c \<and> c \<notin> set (drop (Suc q) s)"
proof (induction s arbitrary: q)
  case (Cons x s)
  then show ?case
    by (cases "str_last_index s [c]") (auto simp: last_index_char_None split: if_splits)
qed simp

lemma count_last_index:
  assumes "str_last_index s [c] = Some q"
  shows "count_list s c = Suc (count_list (take q s) c)"
proof -
  note h = last_index_char [OF assms]
  have "s = take q s @ s ! q # drop (Suc q) s"
    by (rule id_take_nth_drop) (use h in blast)
  then have "count_list s c = count_list (take q s @ s ! q # drop (Suc q) s) c" by simp
  also have "\<dots> = Suc (count_list (take q s) c)"
    using h by (simp add: count_notin)
  finally show ?thesis .
qed

lemma count_trim_right [simp]:
  "c \<notin> set cs \<Longrightarrow> count_list (trim_right_chars cs s) c = count_list s c"
  by (induction s rule: rev_induct) (auto simp: trim_right_chars_snoc)

text \<open>No backslash and an even number of quotes.\<close>

definition quotes_even :: "string \<Rightarrow> bool" where
  "quotes_even s = (backslash \<notin> set s \<and> even (count_list s quote))"

lemma quotes_even_trim: "quote \<notin> set cs \<Longrightarrow> quotes_even s \<Longrightarrow> quotes_even (trim_right_chars cs s)"
  using trim_right_chars_prefix [of cs s] by (auto simp: quotes_even_def dest: set_mono_prefix)

lemma quotes_even_butlast: "quotes_even s \<Longrightarrow> s \<noteq> [] \<Longrightarrow> last s \<noteq> quote \<Longrightarrow> quotes_even (butlast s)"
  by (cases s rule: rev_cases) (auto simp: quotes_even_def)

lemma json_ws_no_quote: "quote \<notin> set json_ws" "quote \<notin> set (json_ws @ '','')"
    "quote \<notin> set (json_ws @ '',:'')"
  by (simp_all add: json_ws_def)

lemma quotes_even_drop_dangling: "quotes_even s \<Longrightarrow> quotes_even (drop_dangling_key s)"
proof -
  assume e: "quotes_even s"
  show ?thesis
  proof (cases "ends_with (CHR '':'') s")
    case True
    define t where "t = trim_right_chars json_ws (butlast s)"
    have t: "quotes_even t"
      unfolding t_def using e True
      by (intro quotes_even_trim quotes_even_butlast json_ws_no_quote) (auto simp: ends_with_def)
    show ?thesis
    proof (cases "ends_with quote t")
      case q: True
      then have tb: "t = butlast t @ [quote]" by (metis append_butlast_last_id ends_with_def)
      have "quotes_even (take i t)" if i: "str_last_index (butlast t) [quote] = Some i" for i
      proof -
        have "i < length (butlast t)" using last_index_char [OF i] by simp
        then have tk: "take i t = take i (butlast t)" by (subst tb) simp
        have "count_list t quote = Suc (count_list (butlast t) quote)" by (subst tb) simp
        then have "count_list t quote = Suc (Suc (count_list (take i t) quote))"
          using count_last_index [OF i] tk by simp
        then show ?thesis using t set_take_subset [of i t] by (auto simp: quotes_even_def)
      qed
      then show ?thesis
        using True q t by (auto simp: drop_dangling_key_def t_def [symmetric] Let_def split: option.splits)
    next
      case False
      then show ?thesis using True t by (simp add: drop_dangling_key_def t_def [symmetric] Let_def)
    qed
  next
    case False
    then show ?thesis using e by (simp add: drop_dangling_key_def)
  qed
qed

lemma cut_in_string_even:
  assumes "backslash \<notin> set s" "sc_ins (scan_all s scan_start)" "s \<noteq> []" "opener (hd s)"
  shows "quotes_even (cut_in_string s)"
proof -
  have odd: "odd (count_list s quote)" using ins_iff_odd assms(1,2) by blast
  then have "quote \<in> set s" by (metis count_notin even_zero)
  then obtain q where q: "str_last_index s [quote] = Some q"
    using last_index_char_None by (metis option.exhaust)
  have "q \<noteq> 0"
  proof
    assume "q = 0"
    then have "s ! 0 = quote" using last_index_char [OF q] by simp
    then show False using assms(3,4) by (simp add: hd_conv_nth opener_def)
  qed
  moreover have "quotes_even (take q s)"
    using odd count_last_index [OF q] assms(1) set_take_subset [of q s]
    by (auto simp: quotes_even_def)
  ultimately show ?thesis
    unfolding cut_in_string_def q option.case
    by (auto intro!: quotes_even_trim quotes_even_drop_dangling simp: json_ws_no_quote)
qed

lemma quotes_even_outside: "quotes_even s \<Longrightarrow> \<not> snd (count_bracket_stack s)"
  using ins_iff_odd [of s] by (simp add: quotes_even_def count_bracket_stack_def Let_def)

section \<open>Facts on the end of a text\<close>

text \<open>The depth a text leaves, as \<open>findJSONEnd\<close> counts it.\<close>

fun depth_of :: "int \<Rightarrow> bool \<Rightarrow> bool \<Rightarrow> string \<Rightarrow> int \<times> bool \<times> bool" where
  "depth_of d ins esc [] = (d, ins, esc)"
| "depth_of d ins esc (c # cs) =
     (if esc then depth_of d ins False cs
      else if c = backslash \<and> ins then depth_of d ins True cs
      else if c = quote then depth_of d (\<not> ins) False cs
      else if ins then depth_of d ins False cs
      else if opener c then depth_of (d + 1) ins False cs
      else if closer c then depth_of (d - 1) ins False cs
      else depth_of d ins False cs)"

lemma find_end_loop_spec:
  "find_end_loop i d ins esc s = Some n \<Longrightarrow>
     i < n \<and> n \<le> i + length s \<and> depth_of d ins esc (take (n - i) s) = (0, False, False)
     \<and> closer (s ! (n - i - 1))"
proof (induction i d ins esc s rule: find_end_loop.induct)
  case (2 i d ins esc c cs)
  show ?case
  proof (cases "\<not> esc \<and> \<not> (c = backslash \<and> ins) \<and> c \<noteq> quote \<and> \<not> ins \<and> \<not> opener c \<and> closer c \<and> d - 1 = 0")
    case True
    then show ?thesis using 2(8) by auto
  next
    case False
    then obtain d' ins' esc' where r: "find_end_loop (Suc i) d' ins' esc' cs = Some n"
      and st: "\<And>xs. depth_of d ins esc (c # xs) = depth_of d' ins' esc' xs"
      and ih: "Suc i < n \<and> n \<le> Suc i + length cs \<and> depth_of d' ins' esc' (take (n - Suc i) cs) = (0, False, False)
        \<and> closer (cs ! (n - Suc i - 1))"
      using 2 by (simp split: if_splits)
    obtain k where k: "n - i = Suc (Suc k)" using ih by (metis Suc_diff_Suc Suc_lessD)
    then have "n - Suc i = Suc k" by simp
    then show ?thesis using ih k st by simp
  qed
qed simp

lemma find_json_end_le: "find_json_end s = Some n \<Longrightarrow> 0 < n \<and> n \<le> length s"
  using find_end_loop_spec [of 0 0 False False s n] by (simp add: find_json_end_def)

lemma find_end_loop_complete:
  "(esc \<longrightarrow> ins) \<Longrightarrow> 0 < m \<Longrightarrow> m \<le> length s \<Longrightarrow>
     depth_of d ins esc (take m s) = (0, False, False) \<Longrightarrow> closer (s ! (m - 1)) \<Longrightarrow>
     \<exists>n. find_end_loop i d ins esc s = Some n \<and> n \<le> i + m"
proof (induction i d ins esc s arbitrary: m rule: find_end_loop.induct)
  case (2 i d ins esc c cs)
  note ih = 2(1-7) and pre = 2(8-12)
  obtain k where m: "m = Suc k" using pre(2) by (cases m) auto
  show ?case
  proof (cases k)
    case 0
    then show ?thesis
      using pre m by (auto simp: opener_def closer_def split: if_splits)
  next
    case (Suc k')
    have b: "k \<le> length cs" "0 < k" "closer (cs ! (k - 1))" using pre m Suc by auto
    show ?thesis
      using ih [of k] pre(1,4) m b by (cases ins; cases "d = 1") (auto split: if_splits)
  qed
qed simp

section \<open>Properties\<close>

definition closes_at :: "string \<Rightarrow> nat \<Rightarrow> bool" where
  "closes_at s m = (0 < m \<and> m \<le> length s \<and> closer (s ! (m - 1))
     \<and> depth_of 0 False False (take m s) = (0, False, False))"

text \<open>\<open>findJSONEnd\<close> finds exactly the first closing bracket at which the text is outside
  every string and every bracket, and -1 when there is none.\<close>

theorem find_json_end_least:
  "(find_json_end s = Some n \<longleftrightarrow> closes_at s n \<and> (\<forall>m<n. \<not> closes_at s m))
   \<and> (find_json_end s = None \<longleftrightarrow> (\<forall>m. \<not> closes_at s m))"
proof -
  have sound: "closes_at s k" if "find_json_end s = Some k" for k
    using find_end_loop_spec [of 0 0 False False s k] that
    by (simp add: find_json_end_def closes_at_def)
  have compl: "\<exists>k. find_json_end s = Some k \<and> k \<le> m" if "closes_at s m" for m
    using find_end_loop_complete [of False False m s 0 0] that
    by (auto simp: find_json_end_def closes_at_def)
  show ?thesis
    using sound compl by (metis leD le_antisym linorder_not_le not_None_eq option.inject)
qed

theorem find_json_end_least_witness:
  "closes_at ''{a:[1]} tail]'' 7 \<and> \<not> closes_at ''{a:[1]} tail]'' 6"
proof -
  have "find_json_end ''{a:[1]} tail]'' = Some 7" by code_simp
  then show ?thesis using find_json_end_least [of "''{a:[1]} tail]''" 7] by simp
qed


definition truncated_demo :: string where
  "truncated_demo = ''{'' @ [quote] @ ''pages'' @ [quote] @ '': [{'' @ [quote] @ ''path'' @ [quote] @ '': ''
     @ [quote] @ ''/ab''"


definition escaped_demo :: string where
  "escaped_demo = ''{'' @ [quote] @ ''a'' @ [quote] @ '': '' @ [quote] @ ''x '' @ [backslash, quote] @ ''hi''"

text \<open>The repair of a text cut inside a string looks for the last quote without regard to
  escapes. For the text \<open>{"a": "x \"hi\<close> it cuts inside the string and appends the closing
  bracket there, so the result is still inside a string with its bracket open.\<close>

theorem repair_escaped_quote_broken:
  "repair_truncated_json escaped_demo =
     ''{'' @ [quote] @ ''a'' @ [quote] @ '': '' @ [quote] @ ''x '' @ [backslash] @ ''}''
   \<and> count_bracket_stack (repair_truncated_json escaped_demo) = (''{'', True)"
  by code_simp

end
