(* ===== verification/Stages.thy ===== *)
theory Stages
  imports Validate JsonRepair
begin

text \<open>
  The stage handlers of \<open>brain/stages.go\<close>, each a function from the worker's context (the
  site database, the site's row in the main database, the wake context and the cost tracker)
  to the context it leaves and its outcome. What lies outside the handlers is an argument: the
  language-model session \<open>runToolLoop\<close>, which may change the database, the typed JSON
  decoders, the HTTP checks, and the clock. The texts of the prompts are left out; the
  messages kept are those the handler itself writes.
\<close>

section \<open>Context and environment\<close>

datatype loop_error = LoopPaused | LoopFailed string

record loop_result =
  lo_content :: string
  lo_tokens :: int
  lo_calls :: int
  lo_error :: "loop_error option"

record loop_request =
  rq_stage :: stage
  rq_messages :: "string list"
  rq_max_iter :: nat

record site_row =
  st_name :: string
  st_description :: "string option"
  st_mode :: string
  st_config :: string

record stage_ctx =
  cx_db :: site_db
  cx_site :: site_row
  cx_wake :: "payload option"
  cx_cost :: "cost_tracker option"

record stage_env =
  en_now :: string
  en_ms :: int
  en_provider_err :: "string option"
  en_site_err :: "string option"
  en_desc_write_ok :: bool
  en_loop :: "loop_request \<Rightarrow> site_db \<Rightarrow> site_db \<times> loop_result"
  en_raw_array :: "string \<Rightarrow> string list option"
  en_raw_object :: "string \<Rightarrow> (string, string) gomap option"
  en_decode_plan :: "string \<Rightarrow> string + plan"
  en_decode_patch :: "string \<Rightarrow> string + plan_patch"
  en_encode_plan :: "plan \<Rightarrow> string"
  en_load_messages :: "string \<Rightarrow> string list option"
  en_cdn :: "library_spec list \<Rightarrow> library_spec list"
  en_functional :: "plan \<Rightarrow> string list"
  en_dec_assets :: "string \<Rightarrow> string list option"
  en_order :: "string list \<Rightarrow> string list"

datatype outcome =
    NextStage stage
  | StageFailed string
  | StagePanic string

definition go_error :: "loop_error \<Rightarrow> string" where
  "go_error e = (case e of LoopPaused \<Rightarrow> ''pipeline paused: awaiting owner input'' | LoopFailed s \<Rightarrow> s)"

section \<open>Stage logging\<close>

definition begin_stage :: "stage \<Rightarrow> stage_ctx \<Rightarrow> stage_ctx \<times> int" where
  "begin_stage st c =
     (let (l, i) = log_stage_start st (sd_log (cx_db c))
      in (c\<lparr>cx_db := (cx_db c)\<lparr>sd_log := l\<rparr>\<rparr>, i))"

definition fail_stage :: "stage_env \<Rightarrow> int \<Rightarrow> string \<Rightarrow> stage_ctx \<Rightarrow> stage_ctx \<times> outcome" where
  "fail_stage en i msg c =
     (c\<lparr>cx_db := (cx_db c)\<lparr>sd_log := log_stage_error (en_now en) i msg (sd_log (cx_db c))\<rparr>\<rparr>,
      StageFailed msg)"

definition complete_stage :: "stage_env \<Rightarrow> int \<Rightarrow> int \<Rightarrow> int \<Rightarrow> stage_ctx \<Rightarrow> stage_ctx" where
  "complete_stage en i tokens calls c =
     c\<lparr>cx_db := (cx_db c)\<lparr>sd_log :=
         log_stage_complete (en_now en) i tokens 0 calls (en_ms en) (sd_log (cx_db c))\<rparr>\<rparr>"

definition map_row :: "(pipeline_row \<Rightarrow> pipeline_row) \<Rightarrow> stage_ctx \<Rightarrow> stage_ctx" where
  "map_row f c = c\<lparr>cx_db := on_row f (cx_db c)\<rparr>"

definition run_loop :: "stage_env \<Rightarrow> stage \<Rightarrow> string list \<Rightarrow> nat \<Rightarrow> stage_ctx \<Rightarrow> stage_ctx \<times> loop_result" where
  "run_loop en st msgs iters c =
     (let (d, r) = en_loop en \<lparr>rq_stage = st, rq_messages = msgs, rq_max_iter = iters\<rparr> (cx_db c)
      in (c\<lparr>cx_db := d\<rparr>, r))"

text \<open>The iteration limits of \<open>StageConfigs\<close>.\<close>

definition stage_iterations :: "stage \<Rightarrow> nat" where
  "stage_iterations st =
     (case st of StageExpand \<Rightarrow> 1 | StagePlan \<Rightarrow> 5 | StageBuild \<Rightarrow> 50 | StageValidate \<Rightarrow> 4
      | StageUpdatePlan \<Rightarrow> 1 | _ \<Rightarrow> 0)"

definition track_cost :: "int \<Rightarrow> stage_ctx \<Rightarrow> stage_ctx" where
  "track_cost tokens c =
     (case cx_cost c of None \<Rightarrow> c
      | Some ct \<Rightarrow>
          (let ct' = fst (add_tokens tokens ct)
           in map_row (\<lambda>r. r\<lparr>pr_build_tokens := ct_total ct'\<rparr>) (c\<lparr>cx_cost := Some ct'\<rparr>)))"

section \<open>EXPAND\<close>

definition min_description_len :: nat where
  "min_description_len = 200"

definition expanded_description :: "string \<Rightarrow> string \<Rightarrow> string" where
  "expanded_description raw expanded =
     raw @ [CHR 0x0A, CHR 0x0A] @ ''---'' @ [CHR 0x0A] @ ''Expanded requirements:'' @ [CHR 0x0A] @ expanded"

definition run_expand :: "stage_env \<Rightarrow> stage_ctx \<Rightarrow> stage_ctx \<times> outcome" where
  "run_expand en c0 =
     (let (c, i) = begin_stage StageExpand c0
      in case en_site_err en of Some e \<Rightarrow> fail_stage en i e c
      | None \<Rightarrow>
          (let raw = trim_space (null_string (st_description (cx_site c)))
           in if raw = [] \<or> min_description_len \<le> length raw
              then (complete_stage en i 0 0 c, NextStage StagePlan)
              else case en_provider_err en of Some e \<Rightarrow> fail_stage en i e c
              | None \<Rightarrow>
                  (let (c, r) = run_loop en StageExpand [''Expand this project description.'']
                                  (stage_iterations StageExpand) c;
                       expanded = trim_space (lo_content r)
                   in if lo_error r \<noteq> None \<or> expanded = []
                      then (complete_stage en i (lo_tokens r) 0 c, NextStage StagePlan)
                      else
                        (let c = (if en_desc_write_ok en
                                  then c\<lparr>cx_site := (cx_site c)\<lparr>st_description :=
                                           Some (expanded_description raw expanded)\<rparr>\<rparr>
                                  else c)
                         in (complete_stage en i (lo_tokens r) 0 c, NextStage StagePlan)))))"

section \<open>Parsing and printing JSON\<close>

text \<open>\<open>json.Marshal\<close> of a list of strings, with Go's escapes.\<close>

definition hex_digit :: "nat \<Rightarrow> char" where
  "hex_digit n = (if n < 10 then char_of (48 + n) else char_of (87 + n))"

definition json_char :: "char \<Rightarrow> string" where
  "json_char c =
     (if c = CHR 0x22 \<or> c = CHR 0x5C then [CHR 0x5C, c]
      else if c = CHR 0x08 then [CHR 0x5C, CHR ''b'']
      else if c = CHR 0x0C then [CHR 0x5C, CHR ''f'']
      else if c = CHR 0x0A then [CHR 0x5C, CHR ''n'']
      else if c = CHR 0x0D then [CHR 0x5C, CHR ''r'']
      else if c = CHR 0x09 then [CHR 0x5C, CHR ''t'']
      else if (of_char c :: nat) < 32 \<or> c = CHR ''<'' \<or> c = CHR ''>'' \<or> c = CHR ''&''
      then [CHR 0x5C] @ ''u00'' @ [hex_digit (of_char c div 16), hex_digit (of_char c mod 16)]
      else [c])"

function json_body :: "string \<Rightarrow> string" where
  "json_body [] = []"
| "json_body (c # cs) =
     (case rune_width (c # cs) of
        None \<Rightarrow> [CHR 0x5C] @ ''ufffd'' @ json_body cs
      | Some w \<Rightarrow>
          (let r = take w (c # cs)
           in (if w = 1 then json_char c
               else if r = [CHR 0xE2, CHR 0x80, CHR 0xA8] then [CHR 0x5C] @ ''u2028''
               else if r = [CHR 0xE2, CHR 0x80, CHR 0xA9] then [CHR 0x5C] @ ''u2029''
               else r) @ json_body (drop (w - 1) cs)))"
  by pat_completeness auto
termination by (relation "measure length") auto

definition json_strings :: "string list \<Rightarrow> string" where
  "json_strings xs = ''['' @ join '','' (map (\<lambda>s. [CHR 0x22] @ json_body s @ [CHR 0x22]) xs) @ '']''"

definition starts_with :: "char \<Rightarrow> string \<Rightarrow> bool" where
  "starts_with c s = (s \<noteq> [] \<and> hd s = c)"

text \<open>The only element of an array, when it is an object.\<close>

definition single_object :: "stage_env \<Rightarrow> string \<Rightarrow> string option" where
  "single_object en s =
     (case en_raw_array en s of
        Some [x] \<Rightarrow> if starts_with (CHR ''{'') (trim_space x) then Some (trim_space x) else None
      | _ \<Rightarrow> None)"

definition unwrap_single_object_array :: "stage_env \<Rightarrow> string \<Rightarrow> string" where
  "unwrap_single_object_array en s0 =
     (let s = trim_space s0;
          arr = (if starts_with (CHR ''['') s then single_object en s else None)
      in if length s < 2 then s
         else case arr of Some x \<Rightarrow> x
         | None \<Rightarrow>
             (if starts_with (CHR ''{'') s then
                (case en_raw_object en s of
                   Some [(_, v)] \<Rightarrow>
                     (let inner = trim_space v
                      in if starts_with (CHR ''{'') inner then inner
                         else if starts_with (CHR ''['') inner then
                           (case single_object en inner of Some x \<Rightarrow> x | None \<Rightarrow> s)
                         else s)
                 | _ \<Rightarrow> s)
              else s))"

definition parse_plan :: "stage_env \<Rightarrow> string \<Rightarrow> string + plan" where
  "parse_plan en raw =
     (case en_decode_plan en (unwrap_single_object_array en (repair_json (extract_json raw))) of
        Inl e \<Rightarrow> Inl (''invalid plan JSON: '' @ e) | Inr p \<Rightarrow> Inr p)"

definition parse_plan_patch :: "stage_env \<Rightarrow> string \<Rightarrow> string + plan_patch" where
  "parse_plan_patch en raw =
     (case en_decode_patch en (unwrap_single_object_array en (repair_json (extract_json raw))) of
        Inl e \<Rightarrow> Inl (''invalid plan patch JSON: '' @ e) | Inr p \<Rightarrow> Inr p)"

section \<open>PLAN\<close>

definition pending_questions :: "site_db \<Rightarrow> nat" where
  "pending_questions d = length (filter (\<lambda>q. qr_status q = ''pending'') (sd_questions d))"

definition wake_answer :: "stage_ctx \<Rightarrow> string" where
  "wake_answer c = (case cx_wake c of None \<Rightarrow> [] | Some p \<Rightarrow> null_string (payload_str p ''answer''))"

text \<open>The last attempt at a plan keeps the text from the first \<open>{\<close> to the last \<open>}\<close>.\<close>

definition aggressive_extract :: "string \<Rightarrow> string" where
  "aggressive_extract s =
     (let s1 = (case str_index s ''{'' of Some i \<Rightarrow> drop i s | None \<Rightarrow> s)
      in case str_last_index s1 ''}'' of Some i \<Rightarrow> take (i + 1) s1 | None \<Rightarrow> s1)"

text \<open>Parsing with one retry by the model and one more extraction: the context, the tokens of the
  retry, and the plan or the error.\<close>

definition parse_with_retry ::
  "stage_env \<Rightarrow> string list \<Rightarrow> string \<Rightarrow> stage_ctx \<Rightarrow> stage_ctx \<times> int \<times> (string + plan)" where
  "parse_with_retry en msgs content c =
     (case parse_plan en content of Inr p \<Rightarrow> (c, 0, Inr p)
      | Inl e \<Rightarrow>
          (let (c, r) = run_loop en StagePlan (msgs @ [content, e]) 1 c
           in case lo_error r of Some le \<Rightarrow> (c, lo_tokens r, Inl (go_error le))
              | None \<Rightarrow>
                  (case parse_plan en (lo_content r) of Inr p \<Rightarrow> (c, lo_tokens r, Inr p)
                   | Inl _ \<Rightarrow>
                       (case parse_plan en (aggressive_extract (lo_content r)) of
                          Inr p \<Rightarrow> (c, lo_tokens r, Inr p)
                        | Inl e2 \<Rightarrow> (c, lo_tokens r, Inl (''plan JSON invalid after 3 attempts: '' @ e2))))))"

definition question_row_of :: "stage_env \<Rightarrow> plan_question \<Rightarrow> question_row" where
  "question_row_of en q =
     \<lparr>qr_question = q_question q, qr_status = ''pending'',
      qr_options = (if q_options q \<noteq> [] then json_strings (q_options q) else ''[]''),
      qr_type = (if q_type q = [] then ''open'' else q_type q),
      qr_secret = (if q_secret q \<noteq> [] then Some (q_secret q) else None),
      qr_fields = (if q_fields q \<noteq> [] \<and> q_fields q \<noteq> ''null'' then Some (q_fields q) else None)\<rparr>"

definition ask_questions :: "stage_env \<Rightarrow> plan_question list \<Rightarrow> site_db \<Rightarrow> site_db" where
  "ask_questions en qs d =
     d\<lparr>sd_questions :=
         map (\<lambda>q. if qr_status q = ''pending'' then q\<lparr>qr_status := ''superseded''\<rparr> else q) (sd_questions d)
         @ map (question_row_of en) qs\<rparr>"

text \<open>\<open>strconv.Quote\<close> on printable text.\<close>

definition go_quote :: "string \<Rightarrow> string" where
  "go_quote s = [CHR 0x22]
     @ concat (map (\<lambda>c. if c = CHR 0x22 \<or> c = CHR 0x5C then [CHR 0x5C, c]
                      else if c = CHR 0x0A then [CHR 0x5C, CHR ''n'']
                      else if c = CHR 0x0D then [CHR 0x5C, CHR ''r'']
                      else if c = CHR 0x09 then [CHR 0x5C, CHR ''t''] else [c]) s)
     @ [CHR 0x22]"

fun show_plan_error :: "plan_error \<Rightarrow> string" where
  "show_plan_error AppTypeRequired = ''app_type is required''"
| "show_plan_error NoPages = ''plan must include at least 1 page''"
| "show_plan_error (DuplicatePath s) = ''duplicate page path: '' @ s"
| "show_plan_error NoHomepage = ''plan must include a homepage at path /''"
| "show_plan_error ColorsRequired = ''design_system.colors is required when design_system is present''"
| "show_plan_error NoPrimaryColor = ''design_system.colors must include '' @ [CHR 0x27] @ ''primary'' @ [CHR 0x27]"
| "show_plan_error NoBgColor = ''design_system.colors must include '' @ [CHR 0x27] @ ''bg'' @ [CHR 0x27]"
| "show_plan_error LayoutRequired = ''layout is required''"
| "show_plan_error (BadHeader s) = ''layout.header '' @ go_quote s @ '' is not valid (must be full, minimal, or none)''"
| "show_plan_error (BadFooter s) = ''layout.footer '' @ go_quote s @ '' is not valid (must be full, minimal, or none)''"
| "show_plan_error (BadAction i s) = ''endpoints['' @ itoa (int i) @ ''].action '' @ go_quote s @ '' is not valid''"
| "show_plan_error (EndpointPathRequired i) = ''endpoints['' @ itoa (int i) @ ''].path is required''"
| "show_plan_error (TableNameRequired i) = ''tables['' @ itoa (int i) @ ''].name is required''"
| "show_plan_error (DuplicateColumn t c) = ''table '' @ t @ '' has duplicate column name: '' @ c"
| "show_plan_error (NoNonSystemColumns t) = ''table '' @ t @ '' has no non-system columns''"

definition plan_config :: "plan \<Rightarrow> string" where
  "plan_config p = ''{'' @ [CHR 0x22] @ ''architecture'' @ [CHR 0x22] @ '':'' @ [CHR 0x22]
     @ p_architecture p @ [CHR 0x22] @ ''}''"

text \<open>Everything after the plan is parsed.\<close>

definition accept_plan :: "stage_env \<Rightarrow> int \<Rightarrow> int \<Rightarrow> plan \<Rightarrow> stage_ctx \<Rightarrow> stage_ctx \<times> outcome" where
  "accept_plan en i tokens p0 c =
     (if p_questions p0 \<noteq> [] then
        (let c = c\<lparr>cx_db := ask_questions en (p_questions p0) (cx_db c)\<rparr>;
             c = map_row (pause_pipeline (en_now en) pause_owner_answers) c
         in (complete_stage en i tokens 0 c, StageFailed ''paused: awaiting owner answers''))
      else
        (let (p, injected) = normalize_plan_endpoints (en_order en) p0; errs = validate_plan p
         in if errs \<noteq> [] then
              fail_stage en i (''plan validation errors: '' @ join ''; '' (map show_plan_error errs)) c
            else
              (let p = p\<lparr>p_libraries := en_cdn en (p_libraries p)\<rparr>;
                   c = map_row (\<lambda>r. r\<lparr>pr_plan_json := Some (en_encode_plan en p),
                                    pr_updated_at := Some (en_now en)\<rparr>) c;
                   c = c\<lparr>cx_site := (cx_site c)\<lparr>st_config := plan_config p\<rparr>\<rparr>;
                   c = track_cost tokens (complete_stage en i tokens 0 c)
               in (c\<lparr>cx_wake := None\<rparr>, NextStage StageBuild))))"

definition run_plan :: "stage_env \<Rightarrow> stage_ctx \<Rightarrow> stage_ctx \<times> outcome" where
  "run_plan en c0 =
     (let (c, i) = begin_stage StagePlan c0
      in case en_provider_err en of Some e \<Rightarrow> fail_stage en i e c
      | None \<Rightarrow>
      (case en_site_err en of Some e \<Rightarrow> fail_stage en i e c
      | None \<Rightarrow>
          (let answers = wake_answer c
           in if answers = [] \<and> 0 < pending_questions (cx_db c) then
                (complete_stage en i 0 0 (map_row (pause_pipeline (en_now en) pause_owner_answers) c),
                 StageFailed ''paused: awaiting owner answers (recovered)'')
              else
                (let user = (if answers \<noteq> []
                             then ''The owner answered your questions: '' @ go_quote answers
                                  @ [CHR 0x0A, CHR 0x0A] @ ''Now produce a complete Plan JSON.''
                             else ''Analyze the site requirements and produce a complete Plan JSON.'');
                     (c, r) = run_loop en StagePlan [user] (stage_iterations StagePlan) c
                 in case lo_error r of Some e \<Rightarrow> fail_stage en i (go_error e) c
                    | None \<Rightarrow>
                        (case parse_with_retry en [user] (lo_content r) c of
                           (c, t2, Inl e) \<Rightarrow> fail_stage en i e c
                         | (c, t2, Inr p) \<Rightarrow> accept_plan en i (lo_tokens r + t2) p c)))))"

section \<open>BUILD\<close>

definition load_plan :: "stage_env \<Rightarrow> site_db \<Rightarrow> string + plan" where
  "load_plan en d =
     (let js = null_string (pr_plan_json (sd_row d))
      in if js = [] then Inl ''no plan found in pipeline state'' else parse_plan en js)"

text \<open>Whether \<open>buildCrashRecoveryManifest\<close> lists anything.\<close>

definition already_built :: "site_db \<Rightarrow> bool" where
  "already_built d =
     (sd_tables d \<noteq> []
      \<or> list_ex (\<lambda>t. endpoint_paths t d \<noteq> []) [''ho_api_endpoints'', ''ho_auth_endpoints'',
           ''ho_ws_endpoints'', ''ho_stream_endpoints'', ''ho_upload_endpoints'']
      \<or> list_ex (\<lambda>r. \<not> pgr_deleted r) (sd_pages d) \<or> sd_layouts d \<noteq> []
      \<or> list_ex (\<lambda>a. like_suffix (asset_val a ''filename'') ''.css'') (sd_assets d))"

definition build_iterations :: "plan \<Rightarrow> nat" where
  "build_iterations p =
     (let n = 30 + length (p_pages p) * 4 + length (p_endpoints p) * 2 + length (p_tables p) * 2
      in if n < 50 then 50 else if 180 < n then 180 else n)"

definition resume_text :: string where
  "resume_text = ''Resume building. Items already built are listed above under ''
     @ [CHR 0x27] @ ''Already Built'' @ [CHR 0x27] @ ''. Build only the remaining items from the plan.''"

text \<open>The first messages: the restored checkpoint, if there is one, and the request.\<close>

definition build_messages :: "stage_env \<Rightarrow> site_db \<Rightarrow> plan \<Rightarrow> string list" where
  "build_messages en d p =
     (if already_built d then
        (case null_string (pr_checkpoint (sd_row d)) of [] \<Rightarrow> [resume_text]
         | raw \<Rightarrow> (case en_load_messages en raw of None \<Rightarrow> [resume_text]
                   | Some ms \<Rightarrow> ms @ [resume_text]))
      else [en_encode_plan en p])"

definition paused_msg :: string where
  "paused_msg = ''paused: awaiting owner answers''"

definition run_build :: "stage_env \<Rightarrow> stage_ctx \<Rightarrow> stage_ctx \<times> outcome" where
  "run_build en c0 =
     (let (c, i) = begin_stage StageBuild c0
      in case en_provider_err en of Some e \<Rightarrow> fail_stage en i e c
      | None \<Rightarrow>
      (case load_plan en (cx_db c) of Inl e \<Rightarrow> fail_stage en i e c
      | Inr p \<Rightarrow>
      (case en_site_err en of Some e \<Rightarrow> fail_stage en i (''loading site: '' @ e) c
      | None \<Rightarrow>
          (let (c, r) = run_loop en StageBuild (build_messages en (cx_db c) p) (build_iterations p) c
           in if lo_error r = Some LoopPaused
              then (complete_stage en i (lo_tokens r) (lo_calls r) c, StageFailed paused_msg)
              else
                (let c = map_row (\<lambda>r. r\<lparr>pr_checkpoint := None\<rparr>) c
                 in case lo_error r of Some e \<Rightarrow> fail_stage en i (go_error e) c
                    | None \<Rightarrow>
                        (complete_stage en i (lo_tokens r) (lo_calls r) (track_cost (lo_tokens r) c),
                         NextStage StageValidate))))))"

section \<open>VALIDATE\<close>

text \<open>
  \<open>autoWirePageAssets\<close>: pages that use endpoints but have no assets get the page-scope files
  that match their path, or the unmatched ones.
\<close>

fun replace_char :: "char \<Rightarrow> char \<Rightarrow> string \<Rightarrow> string" where
  "replace_char a b s = map (\<lambda>c. if c = a then b else c) s"

definition trim_suffix :: "string \<Rightarrow> string \<Rightarrow> string" where
  "trim_suffix s p = (if suffix p s then take (length s - length p) s else s)"

definition page_slug :: "string \<Rightarrow> string" where
  "page_slug path =
     (let slug = replace_char (CHR ''/'') (CHR ''-'') (trim_prefix path ''/'');
          slug = (if slug = [] then ''index'' else slug)
      in join ''-'' (filter (\<lambda>p. \<not> has_prefix p '':'') (split_char (CHR ''-'') slug)))"

definition file_matches :: "string \<Rightarrow> string \<Rightarrow> bool" where
  "file_matches slug fn =
     (let base = trim_suffix (trim_suffix fn ''.js'') ''.css''
      in slug \<noteq> [] \<and> (has_prefix base slug \<or> has_prefix slug base))"

definition unwired_pages :: "site_db \<Rightarrow> plan \<Rightarrow> string list" where
  "unwired_pages d p =
     map pg_path (filter (\<lambda>pg. pg_endpoints pg \<noteq> [] \<and> \<not> assets_set (page_assets d (pg_path pg)))
       (p_pages p))"

definition page_files :: "site_db \<Rightarrow> string list" where
  "page_files d =
     map (\<lambda>a. asset_val a ''filename'')
       (filter (\<lambda>a. asset_val a ''scope'' = ''page''
                  \<and> (like_suffix (asset_val a ''filename'') ''.js'' \<or> like_suffix (asset_val a ''filename'') ''.css''))
          (sd_assets d))"

definition wiring :: "string list \<Rightarrow> string list \<Rightarrow> (string, string list) gomap" where
  "wiring unwired files =
     (case unwired of [path] \<Rightarrow> [(path, files)]
      | _ \<Rightarrow>
          (let hit = (\<lambda>path. concat (replicate (count_list unwired path)
                        (filter (file_matches (page_slug path)) files)));
               unmatched = filter (\<lambda>fn. \<not> list_ex (\<lambda>path. file_matches (page_slug path) fn) unwired) files
           in filter (\<lambda>(_, fs). fs \<noteq> [])
                (map (\<lambda>path. (path, if hit path \<noteq> [] then hit path else unmatched)) unwired)))"

definition set_assets :: "(string, string list) gomap \<Rightarrow> site_db \<Rightarrow> site_db" where
  "set_assets w d =
     d\<lparr>sd_pages := map (\<lambda>r. (case map_of w (pgr_path r) of
           Some fs \<Rightarrow> if pgr_deleted r then r else r\<lparr>pgr_assets := Some (json_strings fs)\<rparr>
         | None \<Rightarrow> r)) (sd_pages d)\<rparr>"

definition auto_wire_page_assets :: "plan \<Rightarrow> site_db \<Rightarrow> site_db" where
  "auto_wire_page_assets p d =
     (if unwired_pages d p = [] \<or> list_ex (global_file ''.js'') (sd_assets d) \<or> page_files d = []
      then d else set_assets (wiring (unwired_pages d p) (page_files d)) d)"

definition fix_iterations :: "nat \<Rightarrow> nat" where
  "fix_iterations n = (if n * 2 < 4 then 4 else if 16 < n * 2 then 16 else n * 2)"

definition run_self_review :: "stage_env \<Rightarrow> plan \<Rightarrow> stage_ctx \<Rightarrow> stage_ctx \<times> loop_error option" where
  "run_self_review en p c =
     (if length (p_pages p) < 2 then (c, None)
      else (let (c, r) = run_loop en StageValidate [''review''] 6 c
            in (c, if lo_error r = Some LoopPaused then Some LoopPaused else None)))"

definition critical_msg :: "string list \<Rightarrow> string" where
  "critical_msg cs = ''critical validation issues remain: '' @ join ''; '' cs"

text \<open>After the fix-up session: the checks again, then the review.\<close>

definition after_fix ::
  "stage_env \<Rightarrow> int \<Rightarrow> plan \<Rightarrow> loop_result \<Rightarrow> stage_ctx \<Rightarrow> stage_ctx \<times> outcome" where
  "after_fix en i p r c =
     (let critical = filter is_critical_issue (validate_build (en_dec_assets en) (en_order en) (cx_db c) p)
      in if critical \<noteq> [] then
           (complete_stage en i (lo_tokens r) (lo_calls r) c, StageFailed (critical_msg critical))
         else
           (case run_self_review en p c of
              (c, Some _) \<Rightarrow> (complete_stage en i (lo_tokens r) (lo_calls r) c, StageFailed paused_msg)
            | (c, None) \<Rightarrow> (complete_stage en i (lo_tokens r) (lo_calls r) c, NextStage StageComplete)))"

definition run_validate :: "stage_env \<Rightarrow> stage_ctx \<Rightarrow> stage_ctx \<times> outcome" where
  "run_validate en c0 =
     (let (c, i) = begin_stage StageValidate c0
      in case load_plan en (cx_db c) of
           Inl _ \<Rightarrow> (complete_stage en i 0 0 c, NextStage StageComplete)
         | Inr p \<Rightarrow>
             (let c = c\<lparr>cx_db := auto_wire_page_assets p (cx_db c)\<rparr>;
                  issues = validate_build (en_dec_assets en) (en_order en) (cx_db c) p @ en_functional en p
              in if issues = [] then (complete_stage en i 0 0 c, NextStage StageComplete)
                 else case en_provider_err en of Some e \<Rightarrow> fail_stage en i e c
                 | None \<Rightarrow>
                     (let (c, r) = run_loop en StageValidate issues (fix_iterations (length issues)) c
                      in if lo_error r = Some LoopPaused
                         then (complete_stage en i (lo_tokens r) (lo_calls r) c, StageFailed paused_msg)
                         else after_fix en i p r c)))"

section \<open>COMPLETE\<close>

definition run_complete :: "stage_env \<Rightarrow> stage_ctx \<Rightarrow> stage_ctx \<times> outcome" where
  "run_complete en c0 =
     (let (c, i) = begin_stage StageComplete c0;
          c = c\<lparr>cx_site := (cx_site c)\<lparr>st_mode := ''monitoring''\<rparr>\<rparr>
      in (complete_stage en i 0 0 c, NextStage StageMonitoring))"

section \<open>UPDATE_PLAN\<close>

definition parse_patch_with_retry ::
  "stage_env \<Rightarrow> string list \<Rightarrow> string \<Rightarrow> stage_ctx \<Rightarrow> stage_ctx \<times> int \<times> (string + plan_patch)" where
  "parse_patch_with_retry en msgs content c =
     (case parse_plan_patch en content of Inr p \<Rightarrow> (c, 0, Inr p)
      | Inl e \<Rightarrow>
          (let (c, r) = run_loop en StageUpdatePlan (msgs @ [content, e]) 1 c
           in case lo_error r of Some le \<Rightarrow> (c, lo_tokens r, Inl (go_error le))
              | None \<Rightarrow>
                  (case parse_plan_patch en (lo_content r) of Inr p \<Rightarrow> (c, lo_tokens r, Inr p)
                   | Inl e2 \<Rightarrow> (c, lo_tokens r, Inl (''patch JSON still invalid after retry: '' @ e2)))))"

definition delete_modified_pages :: "page_spec list \<Rightarrow> site_db \<Rightarrow> site_db" where
  "delete_modified_pages ms d =
     d\<lparr>sd_pages := map (\<lambda>r. if pgr_path r \<in> pg_path ` set ms \<and> \<not> pgr_deleted r
                           then r\<lparr>pgr_deleted := True\<rparr> else r) (sd_pages d)\<rparr>"

definition delete_endpoint :: "endpoint_spec \<Rightarrow> site_db \<Rightarrow> site_db" where
  "delete_endpoint m d =
     (case map_of endpoint_action_tables (ep_action m) of None \<Rightarrow> d
      | Some tbl \<Rightarrow> d\<lparr>sd_endpoints :=
          map (\<lambda>(t, ps). if t = tbl then (t, filter (\<lambda>q. q \<noteq> ep_path m) ps) else (t, ps)) (sd_endpoints d)\<rparr>)"

text \<open>What happens once the patch is parsed; the panic of \<open>ApplyPatch\<close> comes after the writes
  that precede it.\<close>

definition apply_update :: "stage_env \<Rightarrow> int \<Rightarrow> int \<Rightarrow> string + plan \<Rightarrow> plan_patch \<Rightarrow> stage_ctx \<Rightarrow>
    stage_ctx \<times> outcome" where
  "apply_update en i tokens existing patch c =
     (case existing of Inl _ \<Rightarrow> fail_stage en i ''cannot apply patch: no existing plan found'' c
      | Inr p \<Rightarrow>
          (let c = map_row (\<lambda>r. r\<lparr>pr_update_desc := None\<rparr>) c;
               c = c\<lparr>cx_db := delete_modified_pages (modify_pages patch) (cx_db c)\<rparr>;
               c = c\<lparr>cx_db := fold delete_endpoint (modify_endpoints patch) (cx_db c)\<rparr>
           in case apply_patch p patch of
                None \<Rightarrow> (c, StagePanic ''assignment to entry in nil map'')
              | Some p' \<Rightarrow>
                  (let c = map_row (\<lambda>r. r\<lparr>pr_plan_json := Some (en_encode_plan en p'),
                                         pr_updated_at := Some (en_now en)\<rparr>) c
                   in (complete_stage en i tokens 0 c, NextStage StageBuild))))"

definition run_update_plan :: "stage_env \<Rightarrow> stage_ctx \<Rightarrow> stage_ctx \<times> outcome" where
  "run_update_plan en c0 =
     (let (c, i) = begin_stage StageUpdatePlan c0
      in case en_provider_err en of Some e \<Rightarrow> fail_stage en i e c
      | None \<Rightarrow>
          (let existing = load_plan en (cx_db c);
               desc = null_string (pr_update_desc (sd_row (cx_db c)));
               user = (if desc \<noteq> [] then ''The owner requested: '' @ desc @ [CHR 0x0A, CHR 0x0A]
                         @ ''Create a PlanPatch JSON describing the changes needed.''
                       else ''Create a PlanPatch JSON describing the changes needed.'');
               (c, r) = run_loop en StageUpdatePlan [user] (stage_iterations StageUpdatePlan) c
           in case lo_error r of Some e \<Rightarrow> fail_stage en i (go_error e) c
              | None \<Rightarrow>
                  (case parse_patch_with_retry en [user] (lo_content r) c of
                     (c, t2, Inl e) \<Rightarrow> fail_stage en i e c
                   | (c, t2, Inr patch) \<Rightarrow> apply_update en i (lo_tokens r + t2) existing patch c)))"

section \<open>Dispatch\<close>

definition stage_handler :: "stage \<Rightarrow> (stage_env \<Rightarrow> stage_ctx \<Rightarrow> stage_ctx \<times> outcome) option" where
  "stage_handler st =
     (case st of StageExpand \<Rightarrow> Some run_expand | StagePlan \<Rightarrow> Some run_plan
      | StageBuild \<Rightarrow> Some run_build | StageValidate \<Rightarrow> Some run_validate
      | StageComplete \<Rightarrow> Some run_complete | StageUpdatePlan \<Rightarrow> Some run_update_plan
      | _ \<Rightarrow> None)"

section \<open>Facts on the context\<close>

lemma map_row_simps [simp]:
  "sd_row (cx_db (map_row f c)) = f (sd_row (cx_db c))" "cx_wake (map_row f c) = cx_wake c"
  "cx_site (map_row f c) = cx_site c" "cx_cost (map_row f c) = cx_cost c"
  "sd_questions (cx_db (map_row f c)) = sd_questions (cx_db c)"
  "sd_pages (cx_db (map_row f c)) = sd_pages (cx_db c)"
  by (simp_all add: map_row_def on_row_def)

lemma complete_stage_simps [simp]:
  "sd_row (cx_db (complete_stage en i t k c)) = sd_row (cx_db c)"
  "sd_questions (cx_db (complete_stage en i t k c)) = sd_questions (cx_db c)"
  "cx_wake (complete_stage en i t k c) = cx_wake c" "cx_site (complete_stage en i t k c) = cx_site c"
  by (simp_all add: complete_stage_def)

lemma track_cost_row:
  "pr_plan_json (sd_row (cx_db (track_cost t c))) = pr_plan_json (sd_row (cx_db c))"
  "pr_stage (sd_row (cx_db (track_cost t c))) = pr_stage (sd_row (cx_db c))"
  "pr_paused (sd_row (cx_db (track_cost t c))) = pr_paused (sd_row (cx_db c))"
  by (simp_all add: track_cost_def Let_def split: option.splits)

lemma fail_stage_outcome: "snd (fail_stage en i e c) = StageFailed e"
    "sd_row (cx_db (fst (fail_stage en i e c))) = sd_row (cx_db c)"
  by (simp_all add: fail_stage_def)

lemma fail_not_next [simp]: "fail_stage en i e c \<noteq> (c', NextStage s)"
    "fail_stage en i e c \<noteq> (c', StagePanic m)"
  by (simp_all add: fail_stage_def)

lemma fail_stage_failed [simp]:
  "fail_stage en i e c = (c', StageFailed m) \<longleftrightarrow> m = e \<and> c' = fst (fail_stage en i e c)"
  by (auto simp: fail_stage_def)

section \<open>The order of the stages\<close>

fun stage_successor :: "stage \<Rightarrow> stage option" where
  "stage_successor StageExpand = Some StagePlan"
| "stage_successor StagePlan = Some StageBuild"
| "stage_successor StageBuild = Some StageValidate"
| "stage_successor StageValidate = Some StageComplete"
| "stage_successor StageComplete = Some StageMonitoring"
| "stage_successor StageUpdatePlan = Some StageBuild"
| "stage_successor _ = None"

lemma run_expand_next: "run_expand en c = (c', NextStage s) \<Longrightarrow> s = StagePlan"
  by (auto simp: run_expand_def Let_def split: prod.splits option.splits if_splits)

lemma accept_plan_next:
  assumes "accept_plan en i t p0 c = (c', NextStage s)"
  shows "s = StageBuild \<and> cx_wake c' = None \<and> p_questions p0 = []
    \<and> (\<exists>p. p = fst (normalize_plan_endpoints (en_order en) p0) \<and> validate_plan p = []
         \<and> pr_plan_json (sd_row (cx_db c')) =
             Some (en_encode_plan en (p\<lparr>p_libraries := en_cdn en (p_libraries p)\<rparr>)))"
  using assms
  by (auto simp: accept_plan_def Let_def track_cost_row split: prod.splits if_splits)

lemma run_plan_next:
  assumes "run_plan en c = (c', NextStage s)"
  shows "\<exists>i t p0 c1. accept_plan en i t p0 c1 = (c', NextStage s)"
  using assms by (auto simp: run_plan_def Let_def split: prod.splits option.splits if_splits sum.splits)

lemma run_build_next: "run_build en c = (c', NextStage s) \<Longrightarrow> s = StageValidate"
  by (auto simp: run_build_def Let_def split: prod.splits option.splits if_splits sum.splits)

lemma after_fix_next:
  "after_fix en i p r c = (c', NextStage s) \<Longrightarrow> s = StageComplete
     \<and> list_all (\<lambda>x. \<not> is_critical_issue x) (validate_build (en_dec_assets en) (en_order en) (cx_db c) p)"
  by (auto simp: after_fix_def Let_def filter_empty_conv list_all_iff split: prod.splits option.splits if_splits)

lemma run_validate_next: "run_validate en c = (c', NextStage s) \<Longrightarrow> s = StageComplete"
  by (auto simp: run_validate_def Let_def dest: after_fix_next
      split: prod.splits option.splits if_splits sum.splits)

lemma run_complete_next: "run_complete en c = (c', NextStage s) \<Longrightarrow> s = StageMonitoring"
  by (auto simp: run_complete_def Let_def split: prod.splits)

lemma apply_update_next: "apply_update en i t ex patch c = (c', NextStage s) \<Longrightarrow> s = StageBuild"
  by (auto simp: apply_update_def Let_def split: sum.splits option.splits)

lemma run_update_plan_next: "run_update_plan en c = (c', NextStage s) \<Longrightarrow> s = StageBuild"
  by (auto simp: run_update_plan_def Let_def dest: apply_update_next
      split: prod.splits option.splits if_splits sum.splits)

lemma handler_successor:
  "stage_handler st = Some h \<Longrightarrow> h en c = (c', NextStage s) \<Longrightarrow> stage_successor st = Some s"
  by (cases st)
     (auto simp: stage_handler_def dest: run_expand_next run_plan_next accept_plan_next run_build_next
       run_validate_next run_complete_next run_update_plan_next)

lemma run_loop_prod: "run_loop en st ms n c = (c1, r) \<Longrightarrow>
    en_loop en \<lparr>rq_stage = st, rq_messages = ms, rq_max_iter = n\<rparr> (cx_db c) = (cx_db c1, r)
    \<and> c1 = c\<lparr>cx_db := cx_db c1\<rparr>"
  by (auto simp: run_loop_def split: prod.splits)

text \<open>Library URLs play no part in validation or in the CRUD check.\<close>

lemma validate_plan_libraries [simp]: "validate_plan (p\<lparr>p_libraries := ls\<rparr>) = validate_plan p"
  by (simp add: validate_plan_def)

lemma run_validate_complete:
  assumes "run_validate en c = (c', NextStage s)" "load_plan en (cx_db c) = Inr p"
  shows "\<exists>d. list_all (\<lambda>x. \<not> is_critical_issue x) (validate_build (en_dec_assets en) (en_order en) d p)
    \<and> (d = auto_wire_page_assets p (cx_db (fst (begin_stage StageValidate c)))
       \<or> (\<exists>rq r. en_loop en rq (auto_wire_page_assets p (cx_db (fst (begin_stage StageValidate c)))) = (d, r)))"
proof -
  obtain c1 i where b: "begin_stage StageValidate c = (c1, i)" by (cases "begin_stage StageValidate c")
  have lp: "load_plan en (cx_db c1) = Inr p"
    using assms(2) b by (auto simp: begin_stage_def load_plan_def split: prod.splits)
  let ?c2 = "c1\<lparr>cx_db := auto_wire_page_assets p (cx_db c1)\<rparr>"
  let ?vb = "\<lambda>d. validate_build (en_dec_assets en) (en_order en) d p"
  show ?thesis
  proof (cases "?vb (auto_wire_page_assets p (cx_db c1)) @ en_functional en p = []")
    case True
    then have "list_all (\<lambda>x. \<not> is_critical_issue x) (?vb (auto_wire_page_assets p (cx_db c1)))" by simp
    then show ?thesis unfolding b fst_conv by blast
  next
    case False
    obtain c3 r where l: "run_loop en StageValidate (?vb (auto_wire_page_assets p (cx_db c1)) @ en_functional en p)
        (fix_iterations (length (?vb (auto_wire_page_assets p (cx_db c1)) @ en_functional en p))) ?c2 = (c3, r)"
      by fastforce
    have "after_fix en i p r c3 = (c', NextStage s)"
      using assms(1) False b lp l
      by (auto simp: run_validate_def Let_def split: option.splits if_splits prod.splits)
    then have "list_all (\<lambda>x. \<not> is_critical_issue x) (?vb (cx_db c3))" using after_fix_next by blast
    moreover have "\<exists>rq. en_loop en rq (auto_wire_page_assets p (cx_db c1)) = (cx_db c3, r)"
      using run_loop_prod [OF l] by auto
    ultimately show ?thesis using b by auto
  qed
qed

section \<open>Properties\<close>

definition demo_env :: stage_env where
  "demo_env = \<lparr>en_now = ''t1'', en_ms = 7, en_provider_err = None, en_site_err = None,
     en_desc_write_ok = True,
     en_loop = (\<lambda>rq d. (d, \<lparr>lo_content = ''plan'', lo_tokens = 600000, lo_calls = 0, lo_error = None\<rparr>)),
     en_raw_array = (\<lambda>_. None), en_raw_object = (\<lambda>_. None),
     en_decode_plan = (\<lambda>s. Inr demo_plan), en_decode_patch = (\<lambda>s. Inr empty_patch),
     en_encode_plan = p_app_type, en_load_messages = (\<lambda>_. None), en_cdn = (\<lambda>ls. ls),
     en_functional = (\<lambda>_. []), en_dec_assets = (\<lambda>_. None), en_order = (\<lambda>xs. xs)\<rparr>"

definition demo_ctx :: stage_ctx where
  "demo_ctx = \<lparr>cx_db = fresh_db ''t0'',
     cx_site = \<lparr>st_name = ''Site'', st_description = None, st_mode = ''building'', st_config = []\<rparr>,
     cx_wake = None, cx_cost = Some new_cost_tracker\<rparr>"

text \<open>A stage handler that succeeds always hands over to the one stage after it: EXPAND,
  PLAN, BUILD, VALIDATE, COMPLETE, MONITORING in this order, and UPDATE_PLAN to BUILD.\<close>

theorem stage_handlers_follow_order:
  assumes "stage_handler st = Some h" "h en c = (c', NextStage s)"
  shows "stage_successor st = Some s"
  using assms by (rule handler_successor)

theorem stage_handlers_follow_order_witness:
  "snd (run_expand demo_env demo_ctx) = NextStage StagePlan
   \<and> stage_successor StageExpand = Some StagePlan"
proof -
  have h: "stage_handler StageExpand = Some run_expand" by (simp add: stage_handler_def)
  have r: "snd (run_expand demo_env demo_ctx) = NextStage StagePlan" by code_simp
  then have "run_expand demo_env demo_ctx = (fst (run_expand demo_env demo_ctx), NextStage StagePlan)"
    by (metis prod.collapse)
  from stage_handlers_follow_order [OF h this] show ?thesis using r by blast
qed



text \<open>C34. The VALIDATE stage lets a plan through only when no critical issue was left in the
  database at its last check, which is the one it found or the one its fix-up session left.\<close>

theorem validate_stage_passes_only_uncritical:
  assumes "run_validate en c = (c', NextStage s)" "load_plan en (cx_db c) = Inr p"
  shows "\<exists>d. list_all (\<lambda>x. \<not> is_critical_issue x) (validate_build (en_dec_assets en) (en_order en) d p)
    \<and> (d = auto_wire_page_assets p (cx_db (fst (begin_stage StageValidate c)))
       \<or> (\<exists>rq r. en_loop en rq (auto_wire_page_assets p (cx_db (fst (begin_stage StageValidate c)))) = (d, r)))"
  using assms by (rule run_validate_complete)

definition validate_ctx :: stage_ctx where
  "validate_ctx = demo_ctx\<lparr>cx_db := built_db\<lparr>sd_row := (initial_row ''t0'')\<lparr>pr_plan_json := Some ''{}''\<rparr>\<rparr>\<rparr>"

theorem validate_stage_passes_only_uncritical_witness:
  "\<exists>d. list_all (\<lambda>x. \<not> is_critical_issue x) (validate_build (\<lambda>_. None) (\<lambda>xs. xs) d demo_plan)"
proof -
  have r: "snd (run_validate demo_env validate_ctx) = NextStage StageComplete" by code_simp
  have l: "load_plan demo_env (cx_db validate_ctx) = Inr demo_plan"
    by (simp add: load_plan_def demo_env_def validate_ctx_def parse_plan_def null_string_def)
  have eq: "run_validate demo_env validate_ctx =
      (fst (run_validate demo_env validate_ctx), NextStage StageComplete)"
    using r by (metis prod.collapse)
  have e: "en_dec_assets demo_env = (\<lambda>_. None)" "en_order demo_env = (\<lambda>xs. xs)"
    by (simp_all add: demo_env_def demo_env_def)
  from validate_stage_passes_only_uncritical [OF eq l] show ?thesis unfolding e by blast
qed

text \<open>A plan that asks questions pauses the pipeline: the row is paused for the owner's
  answers, the questions of the plan are exactly the pending ones, in order, the older pending
  ones are superseded, and the plan is not stored.\<close>

theorem plan_questions_pause:
  assumes "p_questions p \<noteq> []" and run: "accept_plan en i t p c = (c', out)"
  shows "out = StageFailed paused_msg \<and> pr_paused (sd_row (cx_db c'))
    \<and> pr_pause_reason (sd_row (cx_db c')) = Some pause_owner_answers
    \<and> pr_plan_json (sd_row (cx_db c')) = pr_plan_json (sd_row (cx_db c))
    \<and> map qr_question (filter (\<lambda>q. qr_status q = ''pending'') (sd_questions (cx_db c'))) =
        map q_question (p_questions p)
    \<and> pending_questions (cx_db c') = length (p_questions p)"
proof -
  let ?old = "map (\<lambda>q. if qr_status q = ''pending'' then q\<lparr>qr_status := ''superseded''\<rparr> else q)
      (sd_questions (cx_db c))"
  let ?new = "map (question_row_of en) (p_questions p)"
  have qs: "sd_questions (cx_db c') = ?old @ ?new" and out: "out = StageFailed paused_msg"
    and row: "sd_row (cx_db c') = pause_pipeline (en_now en) pause_owner_answers (sd_row (cx_db c))"
    using assms by (auto simp: accept_plan_def Let_def ask_questions_def paused_msg_def)
  have old: "filter (\<lambda>q. qr_status q = ''pending'') ?old = []" by (auto simp: filter_empty_conv)
  have new: "filter (\<lambda>q. qr_status q = ''pending'') ?new = ?new" by (simp add: filter_id_conv question_row_of_def)
  have names: "map qr_question ?new = map q_question (p_questions p)" by (simp add: question_row_of_def)
  have "filter (\<lambda>q. qr_status q = ''pending'') (sd_questions (cx_db c')) = ?new"
    unfolding qs filter_append old new by simp
  then show ?thesis
    using out row names by (simp add: pending_questions_def pause_pipeline_def)
qed

definition question_demo :: plan where
  "question_demo = demo_plan\<lparr>p_questions := [\<lparr>q_question = ''Which colours?'', q_type = [], q_options = [],
     q_secret = [], q_fields = []\<rparr>]\<rparr>"

theorem plan_questions_pause_witness:
  "pr_paused (sd_row (cx_db (fst (accept_plan demo_env 1 0 question_demo demo_ctx))))
   \<and> pending_questions (cx_db (fst (accept_plan demo_env 1 0 question_demo demo_ctx))) = 1"
proof -
  have q: "p_questions question_demo \<noteq> []" "length (p_questions question_demo) = 1"
    by (simp_all add: question_demo_def)
  show ?thesis
    using plan_questions_pause [OF q(1) prod.collapse [symmetric], of demo_env 1 0 demo_ctx] q(2) by simp
qed

text \<open>When \<open>ApplyPatch\<close> panics in the UPDATE_PLAN stage, the owner's request is gone and the
  modified pages are already deleted, while the stored plan is the old one: a retry of the
  stage starts without the description of the change.\<close>

theorem update_panic_drops_request:
  "(snd (apply_update en i t (Inr p) patch c) = StagePanic ''assignment to entry in nil map''
      \<longleftrightarrow> apply_patch p patch = None)
   \<and> (apply_patch p patch = None \<longrightarrow>
        (let c' = fst (apply_update en i t (Inr p) patch c)
         in pr_update_desc (sd_row (cx_db c')) = None
            \<and> pr_plan_json (sd_row (cx_db c')) = pr_plan_json (sd_row (cx_db c))
            \<and> (\<forall>r\<in>set (sd_pages (cx_db c')). pgr_path r \<in> pg_path ` set (modify_pages patch) \<longrightarrow> pgr_deleted r)))"
proof (intro conjI impI)
  have del: "sd_pages (fold delete_endpoint ms d) = sd_pages d \<and> sd_row (fold delete_endpoint ms d) = sd_row d" for ms d
    by (induction ms arbitrary: d) (auto simp: delete_endpoint_def split: option.splits)
  show "snd (apply_update en i t (Inr p) patch c) = StagePanic ''assignment to entry in nil map''
      \<longleftrightarrow> apply_patch p patch = None"
    by (simp add: apply_update_def Let_def split: option.splits)
  assume "apply_patch p patch = None"
  then show "let c' = fst (apply_update en i t (Inr p) patch c)
         in pr_update_desc (sd_row (cx_db c')) = None
            \<and> pr_plan_json (sd_row (cx_db c')) = pr_plan_json (sd_row (cx_db c))
            \<and> (\<forall>r\<in>set (sd_pages (cx_db c')). pgr_path r \<in> pg_path ` set (modify_pages patch) \<longrightarrow> pgr_deleted r)"
    by (auto simp: apply_update_def Let_def del delete_modified_pages_def)
qed

theorem update_panic_drops_request_witness:
  "pr_update_desc (sd_row (cx_db (fst (apply_update demo_env 1 0
      (Inr (demo_plan\<lparr>p_design := Some empty_design\<rparr>)) demo_patch demo_ctx)))) = None"
proof -
  have "apply_patch (demo_plan\<lparr>p_design := Some empty_design\<rparr>) demo_patch = None"
    by (simp add: apply_patch_def demo_defs patch_design_def merge_unmade_def)
  then show ?thesis
    using update_panic_drops_request [of demo_env 1 0 "demo_plan\<lparr>p_design := Some empty_design\<rparr>" demo_patch demo_ctx]
    by (simp add: Let_def)
qed

end
