(* ===== verification/Pipeline.thy ===== *)
theory Pipeline
  imports Stages
begin

text \<open>
  The pipeline worker of \<open>brain/pipeline.go\<close> as a state machine: where its goroutine is (in the
  build loop, the monitoring loop, the paused loop, or stopped), what it keeps in memory, and
  one step per stage execution, command, monitoring tick, background chat session or
  cancellation. Which database accesses fail is part of the input of a step.
\<close>

section \<open>Worker\<close>

datatype location =
    AtBuild stage nat
  | AtMonitor
  | AtPaused
  | Stopped

record worker =
  wk_state :: brain_state
  wk_idle :: nat
  wk_ctx :: stage_ctx
  wk_chats :: nat
  wk_loc :: location

record faults =
  ok_load :: bool
  ok_advance :: bool
  ok_count :: bool
  ok_pause :: bool

definition max_stage_retries :: nat where
  "max_stage_retries = 3"

definition idle_threshold :: nat where
  "idle_threshold = 3"

definition wk_row :: "worker \<Rightarrow> pipeline_row" where
  "wk_row w = sd_row (cx_db (wk_ctx w))"

definition on_wk_row :: "bool \<Rightarrow> (pipeline_row \<Rightarrow> pipeline_row) \<Rightarrow> worker \<Rightarrow> worker" where
  "on_wk_row ok f w = (if ok then w\<lparr>wk_ctx := map_row f (wk_ctx w)\<rparr> else w)"

section \<open>The build loop\<close>

text \<open>Entering \<open>runBuildPipeline\<close>.\<close>

definition enter_build :: "faults \<Rightarrow> worker \<Rightarrow> worker" where
  "enter_build f w =
     (if \<not> ok_load f then w\<lparr>wk_loc := Stopped\<rparr>
      else if pr_paused (wk_row w) then w\<lparr>wk_state := StatePaused, wk_loc := AtPaused\<rparr>
      else w\<lparr>wk_ctx := (wk_ctx w)\<lparr>cx_cost := Some new_cost_tracker\<rparr>,
             wk_loc := AtBuild (pr_stage (wk_row w)) 0\<rparr>)"

definition to_paused :: "worker \<Rightarrow> worker" where
  "to_paused w = w\<lparr>wk_state := StatePaused, wk_loc := AtPaused\<rparr>"

text \<open>A stage returned an error: a pause set by the stage itself, VALIDATE's own retry, the circuit
  breaker for permanent errors, and the counted retries.\<close>

definition stage_failed :: "faults \<Rightarrow> string \<Rightarrow> stage \<Rightarrow> nat \<Rightarrow> string \<Rightarrow> worker \<Rightarrow> worker" where
  "stage_failed f now st retries e w =
     (if ok_load f \<and> pr_paused (wk_row w) then to_paused w
      else if st = StageValidate then
        (if retries < 1 \<and> contains e ''critical validation''
         then w\<lparr>wk_loc := AtBuild StageValidate (retries + 1)\<rparr>
         else (on_wk_row (ok_advance f) (advance_stage now StageComplete) w)
                \<lparr>wk_loc := AtBuild StageComplete 0\<rparr>)
      else if is_permanent_error e then
        to_paused (on_wk_row (ok_pause f)
          (pause_pipeline now (''permanent error in '' @ stage_name st @ '': '' @ e)) w)
      else
        (let w = on_wk_row (ok_count f) (\<lambda>r. fst (increment_error_count now e r)) w;
             n = retries + 1
         in if max_stage_retries \<le> n then
              to_paused (on_wk_row (ok_pause f)
                (pause_pipeline now (''stage '' @ stage_name st @ '' failed '' @ itoa (int n) @ '' times'')) w)
            else w\<lparr>wk_loc := AtBuild st n\<rparr>))"

text \<open>One turn of the loop of \<open>runBuildPipeline\<close>.\<close>

definition build_iteration :: "faults \<Rightarrow> stage_env \<Rightarrow> stage \<Rightarrow> nat \<Rightarrow> worker \<Rightarrow> worker" where
  "build_iteration f en st retries w =
     (if st = StageMonitoring then w\<lparr>wk_state := StateMonitoring, wk_loc := AtMonitor\<rparr>
      else case stage_handler st of None \<Rightarrow> w\<lparr>wk_loc := Stopped\<rparr>
      | Some h \<Rightarrow>
          (let (c, out) = h en (wk_ctx w); w = w\<lparr>wk_ctx := c\<rparr>
           in case out of
                NextStage s \<Rightarrow>
                  (if ok_advance f
                   then (on_wk_row True (advance_stage (en_now en) s) w)\<lparr>wk_loc := AtBuild s 0\<rparr>
                   else w\<lparr>wk_loc := AtBuild st retries\<rparr>)
              | StageFailed e \<Rightarrow> stage_failed f (en_now en) st retries e w
              | StagePanic m \<Rightarrow>
                  stage_failed f (en_now en) st retries (''panic in stage '' @ stage_name st @ '': '' @ m) w))"

section \<open>Commands\<close>

record brain_command =
  bc_type :: string
  bc_payload :: "payload option"

definition bc_str :: "brain_command \<Rightarrow> string \<Rightarrow> string option" where
  "bc_str cmd k = (case bc_payload cmd of None \<Rightarrow> None | Some p \<Rightarrow> payload_str p k)"

definition handle_wake :: "faults \<Rightarrow> string \<Rightarrow> brain_command \<Rightarrow> worker \<Rightarrow> worker" where
  "handle_wake f now cmd w =
     (let w = w\<lparr>wk_idle := 0\<rparr>;
          w = (case bc_payload cmd of None \<Rightarrow> w
               | Some p \<Rightarrow> w\<lparr>wk_ctx := (wk_ctx w)\<lparr>cx_wake := Some p\<rparr>\<rparr>)
      in if wk_state w = StatePaused
         then (on_wk_row (ok_pause f) (resume_pipeline now) w)\<lparr>wk_state := StateBuilding\<rparr>
         else w)"

definition handle_mode :: "faults \<Rightarrow> string \<Rightarrow> brain_command \<Rightarrow> worker \<Rightarrow> worker" where
  "handle_mode f now cmd w =
     (case bc_str cmd ''mode'' of None \<Rightarrow> w
      | Some mode \<Rightarrow>
          (if mode = ''building''
           then on_wk_row (ok_pause f) (reset_pipeline now) (w\<lparr>wk_state := StateBuilding\<rparr>)
           else if mode = ''monitoring'' then w\<lparr>wk_state := StateMonitoring\<rparr>
           else if mode = ''paused'' then w\<lparr>wk_state := StatePaused\<rparr>
           else w))"

definition handle_update :: "faults \<Rightarrow> string \<Rightarrow> brain_command \<Rightarrow> worker \<Rightarrow> worker" where
  "handle_update f now cmd w =
     (let w = w\<lparr>wk_idle := 0, wk_state := StateBuilding\<rparr>;
          desc = null_string (bc_str cmd ''description'');
          w = on_wk_row (ok_pause f) (\<lambda>r. r\<lparr>pr_update_desc := Some desc\<rparr>) w
      in on_wk_row (ok_advance f) (advance_stage now StageUpdatePlan) w)"

text \<open>A scheduled task runs either a native action, whose SQL may change the database in any way
  (the argument \<open>native\<close>), or a language-model session.\<close>

definition handle_task :: "(string \<Rightarrow> site_db \<Rightarrow> site_db) \<Rightarrow> stage_env \<Rightarrow> brain_command \<Rightarrow> worker \<Rightarrow> worker" where
  "handle_task native en cmd w =
     (let session = (\<lambda>prompt d. fst (en_loop en \<lparr>rq_stage = StageOther [], rq_messages = [prompt], rq_max_iter = 20\<rparr> d));
          run = (\<lambda>g. w\<lparr>wk_ctx := (wk_ctx w)\<lparr>cx_db := g (cx_db (wk_ctx w))\<rparr>\<rparr>)
      in case bc_str cmd ''native_action'' of
           Some (a # as) \<Rightarrow> run (native (a # as))
         | _ \<Rightarrow> (case bc_str cmd ''prompt'' of None \<Rightarrow> w
                 | Some p \<Rightarrow> if en_provider_err en = None then run (session p) else w))"

definition handle_chat :: "brain_command \<Rightarrow> worker \<Rightarrow> worker" where
  "handle_chat cmd w =
     (if wk_state w = StateMonitoring then
        (let w = w\<lparr>wk_idle := 0\<rparr>
         in if null_string (bc_str cmd ''message'') \<noteq> [] then w\<lparr>wk_chats := Suc (wk_chats w)\<rparr> else w)
      else w)"

definition handle_command ::
  "faults \<Rightarrow> (string \<Rightarrow> site_db \<Rightarrow> site_db) \<Rightarrow> stage_env \<Rightarrow> brain_command \<Rightarrow> worker \<Rightarrow> worker" where
  "handle_command f native en cmd w =
     (if bc_type cmd = ''wake'' then handle_wake f (en_now en) cmd w
      else if bc_type cmd = ''mode_change'' then handle_mode f (en_now en) cmd w
      else if bc_type cmd = ''update'' then handle_update f (en_now en) cmd w
      else if bc_type cmd = ''scheduled_task'' then handle_task native en cmd w
      else if bc_type cmd = ''chat'' then handle_chat cmd w
      else w)"

section \<open>Monitoring\<close>

definition monitoring_base_default :: int where
  "monitoring_base_default = 5 * 60 * 1000000000"

definition monitoring_max_default :: int where
  "monitoring_max_default = 15 * 60 * 1000000000"

definition monitoring_interval :: "int \<Rightarrow> int \<Rightarrow> worker \<Rightarrow> int" where
  "monitoring_interval base_cfg max_cfg w =
     (let base = (if 0 < base_cfg then base_cfg else monitoring_base_default);
          mx = (if 0 < max_cfg then max_cfg else monitoring_max_default)
      in if idle_threshold \<le> wk_idle w then mx else base)"

text \<open>\<open>monitoringTick\<close>, given the number of recent application errors.\<close>

definition monitoring_tick :: "faults \<Rightarrow> stage_env \<Rightarrow> nat \<Rightarrow> worker \<Rightarrow> worker" where
  "monitoring_tick f en recent w =
     (if recent = 0 then w\<lparr>wk_idle := Suc (wk_idle w)\<rparr>
      else
        (let w = w\<lparr>wk_idle := 0\<rparr>
         in if en_provider_err en \<noteq> None then w
            else (let (c, r) = run_loop en (StageOther []) [''check''] 5 (wk_ctx w); w = w\<lparr>wk_ctx := c\<rparr>
                  in if lo_error r = Some LoopPaused
                     then on_wk_row (ok_pause f) (pause_pipeline (en_now en) pause_owner_answers)
                            (w\<lparr>wk_state := StatePaused\<rparr>)
                     else w)))"

text \<open>A chat session started by \<open>handleChatWake\<close> runs beside the worker.\<close>

definition chat_session :: "stage_env \<Rightarrow> worker \<Rightarrow> worker" where
  "chat_session en w =
     (case wk_chats w of 0 \<Rightarrow> w
      | Suc n \<Rightarrow>
          (let w = w\<lparr>wk_chats := n\<rparr>
           in if en_provider_err en \<noteq> None then w
              else w\<lparr>wk_ctx := fst (run_loop en (StageOther []) [''chat''] 15 (wk_ctx w))\<rparr>))"

section \<open>Start\<close>

text \<open>\<open>autoRecover\<close>; \<open>answers\<close> are the answered questions with their answers.\<close>

definition auto_recover ::
  "faults \<Rightarrow> string \<Rightarrow> (string \<times> string) list \<Rightarrow> worker \<Rightarrow> worker \<times> bool" where
  "auto_recover f now answers w =
     (if int max_stage_retries \<le> (if ok_load f then pr_error_count (wk_row w) else 0) then (w, False)
      else
        (let w = on_wk_row (ok_count f)
                   (\<lambda>r. if 0 < pr_error_count r then r\<lparr>pr_error_count := 0, pr_updated_at := Some now\<rparr> else r) w;
             w = on_wk_row (ok_pause f)
                   (\<lambda>r. if pr_paused r \<and> pr_pause_reason r \<noteq> None
                           \<and> null_string (pr_pause_reason r) \<notin> {pause_owner_answers, pause_approval}
                        then resume_pipeline now r else r) w
         in if ok_load f \<and> pr_paused (wk_row w)
               \<and> null_string (pr_pause_reason (wk_row w)) = pause_owner_answers
               \<and> pending_questions (cx_db (wk_ctx w)) = 0
            then
              (on_wk_row (ok_pause f) (resume_pipeline now)
                 (w\<lparr>wk_ctx := (wk_ctx w)\<lparr>cx_wake :=
                     Some [(''reason'', PStr ''question_answered''),
                           (''answer'', PStr (join [CHR 0x0A] (map (\<lambda>(q, a). q @ '': '' @ a) answers)))]\<rparr>\<rparr>),
               True)
            else (w, True)))"

definition start_worker :: "faults \<Rightarrow> string \<Rightarrow> (string \<times> string) list \<Rightarrow> stage_ctx \<Rightarrow> worker" where
  "start_worker f now answers c =
     (let w = \<lparr>wk_state = StateIdle, wk_idle = 0, wk_ctx = c, wk_chats = 0, wk_loc = Stopped\<rparr>;
          mode = st_mode (cx_site c)
      in if mode = ''building'' then
           (let (w, go) = auto_recover f now answers w
            in if go then enter_build f (w\<lparr>wk_state := StateBuilding\<rparr>) else to_paused w)
         else if mode = ''monitoring'' then w\<lparr>wk_state := StateMonitoring, wk_loc := AtMonitor\<rparr>
         else if mode = ''paused'' then to_paused w
         else w\<lparr>wk_loc := AtPaused\<rparr>)"

section \<open>Steps\<close>

datatype worker_input =
    Cancel
  | BuildTurn faults stage_env
  | Receive faults "string \<Rightarrow> site_db \<Rightarrow> site_db" stage_env brain_command
  | Tick faults stage_env nat
  | ChatTurn stage_env

definition paused_receive :: "faults \<Rightarrow> worker \<Rightarrow> worker" where
  "paused_receive f w =
     (if wk_state w = StateBuilding then enter_build f w
      else if wk_state w = StateMonitoring then w\<lparr>wk_loc := AtMonitor\<rparr>
      else w)"

definition worker_step :: "worker_input \<Rightarrow> worker \<Rightarrow> worker" where
  "worker_step inp w =
     (if wk_loc w = Stopped then w
      else case inp of
        Cancel \<Rightarrow> w\<lparr>wk_loc := Stopped\<rparr>
      | BuildTurn f en \<Rightarrow>
          (case wk_loc w of AtBuild st r \<Rightarrow> build_iteration f en st r w | _ \<Rightarrow> w)
      | Receive f native en cmd \<Rightarrow>
          (case wk_loc w of
             AtMonitor \<Rightarrow> handle_command f native en cmd w
           | AtPaused \<Rightarrow> paused_receive f (handle_command f native en cmd w)
           | _ \<Rightarrow> w)
      | Tick f en recent \<Rightarrow>
          (case wk_loc w of
             AtMonitor \<Rightarrow>
               (let w = monitoring_tick f en recent w
                in if wk_state w = StatePaused then w\<lparr>wk_loc := AtPaused\<rparr> else w)
           | _ \<Rightarrow> w)
      | ChatTurn en \<Rightarrow> chat_session en w)"

inductive worker_reachable :: "worker \<Rightarrow> bool" where
  start: "worker_reachable (start_worker f now answers c)"
| step: "worker_reachable w \<Longrightarrow> worker_reachable (worker_step inp w)"

section \<open>Provider resolution\<close>

record provider_row =
  pv_id :: int
  pv_name :: string
  pv_type :: string
  pv_key :: "string option"
  pv_base_url :: "string option"
  pv_needs_key :: bool

text \<open>\<open>resolveProvider\<close>: the decryption, the factory and the registry are arguments; the result is
  the error or the name of the provider that was built or found.\<close>

definition resolve_provider ::
  "(string \<Rightarrow> string + string) \<Rightarrow> (string \<Rightarrow> string \<Rightarrow> string \<Rightarrow> string \<Rightarrow> bool) \<Rightarrow> string list \<Rightarrow>
   provider_row \<Rightarrow> string + string" where
  "resolve_provider decrypt factory registry p =
     (let key = (case null_string (pv_key p) of
            [] \<Rightarrow> if pv_needs_key p then Inl (''provider '' @ go_quote (pv_name p) @ '' has no API key'')
                  else Inr []
          | k \<Rightarrow> (case decrypt k of
               Inl e \<Rightarrow> Inl (''failed to decrypt API key for '' @ go_quote (pv_name p) @ '': '' @ e)
             | Inr v \<Rightarrow> Inr v));
          base = null_string (pv_base_url p)
      in case key of Inl e \<Rightarrow> Inl e
         | Inr k \<Rightarrow>
             (if pv_type p = ''openai'' \<and> base = [] then
                Inl (''provider '' @ go_quote (pv_name p) @ '' (openai) has no base_url'')
              else if factory (pv_name p) (pv_type p) k base then Inr (pv_name p)
              else if pv_name p \<in> set registry then Inr (pv_name p)
              else Inl (''provider '' @ go_quote (pv_name p) @ '' not available: llm: provider ''
                        @ go_quote (pv_name p) @ '' not found'')))"

section \<open>Facts on the worker\<close>

lemma on_wk_row_simps [simp]:
  "wk_state (on_wk_row ok f w) = wk_state w" "wk_loc (on_wk_row ok f w) = wk_loc w"
  "wk_idle (on_wk_row ok f w) = wk_idle w" "wk_chats (on_wk_row ok f w) = wk_chats w"
  "wk_row (on_wk_row ok f w) = (if ok then f (wk_row w) else wk_row w)"
  by (simp_all add: on_wk_row_def wk_row_def)

lemma to_paused_simps [simp]:
  "wk_state (to_paused w) = StatePaused" "wk_loc (to_paused w) = AtPaused"
  "wk_row (to_paused w) = wk_row w"
  by (simp_all add: to_paused_def wk_row_def)

lemma wk_row_update [simp]:
  "wk_row (w\<lparr>wk_loc := l\<rparr>) = wk_row w" "wk_row (w\<lparr>wk_state := s\<rparr>) = wk_row w"
  "wk_row (w\<lparr>wk_idle := i\<rparr>) = wk_row w" "wk_row (w\<lparr>wk_chats := i\<rparr>) = wk_row w"
  "wk_row (w\<lparr>wk_ctx := (wk_ctx v)\<lparr>cx_wake := x\<rparr>\<rparr>) = wk_row v"
  "wk_row (w\<lparr>wk_ctx := (wk_ctx v)\<lparr>cx_wake := x\<rparr>, wk_state := s\<rparr>) = wk_row v"
  "wk_row (w\<lparr>wk_ctx := (wk_ctx v)\<lparr>cx_cost := k\<rparr>\<rparr>) = wk_row v"
  "wk_row (w\<lparr>wk_ctx := (wk_ctx v)\<lparr>cx_cost := k\<rparr>, wk_loc := l\<rparr>) = wk_row v"
  by (simp_all add: wk_row_def)

text \<open>What a failed stage does, by cases.\<close>

lemma stage_failed_loc:
  "wk_loc (stage_failed f now st r e w) \<in>
     {AtPaused} \<union> (if st = StageValidate then {AtBuild StageValidate (r + 1), AtBuild StageComplete 0}
                    else {AtBuild st (r + 1)})"
  by (simp add: stage_failed_def Let_def)

lemma stage_failed_retry:
  "wk_loc (stage_failed f now st r e w) = AtBuild st' r' \<Longrightarrow>
     st' = st \<and> r' = r + 1 \<and> (st \<noteq> StageValidate \<longrightarrow> r' < max_stage_retries) \<and> (st = StageValidate \<longrightarrow> r' \<le> 1)
     \<or> st = StageValidate \<and> st' = StageComplete \<and> r' = 0"
  by (auto simp: stage_failed_def Let_def split: if_splits)

lemma stage_failed_state:
  "wk_state (stage_failed f now st r e w) =
     (if wk_loc (stage_failed f now st r e w) = AtPaused then StatePaused else wk_state w)"
  by (simp add: stage_failed_def Let_def)

text \<open>The invariant of the worker: bounded retries in the build loop, and a memory state that
  agrees with the loop the goroutine is in.\<close>

definition worker_inv :: "worker \<Rightarrow> bool" where
  "worker_inv w =
     (case wk_loc w of
        AtBuild st r \<Rightarrow> wk_state w = StateBuilding \<and> r < max_stage_retries \<and> (st = StageValidate \<longrightarrow> r \<le> 1)
      | AtPaused \<Rightarrow> wk_state w = StatePaused \<or> wk_state w = StateIdle
      | AtMonitor \<Rightarrow> wk_state w = StateMonitoring \<or> wk_state w = StateBuilding \<or> wk_state w = StatePaused
      | Stopped \<Rightarrow> True)"

lemma inv_enter_build [inv_intros]: "wk_state w = StateBuilding \<Longrightarrow> worker_inv (enter_build f w)"
  by (simp add: enter_build_def worker_inv_def max_stage_retries_def)

lemma inv_stage_failed [inv_intros]:
  assumes "wk_state w = StateBuilding"
  shows "worker_inv (stage_failed f now st r e w)"
proof (cases "wk_loc (stage_failed f now st r e w)")
  case (AtBuild st' r')
  then have "wk_state (stage_failed f now st r e w) = StateBuilding"
    using stage_failed_state [of f now st r e w] assms by simp
  then show ?thesis
    using AtBuild stage_failed_retry [OF AtBuild] by (auto simp: worker_inv_def max_stage_retries_def)
next
  case AtPaused
  then show ?thesis using stage_failed_state [of f now st r e w] by (simp add: worker_inv_def)
qed (use stage_failed_loc [of f now st r e w] in \<open>auto simp: worker_inv_def split: if_splits\<close>)

lemma inv_build_iteration [inv_intros]:
  assumes "worker_inv w" "wk_loc w = AtBuild st r"
  shows "worker_inv (build_iteration f en st r w)"
proof (cases "st = StageMonitoring")
  case True
  then show ?thesis by (simp add: build_iteration_def worker_inv_def)
next
  case False
  have s: "wk_state w = StateBuilding" "r < max_stage_retries" "st = StageValidate \<longrightarrow> r \<le> 1"
    using assms by (simp_all add: worker_inv_def)
  show ?thesis
  proof (cases "stage_handler st")
    case None
    then show ?thesis using False by (simp add: build_iteration_def worker_inv_def)
  next
    case (Some h)
    obtain c out where h: "h en (wk_ctx w) = (c, out)" by fastforce
    have "worker_inv (stage_failed f now st r e (w\<lparr>wk_ctx := c\<rparr>))" for now e
      by (rule inv_stage_failed) (simp add: s)
    then show ?thesis
      using False Some h s
      by (cases out) (auto simp: build_iteration_def Let_def worker_inv_def max_stage_retries_def)
  qed
qed

lemma handle_command_loc [simp]: "wk_loc (handle_command f native en cmd w) = wk_loc w"
  by (simp add: handle_command_def handle_wake_def handle_mode_def handle_update_def handle_task_def
      handle_chat_def Let_def split: option.splits list.splits)

lemma handle_command_state:
  "wk_state (handle_command f native en cmd w) \<in> {wk_state w, StateBuilding, StateMonitoring, StatePaused}"
  by (simp add: handle_command_def handle_wake_def handle_mode_def handle_update_def handle_task_def
      handle_chat_def Let_def split: option.splits list.splits)

lemma monitoring_tick_loc [simp]: "wk_loc (monitoring_tick f en n w) = wk_loc w"
  by (simp add: monitoring_tick_def Let_def split: prod.splits)

lemma monitoring_tick_state: "wk_state (monitoring_tick f en n w) \<in> {wk_state w, StatePaused}"
  by (simp add: monitoring_tick_def Let_def split: prod.splits)

lemma chat_session_simps [simp]:
  "wk_loc (chat_session en w) = wk_loc w" "wk_state (chat_session en w) = wk_state w"
  by (simp_all add: chat_session_def Let_def split: nat.splits)

lemma inv_paused_receive [inv_intros]:
  assumes "wk_loc w = AtPaused" "wk_state w \<in> {StateIdle, StateBuilding, StateMonitoring, StatePaused}"
  shows "worker_inv (paused_receive f w)"
  using assms inv_enter_build [of w f] by (auto simp: paused_receive_def worker_inv_def)

lemma inv_step [inv_intros]:
  assumes "worker_inv w"
  shows "worker_inv (worker_step inp w)"
proof (cases inp)
  case (Receive f native en cmd)
  note hs = handle_command_state [of f native en cmd w]
  show ?thesis
  proof (cases "wk_loc w")
    case AtPaused
    then have "worker_inv (paused_receive f (handle_command f native en cmd w))"
      using assms hs by (intro inv_paused_receive) (auto simp: worker_inv_def)
    then show ?thesis using Receive AtPaused by (simp add: worker_step_def)
  next
    case AtMonitor
    then show ?thesis using assms hs Receive by (auto simp: worker_step_def worker_inv_def)
  qed (use assms Receive in \<open>simp_all add: worker_step_def\<close>)
next
  case (BuildTurn f en)
  then show ?thesis
    using assms inv_build_iteration [OF assms]
    by (cases "wk_loc w") (simp_all add: worker_step_def)
next
  case (Tick f en n)
  show ?thesis
    using assms Tick monitoring_tick_state [of f en n w]
    by (cases "wk_loc w") (auto simp: worker_step_def worker_inv_def Let_def)
next
  case (ChatTurn en)
  then show ?thesis using assms by (cases "wk_loc w") (simp_all add: worker_step_def worker_inv_def)
next
  case Cancel
  then show ?thesis using assms by (cases "wk_loc w") (simp_all add: worker_step_def worker_inv_def)
qed

lemma inv_start: "worker_inv (start_worker f now answers c)"
  by (auto simp: start_worker_def Let_def worker_inv_def split: prod.splits intro: inv_enter_build)
     (auto simp: worker_inv_def enter_build_def max_stage_retries_def)

lemma worker_reachable_inv: "worker_reachable w \<Longrightarrow> worker_inv w"
  by (induction rule: worker_reachable.induct) (auto intro: inv_start inv_step)

section \<open>Progress of a build\<close>

definition stage_rank :: "stage \<Rightarrow> nat" where
  "stage_rank st =
     (case st of StageExpand \<Rightarrow> 6 | StagePlan \<Rightarrow> 5 | StageUpdatePlan \<Rightarrow> 5 | StageBuild \<Rightarrow> 4
      | StageValidate \<Rightarrow> 3 | StageComplete \<Rightarrow> 2 | _ \<Rightarrow> 1)"

text \<open>Turns left before the worker leaves the build loop.\<close>

definition build_measure :: "location \<Rightarrow> nat" where
  "build_measure l = (case l of AtBuild st r \<Rightarrow> 3 * stage_rank st - r | _ \<Rightarrow> 0)"

lemma stage_rank_pos: "0 < stage_rank st"
  by (cases st) (simp_all add: stage_rank_def)

lemma successor_rank: "stage_successor st = Some s \<Longrightarrow> stage_rank st = Suc (stage_rank s)"
  by (cases st) (auto simp: stage_rank_def)

lemma measure_pos: "r < max_stage_retries \<Longrightarrow> 0 < build_measure (AtBuild st r)"
  using stage_rank_pos [of st] by (simp add: build_measure_def max_stage_retries_def)

lemma failed_measure:
  assumes "r < max_stage_retries"
  shows "build_measure (wk_loc (stage_failed f now st r e w)) < build_measure (AtBuild st r)"
proof (cases "wk_loc (stage_failed f now st r e w)")
  case (AtBuild st' r')
  show ?thesis
    using stage_failed_retry [OF AtBuild] AtBuild assms stage_rank_pos [of st]
    by (auto simp: build_measure_def max_stage_retries_def stage_rank_def)
qed (use measure_pos [OF assms] in \<open>simp_all add: build_measure_def [of AtMonitor] build_measure_def [of AtPaused]
      build_measure_def [of Stopped]\<close>)

lemma iteration_measure:
  assumes "worker_inv w" "wk_loc w = AtBuild st r" "ok_advance f"
  shows "build_measure (wk_loc (build_iteration f en st r w)) < build_measure (AtBuild st r)"
proof -
  have r: "r < max_stage_retries" using assms by (simp add: worker_inv_def)
  note pos = measure_pos [OF r, of st]
  show ?thesis
  proof (cases "st = StageMonitoring \<or> stage_handler st = None")
    case True
    then show ?thesis using pos by (auto simp: build_iteration_def build_measure_def)
  next
    case False
    then obtain h where h: "stage_handler st = Some h" by auto
    obtain c out where o: "h en (wk_ctx w) = (c, out)" by fastforce
    show ?thesis
    proof (cases out)
      case (NextStage s)
      then have "stage_rank st = Suc (stage_rank s)"
        using handler_successor [OF h] o successor_rank by blast
      then show ?thesis
        using NextStage False h o assms(3) r
        by (simp add: build_iteration_def build_measure_def max_stage_retries_def)
    qed (use False h o failed_measure [OF r] in \<open>simp_all add: build_iteration_def\<close>)
  qed
qed

definition turns :: "(faults \<times> stage_env) list \<Rightarrow> worker \<Rightarrow> worker" where
  "turns xs w = fold (\<lambda>(f, en). worker_step (BuildTurn f en)) xs w"

lemma turns_measure:
  assumes "worker_inv w" "\<forall>(f, en)\<in>set xs. ok_advance f" "build_measure (wk_loc w) \<le> length xs"
  shows "\<nexists>st r. wk_loc (turns xs w) = AtBuild st r"
  using assms
proof (induction xs arbitrary: w)
  case Nil
  then have "build_measure (wk_loc w) = 0" by simp
  moreover have "0 < build_measure (wk_loc w)" if "wk_loc w = AtBuild st r" for st r
    using measure_pos [of r st] that Nil.prems(1) by (simp add: worker_inv_def)
  ultimately have "\<not> (\<exists>st r. wk_loc w = AtBuild st r)" by (metis less_irrefl)
  then show ?case by (simp add: turns_def)
next
  case (Cons x xs)
  obtain f en where x: "x = (f, en)" by fastforce
  let ?w = "worker_step (BuildTurn f en) w"
  have inv: "worker_inv ?w" using Cons.prems(1) by (rule inv_step)
  have "build_measure (wk_loc ?w) \<le> length xs"
  proof (cases "wk_loc w")
    case (AtBuild st r)
    have "build_measure (wk_loc (build_iteration f en st r w)) < build_measure (AtBuild st r)"
      by (rule iteration_measure) (use Cons.prems AtBuild x in auto)
    then show ?thesis using Cons.prems(3) AtBuild by (simp add: worker_step_def)
  qed (simp_all add: worker_step_def build_measure_def)
  then show ?case using Cons.IH [OF inv] Cons.prems(2) x by (simp add: turns_def)
qed

lemma measure_bound: "build_measure l \<le> 18"
proof (cases l)
  case (AtBuild st r)
  then show ?thesis by (cases st) (simp_all add: build_measure_def stage_rank_def)
qed (simp_all add: build_measure_def)

text \<open>Commands and ticks at the monitoring loop.\<close>

lemma monitor_command: "wk_loc w = AtMonitor \<Longrightarrow>
    worker_step (Receive f native en cmd) w = handle_command f native en cmd w"
  by (simp add: worker_step_def)

lemma provider_failure:
  assumes "en_provider_err en = Some e" "st \<in> {StagePlan, StageBuild, StageUpdatePlan}"
  shows "\<exists>h c'. stage_handler st = Some h \<and> h en c = (c', StageFailed e)
    \<and> sd_row (cx_db c') = sd_row (cx_db c)"
  using assms
  by (auto simp: stage_handler_def run_plan_def run_build_def run_update_plan_def begin_stage_def
      fail_stage_def Let_def split: prod.splits)

lemma provider_failure_turn:
  assumes "en_provider_err en = Some e" "st \<in> {StagePlan, StageBuild, StageUpdatePlan}"
  obtains w' where "wk_row w' = wk_row w" "wk_state w' = wk_state w" "wk_loc w' = wk_loc w"
    "build_iteration f en st r w = stage_failed f (en_now en) st r e w'"
proof -
  obtain h c' where h: "stage_handler st = Some h" "h en (wk_ctx w) = (c', StageFailed e)"
    "sd_row (cx_db c') = sd_row (cx_db (wk_ctx w))"
    using provider_failure [OF assms, of "wk_ctx w"] by blast
  have st: "st \<noteq> StageMonitoring" using assms(2) by auto
  show thesis
    by (rule that [of "w\<lparr>wk_ctx := c'\<rparr>"]) (use h st in \<open>simp_all add: build_iteration_def wk_row_def\<close>)
qed

definition all_ok :: faults where
  "all_ok = \<lparr>ok_load = True, ok_advance = True, ok_count = True, ok_pause = True\<rparr>"

lemma stage_failed_counted:
  assumes "\<not> pr_paused (wk_row w)" "st \<noteq> StageValidate" "\<not> is_permanent_error e"
  shows "pr_error_count (wk_row (stage_failed all_ok now st r e w)) = pr_error_count (wk_row w) + 1
    \<and> wk_loc (stage_failed all_ok now st r e w) = (if 3 \<le> Suc r then AtPaused else AtBuild st (Suc r))
    \<and> pr_paused (wk_row (stage_failed all_ok now st r e w)) = (3 \<le> Suc r)
    \<and> (3 \<le> Suc r \<longrightarrow> pr_pause_reason (wk_row (stage_failed all_ok now st r e w)) =
         Some (''stage '' @ stage_name st @ '' failed '' @ itoa (int (Suc r)) @ '' times''))
    \<and> wk_state (stage_failed all_ok now st r e w) = (if 3 \<le> Suc r then StatePaused else wk_state w)"
  using assms by (simp add: stage_failed_def all_ok_def max_stage_retries_def Let_def)

section \<open>Properties\<close>

definition demo_worker :: "location \<Rightarrow> worker" where
  "demo_worker l = \<lparr>wk_state = StateBuilding, wk_idle = 0, wk_ctx = demo_ctx, wk_chats = 0, wk_loc = l\<rparr>"

text \<open>C2. In every state the worker can reach, a stage in the build loop has failed fewer than
  three times in a row, VALIDATE at most once, the state shown to the outside is ``building''
  in the build loop, and ``paused'' or ``idle'' in the paused loop.\<close>

theorem worker_invariant:
  assumes "worker_reachable w"
  shows "(\<forall>st r. wk_loc w = AtBuild st r \<longrightarrow>
      wk_state w = StateBuilding \<and> r < max_stage_retries \<and> (st = StageValidate \<longrightarrow> r \<le> 1))
    \<and> (wk_loc w = AtPaused \<longrightarrow> wk_state w = StatePaused \<or> wk_state w = StateIdle)"
  using worker_reachable_inv [OF assms] by (simp add: worker_inv_def split: location.splits)

theorem worker_invariant_witness:
  "wk_loc (start_worker all_ok ''t'' [] demo_ctx) = AtBuild StageExpand 0
   \<and> wk_state (start_worker all_ok ''t'' [] demo_ctx) = StateBuilding"
proof -
  have l: "wk_loc (start_worker all_ok ''t'' [] demo_ctx) = AtBuild StageExpand 0" by code_simp
  then show ?thesis using worker_invariant [OF worker_reachable.start, of all_ok "''t''" "[]" demo_ctx] by blast
qed

text \<open>C1. The build loop ends: when the stage advances can be written, a worker in any
  reachable state has left the loop after 18 turns at the latest, whatever the stages, the
  language model and the other database writes do.\<close>

theorem build_terminates:
  assumes "worker_reachable w" "\<forall>(f, en)\<in>set xs. ok_advance f" "18 \<le> length xs"
  shows "\<nexists>st r. wk_loc (turns xs w) = AtBuild st r"
  using turns_measure [OF worker_reachable_inv [OF assms(1)] assms(2)] measure_bound [of "wk_loc w"] assms(3)
  by simp

theorem build_terminates_witness:
  "\<nexists>st r. wk_loc (turns (replicate 18 (all_ok, demo_env)) (start_worker all_ok ''t'' [] demo_ctx)) = AtBuild st r"
  by (rule build_terminates [OF worker_reachable.start]) (simp_all add: all_ok_def)

text \<open>Without that write the loop has no bound: while the advance out of a stage that
  succeeds cannot be written, the worker repeats the stage for ever, counts no failure and
  never pauses. Shown for COMPLETE, which always succeeds.\<close>

theorem failed_advance_never_pauses:
  assumes "wk_loc w = AtBuild StageComplete r" "\<forall>(f, en)\<in>set xs. \<not> ok_advance f"
  shows "wk_loc (turns xs w) = AtBuild StageComplete r \<and> wk_row (turns xs w) = wk_row w"
  using assms
proof (induction xs arbitrary: w)
  case (Cons x xs)
  obtain f en where x: "x = (f, en)" by fastforce
  let ?w = "worker_step (BuildTurn f en) w"
  have "wk_loc ?w = AtBuild StageComplete r \<and> wk_row ?w = wk_row w"
    using Cons.prems x
    by (auto simp: worker_step_def build_iteration_def stage_handler_def run_complete_def begin_stage_def
        wk_row_def Let_def split: prod.splits)
  then show ?case using Cons.IH [of ?w] Cons.prems(2) x by (simp add: turns_def)
qed (simp add: turns_def)

definition no_advance :: faults where
  "no_advance = all_ok\<lparr>ok_advance := False\<rparr>"

theorem failed_advance_never_pauses_witness:
  "wk_loc (turns (replicate 1000 (no_advance, demo_env)) (demo_worker (AtBuild StageComplete 0))) =
     AtBuild StageComplete 0"
  using failed_advance_never_pauses
    [of "demo_worker (AtBuild StageComplete 0)" 0 "replicate 1000 (no_advance, demo_env)"]
  by (simp add: demo_worker_def no_advance_def)

text \<open>A provider that cannot be resolved pauses the build: at once, without counting errors,
  when the error is permanent, and otherwise after exactly three turns, with three errors
  counted and the number of failures as the reason.\<close>

theorem provider_failure_pauses:
  assumes "en_provider_err en = Some e" "st \<in> {StagePlan, StageBuild, StageUpdatePlan}"
    and "wk_loc w = AtBuild st 0" "\<not> pr_paused (wk_row w)"
  shows "if is_permanent_error e
    then (let w' = turns [(all_ok, en)] w
          in wk_loc w' = AtPaused \<and> wk_state w' = StatePaused \<and> pr_paused (wk_row w')
             \<and> pr_error_count (wk_row w') = pr_error_count (wk_row w))
    else (let w' = turns (replicate 3 (all_ok, en)) w
          in wk_loc w' = AtPaused \<and> wk_state w' = StatePaused \<and> pr_paused (wk_row w')
             \<and> pr_error_count (wk_row w') = pr_error_count (wk_row w) + 3
             \<and> pr_pause_reason (wk_row w') = Some (''stage '' @ stage_name st @ '' failed 3 times''))"
proof (cases "is_permanent_error e")
  case True
  obtain w1 where w1: "wk_row w1 = wk_row w" "build_iteration all_ok en st 0 w = stage_failed all_ok (en_now en) st 0 e w1"
    using provider_failure_turn [OF assms(1,2), of w all_ok 0] by metis
  have "st \<noteq> StageValidate" using assms(2) by auto
  then show ?thesis
    using True w1 assms(3,4) by (simp add: turns_def worker_step_def stage_failed_def all_ok_def Let_def)
next
  case False
  have st: "st \<noteq> StageValidate" using assms(2) by auto
  have turn: "pr_error_count (wk_row (worker_step (BuildTurn all_ok en) v)) = pr_error_count (wk_row v) + 1
      \<and> wk_loc (worker_step (BuildTurn all_ok en) v) = (if 3 \<le> Suc r then AtPaused else AtBuild st (Suc r))
      \<and> pr_paused (wk_row (worker_step (BuildTurn all_ok en) v)) = (3 \<le> Suc r)
      \<and> (3 \<le> Suc r \<longrightarrow> pr_pause_reason (wk_row (worker_step (BuildTurn all_ok en) v)) =
           Some (''stage '' @ stage_name st @ '' failed '' @ itoa (int (Suc r)) @ '' times'')
           \<and> wk_state (worker_step (BuildTurn all_ok en) v) = StatePaused)"
    if v: "wk_loc v = AtBuild st r" "\<not> pr_paused (wk_row v)" for v r
  proof -
    obtain v1 where v1: "wk_row v1 = wk_row v" "wk_state v1 = wk_state v"
      "build_iteration all_ok en st r v = stage_failed all_ok (en_now en) st r e v1"
      using provider_failure_turn [OF assms(1,2), of v all_ok r] by metis
    show ?thesis
      using stage_failed_counted [of v1 st e "en_now en" r] v v1 st False by (simp add: worker_step_def)
  qed
  let ?s = "worker_step (BuildTurn all_ok en)"
  have t1: "wk_loc (?s w) = AtBuild st (Suc 0)" "\<not> pr_paused (wk_row (?s w))"
    "pr_error_count (wk_row (?s w)) = pr_error_count (wk_row w) + 1"
    using turn [OF assms(3,4)] by simp_all
  have t2: "wk_loc (?s (?s w)) = AtBuild st (Suc (Suc 0))" "\<not> pr_paused (wk_row (?s (?s w)))"
    "pr_error_count (wk_row (?s (?s w))) = pr_error_count (wk_row w) + 2"
    using turn [OF t1(1,2)] t1(3) by simp_all
  have three: "itoa 3 = ''3''" by code_simp
  have "turns (replicate 3 (all_ok, en)) w = ?s (?s (?s w))"
    by (simp add: turns_def eval_nat_numeral)
  then show ?thesis
    using False turn [OF t2(1,2)] t2(3) three by (simp add: Let_def)
qed

theorem provider_failure_pauses_witness:
  "pr_pause_reason (wk_row (turns (replicate 3 (all_ok, demo_env\<lparr>en_provider_err := Some ''timeout''\<rparr>))
     (demo_worker (AtBuild StagePlan 0)))) = Some ''stage PLAN failed 3 times''"
proof -
  have p: "\<not> is_permanent_error ''timeout''" by code_simp
  have r: "\<not> pr_paused (wk_row (demo_worker (AtBuild StagePlan 0)))" by code_simp
  show ?thesis
    using provider_failure_pauses [of "demo_env\<lparr>en_provider_err := Some ''timeout''\<rparr>" "''timeout''" StagePlan
        "demo_worker (AtBuild StagePlan 0)"] p r
    by (simp add: demo_worker_def Let_def)
qed

text \<open>Commands and quiet ticks at the monitoring loop.\<close>

definition run_inputs :: "worker_input list \<Rightarrow> worker \<Rightarrow> worker" where
  "run_inputs xs w = fold worker_step xs w"

definition building_command :: "brain_command \<Rightarrow> bool" where
  "building_command cmd =
     (bc_type cmd = ''update'' \<or> bc_type cmd = ''mode_change'' \<and> bc_str cmd ''mode'' = Some ''building'')"

lemma building_command_state:
  "building_command cmd \<Longrightarrow> wk_state (handle_command f native en cmd w) = StateBuilding"
  by (auto simp: building_command_def handle_command_def handle_update_def handle_mode_def Let_def)

definition quiet_input :: "worker_input \<Rightarrow> bool" where
  "quiet_input i = (case i of Receive _ _ _ cmd \<Rightarrow> building_command cmd | Tick _ _ n \<Rightarrow> n = 0 | _ \<Rightarrow> False)"

lemma monitor_stays:
  assumes "list_all quiet_input xs" "wk_loc w = AtMonitor" "wk_state w = StateBuilding"
  shows "wk_loc (run_inputs xs w) = AtMonitor \<and> wk_state (run_inputs xs w) = StateBuilding"
  using assms
proof (induction xs arbitrary: w)
  case (Cons x xs)
  have "wk_loc (worker_step x w) = AtMonitor \<and> wk_state (worker_step x w) = StateBuilding"
    using Cons.prems building_command_state
    by (cases x) (auto simp: quiet_input_def worker_step_def monitoring_tick_def Let_def)
  then show ?case using Cons.IH [of "worker_step x w"] Cons.prems(1) by (simp add: run_inputs_def)
qed (simp add: run_inputs_def)


definition update_cmd :: brain_command where
  "update_cmd = \<lparr>bc_type = ''update'', bc_payload = None\<rparr>"


text \<open>An update command that reaches a paused worker is not built either: the worker sees the
  pause in the database and stays in the paused loop, with the UPDATE_PLAN stage stored; a
  wake command then resumes at that stage with no errors counted.\<close>

theorem update_while_paused_waits:
  assumes "wk_loc w = AtPaused" "wk_state w = StatePaused" "pr_paused (wk_row w)"
    and "bc_type cmd = ''update''" "bc_type wake = ''wake''"
  shows "(let w1 = worker_step (Receive all_ok native en cmd) w;
              w2 = worker_step (Receive all_ok native en wake) w1
          in wk_loc w1 = AtPaused \<and> wk_state w1 = StatePaused \<and> pr_paused (wk_row w1)
             \<and> pr_stage (wk_row w1) = StageUpdatePlan
             \<and> wk_loc w2 = AtBuild StageUpdatePlan 0 \<and> wk_state w2 = StateBuilding
             \<and> pr_error_count (wk_row w2) = 0)"
proof -
  let ?w1 = "worker_step (Receive all_ok native en cmd) w"
  have upd: "wk_state (handle_update all_ok (en_now en) cmd w) = StateBuilding"
      "pr_paused (wk_row (handle_update all_ok (en_now en) cmd w))"
      "pr_stage (wk_row (handle_update all_ok (en_now en) cmd w)) = StageUpdatePlan"
      "pr_error_count (wk_row (handle_update all_ok (en_now en) cmd w)) = 0"
    using assms(3) by (simp_all add: handle_update_def all_ok_def Let_def)
  have w1: "?w1 = (handle_update all_ok (en_now en) cmd w)\<lparr>wk_state := StatePaused, wk_loc := AtPaused\<rparr>"
    using assms upd by (simp add: worker_step_def handle_command_def paused_receive_def enter_build_def all_ok_def)
  define h where "h = handle_wake all_ok (en_now en) wake ?w1"
  have h: "wk_state h = StateBuilding" "\<not> pr_paused (wk_row h)" "pr_stage (wk_row h) = StageUpdatePlan"
      "pr_error_count (wk_row h) = 0"
    unfolding h_def w1 using upd by (simp_all add: handle_wake_def all_ok_def Let_def split: option.splits)
  have "worker_step (Receive all_ok native en wake) ?w1 = enter_build all_ok h"
    using assms(5) h(1) unfolding h_def
    by (simp add: w1 worker_step_def [of _ "_\<lparr>wk_loc := AtPaused\<rparr>"] handle_command_def paused_receive_def)
  then have "wk_loc (worker_step (Receive all_ok native en wake) ?w1) = AtBuild StageUpdatePlan 0
      \<and> wk_state (worker_step (Receive all_ok native en wake) ?w1) = StateBuilding
      \<and> pr_error_count (wk_row (worker_step (Receive all_ok native en wake) ?w1)) = 0"
    using h by (simp add: enter_build_def all_ok_def)
  then show ?thesis
    using upd by (simp add: Let_def w1)
qed

definition paused_worker :: worker where
  "paused_worker = (demo_worker AtPaused)\<lparr>wk_state := StatePaused,
     wk_ctx := demo_ctx\<lparr>cx_db := on_row (pause_pipeline ''t'' pause_owner_answers) (fresh_db ''t'')\<rparr>\<rparr>"

theorem update_while_paused_waits_witness:
  "wk_loc (worker_step (Receive all_ok (\<lambda>_ d. d) demo_env update_cmd) paused_worker) = AtPaused"
proof -
  have p: "wk_loc paused_worker = AtPaused" "wk_state paused_worker = StatePaused" "pr_paused (wk_row paused_worker)"
    by (simp_all add: paused_worker_def demo_worker_def wk_row_def on_row_def)
  show ?thesis
    using update_while_paused_waits [OF p, of update_cmd "\<lparr>bc_type = ''wake'', bc_payload = None\<rparr>" "\<lambda>_ d. d" demo_env]
    by (simp add: update_cmd_def Let_def)
qed

text \<open>\<open>autoRecover\<close> lets a build go on exactly when fewer than three errors are counted. It
  then clears the error count and every pause except the two that wait for the owner, and lifts
  the wait for answers just when no question is pending.\<close>

theorem auto_recover_spec:
  "snd (auto_recover all_ok now answers w) = (pr_error_count (wk_row w) < 3)
   \<and> (3 \<le> pr_error_count (wk_row w) \<or>
       (let r = wk_row (fst (auto_recover all_ok now answers w))
        in pr_error_count r \<le> 0 \<and> pr_stage r = pr_stage (wk_row w)
           \<and> (pr_paused r \<longleftrightarrow> pr_paused (wk_row w)
                \<and> (pr_pause_reason (wk_row w) = None
                   \<or> pr_pause_reason (wk_row w) = Some pause_approval
                   \<or> pr_pause_reason (wk_row w) = Some pause_owner_answers
                      \<and> 0 < pending_questions (cx_db (wk_ctx w))))))"
proof -
  have q: "pending_questions (cx_db (wk_ctx (on_wk_row ok f w))) = pending_questions (cx_db (wk_ctx w))" for ok f w
    by (simp add: on_wk_row_def pending_questions_def)
  have w: "wk_row (v\<lparr>wk_ctx := (wk_ctx v)\<lparr>cx_wake := x\<rparr>\<rparr>) = wk_row v" for v x
    by (simp add: wk_row_def)
  show ?thesis
  proof (cases "3 \<le> pr_error_count (wk_row w)")
    case True
    then show ?thesis by (simp add: auto_recover_def all_ok_def max_stage_retries_def)
  next
    case False
    then show ?thesis
      by (auto simp: auto_recover_def all_ok_def max_stage_retries_def Let_def q w null_string_def
          pause_owner_answers_def pause_approval_def resume_pipeline_def split: option.splits)
  qed
qed

definition bare_provider :: "string \<Rightarrow> provider_row" where
  "bare_provider n = \<lparr>pv_id = 1, pv_name = n, pv_type = ''anthropic'', pv_key = None, pv_base_url = None,
     pv_needs_key = False\<rparr>"

text \<open>The error for a provider that is not available is not recognised as permanent: the
  pattern of \<open>isPermanentError\<close> does not allow for the quoted name inside the message, while
  the errors for a missing key and a missing base URL are recognised.\<close>

theorem unavailable_provider_not_permanent:
  "(case resolve_provider Inr (\<lambda>_ _ _ _. False) [] (bare_provider ''claude'') of
      Inl e \<Rightarrow> \<not> is_permanent_error e | Inr _ \<Rightarrow> False)
   \<and> (case resolve_provider Inr (\<lambda>_ _ _ _. False) [] ((bare_provider ''claude'')\<lparr>pv_needs_key := True\<rparr>) of
     Inl e \<Rightarrow> is_permanent_error e | Inr _ \<Rightarrow> False)"
  by code_simp

end
