(* ===== verification/Json.thy ===== *)
theory Json
  imports Progress
begin

text \<open>
  \<open>json.Unmarshal\<close> of the Go standard library into an \<open>interface{}\<close> or a
  \<open>map[string]interface{}\<close>, as the modelled code calls it: the grammar of RFC 8259, invalid
  UTF-8 and lone surrogates decoded as U+FFFD, the last of two bindings of a key kept, nesting
  up to 10,000 levels, and an error for a number beyond the range of \<open>float64\<close>. A number is
  the exact rational its literal denotes.
\<close>

section \<open>Strings\<close>

text \<open>UTF-8 encoding of a code point.\<close>

definition utf8 :: "nat \<Rightarrow> string" where
  "utf8 u =
     (if u < 0x80 then [char_of u]
      else if u < 0x800 then [char_of (0xC0 + u div 64), char_of (0x80 + u mod 64)]
      else if u < 0x10000 then
        [char_of (0xE0 + u div 4096), char_of (0x80 + u div 64 mod 64), char_of (0x80 + u mod 64)]
      else [char_of (0xF0 + u div 262144), char_of (0x80 + u div 4096 mod 64),
            char_of (0x80 + u div 64 mod 64), char_of (0x80 + u mod 64)])"

definition hex_val :: "char \<Rightarrow> nat option" where
  "hex_val c =
     (let n = of_char c :: nat
      in if 48 \<le> n \<and> n \<le> 57 then Some (n - 48)
         else if 97 \<le> n \<and> n \<le> 102 then Some (n - 87)
         else if 65 \<le> n \<and> n \<le> 70 then Some (n - 55) else None)"

text \<open>The four hexadecimal digits after \<open>\u\<close>, each a rune of its own.\<close>

definition hex4 :: "string list \<Rightarrow> nat option" where
  "hex4 rs =
     (case rs of
        [[a], [b], [c], [d]] \<Rightarrow>
          (case (hex_val a, hex_val b, hex_val c, hex_val d) of
             (Some w, Some x, Some y, Some z) \<Rightarrow> Some (4096 * w + 256 * x + 16 * y + z)
           | _ \<Rightarrow> None)
      | _ \<Rightarrow> None)"

definition surrogate :: "nat \<Rightarrow> bool" where
  "surrogate u = (0xD800 \<le> u \<and> u < 0xE000)"

text \<open>The second half of a surrogate pair that starts with \<open>u\<close>, and the pair's code point.\<close>

definition low_half :: "nat \<Rightarrow> string list \<Rightarrow> nat option" where
  "low_half u rs =
     (if u < 0xDC00 \<and> take 2 rs = [[CHR 0x5C], ''u''] then
        (case hex4 (take 4 (drop 2 rs)) of
           Some v \<Rightarrow> if 0xDC00 \<le> v \<and> v < 0xE000
                      then Some (0x10000 + (u - 0xD800) * 1024 + (v - 0xDC00)) else None
         | None \<Rightarrow> None)
      else None)"

definition short_escape :: "string \<Rightarrow> char option" where
  "short_escape r = map_of
     [([CHR 0x22], CHR 0x22), ([CHR 0x5C], CHR 0x5C), (''/'', CHR ''/''), (''b'', CHR 0x08),
      (''f'', CHR 0x0C), (''n'', CHR 0x0A), (''r'', CHR 0x0D), (''t'', CHR 0x09)] r"

function unescape :: "string list \<Rightarrow> string option" where
  "unescape [] = Some []"
| "unescape (r # rs) =
     (if r \<noteq> [CHR 0x5C] then map_option (\<lambda>s. r @ s) (unescape rs)
      else (case rs of [] \<Rightarrow> None
        | e # rs' \<Rightarrow>
            (case short_escape e of
               Some c \<Rightarrow> map_option ((#) c) (unescape rs')
             | None \<Rightarrow>
                 (if e \<noteq> ''u'' then None
                  else (case hex4 (take 4 rs') of None \<Rightarrow> None
                    | Some u \<Rightarrow>
                        (if \<not> surrogate u then map_option ((@) (utf8 u)) (unescape (drop 4 rs'))
                         else (case low_half u (drop 4 rs') of
                                 Some p \<Rightarrow> map_option ((@) (utf8 p)) (unescape (drop 10 rs'))
                               | None \<Rightarrow>
                                   map_option ((@) rune_error) (unescape (drop 4 rs')))))))))"
  by pat_completeness auto
termination by (relation "measure length") auto

text \<open>The raw text of a string literal up to its closing quote, and what follows the quote.\<close>

fun raw_string :: "string \<Rightarrow> (string \<times> string) option" where
  "raw_string [] = None"
| "raw_string (c # s) =
     (if c = CHR 0x22 then Some ([], s)
      else if (of_char c :: nat) < 32 then None
      else if c = CHR 0x5C then
        (case s of [] \<Rightarrow> None
         | d # s' \<Rightarrow> map_option (\<lambda>(b, r). (c # d # b, r)) (raw_string s'))
      else map_option (\<lambda>(b, r). (c # b, r)) (raw_string s))"

definition parse_string :: "string \<Rightarrow> (string \<times> string) option" where
  "parse_string s =
     (case raw_string s of None \<Rightarrow> None
      | Some (b, r) \<Rightarrow> map_option (\<lambda>t. (t, r)) (unescape (go_runes b)))"

section \<open>Numbers\<close>

definition json_space :: "char \<Rightarrow> bool" where
  "json_space c = (c \<in> {CHR '' '', CHR 0x09, CHR 0x0A, CHR 0x0D})"

abbreviation skip_ws :: "string \<Rightarrow> string" where
  "skip_ws \<equiv> dropWhile json_space"

definition frac_part :: "string \<Rightarrow> (rat \<times> string) option" where
  "frac_part s =
     (if s = [] \<or> hd s \<noteq> CHR ''.'' then Some (0, s)
      else (let ds = takeWhile is_digit (tl s)
            in if ds = [] then None
               else Some (of_int (digits_val ds) / 10 ^ length ds, dropWhile is_digit (tl s))))"

definition exp_part :: "string \<Rightarrow> (int \<times> string) option" where
  "exp_part s =
     (if s = [] \<or> hd s \<notin> {CHR ''e'', CHR ''E''} then Some (0, s)
      else (let neg = (tl s \<noteq> [] \<and> hd (tl s) = CHR ''-'');
                t = (if tl s \<noteq> [] \<and> hd (tl s) \<in> {CHR ''-'', CHR ''+''} then tl (tl s) else tl s);
                ds = takeWhile is_digit t
            in if ds = [] then None
               else Some (if neg then - digits_val ds else digits_val ds, dropWhile is_digit t)))"

definition scale10 :: "rat \<Rightarrow> int \<Rightarrow> rat" where
  "scale10 x e = (if 0 \<le> e then x * 10 ^ nat e else x / 10 ^ nat (- e))"

text \<open>The magnitude $2^{1024} - 2^{970}$ from which a literal rounds to infinity.\<close>

definition float_limit :: rat where
  "float_limit = 0xFFFFFFFFFFFFFC00000000000000000000000000000000000000000000000000000000000000000000000000000000000000000000000000000000000000000000000000000000000000000000000000000000000000000000000000000000000000000000000000000000000000000000000000000000000000000000000000"

definition parse_number :: "string \<Rightarrow> (rat \<times> string) option" where
  "parse_number s0 =
     (let neg = (s0 \<noteq> [] \<and> hd s0 = CHR ''-''); s = (if neg then tl s0 else s0);
          ds = takeWhile is_digit s
      in if ds = [] then None
         else let int_ds = (if hd ds = CHR ''0'' then [hd ds] else ds)
              in case frac_part (drop (length int_ds) s) of None \<Rightarrow> None
                 | Some (f, s1) \<Rightarrow>
                     (case exp_part s1 of None \<Rightarrow> None
                      | Some (e, s2) \<Rightarrow>
                          (let x = scale10 (of_int (digits_val int_ds) + f) e
                           in if float_limit \<le> x then None
                              else Some (if neg then - x else x, s2))))"

section \<open>Values\<close>

text \<open>
  The rest of an array after \<open>[\<close> or a comma and the rest of an object, for a reader \<open>pv\<close> of
  values. The first argument bounds the number of elements; the length of the text is enough.
\<close>

primrec parse_items ::
  "(string \<Rightarrow> (json \<times> string) option) \<Rightarrow> nat \<Rightarrow> string \<Rightarrow> (json list \<times> string) option" where
  "parse_items pv 0 s = None"
| "parse_items pv (Suc n) s =
     (case pv s of None \<Rightarrow> None
      | Some (v, r) \<Rightarrow>
          (let r = skip_ws r
           in if r = [] then None
              else if hd r = CHR '']'' then Some ([v], tl r)
              else if hd r = CHR '','' then
                map_option (\<lambda>(xs, r). (v # xs, r)) (parse_items pv n (tl r))
              else None))"

definition parse_member :: "(string \<Rightarrow> (json \<times> string) option) \<Rightarrow> string \<Rightarrow> ((string \<times> json) \<times> string) option" where
  "parse_member pv s0 =
     (let s = skip_ws s0
      in if s = [] \<or> hd s \<noteq> CHR 0x22 then None
         else (case parse_string (tl s) of None \<Rightarrow> None
           | Some (k, r) \<Rightarrow>
               (let r = skip_ws r
                in if r = [] \<or> hd r \<noteq> CHR '':'' then None
                   else map_option (\<lambda>(v, r). ((k, v), r)) (pv (tl r)))))"

primrec parse_members ::
  "(string \<Rightarrow> (json \<times> string) option) \<Rightarrow> nat \<Rightarrow> jobj \<Rightarrow> string \<Rightarrow> (jobj \<times> string) option" where
  "parse_members pv 0 m s = None"
| "parse_members pv (Suc n) m s =
     (case parse_member pv s of None \<Rightarrow> None
      | Some (kv, r) \<Rightarrow>
          (let r = skip_ws r; m = alist_put (fst kv) (snd kv) m
           in if r = [] then None
              else if hd r = CHR ''}'' then Some (m, tl r)
              else if hd r = CHR '','' then parse_members pv n m (tl r)
              else None))"

definition parse_scalar :: "string \<Rightarrow> (json \<times> string) option" where
  "parse_scalar s =
     (if prefix ''true'' s then Some (JBool True, drop 4 s)
      else if prefix ''false'' s then Some (JBool False, drop 5 s)
      else if prefix ''null'' s then Some (JNull, drop 4 s)
      else map_option (\<lambda>(x, r). (JNum x, r)) (parse_number s))"

text \<open>A value; the first argument is the number of levels of nesting left.\<close>

fun parse_value :: "nat \<Rightarrow> string \<Rightarrow> (json \<times> string) option" where
  "parse_value d s0 =
     (let s = skip_ws s0
      in if s = [] then None
         else if hd s = CHR 0x22 then map_option (\<lambda>(t, r). (JStr t, r)) (parse_string (tl s))
         else if hd s \<notin> {CHR ''['', CHR ''{''} then parse_scalar s
         else if d = 0 then None
         else (let t = skip_ws (tl s)
           in if hd s = CHR ''['' then
                (if t \<noteq> [] \<and> hd t = CHR '']'' then Some (JArr [], tl t)
                 else map_option (\<lambda>(xs, r). (JArr xs, r)) (parse_items (parse_value (d - 1)) (length t) t))
              else
                (if t \<noteq> [] \<and> hd t = CHR ''}'' then Some (JObj [], tl t)
                 else map_option (\<lambda>(m, r). (JObj m, r))
                        (parse_members (parse_value (d - 1)) (length t) [] t))))"

declare parse_value.simps [simp del]

definition unmarshal :: "string \<Rightarrow> json option" where
  "unmarshal s =
     (case parse_value 10000 s of None \<Rightarrow> None
      | Some (v, r) \<Rightarrow> if skip_ws r = [] then Some v else None)"

text \<open>Into a \<open>map[string]interface{}\<close>; \<open>null\<close> leaves the nil map.\<close>

definition unmarshal_object :: "string \<Rightarrow> jobj option" where
  "unmarshal_object s =
     (case unmarshal s of Some (JObj m) \<Rightarrow> Some m | Some JNull \<Rightarrow> Some [] | _ \<Rightarrow> None)"

end
