(* ===== verification/Conversation.thy ===== *)
theory Conversation
  imports Json Validate
begin

text \<open>
  Conversations with the language model: the messages of \<open>llm/message.go\<close>, and from
  \<open>brain/messages.go\<close> the pruning of a long conversation and the one-line summaries of
  tool calls that stand for its pruned part.
\<close>

section \<open>Messages\<close>

datatype role = RoleSystem | RoleUser | RoleAssistant | RoleTool

record tool_call =
  tc_id :: string
  tc_name :: string
  tc_arguments :: string

record llm_message =
  msg_role :: role
  msg_content :: string
  msg_calls :: "tool_call list"
  msg_call_id :: string

type_synonym conversation = "llm_message list"

definition user_msg :: "string \<Rightarrow> llm_message" where
  "user_msg s = \<lparr>msg_role = RoleUser, msg_content = s, msg_calls = [], msg_call_id = []\<rparr>"

definition assistant_msg :: "string \<Rightarrow> tool_call list \<Rightarrow> llm_message" where
  "assistant_msg s cs = \<lparr>msg_role = RoleAssistant, msg_content = s, msg_calls = cs, msg_call_id = []\<rparr>"

definition tool_msg :: "string \<Rightarrow> string \<Rightarrow> llm_message" where
  "tool_msg s i = \<lparr>msg_role = RoleTool, msg_content = s, msg_calls = [], msg_call_id = i\<rparr>"

lemma msg_simps [simp]:
  "msg_role (user_msg s) = RoleUser" "msg_content (user_msg s) = s" "msg_calls (user_msg s) = []"
  "msg_role (assistant_msg s cs) = RoleAssistant" "msg_calls (assistant_msg s cs) = cs"
  "msg_content (assistant_msg s cs) = s"
  "msg_role (tool_msg s i) = RoleTool" "msg_call_id (tool_msg s i) = i" "msg_content (tool_msg s i) = s"
  by (simp_all add: user_msg_def assistant_msg_def tool_msg_def)

section \<open>Summaries of tool calls\<close>

definition summarize_tool_call :: "string \<Rightarrow> string \<Rightarrow> string" where
  "summarize_tool_call tool args_json =
     (case unmarshal_object args_json of None \<Rightarrow> []
      | Some args \<Rightarrow>
          (let action = get_str args ''action''; path = get_str args ''path'';
               table = get_str args ''table_name''; fn = get_str args ''filename''
           in if tool = ''manage_pages'' then
                (if action = ''save'' \<and> path \<noteq> [] then ''built page '' @ path else [])
              else if tool = ''manage_schema'' then
                (if action = ''create'' \<and> table \<noteq> [] then ''created table '' @ table else [])
              else if tool = ''manage_endpoints'' then
                (if prefix ''create_'' action \<and> path \<noteq> [] then action @ '' /api/'' @ path else [])
              else if tool = ''manage_files'' then (if fn \<noteq> [] then ''saved '' @ fn else [])
              else if tool = ''manage_layout'' then (if action = ''save'' then ''saved layout'' else [])
              else if tool = ''manage_data'' then
                (if action = ''insert'' \<and> table \<noteq> [] then ''seeded '' @ table else [])
              else []))"

definition call_summaries :: "llm_message \<Rightarrow> string list" where
  "call_summaries m =
     (if msg_role m = RoleAssistant
      then filter (\<lambda>s. s \<noteq> []) (map (\<lambda>c. summarize_tool_call (tc_name c) (tc_arguments c)) (msg_calls m))
      else [])"

section \<open>Pruning\<close>

definition is_page_ctx :: "llm_message \<Rightarrow> bool" where
  "is_page_ctx m = (msg_role m = RoleUser \<and> prefix ''[PAGE_CTX]'' (msg_content m))"

definition is_anchor :: "llm_message \<Rightarrow> bool" where
  "is_anchor m = (msg_role m = RoleUser \<and> prefix ''[ANCHOR]'' (msg_content m))"

text \<open>Every page context but the last one is blanked.\<close>

fun blank_stale :: "conversation \<Rightarrow> conversation" where
  "blank_stale [] = []"
| "blank_stale (m # ms) =
     (if is_page_ctx m \<and> list_ex is_page_ctx ms then user_msg [] else m) # blank_stale ms"

text \<open>The rebuild, which happens when the latest page context is not the first message.\<close>

definition drop_stale :: "conversation \<Rightarrow> conversation" where
  "drop_stale ms =
     (if list_ex is_page_ctx (tl ms)
      then filter (\<lambda>m. msg_content m \<noteq> [] \<or> msg_role m \<noteq> RoleUser) (blank_stale ms)
      else ms)"

text \<open>The anchors of the middle part, by index, and those that fit the budget.\<close>

definition kept_anchors :: "conversation \<Rightarrow> nat \<Rightarrow> nat list" where
  "kept_anchors ms recent =
     (let anchors = filter (\<lambda>i. is_anchor (ms ! i)) [1..<length ms - recent]
      in take (min 24 (14 + length anchors div 3)) anchors)"

fun back_up :: "conversation \<Rightarrow> nat \<Rightarrow> nat" where
  "back_up ms 0 = 0"
| "back_up ms (Suc k) =
     (if 0 < k \<and> msg_role (ms ! Suc k) = RoleTool then back_up ms k else Suc k)"

definition progress_msg :: "string list \<Rightarrow> conversation" where
  "progress_msg parts = (if parts = [] then [] else [user_msg (''[Progress] '' @ join '', '' parts)])"

fun summary_zone :: "nat list \<Rightarrow> string list \<Rightarrow> (nat \<times> llm_message) list \<Rightarrow> conversation" where
  "summary_zone kept parts [] = progress_msg parts"
| "summary_zone kept parts ((i, m) # r) =
     (if i \<in> set kept then progress_msg parts @ m # summary_zone kept [] r
      else summary_zone kept (parts @ call_summaries m) r)"

text \<open>The callers keep 18, 21 or 24 recent messages; with none the code would index past the end.\<close>

definition prune_messages :: "conversation \<Rightarrow> nat \<Rightarrow> conversation" where
  "prune_messages ms0 recent =
     (if length ms0 \<le> recent + 1 then ms0
      else let ms = drop_stale ms0
           in if length ms \<le> recent + 1 then ms
              else let start = back_up ms (length ms - recent)
                   in hd ms # summary_zone (kept_anchors ms recent) []
                                (zip [1..<start] (take (start - 1) (tl ms)))
                      @ drop start ms)"

section \<open>Tool results after their calls\<close>

text \<open>
  What the providers ask of a conversation: a tool result answers a call of the assistant
  message before it, with only other tool results in between. \<open>ids\<close> are the calls that may
  still be answered.
\<close>

fun paired :: "string list \<Rightarrow> conversation \<Rightarrow> bool" where
  "paired ids [] = True"
| "paired ids (m # ms) =
     (case msg_role m of
        RoleTool \<Rightarrow> msg_call_id m \<in> set ids \<and> paired ids ms
      | RoleAssistant \<Rightarrow> paired (map tc_id (msg_calls m)) ms
      | _ \<Rightarrow> paired [] ms)"

lemma paired_mono: "paired ids ms \<Longrightarrow> set ids \<subseteq> set ids' \<Longrightarrow> paired ids' ms"
  by (induction ms arbitrary: ids ids') (auto split: role.splits)

lemma paired_any: "paired [] ms \<Longrightarrow> paired ids ms"
  by (rule paired_mono) auto

lemma paired_drop:
  assumes "paired ids ms" "k < length ms" "msg_role (ms ! k) \<noteq> RoleTool"
  shows "paired ids' (drop k ms)"
  using assms
proof (induction ms arbitrary: ids k)
  case (Cons m ms)
  show ?case
  proof (cases k)
    case 0
    with Cons.prems show ?thesis by (cases "msg_role m") auto
  next
    case (Suc j)
    from Cons.prems(1) obtain ids2 where "paired ids2 ms" by (cases "msg_role m") auto
    from Cons.IH [OF this, of j] Cons.prems Suc show ?thesis by simp
  qed
qed simp

lemma paired_users: "list_all (\<lambda>m. msg_role m = RoleUser) us \<Longrightarrow> paired [] ms \<Longrightarrow> paired ids (us @ ms)"
  by (induction us arbitrary: ids) (auto intro: paired_any)

lemma paired_blank: "paired ids ms \<Longrightarrow> paired ids (blank_stale ms)"
proof (induction ms arbitrary: ids)
  case (Cons m ms)
  then show ?case
    by (cases "msg_role m") (auto simp: is_page_ctx_def user_msg_def)
qed simp

lemma paired_filter_users:
  assumes "paired ids ms" "\<And>m. m \<in> set ms \<Longrightarrow> \<not> P m \<Longrightarrow> msg_role m = RoleUser"
  shows "paired ids (filter P ms)"
  using assms
proof (induction ms arbitrary: ids)
  case (Cons m ms)
  have IH: "paired ids' ms \<Longrightarrow> paired ids' (filter P ms)" for ids'
    using Cons.IH Cons.prems(2) by simp
  show ?case
  proof (cases "P m")
    case True
    with Cons.prems(1) IH show ?thesis by (cases "msg_role m") auto
  next
    case False
    with Cons.prems have "msg_role m = RoleUser" by simp
    with Cons.prems(1) IH False show ?thesis by (auto intro: paired_any)
  qed
qed simp

lemma paired_drop_stale: "paired ids ms \<Longrightarrow> paired ids (drop_stale ms)"
  by (auto simp: drop_stale_def intro!: paired_filter_users paired_blank)

section \<open>What pruning keeps\<close>

lemma back_up_bounds: "1 \<le> k \<Longrightarrow> 1 \<le> back_up ms k \<and> back_up ms k \<le> k"
  by (induction ms k rule: back_up.induct) auto

lemma back_up_stop: "1 \<le> k \<Longrightarrow> back_up ms k = 1 \<or> msg_role (ms ! back_up ms k) \<noteq> RoleTool"
  by (induction ms k rule: back_up.induct) auto

lemma zip_tl_nth:
  assumes "(i, m) \<in> set (zip [1..<k] (take (k - 1) (tl ms)))"
  shows "m = ms ! i \<and> 1 \<le> i \<and> i < k \<and> i < length ms"
  using assms by (auto simp: set_zip nth_tl less_diff_conv)

lemma zip_tl_mem:
  assumes "1 \<le> i" "i < k" "k \<le> length ms"
  shows "(i, ms ! i) \<in> set (zip [1..<k] (take (k - 1) (tl ms)))"
  using assms by (auto simp: set_zip nth_tl intro!: exI [of _ "i - 1"])

lemma summary_zone_users:
  "\<forall>(i, m) \<in> set xs. i \<in> set kept \<longrightarrow> msg_role m = RoleUser \<Longrightarrow>
   list_all (\<lambda>m. msg_role m = RoleUser) (summary_zone kept parts xs)"
  by (induction kept parts xs rule: summary_zone.induct) (auto simp: progress_msg_def)

lemma summary_zone_mem:
  "m \<in> set (summary_zone kept parts xs) \<Longrightarrow>
   m \<in> snd ` set xs \<or> msg_role m = RoleUser \<and> prefix ''[Progress] '' (msg_content m)"
  by (induction kept parts xs rule: summary_zone.induct) (auto simp: progress_msg_def split: if_splits)

lemma summary_zone_kept: "(i, m) \<in> set xs \<Longrightarrow> i \<in> set kept \<Longrightarrow> m \<in> set (summary_zone kept parts xs)"
  by (induction kept parts xs rule: summary_zone.induct) (auto split: if_splits)

lemma kept_anchors_anchor: "i \<in> set (kept_anchors ms n) \<Longrightarrow> is_anchor (ms ! i)"
  by (auto simp: kept_anchors_def Let_def dest!: in_set_takeD)

lemma kept_anchors_all:
  assumes "length (filter is_anchor (take (length ms - n - 1) (tl ms))) \<le> 21"
    and "1 \<le> i" "i < length ms - n" "is_anchor (ms ! i)"
  shows "i \<in> set (kept_anchors ms n)"
proof -
  let ?k = "length ms - n" and ?as = "filter (\<lambda>i. is_anchor (ms ! i)) [1..<length ms - n]"
  have "map ((!) ms) [1..<?k] = take (?k - 1) (tl ms)"
    by (rule nth_equalityI) (auto simp: nth_tl)
  then have "map ((!) ms) ?as = filter is_anchor (take (?k - 1) (tl ms))"
    by (metis (no_types, lifting) comp_def filter_cong filter_map)
  then have "length ?as \<le> 21" using assms(1) by (metis length_map)
  then have "length ?as \<le> min 24 (14 + length ?as div 3)" by linarith
  with assms show ?thesis by (simp add: kept_anchors_def)
qed

lemma prune_messages_cut:
  assumes "recent + 1 < length ms0" "recent + 1 < length (drop_stale ms0)"
  obtains start zone where "1 \<le> start" "start \<le> length (drop_stale ms0) - recent"
    and "start = 1 \<or> msg_role (drop_stale ms0 ! start) \<noteq> RoleTool"
    and "zone = summary_zone (kept_anchors (drop_stale ms0) recent) []
                 (zip [1..<start] (take (start - 1) (tl (drop_stale ms0))))"
    and "prune_messages ms0 recent = hd (drop_stale ms0) # zone @ drop start (drop_stale ms0)"
    and "list_all (\<lambda>m. msg_role m = RoleUser) zone"
proof -
  let ?ms = "drop_stale ms0"
  define start where "start = back_up ?ms (length ?ms - recent)"
  define zone where "zone = summary_zone (kept_anchors ?ms recent) []
                 (zip [1..<start] (take (start - 1) (tl ?ms)))"
  have k: "1 \<le> length ?ms - recent" using assms by simp
  have "list_all (\<lambda>m. msg_role m = RoleUser) zone"
    unfolding zone_def
  proof (rule summary_zone_users, safe)
    fix i m
    assume "(i, m) \<in> set (zip [1..<start] (take (start - 1) (tl ?ms)))" "i \<in> set (kept_anchors ?ms recent)"
    from zip_tl_nth [OF this(1)] kept_anchors_anchor [OF this(2)]
    show "msg_role m = RoleUser" by (simp add: is_anchor_def)
  qed
  moreover have "prune_messages ms0 recent = hd ?ms # zone @ drop start ?ms"
    using assms by (simp add: prune_messages_def Let_def start_def zone_def)
  ultimately show ?thesis
    using back_up_bounds [OF k, of ?ms] back_up_stop [OF k, of ?ms] that start_def zone_def by metis
qed

text \<open>Pruning keeps the conversation acceptable to the providers: when every tool result
  follows its call with only other results in between, the same holds of the pruned
  conversation, whose tool results are all in its unpruned end.\<close>

theorem prune_keeps_results_paired:
  assumes "paired [] ms" "0 < recent"
  shows "paired [] (prune_messages ms recent)"
proof -
  let ?ms = "drop_stale ms"
  have p: "paired [] ?ms" using assms(1) by (rule paired_drop_stale)
  show ?thesis
  proof (cases "recent + 1 < length ms \<and> recent + 1 < length ?ms \<and> 0 < recent")
    case True
    then obtain start zone where st: "1 \<le> start" "start \<le> length ?ms - recent"
        "start = 1 \<or> msg_role (?ms ! start) \<noteq> RoleTool"
      and z: "zone = summary_zone (kept_anchors ?ms recent) [] (zip [1..<start] (take (start - 1) (tl ?ms)))"
      and pr: "prune_messages ms recent = hd ?ms # zone @ drop start ?ms"
      and u: "list_all (\<lambda>m. msg_role m = RoleUser) zone"
      using prune_messages_cut [of recent ms] by blast
    have ne: "?ms \<noteq> []" "start < length ?ms" using True st by auto
    show ?thesis
    proof (cases "start = 1")
      case True
      then have "prune_messages ms recent = ?ms"
        using ne by (simp add: pr z progress_msg_def drop_Suc)
      with p show ?thesis by simp
    next
      case False
      then have d: "paired [] (drop start ?ms)" using paired_drop [OF p ne(2)] st by blast
      have h: "msg_role (hd ?ms) \<noteq> RoleTool" using p ne by (cases ?ms) (auto split: role.splits)
      show ?thesis
        using paired_users [OF u d] h by (cases "msg_role (hd ?ms)") (auto simp: pr)
    qed
  next
    case False
    then show ?thesis using assms p by (auto simp: prune_messages_def Let_def)
  qed
qed

text \<open>What pruning keeps: the first message, the last \<open>recent\<close> ones in order and, while
  the middle part holds at most 21 of them, every anchor; all other messages of the result are
  progress summaries or come from the conversation.\<close>

theorem prune_keeps_context:
  fixes ms :: conversation
  defines "live \<equiv> drop_stale ms"
  assumes "recent + 1 < length ms" "recent + 1 < length live" "0 < recent"
  shows "hd (prune_messages ms recent) = hd live
    \<and> suffix (drop (length live - recent) live) (prune_messages ms recent)
    \<and> (length (filter is_anchor (take (length live - recent - 1) (tl live))) \<le> 21 \<longrightarrow>
         set (filter is_anchor live) \<subseteq> set (prune_messages ms recent))
    \<and> (\<forall>m\<in>set (prune_messages ms recent). m \<in> set live \<or>
         msg_role m = RoleUser \<and> prefix ''[Progress] '' (msg_content m))"
proof -
  obtain start zone where st: "1 \<le> start" "start \<le> length live - recent"
      and z: "zone = summary_zone (kept_anchors live recent) [] (zip [1..<start] (take (start - 1) (tl live)))"
      and pr: "prune_messages ms recent = hd live # zone @ drop start live"
    using prune_messages_cut [of recent ms] assms by blast
  have "m \<in> set (prune_messages ms recent)"
    if few: "length (filter is_anchor (take (length live - recent - 1) (tl live))) \<le> 21"
      and m: "m \<in> set live" "is_anchor m" for m
  proof -
    obtain i where i: "i < length live" "m = live ! i" using m by (auto simp: in_set_conv_nth)
    consider "i = 0" | "1 \<le> i" "i < start" | "start \<le> i" by linarith
    then show ?thesis
    proof cases
      case 1
      with i show ?thesis by (cases live) (simp_all add: pr)
    next
      case 2
      with i st m have "i \<in> set (kept_anchors live recent)" using kept_anchors_all [OF few, of i] by simp
      with 2 i st summary_zone_kept [OF zip_tl_mem [of i start live]] show ?thesis
        by (simp add: pr z)
    next
      case 3
      with i have "m = drop start live ! (i - start)" "i - start < length (drop start live)" by auto
      then have "m \<in> set (drop start live)" by (metis nth_mem)
      then show ?thesis by (simp add: pr)
    qed
  qed
  moreover have "suffix (drop (length live - recent) live) (drop start live)"
    using st by (metis le_add_diff_inverse2 drop_drop suffix_drop)
  then have "suffix (drop (length live - recent) live) (prune_messages ms recent)"
    by (simp add: pr suffix_ConsI suffix_appendI)
  moreover have "m \<in> set live \<or> msg_role m = RoleUser \<and> prefix ''[Progress] '' (msg_content m)"
    if "m \<in> set (prune_messages ms recent)" for m
  proof -
    have "set (take (start - 1) (tl live)) \<subseteq> set live"
      by (cases live) (auto dest: in_set_takeD)
    moreover have "live \<noteq> []" using assms by auto
    ultimately show ?thesis
      using that summary_zone_mem [of m "kept_anchors live recent" "[]"
          "zip [1..<start] (take (start - 1) (tl live))"] set_drop_subset [of start live]
      by (fastforce simp: pr z dest: set_zip_rightD)
  qed
  ultimately show ?thesis by (auto simp: pr)
qed

definition demo_conversation :: conversation where
  "demo_conversation =
     [user_msg ''Build it'', user_msg ''[PAGE_CTX] a'', user_msg ''[ANCHOR] t'',
      assistant_msg [] [\<lparr>tc_id = ''1'', tc_name = ''manage_layout'', tc_arguments = ''null''\<rparr>],
      tool_msg ''ok'' ''1'', user_msg ''[PAGE_CTX] b'',
      assistant_msg [] [\<lparr>tc_id = ''2'', tc_name = ''manage_layout'', tc_arguments = ''null''\<rparr>],
      tool_msg ''ok'' ''2'']"

theorem prune_keeps_results_paired_witness:
  "paired [] demo_conversation \<and> paired [] (prune_messages demo_conversation 1)"
proof -
  have "paired [] demo_conversation" by code_simp
  with prune_keeps_results_paired [OF this, of 1] show ?thesis by simp
qed

theorem prune_keeps_context_witness:
  "hd (prune_messages demo_conversation 1) = user_msg ''Build it''
   \<and> user_msg ''[ANCHOR] t'' \<in> set (prune_messages demo_conversation 1)"
proof -
  have l: "1 + 1 < length demo_conversation" "1 + 1 < length (drop_stale demo_conversation)"
      "length (filter is_anchor (take (length (drop_stale demo_conversation) - 1 - 1)
         (tl (drop_stale demo_conversation)))) \<le> 21"
      "filter is_anchor (drop_stale demo_conversation) = [user_msg ''[ANCHOR] t'']"
      "hd (drop_stale demo_conversation) = user_msg ''Build it''"
    by code_simp+
  with prune_keeps_context [OF l(1,2)] show ?thesis by simp
qed

end
