(* ===== verification/Regex.thy ===== *)
theory Regex
  imports Prelude
begin

text \<open>
  The expressions of package \<open>regexp\<close> that the modelled code compiles, with the
  leftmost-first semantics of its \<open>FindStringSubmatch\<close>: a matcher returns the ways an
  expression matches a prefix of the text, the preferred one first, each with the captured
  groups and the rest of the text. Bodies of stars in the code never match the empty text.
\<close>

datatype regex =
    REmpty
  | RChar "char \<Rightarrow> bool"
  | RSeq regex regex
  | RAlt regex regex
  | RStar regex
  | RGroup nat regex

type_synonym match_state = "(nat, string) gomap \<times> string"

fun star_match :: "nat \<Rightarrow> (match_state \<Rightarrow> match_state list) \<Rightarrow> match_state \<Rightarrow> match_state list" where
  "star_match 0 f x = [x]"
| "star_match (Suc n) f x =
     concat (map (star_match n f) (filter (\<lambda>y. length (snd y) < length (snd x)) (f x))) @ [x]"

primrec re_match :: "regex \<Rightarrow> match_state \<Rightarrow> match_state list" where
  "re_match REmpty x = [x]"
| "re_match (RChar p) x =
     (case snd x of [] \<Rightarrow> [] | c # s \<Rightarrow> if p c then [(fst x, s)] else [])"
| "re_match (RSeq a b) x = concat (map (re_match b) (re_match a x))"
| "re_match (RAlt a b) x = re_match a x @ re_match b x"
| "re_match (RStar a) x = star_match (length (snd x)) (re_match a) x"
| "re_match (RGroup n a) x =
     map (\<lambda>y. (alist_put n (take (length (snd x) - length (snd y)) (snd x)) (fst y), snd y)) (re_match a x)"

text \<open>Match at the start of the text: the groups and the rest.\<close>

definition re_at :: "regex \<Rightarrow> string \<Rightarrow> match_state option" where
  "re_at r s = (case re_match r ([], s) of [] \<Rightarrow> None | m # _ \<Rightarrow> Some m)"

definition group :: "match_state \<Rightarrow> nat \<Rightarrow> string" where
  "group m n = (case map_of (fst m) n of Some s \<Rightarrow> s | None \<Rightarrow> [])"

section \<open>Building expressions\<close>

definition re_seq :: "regex list \<Rightarrow> regex" where
  "re_seq rs = foldr RSeq rs REmpty"

definition re_lit :: "string \<Rightarrow> regex" where
  "re_lit s = re_seq (map (\<lambda>c. RChar (\<lambda>x. x = c)) s)"

definition re_opt :: "regex \<Rightarrow> regex" where
  "re_opt r = RAlt r REmpty"

definition re_plus :: "regex \<Rightarrow> regex" where
  "re_plus r = RSeq r (RStar r)"

definition re_alts :: "string list \<Rightarrow> regex" where
  "re_alts ss = (case ss of [] \<Rightarrow> REmpty | s # ss \<Rightarrow> foldl (\<lambda>r t. RAlt r (re_lit t)) (re_lit s) ss)"

definition is_lower :: "char \<Rightarrow> bool" where
  "is_lower c = (97 \<le> (of_char c :: nat) \<and> (of_char c :: nat) \<le> 122)"

definition is_upper :: "char \<Rightarrow> bool" where
  "is_upper c = (65 \<le> (of_char c :: nat) \<and> (of_char c :: nat) \<le> 90)"

text \<open>The classes \<open>\s\<close> and \<open>\w\<close>.\<close>

definition re_blank :: "char \<Rightarrow> bool" where
  "re_blank c = (c \<in> {CHR 0x09, CHR 0x0A, CHR 0x0C, CHR 0x0D, CHR '' ''})"

definition word_char :: "char \<Rightarrow> bool" where
  "word_char c = (is_lower c \<or> is_upper c \<or> is_digit c \<or> c = CHR ''_'')"

text \<open>A match splits the text: what was consumed, then the rest.\<close>

lemma star_match_suffix:
  assumes f: "\<And>x y. y \<in> set (f x) \<Longrightarrow> suffix (snd y) (snd x)"
  shows "y \<in> set (star_match n f x) \<Longrightarrow> suffix (snd y) (snd x)"
proof (induction n arbitrary: x)
  case (Suc n)
  then consider "y = x" | z where "z \<in> set (f x)" "y \<in> set (star_match n f z)" by auto
  then show ?case using f Suc.IH suffix_order.trans by cases blast+
qed simp

lemma re_match_suffix: "y \<in> set (re_match r x) \<Longrightarrow> suffix (snd y) (snd x)"
proof (induction r arbitrary: x y)
  case (RChar p)
  then show ?case by (cases "snd x") (auto split: if_splits simp: suffix_ConsI)
next
  case (RSeq r1 r2)
  then obtain z where "z \<in> set (re_match r1 x)" "y \<in> set (re_match r2 z)" by auto
  then show ?case using RSeq.IH suffix_order.trans by blast
next
  case (RStar r)
  show ?case
    by (rule star_match_suffix [of "re_match r", OF RStar.IH]) (use RStar.prems in simp_all)
qed auto

text \<open>Expressions that consume at least one character.\<close>

fun consumes :: "regex \<Rightarrow> bool" where
  "consumes (RChar p) = True"
| "consumes (RSeq a b) = (consumes a \<or> consumes b)"
| "consumes (RAlt a b) = (consumes a \<and> consumes b)"
| "consumes (RGroup n a) = consumes a"
| "consumes _ = False"

lemma re_match_consumes:
  "consumes r \<Longrightarrow> y \<in> set (re_match r x) \<Longrightarrow> length (snd y) < length (snd x)"
proof (induction r arbitrary: x y)
  case (RChar p)
  then show ?case by (cases "snd x") (auto split: if_splits)
next
  case (RSeq r1 r2)
  then obtain z where z: "z \<in> set (re_match r1 x)" "y \<in> set (re_match r2 z)" by auto
  have "length (snd z) \<le> length (snd x)" "length (snd y) \<le> length (snd z)"
    using re_match_suffix [OF z(1)] re_match_suffix [OF z(2)] by (auto dest: suffix_length_le)
  with RSeq z show ?case by fastforce
qed auto

lemma re_at_consumes: "consumes r \<Longrightarrow> re_at r s = Some m \<Longrightarrow> length (snd m) < length s"
  by (auto simp: re_at_def split: list.splits dest!: re_match_consumes [of _ m "([], s)"])

end
