(* ===== verification/Extract.thy ===== *)
theory Extract
  imports Regex Progress "HOL-Library.List_Lexorder" "HOL-Library.Char_ord"
begin

text \<open>
  The scanners of \<open>prompt/extract.go\<close> that summarise a stylesheet, a page or a script for the
  language model. A position of a Go loop is an index into the text, and the loop variable
  advances as the code advances it.
\<close>

section \<open>Stylesheets\<close>

definition name_char :: "char \<Rightarrow> bool" where
  "name_char c = (c = CHR ''-'' \<or> word_char c)"

text \<open>How many characters of the text close the open braces, the last brace included.\<close>

fun match_braces :: "nat \<Rightarrow> string \<Rightarrow> nat option" where
  "match_braces 0 s = Some 0"
| "match_braces (Suc d) [] = None"
| "match_braces (Suc d) (c # s) =
     map_option Suc (match_braces (if c = CHR ''{'' then Suc (Suc d) else if c = CHR ''}'' then d else Suc d) s)"

definition short_value :: "string \<Rightarrow> string" where
  "short_value v = (if 50 < length v then take 50 v @ ''...'' else v)"

definition css_property :: "string \<Rightarrow> string list" where
  "css_property line0 =
     (let line = trim_space line0
      in if line = [] \<or> prefix ''/*'' line then []
         else case cut_char (CHR '':'') line of
                (_, None) \<Rightarrow> []
              | (p, Some v) \<Rightarrow> [trim_space p @ '': '' @ short_value (trim_space v)])"

definition extract_top_properties :: "string \<Rightarrow> nat \<Rightarrow> string list" where
  "extract_top_properties block n = take n (concat (map css_property (split_char (CHR '';'') block)))"

definition css_entry :: "string \<Rightarrow> string \<Rightarrow> string" where
  "css_entry cls block =
     (let props = extract_top_properties block 4
      in if props \<noteq> [] then cls @ '' { '' @ join '', '' props @ '' }'' else cls)"

text \<open>The block after position \<open>j\<close>: its text and the position after its closing brace.\<close>

definition css_block :: "string \<Rightarrow> nat \<Rightarrow> (string \<times> nat) option" where
  "css_block css j =
     (case cut_char (CHR ''{'') (drop j css) of
        (_, None) \<Rightarrow> None
      | (sel, Some rest) \<Rightarrow>
          (case match_braces 1 rest of None \<Rightarrow> None
           | Some n \<Rightarrow> Some (take (n - 1) rest, j + length sel + 1 + n)))"

lemma css_block_pos: "css_block css j = Some (b, pos) \<Longrightarrow> j < pos"
  by (auto simp: css_block_def split: prod.splits option.splits)

function css_scan :: "string \<Rightarrow> nat \<Rightarrow> string list \<Rightarrow> string list" where
  "css_scan css i seen =
     (if length css \<le> i then []
      else let name = takeWhile name_char (drop (i + 1) css); j = i + 1 + length name
           in if css ! i \<noteq> CHR ''.'' \<or> name = [] then css_scan css (i + 1) seen
              else let cls = CHR ''.'' # name
                   in if cls \<in> set seen then css_scan css (j + 1) seen
                      else case css_block css j of
                             None \<Rightarrow> css_scan css (j + 1) (cls # seen)
                           | Some (block, pos) \<Rightarrow>
                               css_entry cls block # css_scan css (pos + 1) (cls # seen))"
  by pat_completeness auto
termination
  by (relation "measure (\<lambda>(css, i, seen). length css - i)") (auto dest!: css_block_pos)

declare css_scan.simps [simp del]

definition cap_text :: "nat \<Rightarrow> string \<Rightarrow> string" where
  "cap_text n s = (if n < length s then take n s @ [CHR 0x0A] @ ''...'' else s)"

definition extract_css_reference :: "string \<Rightarrow> string" where
  "extract_css_reference css =
     (let entries = css_scan css 0 []
      in if entries = [] then [] else cap_text 6000 (join [CHR 0x0A] entries))"

text \<open>All class names of a stylesheet, each once.\<close>

function class_names :: "string \<Rightarrow> nat \<Rightarrow> string list \<Rightarrow> string list" where
  "class_names css i acc =
     (if length css \<le> i then acc
      else let name = takeWhile name_char (drop (i + 1) css)
           in if css ! i \<noteq> CHR ''.'' \<or> name = [] then class_names css (i + 1) acc
              else class_names css (i + 1 + length name + 1)
                     (if name \<in> set acc then acc else acc @ [name]))"
  by pat_completeness auto
termination by (relation "measure (\<lambda>(css, i, acc). length css - i)") auto

declare class_names.simps [simp del]

definition class_family :: "string \<Rightarrow> string" where
  "class_family cls =
     (let p = takeWhile (\<lambda>c. c \<noteq> CHR ''-'' \<and> c \<noteq> CHR ''_'') cls
      in if p \<noteq> [] then p else cls)"

definition utility_prefixes :: "string list" where
  "utility_prefixes =
     [''is'', ''has'', ''no'', ''mt'', ''mb'', ''ml'', ''mr'', ''mx'', ''my'', ''pt'', ''pb'', ''pl'', ''pr'',
      ''px'', ''py'', ''text'', ''bg'', ''flex'', ''grid'', ''gap'', ''w'', ''h'', ''min'', ''max'']"

text \<open>The entries are sorted, so the order in which Go visits the map of groups is of no account.\<close>

definition extract_component_groups :: "string \<Rightarrow> string" where
  "extract_component_groups css =
     (let names = class_names css 0 [];
          members = (\<lambda>f. filter (\<lambda>c. class_family c = f) names);
          families = filter (\<lambda>f. 2 \<le> length (members f) \<and> f \<notin> set utility_prefixes)
                       (remdups (map class_family names))
      in join [CHR 0x0A] (sort (map (\<lambda>f. f @ '': '' @ join '', '' (map ((#) (CHR ''.'')) (members f))) families)))"

section \<open>Scripts\<close>

definition ident_start :: "char \<Rightarrow> bool" where
  "ident_start c = (is_lower c \<or> is_upper c \<or> c = CHR ''_'' \<or> c = CHR ''$'')"

definition ident_char :: "char \<Rightarrow> bool" where
  "ident_char c = (word_char c \<or> c = CHR ''$'')"

definition re_ident :: regex where
  "re_ident = RSeq (RChar ident_start) (RStar (RChar ident_char))"

definition re_cap_ident :: regex where
  "re_cap_ident = RSeq (RChar is_upper) (RStar (RChar ident_char))"

abbreviation re_spaces :: regex where "re_spaces \<equiv> RStar (RChar re_blank)"
abbreviation re_spaces1 :: regex where "re_spaces1 \<equiv> re_plus (RChar re_blank)"

definition re_params :: "nat \<Rightarrow> regex" where
  "re_params n = re_seq [re_lit ''('', RGroup n (RStar (RChar (\<lambda>c. c \<noteq> CHR '')''))), re_lit '')'']"

definition re_export :: regex where
  "re_export = re_opt (re_seq [re_lit ''export'', re_spaces1])"

definition re_var :: regex where
  "re_var = re_alts [''const'', ''let'', ''var'']"

definition re_function_opt :: regex where
  "re_function_opt = re_opt (re_seq [re_lit ''function'', re_spaces])"

definition func_decl_re :: regex where
  "func_decl_re = re_seq [re_export, re_lit ''function'', re_spaces1, RGroup 1 re_ident, re_spaces, re_params 2]"

definition const_func_re :: regex where
  "const_func_re = re_seq [re_export, re_var, re_spaces1, RGroup 1 re_ident, re_spaces, re_lit ''='',
     re_spaces, re_function_opt, re_params 2]"

definition const_arrow_re :: regex where
  "const_arrow_re = re_seq [re_export, re_var, re_spaces1, RGroup 1 re_ident, re_spaces, re_lit ''='',
     re_spaces, RAlt (re_params 2) (RGroup 3 re_ident), re_spaces, re_lit ''=>'']"

definition class_re :: regex where
  "class_re = re_seq [re_export, re_lit ''class'', re_spaces1, RGroup 1 re_cap_ident]"

definition obj_decl_re :: regex where
  "obj_decl_re = re_seq [re_var, re_spaces1, RGroup 1 re_cap_ident, re_spaces, re_lit ''='', re_spaces, re_lit ''{'']"

definition method_re :: regex where
  "method_re = re_seq [re_spaces1, RGroup 1 re_ident, re_spaces, re_params 2]"

definition method_prop_re :: regex where
  "method_prop_re = re_seq [re_spaces1, RGroup 1 re_ident, re_spaces, re_lit '':'', re_spaces,
     re_function_opt, re_params 2]"

definition obj_method_re :: regex where
  "obj_method_re = re_seq [RGroup 1 re_cap_ident, re_lit ''.'', RGroup 2 re_ident, re_spaces, re_lit ''='',
     re_spaces, re_function_opt, re_params 3]"

lemma obj_method_consumes [simp]: "consumes obj_method_re"
  by (simp add: obj_method_re_def re_seq_def re_cap_ident_def)

text \<open>All matches of the last expression, which is anchored at the start of a line.\<close>

function obj_methods :: "bool \<Rightarrow> string \<Rightarrow> match_state list" where
  "obj_methods at_line s =
     (case (if at_line then re_at obj_method_re s else None) of
        Some m \<Rightarrow> m # obj_methods False (snd m)
      | None \<Rightarrow> (case s of [] \<Rightarrow> [] | c # s \<Rightarrow> obj_methods (c = CHR 0x0A) s))"
  by pat_completeness auto
termination
  by (relation "measure (\<lambda>(b, s). length s)") (auto split: if_splits dest: re_at_consumes [OF obj_method_consumes])

declare obj_methods.simps [simp del]

definition dash :: string where
  "dash = '' '' @ [CHR 0xE2, CHR 0x80, CHR 0x94] @ '' ''"

definition comment_for_line :: "string list \<Rightarrow> nat \<Rightarrow> string" where
  "comment_for_line ls i =
     (if i = 0 then []
      else let prev = trim_space (ls ! (i - 1))
           in if prefix ''//'' prev then trim_space (trim_prefix prev ''//'') else [])"

definition with_comment :: "string list \<Rightarrow> nat \<Rightarrow> string \<Rightarrow> string" where
  "with_comment ls i e = (let c = comment_for_line ls i in if c \<noteq> [] then e @ dash @ c else e)"

definition signature :: "string \<Rightarrow> string \<Rightarrow> string" where
  "signature name params = name @ ''('' @ params @ '')''"

type_synonym js_state = "string list \<times> string list"

text \<open>An entry under a name that was not seen before.\<close>

definition js_add :: "string \<Rightarrow> string \<Rightarrow> js_state \<Rightarrow> js_state" where
  "js_add key e x = (if key \<in> set (fst x) then x else (key # fst x, snd x @ [e]))"

definition brace_depth :: "string \<Rightarrow> int" where
  "brace_depth s = int (count_list s (CHR ''{'')) - int (count_list s (CHR ''}''))"

fun body_end :: "string list \<Rightarrow> int \<Rightarrow> nat \<Rightarrow> nat \<Rightarrow> nat" where
  "body_end [] d k e = e"
| "body_end (l # ls) d k e = (if 0 < d then body_end ls (d + brace_depth l) (k + 1) k else e)"

definition js_method :: "string list \<Rightarrow> string \<Rightarrow> nat \<Rightarrow> js_state \<Rightarrow> js_state" where
  "js_method ls obj k x =
     (case (case re_at method_re (ls ! k) of Some m \<Rightarrow> Some m | None \<Rightarrow> re_at method_prop_re (ls ! k)) of
        None \<Rightarrow> x
      | Some m \<Rightarrow>
          (let key = obj @ ''.'' @ group m 1
           in js_add key (with_comment ls k (signature key (group m 2))) x))"

definition js_object :: "string list \<Rightarrow> nat \<Rightarrow> string \<Rightarrow> js_state \<Rightarrow> js_state" where
  "js_object ls i obj x =
     (if obj \<in> set (fst x) then x
      else let e = body_end (drop (i + 1) ls) (brace_depth (trim_space (ls ! i))) (i + 1) i
           in fold (js_method ls obj) [i + 1..<e + 1] (obj # fst x, snd x))"

definition js_line :: "string list \<Rightarrow> nat \<Rightarrow> js_state \<Rightarrow> js_state" where
  "js_line ls i x =
     (let t = trim_space (ls ! i); add = \<lambda>m params. js_add (group m 1) (with_comment ls i (signature (group m 1) params)) x
      in case re_at func_decl_re t of Some m \<Rightarrow> add m (group m 2)
      | None \<Rightarrow> (case re_at const_func_re t of Some m \<Rightarrow> add m (group m 2)
      | None \<Rightarrow> (case re_at const_arrow_re t of
          Some m \<Rightarrow> add m (if group m 2 = [] then group m 3 else group m 2)
      | None \<Rightarrow> (case re_at class_re t of Some m \<Rightarrow> js_add (group m 1) (''class '' @ group m 1) x
      | None \<Rightarrow> (case re_at obj_decl_re t of Some m \<Rightarrow> js_object ls i (group m 1) x
      | None \<Rightarrow> x)))))"

definition extract_js_reference :: "string \<Rightarrow> string" where
  "extract_js_reference js =
     (let ls = split_char (CHR 0x0A) js;
          x = fold (js_line ls) [0..<length ls] ([], []);
          x = fold (\<lambda>m. let key = group m 1 @ ''.'' @ group m 2 in js_add key (signature key (group m 3)))
                (obj_methods True js) x
      in if snd x = [] then [] else cap_text 2500 (join [CHR 0x0A] (snd x)))"

section \<open>Pages\<close>

text \<open>
  The scanner finds its positions in the lower-cased text and uses them in the text itself.
  \<open>low\<close> is \<open>strings.ToLower\<close>, whose Unicode tables are outside the model; it may change the
  number of bytes. A slice out of range panics, which is \<open>None\<close>.
\<close>

definition class_marker :: string where
  "class_marker = ''class='' @ [CHR 0x22]"

text \<open>The class attribute of an opening tag: panic, none, or its value.\<close>

definition tag_classes :: "(string \<Rightarrow> string) \<Rightarrow> string \<Rightarrow> string option option" where
  "tag_classes low tag_text =
     (case str_index (low tag_text) class_marker of None \<Rightarrow> Some None
      | Some ci \<Rightarrow>
          (if length tag_text < ci + 7 then None
           else (case cut_char (CHR 0x22) (drop (ci + 7) tag_text) of
                   (_, None) \<Rightarrow> Some None | (v, Some _) \<Rightarrow> Some (Some v))))"

definition tag_entry :: "string \<Rightarrow> string \<Rightarrow> string" where
  "tag_entry tag classes = CHR ''<'' # tag @ '' '' @ class_marker @ classes @ [CHR 0x22] @ ''>''"

definition add_part :: "string \<Rightarrow> string option \<Rightarrow> string list \<Rightarrow> string list" where
  "add_part tag v parts =
     (case v of None \<Rightarrow> parts
      | Some classes \<Rightarrow>
          (if classes = [] \<or> tag_entry tag classes \<in> set parts then parts
           else parts @ [tag_entry tag classes]))"

function scan_tag ::
  "(string \<Rightarrow> string) \<Rightarrow> string \<Rightarrow> string \<Rightarrow> nat \<Rightarrow> string list \<Rightarrow> string list option" where
  "scan_tag low html tag start parts =
     (if length (low html) < start then None
      else case str_index (drop start (low html)) (CHR ''<'' # tag) of None \<Rightarrow> Some parts
      | Some idx \<Rightarrow>
          (if length html < start + idx then None
           else case str_index (drop (start + idx) html) ''>'' of None \<Rightarrow> Some parts
           | Some n \<Rightarrow>
               (case tag_classes low (take (n + 1) (drop (start + idx) html)) of None \<Rightarrow> None
                | Some v \<Rightarrow> scan_tag low html tag (start + idx + n + 1) (add_part tag v parts))))"
  by pat_completeness auto
termination
  by (relation "measure (\<lambda>(low, html, tag, start, parts). length (low html) + 1 - start)") auto

declare scan_tag.simps [simp del]

definition structure_tags :: "string list" where
  "structure_tags = [''section'', ''article'', ''aside'', ''main'', ''div'', ''form'', ''nav'']"

definition scan_tags :: "(string \<Rightarrow> string) \<Rightarrow> string \<Rightarrow> string list option" where
  "scan_tags low html =
     fold (\<lambda>tag r. case r of None \<Rightarrow> None | Some parts \<Rightarrow> scan_tag low html tag 0 parts)
       structure_tags (Some [])"

definition extract_page_structure :: "(string \<Rightarrow> string) \<Rightarrow> string \<Rightarrow> string option" where
  "extract_page_structure low html =
     map_option (\<lambda>parts. join [CHR 0x0A] (take 15 parts)) (scan_tags low html)"

section \<open>Facts\<close>

definition css_rule :: "string \<times> string \<Rightarrow> string" where
  "css_rule r = CHR ''.'' # fst r @ CHR ''{'' # snd r @ ''}''"

definition plain_rule :: "string \<times> string \<Rightarrow> bool" where
  "plain_rule r =
     (fst r \<noteq> [] \<and> list_all name_char (fst r) \<and> list_all (\<lambda>c. c \<noteq> CHR ''{'' \<and> c \<noteq> CHR ''}'') (snd r))"

lemma match_braces_plain:
  "list_all (\<lambda>c. c \<noteq> CHR ''{'' \<and> c \<noteq> CHR ''}'') b \<Longrightarrow> match_braces 1 (b @ CHR ''}'' # r) = Some (Suc (length b))"
  by (induction b) auto

lemma brace_not_name: "list_all name_char n \<Longrightarrow> CHR ''{'' \<notin> set n \<and> CHR ''.'' \<notin> set n"
  by (induction n) (auto simp: name_char_def word_char_def is_lower_def is_upper_def is_digit_def)

lemma takeWhile_name: "list_all name_char n \<Longrightarrow> takeWhile name_char (n @ CHR ''{'' # r) = n"
  by (induction n) (auto simp: name_char_def word_char_def is_lower_def is_upper_def is_digit_def)

lemma cut_char_first: "c \<notin> set a \<Longrightarrow> cut_char c (a @ c # b) = (a, Some b)"
  by (simp add: cut_char_def)

text \<open>One rule of the stylesheet, found at position \<open>i\<close> under a new class name.\<close>

lemma css_scan_rule:
  assumes r: "plain_rule r" and at: "drop i css = css_rule r @ rest" and new: "CHR ''.'' # fst r \<notin> set seen"
  shows "css_scan css i seen =
    css_entry (CHR ''.'' # fst r) (snd r)
      # css_scan css (i + length (css_rule r) + 1) ((CHR ''.'' # fst r) # seen)"
proof -
  obtain n b where rb: "r = (n, b)" by force
  have i: "i < length css" using at by (metis append_is_Nil_conv css_rule_def drop_all list.discI not_le)
  have hd: "css ! i = CHR ''.''" using at i by (simp add: css_rule_def flip: Cons_nth_drop_Suc)
  have d1: "drop (i + 1) css = n @ CHR ''{'' # b @ CHR ''}'' # rest"
    using at i rb by (simp add: css_rule_def flip: Cons_nth_drop_Suc)
  have name: "takeWhile name_char (drop (i + 1) css) = n"
    unfolding d1 using r by (simp add: rb plain_rule_def takeWhile_name)
  have "drop (i + 1 + length n) css = CHR ''{'' # b @ CHR ''}'' # rest"
    using arg_cong [OF d1, of "drop (length n)"] by (simp add: add.commute)
  then have blk: "css_block css (i + 1 + length n) = Some (b, i + 1 + length n + 1 + Suc (length b))"
    using r cut_char_first [of "CHR ''{''" "[]"] match_braces_plain [of b rest]
    by (simp add: css_block_def rb plain_rule_def)
  show ?thesis
    using r new by (subst css_scan.simps)
      (simp add: i hd name [simplified] blk [simplified] rb plain_rule_def Let_def css_rule_def not_le add.assoc)
qed

text \<open>The stylesheet summary lists every rule: for rules with different class names, each
  followed by one more character (a new line), it has one entry per rule, in order.\<close>

theorem css_reference_complete:
  assumes "list_all plain_rule rs" "distinct (map fst rs)"
  shows "css_scan (concat (map (\<lambda>r. css_rule r @ [CHR 0x0A]) rs)) 0 []
    = map (\<lambda>r. css_entry (CHR ''.'' # fst r) (snd r)) rs"
proof -
  have "css_scan css i seen = map (\<lambda>r. css_entry (CHR ''.'' # fst r) (snd r)) rs"
    if "drop i css = concat (map (\<lambda>r. css_rule r @ [CHR 0x0A]) rs)" "list_all plain_rule rs"
      "distinct (map fst rs)" "\<forall>r\<in>set rs. CHR ''.'' # fst r \<notin> set seen" for css i seen rs
    using that
  proof (induction rs arbitrary: i seen)
    case Nil
    then show ?case by (simp add: css_scan.simps)
  next
    case (Cons r rs)
    let ?i = "i + length (css_rule r) + 1"
    have "drop ?i css = drop (length (css_rule r) + 1) (drop i css)" by (simp add: add.commute add.left_commute)
    then have "drop ?i css = concat (map (\<lambda>r. css_rule r @ [CHR 0x0A]) rs)" using Cons.prems(1) by simp
    moreover have "css_scan css i seen = css_entry (CHR ''.'' # fst r) (snd r)
        # css_scan css ?i ((CHR ''.'' # fst r) # seen)"
      by (rule css_scan_rule) (use Cons.prems in auto)
    moreover have "\<forall>q\<in>set rs. CHR ''.'' # fst q \<notin> set ((CHR ''.'' # fst r) # seen)"
      using Cons.prems(3,4) by (simp add: image_iff ball_Un) (metis (no_types, lifting))
    ultimately show ?case using Cons.IH [of ?i "(CHR ''.'' # fst r) # seen"] Cons.prems(2,3) by simp
  qed
  from this [of 0 "concat (map (\<lambda>r. css_rule r @ [CHR 0x0A]) rs)" rs "[]"] assms show ?thesis by simp
qed

lemma css_scan_no_dot: "CHR ''.'' \<notin> set (drop i css) \<Longrightarrow> css_scan css i seen = []"
proof (induction "length css - i" arbitrary: i)
  case 0
  then show ?case by (simp add: css_scan.simps)
next
  case (Suc n)
  then have i: "i < length css" by simp
  then have d: "drop i css = css ! i # drop (i + 1) css" by (simp add: Cons_nth_drop_Suc)
  have "css_scan css (i + 1) seen = []" using Suc.hyps Suc.prems by (auto simp: d)
  moreover have "css ! i \<noteq> CHR ''.''" using Suc.prems by (auto simp: d)
  ultimately show ?case using i by (subst css_scan.simps) (simp add: Let_def not_le)
qed

text \<open>In a minified stylesheet, where a rule follows the one before at once, the scanner
  steps over the dot of the next class: of two rules only the first is listed.\<close>

theorem css_reference_skips_minified:
  assumes "plain_rule r" "plain_rule q" "CHR ''.'' \<notin> set (snd q)"
  shows "css_scan (css_rule r @ css_rule q) 0 [] = [css_entry (CHR ''.'' # fst r) (snd r)]"
proof -
  let ?css = "css_rule r @ css_rule q"
  have "drop (length (css_rule r) + 1) ?css = fst q @ CHR ''{'' # snd q @ ''}''"
    by (simp add: css_rule_def [of q])
  then have "CHR ''.'' \<notin> set (drop (length (css_rule r) + 1) ?css)"
    using assms(2,3) brace_not_name [of "fst q"] by (auto simp: plain_rule_def)
  then have "css_scan ?css (length (css_rule r) + 1) seen = []" for seen by (rule css_scan_no_dot)
  with css_scan_rule [OF assms(1), of 0 ?css "css_rule q" "[]"] show ?thesis by simp
qed

theorem css_reference_complete_witness:
  "css_scan (concat (map (\<lambda>r. css_rule r @ [CHR 0x0A]) [(''a'', ''color:red''), (''b'', ''x:y'')])) 0 []
   = [''.a { color: red }'', ''.b { x: y }'']"
proof -
  have "list_all plain_rule [(''a'', ''color:red''), (''b'', ''x:y'')]"
    "distinct (map fst [(''a'', ''color:red''), (''b'', ''x:y'')])" by code_simp+
  from css_reference_complete [OF this] show ?thesis by (simp only:) code_simp
qed

theorem css_reference_skips_minified_witness:
  "css_scan (css_rule (''a'', ''color:red'') @ css_rule (''b'', ''x:y'')) 0 [] = [''.a { color: red }'']"
proof -
  have "plain_rule (''a'', ''color:red'')" "plain_rule (''b'', ''x:y'')"
    "CHR ''.'' \<notin> set (snd (''b'', ''x:y''))" by code_simp+
  from css_reference_skips_minified [OF this] show ?thesis by (simp only:) code_simp
qed

lemma str_index_bound: "str_index s pat = Some i \<Longrightarrow> i + length pat \<le> length s"
proof (induction s pat arbitrary: i rule: str_index.induct)
  case (2 c cs pat)
  then show ?case by (auto split: if_splits dest: prefix_length_le)
qed (auto split: if_splits)

lemma tag_classes_no_panic:
  assumes "length (low t) = length t"
  shows "tag_classes low t \<noteq> None"
proof (cases "str_index (low t) class_marker")
  case (Some ci)
  then have "\<not> length t < ci + 7" using str_index_bound [OF Some] assms by (simp add: class_marker_def)
  with Some show ?thesis by (simp add: tag_classes_def split: prod.splits option.splits)
qed (simp add: tag_classes_def)

lemma scan_tag_no_panic:
  assumes low: "\<And>s. length (low s) = length s" and start: "start \<le> length html"
  shows "scan_tag low html tag start parts \<noteq> None"
  using start
proof (induction "length html + 1 - start" arbitrary: start parts rule: less_induct)
  case less
  show ?case
  proof (cases "str_index (drop start (low html)) (CHR ''<'' # tag)")
    case None
    with less.prems low show ?thesis by (subst scan_tag.simps) simp
  next
    case idx: (Some idx)
    then have i: "start + idx \<le> length html"
      using str_index_bound [OF idx] low less.prems by simp
    show ?thesis
    proof (cases "str_index (drop (start + idx) html) ''>''")
      case None
      with idx i less.prems low show ?thesis by (subst scan_tag.simps) simp
    next
      case n: (Some n)
      let ?s = "start + idx + n + 1"
      obtain v where v: "tag_classes low (take (n + 1) (drop (start + idx) html)) = Some v"
        using tag_classes_no_panic low by blast
      have "?s \<le> length html" using str_index_bound [OF n] i by simp
      with less.hyps [of ?s "add_part tag v parts"] have "scan_tag low html tag ?s (add_part tag v parts) \<noteq> None"
        using less.prems by simp
      with idx n i v less.prems low show ?thesis by (subst scan_tag.simps) simp
    qed
  qed
qed

text \<open>Summarising the structure of a page never indexes out of range when lower-casing
  keeps the number of bytes of a text.\<close>

theorem page_structure_no_panic:
  assumes "\<And>s. length (low s) = length s"
  shows "extract_page_structure low html \<noteq> None"
proof -
  have "fold (\<lambda>tag r. case r of None \<Rightarrow> None | Some parts \<Rightarrow> scan_tag low html tag 0 parts) tags (Some ps) \<noteq> None"
    for tags ps
  proof (induction tags arbitrary: ps)
    case (Cons t tags)
    from scan_tag_no_panic [OF assms, of 0 html t ps] obtain qs where "scan_tag low html t 0 ps = Some qs"
      by auto
    with Cons.IH [of qs] show ?case by simp
  qed simp
  then show ?thesis by (simp add: extract_page_structure_def scan_tags_def)
qed

theorem page_structure_no_panic_witness:
  "extract_page_structure (map lower_char) ''<div>'' \<noteq> None"
  by (rule page_structure_no_panic) simp

text \<open>Lower-casing on ASCII letters and on U+023A, whose lower case U+2C65 has a byte more.\<close>

fun lower_023a :: "string \<Rightarrow> string" where
  "lower_023a (a # b # s) =
     (if a = CHR 0xC8 \<and> b = CHR 0xBA then [CHR 0xE2, CHR 0xB1, CHR 0xA5] @ lower_023a s
      else lower_char a # lower_023a (b # s))"
| "lower_023a s = map lower_char s"

text \<open>A page with a letter whose lower case is longer makes the scanner index past the end
  of the text and panic: six times U+023A before a tag are enough.\<close>

theorem page_structure_panics:
  "extract_page_structure lower_023a (concat (replicate 6 [CHR 0xC8, CHR 0xBA]) @ ''<div>'') = None"
  by code_simp

end
