(* ===== verification/Anchors.thy ===== *)
theory Anchors
  imports Conversation Extract Stages
begin

text \<open>
  The anchor messages of \<open>brain/anchors.go\<close>: after a tool call that created something, a
  summary that survives pruning is added to the conversation, and after a page the context for
  the next one. The store \<open>w.anchors\<close> exists only during a build. Arguments stand for
  \<open>strings.ToLower\<close> where byte positions matter (\<open>low\<close>) and for the order in which Go visits
  a map (\<open>ord\<close>).
\<close>

section \<open>The store\<close>

record anchor_store =
  an_tables :: "(string, string) gomap"
  an_apis :: "(string, string) gomap"
  an_css :: string
  an_js :: string
  an_last_endpoints :: string
  an_last_tables :: string
  an_layout :: string
  an_groups :: string
  an_pages :: "(string, string) gomap"
  an_notes :: "string list"
  an_built :: nat
  an_seen :: "string list"

definition new_anchor_store :: anchor_store where
  "new_anchor_store = \<lparr>an_tables = [], an_apis = [], an_css = [], an_js = [], an_last_endpoints = [],
     an_last_tables = [], an_layout = [], an_groups = [], an_pages = [], an_notes = [], an_built = 0,
     an_seen = []\<rparr>"

type_synonym anchored = "anchor_store option \<times> conversation"

definition on_store :: "(anchor_store \<Rightarrow> anchor_store) \<Rightarrow> anchored \<Rightarrow> anchored" where
  "on_store f x = (map_option f (fst x), snd x)"

definition append_anchor_if_new :: "string \<Rightarrow> anchored \<Rightarrow> anchored" where
  "append_anchor_if_new s x =
     (case fst x of
        Some an \<Rightarrow>
          (if s \<in> set (an_seen an) then x
           else (Some (an\<lparr>an_seen := s # an_seen an\<rparr>), snd x @ [user_msg s]))
      | None \<Rightarrow>
          (if list_ex (\<lambda>m. msg_role m = RoleUser \<and> msg_content m = s) (snd x) then x
           else (None, snd x @ [user_msg s])))"

section \<open>Summaries\<close>

definition json_strs :: "json list \<Rightarrow> string list" where
  "json_strs xs = concat (map (\<lambda>x. case x of JStr s \<Rightarrow> [s] | _ \<Rightarrow> []) xs)"

definition anchor_column :: "json \<Rightarrow> string list" where
  "anchor_column c =
     (case c of
        JObj m \<Rightarrow> (if get_str m ''name'' \<noteq> [] then [get_str m ''name'' @ '' '' @ get_str m ''type''] else [])
      | _ \<Rightarrow> [])"

definition opt_list :: "'a list option \<Rightarrow> 'a list" where
  "opt_list x = (case x of None \<Rightarrow> [] | Some xs \<Rightarrow> xs)"

definition build_schema_anchor :: "jobj \<Rightarrow> string" where
  "build_schema_anchor args =
     (let name = get_str args ''table_name'';
          cols = concat (map anchor_column (opt_list (get_arr_ok args ''columns'')));
          fts = json_strs (opt_list (get_arr_ok args ''searchable_columns''))
      in if name = [] then []
         else (''[ANCHOR] Table '' @ [CHR 0x27]) @ name @ ([CHR 0x27] @ '': id (auto), '') @ join '', '' cols @ '', created_at (auto).''
              @ (if fts \<noteq> [] then '' FTS: '' @ join '', '' fts @ ''.'' else []))"

definition crud_anchor :: "string \<Rightarrow> string \<Rightarrow> jobj \<Rightarrow> string" where
  "crud_anchor path table args =
     ''[ANCHOR] CRUD /api/'' @ path @ '' (table: '' @ table
     @ ''). GET ?q=&sort=&order=, POST, PUT/:id, DELETE/:id. Frontend: use query params (?col=val), not filters=[{...}].''
     @ (if get_bool args ''requires_auth'' then '' Auth: required.'' else [])
     @ (if get_bool args ''public_read'' then '' Public read: yes.'' else [])"

definition auth_anchor :: "string \<Rightarrow> string \<Rightarrow> jobj \<Rightarrow> string" where
  "auth_anchor path table args =
     (let pw = get_str args ''password_column''; pw = (if pw = [] then ''password'' else pw)
      in ''[ANCHOR] Auth /api/'' @ path @ '': login(POST), register(POST), me(GET+Bearer). Table: '' @ table
         @ ''. FIELD NAMES for register/login body: {'' @ go_quote (get_str args ''username_column'')
         @ ('': '' @ [CHR 0x22] @ ''...'' @ [CHR 0x22] @ '', '') @ go_quote pw @ ('': '' @ [CHR 0x22] @ ''...'' @ [CHR 0x22] @ ''}.''))"

definition llm_anchor :: "string \<Rightarrow> jobj \<Rightarrow> string" where
  "llm_anchor path args =
     ''[ANCHOR] LLM POST /api/'' @ path @ ''/chat (SSE) and POST /api/'' @ path
     @ (''/complete (JSON). No CRUD '' @ [CHR 0xE2, CHR 0x80, CHR 0x94]
         @ '' use a separate create_api endpoint if page also needs data listing.'')
     @ (if map_of args ''streaming'' = Some (JBool False)
        then '' Plan says streaming=false: page JS should use /complete (JSON), not /chat (SSE).''
        else '' Plan says streaming=true: page JS should use /chat (SSE) with EventSource pattern.'')"

definition build_endpoint_anchor :: "jobj \<Rightarrow> string" where
  "build_endpoint_anchor args =
     (let action = get_str args ''action''; path = get_str args ''path''; table = get_str args ''table_name''
      in if path = [] then []
         else if action = ''create_api'' then crud_anchor path table args
         else if action = ''create_auth'' then auth_anchor path table args
         else if action = ''create_websocket'' then
           ''[ANCHOR] WebSocket /api/'' @ path @ ''/ws. Pure relay, echo suppression.''
           @ (if get_str args ''room_column'' \<noteq> [] then '' Rooms via ?room=.'' else [])
         else if action = ''create_stream'' then ''[ANCHOR] SSE /api/'' @ path @ ''/stream.''
         else if action = ''create_upload'' then
           ''[ANCHOR] Upload POST /api/'' @ path @ ''/upload -> {url, filename, size, type}.''
         else if action = ''create_llm'' then llm_anchor path args
         else ''[ANCHOR] Endpoint '' @ action @ '' /api/'' @ path @ ''.'')"

definition layout_anchor :: "string \<Rightarrow> string" where
  "layout_anchor template =
     (let lower = to_lower template;
          parts = map snd (filter (\<lambda>(tag, _). contains lower tag)
            [(''<header'', ''has <header>''), (''<nav'', ''has <nav>''), (''<footer'', ''has <footer>'')])
      in if parts = []
         then (''[ANCHOR] Layout is chromeless (no header/nav/footer). Pages fill the viewport ''
         @ [CHR 0xE2, CHR 0x80, CHR 0x94] @ '' do NOT add <header>, <nav>, or <footer> in page content.'')
         else ''[ANCHOR] Layout template provides: '' @ join '', '' parts
              @ (''. Do NOT duplicate these in page content '' @ [CHR 0xE2, CHR 0x80, CHR 0x94]
         @ '' they are already in the layout.''))"

text \<open>The patterns recognised in a page, by keyword and label; the labels are all different.\<close>

definition section_hints :: "(string \<times> string) list" where
  "section_hints =
     [(''hero'', ''hero''), (''banner'', ''banner''), (''feature'', ''features''), (''pricing'', ''pricing''),
      (''testimonial'', ''testimonials''), (''faq'', ''FAQ''), (''cta'', ''CTA''),
      (''contact'', ''contact form''), (''footer'', ''footer''), (''sidebar'', ''sidebar''),
      (''grid'', ''grid layout''), (''carousel'', ''carousel''), (''slider'', ''slider''),
      (''gallery'', ''gallery''), (''timeline'', ''timeline''), (''stats'', ''stats''),
      (''metric'', ''metrics''), (''dashboard'', ''dashboard''), (''table'', ''data table''),
      (''form'', ''form''), (''card'', ''cards''), (''list'', ''list''), (''modal'', ''modal''),
      (''tab'', ''tabs''), (''accordion'', ''accordion'')]"

definition build_page_design_note :: "string \<Rightarrow> string \<Rightarrow> string" where
  "build_page_design_note path html =
     (let patterns = map snd (filter (\<lambda>(k, _). contains (to_lower html) k) section_hints)
      in if patterns = [] then [] else path @ '': '' @ join '', '' (take 6 patterns))"

text \<open>The tables behind a page's endpoints; of two endpoints with a path the last one counts.\<close>

definition path_table :: "endpoint_spec list \<Rightarrow> string \<Rightarrow> string" where
  "path_table eps path =
     (case map_of (rev (map (\<lambda>e. (ep_path e, ep_table e)) eps)) path of Some t \<Rightarrow> t | None \<Rightarrow> [])"

definition collect_page_tables :: "page_spec \<Rightarrow> endpoint_spec list \<Rightarrow> string" where
  "collect_page_tables pg eps =
     (let paths = filter (\<lambda>p. p \<noteq> []) (map extract_crud_path (pg_endpoints pg))
      in join '','' (sort (remdups (filter (\<lambda>t. t \<noteq> []) (map (path_table eps) paths)))))"

definition family_name :: "string \<Rightarrow> string list" where
  "family_name line0 =
     (let line = trim_space line0
      in if line = [] then []
         else case str_index line '':'' of
                Some (Suc i) \<Rightarrow> [CHR ''.'' # trim_space (take (Suc i) line)]
              | _ \<Rightarrow>
                  (if prefix ''.'' line then
                     (case str_index line '','' of Some (Suc i) \<Rightarrow> [trim_space (take (Suc i) line)]
                      | _ \<Rightarrow> [trim_space line])
                   else []))"

definition extract_component_family_names :: "string \<Rightarrow> string" where
  "extract_component_family_names groups =
     (let names = concat (map family_name (split_char (CHR 0x0A) groups))
      in if names = [] then groups else join '', '' names)"

section \<open>Context for the next page\<close>

abbreviation nl :: string where "nl \<equiv> [CHR 0x0A]"

definition next_page :: "build_progress option \<Rightarrow> page_spec option" where
  "next_page bp =
     (case bp of None \<Rightarrow> None
      | Some b \<Rightarrow> find (\<lambda>pg. pg_path pg \<notin> set (bp_pages_done b)) (p_pages (bp_plan b)))"

definition color_line :: "design_system \<Rightarrow> string" where
  "color_line ds =
     (let colors = opt_list (ds_colors ds)
      in if colors = [] then []
         else ''Color tokens: '' @ join '', '' (sort (map (\<lambda>(n, h). n @ ''='' @ h) colors))
              @ ''. Always use var(--color-*), never hardcode.'' @ nl)"

definition design_reminder :: "anchor_store \<Rightarrow> build_progress option \<Rightarrow> string" where
  "design_reminder an bp =
     (if an_built an = 0 \<or> an_built an mod 3 \<noteq> 0 then []
      else case bp of None \<Rightarrow> []
      | Some b \<Rightarrow>
          (case p_design (bp_plan b) of None \<Rightarrow> []
           | Some ds \<Rightarrow>
               (if ds_intent ds = [] then []
                else ''### Design Reminder'' @ nl @ ''Design intent: '' @ ds_intent ds @ nl
                  @ (if p_app_type (bp_plan b) \<noteq> [] then ''App type: '' @ p_app_type (bp_plan b) @ nl else [])
                  @ (if an_notes an \<noteq> [] then ''Patterns used so far: '' @ join '' | '' (an_notes an) @ nl else [])
                  @ color_line ds
                  @ (if an_groups an \<noteq> [] \<and> 4 < an_built an
                     then ''Component families: '' @ extract_component_family_names (an_groups an)
                          @ ('' '' @ [CHR 0xE2, CHR 0x80, CHR 0x94] @ '' reuse these, don'' @ [CHR 0x27]
         @ ''t invent new ones.'' @ [CHR 0x0A]) else [])
                  @ ''Maintain this aesthetic consistently on the remaining pages.'' @ nl @ nl)))"

definition quality_nudge :: string where
  "quality_nudge = (''**Quality check:** Before moving to the next item, verify the page you just built:''
         @ '' Does it have clear visual hierarchy? Do interactive elements work? Is it''
         @ '' consistent with the design intent and earlier pages? If anything is off, patch it''
         @ '' now.'' @ [CHR 0x0A, CHR 0x0A])"

definition component_block :: "anchor_store \<Rightarrow> string" where
  "component_block an =
     (if an_groups an \<noteq> [] \<and> an_built an \<le> 4
      then ''### Component Families (use these class groups together)'' @ nl @ an_groups an @ nl @ nl else [])"

definition pattern_block :: "(string list \<Rightarrow> string list) \<Rightarrow> anchor_store \<Rightarrow> string" where
  "pattern_block ord an =
     (if an_pages an \<noteq> [] \<and> 1 \<le> an_built an \<and> an_built an \<le> 6
      then ''### Established HTML Patterns (match this structure)'' @ nl
           @ concat (map (\<lambda>p. ''From '' @ p @ '':'' @ nl @ the (map_of (an_pages an) p) @ nl)
                       (take 2 (ord (map fst (an_pages an))))) @ nl
      else [])"

definition section_text :: "section_spec \<Rightarrow> string" where
  "section_text s = sec_name s @ (if sec_purpose s \<noteq> [] then '' ('' @ sec_purpose s @ '')'' else [])"

definition next_page_block :: "page_spec option \<Rightarrow> string" where
  "next_page_block np =
     (case np of None \<Rightarrow> []
      | Some pg \<Rightarrow>
          ''## Next Page: '' @ pg_path pg @ ('' '' @ [CHR 0xE2, CHR 0x80, CHR 0x94] @ '' '') @ pg_title pg @ nl
          @ (if pg_purpose pg \<noteq> [] then ''Purpose: '' @ pg_purpose pg @ nl else [])
          @ (if pg_sections pg \<noteq> [] then ''Sections: '' @ join '', '' (map section_text (pg_sections pg)) @ nl else [])
          @ (if pg_endpoints pg \<noteq> [] then ''Uses: '' @ join '', '' (pg_endpoints pg) @ nl else [])
          @ (if pg_notes pg \<noteq> [] then ''Notes: '' @ pg_notes pg @ nl else []) @ nl)"

definition rules_line :: string where
  "rules_line = (''**Rules:** Prefer var(--color-*) tokens for primary colors. No''
         @ '' TODOs/placeholders/Lorem ipsum. Every interactive element must work.'' @ [CHR 0x0A, CHR 0x0A])"

definition summary_block :: "(string list \<Rightarrow> string list) \<Rightarrow> string \<Rightarrow> (string, string) gomap \<Rightarrow> string" where
  "summary_block ord title m =
     (if m = [] then []
      else title @ nl
           @ concat (map (\<lambda>k. ''- '' @ trim_prefix (the (map_of m k)) ''[ANCHOR] '' @ nl) (ord (map fst m))) @ nl)"

definition reference_blocks :: "(string list \<Rightarrow> string list) \<Rightarrow> anchor_store \<Rightarrow> string" where
  "reference_blocks ord an =
     summary_block ord ''### Tables (column reference)'' (an_tables an)
     @ (if an_js an \<noteq> [] then ''### JS API (use exact signatures)'' @ nl @ cap_text 1500 (an_js an) @ nl @ nl else [])
     @ summary_block ord ''### Available Endpoints'' (an_apis an)"

definition build_page_context_refresh ::
  "(string list \<Rightarrow> string list) \<Rightarrow> build_progress option \<Rightarrow> anchor_store \<Rightarrow> anchor_store \<times> string" where
  "build_page_context_refresh ord bp an =
     (let np = next_page bp;
          eps = (case np of Some pg \<Rightarrow> join '','' (pg_endpoints pg) | None \<Rightarrow> []);
          tbls = (case (np, bp) of (Some pg, Some b) \<Rightarrow> collect_page_tables pg (p_endpoints (bp_plan b)) | _ \<Rightarrow> []);
          changed = (eps \<noteq> an_last_endpoints an \<or> tbls \<noteq> an_last_tables an);
          text = quality_nudge
            @ (if an_layout an \<noteq> [] then an_layout an @ nl @ nl else [])
            @ design_reminder an bp @ component_block an @ pattern_block ord an
            @ next_page_block np @ rules_line
            @ (if changed then reference_blocks ord an else [])
            @ (if an_css an \<noteq> []
               then (''### CSS Classes (prefer these '' @ [CHR 0xE2, CHR 0x80, CHR 0x94]
         @ '' add new ones to global CSS via manage_files patch if needed)'' @ [CHR 0x0A])
                    @ an_css an @ nl @ nl else [])
      in (an\<lparr>an_last_endpoints := eps, an_last_tables := tbls\<rparr>, ''[PAGE_CTX]'' @ nl @ text))"

section \<open>Injection\<close>

definition inject_css :: "string \<Rightarrow> string \<Rightarrow> anchored \<Rightarrow> anchored" where
  "inject_css fn content x =
     (let ref = extract_css_reference content; groups = extract_component_groups content
      in if \<not> suffix ''.css'' fn \<or> ref = [] then x
         else on_store (\<lambda>an. an\<lparr>an_css := ref, an_groups := (if groups \<noteq> [] then groups else an_groups an)\<rparr>)
                (append_anchor_if_new
                   (''[ANCHOR] CSS design vocabulary ('' @ fn
                    @ ''). Prefer var(--color-*) tokens for primary colors.'' @ nl @ ref) x))"

definition inject_js :: "string \<Rightarrow> string \<Rightarrow> jobj \<Rightarrow> anchored \<Rightarrow> anchored" where
  "inject_js fn content args x =
     (let ref = extract_js_reference content
      in if \<not> suffix ''.js'' fn \<or> get_str args ''scope'' \<noteq> ''global'' \<or> ref = [] then x
         else on_store (\<lambda>an. an\<lparr>an_js := ref\<rparr>)
                (append_anchor_if_new
                   (''[ANCHOR] JS API ('' @ fn @ ('', global) '' @ [CHR 0xE2, CHR 0x80, CHR 0x94] @ '' use these exact signatures in page JS:''
         @ [CHR 0x0A]) @ ref) x))"

definition inject_schema :: "jobj \<Rightarrow> anchored \<Rightarrow> anchored" where
  "inject_schema args x =
     (let summary = build_schema_anchor args; name = get_str args ''table_name''
      in if summary = [] then x
         else on_store (\<lambda>an. if name \<noteq> [] then an\<lparr>an_tables := alist_put name summary (an_tables an)\<rparr> else an)
                (append_anchor_if_new summary x))"

definition inject_endpoint :: "jobj \<Rightarrow> anchored \<Rightarrow> anchored" where
  "inject_endpoint args x =
     (let summary = build_endpoint_anchor args; path = get_str args ''path''
      in if summary = [] then x
         else on_store (\<lambda>an. if path \<noteq> [] then an\<lparr>an_apis := alist_put (''/api/'' @ path) summary (an_apis an)\<rparr> else an)
                (append_anchor_if_new summary x))"

definition inject_layout :: "jobj \<Rightarrow> anchored \<Rightarrow> anchored" where
  "inject_layout args x =
     (let template = get_str args ''template''; summary = layout_anchor template
      in if template = [] then x
         else on_store (\<lambda>an. an\<lparr>an_layout := summary\<rparr>) (append_anchor_if_new summary x))"

text \<open>The page structure is only read while fewer than three are kept; reading it may panic.\<close>

definition inject_page ::
  "(string \<Rightarrow> string) \<Rightarrow> (string list \<Rightarrow> string list) \<Rightarrow> build_progress option \<Rightarrow> jobj \<Rightarrow>
   anchor_store \<Rightarrow> conversation \<Rightarrow> anchored option" where
  "inject_page low ord bp args an ms =
     (let path = get_str args ''path''; content = get_str args ''content'';
          structure = (if content \<noteq> [] \<and> length (an_pages an) < 3
                       then extract_page_structure low content else Some [])
      in case structure of None \<Rightarrow> None
      | Some st \<Rightarrow>
          (let an = (if st \<noteq> [] then an\<lparr>an_pages := alist_put path st (an_pages an)\<rparr> else an);
               note = (if content \<noteq> [] \<and> path \<noteq> [] then build_page_design_note path content else []);
               an = (if note \<noteq> [] then an\<lparr>an_notes := an_notes an @ [note]\<rparr> else an);
               (an, ctx) = build_page_context_refresh ord bp (an\<lparr>an_built := Suc (an_built an)\<rparr>)
           in Some (Some an, ms @ [user_msg ctx])))"

definition inject_anchors ::
  "(string \<Rightarrow> string) \<Rightarrow> (string list \<Rightarrow> string list) \<Rightarrow> build_progress option \<Rightarrow> string \<Rightarrow> jobj \<Rightarrow>
   anchored \<Rightarrow> anchored option" where
  "inject_anchors low ord bp tool args x =
     (let action = get_str args ''action''; fn = get_str args ''filename''; content = get_str args ''content''
      in if tool = ''manage_files'' then
           (if (action \<noteq> ''save'' \<and> action \<noteq> []) \<or> content = [] then Some x
            else Some (inject_js fn content args (inject_css fn content x)))
         else if tool = ''manage_schema'' then
           Some (if action = ''create'' then inject_schema args x else x)
         else if tool = ''manage_endpoints'' then
           Some (if prefix ''create_'' action then inject_endpoint args x else x)
         else if tool = ''manage_layout'' then
           Some (if action = ''save'' then inject_layout args x else x)
         else if tool = ''manage_pages'' then
           (case fst x of None \<Rightarrow> Some x
            | Some an \<Rightarrow> (if action = ''save'' then inject_page low ord bp args an (snd x) else Some x))
         else Some x)"

section \<open>Facts\<close>

lemma on_store_snd [simp]: "snd (on_store f x) = snd x"
  by (simp add: on_store_def)

text \<open>Injection appends user messages only.\<close>

definition extends_by_users :: "conversation \<Rightarrow> conversation \<Rightarrow> bool" where
  "extends_by_users ms ms' \<longleftrightarrow> (\<exists>us. ms' = ms @ us \<and> list_all (\<lambda>m. msg_role m = RoleUser) us)"

lemma extends_refl [simp]: "extends_by_users ms ms"
  by (simp add: extends_by_users_def)

lemma extends_trans: "extends_by_users a b \<Longrightarrow> extends_by_users b c \<Longrightarrow> extends_by_users a c"
  by (auto simp: extends_by_users_def)

lemma append_anchor_extends [simp]: "extends_by_users (snd x) (snd (append_anchor_if_new s x))"
  by (auto simp: append_anchor_if_new_def extends_by_users_def split: option.splits)

lemma inject_extends [simp]:
  "extends_by_users (snd x) (snd (inject_css fn c x))" "extends_by_users (snd x) (snd (inject_js fn c args x))"
  "extends_by_users (snd x) (snd (inject_schema args x))" "extends_by_users (snd x) (snd (inject_endpoint args x))"
  "extends_by_users (snd x) (snd (inject_layout args x))"
  by (simp_all add: inject_css_def inject_js_def inject_schema_def inject_endpoint_def inject_layout_def Let_def)

lemma inject_page_extends:
  "inject_page low ord bp args an ms = Some y \<Longrightarrow> extends_by_users ms (snd y)"
  by (auto simp: inject_page_def Let_def extends_by_users_def split: option.splits prod.splits if_splits)

lemma inject_anchors_extends:
  assumes "inject_anchors low ord bp tool args x = Some y"
  shows "extends_by_users (snd x) (snd y)"
proof -
  have js: "extends_by_users (snd x) (snd (inject_js fn c args (inject_css fn c x)))" for fn c
    using extends_trans inject_extends by blast
  show ?thesis
    using assms by (auto simp: inject_anchors_def Let_def js inject_page_extends split: if_splits option.splits)
qed

section \<open>No anchor twice\<close>

text \<open>During a build, the store has seen every anchor of the conversation, and none is there
  twice.\<close>

definition anchor_texts :: "conversation \<Rightarrow> string list" where
  "anchor_texts ms = map msg_content (filter is_anchor ms)"

definition anchors_ok :: "anchored \<Rightarrow> bool" where
  "anchors_ok x =
     (case fst x of None \<Rightarrow> False
      | Some an \<Rightarrow> distinct (anchor_texts (snd x)) \<and> set (anchor_texts (snd x)) \<subseteq> set (an_seen an))"

lemma anchors_ok_append [inv_intros]: "anchors_ok x \<Longrightarrow> anchors_ok (append_anchor_if_new s x)"
  by (auto simp: anchors_ok_def append_anchor_if_new_def anchor_texts_def split: option.splits)

lemma anchors_ok_store [inv_intros]:
  "anchors_ok x \<Longrightarrow> (\<And>an. an_seen (f an) = an_seen an) \<Longrightarrow> anchors_ok (on_store f x)"
  by (auto simp: anchors_ok_def on_store_def split: option.splits)

lemma anchors_ok_inject [inv_intros]:
  "anchors_ok x \<Longrightarrow> anchors_ok (inject_css fn c x)" "anchors_ok x \<Longrightarrow> anchors_ok (inject_js fn c args x)"
  "anchors_ok x \<Longrightarrow> anchors_ok (inject_schema args x)" "anchors_ok x \<Longrightarrow> anchors_ok (inject_endpoint args x)"
  "anchors_ok x \<Longrightarrow> anchors_ok (inject_layout args x)"
  by (auto simp: inject_css_def inject_js_def inject_schema_def inject_endpoint_def inject_layout_def Let_def
      intro!: inv_intros)

lemma refresh_seen: "build_page_context_refresh ord bp an = (an', t) \<Longrightarrow>
    an_seen an' = an_seen an \<and> prefix ''[PAGE_CTX]'' t"
  by (auto simp: build_page_context_refresh_def Let_def)

lemma page_ctx_no_anchor: "prefix ''[PAGE_CTX]'' t \<Longrightarrow> \<not> is_anchor (user_msg t)"
  by (auto simp: is_anchor_def prefix_def)

lemma anchors_ok_page:
  assumes "anchors_ok (Some an, ms)" "inject_page low ord bp args an ms = Some y"
  shows "anchors_ok y"
proof -
  from assms(2) obtain an1 an' t where b: "build_page_context_refresh ord bp an1 = (an', t)"
      "an_seen an1 = an_seen an" "y = (Some an', ms @ [user_msg t])"
    by (auto simp: inject_page_def Let_def split: option.splits prod.splits if_splits)
  from refresh_seen [OF b(1)] page_ctx_no_anchor [of t] assms(1) b show ?thesis
    by (simp add: anchors_ok_def anchor_texts_def)
qed

text \<open>During a build no anchor is injected twice: every injection keeps the anchors of the
  conversation different and known to the store.\<close>

theorem injected_anchors_distinct:
  assumes "anchors_ok x" "inject_anchors low ord bp tool args x = Some y"
  shows "anchors_ok y"
proof -
  obtain an where x: "fst x = Some an" using assms(1) by (auto simp: anchors_ok_def split: option.splits)
  have "anchors_ok (inject_js fn c args (inject_css fn c x))" for fn c
    using assms(1) by (intro inv_intros)
  with assms x anchors_ok_page [of an "snd x" low ord bp args y] show ?thesis
    by (cases x) (auto simp: inject_anchors_def Let_def intro: inv_intros split: if_splits)
qed

theorem injected_anchors_distinct_witness:
  "anchors_ok (the (inject_anchors (map lower_char) (\<lambda>xs. xs) None ''manage_layout''
     [(''action'', JStr ''save''), (''template'', JStr ''<nav>'')] (Some new_anchor_store, [])))"
proof -
  have ok: "anchors_ok (Some new_anchor_store, [])"
    by (simp add: anchors_ok_def anchor_texts_def new_anchor_store_def)
  have "inject_anchors (map lower_char) (\<lambda>xs. xs) None ''manage_layout''
     [(''action'', JStr ''save''), (''template'', JStr ''<nav>'')] (Some new_anchor_store, [])
     = Some (inject_layout [(''action'', JStr ''save''), (''template'', JStr ''<nav>'')] (Some new_anchor_store, []))"
    by (simp add: inject_anchors_def get_str_def get_str_ok_def)
  from injected_anchors_distinct [OF ok this] show ?thesis using \<open>_ = Some _\<close> by simp
qed


end
