(* ===== verification/ToolLoop.thy ===== *)
theory ToolLoop
  imports Anchors "HOL-Library.Multiset"
begin

text \<open>
  The language-model session of \<open>brain/tool_loop.go\<close>: the calls with their retries and the
  fallback provider, the execution of the tool calls of a response, and the loop that
  \<open>runToolLoop\<close> drives until the model stops, a limit is reached or the pipeline pauses.

  The environment holds what lies outside: the providers, the registered tools, the order in
  which concurrent tool executions take effect (each is atomic here), the cancellation of the
  context, and the texts of decoding errors. Bus events and telemetry are left out; the
  messages saved to \<open>ho_chat_messages\<close> are kept.
\<close>

section \<open>Requests and providers\<close>

record llm_response =
  rs_content :: string
  rs_calls :: "tool_call list"
  rs_tokens :: int
  rs_model :: string
  rs_stop :: string

record llm_request =
  lr_model :: string
  lr_system :: string
  lr_messages :: conversation
  lr_tools :: "string list"
  lr_max_tokens :: int

text \<open>A provider answers its \<open>n\<close>-th call with an error or a response.\<close>

type_synonym provider = "nat \<Rightarrow> llm_request \<Rightarrow> string + llm_response"

text \<open>When the context of the session ends: never before or at this call, during the call, or in
  the pause after it.\<close>

datatype cancel = Live | DuringCall | DuringPause string

definition max_llm_retries :: nat where "max_llm_retries = 3"
definition max_continuations :: nat where "max_continuations = 5"

definition is_connection_error :: "string \<Rightarrow> bool" where
  "is_connection_error e =
     (contains e ''send request:'' \<and> \<not> contains e ''API error''
      \<and> \<not> contains e ''timeout'' \<and> \<not> contains e ''context deadline exceeded'')"

text \<open>Seconds to wait after failed attempt \<open>a\<close>.\<close>

definition backoff :: "string \<Rightarrow> nat \<Rightarrow> nat" where
  "backoff e a =
     (if contains e ''API error 429'' \<or> contains e ''API error 529'' \<or> contains e ''overloaded''
      then 15 * (a + 1)
      else if contains e ''timeout'' \<or> contains e ''context deadline exceeded'' then 5 * (a + 1)
      else 2 * (a + 1))"

text \<open>\<open>callWithRetryOnProvider\<close> with \<open>k\<close> attempts left: the calls made so far, the waits in
  seconds, and the outcome.\<close>

primrec attempts ::
  "provider \<Rightarrow> (nat \<Rightarrow> cancel) \<Rightarrow> llm_request \<Rightarrow> nat \<Rightarrow> nat \<Rightarrow> nat \<Rightarrow> string \<Rightarrow>
   nat \<times> nat list \<times> (string + llm_response)" where
  "attempts p cx req 0 a n err = (n, [], Inl err)"
| "attempts p cx req (Suc k) a n err =
     (case p n req of
        Inr r \<Rightarrow> (Suc n, [], Inr r)
      | Inl e \<Rightarrow>
          (if cx n = DuringCall \<or> is_connection_error e then (Suc n, [], Inl e)
           else case cx n of DuringPause ce \<Rightarrow> (Suc n, [], Inl ce)
           | _ \<Rightarrow> let (m, ws, r) = attempts p cx req k (Suc a) (Suc n) e in (m, backoff e a # ws, r)))"

definition call_on_provider ::
  "provider \<Rightarrow> (nat \<Rightarrow> cancel) \<Rightarrow> llm_request \<Rightarrow> nat \<Rightarrow> nat \<times> nat list \<times> (string + llm_response)" where
  "call_on_provider p cx req n = attempts p cx req max_llm_retries 0 n []"

text \<open>Whether the context has ended by call \<open>n\<close>.\<close>

definition ended :: "(nat \<Rightarrow> cancel) \<Rightarrow> nat \<Rightarrow> nat \<Rightarrow> bool" where
  "ended cx m n = list_ex (\<lambda>i. cx i \<noteq> Live) [m..<n]"

definition call_with_retry ::
  "provider \<Rightarrow> (provider \<times> string) option \<Rightarrow> (nat \<Rightarrow> cancel) \<Rightarrow> llm_request \<Rightarrow> nat \<Rightarrow>
   nat \<times> nat list \<times> (string + llm_response)" where
  "call_with_retry p fallback cx req n =
     (case call_on_provider p cx req n of
        (m, ws, Inr r) \<Rightarrow> (m, ws, Inr r)
      | (m, ws, Inl e) \<Rightarrow>
          (if ended cx n m then (m, ws, Inl e)
           else case fallback of None \<Rightarrow> (m, ws, Inl e)
           | Some (q, model) \<Rightarrow>
               (case call_on_provider q cx (req\<lparr>lr_model := model\<rparr>) m of
                  (m', ws', Inr r) \<Rightarrow> (m', ws @ ws', Inr r)
                | (m', ws', Inl _) \<Rightarrow> (m', ws @ ws', Inl e))))"

section \<open>Session state and environment\<close>

record session =
  ss_db :: site_db
  ss_history :: conversation
  ss_progress :: "build_progress option"
  ss_anchors :: "anchor_store option"
  ss_cost :: "cost_tracker option"
  ss_pause :: bool
  ss_llm_calls :: nat

datatype tool_outcome = ToolReturns string | ToolFails string | ToolPanics string

record tool_env =
  te_now :: string
  te_provider :: provider
  te_fallback :: "(provider \<times> string) option"
  te_cancel :: "nat \<Rightarrow> cancel"
  te_registered :: "string \<Rightarrow> bool"
  te_exec :: "string \<Rightarrow> jobj \<Rightarrow> site_db \<Rightarrow> site_db \<times> tool_outcome"
  te_schedule :: "nat list \<Rightarrow> nat list"
  te_max_size :: "string \<Rightarrow> nat option"
  te_summarizer :: "string \<Rightarrow> (string \<Rightarrow> string) option"
  te_json_error :: "string \<Rightarrow> string"
  te_lower :: "string \<Rightarrow> string"
  te_map_order :: "string list \<Rightarrow> string list"
  te_size_override :: nat
  te_updater :: "(build_progress option \<Rightarrow> string \<Rightarrow> string) option"

definition save_chat :: "llm_message \<Rightarrow> session \<Rightarrow> session" where
  "save_chat m s = s\<lparr>ss_history := ss_history s @ [m]\<rparr>"

definition publish_message :: "string \<Rightarrow> session \<Rightarrow> session" where
  "publish_message t s = save_chat (assistant_msg t []) s"

section \<open>Checkpoints\<close>

definition json_str :: "string \<Rightarrow> string" where
  "json_str s = [CHR 0x22] @ json_body s @ [CHR 0x22]"

definition json_field :: "string \<Rightarrow> string \<Rightarrow> string" where
  "json_field k v = json_str k @ '':'' @ v"

definition role_name :: "role \<Rightarrow> string" where
  "role_name r = (case r of RoleSystem \<Rightarrow> ''system'' | RoleUser \<Rightarrow> ''user''
     | RoleAssistant \<Rightarrow> ''assistant'' | RoleTool \<Rightarrow> ''tool'')"

definition marshal_call :: "tool_call \<Rightarrow> string" where
  "marshal_call c = ''{'' @ join '','' [json_field ''id'' (json_str (tc_id c)),
     json_field ''name'' (json_str (tc_name c)), json_field ''arguments'' (json_str (tc_arguments c))] @ ''}''"

definition marshal_message :: "llm_message \<Rightarrow> string" where
  "marshal_message m = ''{'' @ join '',''
     ([json_field ''role'' (json_str (role_name (msg_role m))), json_field ''content'' (json_str (msg_content m))]
      @ (if msg_calls m \<noteq> [] then [json_field ''tool_calls'' (''['' @ join '','' (map marshal_call (msg_calls m)) @ '']'')] else [])
      @ (if msg_call_id m \<noteq> [] then [json_field ''tool_call_id'' (json_str (msg_call_id m))] else [])) @ ''}''"

definition marshal_messages :: "conversation \<Rightarrow> string" where
  "marshal_messages ms = ''['' @ join '','' (map marshal_message ms) @ '']''"

definition save_checkpoint :: "string \<Rightarrow> conversation \<Rightarrow> session \<Rightarrow> session" where
  "save_checkpoint now ms s =
     s\<lparr>ss_db := on_row (\<lambda>r. r\<lparr>pr_checkpoint := Some (marshal_messages ms), pr_updated_at := Some now\<rparr>) (ss_db s)\<rparr>"

section \<open>Tool results\<close>

text \<open>The arguments of a call; an array of one element stands for the element.\<close>

definition object_of :: "json \<Rightarrow> jobj option" where
  "object_of v = (case v of JObj m \<Rightarrow> Some m | JNull \<Rightarrow> Some [] | _ \<Rightarrow> None)"

definition parse_tool_args :: "string \<Rightarrow> jobj option" where
  "parse_tool_args s =
     (case unmarshal s of None \<Rightarrow> None
      | Some (JArr [v]) \<Rightarrow> if prefix ''['' s then object_of v else None
      | Some v \<Rightarrow> object_of v)"

text \<open>A field of a decoded struct: names match without case, the last binding counts.\<close>

definition struct_field :: "jobj \<Rightarrow> string \<Rightarrow> json option" where
  "struct_field m k = map_of (rev (map (\<lambda>(n, v). (to_lower n, v)) m)) k"

text \<open>\<open>summaryResult\<close>: success, data and error of a result that decodes.\<close>

definition parse_summary_result :: "string \<Rightarrow> (bool \<times> json \<times> string) option" where
  "parse_summary_result s =
     (case unmarshal_object s of None \<Rightarrow> None
      | Some m \<Rightarrow>
          (case (struct_field m ''success'', struct_field m ''error'') of
             (su, er) \<Rightarrow>
               (if su \<in> {None, Some JNull, Some (JBool True), Some (JBool False)}
                   \<and> (case er of None \<Rightarrow> True | Some JNull \<Rightarrow> True | Some (JStr _) \<Rightarrow> True | _ \<Rightarrow> False)
                then Some (su = Some (JBool True),
                           case struct_field m ''data'' of Some v \<Rightarrow> v | None \<Rightarrow> JNull,
                           case er of Some (JStr e) \<Rightarrow> e | _ \<Rightarrow> [])
                else None)))"

definition cut_bytes :: "string \<Rightarrow> nat \<Rightarrow> string" where
  "cut_bytes s n = (if length s \<le> n then s else take n s @ ''...'')"

definition summarize_error :: "string \<Rightarrow> string" where
  "summarize_error e = (''{'' @ [CHR 0x22] @ ''success'' @ [CHR 0x22] @ '':false,'' @ [CHR 0x22] @ ''error''
         @ [CHR 0x22] @ '':'' @ [CHR 0x22]) @ take 150 e @ ([CHR 0x22] @ ''}'')"

definition generic_summarize :: "string \<Rightarrow> string" where
  "generic_summarize result =
     (case parse_summary_result result of None \<Rightarrow> cut_bytes result 200
      | Some (ok, data, err) \<Rightarrow>
          (if \<not> ok then summarize_error err
           else case data of
                  JArr xs \<Rightarrow> (''{'' @ [CHR 0x22] @ ''success'' @ [CHR 0x22] @ '':true,'' @ [CHR 0x22] @ ''summary''
         @ [CHR 0x22] @ '':'' @ [CHR 0x22] @ ''Returned '') @ itoa (int (length xs)) @ ('' items'' @ [CHR 0x22] @ ''}'')
                | _ \<Rightarrow> cut_bytes result 300))"

definition summarize_tool_result :: "tool_env \<Rightarrow> string \<Rightarrow> string \<Rightarrow> string" where
  "summarize_tool_result te tool result =
     (if te_registered te tool
      then (case te_summarizer te tool of Some f \<Rightarrow> f result | None \<Rightarrow> generic_summarize result)
      else generic_summarize result)"

definition truncate_tool_result :: "tool_env \<Rightarrow> string \<Rightarrow> string \<Rightarrow> string" where
  "truncate_tool_result te tool result =
     (let size = (if te_registered te tool then case te_max_size te tool of Some n \<Rightarrow> n | None \<Rightarrow> 6000 else 6000);
          size = (if 0 < te_size_override te \<and> te_size_override te < size then te_size_override te else size)
      in truncate_text result size)"

record call_result =
  cr_call :: tool_call
  cr_args :: jobj
  cr_text :: string
  cr_failed :: bool

definition result_succeeded :: "call_result \<Rightarrow> bool" where
  "result_succeeded r = (\<not> cr_failed r \<and> \<not> contains (cr_text r) ([CHR 0x22] @ ''success'' @ [CHR 0x22] @ '':false''))"

section \<open>Executing the calls of a response\<close>

text \<open>Validation of a call: the text of its rejection, or its arguments.\<close>

definition prepare_call :: "tool_env \<Rightarrow> string list \<Rightarrow> tool_call \<Rightarrow> string + jobj" where
  "prepare_call te allowed c =
     (if tc_name c \<notin> set allowed then
        Inl ((''{'' @ [CHR 0x22] @ ''error'' @ [CHR 0x22] @ '': '' @ [CHR 0x22] @ ''tool '' @ [CHR 0x27]) @ tc_name c @ ([CHR 0x27] @ '' is not available in the current stage'' @ [CHR 0x22] @ ''}''))
      else if \<not> te_registered te (tc_name c) then
        Inl ((''{'' @ [CHR 0x22] @ ''error'' @ [CHR 0x22] @ '': '' @ [CHR 0x22] @ ''unknown tool ''
         @ [CHR 0x27]) @ tc_name c @ ([CHR 0x27] @ '' '' @ [CHR 0xE2, CHR 0x80, CHR 0x94] @ '' check available tool names''
         @ [CHR 0x22] @ ''}''))
      else case parse_tool_args (tc_arguments c) of
             None \<Rightarrow> Inl ((''{'' @ [CHR 0x22] @ ''error'' @ [CHR 0x22] @ '': '' @ [CHR 0x22]
         @ ''invalid JSON arguments for tool '') @ tc_name c @ '': ''
                           @ te_json_error te (tc_arguments c) @ ([CHR 0x22] @ ''}''))
           | Some args \<Rightarrow> Inr args)"

definition rejected :: "tool_call \<Rightarrow> string \<Rightarrow> call_result" where
  "rejected c e = \<lparr>cr_call = c, cr_args = [], cr_text = e, cr_failed = True\<rparr>"

definition run_call :: "tool_env \<Rightarrow> tool_call \<Rightarrow> jobj \<Rightarrow> site_db \<Rightarrow> site_db \<times> call_result" where
  "run_call te c args d =
     (let (d', out) = te_exec te (tc_name c) args d;
          res = (\<lambda>t f. \<lparr>cr_call = c, cr_args = args, cr_text = t, cr_failed = f\<rparr>)
      in (d', case out of
            ToolReturns t \<Rightarrow> res t False
          | ToolFails e \<Rightarrow>
              res ((''{'' @ [CHR 0x22] @ ''error'' @ [CHR 0x22] @ '': '' @ [CHR 0x22] @ ''tool '') @ tc_name c @ '' failed: '' @ e
                   @ ([CHR 0x22] @ '', '' @ [CHR 0x22] @ ''advice'' @ [CHR 0x22] @ '': '' @ [CHR 0x22]
         @ ''Read the current state of the resource before retrying. Check for constraint''
         @ '' violations, missing dependencies, or typos in names.'' @ [CHR 0x22] @ ''}'')) True
          | ToolPanics v \<Rightarrow> res ((''{'' @ [CHR 0x22] @ ''error'' @ [CHR 0x22] @ '': '' @ [CHR 0x22] @ ''tool '') @ tc_name c @ '' panicked: '' @ v @ ([CHR 0x22] @ ''}'')) True))"

text \<open>The executions in the order they take effect; each result lands in the slot of its call.\<close>

definition run_slot ::
  "tool_env \<Rightarrow> tool_call list \<Rightarrow> (string + jobj) list \<Rightarrow> nat \<Rightarrow>
   site_db \<times> call_result list \<Rightarrow> site_db \<times> call_result list" where
  "run_slot te calls prep i x =
     (case prep ! i of
        Inl _ \<Rightarrow> x
      | Inr args \<Rightarrow> (let (d, r) = run_call te (calls ! i) args (fst x) in (d, (snd x)[i := r])))"

definition initial_results :: "tool_call list \<Rightarrow> (string + jobj) list \<Rightarrow> call_result list" where
  "initial_results calls prep = map2 (\<lambda>c p. rejected c (case p of Inl e \<Rightarrow> e | Inr _ \<Rightarrow> [])) calls prep"

definition run_calls :: "tool_env \<Rightarrow> string list \<Rightarrow> tool_call list \<Rightarrow> site_db \<Rightarrow> site_db \<times> call_result list" where
  "run_calls te allowed calls d =
     (let prep = map (prepare_call te allowed) calls
      in fold (run_slot te calls prep) (te_schedule te [0..<length calls]) (d, initial_results calls prep))"

definition track_progress :: "tool_env \<Rightarrow> call_result \<Rightarrow> conversation \<Rightarrow> session \<Rightarrow> session" where
  "track_progress te r ms s =
     (case ss_progress s of None \<Rightarrow> s
      | Some bp0 \<Rightarrow>
          (let bp = track_tool_result (tc_name (cr_call r)) (cr_args r) bp0
           in if \<not> bp_checkpointed bp \<and> infrastructure_complete bp
              then publish_message (''Infrastructure phase complete '' @ [CHR 0xE2, CHR 0x80, CHR 0x94] @ '' checkpoint saved.'')
                     (save_checkpoint (te_now te) ms (s\<lparr>ss_progress := Some (bp\<lparr>bp_checkpointed := True\<rparr>)\<rparr>))
              else s\<lparr>ss_progress := Some bp\<rparr>))"

definition asks_secret :: "call_result \<Rightarrow> bool" where
  "asks_secret r =
     (tc_name (cr_call r) = ''manage_communication'' \<and> get_str (cr_args r) ''action'' = ''ask''
      \<and> get_str (cr_args r) ''type'' = ''secret'')"

text \<open>What follows one result; \<open>None\<close> is a panic while an anchor is built.\<close>

definition after_result :: "tool_env \<Rightarrow> call_result \<Rightarrow> conversation \<times> session \<Rightarrow> (conversation \<times> session) option" where
  "after_result te r x =
     (let tool = tc_name (cr_call r); i = tc_id (cr_call r);
          ms = fst x @ [tool_msg (truncate_tool_result te tool (cr_text r)) i];
          s = save_chat (tool_msg (summarize_tool_result te tool (cr_text r)) i) (snd x)
      in if \<not> result_succeeded r then Some (ms, s)
         else let note = tool_progress_message tool (cr_args r);
                  s = (if note \<noteq> [] then publish_message note s else s);
                  s = track_progress te r ms s
              in case inject_anchors (te_lower te) (te_map_order te) (ss_progress s) tool (cr_args r) (ss_anchors s, ms) of
                   None \<Rightarrow> None
                 | Some (an, ms) \<Rightarrow>
                     Some (ms, s\<lparr>ss_anchors := an, ss_pause := (ss_pause s \<or> asks_secret r)\<rparr>))"

primrec after_results :: "tool_env \<Rightarrow> call_result list \<Rightarrow> conversation \<times> session \<Rightarrow> (conversation \<times> session) option" where
  "after_results te [] x = Some x"
| "after_results te (r # rs) x =
     (case after_result te r x of None \<Rightarrow> None | Some y \<Rightarrow> after_results te rs y)"

definition execute_tool_calls ::
  "tool_env \<Rightarrow> string list \<Rightarrow> tool_call list \<Rightarrow> conversation \<times> session \<Rightarrow> (conversation \<times> session) option" where
  "execute_tool_calls te allowed calls x =
     (let (d, rs) = run_calls te allowed calls (ss_db (snd x))
      in after_results te rs (fst x, (snd x)\<lparr>ss_db := d\<rparr>))"

section \<open>The session\<close>

record loop_acc =
  la_messages :: conversation
  la_tokens :: int
  la_calls :: nat
  la_cont :: nat
  la_content :: string
  la_model :: string
  la_system :: string
  la_session :: session

datatype loop_exit = Finished | CallFailed string | OwnerPause | LoopPanic

record loop_config =
  lc_model :: string
  lc_tools :: "string list"
  lc_max_iter :: nat
  lc_max_tokens :: int

definition chat_wake_iterations :: nat where "chat_wake_iterations = 15"
definition chat_wake_lite_iterations :: nat where "chat_wake_lite_iterations = 8"

definition on_session :: "(session \<Rightarrow> session) \<Rightarrow> loop_acc \<Rightarrow> loop_acc" where
  "on_session f a = a\<lparr>la_session := f (la_session a)\<rparr>"

definition add_message :: "llm_message \<Rightarrow> loop_acc \<Rightarrow> loop_acc" where
  "add_message m a = a\<lparr>la_messages := la_messages a @ [m]\<rparr>"

text \<open>The start of pass \<open>i\<close>: the fix-up message of short loops and the update of the prompt.\<close>

definition begin_pass :: "tool_env \<Rightarrow> loop_config \<Rightarrow> nat \<Rightarrow> loop_acc \<Rightarrow> loop_acc" where
  "begin_pass te lc i a =
     (let n = lc_max_iter lc;
          a = (if n \<le> 10 \<and> n \<noteq> chat_wake_lite_iterations \<and> n \<noteq> chat_wake_iterations \<and> 0 < i
               then on_session (publish_message (''Fix-up pass '' @ itoa (int i + 1) @ ''/'' @ itoa (int n) @ ''...'')) a
               else a)
      in case te_updater te of None \<Rightarrow> a
         | Some f \<Rightarrow> a\<lparr>la_system := f (ss_progress (la_session a)) (la_system a)\<rparr>)"

definition pass_request :: "loop_config \<Rightarrow> loop_acc \<Rightarrow> llm_request" where
  "pass_request lc a = \<lparr>lr_model = lc_model lc, lr_system = la_system a, lr_messages = la_messages a,
     lr_tools = lc_tools lc, lr_max_tokens = lc_max_tokens lc\<rparr>"

text \<open>The token budget: stop, or the nudge to finish, once.\<close>

definition budget_stop :: "int \<Rightarrow> session \<Rightarrow> bool" where
  "budget_stop tokens s =
     (case ss_cost s of None \<Rightarrow> False
      | Some ct \<Rightarrow> 0 < ct_budget ct \<and> ct_budget ct \<le> ct_total ct + tokens)"

definition budget_nudge :: "loop_acc \<Rightarrow> loop_acc" where
  "budget_nudge a =
     (case ss_cost (la_session a) of None \<Rightarrow> a
      | Some ct \<Rightarrow>
          (let projected = ct_total ct + la_tokens a
           in if 0 < ct_budget ct \<and> \<not> ct_wrap_up_sent ct \<and> ct_budget ct * 9 div 10 \<le> projected
              then add_message (user_msg ''IMPORTANT: You are approaching the token budget limit. Focus on completing the most critical remaining items. Skip optional polish and move to the next unbuilt item immediately.'')
                     (on_session (\<lambda>s. publish_message
                        (''Token usage at 90% of budget ('' @ itoa (projected div 1000) @ ''K/'' @ itoa (ct_budget ct div 1000)
                         @ (''K) '' @ [CHR 0xE2, CHR 0x80, CHR 0x94] @ '' wrapping up remaining items.''))
                        (s\<lparr>ss_cost := Some (ct\<lparr>ct_wrap_up_sent := True\<rparr>)\<rparr>)) a)
              else a))"

definition budget_message :: "loop_acc \<Rightarrow> string" where
  "budget_message a =
     ''Token budget reached ('' @ itoa ((la_tokens a + (case ss_cost (la_session a) of Some ct \<Rightarrow> ct_total ct | None \<Rightarrow> 0)) div 1000)
     @ (''K tokens) '' @ [CHR 0xE2, CHR 0x80, CHR 0x94]
         @ '' stopping build. Remaining items may be incomplete.'')"

text \<open>A response without tool calls: done, cut off, or cut off too often.\<close>

definition continuation_text :: "session \<Rightarrow> string" where
  "continuation_text s =
     (''Your response was cut off. Continue building from where you left off ''
         @ [CHR 0xE2, CHR 0x80, CHR 0x94] @ '' call your next tool.'')
     @ (case ss_progress s of None \<Rightarrow> []
        | Some bp \<Rightarrow> (if remaining_items bp \<noteq> [] then nl @ nl @ remaining_items bp else []))"

definition no_calls :: "llm_response \<Rightarrow> loop_acc \<Rightarrow> loop_acc \<times> loop_exit option" where
  "no_calls r a =
     (if rs_stop r \<noteq> ''max_tokens'' then (a, Some Finished)
      else let a = a\<lparr>la_cont := Suc (la_cont a)\<rparr>
           in if max_continuations \<le> la_cont a
              then (on_session (publish_message (''Build hit output limit '' @ [CHR 0xE2, CHR 0x80, CHR 0x94]
         @ '' some items may be incomplete. Use chat to request fixes.'')) a,
                    Some Finished)
              else (add_message (user_msg (continuation_text (la_session a)))
                      (add_message (assistant_msg (rs_content r) []) a), None))"

text \<open>The calls of a response, without a last one cut off inside its arguments.\<close>

definition usable_calls :: "llm_response \<Rightarrow> tool_call list" where
  "usable_calls r =
     (if rs_stop r = ''max_tokens'' \<and> rs_calls r \<noteq> []
         \<and> unmarshal_object (tc_arguments (last (rs_calls r))) = None
      then butlast (rs_calls r) else rs_calls r)"

definition read_actions :: "string list" where
  "read_actions = [''get'', ''list'', ''describe'', ''search'', ''history'']"

definition has_writes :: "tool_call list \<Rightarrow> bool" where
  "has_writes cs = list_ex (\<lambda>c. case unmarshal_object (tc_arguments c) of None \<Rightarrow> False
     | Some args \<Rightarrow> get_str args ''action'' \<notin> set read_actions) cs"

text \<open>The grace window after everything is built; \<open>True\<close> ends the loop.\<close>

definition grace_window :: "tool_call list \<Rightarrow> session \<Rightarrow> session \<times> bool" where
  "grace_window cs s =
     (case ss_progress s of None \<Rightarrow> (s, False)
      | Some bp \<Rightarrow>
          (if \<not> all_complete bp then (s, False)
           else let bp = bp\<lparr>bp_post_iters := Suc (bp_post_iters bp),
                            bp_grace_iters := (if has_writes cs then 0 else Suc (bp_grace_iters bp))\<rparr>
                in (s\<lparr>ss_progress := Some bp\<rparr>, 2 \<le> bp_grace_iters bp \<or> 2 < bp_post_iters bp)))"

definition remaining_nudge :: "nat \<Rightarrow> nat \<Rightarrow> loop_acc \<Rightarrow> loop_acc" where
  "remaining_nudge i n a =
     (case ss_progress (la_session a) of None \<Rightarrow> a
      | Some bp \<Rightarrow>
          (if \<not> bp_nudge_sent bp \<and> n * 3 div 4 \<le> i \<and> remaining_items bp \<noteq> []
           then add_message (user_msg (remaining_items bp))
                  (on_session (\<lambda>s. s\<lparr>ss_progress := Some (bp\<lparr>bp_nudge_sent := True\<rparr>)\<rparr>) a)
           else a))"

definition recent_window :: "session \<Rightarrow> nat" where
  "recent_window s =
     (case ss_progress s of None \<Rightarrow> 18
      | Some bp \<Rightarrow> (let k = bp_pages_total bp + bp_endpoints_total bp
                   in if 10 < k then 24 else if 5 < k then 21 else 18))"

definition prune_pass :: "loop_acc \<Rightarrow> loop_acc" where
  "prune_pass a =
     (let w = recent_window (la_session a)
      in if w + 8 < length (la_messages a) then a\<lparr>la_messages := prune_messages (la_messages a) w\<rparr> else a)"

text \<open>After the calls: the pause, the grace window, the reminder and the pruning.\<close>

definition after_calls :: "tool_env \<Rightarrow> loop_config \<Rightarrow> nat \<Rightarrow> tool_call list \<Rightarrow> loop_acc \<Rightarrow> loop_acc \<times> loop_exit option" where
  "after_calls te lc i calls a =
     (if ss_pause (la_session a) then
        (on_session (\<lambda>s. s\<lparr>ss_pause := False,
             ss_db := on_row (pause_pipeline (te_now te) pause_owner_answers)
                        (ss_db (save_checkpoint (te_now te) (la_messages a) s))\<rparr>) a, Some OwnerPause)
      else let (s, stop) = grace_window calls (la_session a); a = a\<lparr>la_session := s\<rparr>
           in if stop then (a, Some Finished)
              else (prune_pass (remaining_nudge i (lc_max_iter lc) a), None))"

definition with_calls :: "tool_env \<Rightarrow> loop_config \<Rightarrow> nat \<Rightarrow> llm_response \<Rightarrow> loop_acc \<Rightarrow> loop_acc \<times> loop_exit option" where
  "with_calls te lc i r a0 =
     (let calls = usable_calls r; a = add_message (assistant_msg (rs_content r) calls) a0
      in if calls = [] then
           (add_message (user_msg (''Your response was truncated while calling '' @ tc_name (last (rs_calls r))
              @ (''. Continue from where you left off '' @ [CHR 0xE2, CHR 0x80, CHR 0x94]
         @ '' call the tool again with complete arguments.'')))
              (a\<lparr>la_cont := Suc (la_cont a)\<rparr>), None)
         else case execute_tool_calls te (lc_tools lc) calls (la_messages a, la_session a) of
                None \<Rightarrow> (a, Some LoopPanic)
              | Some (ms, s) \<Rightarrow>
                  after_calls te lc i calls
                    (a\<lparr>la_messages := ms, la_session := s, la_calls := la_calls a + length calls\<rparr>))"

text \<open>A pass after its response has come in.\<close>

definition handle_response :: "tool_env \<Rightarrow> loop_config \<Rightarrow> nat \<Rightarrow> llm_response \<Rightarrow> loop_acc \<Rightarrow> loop_acc \<times> loop_exit option" where
  "handle_response te lc i r a0 =
     (let a = a0\<lparr>la_tokens := la_tokens a0 + rs_tokens r, la_content := rs_content r, la_model := rs_model r\<rparr>
      in if budget_stop (la_tokens a) (la_session a)
         then (on_session (publish_message (budget_message a)) a, Some Finished)
         else let a = budget_nudge a;
                  a = (if rs_content r \<noteq> [] \<or> rs_calls r \<noteq> []
                       then on_session (save_chat (assistant_msg (rs_content r) (rs_calls r))) a else a)
              in if rs_calls r = [] then no_calls r a else with_calls te lc i r a)"

definition loop_pass :: "tool_env \<Rightarrow> loop_config \<Rightarrow> nat \<Rightarrow> loop_acc \<Rightarrow> loop_acc \<times> loop_exit option" where
  "loop_pass te lc i a0 =
     (let a = begin_pass te lc i a0;
          (n, _, res) = call_with_retry (te_provider te) (te_fallback te) (te_cancel te) (pass_request lc a)
                          (ss_llm_calls (la_session a));
          a = on_session (\<lambda>s. s\<lparr>ss_llm_calls := n\<rparr>) a
      in case res of
           Inl e \<Rightarrow> (a, Some (CallFailed (''LLM call failed at iteration '' @ itoa (int i) @ '': '' @ e)))
         | Inr r \<Rightarrow> handle_response te lc i r a)"

text \<open>The loop, with \<open>k\<close> passes left.\<close>

primrec loop_passes :: "tool_env \<Rightarrow> loop_config \<Rightarrow> nat \<Rightarrow> loop_acc \<Rightarrow> loop_acc \<times> loop_exit" where
  "loop_passes te lc 0 a = (a, Finished)"
| "loop_passes te lc (Suc k) a =
     (case loop_pass te lc (lc_max_iter lc - Suc k) a of
        (a, Some e) \<Rightarrow> (a, e)
      | (a, None) \<Rightarrow> loop_passes te lc k a)"

definition run_tool_loop ::
  "tool_env \<Rightarrow> loop_config \<Rightarrow> string \<Rightarrow> conversation \<Rightarrow> session \<Rightarrow> loop_acc \<times> loop_exit" where
  "run_tool_loop te lc sys ms s =
     loop_passes te lc (lc_max_iter lc)
       \<lparr>la_messages = ms, la_tokens = 0, la_calls = 0, la_cont = 0, la_content = [], la_model = [],
        la_system = sys, la_session = s\<rparr>"

text \<open>What the callers see; a failed call drops the last content and model.\<close>

definition loop_outcome :: "loop_acc \<times> loop_exit \<Rightarrow> (loop_result \<times> string) option" where
  "loop_outcome x =
     (let a = fst x; res = (\<lambda>c e. \<lparr>lo_content = c, lo_tokens = la_tokens a, lo_calls = int (la_calls a), lo_error = e\<rparr>)
      in case snd x of
           Finished \<Rightarrow> Some (res (la_content a) None, la_model a)
         | CallFailed e \<Rightarrow> Some (res [] (Some (LoopFailed e)), [])
         | OwnerPause \<Rightarrow> Some (res (la_content a) (Some LoopPaused), la_model a)
         | LoopPanic \<Rightarrow> None)"

section \<open>Facts\<close>

lemma attempts_bounds:
  "attempts p cx req k a n err = (m, ws, res) \<Longrightarrow>
   n \<le> m \<and> m \<le> n + k \<and> length ws \<le> k \<and> (\<forall>w\<in>set ws. w \<le> 15 * (a + k))"
proof (induction k arbitrary: a n err m ws res)
  case (Suc k)
  show ?case
  proof (cases "p n req")
    case (Inl e)
    have b: "backoff e a \<le> 15 * (a + 1)" by (simp add: backoff_def)
    have mono: "w \<le> 15 * (Suc a + k) \<Longrightarrow> w \<le> 15 * (a + Suc k)" for w by simp
    show ?thesis
    proof (cases "is_connection_error e \<or> cx n \<noteq> Live")
      case True
      with Inl Suc.prems show ?thesis by (auto split: if_splits cancel.splits prod.splits)
    next
      case False
      then obtain ws' where "attempts p cx req k (Suc a) (Suc n) e = (m, ws', res)" "ws = backoff e a # ws'"
        using Inl Suc.prems by (auto split: prod.splits)
      with Suc.IH [OF this(1)] b show ?thesis by auto
    qed
  qed (use Suc.prems in auto)
qed auto

definition retryable :: "provider \<Rightarrow> (nat \<Rightarrow> cancel) \<Rightarrow> llm_request \<Rightarrow> nat \<Rightarrow> bool" where
  "retryable p cx req n =
     (case p n req of Inl e \<Rightarrow> \<not> is_connection_error e \<and> cx n = Live | Inr _ \<Rightarrow> False)"

lemma attempts_success:
  "(\<exists>ws. attempts p cx req k a n err = (m, ws, Inr r)) \<longleftrightarrow>
   (\<exists>j<k. m = Suc (n + j) \<and> p (n + j) req = Inr r \<and> (\<forall>i<j. retryable p cx req (n + i)))"
proof (induction k arbitrary: a n err)
  case (Suc k)
  have split: "(\<exists>j<Suc k. Q j) \<longleftrightarrow> Q 0 \<or> (\<exists>j<k. Q (Suc j))" for Q :: "nat \<Rightarrow> bool"
    by (metis less_Suc_eq_0_disj)
  have all: "(\<forall>i<Suc j. Q i) \<longleftrightarrow> Q 0 \<and> (\<forall>i<j. Q (Suc i))" for Q :: "nat \<Rightarrow> bool" and j
    by (metis less_Suc_eq_0_disj)
  show ?case
  proof (cases "p n req")
    case (Inr r')
    then show ?thesis by (auto simp: split all retryable_def)
  next
    case (Inl e)
    show ?thesis
    proof (cases "is_connection_error e \<or> cx n \<noteq> Live")
      case True
      with Inl show ?thesis
        by (auto simp: split all retryable_def split: cancel.splits)
    next
      case False
      with Inl have rt: "retryable p cx req n" by (simp add: retryable_def)
      have "(\<exists>ws. attempts p cx req (Suc k) a n err = (m, ws, Inr r)) \<longleftrightarrow>
            (\<exists>ws. attempts p cx req k (Suc a) (Suc n) e = (m, ws, Inr r))"
        using Inl False by (auto split: prod.splits)
      with Suc.IH [of "Suc a" "Suc n" e] Inl rt show ?thesis by (simp add: split all)
    qed
  qed
qed auto

text \<open>A call to a provider succeeds exactly when one of three attempts does and every
  attempt before it failed with an error that is not a connection error while the session was
  alive; its response is the one of the first attempt that succeeds.\<close>

theorem call_succeeds_iff:
  "(\<exists>ws. call_on_provider p cx req n = (m, ws, Inr r)) \<longleftrightarrow>
   (\<exists>j<3. m = Suc (n + j) \<and> p (n + j) req = Inr r
          \<and> list_all (\<lambda>i. retryable p cx req (n + i)) [0..<j])"
  unfolding call_on_provider_def max_llm_retries_def
  by (simp add: attempts_success list_all_iff Ball_def)

lemma call_with_retry_bounds:
  assumes "call_with_retry p fb cx req n = (m, ws, res)"
  shows "m \<le> n + 6 \<and> length ws \<le> 6 \<and> (\<forall>w\<in>set ws. w \<le> 45)"
proof -
  have one: "m' \<le> n' + 3 \<and> length ws' \<le> 3 \<and> (\<forall>w\<in>set ws'. w \<le> 45)"
    if "call_on_provider q cx rq n' = (m', ws', res')" for q rq n' m' ws' res'
    using attempts_bounds [OF that [unfolded call_on_provider_def max_llm_retries_def]] by auto
  obtain m1 ws1 r1 where c1: "call_on_provider p cx req n = (m1, ws1, r1)" by (metis prod_cases3)
  from one [OF c1] have b1: "m1 \<le> n + 3" "length ws1 \<le> 3" "\<forall>w\<in>set ws1. w \<le> 45" by auto
  show ?thesis
  proof (cases "(\<exists>r. r1 = Inr r) \<or> ended cx n m1 \<or> fb = None")
    case True
    with assms c1 b1 show ?thesis by (auto simp: call_with_retry_def split: sum.splits if_splits option.splits)
  next
    case False
    then obtain e q model where e: "r1 = Inl e" "fb = Some (q, model)" "\<not> ended cx n m1"
      by (metis option.exhaust prod.exhaust sum.exhaust)
    obtain m2 ws2 r2 where c2: "call_on_provider q cx (req\<lparr>lr_model := model\<rparr>) m1 = (m2, ws2, r2)"
      by (metis prod_cases3)
    from one [OF c2] b1 e assms c1 c2 show ?thesis
      by (auto simp: call_with_retry_def split: sum.splits)
  qed
qed

section \<open>What a session leaves alone\<close>

definition row_only :: "site_db \<Rightarrow> site_db \<Rightarrow> bool" where
  "row_only d d' = (\<exists>f. d' = on_row f d)"

lemma row_only_refl [simp]: "row_only d d"
  by (auto simp: row_only_def on_row_def intro!: exI [of _ "\<lambda>r. r"])

lemma row_only_on_row [simp]: "row_only d (on_row f d)"
  by (auto simp: row_only_def)

lemma row_only_trans: "row_only d e \<Longrightarrow> row_only e f \<Longrightarrow> row_only d f"
  by (auto simp: row_only_def on_row_def)

lemma save_chat_frame [frame, simp]:
  "ss_db (save_chat m s) = ss_db s" "ss_cost (save_chat m s) = ss_cost s"
  "ss_llm_calls (save_chat m s) = ss_llm_calls s" "ss_progress (save_chat m s) = ss_progress s"
  "ss_anchors (save_chat m s) = ss_anchors s" "ss_pause (save_chat m s) = ss_pause s"
  by (simp_all add: save_chat_def)

lemma publish_frame [frame, simp]:
  "ss_db (publish_message t s) = ss_db s" "ss_cost (publish_message t s) = ss_cost s"
  "ss_llm_calls (publish_message t s) = ss_llm_calls s" "ss_progress (publish_message t s) = ss_progress s"
  "ss_anchors (publish_message t s) = ss_anchors s" "ss_pause (publish_message t s) = ss_pause s"
  by (simp_all add: publish_message_def)

lemma save_checkpoint_frame [frame, simp]:
  "row_only (ss_db s) (ss_db (save_checkpoint now ms s))" "ss_cost (save_checkpoint now ms s) = ss_cost s"
  "ss_llm_calls (save_checkpoint now ms s) = ss_llm_calls s"
  by (simp_all add: save_checkpoint_def)

lemma track_progress_frame [frame, simp]:
  "row_only (ss_db s) (ss_db (track_progress te r ms s))"
  "ss_cost (track_progress te r ms s) = ss_cost s"
  "ss_llm_calls (track_progress te r ms s) = ss_llm_calls s"
  using save_checkpoint_frame(1) [of "s\<lparr>ss_progress := Some (bp\<lparr>bp_checkpointed := True\<rparr>)\<rparr>" "te_now te" ms for bp]
  by (auto simp: track_progress_def Let_def split: option.splits)

text \<open>The parts of the session that only the loop itself changes.\<close>

definition same_core :: "session \<Rightarrow> session \<Rightarrow> bool" where
  "same_core s s' = (row_only (ss_db s) (ss_db s') \<and> ss_cost s' = ss_cost s \<and> ss_llm_calls s' = ss_llm_calls s)"

lemma after_result_core: "after_result te r (ms, s) = Some (ms', s') \<Longrightarrow> same_core s s'"
proof -
  assume a: "after_result te r (ms, s) = Some (ms', s')"
  have "row_only (ss_db s) (ss_db (track_progress te r ms'' s''))"
    if "ss_db s'' = ss_db s" for ms'' s''
    using track_progress_frame(1) [of s'' te r ms''] that by simp
  with a show ?thesis
    by (auto simp: after_result_def Let_def same_core_def split: if_splits option.splits)
qed

lemma after_results_core: "after_results te rs (ms, s) = Some (ms', s') \<Longrightarrow> same_core s s'"
proof (induction rs arbitrary: ms s)
  case (Cons r rs)
  then obtain ms1 s1 where "after_result te r (ms, s) = Some (ms1, s1)" "after_results te rs (ms1, s1) = Some (ms', s')"
    by (auto split: option.splits)
  with after_result_core [of te r ms s ms1 s1] Cons.IH [of ms1 s1] show ?case
    by (auto simp: same_core_def intro: row_only_trans)
qed (simp add: same_core_def)

section \<open>Only the tools of the stage act on the site\<close>

text \<open>A property of the site database that the tools of a set keep, and that does not depend on
  the pipeline's own row.\<close>

definition kept_by :: "tool_env \<Rightarrow> string list \<Rightarrow> (site_db \<Rightarrow> bool) \<Rightarrow> bool" where
  "kept_by te tools P \<longleftrightarrow>
     (\<forall>t args d. t \<in> set tools \<longrightarrow> te_registered te t \<longrightarrow> P d \<longrightarrow> P (fst (te_exec te t args d)))
     \<and> (\<forall>d f. P d \<longrightarrow> P (on_row f d))"

definition fair_schedule :: "tool_env \<Rightarrow> bool" where
  "fair_schedule te \<longleftrightarrow> (\<forall>xs. mset (te_schedule te xs) = mset xs)"

lemma prepare_call_Inr:
  "prepare_call te tools c = Inr args \<Longrightarrow> tc_name c \<in> set tools \<and> te_registered te (tc_name c)"
  by (auto simp: prepare_call_def split: if_splits option.splits)

lemma fold_run_slot_kept:
  assumes k: "kept_by te tools P" and prep: "prep = map (prepare_call te tools) calls"
  shows "set is \<subseteq> {0..<length calls} \<Longrightarrow> P (fst x) \<Longrightarrow> P (fst (fold (run_slot te calls prep) is x))"
proof (induction "is" arbitrary: x)
  case (Cons i "is")
  have "P (fst (run_slot te calls prep i x))"
  proof (cases "prep ! i")
    case (Inr args)
    then have "prepare_call te tools (calls ! i) = Inr args" using Cons.prems(1) by (simp add: prep)
    from prepare_call_Inr [OF this] k Cons.prems(2)
    have "P (fst (te_exec te (tc_name (calls ! i)) args (fst x)))" by (simp add: kept_by_def)
    with Inr show ?thesis by (simp add: run_slot_def run_call_def split_beta Let_def)
  qed (use Cons.prems in \<open>simp add: run_slot_def\<close>)
  with Cons show ?case by simp
qed simp

lemma fair_set: "fair_schedule te \<Longrightarrow> set (te_schedule te xs) = set xs"
  by (metis fair_schedule_def set_mset_mset)

lemma execute_kept:
  assumes k: "kept_by te tools P" and f: "fair_schedule te" and p: "P (ss_db s)"
    and e: "execute_tool_calls te tools calls (ms, s) = Some (ms', s')"
  shows "P (ss_db s') \<and> ss_cost s' = ss_cost s \<and> ss_llm_calls s' = ss_llm_calls s"
proof -
  obtain d rs where r: "run_calls te tools calls (ss_db s) = (d, rs)" by force
  have "P (fst (run_calls te tools calls (ss_db s)))"
    unfolding run_calls_def Let_def
    by (rule fold_run_slot_kept [OF k refl]) (use fair_set [OF f] p in auto)
  then have "P d" by (simp add: r)
  moreover from e r have "same_core (s\<lparr>ss_db := d\<rparr>) s'"
    by (auto simp: execute_tool_calls_def dest: after_results_core)
  ultimately show ?thesis using k by (auto simp: same_core_def row_only_def kept_by_def)
qed

lemma begin_pass_session [frame]:
  "ss_db (la_session (begin_pass te lc i a)) = ss_db (la_session a)"
  "ss_cost (la_session (begin_pass te lc i a)) = ss_cost (la_session a)"
  "ss_llm_calls (la_session (begin_pass te lc i a)) = ss_llm_calls (la_session a)"
  "la_tokens (begin_pass te lc i a) = la_tokens a"
  by (simp_all add: begin_pass_def on_session_def Let_def split: option.splits)

text \<open>One pass: the database, the token count, the cost tracker and the number of model calls.\<close>

definition same_budget :: "session \<Rightarrow> session \<Rightarrow> bool" where
  "same_budget s s' =
     (map_option (\<lambda>c. (ct_total c, ct_budget c)) (ss_cost s') = map_option (\<lambda>c. (ct_total c, ct_budget c)) (ss_cost s))"

lemma budget_nudge_frame [frame, simp]:
  "ss_db (la_session (budget_nudge a)) = ss_db (la_session a)"
  "ss_llm_calls (la_session (budget_nudge a)) = ss_llm_calls (la_session a)"
  "la_tokens (budget_nudge a) = la_tokens a"
  "same_budget (la_session a) (la_session (budget_nudge a))"
  by (simp_all add: budget_nudge_def on_session_def add_message_def same_budget_def Let_def split: option.splits)

lemma remaining_nudge_frame [frame, simp]:
  "ss_db (la_session (remaining_nudge i n a)) = ss_db (la_session a)"
  "ss_llm_calls (la_session (remaining_nudge i n a)) = ss_llm_calls (la_session a)"
  "ss_cost (la_session (remaining_nudge i n a)) = ss_cost (la_session a)"
  "la_tokens (remaining_nudge i n a) = la_tokens a"
  by (simp_all add: remaining_nudge_def on_session_def add_message_def split: option.splits)

lemma prune_pass_frame [frame, simp]:
  "la_session (prune_pass a) = la_session a" "la_tokens (prune_pass a) = la_tokens a"
  by (simp_all add: prune_pass_def Let_def)

lemma grace_window_frame [frame]:
  assumes "grace_window cs s = (s', b)"
  shows "ss_db s' = ss_db s \<and> ss_llm_calls s' = ss_llm_calls s \<and> ss_cost s' = ss_cost s"
  using assms by (auto simp: grace_window_def Let_def split: option.splits if_splits)

lemma no_calls_frame [frame]:
  assumes "no_calls r a = (a', x)"
  shows "ss_db (la_session a') = ss_db (la_session a) \<and> ss_llm_calls (la_session a') = ss_llm_calls (la_session a)
    \<and> ss_cost (la_session a') = ss_cost (la_session a) \<and> la_tokens a' = la_tokens a"
  using assms by (auto simp: no_calls_def on_session_def add_message_def Let_def split: if_splits)

definition pass_ok :: "(site_db \<Rightarrow> bool) \<Rightarrow> loop_acc \<Rightarrow> loop_acc \<Rightarrow> bool" where
  "pass_ok P a a' =
     (P (ss_db (la_session a')) \<and> ss_llm_calls (la_session a') = ss_llm_calls (la_session a)
      \<and> same_budget (la_session a) (la_session a') \<and> la_tokens a' = la_tokens a)"

lemma after_calls_ok:
  assumes k: "kept_by te tools P" and p: "P (ss_db (la_session a))"
    and w: "after_calls te lc i calls a = (a', x)"
  shows "pass_ok P a a'"
proof (cases "ss_pause (la_session a)")
  case True
  have "P (on_row g (ss_db (save_checkpoint now ms (la_session a))))" for g now ms
    using k p by (simp add: kept_by_def save_checkpoint_def)
  with True w show ?thesis by (auto simp: after_calls_def on_session_def pass_ok_def same_budget_def)
next
  case False
  obtain s stop where g: "grace_window calls (la_session a) = (s, stop)" by force
  with False w grace_window_frame [OF g] p show ?thesis
    by (auto simp: after_calls_def Let_def pass_ok_def same_budget_def split: if_splits)
qed

lemma with_calls_ok:
  assumes k: "kept_by te (lc_tools lc) P" and f: "fair_schedule te" and p: "P (ss_db (la_session a))"
    and w: "with_calls te lc i r a = (a', x)"
  shows "pass_ok P a a'"
proof -
  define b where "b = add_message (assistant_msg (rs_content r) (usable_calls r)) a"
  have b: "la_session b = la_session a" "la_tokens b = la_tokens a" by (simp_all add: b_def add_message_def)
  consider "la_session a' = la_session a" "la_tokens a' = la_tokens a"
    | ms s where "execute_tool_calls te (lc_tools lc) (usable_calls r) (la_messages b, la_session a) = Some (ms, s)"
        "after_calls te lc i (usable_calls r)
           (b\<lparr>la_messages := ms, la_session := s, la_calls := la_calls b + length (usable_calls r)\<rparr>) = (a', x)"
    using w by (auto simp: with_calls_def Let_def b_def add_message_def split: if_splits option.splits)
  then show ?thesis
  proof cases
    case 1
    with p show ?thesis by (simp add: pass_ok_def same_budget_def)
  next
    case 2
    from execute_kept [OF k f p 2(1)] after_calls_ok [OF k _ 2(2)] b show ?thesis
      by (simp add: pass_ok_def same_budget_def)
  qed
qed

lemma loop_pass_ok:
  assumes k: "kept_by te (lc_tools lc) P" and f: "fair_schedule te" and p: "P (ss_db (la_session a))"
    and l: "loop_pass te lc i a = (a', x)"
  shows "P (ss_db (la_session a')) \<and> ss_llm_calls (la_session a') \<le> ss_llm_calls (la_session a) + 6
    \<and> same_budget (la_session a) (la_session a')"
proof -
  define b where "b = begin_pass te lc i a"
  obtain n ws res where c: "call_with_retry (te_provider te) (te_fallback te) (te_cancel te) (pass_request lc b)
      (ss_llm_calls (la_session b)) = (n, ws, res)" by (metis prod_cases3)
  from call_with_retry_bounds [OF c] have n: "n \<le> ss_llm_calls (la_session a) + 6"
    by (simp add: b_def begin_pass_session)
  define a1 where "a1 = on_session (\<lambda>s. s\<lparr>ss_llm_calls := n\<rparr>) b"
  have a1: "P (ss_db (la_session a1))" "ss_llm_calls (la_session a1) = n"
    "same_budget (la_session a) (la_session a1)" "la_tokens a1 = la_tokens a"
    using p by (simp_all add: a1_def b_def on_session_def begin_pass_session same_budget_def)
  show ?thesis
  proof (cases res)
    case (Inl e)
    with l c n a1 show ?thesis by (auto simp: loop_pass_def Let_def simp flip: b_def a1_def)
  next
    case (Inr r)
    define a2 where "a2 = a1\<lparr>la_tokens := la_tokens a1 + rs_tokens r, la_content := rs_content r, la_model := rs_model r\<rparr>"
    have h: "handle_response te lc i r a1 = (a', x)"
      using l c Inr by (simp add: loop_pass_def Let_def flip: b_def a1_def)
    define a3 where "a3 = (let a = budget_nudge a2 in if rs_content r \<noteq> [] \<or> rs_calls r \<noteq> []
       then on_session (save_chat (assistant_msg (rs_content r) (rs_calls r))) a else a)"
    have a3: "P (ss_db (la_session a3))" "ss_llm_calls (la_session a3) = n" "same_budget (la_session a) (la_session a3)"
      using a1 budget_nudge_frame [of a2]
      by (auto simp: a3_def a2_def Let_def on_session_def same_budget_def)
    consider "budget_stop (la_tokens a2) (la_session a2)"
        "a' = on_session (publish_message (budget_message a2)) a2"
      | "no_calls r a3 = (a', x)" | "with_calls te lc i r a3 = (a', x)"
      using h by (auto simp: handle_response_def Let_def a3_def a2_def split: if_splits)
    then show ?thesis
    proof cases
      case 1
      with a1 n show ?thesis by (simp add: a2_def on_session_def same_budget_def)
    next
      case 2
      from no_calls_frame [OF 2] a3 n show ?thesis by (simp add: same_budget_def)
    next
      case 3
      from with_calls_ok [OF k f a3(1) 3] a3 n show ?thesis by (simp add: pass_ok_def same_budget_def)
    qed
  qed
qed

lemma loop_passes_ok:
  assumes k: "kept_by te (lc_tools lc) P" and f: "fair_schedule te"
  shows "loop_passes te lc m a = (a', x) \<Longrightarrow> P (ss_db (la_session a)) \<Longrightarrow>
    P (ss_db (la_session a')) \<and> ss_llm_calls (la_session a') \<le> ss_llm_calls (la_session a) + 6 * m"
proof (induction m arbitrary: a)
  case (Suc m)
  obtain a1 y where l: "loop_pass te lc (lc_max_iter lc - Suc m) a = (a1, y)" by force
  from loop_pass_ok [OF k f Suc.prems(2) l]
  have a1: "P (ss_db (la_session a1))" "ss_llm_calls (la_session a1) \<le> ss_llm_calls (la_session a) + 6"
    by simp_all
  with Suc.IH [of a1] Suc.prems(1) l show ?case by (cases y) auto
qed simp

text \<open>A session acts on the site only through the tools of its stage: a property of the
  database that these tools keep, and that does not speak of the pipeline's own row, holds
  after the session whatever the model answers and asks for.\<close>

theorem session_confined_to_tools:
  assumes "kept_by te (lc_tools lc) P" "fair_schedule te" "P (ss_db s)"
  shows "P (ss_db (la_session (fst (run_tool_loop te lc sys ms s))))"
  using loop_passes_ok [OF assms(1,2), of "lc_max_iter lc"] assms(3)
  by (cases "run_tool_loop te lc sys ms s") (fastforce simp: run_tool_loop_def)

text \<open>A session ends: it makes at most six calls to the providers in each of its passes.\<close>

theorem session_calls_bounded:
  assumes "fair_schedule te"
  shows "ss_llm_calls (la_session (fst (run_tool_loop te lc sys ms s))) \<le> ss_llm_calls s + 6 * lc_max_iter lc"
proof -
  have "kept_by te (lc_tools lc) (\<lambda>_. True)" by (simp add: kept_by_def)
  from loop_passes_ok [OF this assms, of "lc_max_iter lc"] show ?thesis
    by (cases "run_tool_loop te lc sys ms s") (fastforce simp: run_tool_loop_def)
qed

section \<open>Every call gets its result\<close>

lemma length_map2_min: "length (map2 f xs ys) = min (length xs) (length ys)"
  by simp

lemma fold_run_slot_calls:
  assumes "map cr_call (snd x) = calls"
  shows "map cr_call (snd (fold (run_slot te calls prep) is x)) = calls"
  using assms
proof (induction "is" arbitrary: x)
  case (Cons i "is")
  have "map cr_call (snd (run_slot te calls prep i x)) = calls"
  proof (cases "prep ! i")
    case (Inr args)
    have c: "cr_call (snd (run_call te (calls ! i) args d)) = calls ! i" for d
      by (simp add: run_call_def split_beta Let_def split: tool_outcome.splits)
    have "map cr_call ((snd x)[i := snd (run_call te (calls ! i) args (fst x))]) = calls[i := calls ! i]"
      by (simp add: map_update c Cons.prems)
    with Inr show ?thesis by (simp add: run_slot_def split_beta Let_def)
  qed (use Cons.prems in \<open>simp add: run_slot_def\<close>)
  with Cons.IH show ?case by simp
qed simp

lemma run_calls_calls: "map cr_call (snd (run_calls te tools calls d)) = calls"
proof -
  let ?prep = "map (prepare_call te tools) calls"
  have "map cr_call (initial_results calls ?prep) = calls"
    by (rule nth_equalityI) (simp_all add: initial_results_def rejected_def)
  then show ?thesis unfolding run_calls_def Let_def by (intro fold_run_slot_calls) simp
qed

definition tool_results :: "conversation \<Rightarrow> conversation" where
  "tool_results ms = filter (\<lambda>m. msg_role m = RoleTool) ms"

lemma after_result_message:
  assumes "after_result te r (ms, s) = Some (ms', s')"
  obtains us where "ms' = ms @ tool_msg (truncate_tool_result te (tc_name (cr_call r)) (cr_text r)) (tc_id (cr_call r)) # us"
    "list_all (\<lambda>m. msg_role m = RoleUser) us"
proof -
  let ?t = "tool_msg (truncate_tool_result te (tc_name (cr_call r)) (cr_text r)) (tc_id (cr_call r))"
  have "extends_by_users (ms @ [?t]) ms'"
    using assms
    by (auto simp: after_result_def Let_def split: if_splits option.splits dest!: inject_anchors_extends)
  with that show ?thesis by (auto simp: extends_by_users_def)
qed

lemma no_user_results: "list_all (\<lambda>m. msg_role m = RoleUser) us \<Longrightarrow> tool_results us = []"
  by (induction us) (auto simp: tool_results_def)

lemma after_results_messages:
  "after_results te rs (ms, s) = Some (ms', s') \<Longrightarrow>
   \<exists>new. ms' = ms @ new \<and> map msg_call_id (tool_results new) = map (\<lambda>r. tc_id (cr_call r)) rs
     \<and> map msg_content (tool_results new) = map (\<lambda>r. truncate_tool_result te (tc_name (cr_call r)) (cr_text r)) rs"
proof (induction rs arbitrary: ms s)
  case (Cons r rs)
  then obtain ms1 s1 where a: "after_result te r (ms, s) = Some (ms1, s1)"
      "after_results te rs (ms1, s1) = Some (ms', s')"
    by (auto split: option.splits)
  from after_result_message [OF a(1)] obtain us where
    us: "ms1 = ms @ tool_msg (truncate_tool_result te (tc_name (cr_call r)) (cr_text r)) (tc_id (cr_call r)) # us"
      "list_all (\<lambda>m. msg_role m = RoleUser) us" .
  from Cons.IH [OF a(2)] obtain new where new: "ms' = ms1 @ new"
      "map msg_call_id (tool_results new) = map (\<lambda>r. tc_id (cr_call r)) rs"
      "map msg_content (tool_results new) = map (\<lambda>r. truncate_tool_result te (tc_name (cr_call r)) (cr_text r)) rs"
    by blast
  show ?case
    by (rule exI [of _ "tool_msg (truncate_tool_result te (tc_name (cr_call r)) (cr_text r)) (tc_id (cr_call r)) # us @ new"])
      (use us new no_user_results [OF us(2)] in \<open>simp add: tool_results_def\<close>)
qed (auto simp: tool_results_def)

text \<open>The calls of a response are answered one by one: what an execution adds to the
  conversation holds exactly one result for each call, in the order of the calls, whatever the
  order in which the tools ran.\<close>

theorem calls_answered_in_order:
  assumes "execute_tool_calls te tools calls (ms, s) = Some (ms', s')"
  shows "prefix ms ms' \<and> map msg_call_id (tool_results (drop (length ms) ms')) = map tc_id calls"
proof -
  obtain d rs where r: "run_calls te tools calls (ss_db s) = (d, rs)" by force
  with assms have "after_results te rs (ms, s\<lparr>ss_db := d\<rparr>) = Some (ms', s')"
    by (simp add: execute_tool_calls_def)
  from after_results_messages [OF this] obtain new where
    "ms' = ms @ new" "map msg_call_id (tool_results new) = map (\<lambda>r. tc_id (cr_call r)) rs" by blast
  moreover have "map (\<lambda>r. tc_id (cr_call r)) rs = map tc_id calls"
    using run_calls_calls [of te tools calls "ss_db s"] r by (metis (no_types, lifting) list.map_comp comp_apply map_eq_conv snd_conv)
  ultimately show ?thesis by simp
qed

section \<open>The token budget\<close>

definition uses_at_most :: "int \<Rightarrow> provider \<Rightarrow> bool" where
  "uses_at_most M p \<longleftrightarrow> (\<forall>n req r. p n req = Inr r \<longrightarrow> 0 \<le> rs_tokens r \<and> rs_tokens r \<le> M)"

lemma attempts_tokens:
  "uses_at_most M p \<Longrightarrow> attempts p cx req k a n err = (m, ws, Inr r) \<Longrightarrow> 0 \<le> rs_tokens r \<and> rs_tokens r \<le> M"
  using attempts_success [of p cx req k a n err m r] by (auto simp: uses_at_most_def)

lemma call_with_retry_tokens:
  assumes "uses_at_most M p" "\<forall>(q, m) \<in> set_option fb. uses_at_most M q"
    and "call_with_retry p fb cx req n = (m, ws, Inr r)"
  shows "0 \<le> rs_tokens r \<and> rs_tokens r \<le> M"
proof -
  consider m1 ws1 where "call_on_provider p cx req n = (m1, ws1, Inr r)"
    | q model n1 m1 ws1 where "fb = Some (q, model)"
        "call_on_provider q cx (req\<lparr>lr_model := model\<rparr>) n1 = (m1, ws1, Inr r)"
    using assms(3) by (auto simp: call_with_retry_def split: prod.splits sum.splits if_splits option.splits)
  then show ?thesis
  proof cases
    case 1
    from attempts_tokens [OF assms(1) 1 [unfolded call_on_provider_def]] show ?thesis .
  next
    case 2
    then have "uses_at_most M q" using assms(2) by simp
    from attempts_tokens [OF this 2(2) [unfolded call_on_provider_def]] show ?thesis .
  qed
qed

lemma with_calls_tokens:
  assumes "fair_schedule te" "with_calls te lc i r a = (a', x)"
  shows "la_tokens a' = la_tokens a \<and> same_budget (la_session a) (la_session a')"
proof -
  have "kept_by te (lc_tools lc) (\<lambda>_. True)" by (simp add: kept_by_def)
  from with_calls_ok [OF this assms(1) TrueI assms(2)] show ?thesis by (simp add: pass_ok_def)
qed

lemma budget_stop_same: "same_budget s s' \<Longrightarrow> budget_stop t s' = budget_stop t s"
  by (auto simp: same_budget_def budget_stop_def split: option.splits)

lemma same_budget_trans: "same_budget a b \<Longrightarrow> same_budget b c \<Longrightarrow> same_budget a c"
  by (simp add: same_budget_def)

lemma handle_response_tokens:
  assumes f: "fair_schedule te" and h: "handle_response te lc i r a = (a', x)"
  shows "la_tokens a' = la_tokens a + rs_tokens r \<and> same_budget (la_session a) (la_session a')
    \<and> (x = None \<longrightarrow> \<not> budget_stop (la_tokens a') (la_session a'))"
proof -
  define a2 where "a2 = a\<lparr>la_tokens := la_tokens a + rs_tokens r, la_content := rs_content r, la_model := rs_model r\<rparr>"
  have a2: "la_session a2 = la_session a" "la_tokens a2 = la_tokens a + rs_tokens r" by (simp_all add: a2_def)
  define a3 where "a3 = (let a = budget_nudge a2 in if rs_content r \<noteq> [] \<or> rs_calls r \<noteq> []
       then on_session (save_chat (assistant_msg (rs_content r) (rs_calls r))) a else a)"
  have a3: "la_tokens a3 = la_tokens a2" "same_budget (la_session a) (la_session a3)"
    using budget_nudge_frame [of a2] a2 by (auto simp: a3_def Let_def on_session_def same_budget_def)
  show ?thesis
  proof (cases "budget_stop (la_tokens a2) (la_session a2)")
    case True
    with h a2 show ?thesis
      by (auto simp: handle_response_def Let_def on_session_def same_budget_def simp flip: a2_def)
  next
    case False
    have "handle_response te lc i r a = (if budget_stop (la_tokens a2) (la_session a2)
        then (on_session (publish_message (budget_message a2)) a2, Some Finished)
        else if rs_calls r = [] then no_calls r a3 else with_calls te lc i r a3)"
      unfolding handle_response_def Let_def a2_def a3_def by (rule refl)
    with h False have "(if rs_calls r = [] then no_calls r a3 else with_calls te lc i r a3) = (a', x)" by simp
    with no_calls_frame [of r a3 a' x] with_calls_tokens [OF f, of lc i r a3 a' x] a3
    have "la_tokens a' = la_tokens a2" "same_budget (la_session a) (la_session a')"
      by (auto simp: same_budget_def split: if_splits)
    with False a2 budget_stop_same show ?thesis by metis
  qed
qed

lemma loop_pass_tokens:
  assumes f: "fair_schedule te"
    and u: "uses_at_most M (te_provider te)" "\<forall>(q, m) \<in> set_option (te_fallback te). uses_at_most M q" "0 \<le> M"
    and l: "loop_pass te lc i a = (a', x)"
  shows "la_tokens a' \<le> la_tokens a + M \<and> same_budget (la_session a) (la_session a')
    \<and> (x = None \<longrightarrow> \<not> budget_stop (la_tokens a') (la_session a'))"
proof -
  define b where "b = begin_pass te lc i a"
  obtain n ws res where c: "call_with_retry (te_provider te) (te_fallback te) (te_cancel te) (pass_request lc b)
      (ss_llm_calls (la_session b)) = (n, ws, res)" by (metis prod_cases3)
  define a1 where "a1 = on_session (\<lambda>s. s\<lparr>ss_llm_calls := n\<rparr>) b"
  have a1: "same_budget (la_session a) (la_session a1)" "la_tokens a1 = la_tokens a"
    by (simp_all add: a1_def b_def on_session_def begin_pass_session same_budget_def)
  show ?thesis
  proof (cases res)
    case (Inl e)
    with l c a1 u(3) show ?thesis by (auto simp: loop_pass_def Let_def simp flip: b_def a1_def)
  next
    case (Inr r)
    from call_with_retry_tokens [OF u(1,2) c [unfolded Inr]] have r: "rs_tokens r \<le> M" by simp
    have "handle_response te lc i r a1 = (a', x)"
      using l c Inr by (simp add: loop_pass_def Let_def flip: b_def a1_def)
    from handle_response_tokens [OF f this] a1 r same_budget_trans show ?thesis by fastforce
  qed
qed

lemma loop_passes_tokens:
  assumes "fair_schedule te" "uses_at_most M (te_provider te)"
    "\<forall>(q, m) \<in> set_option (te_fallback te). uses_at_most M q" "0 \<le> M"
  shows "loop_passes te lc k a = (a', x) \<Longrightarrow> \<not> budget_stop (la_tokens a) (la_session a) \<Longrightarrow>
    same_budget (la_session a) (la_session a') \<and> \<not> budget_stop (la_tokens a' - M) (la_session a')"
proof (induction k arbitrary: a)
  case 0
  with assms(4) show ?case by (auto simp: budget_stop_def same_budget_def split: option.splits)
next
  case (Suc k)
  obtain a1 y where l: "loop_pass te lc (lc_max_iter lc - Suc k) a = (a1, y)" by force
  from loop_pass_tokens [OF assms l] have a1: "la_tokens a1 \<le> la_tokens a + M"
    "same_budget (la_session a) (la_session a1)" "y = None \<longrightarrow> \<not> budget_stop (la_tokens a1) (la_session a1)"
    by simp_all
  show ?case
  proof (cases y)
    case None
    with Suc.IH [of a1] Suc.prems l a1 same_budget_trans show ?thesis by auto
  next
    case (Some e)
    have "\<not> budget_stop (la_tokens a1 - M) (la_session a)"
      using Suc.prems(2) a1(1) by (auto simp: budget_stop_def split: option.splits)
    with Some Suc.prems l a1 budget_stop_same [of "la_session a" "la_session a1"] show ?thesis by simp
  qed
qed

text \<open>The token budget of a build holds up to one response: when a response uses at most
  \<open>M\<close> tokens, a session that starts below the budget ends less than \<open>M\<close> tokens above it.\<close>

theorem session_within_budget:
  assumes "fair_schedule te" "uses_at_most M (te_provider te)"
    "\<forall>(q, m) \<in> set_option (te_fallback te). uses_at_most M q" "0 \<le> M"
    and "ss_cost s = Some ct" "0 < ct_budget ct" "ct_total ct < ct_budget ct"
  shows "ct_total ct + la_tokens (fst (run_tool_loop te lc sys ms s)) < ct_budget ct + M"
proof -
  obtain a' x where r: "run_tool_loop te lc sys ms s = (a', x)" by force
  let ?a = "\<lparr>la_messages = ms, la_tokens = 0, la_calls = 0, la_cont = 0, la_content = [], la_model = [],
        la_system = sys, la_session = s\<rparr>"
  have "\<not> budget_stop (la_tokens ?a) (la_session ?a)" using assms(5,7) by (simp add: budget_stop_def)
  from loop_passes_tokens [OF assms(1-4) r [unfolded run_tool_loop_def] this] r assms(5,6)
  show ?thesis by (auto simp: same_budget_def budget_stop_def split: option.splits)
qed


section \<open>Examples\<close>

definition json_args :: "(string \<times> string) list \<Rightarrow> string" where
  "json_args kvs = ''{'' @ join '','' (map (\<lambda>(k, v). [CHR 0x22] @ k @ [CHR 0x22, CHR '':'', CHR 0x22] @ v @ [CHR 0x22]) kvs) @ ''}''"

definition create_call :: "string \<Rightarrow> string \<Rightarrow> tool_call" where
  "create_call i t = \<lparr>tc_id = i, tc_name = ''manage_schema'',
     tc_arguments = json_args [(''action'', ''create''), (''table_name'', t)]\<rparr>"

definition demo_reply :: "tool_call list \<Rightarrow> llm_response" where
  "demo_reply cs = \<lparr>rs_content = ''ok'', rs_calls = cs, rs_tokens = 100, rs_model = ''m'', rs_stop = ''end_turn''\<rparr>"

definition demo_te :: tool_env where
  "demo_te = \<lparr>te_now = ''now'', te_provider = (\<lambda>n req. Inr (demo_reply [])), te_fallback = None,
     te_cancel = (\<lambda>_. Live), te_registered = (\<lambda>t. t = ''manage_schema''),
     te_exec = (\<lambda>t args d. (d\<lparr>sd_tables := get_str args ''table_name'' # sd_tables d\<rparr>, ToolReturns ''{}'')),
     te_schedule = (\<lambda>xs. xs), te_max_size = (\<lambda>_. None), te_summarizer = (\<lambda>_. Some (\<lambda>s. s)),
     te_json_error = (\<lambda>_. []), te_lower = map lower_char, te_map_order = (\<lambda>xs. xs),
     te_size_override = 0, te_updater = None\<rparr>"

definition demo_session :: session where
  "demo_session = \<lparr>ss_db = fresh_db ''now'', ss_history = [], ss_progress = None,
     ss_anchors = Some new_anchor_store, ss_cost = Some new_cost_tracker, ss_pause = False, ss_llm_calls = 0\<rparr>"

definition demo_start :: conversation where
  "demo_start = [user_msg ''go'', assistant_msg [] [create_call ''1'' ''a'', create_call ''2'' ''b'']]"

definition demo_calls2 :: "tool_call list" where
  "demo_calls2 = [create_call ''1'' ''a'', create_call ''2'' ''b'']"

text \<open>The calls of a conversation that have no result yet.\<close>

fun open_calls :: "string list \<Rightarrow> conversation \<Rightarrow> string list" where
  "open_calls ids [] = ids"
| "open_calls ids (m # ms) =
     open_calls (if msg_role m = RoleTool then remove1 (msg_call_id m) ids
                 else if msg_role m = RoleAssistant then map tc_id (msg_calls m) else ids) ms"

text \<open>A result whose call is not in the conversation.\<close>

definition orphaned :: "conversation \<Rightarrow> bool" where
  "orphaned ms =
     list_ex (\<lambda>m. msg_role m = RoleTool \<and> \<not> list_ex (\<lambda>n. msg_call_id m \<in> set (map tc_id (msg_calls n))) ms) ms"

text \<open>Anchors come between the results of one response: after two calls that create tables,
  the second result no longer follows the calls with only results in between.\<close>

theorem anchor_splits_results:
  "paired [] demo_start
   \<and> (case execute_tool_calls demo_te [''manage_schema''] demo_calls2 (demo_start, demo_session) of
        None \<Rightarrow> False | Some (ms, _) \<Rightarrow> \<not> paired [] ms)"
  by code_simp

text \<open>A long conversation with these results at its pruning boundary.\<close>

definition long_conversation :: conversation where
  "long_conversation =
     user_msg ''go'' # replicate 6 (assistant_msg ''ok'' [])
     @ [assistant_msg [] demo_calls2, tool_msg ''{}'' ''1'',
        user_msg (build_schema_anchor [(''table_name'', JStr ''a'')]), tool_msg ''{}'' ''2'',
        user_msg (build_schema_anchor [(''table_name'', JStr ''b'')])]
     @ replicate 15 (assistant_msg ''ok'' [])"

text \<open>Pruning can cut between a call and its result: the step back over the results of a
  response stops at an anchor among them, and the result after it is kept without its call.\<close>

theorem prune_orphans_result:
  "recent_window demo_session + 8 < length long_conversation \<and> \<not> orphaned long_conversation
   \<and> orphaned (prune_messages long_conversation (recent_window demo_session))"
  by code_simp

definition one_table_progress :: build_progress where
  "one_table_progress = \<lparr>bp_plan = crud_plan [''a''] [], bp_tables_total = 1, bp_pages_total = 1,
     bp_endpoints_total = 0, bp_tables_done = [], bp_pages_done = [], bp_endpoints_done = [], bp_calls = 0,
     bp_nudge_sent = False, bp_post_iters = 0, bp_grace_iters = 0, bp_checkpointed = False\<rparr>"

text \<open>The checkpoint of the infrastructure phase can be taken in the middle of a response:
  it is saved as soon as one result completes the phase, when the calls after it have no
  result in the conversation yet, and is the conversation a later build resumes from.\<close>

theorem checkpoint_leaves_calls_open:
  "open_calls [] (demo_start @ [tool_msg ''{}'' ''1'']) = [''2'']
   \<and> (case execute_tool_calls demo_te [''manage_schema''] demo_calls2
            (demo_start, demo_session\<lparr>ss_progress := Some one_table_progress\<rparr>) of
        None \<Rightarrow> False
      | Some (ms, s) \<Rightarrow> open_calls [] ms = []
          \<and> pr_checkpoint (sd_row (ss_db s)) = Some (marshal_messages (demo_start @ [tool_msg ''{}'' ''1''])))"
  by code_simp

lemma demo_te_kept: "kept_by demo_te [''manage_schema''] (\<lambda>d. sd_pages d = [])"
  by (simp add: kept_by_def demo_te_def on_row_def)

lemma demo_te_fair: "fair_schedule demo_te"
  by (simp add: fair_schedule_def demo_te_def)

definition demo_config :: loop_config where
  "demo_config = \<lparr>lc_model = ''m'', lc_tools = [''manage_schema''], lc_max_iter = 5, lc_max_tokens = 100\<rparr>"

theorem session_confined_to_tools_witness:
  "sd_pages (ss_db (la_session (fst (run_tool_loop demo_te demo_config [] [user_msg ''go''] demo_session)))) = []"
  by (rule session_confined_to_tools [where P = "\<lambda>d. sd_pages d = []"])
    (use demo_te_kept demo_te_fair in \<open>simp_all add: demo_config_def demo_session_def fresh_db_def\<close>)

theorem session_calls_bounded_witness:
  "ss_llm_calls (la_session (fst (run_tool_loop demo_te demo_config [] [user_msg ''go''] demo_session))) \<le> 30"
  using session_calls_bounded [OF demo_te_fair, of demo_config "[]" "[user_msg ''go'']" demo_session]
  by (simp add: demo_config_def demo_session_def)

lemma anchor_exec:
  "execute_tool_calls demo_te [''manage_schema''] demo_calls2 (demo_start, demo_session) \<noteq> None"
  by code_simp

theorem calls_answered_in_order_witness:
  "\<exists>ms' s'. execute_tool_calls demo_te [''manage_schema''] demo_calls2 (demo_start, demo_session) = Some (ms', s')
     \<and> map msg_call_id (tool_results (drop (length demo_start) ms')) = [''1'', ''2'']"
proof -
  obtain ms' s' where e: "execute_tool_calls demo_te [''manage_schema''] demo_calls2 (demo_start, demo_session) = Some (ms', s')"
    using anchor_exec by auto
  from calls_answered_in_order [OF e] e show ?thesis by (auto simp: demo_calls2_def create_call_def)
qed

theorem session_within_budget_witness:
  "la_tokens (fst (run_tool_loop demo_te demo_config [] [user_msg ''go''] demo_session)) < 3000100"
proof -
  have u: "uses_at_most 100 (te_provider demo_te)"
    by (simp add: uses_at_most_def demo_te_def demo_reply_def)
  from session_within_budget [OF demo_te_fair u, of demo_session new_cost_tracker demo_config "[]" "[user_msg ''go'']"]
  show ?thesis
    by (simp add: demo_session_def new_cost_tracker_def default_token_budget_def demo_te_def)
qed

end
