(* ===== verification/Sql.thy ===== *)
theory Sql
  imports Prelude
begin

text \<open>
  The tables the users of a site create, and the meaning of the SQL statements the program builds
  on them: selection with a conjunction of conditions, insertion, update and deletion. What
  SQLite decides by declared types (affinity, comparison, constraints) is the record \<open>sqlite\<close>,
  an argument of every statement. Identifiers are compared without regard to case, as SQL does;
  a result column carries its declared name.
\<close>

section \<open>Tables\<close>

datatype sqlval =
    SNull
  | SInt int
  | SReal rat
  | SText string
  | SBlob string

record sql_column =
  sc_name :: string
  sc_type :: string
  sc_default :: sqlval

type_synonym sql_row = "(string, sqlval) gomap"

record sql_table =
  st_columns :: "sql_column list"
  st_rows :: "sql_row list"
  st_seq :: int

type_synonym database = "(string, sql_table) gomap"

datatype sql_error =
    NoSuchTable string
  | NoSuchColumn string
  | SyntaxError string
  | ConstraintFailed
  | UnsupportedType

text \<open>\<open>col op ?\<close>, \<open>col LIKE ? COLLATE NOCASE\<close>, a disjunction of the latter, and \<open>col IS [NOT] NULL\<close>.\<close>

datatype cond =
    Compare string string sqlval
  | LikeNocase string sqlval
  | AnyLike "string list" sqlval
  | NullTest string bool

record sqlite =
  sq_store :: "string \<Rightarrow> sqlval \<Rightarrow> sqlval"
  sq_cmp :: "string \<Rightarrow> string \<Rightarrow> sqlval \<Rightarrow> sqlval \<Rightarrow> bool"
  sq_like :: "sqlval \<Rightarrow> sqlval \<Rightarrow> bool"
  sq_le :: "sqlval \<Rightarrow> sqlval \<Rightarrow> bool"
  sq_accepts :: "sql_table \<Rightarrow> sql_row \<Rightarrow> bool"
  sq_reserved :: "string \<Rightarrow> bool"
  sq_raw :: "string \<Rightarrow> database \<Rightarrow> string \<Rightarrow> cond list \<Rightarrow> (string \<times> bool) option
     \<Rightarrow> (int \<times> int) option \<Rightarrow> sql_error + sql_row list"

text \<open>
  \<open>sq_store ty v\<close> is what a column of declared type \<open>ty\<close> keeps of \<open>v\<close>; \<open>sq_cmp ty op x y\<close>
  compares a stored value of that type with a bound one; \<open>sq_accepts t r\<close> says whether row \<open>r\<close> of
  the resulting table \<open>t\<close> meets the declared constraints; \<open>sq_reserved\<close> are the words the
  grammar keeps; \<open>sq_raw txt db tab cs ord lmt\<close> is the answer to a selection whose list of columns is
  a text \<open>txt\<close> that is not made of identifiers (aliases, expressions, whatever it holds).
\<close>

definition fold_case :: "string \<Rightarrow> string" where
  "fold_case s = map lower_char s"

definition find_table :: "database \<Rightarrow> string \<Rightarrow> sql_table option" where
  "find_table db name = map_option snd (find (\<lambda>(n, _). fold_case n = fold_case name) db)"

definition put_table :: "string \<Rightarrow> sql_table \<Rightarrow> database \<Rightarrow> database" where
  "put_table name t db = map (\<lambda>(n, t'). if fold_case n = fold_case name then (n, t) else (n, t')) db"

definition cell :: "sql_row \<Rightarrow> string \<Rightarrow> sqlval" where
  "cell r c = (case map_of r c of Some v \<Rightarrow> v | None \<Rightarrow> SNull)"

text \<open>The column an identifier denotes. The row id of a table is its primary key \<open>id\<close>.\<close>

definition column_of :: "sql_table \<Rightarrow> string \<Rightarrow> sql_column option" where
  "column_of t name = find (\<lambda>c. fold_case (sc_name c) = fold_case name) (st_columns t)"

definition resolve :: "sql_table \<Rightarrow> string \<Rightarrow> string option" where
  "resolve t name =
     (case column_of t name of
        Some c \<Rightarrow> Some (sc_name c)
      | None \<Rightarrow> if fold_case name \<in> {''rowid'', ''oid'', ''_rowid_''} then Some ''id'' else None)"

definition decl_type :: "sql_table \<Rightarrow> string \<Rightarrow> string" where
  "decl_type t name = (case column_of t name of Some c \<Rightarrow> sc_type c | None \<Rightarrow> ''INTEGER'')"

definition check_name :: "sqlite \<Rightarrow> sql_table \<Rightarrow> string \<Rightarrow> sql_error option" where
  "check_name e t name =
     (if sq_reserved e (fold_case name) then Some (SyntaxError name)
      else if resolve t name = None then Some (NoSuchColumn name) else None)"

fun check_names :: "sqlite \<Rightarrow> sql_table \<Rightarrow> string list \<Rightarrow> sql_error option" where
  "check_names e t [] = None"
| "check_names e t (n # ns) =
     (case check_name e t n of Some err \<Rightarrow> Some err | None \<Rightarrow> check_names e t ns)"

definition value_of :: "sql_table \<Rightarrow> sql_row \<Rightarrow> string \<Rightarrow> sqlval" where
  "value_of t r name = (case resolve t name of Some c \<Rightarrow> cell r c | None \<Rightarrow> SNull)"

section \<open>Conditions\<close>

fun cond_names :: "cond \<Rightarrow> string list" where
  "cond_names (Compare c _ _) = [c]"
| "cond_names (LikeNocase c _) = [c]"
| "cond_names (AnyLike cs _) = cs"
| "cond_names (NullTest c _) = [c]"

fun cond_holds :: "sqlite \<Rightarrow> sql_table \<Rightarrow> sql_row \<Rightarrow> cond \<Rightarrow> bool" where
  "cond_holds e t r (Compare c opr v) = sq_cmp e (decl_type t c) opr (value_of t r c) v"
| "cond_holds e t r (LikeNocase c v) = sq_like e (value_of t r c) v"
| "cond_holds e t r (AnyLike cs v) = list_ex (\<lambda>c. sq_like e (value_of t r c) v) cs"
| "cond_holds e t r (NullTest c neg) = ((value_of t r c = SNull) \<noteq> neg)"

definition matches :: "sqlite \<Rightarrow> sql_table \<Rightarrow> cond list \<Rightarrow> sql_row \<Rightarrow> bool" where
  "matches e t cs r = list_all (cond_holds e t r) cs"

section \<open>Statements\<close>

text \<open>What a query selects: all columns, a list of identifiers, or a text that is spliced in as it is.\<close>

datatype projection = Star | Columns "string list" | Raw string

fun projected :: "sql_table \<Rightarrow> projection \<Rightarrow> sql_row \<Rightarrow> sql_row" where
  "projected t Star r = map (\<lambda>c. (sc_name c, cell r (sc_name c))) (st_columns t)"
| "projected t (Columns cs) r =
     map (\<lambda>c. (case resolve t c of Some d \<Rightarrow> d | None \<Rightarrow> c, value_of t r c)) cs"
| "projected t (Raw _) r = []"

fun projection_names :: "projection \<Rightarrow> string list" where
  "projection_names Star = []"
| "projection_names (Columns cs) = cs"
| "projection_names (Raw _) = []"

fun is_raw :: "projection \<Rightarrow> bool" where
  "is_raw (Raw _) = True"
| "is_raw _ = False"

fun insert_sorted :: "('a \<Rightarrow> 'a \<Rightarrow> bool) \<Rightarrow> 'a \<Rightarrow> 'a list \<Rightarrow> 'a list" where
  "insert_sorted le x [] = [x]"
| "insert_sorted le x (y # ys) = (if le x y then x # y # ys else y # insert_sorted le x ys)"

definition sort_by_le :: "('a \<Rightarrow> 'a \<Rightarrow> bool) \<Rightarrow> 'a list \<Rightarrow> 'a list" where
  "sort_by_le le xs = foldr (insert_sorted le) xs []"

text \<open>\<open>ORDER BY col ASC|DESC\<close> (the flag is true for a descending order).\<close>

definition ordered :: "sqlite \<Rightarrow> sql_table \<Rightarrow> string \<times> bool \<Rightarrow> sql_row list \<Rightarrow> sql_row list" where
  "ordered e t ord rows =
     sort_by_le (\<lambda>r r'. let x = value_of t r (fst ord); y = value_of t r' (fst ord)
                        in if snd ord then sq_le e y x else sq_le e x y) rows"

text \<open>A selection of identifiers, and any selection.\<close>

definition select_columns ::
  "sqlite \<Rightarrow> database \<Rightarrow> string \<Rightarrow> projection \<Rightarrow> cond list \<Rightarrow> (string \<times> bool) option
     \<Rightarrow> (int \<times> int) option \<Rightarrow> sql_error + sql_row list" where
  "select_columns e db tab prj cs ord lmt =
     (case find_table db tab of None \<Rightarrow> Inl (NoSuchTable tab)
      | Some t \<Rightarrow>
         (case check_names e t (projection_names prj @ concat (map cond_names cs)
                 @ (case ord of Some (c, _) \<Rightarrow> [c] | None \<Rightarrow> [])) of
            Some err \<Rightarrow> Inl err
          | None \<Rightarrow>
             (let rows = filter (matches e t cs) (st_rows t);
                  rows = (case ord of Some d \<Rightarrow> ordered e t d rows | None \<Rightarrow> rows);
                  rows = (case lmt of
                            Some (n, off) \<Rightarrow> take (nat n) (drop (nat off) rows) | None \<Rightarrow> rows)
              in Inr (map (projected t prj) rows))))"

definition sql_select ::
  "sqlite \<Rightarrow> database \<Rightarrow> string \<Rightarrow> projection \<Rightarrow> cond list \<Rightarrow> (string \<times> bool) option
     \<Rightarrow> (int \<times> int) option \<Rightarrow> sql_error + sql_row list" where
  "sql_select e db tab prj cs ord lmt =
     (case prj of Raw txt \<Rightarrow> sq_raw e txt db tab cs ord lmt
      | _ \<Rightarrow> select_columns e db tab prj cs ord lmt)"

text \<open>A text that holds at most one statement, whatever else is spliced into it.\<close>

definition single_statement :: "string \<Rightarrow> bool" where
  "single_statement s \<longleftrightarrow> CHR '';'' \<notin> set s"

definition assign :: "sqlite \<Rightarrow> sql_table \<Rightarrow> (string \<times> sqlval) list \<Rightarrow> sql_row \<Rightarrow> sql_row" where
  "assign e t sets r =
     fold (\<lambda>(c, v) r. case resolve t c of
             Some d \<Rightarrow> alist_put d (sq_store e (decl_type t c) v) r | None \<Rightarrow> r) sets r"

definition default_row :: "sql_table \<Rightarrow> int \<Rightarrow> sql_row" where
  "default_row t key =
     map (\<lambda>c. (sc_name c, if sc_name c = ''id'' then SInt key else sc_default c)) (st_columns t)"

definition sql_insert ::
  "sqlite \<Rightarrow> database \<Rightarrow> string \<Rightarrow> (string \<times> sqlval) list \<Rightarrow> sql_error + (int \<times> database)" where
  "sql_insert e db tab sets =
     (case find_table db tab of None \<Rightarrow> Inl (NoSuchTable tab)
      | Some t \<Rightarrow>
         (case check_names e t (map fst sets) of Some err \<Rightarrow> Inl err
          | None \<Rightarrow>
             (let key = st_seq t + 1;
                  r = assign e t sets (default_row t key);
                  t' = t\<lparr>st_rows := st_rows t @ [r], st_seq := key\<rparr>
              in if sq_accepts e t' r then Inr (key, put_table tab t' db)
                 else Inl ConstraintFailed)))"

text \<open>Update and deletion also give the number of rows affected.\<close>

definition sql_update ::
  "sqlite \<Rightarrow> database \<Rightarrow> string \<Rightarrow> (string \<times> sqlval) list \<Rightarrow> cond list
     \<Rightarrow> sql_error + (nat \<times> database)" where
  "sql_update e db tab sets cs =
     (case find_table db tab of None \<Rightarrow> Inl (NoSuchTable tab)
      | Some t \<Rightarrow>
         (case check_names e t (map fst sets @ concat (map cond_names cs)) of
            Some err \<Rightarrow> Inl err
          | None \<Rightarrow>
             (let rows = map (\<lambda>r. if matches e t cs r then assign e t sets r else r) (st_rows t);
                  t' = t\<lparr>st_rows := rows\<rparr>
              in if list_all (sq_accepts e t') (map (assign e t sets) (filter (matches e t cs) (st_rows t)))
                 then Inr (length (filter (matches e t cs) (st_rows t)), put_table tab t' db)
                 else Inl ConstraintFailed)))"

definition sql_delete ::
  "sqlite \<Rightarrow> database \<Rightarrow> string \<Rightarrow> cond list \<Rightarrow> sql_error + (nat \<times> database)" where
  "sql_delete e db tab cs =
     (case find_table db tab of None \<Rightarrow> Inl (NoSuchTable tab)
      | Some t \<Rightarrow>
         (case check_names e t (concat (map cond_names cs)) of Some err \<Rightarrow> Inl err
          | None \<Rightarrow>
             Inr (length (filter (matches e t cs) (st_rows t)),
                  put_table tab (t\<lparr>st_rows := filter (\<lambda>r. \<not> matches e t cs r) (st_rows t)\<rparr>) db)))"

section \<open>Facts\<close>

lemma set_insert_sorted [simp]: "set (insert_sorted le x ys) = insert x (set ys)"
  by (induction ys) auto

lemma set_sort_by_le [simp]: "set (sort_by_le le xs) = set xs"
  unfolding sort_by_le_def by (induction xs) auto

lemma length_insert_sorted [simp]: "length (insert_sorted le x ys) = Suc (length ys)"
  by (induction ys) auto

lemma length_sort_by_le [simp]: "length (sort_by_le le xs) = length xs"
  unfolding sort_by_le_def by (induction xs) auto

lemma set_ordered [simp]: "set (ordered e t ord rows) = set rows"
  by (simp add: ordered_def)

lemma matches_append [simp]: "matches e t (cs @ ds) r \<longleftrightarrow> matches e t cs r \<and> matches e t ds r"
  by (auto simp: matches_def)

lemma matches_Cons [simp]: "matches e t (c # ds) r \<longleftrightarrow> cond_holds e t r c \<and> matches e t ds r"
  by (auto simp: matches_def)

lemma matches_Nil [simp]: "matches e t [] r"
  by (simp add: matches_def)

lemma select_plain: "\<not> is_raw prj \<Longrightarrow> sql_select e db tab prj cs ord lmt = select_columns e db tab prj cs ord lmt"
  by (cases prj) (simp_all add: sql_select_def)

lemma single_statement_simps [simp]:
  "single_statement []"
  "single_statement (c # s) \<longleftrightarrow> c \<noteq> CHR '';'' \<and> single_statement s"
  "single_statement (s @ s') \<longleftrightarrow> single_statement s \<and> single_statement s'"
  by (auto simp: single_statement_def)

text \<open>Every row a query returns is the projection of a row of the table that meets its conditions.\<close>

lemma select_rows:
  assumes "sql_select e db tab prj cs ord lmt = Inr rows" "r \<in> set rows" "\<not> is_raw prj"
  shows "\<exists>t r'. find_table db tab = Some t \<and> r' \<in> set (st_rows t) \<and> matches e t cs r'
           \<and> r = projected t prj r'"
proof -
  from assms(1,3) have sel: "select_columns e db tab prj cs ord lmt = Inr rows" by (simp add: select_plain)
  then obtain t where t: "find_table db tab = Some t"
    by (auto simp: select_columns_def split: option.splits)
  let ?f = "filter (matches e t cs) (st_rows t)"
  let ?o = "case ord of Some d \<Rightarrow> ordered e t d ?f | None \<Rightarrow> ?f"
  let ?l = "case lmt of Some (n, off) \<Rightarrow> take (nat n) (drop (nat off) ?o) | None \<Rightarrow> ?o"
  from sel t have "rows = map (projected t prj) ?l"
    by (auto simp: select_columns_def Let_def split: option.splits prod.splits)
  moreover have "set ?l \<subseteq> set ?f"
    by (auto split: option.splits dest!: in_set_takeD in_set_dropD)
  ultimately show ?thesis using t assms(2) by auto
qed

lemma select_length:
  assumes "sql_select e db tab prj cs ord (Some (n, off)) = Inr rows" "\<not> is_raw prj"
  shows "length rows \<le> nat n"
  using assms by (auto simp: select_plain select_columns_def Let_def split: option.splits)

lemma check_names_resolve: "check_names e t ns = None \<Longrightarrow> n \<in> set ns \<Longrightarrow> \<exists>d. resolve t n = Some d"
  by (induction ns) (auto simp: check_name_def split: option.splits if_splits)

lemma select_names:
  assumes "sql_select e db tab prj cs ord lmt = Inr rows" "find_table db tab = Some t"
    "n \<in> set (projection_names prj @ concat (map cond_names cs))" "\<not> is_raw prj"
  shows "\<exists>d. resolve t n = Some d"
proof -
  let ?ns = "projection_names prj @ concat (map cond_names cs)
      @ (case ord of Some (c, _) \<Rightarrow> [c] | None \<Rightarrow> [])"
  have "check_names e t ?ns = None"
    using assms(1,2,4) by (cases "check_names e t ?ns") (auto simp: select_plain select_columns_def)
  moreover have "n \<in> set ?ns" using assms(3) by auto
  ultimately show ?thesis by (rule check_names_resolve)
qed

lemma find_put_other:
  assumes "fold_case n \<noteq> fold_case tab"
  shows "find_table (put_table tab t db) n = find_table db n"
  unfolding find_table_def put_table_def using assms by (induction db) (auto split: if_splits)

lemma find_put_same:
  assumes "find_table db tab \<noteq> None"
  shows "find_table (put_table tab t db) tab = Some t"
  using assms unfolding find_table_def put_table_def by (induction db) (auto split: if_splits)

lemma find_put:
  "find_table db tab = Some t0 \<Longrightarrow>
     find_table (put_table tab t db) n = (if fold_case n = fold_case tab then Some t else find_table db n)"
  using find_put_other [of n tab t db] find_put_same [of db tab t]
  by (auto simp: find_table_def)

text \<open>The rows a statement leaves alone, in their order.\<close>

lemma subseq_filter_map:
  "(\<And>r. r \<in> set rs \<Longrightarrow> P r \<Longrightarrow> f r = r) \<Longrightarrow> subseq (filter P rs) (map f rs)"
  by (induction rs) auto

lemma subseq_filter_filter:
  "(\<And>r. r \<in> set rs \<Longrightarrow> P r \<Longrightarrow> Q r) \<Longrightarrow> subseq (filter P rs) (filter Q rs)"
  by (induction rs) auto

lemma subseq_filter_append: "subseq (filter P rs) (rs @ ys)"
  by (induction rs) auto

text \<open>An update or a deletion with condition \<open>cs\<close> keeps every row that does not meet it.\<close>

definition keeps_rows :: "(sql_table \<Rightarrow> sql_row \<Rightarrow> bool) \<Rightarrow> database \<Rightarrow> database \<Rightarrow> string \<Rightarrow> bool" where
  "keeps_rows P db db' tab \<longleftrightarrow>
     (case find_table db tab of None \<Rightarrow> db' = db
      | Some t \<Rightarrow> (\<exists>t'. find_table db' tab = Some t' \<and> st_columns t' = st_columns t
                     \<and> subseq (filter (P t) (st_rows t)) (st_rows t'))
           \<and> (\<forall>n. fold_case n \<noteq> fold_case tab \<longrightarrow> find_table db' n = find_table db n))"

lemma keeps_rows_refl [simp]: "keeps_rows P db db tab"
  by (auto simp: keeps_rows_def split: option.splits)

lemma update_keeps:
  assumes "sql_update e db tab sets cs = Inr (n, db')"
    and "\<And>t r. P t r \<Longrightarrow> \<not> matches e t cs r"
  shows "keeps_rows P db db' tab"
  using assms
  by (auto simp: sql_update_def keeps_rows_def find_put Let_def split: option.splits if_splits
      intro!: subseq_filter_map)

lemma delete_keeps:
  assumes "sql_delete e db tab cs = Inr (n, db')"
    and "\<And>t r. P t r \<Longrightarrow> \<not> matches e t cs r"
  shows "keeps_rows P db db' tab"
  using assms
  by (auto simp: sql_delete_def keeps_rows_def find_put split: option.splits
      intro!: subseq_filter_filter)

lemma insert_keeps:
  assumes "sql_insert e db tab sets = Inr (k, db')"
  shows "keeps_rows P db db' tab"
  using assms
  by (auto simp: sql_insert_def keeps_rows_def find_put Let_def split: option.splits if_splits
      intro: subseq_filter_append)

text \<open>Column names of a table differ by more than case; each then denotes itself.\<close>

definition table_ok :: "sql_table \<Rightarrow> bool" where
  "table_ok t \<longleftrightarrow> distinct (map (\<lambda>c. fold_case (sc_name c)) (st_columns t))"

lemma find_key:
  "distinct (map f xs) \<Longrightarrow> x \<in> set xs \<Longrightarrow> find (\<lambda>y. f y = f x) xs = Some x"
  by (induction xs) auto

lemma column_of_self:
  "table_ok t \<Longrightarrow> c \<in> set (st_columns t) \<Longrightarrow> column_of t (sc_name c) = Some c"
  using find_key [of "\<lambda>c. fold_case (sc_name c)" "st_columns t" c]
  by (simp add: column_of_def table_ok_def)

lemma resolve_self [simp]:
  "table_ok t \<Longrightarrow> c \<in> sc_name ` set (st_columns t) \<Longrightarrow> resolve t c = Some c"
  by (auto simp: resolve_def column_of_self)

lemma cell_put [simp]: "cell (alist_put c v r) d = (if d = c then v else cell r d)"
  by (simp add: cell_def)

lemma assign_snoc:
  "assign e t (sets @ [(c, v)]) r =
     (case resolve t c of
        Some d \<Rightarrow> alist_put d (sq_store e (decl_type t c) v) (assign e t sets r)
      | None \<Rightarrow> assign e t sets r)"
  by (cases "resolve t c") (simp_all add: assign_def)

text \<open>What an assignment list with exact column names leaves in a row.\<close>

lemma assign_other:
  "\<forall>(c, v) \<in> set sets. resolve t c = Some c \<and> c \<noteq> d \<Longrightarrow> cell (assign e t sets r) d = cell r d"
  by (induction sets rule: rev_induct) (auto simp: assign_snoc, simp add: assign_def)

lemma assign_value:
  assumes "\<forall>(c, v) \<in> set sets. resolve t c = Some c" "(d, v0) \<in> set sets"
    and "\<forall>(c, v) \<in> set sets. c = d \<longrightarrow> v = v0"
  shows "cell (assign e t sets r) d = sq_store e (decl_type t d) v0"
  using assms
proof (induction sets rule: rev_induct)
  case (snoc x sets)
  obtain c v where x: "x = (c, v)" by (cases x)
  show ?case
  proof (cases "c = d")
    case True
    with snoc.prems x show ?thesis by (auto simp: assign_snoc)
  next
    case False
    with snoc x show ?thesis by (auto simp: assign_snoc)
  qed
qed simp

lemma cell_default_row:
  assumes "''id'' \<in> sc_name ` set (st_columns t)"
  shows "cell (default_row t key) ''id'' = SInt key"
proof -
  have "''id'' \<in> sc_name ` set cs \<Longrightarrow>
      map_of (map (\<lambda>c. (sc_name c, if sc_name c = ''id'' then SInt key else sc_default c)) cs) ''id''
      = Some (SInt key)" for cs
    by (induction cs) auto
  from this [OF assms] show ?thesis unfolding cell_def default_row_def by simp
qed

lemma insert_result:
  assumes "sql_insert e db tab sets = Inr (key, db')"
  shows "\<exists>t t'. find_table db tab = Some t \<and> find_table db' tab = Some t' \<and> st_columns t' = st_columns t
           \<and> key = st_seq t + 1 \<and> st_rows t' = st_rows t @ [assign e t sets (default_row t key)]"
  using assms
  by (auto simp: sql_insert_def find_put Let_def split: option.splits if_splits)

section \<open>A concrete engine\<close>

text \<open>An instance for evaluation: values are stored as given, an integer column compares with the
  number a text denotes, patterns and other comparisons are exact, and every row is accepted.\<close>

fun as_number :: "sqlval \<Rightarrow> sqlval" where
  "as_number (SText s) = (case atoi s of Some n \<Rightarrow> SInt n | None \<Rightarrow> SText s)"
| "as_number v = v"

definition plain_cmp :: "string \<Rightarrow> string \<Rightarrow> sqlval \<Rightarrow> sqlval \<Rightarrow> bool" where
  "plain_cmp ty opr x y =
     (let y = (if ty = ''INTEGER'' then as_number y else y)
      in if opr = ''='' then x = y else if opr = ''!='' then x \<noteq> y else False)"

definition plain_engine :: sqlite where
  "plain_engine = \<lparr>sq_store = (\<lambda>_ v. v), sq_cmp = plain_cmp, sq_like = (=), sq_le = (\<lambda>_ _. True),
     sq_accepts = (\<lambda>_ _. True), sq_reserved = (\<lambda>_. False), sq_raw = (\<lambda>s _ _ _ _ _. Inl (SyntaxError s))\<rparr>"

end
