(* ===== verification/ApiCache.thy ===== *)
theory ApiCache
  imports GoTime
begin

text \<open>
  The response cache of the public API, \<open>server/public/cache.go\<close> (the type \<open>'b\<close> stands for the
  bytes of a response body, which the cache only stores), and the sliding-window limiter
  of the LLM endpoints, \<open>checkLLMRateLimit\<close> in \<open>server/public/handler.go\<close>. The clock is an
  argument of each operation (\<open>time.Now()\<close> in the code). Every operation runs under its lock.
\<close>

section \<open>The cache\<close>

record 'b cache_entry =
  ce_body :: 'b
  ce_status :: int
  expires_at :: instant

type_synonym 'b api_cache = "string \<rightharpoonup> 'b cache_entry"

definition invalidation_prefix :: "int \<Rightarrow> string \<Rightarrow> string" where
  "invalidation_prefix site table = itoa site @ '':'' @ table @ '':''"

definition cache_key :: "int \<Rightarrow> string \<Rightarrow> string \<Rightarrow> string \<Rightarrow> string" where
  "cache_key site table path query = invalidation_prefix site table @ path @ ''?'' @ query"

definition cache_get :: "instant \<Rightarrow> 'b api_cache \<Rightarrow> string \<Rightarrow> ('b \<times> int) option" where
  "cache_get now c key =
     (case c key of
        None \<Rightarrow> None
      | Some e \<Rightarrow> if now > expires_at e then None else Some (ce_body e, ce_status e))"

definition cache_set ::
  "instant \<Rightarrow> string \<Rightarrow> 'b \<Rightarrow> int \<Rightarrow> int \<Rightarrow> 'b api_cache \<Rightarrow> 'b api_cache" where
  "cache_set now key body status ttl c =
     c(key \<mapsto> \<lparr> ce_body = body, ce_status = status, expires_at = now + ttl \<rparr>)"

definition invalidate_table :: "int \<Rightarrow> string \<Rightarrow> 'b api_cache \<Rightarrow> 'b api_cache" where
  "invalidate_table site table c =
     (\<lambda>key. if has_prefix key (invalidation_prefix site table) then None else c key)"

definition cache_evict :: "instant \<Rightarrow> 'b api_cache \<Rightarrow> 'b api_cache" where
  "cache_evict now c =
     (\<lambda>key. case c key of
        None \<Rightarrow> None
      | Some e \<Rightarrow> if now > expires_at e then None else Some e)"

lemma colon_split:
  "CHR '':'' \<notin> set a \<Longrightarrow> CHR '':'' \<notin> set b \<Longrightarrow>
     a @ CHR '':'' # x = b @ CHR '':'' # y \<Longrightarrow> a = b \<and> x = y"
proof (induction a arbitrary: b)
  case Nil
  then show ?case by (cases b) auto
next
  case (Cons c a)
  then show ?case by (cases b) auto
qed

text \<open>A key belongs to one site and one table, whatever follows.\<close>

lemma prefix_of_key:
  assumes "CHR '':'' \<notin> set t" "CHR '':'' \<notin> set t'"
  shows "has_prefix (cache_key s' t' p q) (invalidation_prefix s t) \<longleftrightarrow> s = s' \<and> t = t'"
proof
  assume "has_prefix (cache_key s' t' p q) (invalidation_prefix s t)"
  then obtain r where "cache_key s' t' p q = invalidation_prefix s t @ r" by (auto elim: prefixE)
  then have "itoa s @ CHR '':'' # (t @ CHR '':'' # r)
      = itoa s' @ CHR '':'' # (t' @ CHR '':'' # (p @ ''?'' @ q))"
    by (simp add: cache_key_def invalidation_prefix_def)
  from colon_split [OF colon_notin_itoa colon_notin_itoa this]
  show "s = s' \<and> t = t'" using colon_split [OF assms] by (auto simp: itoa_inj)
qed (simp add: cache_key_def)

text \<open>
  The cache as the request handlers use it: reads see the last write of the key unless it has
  expired or its table has been invalidated since.
\<close>

locale response_cache =
  fixes get :: "instant \<Rightarrow> 'c \<Rightarrow> 'k \<Rightarrow> 'r option"
    and put :: "instant \<Rightarrow> 'k \<Rightarrow> 'r \<Rightarrow> int \<Rightarrow> 'c \<Rightarrow> 'c"
    and drop_group :: "'g \<Rightarrow> 'c \<Rightarrow> 'c"
    and sweep :: "instant \<Rightarrow> 'c \<Rightarrow> 'c"
    and belongs :: "'g \<Rightarrow> 'k \<Rightarrow> bool"
  assumes get_put: "get now' (put now k r ttl c) k'
      = (if k' = k then (if now' \<le> now + ttl then Some r else None) else get now' c k')"
    and get_drop: "get now' (drop_group g c) k = (if belongs g k then None else get now' c k)"
    and get_sweep: "now \<le> now' \<Longrightarrow> get now' (sweep now c) k = get now' c k"
begin

lemma fresh_hit: "now' \<le> now + ttl \<Longrightarrow> get now' (put now k r ttl c) k = Some r"
  by (simp add: get_put)

lemma hit_survives:
  assumes "\<not> belongs g k" "now1 \<le> now'" "k' \<noteq> k" "now' \<le> now + ttl"
  shows "get now' (put now1 k' r' ttl' (sweep now1 (drop_group g (put now k r ttl c)))) k = Some r"
  using assms by (simp add: get_put get_drop get_sweep)

lemma no_stale_hit:
  assumes "belongs g k" "now \<le> now'" "k' \<noteq> k"
  shows "get now' (put now k' r' ttl' (sweep now (drop_group g c))) k = None"
  using assms by (simp add: get_put get_drop get_sweep)

end

definition cache_put ::
  "instant \<Rightarrow> string \<Rightarrow> 'b \<times> int \<Rightarrow> int \<Rightarrow> 'b api_cache \<Rightarrow> 'b api_cache" where
  "cache_put now key r ttl c = cache_set now key (fst r) (snd r) ttl c"

definition cache_drop :: "int \<times> string \<Rightarrow> 'b api_cache \<Rightarrow> 'b api_cache" where
  "cache_drop g c = invalidate_table (fst g) (snd g) c"

interpretation api: response_cache cache_get cache_put cache_drop cache_evict
  "\<lambda>g key. has_prefix key (invalidation_prefix (fst g) (snd g))"
  by unfold_locales
    (auto simp: cache_get_def cache_put_def cache_set_def cache_drop_def invalidate_table_def
      cache_evict_def split: option.splits)

section \<open>The sliding-window limiter\<close>

type_synonym limiter = "string \<rightharpoonup> instant list"

definition window_valid :: "instant \<Rightarrow> limiter \<Rightarrow> string \<Rightarrow> instant list" where
  "window_valid now l key =
     filter (\<lambda>ts. ts > now - minute_ns) (case l key of Some ts \<Rightarrow> ts | None \<Rightarrow> [])"

definition check_llm_rate_limit :: "instant \<Rightarrow> string \<Rightarrow> int \<Rightarrow> limiter \<Rightarrow> bool \<times> limiter" where
  "check_llm_rate_limit now key max_per_minute l =
     (let valid = window_valid now l key
      in if int (length valid) \<ge> max_per_minute then (False, l(key \<mapsto> valid))
         else (True, l(key \<mapsto> valid @ [now])))"

text \<open>A run of requests for one key: their times, and the times of those let through.\<close>

fun admitted :: "string \<Rightarrow> int \<Rightarrow> instant list \<Rightarrow> limiter \<Rightarrow> instant list" where
  "admitted key mx [] l = []"
| "admitted key mx (t # ts) l =
     (let (ok, l') = check_llm_rate_limit t key mx l
      in if ok then t # admitted key mx ts l' else admitted key mx ts l')"

definition recorded :: "limiter \<Rightarrow> string \<Rightarrow> instant list" where
  "recorded l key = (case l key of Some ts \<Rightarrow> ts | None \<Rightarrow> [])"

lemma recorded_check:
  "recorded (snd (check_llm_rate_limit t key mx l)) key
     = filter (\<lambda>ts. ts > t - minute_ns) (recorded l key)
       @ (if fst (check_llm_rate_limit t key mx l) then [t] else [])"
  by (simp add: recorded_def check_llm_rate_limit_def window_valid_def Let_def)

lemma check_admits:
  "fst (check_llm_rate_limit t key mx l) \<longleftrightarrow>
     int (length (filter (\<lambda>ts. ts > t - minute_ns) (recorded l key))) < mx"
  by (auto simp: recorded_def check_llm_rate_limit_def window_valid_def Let_def)

lemma filter_window_mono:
  "t \<le> w \<Longrightarrow> filter (\<lambda>ts. ts > w - minute_ns) (filter (\<lambda>ts. ts > t - minute_ns) xs)
     = filter (\<lambda>ts. ts > w - minute_ns) xs"
  by (induction xs) auto

text \<open>In any window of one minute that ends at a request, at most the limit are let through,
  counting what the table already recorded.\<close>

lemma admitted_window:
  assumes "sorted ts" "\<forall>t \<in> set ts. t \<le> w" "0 \<le> mx"
    and "int (length (filter (\<lambda>t. t > w - minute_ns) (recorded l key))) \<le> mx"
  shows "int (length (filter (\<lambda>t. t > w - minute_ns) (recorded l key))
           + length (filter (\<lambda>t. t > w - minute_ns) (admitted key mx ts l))) \<le> mx"
  using assms
proof (induction ts arbitrary: l)
  case Nil
  then show ?case by simp
next
  case (Cons t ts)
  obtain ok l' where c: "check_llm_rate_limit t key mx l = (ok, l')" by force
  let ?W = "\<lambda>xs. filter (\<lambda>t. t > w - minute_ns) xs"
  have tw: "t \<le> w" using Cons.prems by simp
  have rec: "?W (recorded l' key) = ?W (recorded l key) @ ?W (if ok then [t] else [])"
    using recorded_check [of t key mx l] c filter_window_mono [OF tw, of "recorded l key"] by simp
  have sub: "length (?W (recorded l key)) \<le> length (filter (\<lambda>ts. ts > t - minute_ns) (recorded l key))"
    using filter_window_mono [OF tw, of "recorded l key"] length_filter_le by metis
  have "ok \<longrightarrow> int (length (?W (recorded l key))) + 1 \<le> mx"
    using check_admits [of t key mx l] c sub by auto
  then have bound: "int (length (?W (recorded l' key))) \<le> mx" using rec Cons.prems(4) by auto
  have "int (length (?W (recorded l' key)) + length (?W (admitted key mx ts l'))) \<le> mx"
    using Cons.IH [of l'] Cons.prems bound by simp
  then show ?case using rec c by (auto simp: Let_def)
qed

section \<open>Properties\<close>

text \<open>Cache coherence: after a write invalidates a table, no response of that site and table
  is served from the cache, while a fresh response of any other site or table still is, through
  any later eviction sweep and unrelated store.\<close>

theorem cache_coherent:
  assumes "CHR '':'' \<notin> set t" "CHR '':'' \<notin> set t'" "now1 \<le> now2" "now2 \<le> now + ttl"
    and "k' \<noteq> cache_key s' t' p q"
  shows "cache_get now2 (cache_set now1 k' b st ttl' (cache_evict now1 (invalidate_table s t
            (cache_set now (cache_key s' t' p q) body status ttl c)))) (cache_key s' t' p q)
         = (if s = s' \<and> t = t' then None else Some (body, status))"
  using api.hit_survives [of "(s, t)" "cache_key s' t' p q" now1 now2 k' now ttl "(b, st)" ttl' "(body, status)" c]
    api.no_stale_hit [of "(s, t)" "cache_key s' t' p q" now1 now2 k' "(b, st)" ttl'
       "cache_set now (cache_key s' t' p q) body status ttl c"]
    prefix_of_key [OF assms(1,2), of s s' p q] assms
  by (simp add: cache_put_def cache_drop_def)

lemma cache_coherent_witness:
  "cache_get 20 (cache_set 10 ''k'' ''b'' 200 5 (cache_evict 10 (invalidate_table 1 ''posts''
      (cache_set 0 (cache_key 11 ''posts'' ''/api/posts'' '''') ''[]'' 200 60 Map.empty))))
      (cache_key 11 ''posts'' ''/api/posts'' '''')
    = Some (''[]'', 200)"
proof -
  have "''k'' \<noteq> cache_key 11 ''posts'' ''/api/posts'' ''''" by code_simp
  then show ?thesis
    using cache_coherent [of "''posts''" "''posts''" 10 20 0 60 "''k''" 11 "''/api/posts''" "''''"
        "''b''" 200 5 1 "''[]''" 200 Map.empty] by simp
qed

text \<open>LLM rate limit: for requests with one key whose times do not go back, at most
  \<open>rate_limit\<close> are let through in any window of one minute that ends at or after the last of
  them, starting from an empty table.\<close>

theorem llm_rate_limit_window:
  assumes "sorted ts" "\<forall>t \<in> set ts. t \<le> w" "0 \<le> mx"
  shows "int (length (filter (\<lambda>t. t > w - minute_ns) (admitted key mx ts Map.empty))) \<le> mx"
  using admitted_window [OF assms, of Map.empty key] assms(3) by (simp add: recorded_def)

lemma llm_rate_limit_window_witness:
  "int (length (filter (\<lambda>t. t > 9 - minute_ns) (admitted ''1:chat'' 2 [1, 5, 7, 9] Map.empty))) \<le> 2
   \<and> admitted ''1:chat'' 2 [1, 5, 7, 9] Map.empty = [1, 5]"
proof -
  have "admitted ''1:chat'' 2 [1, 5, 7, 9] Map.empty = [1, 5]"
    by (simp add: check_llm_rate_limit_def window_valid_def)
  then show ?thesis using llm_rate_limit_window [of "[1, 5, 7, 9]" 9 2 "''1:chat''"] by simp
qed

end
