(* ===== verification/PublicRequest.thy ===== *)
theory PublicRequest
  imports Sql Json ApiCache
begin

text \<open>
  What the handlers of a published site share (\<open>server/public\<close>): the request with its query
  string, the identifiers of package \<open>security\<close>, the claims of a token, the environment of a
  request, and the rows of a response. The tables and the configuration of the site are the
  state; the clock, the token checks, hashing and encryption are in the environment.
\<close>

section \<open>Identifiers\<close>

definition ascii_letter :: "char \<Rightarrow> bool" where
  "ascii_letter c = (let n = (of_char c :: nat) in (65 \<le> n \<and> n \<le> 90) \<or> (97 \<le> n \<and> n \<le> 122))"

definition ident_char :: "char \<Rightarrow> bool" where
  "ident_char c = (ascii_letter c \<or> is_digit c \<or> c = CHR ''_'')"

definition valid_identifier :: "string \<Rightarrow> bool" where
  "valid_identifier s = (case s of [] \<Rightarrow> False | c # cs \<Rightarrow> ascii_letter c \<and> list_all ident_char cs)"

definition validate_column_name :: "string \<Rightarrow> string option" where
  "validate_column_name name =
     (if valid_identifier name then None else Some (''invalid column name: '' @ name))"

fun validate_column_names :: "string list \<Rightarrow> string option" where
  "validate_column_names [] = None"
| "validate_column_names (n # ns) =
     (case validate_column_name n of Some e \<Rightarrow> Some e | None \<Rightarrow> validate_column_names ns)"

text \<open>\<open>strings.EqualFold\<close> with an ASCII second argument: the letters s and k have one more
  variant each, U+017F and U+212A.\<close>

fun fold_text :: "string \<Rightarrow> string" where
  "fold_text (a # b # s) =
     (if a = CHR 0xC5 \<and> b = CHR 0xBF then CHR ''s'' # fold_text s
      else case s of
        c # s' \<Rightarrow> if a = CHR 0xE2 \<and> b = CHR 0x84 \<and> c = CHR 0xAA then CHR ''k'' # fold_text s'
                   else lower_char a # fold_text (b # s)
      | [] \<Rightarrow> lower_char a # fold_text (b # s))"
| "fold_text [a] = [lower_char a]"
| "fold_text [] = []"

definition equal_fold :: "string \<Rightarrow> string \<Rightarrow> bool" where
  "equal_fold s t = (fold_text s = fold_text t)"

section \<open>Requests\<close>

record request =
  rq_method :: string
  rq_path :: string
  rq_query :: string
  rq_origin :: string
  rq_auth :: string
  rq_body :: string
  rq_cookie :: "string option"
  rq_host :: string
  rq_tls :: bool

text \<open>\<open>url.ParseQuery\<close>: percent escapes and plus signs, and the pairs that decode.\<close>

fun query_unescape :: "string \<Rightarrow> string option" where
  "query_unescape [] = Some []"
| "query_unescape (c # s) =
     (if c = CHR ''%'' then
        (case s of
           a # b # s' \<Rightarrow>
             (case (hex_val a, hex_val b) of
                (Some x, Some y) \<Rightarrow> map_option (\<lambda>r. char_of (16 * x + y) # r) (query_unescape s')
              | _ \<Rightarrow> None)
         | _ \<Rightarrow> None)
      else map_option (\<lambda>r. (if c = CHR ''+'' then CHR '' '' else c) # r) (query_unescape s))"

definition query_pair :: "string \<Rightarrow> (string \<times> string) option" where
  "query_pair p =
     (if p = [] \<or> contains p '';'' then None
      else let (k, v) = cut_char (CHR ''='') p
           in case (query_unescape k, query_unescape (case v of Some x \<Rightarrow> x | None \<Rightarrow> [])) of
                (Some k, Some v) \<Rightarrow> Some (k, v) | _ \<Rightarrow> None)"

type_synonym query = "(string, string list) gomap"

definition add_pair :: "string \<times> string \<Rightarrow> query \<Rightarrow> query" where
  "add_pair kv q =
     alist_put (fst kv) ((case map_of q (fst kv) of Some vs \<Rightarrow> vs | None \<Rightarrow> []) @ [snd kv]) q"

definition parse_query :: "string \<Rightarrow> query" where
  "parse_query raw = fold add_pair (List.map_filter query_pair (split_char (CHR ''&'') raw)) []"

definition query_get :: "query \<Rightarrow> string \<Rightarrow> string" where
  "query_get q k = (case map_of q k of Some (v # _) \<Rightarrow> v | _ \<Rightarrow> [])"

text \<open>\<open>json.NewDecoder(r.Body).Decode(&body)\<close> into a map: the first value of the text; \<open>null\<close>
  leaves the nil map.\<close>

datatype decoded_body = BadBody | NilBody | ObjBody jobj

definition decode_body :: "string \<Rightarrow> decoded_body" where
  "decode_body s =
     (case parse_value 10000 s of
        Some (JObj m, _) \<Rightarrow> ObjBody m
      | Some (JNull, _) \<Rightarrow> NilBody
      | _ \<Rightarrow> BadBody)"

text \<open>A value of a decoded body or one the program puts there.\<close>

datatype goval = GJson json | GInt int | GText string

type_synonym goobj = "(string, goval) gomap"

text \<open>What the driver binds; it rejects lists and objects.\<close>

fun bind_value :: "goval \<Rightarrow> sqlval option" where
  "bind_value (GInt n) = Some (SInt n)"
| "bind_value (GText s) = Some (SText s)"
| "bind_value (GJson JNull) = Some SNull"
| "bind_value (GJson (JBool b)) = Some (SInt (if b then 1 else 0))"
| "bind_value (GJson (JNum x)) = Some (SReal x)"
| "bind_value (GJson (JStr s)) = Some (SText s)"
| "bind_value (GJson _) = None"

fun bind_all :: "(string \<times> goval) list \<Rightarrow> (string \<times> sqlval) list option" where
  "bind_all [] = Some []"
| "bind_all ((c, v) # kvs) =
     (case (bind_value v, bind_all kvs) of
        (Some x, Some xs) \<Rightarrow> Some ((c, x) # xs) | _ \<Rightarrow> None)"

lemma bind_all_names: "bind_all kvs = Some sets \<Longrightarrow> map fst sets = map fst kvs"
  by (induction kvs arbitrary: sets) (auto split: option.splits)

section \<open>Decoded configuration\<close>

text \<open>\<open>json.Unmarshal\<close> into a \<open>[]string\<close> and a \<open>map[string]string\<close>, whose errors the code
  ignores: an element of another type leaves the empty string.\<close>

definition json_text :: "json \<Rightarrow> string" where
  "json_text j = (case j of JStr s \<Rightarrow> s | _ \<Rightarrow> [])"

definition unmarshal_strings :: "string \<Rightarrow> string list" where
  "unmarshal_strings s = (case unmarshal s of Some (JArr xs) \<Rightarrow> map json_text xs | _ \<Rightarrow> [])"

definition unmarshal_string_map :: "string \<Rightarrow> (string, string) gomap" where
  "unmarshal_string_map s =
     (case unmarshal s of Some (JObj m) \<Rightarrow> map (\<lambda>(k, v). (k, json_text v)) m | _ \<Rightarrow> [])"

section \<open>Environment and state\<close>

record claims =
  cl_site :: int
  cl_user :: int
  cl_username :: string
  cl_role :: string
  cl_issued :: int
  cl_expires :: int

record oauth_row =
  oa_name :: string
  oa_client_id :: string
  oa_secret_name :: string
  oa_authorize_url :: string
  oa_scopes :: string
  oa_username_field :: string
  oa_auth_path :: string
  oa_enabled :: bool

text \<open>
  \<open>pe_order\<close> is the order in which Go visits the keys of a map; \<open>pe_jwt\<close> is \<open>Validate\<close> of the
  token manager at an instant, None when there is none; \<open>pe_expiry\<close> is how long a token is valid; \<open>pe_sign\<close> signs claims; \<open>pe_hash\<close> and \<open>pe_check\<close> are
  bcrypt; \<open>pe_encrypt\<close> is None without an encryptor; \<open>pe_sprint\<close> is \<open>fmt.Sprintf("%v", v)\<close> and
  \<open>pe_float_text\<close> the text a \<open>float64\<close> is scanned to; \<open>pe_random\<close> are 16 random bytes; \<open>pe_exchange\<close>
  and \<open>pe_userinfo\<close> are the HTTP calls to a login provider. \<open>rq_cookie\<close> is the cookie \<open>oauth_state\<close>.
\<close>

record pub_env =
  pe_now :: instant
  pe_site :: int
  pe_domain :: "string option"
  pe_engine :: sqlite
  pe_order :: "string list \<Rightarrow> string list"
  pe_jwt :: "(instant \<Rightarrow> string \<Rightarrow> claims option) option"
  pe_expiry :: int
  pe_sign :: "claims \<Rightarrow> string option"
  pe_hmac :: "string \<Rightarrow> string"
  pe_random :: "string option"
  pe_site_config :: "string option"
  pe_hash :: "string \<Rightarrow> string option"
  pe_check :: "string \<Rightarrow> string \<Rightarrow> bool"
  pe_encrypt :: "(string \<Rightarrow> string option) option"
  pe_decrypt :: "string \<Rightarrow> string option"
  pe_sprint :: "goval \<Rightarrow> string"
  pe_float_text :: "rat \<Rightarrow> string"
  pe_exchange :: "oauth_row \<Rightarrow> string \<Rightarrow> string \<Rightarrow> string \<Rightarrow> string + string"
  pe_userinfo :: "oauth_row \<Rightarrow> string \<Rightarrow> string + jobj"
  pe_error_text :: "sql_error \<Rightarrow> string"

type_synonym api_row = sql_row

datatype body =
    ErrorBody string
  | ListBody "api_row list" nat int int
  | RowBody api_row
  | SuccessBody
  | CreatedBody int
  | TokenBody int string
  | EmptyBody

record response =
  rp_status :: int
  rp_headers :: "(string \<times> string) list"
  rp_body :: body

definition answer :: "int \<Rightarrow> body \<Rightarrow> response" where
  "answer code b = \<lparr>rp_status = code, rp_headers = [(''Content-Type'', ''application/json'')], rp_body = b\<rparr>"

abbreviation write_public_error :: "int \<Rightarrow> string \<Rightarrow> response" where
  "write_public_error code msg \<equiv> answer code (ErrorBody msg)"

record endpoint_row =
  er_path :: string
  er_table :: string
  er_methods :: string
  er_public_columns :: "string option"
  er_requires_auth :: bool
  er_public_read :: bool
  er_required_role :: string
  er_cors_origins :: string
  er_cors_methods :: string
  er_cors_headers :: string
  er_owner_column :: string
  er_cache_ttl :: int

record auth_row =
  ar_path :: string
  ar_table :: string
  ar_username :: string
  ar_password :: string
  ar_public_columns :: string
  ar_default_role :: string
  ar_role_column :: string

datatype pub_event =
    DataInsert string int goobj
  | DataUpdate string string goobj
  | DataDelete string string
  | AuthRegister int string goobj
  | AuthLogin int string string string

record site_state =
  si_endpoints :: "endpoint_row list"
  si_auth :: "auth_row list"
  si_oauth :: "oauth_row list"
  si_secrets :: "(string, string) gomap"
  si_dynamic :: "(string, string) gomap"
  si_db :: database
  si_cache :: "body api_cache"
  si_events :: "pub_event list"

definition emit :: "pub_event \<Rightarrow> site_state \<Rightarrow> site_state" where
  "emit ev s = s\<lparr>si_events := si_events s @ [ev]\<rparr>"

lemma emit_simps [simp]:
  "si_db (emit ev s) = si_db s" "si_endpoints (emit ev s) = si_endpoints s"
  "si_auth (emit ev s) = si_auth s" "si_oauth (emit ev s) = si_oauth s" "si_secrets (emit ev s) = si_secrets s" "si_dynamic (emit ev s) = si_dynamic s"
  "si_cache (emit ev s) = si_cache s"
  by (simp_all add: emit_def)

section \<open>Tokens\<close>

definition token_of :: "request \<Rightarrow> string" where
  "token_of rq = trim_prefix (rq_auth rq) ''Bearer ''"

definition validate_site_token :: "pub_env \<Rightarrow> string \<Rightarrow> bool" where
  "validate_site_token en token =
     (if token = [] then False
      else case pe_site_config en of None \<Rightarrow> False
        | Some cfg \<Rightarrow>
            (case unmarshal_object cfg of None \<Rightarrow> False
             | Some m \<Rightarrow> get_str m ''api_key'' \<noteq> [] \<and> get_str m ''api_key'' = token))"

definition validate_jwt :: "pub_env \<Rightarrow> string \<Rightarrow> claims option" where
  "validate_jwt en token = (case pe_jwt en of None \<Rightarrow> None | Some v \<Rightarrow> v (pe_now en) token)"

definition validate_site_token_or_jwt :: "pub_env \<Rightarrow> string \<Rightarrow> bool" where
  "validate_site_token_or_jwt en token =
     (token \<noteq> [] \<and> (validate_site_token en token
        \<or> (case validate_jwt en token of Some c \<Rightarrow> cl_site c = pe_site en | None \<Rightarrow> False)))"

section \<open>Secure values and rows\<close>

definition process_secure_value :: "pub_env \<Rightarrow> string \<Rightarrow> goval \<Rightarrow> string + goval" where
  "process_secure_value en kind v =
     (if kind = ''hash'' then
        (case pe_hash en (pe_sprint en v) of
           None \<Rightarrow> Inl ''hashing password'' | Some h \<Rightarrow> Inr (GText h))
      else if kind = ''encrypt'' then
        (case pe_encrypt en of
           None \<Rightarrow> Inl ''encryption not configured''
         | Some f \<Rightarrow> (case f (pe_sprint en v) of
              None \<Rightarrow> Inl ''encrypting value'' | Some x \<Rightarrow> Inr (GText x)))
      else Inr v)"

text \<open>\<open>Scan\<close> into a \<open>string\<close>, which refuses NULL, and into a \<open>NullString\<close>.\<close>

fun scan_string :: "pub_env \<Rightarrow> sqlval \<Rightarrow> string option" where
  "scan_string en SNull = None"
| "scan_string en (SInt n) = Some (itoa n)"
| "scan_string en (SReal x) = Some (pe_float_text en x)"
| "scan_string en (SText s) = Some s"
| "scan_string en (SBlob s) = Some s"

definition scan_null_string :: "pub_env \<Rightarrow> sqlval \<Rightarrow> string" where
  "scan_null_string en v = (case scan_string en v of Some s \<Rightarrow> s | None \<Rightarrow> [])"

fun scan_int :: "sqlval \<Rightarrow> int option" where
  "scan_int (SInt n) = Some n"
| "scan_int (SReal x) = (if x = of_int (rat_to_int x) then Some (rat_to_int x) else None)"
| "scan_int (SText s) = atoi s"
| "scan_int (SBlob s) = atoi s"
| "scan_int SNull = None"

text \<open>\<open>scanRowsToMaps\<close>: bytes become text and a whole \<open>float64\<close> an integer.\<close>

fun scan_value :: "sqlval \<Rightarrow> sqlval" where
  "scan_value (SBlob b) = SText b"
| "scan_value (SReal x) =
     (if x = of_int (rat_to_int x) \<and> - (2 ^ 63) \<le> rat_to_int x \<and> rat_to_int x < 2 ^ 63
      then SInt (rat_to_int x) else SReal x)"
| "scan_value v = v"

definition scan_row :: "sql_row \<Rightarrow> api_row" where
  "scan_row r = fold (\<lambda>(c, v). alist_put c (scan_value v)) r []"

definition scan_rows_to_maps :: "sql_row list \<Rightarrow> api_row list" where
  "scan_rows_to_maps rows = map scan_row rows"

definition strip_secure_columns :: "(string, string) gomap \<Rightarrow> api_row list \<Rightarrow> api_row list" where
  "strip_secure_columns secure rows =
     map (filter (\<lambda>(c, _). map_of secure c \<noteq> Some ''hash'')) rows"

lemma keys_scan_row: "fst ` set (scan_row r) = fst ` set r"
proof -
  have "fst ` set (fold (\<lambda>(c, v). alist_put c (scan_value v)) r m) = fst ` set m \<union> fst ` set r" for m
    by (induction r arbitrary: m) (simp_all add: keys_alist_put split_beta)
  then show ?thesis by (simp add: scan_row_def)
qed

lemma strip_keeps_no_hash:
  "r \<in> set (strip_secure_columns secure rows) \<Longrightarrow> (c, v) \<in> set r \<Longrightarrow> map_of secure c \<noteq> Some ''hash''"
  by (auto simp: strip_secure_columns_def)

end
