(* ===== verification/PublicAuth.thy ===== *)
theory PublicAuth
  imports PublicRequest
begin

text \<open>
  The authentication routes of a published site, \<open>server/public/auth.go\<close>: registration, login,
  the caller's own record, token refresh, and the login through an OAuth provider. Every handler
  reads the site's tables with the statements of theory Sql; the only writes are the insertion of
  a user by registration and by the OAuth callback. Password hashing, the signing of tokens, the
  HMAC and the HTTP calls to a provider are in the environment.
\<close>

section \<open>Configuration\<close>

record auth_endpoint =
  ae_table :: string
  ae_path :: string
  ae_username :: string
  ae_password :: string
  ae_public_columns :: "string list"
  ae_default_role :: string
  ae_role_column :: string

definition or_default :: "string \<Rightarrow> string \<Rightarrow> string" where
  "or_default s d = (if s = [] then d else s)"

definition load_auth_endpoint :: "site_state \<Rightarrow> string \<Rightarrow> auth_endpoint option" where
  "load_auth_endpoint st path =
     (case find (\<lambda>r. ar_path r = path) (si_auth st) of None \<Rightarrow> None
      | Some r \<Rightarrow>
         (let ae = \<lparr>ae_table = ar_table r, ae_path = ar_path r, ae_username = ar_username r,
                ae_password = ar_password r, ae_public_columns = unmarshal_strings (ar_public_columns r),
                ae_default_role = or_default (ar_default_role r) ''user'',
                ae_role_column = or_default (ar_role_column r) ''role''\<rparr>
          in if validate_column_name (ae_username ae) \<noteq> None then None
             else if validate_column_name (ae_password ae) \<noteq> None then None
             else if validate_column_names (ae_public_columns ae) \<noteq> None then None
             else if validate_column_name (ae_role_column ae) \<noteq> None then None
             else Some ae))"

section \<open>Tokens of site users\<close>

text \<open>The claims of a new token: the dates are whole seconds.\<close>

definition user_claims :: "pub_env \<Rightarrow> int \<Rightarrow> string \<Rightarrow> string \<Rightarrow> claims" where
  "user_claims en user username role =
     \<lparr>cl_site = pe_site en, cl_user = user, cl_username = username, cl_role = role,
      cl_issued = pe_now en div second_ns, cl_expires = (pe_now en + pe_expiry en) div second_ns\<rparr>"

definition generate_user_token :: "pub_env \<Rightarrow> int \<Rightarrow> string \<Rightarrow> string \<Rightarrow> string option" where
  "generate_user_token en user username role =
     (if pe_jwt en = None then None else pe_sign en (user_claims en user username role))"

definition extract_user_claims :: "pub_env \<Rightarrow> request \<Rightarrow> claims option" where
  "extract_user_claims en rq =
     (if pe_jwt en = None then None
      else if rq_auth rq = [] then None
      else let token = trim_prefix (rq_auth rq) ''Bearer ''
           in if token = rq_auth rq then None else validate_jwt en token)"

section \<open>Registration\<close>

text \<open>The credentials of a request body, or the response that refuses it.\<close>

definition body_map :: "decoded_body \<Rightarrow> jobj" where
  "body_map b = (case b of ObjBody m \<Rightarrow> m | _ \<Rightarrow> [])"

definition credentials :: "auth_endpoint \<Rightarrow> request \<Rightarrow> response + (string \<times> string \<times> jobj)" where
  "credentials ae rq =
     (case decode_body (rq_body rq) of
        BadBody \<Rightarrow> Inl (write_public_error 400 ''invalid JSON body'')
      | b \<Rightarrow>
         (let m = body_map b; u = get_str m (ae_username ae); p = get_str m (ae_password ae)
          in if u = [] then Inl (write_public_error 400 (ae_username ae @ '' is required''))
             else if p = [] then Inl (write_public_error 400 (ae_password ae @ '' is required''))
             else Inr (u, p, m)))"

definition user_exists :: "pub_env \<Rightarrow> site_state \<Rightarrow> auth_endpoint \<Rightarrow> string \<Rightarrow> bool" where
  "user_exists en st ae u =
     (case sql_select (pe_engine en) (si_db st) (ae_table ae) (Columns [''id''])
             [Compare (ae_username ae) ''='' (SText u)] None None of
        Inr (r # _) \<Rightarrow> scan_int (snd (hd r)) \<noteq> None
      | _ \<Rightarrow> False)"

definition table_columns :: "site_state \<Rightarrow> string \<Rightarrow> string list" where
  "table_columns st tab =
     (case find_table (si_db st) tab of Some t \<Rightarrow> map sc_name (st_columns t) | None \<Rightarrow> [])"

definition goobj_of :: "jobj \<Rightarrow> goobj" where
  "goobj_of m = map (\<lambda>(k, v). (k, GJson v)) m"

text \<open>The fields of the new user: the hash, the default role, and no id.\<close>

definition register_fields :: "auth_endpoint \<Rightarrow> jobj \<Rightarrow> string \<Rightarrow> goobj" where
  "register_fields ae m hashed =
     alist_del ''id'' (alist_put (ae_role_column ae) (GText (ae_default_role ae))
       (alist_put (ae_password ae) (GText hashed) (goobj_of m)))"

text \<open>The verb \<open>%q\<close> on the name of a table or column.\<close>

abbreviation quoted :: "string \<Rightarrow> string" where
  "quoted s \<equiv> CHR 0x22 # s @ [CHR 0x22]"

text \<open>The bindings of a map in the order Go visits them, and the first key that is no identifier.\<close>

definition ranged :: "pub_env \<Rightarrow> goobj \<Rightarrow> goobj" where
  "ranged en m = List.map_filter (\<lambda>k. map_option (Pair k) (map_of m k)) (pe_order en (map fst m))"

definition bad_field :: "goobj \<Rightarrow> string option" where
  "bad_field kvs = map_option fst (find (\<lambda>(k, _). validate_column_name k \<noteq> None) kvs)"

definition exec_insert ::
  "pub_env \<Rightarrow> database \<Rightarrow> string \<Rightarrow> goobj \<Rightarrow> sql_error + (int \<times> database)" where
  "exec_insert en db tab kvs =
     (case bind_all kvs of None \<Rightarrow> Inl UnsupportedType
      | Some sets \<Rightarrow> sql_insert (pe_engine en) db tab sets)"

definition auth_register :: "pub_env \<Rightarrow> site_state \<Rightarrow> request \<Rightarrow> auth_endpoint \<Rightarrow> response \<times> site_state" where
  "auth_register en st rq ae =
     (case credentials ae rq of Inl rsp \<Rightarrow> (rsp, st)
      | Inr (u, p, m) \<Rightarrow>
        if user_exists en st ae u
        then (write_public_error 409 (''user with this '' @ ae_username ae @ '' already exists''), st)
        else case pe_hash en p of None \<Rightarrow> (write_public_error 500 ''failed to hash password'', st)
        | Some hashed \<Rightarrow>
          (let cols = table_columns st (ae_table ae);
               fields = filter (\<lambda>(k, _). k \<in> set cols) (register_fields ae m hashed);
               kvs = ranged en fields
           in if cols = [] then
                (write_public_error 500 (''registration failed: table '' @ quoted (ae_table ae) @ '' does not exist''), st)
              else if ae_username ae \<notin> set cols \<or> ae_password ae \<notin> set cols then
                (write_public_error 500 (''auth config mismatch: table '' @ quoted (ae_table ae)
                  @ '' is missing column '' @ quoted (ae_username ae) @ '' or '' @ quoted (ae_password ae)), st)
              else case bad_field kvs of
                Some k \<Rightarrow> (write_public_error 400 (''invalid field name: '' @ k), st)
              | None \<Rightarrow>
                if kvs = [] then (write_public_error 500 (''no valid columns for registration '' @ [CHR 0xE2, CHR 0x80, CHR 0x94]
                  @ '' table='' @ quoted (ae_table ae) @ '', username_col='' @ quoted (ae_username ae)
                  @ '', password_col='' @ quoted (ae_password ae) @ '', role_col='' @ quoted (ae_role_column ae)), st)
                else case exec_insert en (si_db st) (ae_table ae) kvs of
                  Inl e \<Rightarrow> (write_public_error 400 (''registration failed: '' @ pe_error_text en e), st)
                | Inr (uid, db) \<Rightarrow>
                   (let st = st\<lparr>si_db := db\<rparr>
                    in case generate_user_token en uid u (ae_default_role ae) of
                         None \<Rightarrow> (write_public_error 500 ''failed to generate token'', st)
                       | Some tok \<Rightarrow>
                          (answer 201 (TokenBody uid tok),
                           emit (AuthRegister uid (ae_table ae)
                                  (filter (\<lambda>(k, _). k \<noteq> ae_password ae \<and> k \<noteq> ''id'') fields)) st))))"

section \<open>Login\<close>

text \<open>\<open>SELECT id, password, role\<close> of the user's row; without a role column it is repeated
  without it.\<close>

definition scan_login :: "pub_env \<Rightarrow> auth_endpoint \<Rightarrow> sql_error + sql_row list \<Rightarrow> (int \<times> string \<times> string) option" where
  "scan_login en ae res =
     (case res of
        Inr (r # _) \<Rightarrow>
          (case map snd r of
             i # h # rest \<Rightarrow>
               (case (scan_int i, scan_string en h) of
                  (Some uid, Some hash) \<Rightarrow>
                    Some (uid, hash, case rest of x # _ \<Rightarrow> scan_null_string en x | [] \<Rightarrow> ae_default_role ae)
                | _ \<Rightarrow> None)
           | _ \<Rightarrow> None)
      | _ \<Rightarrow> None)"

definition login_query ::
  "pub_env \<Rightarrow> site_state \<Rightarrow> auth_endpoint \<Rightarrow> string \<Rightarrow> string list \<Rightarrow> sql_error + sql_row list" where
  "login_query en st ae u cols =
     sql_select (pe_engine en) (si_db st) (ae_table ae) (Columns cols)
       [Compare (ae_username ae) ''='' (SText u)] None None"

definition find_login :: "pub_env \<Rightarrow> site_state \<Rightarrow> auth_endpoint \<Rightarrow> string \<Rightarrow> (int \<times> string \<times> string) option" where
  "find_login en st ae u =
     (case login_query en st ae u [''id'', ae_password ae, ae_role_column ae] of
        Inl (NoSuchColumn _) \<Rightarrow> scan_login en ae (login_query en st ae u [''id'', ae_password ae])
      | res \<Rightarrow> scan_login en ae res)"

definition auth_login :: "pub_env \<Rightarrow> site_state \<Rightarrow> request \<Rightarrow> auth_endpoint \<Rightarrow> response \<times> site_state" where
  "auth_login en st rq ae =
     (case credentials ae rq of Inl rsp \<Rightarrow> (rsp, st)
      | Inr (u, p, _) \<Rightarrow>
        (case find_login en st ae u of
           None \<Rightarrow> (write_public_error 401 ''invalid credentials'', st)
         | Some (uid, hash, role) \<Rightarrow>
            if \<not> pe_check en p hash then (write_public_error 401 ''invalid credentials'', st)
            else (let role = or_default role (ae_default_role ae)
                  in case generate_user_token en uid u role of
                       None \<Rightarrow> (write_public_error 500 ''failed to generate token'', st)
                     | Some tok \<Rightarrow> (answer 200 (TokenBody uid tok),
                                    emit (AuthLogin uid (ae_table ae) u role) st))))"

section \<open>The caller's record and token refresh\<close>

definition auth_me :: "pub_env \<Rightarrow> site_state \<Rightarrow> request \<Rightarrow> auth_endpoint \<Rightarrow> response" where
  "auth_me en st rq ae =
     (case extract_user_claims en rq of
        None \<Rightarrow> write_public_error 401 ''unauthorized''
      | Some c \<Rightarrow>
         if cl_site c \<noteq> pe_site en then write_public_error 401 ''unauthorized''
         else case sql_select (pe_engine en) (si_db st) (ae_table ae)
                     (Columns (if ae_public_columns ae \<noteq> [] then ae_public_columns ae
                               else [''id'', ae_username ae]))
                     [Compare ''id'' ''='' (SInt (cl_user c))] None None of
                Inl _ \<Rightarrow> write_public_error 500 ''query error''
              | Inr rows \<Rightarrow>
                 (case scan_rows_to_maps rows of
                    [] \<Rightarrow> write_public_error 404 ''user not found''
                  | r # _ \<Rightarrow> answer 200 (RowBody r)))"

definition user_cell :: "pub_env \<Rightarrow> site_state \<Rightarrow> string \<Rightarrow> int \<Rightarrow> string \<Rightarrow> sqlval option" where
  "user_cell en st tab uid col =
     (case sql_select (pe_engine en) (si_db st) tab (Columns [col]) [Compare ''id'' ''='' (SInt uid)] None None of
        Inr (r # _) \<Rightarrow> Some (snd (hd r)) | _ \<Rightarrow> None)"

definition auth_refresh :: "pub_env \<Rightarrow> site_state \<Rightarrow> request \<Rightarrow> auth_endpoint \<Rightarrow> response" where
  "auth_refresh en st rq ae =
     (case extract_user_claims en rq of
        None \<Rightarrow> write_public_error 401 ''unauthorized''
      | Some c \<Rightarrow>
         if cl_site c \<noteq> pe_site en then write_public_error 401 ''unauthorized''
         else if user_cell en st (ae_table ae) (cl_user c) ''id'' = None
         then write_public_error 401 ''user no longer exists''
         else (let role = (case user_cell en st (ae_table ae) (cl_user c) (ae_role_column ae) of
                             Some v \<Rightarrow> scan_null_string en v | None \<Rightarrow> []);
                   role = or_default role (ae_default_role ae)
               in case generate_user_token en (cl_user c) (cl_username c) role of
                    None \<Rightarrow> write_public_error 500 ''failed to generate token''
                  | Some tok \<Rightarrow> answer 200 (TokenBody (cl_user c) tok)))"

section \<open>Login through a provider\<close>

definition hex_digit :: "nat \<Rightarrow> char" where
  "hex_digit n = (''0123456789abcdef'') ! n"

definition hex_encode :: "string \<Rightarrow> string" where
  "hex_encode s = concat (map (\<lambda>c. [hex_digit (of_char c div 16), hex_digit (of_char c mod 16)]) s)"

fun hex_decode :: "string \<Rightarrow> string option" where
  "hex_decode [] = Some []"
| "hex_decode [_] = None"
| "hex_decode (a # b # s) =
     (case (hex_val a, hex_val b, hex_decode s) of
        (Some x, Some y, Some r) \<Rightarrow> Some (char_of (16 * x + y) # r) | _ \<Rightarrow> None)"

definition load_oauth_provider :: "site_state \<Rightarrow> string \<Rightarrow> string \<Rightarrow> oauth_row option" where
  "load_oauth_provider st name path =
     find (\<lambda>r. oa_name r = name \<and> oa_auth_path r = path \<and> oa_enabled r) (si_oauth st)"

definition upper_hex :: "nat \<Rightarrow> char" where
  "upper_hex n = (''0123456789ABCDEF'') ! n"

definition query_escape :: "string \<Rightarrow> string" where
  "query_escape s = concat (map (\<lambda>c.
     if ascii_letter c \<or> is_digit c \<or> c \<in> set ''-_.~'' then [c]
     else if c = CHR '' '' then ''+''
     else [CHR ''%'', upper_hex (of_char c div 16), upper_hex (of_char c mod 16)]) s)"

definition oauth_redirect_uri :: "pub_env \<Rightarrow> request \<Rightarrow> string \<Rightarrow> string \<Rightarrow> string" where
  "oauth_redirect_uri en rq path provider =
     (if rq_tls rq then ''https'' else ''http'') @ ''://''
       @ (case pe_domain en of Some d \<Rightarrow> if d \<noteq> [] then d else rq_host rq | None \<Rightarrow> rq_host rq)
       @ ''/api/'' @ path @ ''/oauth/'' @ provider @ ''/callback''"

definition redirect :: "string \<Rightarrow> (string \<times> string) list \<Rightarrow> response" where
  "redirect url hs = \<lparr>rp_status = 302, rp_headers = hs @ [(''Location'', url)], rp_body = EmptyBody\<rparr>"

definition oauth_state :: "pub_env \<Rightarrow> string \<Rightarrow> string" where
  "oauth_state en bytes = hex_encode bytes @ ''.'' @ hex_encode (pe_hmac en bytes)"

definition oauth_authorize :: "pub_env \<Rightarrow> site_state \<Rightarrow> request \<Rightarrow> auth_endpoint \<Rightarrow> string \<Rightarrow> response" where
  "oauth_authorize en st rq ae provider =
     (case load_oauth_provider st provider (ae_path ae) of
        None \<Rightarrow> write_public_error 404 ''OAuth provider not configured''
      | Some op \<Rightarrow>
         (case pe_random en of
            None \<Rightarrow> write_public_error 500 ''failed to generate state''
          | Some bytes \<Rightarrow>
             (let state = oauth_state en bytes
              in redirect (oa_authorize_url op @ ''?client_id='' @ query_escape (oa_client_id op)
                     @ ''&redirect_uri='' @ query_escape (oauth_redirect_uri en rq (ae_path ae) provider)
                     @ ''&response_type=code&scope='' @ query_escape (oa_scopes op)
                     @ ''&state='' @ query_escape state)
                   [(''Set-Cookie'', ''oauth_state='' @ state)])))"

text \<open>The checks of the state parameter; Some is the error, None with the random bytes passes.\<close>

definition check_oauth_state :: "pub_env \<Rightarrow> request \<Rightarrow> response + string" where
  "check_oauth_state en rq =
     (case rq_cookie rq of
        None \<Rightarrow> Inl (write_public_error 400 ''missing OAuth state cookie'')
      | Some cookie \<Rightarrow>
         (let qs = query_get (parse_query (rq_query rq)) ''state''
          in if qs = [] \<or> qs \<noteq> cookie then Inl (write_public_error 400 ''invalid OAuth state'')
             else case cut_char (CHR ''.'') qs of
                (_, None) \<Rightarrow> Inl (write_public_error 400 ''malformed OAuth state'')
              | (a, Some mac) \<Rightarrow>
                 (case hex_decode a of
                    None \<Rightarrow> Inl (write_public_error 400 ''invalid OAuth state encoding'')
                  | Some bytes \<Rightarrow>
                      if mac \<noteq> hex_encode (pe_hmac en bytes)
                      then Inl (write_public_error 400 ''OAuth state verification failed'')
                      else Inr bytes)))"

text \<open>The user a provider names, created with an unusable password when there is none.\<close>

definition find_or_create ::
  "pub_env \<Rightarrow> site_state \<Rightarrow> auth_endpoint \<Rightarrow> string \<Rightarrow> string \<Rightarrow> response + (int \<times> string \<times> site_state)" where
  "find_or_create en st ae bytes u =
     (case login_query en st ae u [''id'', ae_role_column ae] of
        Inr [] \<Rightarrow>
          (let h = (case pe_hash en (hex_encode bytes @ ''!oauth-no-password-login'') of
                      Some h \<Rightarrow> h | None \<Rightarrow> [])
           in case sql_insert (pe_engine en) (si_db st) (ae_table ae)
                     [(ae_username ae, SText u), (ae_password ae, SText h),
                      (ae_role_column ae, SText (ae_default_role ae))] of
                Inl _ \<Rightarrow> Inl (write_public_error 500 ''failed to create user'')
              | Inr (uid, db) \<Rightarrow> Inr (uid, ae_default_role ae, st\<lparr>si_db := db\<rparr>))
      | Inr (r # _) \<Rightarrow>
          (case map snd r of
             i # x # _ \<Rightarrow>
               (case scan_int i of
                  Some uid \<Rightarrow> Inr (uid, scan_null_string en x, st)
                | None \<Rightarrow> Inl (write_public_error 500 ''database error''))
           | _ \<Rightarrow> Inl (write_public_error 500 ''database error''))
      | Inl _ \<Rightarrow> Inl (write_public_error 500 ''database error''))"

definition oauth_username :: "pub_env \<Rightarrow> site_state \<Rightarrow> request \<Rightarrow> auth_endpoint \<Rightarrow> string \<Rightarrow> response + string" where
  "oauth_username en st rq ae provider =
     (let q = parse_query (rq_query rq); code = query_get q ''code''
      in if query_get q ''error'' \<noteq> [] then Inl (write_public_error 400 (''OAuth error: '' @ query_get q ''error''))
         else if code = [] then Inl (write_public_error 400 ''missing authorization code'')
         else case load_oauth_provider st provider (ae_path ae) of
           None \<Rightarrow> Inl (write_public_error 404 ''OAuth provider not configured'')
         | Some op \<Rightarrow>
           (case map_of (si_secrets st) (oa_secret_name op) of
              None \<Rightarrow> Inl (write_public_error 500 ''OAuth client secret not found'')
            | Some enc \<Rightarrow>
              (case pe_decrypt en enc of
                 None \<Rightarrow> Inl (write_public_error 500 ''failed to decrypt OAuth secret'')
               | Some secret \<Rightarrow>
                 (case pe_exchange en op code (oauth_redirect_uri en rq (ae_path ae) provider) secret of
                    Inl e \<Rightarrow> Inl (write_public_error 502 (''failed to exchange OAuth code: '' @ e))
                  | Inr access \<Rightarrow>
                    (case pe_userinfo en op access of
                       Inl e \<Rightarrow> Inl (write_public_error 502 (''failed to fetch user info: '' @ e))
                     | Inr info \<Rightarrow>
                       (let u = get_str info (oa_username_field op)
                        in if u = [] then Inl (write_public_error 502
                               (''user info missing '' @ oa_username_field op @ '' field''))
                           else Inr u))))))"

text \<open>Once the state is verified the cookie is cleared, whatever follows.\<close>

definition clear_cookie :: "response \<Rightarrow> response" where
  "clear_cookie rsp = rsp\<lparr>rp_headers := (''Set-Cookie'', ''oauth_state='') # rp_headers rsp\<rparr>"

definition oauth_callback ::
  "pub_env \<Rightarrow> site_state \<Rightarrow> request \<Rightarrow> auth_endpoint \<Rightarrow> string \<Rightarrow> response \<times> site_state" where
  "oauth_callback en st rq ae provider =
     (case check_oauth_state en rq of Inl rsp \<Rightarrow> (rsp, st)
      | Inr bytes \<Rightarrow>
        (case oauth_username en st rq ae provider of Inl rsp \<Rightarrow> (clear_cookie rsp, st)
         | Inr u \<Rightarrow>
           (case find_or_create en st ae bytes u of Inl rsp \<Rightarrow> (clear_cookie rsp, st)
            | Inr (uid, role, st) \<Rightarrow>
              (case generate_user_token en uid u (or_default role (ae_default_role ae)) of
                 None \<Rightarrow> (clear_cookie (write_public_error 500 ''failed to generate token''), st)
               | Some tok \<Rightarrow> (clear_cookie (redirect (''/#token='' @ query_escape tok) []), st)))))"

section \<open>Routing\<close>

definition only_method :: "string \<Rightarrow> request \<Rightarrow> response \<times> site_state \<Rightarrow> site_state \<Rightarrow> response \<times> site_state" where
  "only_method meth rq res st =
     (if rq_method rq \<noteq> meth then (write_public_error 405 (meth @ '' required''), st) else res)"

text \<open>None when the path is not one of an authentication endpoint.\<close>

definition handle_auth_request ::
  "pub_env \<Rightarrow> site_state \<Rightarrow> request \<Rightarrow> string \<Rightarrow> (response \<times> site_state) option" where
  "handle_auth_request en st rq full_path =
     (case cut_char (CHR ''/'') full_path of (_, None) \<Rightarrow> None
      | (auth_path, Some action) \<Rightarrow>
        (case load_auth_endpoint st auth_path of None \<Rightarrow> None
         | Some ae \<Rightarrow>
           if action = ''register'' then Some (only_method ''POST'' rq (auth_register en st rq ae) st)
           else if action = ''login'' then Some (only_method ''POST'' rq (auth_login en st rq ae) st)
           else if action = ''me'' then Some (only_method ''GET'' rq (auth_me en st rq ae, st) st)
           else if action = ''refresh'' then Some (only_method ''POST'' rq (auth_refresh en st rq ae, st) st)
           else if has_prefix action ''oauth/'' then
             (case cut_char (CHR ''/'') (drop 6 action) of
                (provider, Some rest) \<Rightarrow>
                  if rest = ''callback'' then Some (oauth_callback en st rq ae provider)
                  else Some (oauth_authorize en st rq ae provider, st)
              | (provider, None) \<Rightarrow> Some (oauth_authorize en st rq ae provider, st))
           else None))"

section \<open>Registration: facts\<close>

lemma answer_simps [simp]:
  "rp_body (answer c b) = b" "rp_status (answer c b) = c"
  by (simp_all add: answer_def)

lemma credentials_error: "credentials ae rq = Inl rsp \<Longrightarrow> \<exists>e. rp_body rsp = ErrorBody e \<and> rp_status rsp = 400"
  by (auto simp: credentials_def Let_def split: decoded_body.splits if_splits)

definition new_fields :: "site_state \<Rightarrow> auth_endpoint \<Rightarrow> jobj \<Rightarrow> string \<Rightarrow> goobj" where
  "new_fields st ae m hashed =
     filter (\<lambda>(k, _). k \<in> set (table_columns st (ae_table ae))) (register_fields ae m hashed)"

lemma register_success:
  assumes "auth_register en st rq ae = (rsp, st')" "rp_body rsp = TokenBody uid tok"
  obtains u p m hashed db where "credentials ae rq = Inr (u, p, m)" "\<not> user_exists en st ae u"
    "pe_hash en p = Some hashed"
    "{ae_username ae, ae_password ae} \<subseteq> set (table_columns st (ae_table ae))"
    "exec_insert en (si_db st) (ae_table ae) (ranged en (new_fields st ae m hashed)) = Inr (uid, db)"
    "generate_user_token en uid u (ae_default_role ae) = Some tok" "si_db st' = db"
  using assms
  by (auto simp: auth_register_def new_fields_def [symmetric] Let_def dest: credentials_error
      split: sum.splits if_splits option.splits prod.splits)

definition fair_order :: "pub_env \<Rightarrow> bool" where
  "fair_order en \<longleftrightarrow> (\<forall>xs. set (pe_order en xs) = set xs)"

lemma in_ranged:
  assumes "fair_order en"
  shows "(k, v) \<in> set (ranged en m) \<longleftrightarrow> map_of m k = Some v"
proof -
  have "set (pe_order en (map fst m)) = fst ` set m"
    using assms by (simp add: fair_order_def)
  then show ?thesis
    by (auto simp: ranged_def List.map_filter_def dest: map_of_SomeD intro!: image_eqI)
qed

lemma ranged_value: "(k, v) \<in> set (ranged en m) \<Longrightarrow> map_of m k = Some v"
  by (auto simp: ranged_def List.map_filter_def split: option.splits)

lemma in_bind_all:
  "bind_all kvs = Some sets \<Longrightarrow> (c, x) \<in> set sets \<longleftrightarrow> (\<exists>v. (c, v) \<in> set kvs \<and> bind_value v = Some x)"
  by (induction kvs arbitrary: sets) (auto split: option.splits, blast, blast)

lemma map_of_filter_keys: "map_of (filter (\<lambda>(k, _). P k) m) k = (if P k then map_of m k else None)"
  by (induction m) auto

lemma map_of_new_fields:
  "map_of (new_fields st ae m hashed) k =
     (if k \<in> set (table_columns st (ae_table ae)) then map_of (register_fields ae m hashed) k else None)"
  unfolding new_fields_def by (rule map_of_filter_keys)

text \<open>A row that holds the fields given and the defaults elsewhere.\<close>

definition row_from :: "pub_env \<Rightarrow> sql_table \<Rightarrow> goobj \<Rightarrow> int \<Rightarrow> sql_row \<Rightarrow> bool" where
  "row_from en t fs key r \<longleftrightarrow>
     (\<forall>c \<in> sc_name ` set (st_columns t). \<forall>v x. map_of fs c = Some v \<longrightarrow> bind_value v = Some x \<longrightarrow>
        cell r c = sq_store (pe_engine en) (decl_type t c) x)
     \<and> (\<forall>c. map_of fs c = None \<longrightarrow> cell r c = cell (default_row t key) c)"

lemma row_from_set:
  "row_from en t fs key r \<Longrightarrow> c \<in> sc_name ` set (st_columns t) \<Longrightarrow> map_of fs c = Some v \<Longrightarrow>
     bind_value v = Some x \<Longrightarrow> cell r c = sq_store (pe_engine en) (decl_type t c) x"
  unfolding row_from_def by blast

lemma row_from_unset:
  "row_from en t fs key r \<Longrightarrow> map_of fs c = None \<Longrightarrow> cell r c = cell (default_row t key) c"
  unfolding row_from_def by blast

lemma register_row:
  assumes reg: "auth_register en st rq ae = (rsp, st')" "rp_body rsp = TokenBody uid tok"
    and t: "find_table (si_db st) (ae_table ae) = Some t" "table_ok t" and fair: "fair_order en"
  obtains u p m hashed t' r where "credentials ae rq = Inr (u, p, m)" "\<not> user_exists en st ae u"
    "pe_hash en p = Some hashed" "find_table (si_db st') (ae_table ae) = Some t'"
    "st_columns t' = st_columns t" "st_rows t' = st_rows t @ [r]" "uid = st_seq t + 1"
    "generate_user_token en uid u (ae_default_role ae) = Some tok"
    "row_from en t (register_fields ae m hashed) uid r"
proof -
  from register_success [OF reg] obtain u p m hashed db where
    c: "credentials ae rq = Inr (u, p, m)" "\<not> user_exists en st ae u" "pe_hash en p = Some hashed"
    and ex: "exec_insert en (si_db st) (ae_table ae) (ranged en (new_fields st ae m hashed)) = Inr (uid, db)"
    and tok: "generate_user_token en uid u (ae_default_role ae) = Some tok" and db: "si_db st' = db"
    by metis
  let ?e = "pe_engine en"
  let ?f = "register_fields ae m hashed"
  let ?cols = "sc_name ` set (st_columns t)"
  have cols: "set (table_columns st (ae_table ae)) = ?cols" using t by (simp add: table_columns_def)
  from ex obtain sets where sets: "bind_all (ranged en (new_fields st ae m hashed)) = Some sets"
    and ins: "sql_insert ?e (si_db st) (ae_table ae) sets = Inr (uid, db)"
    by (auto simp: exec_insert_def split: option.splits)
  from insert_result [OF ins] t obtain t' where t': "find_table db (ae_table ae) = Some t'"
    "st_columns t' = st_columns t" "uid = st_seq t + 1"
    "st_rows t' = st_rows t @ [assign ?e t sets (default_row t uid)]" by auto
  have mem: "(k, x) \<in> set sets \<longleftrightarrow> (k \<in> ?cols \<and> (\<exists>v. map_of ?f k = Some v \<and> bind_value v = Some x))" for k x
    by (auto simp: in_bind_all [OF sets] in_ranged [OF fair] map_of_new_fields cols)
  have self: "\<forall>(c, v) \<in> set sets. resolve t c = Some c" using t(2) by (auto simp: mem)
  show thesis
  proof (rule that [OF c])
    show "find_table (si_db st') (ae_table ae) = Some t'" using t' db by simp
    have "cell (assign ?e t sets (default_row t uid)) k = sq_store ?e (decl_type t k) x"
      if "k \<in> ?cols" "map_of ?f k = Some v" "bind_value v = Some x" for k v x
      using that by (intro assign_value [OF self]) (auto simp: mem)
    moreover have "cell (assign ?e t sets (default_row t uid)) k = cell (default_row t uid) k"
      if "map_of ?f k = None" for k
      using that self by (intro assign_other) (auto simp: mem)
    ultimately show "row_from en t ?f uid (assign ?e t sets (default_row t uid))"
      unfolding row_from_def by blast
  qed (use t' tok in auto)
qed

lemma register_fields_role [simp]:
  "ae_role_column ae \<noteq> ''id'' \<Longrightarrow> map_of (register_fields ae m h) (ae_role_column ae) = Some (GText (ae_default_role ae))"
  by (simp add: register_fields_def)

lemma register_fields_password [simp]:
  "ae_password ae \<noteq> ''id'' \<Longrightarrow> ae_password ae \<noteq> ae_role_column ae \<Longrightarrow>
     map_of (register_fields ae m h) (ae_password ae) = Some (GText h)"
  by (simp add: register_fields_def)

lemma register_fields_id [simp]: "map_of (register_fields ae m h) ''id'' = None"
  by (simp add: register_fields_def)

lemma map_of_goobj: "map_of (goobj_of m) k = map_option GJson (map_of m k)"
  by (induction m) (auto simp: goobj_of_def)

lemma register_fields_other:
  "k \<noteq> ae_password ae \<Longrightarrow> k \<noteq> ae_role_column ae \<Longrightarrow> k \<noteq> ''id'' \<Longrightarrow>
     map_of (register_fields ae m h) k = map_option GJson (map_of m k)"
  by (simp add: register_fields_def map_of_goobj)

lemma credentials_body:
  assumes "credentials ae rq = Inr (u, p, m)"
  shows "map_of m (ae_username ae) = Some (JStr u) \<and> map_of m (ae_password ae) = Some (JStr p)"
  using assms
  by (auto simp: credentials_def Let_def get_str_def get_str_ok_def
      split: decoded_body.splits if_splits option.splits json.splits)

lemma same_columns:
  assumes "st_columns t' = st_columns t"
  shows "column_of t' = column_of t" "resolve t' = resolve t" "decl_type t' = decl_type t"
    "value_of t' = value_of t"
proof -
  show c: "column_of t' = column_of t" by (rule ext) (simp add: column_of_def assms)
  show r: "resolve t' = resolve t" by (rule ext) (simp add: resolve_def c)
  show "decl_type t' = decl_type t" by (rule ext) (simp add: decl_type_def c)
  show "value_of t' = value_of t" by (intro ext) (simp add: value_of_def r)
qed

lemma same_checks:
  assumes "st_columns t' = st_columns t"
  shows "check_names e t' ns = check_names e t ns"
  by (induction ns) (simp_all add: check_name_def same_columns [OF assms])

text \<open>A column that holds text as it is given and compares it as such.\<close>

definition text_column :: "sqlite \<Rightarrow> sql_table \<Rightarrow> string \<Rightarrow> bool" where
  "text_column e t c \<longleftrightarrow>
     c \<in> sc_name ` set (st_columns t) \<and> \<not> sq_reserved e (fold_case c)
     \<and> (\<forall>s. sq_store e (decl_type t c) (SText s) = SText s)
     \<and> (\<forall>a b. sq_cmp e (decl_type t c) ''='' (SText a) (SText b) = (a = b))"

text \<open>A users table: an integer key, and text columns for name, password and role.\<close>

definition user_table :: "sqlite \<Rightarrow> auth_endpoint \<Rightarrow> sql_table \<Rightarrow> bool" where
  "user_table e ae t \<longleftrightarrow>
     table_ok t \<and> ''id'' \<in> sc_name ` set (st_columns t) \<and> \<not> sq_reserved e ''id''
     \<and> distinct [''id'', ae_username ae, ae_password ae, ae_role_column ae]
     \<and> text_column e t (ae_username ae) \<and> text_column e t (ae_password ae)
     \<and> text_column e t (ae_role_column ae) \<and> (\<forall>r \<in> set (st_rows t). scan_int (cell r ''id'') \<noteq> None)"

lemma fold_case_id [simp]: "fold_case ''id'' = ''id''"
  by code_simp

lemma user_table_names:
  assumes "user_table e ae t"
  shows "{''id'', ae_username ae, ae_password ae, ae_role_column ae} \<subseteq> sc_name ` set (st_columns t)"
    "''id'' \<in> sc_name ` set (st_columns t)" "ae_username ae \<in> sc_name ` set (st_columns t)"
    "ae_password ae \<in> sc_name ` set (st_columns t)" "ae_role_column ae \<in> sc_name ` set (st_columns t)"
    "ae_username ae \<noteq> ''id''" "ae_password ae \<noteq> ''id''" "ae_role_column ae \<noteq> ''id''"
    "ae_password ae \<noteq> ae_username ae" "ae_role_column ae \<noteq> ae_username ae" "ae_password ae \<noteq> ae_role_column ae"
    "ae_role_column ae \<noteq> ae_password ae"
    "sq_store e (decl_type t (ae_username ae)) (SText x) = SText x"
    "sq_store e (decl_type t (ae_password ae)) (SText x) = SText x"
    "sq_store e (decl_type t (ae_role_column ae)) (SText x) = SText x"
    "sq_cmp e (decl_type t (ae_username ae)) ''='' (SText x) (SText y) = (x = y)"
proof -
  from assms have d: "distinct [''id'', ae_username ae, ae_password ae, ae_role_column ae]"
    and i: "''id'' \<in> sc_name ` set (st_columns t)"
    and u: "text_column e t (ae_username ae)" and p: "text_column e t (ae_password ae)"
    and r: "text_column e t (ae_role_column ae)"
    by (simp_all only: user_table_def)
  from i u p r show "{''id'', ae_username ae, ae_password ae, ae_role_column ae} \<subseteq> sc_name ` set (st_columns t)"
    by (simp add: text_column_def)
  from i show "''id'' \<in> sc_name ` set (st_columns t)" .
  from u p r show "ae_username ae \<in> sc_name ` set (st_columns t)" "ae_password ae \<in> sc_name ` set (st_columns t)"
    "ae_role_column ae \<in> sc_name ` set (st_columns t)" by (simp_all add: text_column_def)
  from d show "ae_username ae \<noteq> ''id''" "ae_password ae \<noteq> ''id''" "ae_role_column ae \<noteq> ''id''"
    "ae_password ae \<noteq> ae_username ae" "ae_role_column ae \<noteq> ae_username ae"
    "ae_password ae \<noteq> ae_role_column ae" "ae_role_column ae \<noteq> ae_password ae" by auto
  from u p r show "sq_store e (decl_type t (ae_username ae)) (SText x) = SText x"
    "sq_store e (decl_type t (ae_password ae)) (SText x) = SText x"
    "sq_store e (decl_type t (ae_role_column ae)) (SText x) = SText x"
    "sq_cmp e (decl_type t (ae_username ae)) ''='' (SText x) (SText y) = (x = y)"
    by (simp_all add: text_column_def)
qed

lemma user_table_reserved:
  assumes "user_table e ae t" "c \<in> {''id'', ae_username ae, ae_password ae, ae_role_column ae}"
  shows "\<not> sq_reserved e (fold_case c)"
  using assms(2,1) unfolding user_table_def text_column_def by (elim insertE emptyE) simp_all

lemma user_table_resolve:
  assumes "user_table e ae t" "c \<in> {''id'', ae_username ae, ae_password ae, ae_role_column ae}"
  shows "resolve t c = Some c" "check_name e t c = None" "value_of t r c = cell r c"
proof -
  have "table_ok t" using assms(1) by (simp add: user_table_def)
  moreover have "c \<in> sc_name ` set (st_columns t)" using user_table_names(1) [OF assms(1)] assms(2) by blast
  ultimately show r: "resolve t c = Some c" by simp
  show "check_name e t c = None" "value_of t r c = cell r c"
    using user_table_reserved [OF assms] r by (simp_all add: check_name_def value_of_def)
qed

lemma login_query_rows:
  assumes "user_table e ae t" "e = pe_engine en" "find_table (si_db st) (ae_table ae) = Some t'"
    "st_columns t' = st_columns t" "set cols \<subseteq> {''id'', ae_username ae, ae_password ae, ae_role_column ae}"
  shows "login_query en st ae u cols =
     Inr (map (\<lambda>r. map (\<lambda>c. (c, cell r c)) cols)
       (filter (\<lambda>r. sq_cmp e (decl_type t (ae_username ae)) ''='' (cell r (ae_username ae)) (SText u)) (st_rows t')))"
proof -
  note t = user_table_resolve [OF assms(1)]
  have ok: "ns \<noteq> [] \<longrightarrow> set ns \<subseteq> {''id'', ae_username ae, ae_password ae, ae_role_column ae} \<Longrightarrow>
      check_names e t ns = None" for ns
    by (induction ns) (auto simp: t)
  have proj: "projected t' (Columns cols) r = map (\<lambda>c. (c, cell r c)) cols" for r
    using assms(5) by (auto simp: same_columns [OF assms(4)] t subset_iff)
  have "check_names e t' (projection_names (Columns cols) @ concat (map cond_names [Compare (ae_username ae) ''='' (SText u)])) = None"
    unfolding same_checks [OF assms(4)] using assms(5) by (intro ok) auto
  moreover have "matches e t' [Compare (ae_username ae) ''='' (SText u)] =
      (\<lambda>r. sq_cmp e (decl_type t (ae_username ae)) ''='' (cell r (ae_username ae)) (SText u))"
    by (rule ext) (simp add: same_columns [OF assms(4)] t)
  ultimately show ?thesis
    using assms(2,3) proj by (simp add: login_query_def sql_select_def select_columns_def Let_def cong: map_cong)
qed

lemma new_user_no_row:
  assumes "user_table (pe_engine en) ae t" "find_table (si_db st) (ae_table ae) = Some t"
    "\<not> user_exists en st ae u"
  shows "filter (\<lambda>r. sq_cmp (pe_engine en) (decl_type t (ae_username ae)) ''='' (cell r (ae_username ae)) (SText u))
           (st_rows t) = []" (is "filter ?P _ = []")
proof (rule ccontr)
  assume "filter ?P (st_rows t) \<noteq> []"
  then obtain r rs where r: "filter ?P (st_rows t) = r # rs" by (cases "filter ?P (st_rows t)") auto
  then have "r \<in> set (filter ?P (st_rows t))" by simp
  then have "r \<in> set (st_rows t)" by simp
  then have "scan_int (cell r ''id'') \<noteq> None" using assms(1) by (simp add: user_table_def)
  moreover have "login_query en st ae u [''id''] = Inr (map (\<lambda>r. [(''id'', cell r ''id'')]) (r # rs))"
    using login_query_rows [OF assms(1) refl assms(2) refl, of "[''id'']" u] r by simp
  ultimately show False using assms(3) by (simp add: user_exists_def login_query_def)
qed

section \<open>Properties of registration and login\<close>

text \<open>C9. Registration cannot be used to gain a role or to plant a password: the row it adds to
  the users table has the default role of the endpoint and the hash of the password sent,
  whatever else the request contains, its id is the next key of the table, and no existing row
  is changed.\<close>

theorem register_forces_default_role:
  assumes "auth_register en st rq ae = (rsp, st')" "rp_body rsp = TokenBody uid tok"
    and "find_table (si_db st) (ae_table ae) = Some t" "user_table (pe_engine en) ae t" "fair_order en"
  shows "\<exists>t' r p h. find_table (si_db st') (ae_table ae) = Some t' \<and> st_rows t' = st_rows t @ [r]
     \<and> cell r (ae_role_column ae) = SText (ae_default_role ae) \<and> cell r ''id'' = SInt (st_seq t + 1)
     \<and> get_str (body_map (decode_body (rq_body rq))) (ae_password ae) = p
     \<and> pe_hash en p = Some h \<and> cell r (ae_password ae) = SText h"
proof -
  have ok: "table_ok t" using assms(4) by (simp add: user_table_def)
  obtain u p m h t' r where *: "credentials ae rq = Inr (u, p, m)" "pe_hash en p = Some h"
    "find_table (si_db st') (ae_table ae) = Some t'" "st_rows t' = st_rows t @ [r]" "uid = st_seq t + 1"
    and rf: "row_from en t (register_fields ae m h) uid r"
    by (rule register_row [OF assms(1,2,3) ok assms(5)])
  note ut = user_table_names [OF assms(4)]
  have "cell r (ae_role_column ae) = SText (ae_default_role ae)"
    using row_from_set [OF rf, of "ae_role_column ae" "GText (ae_default_role ae)" "SText (ae_default_role ae)"] ut by simp
  moreover have "cell r (ae_password ae) = SText h"
    using row_from_set [OF rf, of "ae_password ae" "GText h" "SText h"] ut by simp
  moreover have "cell r ''id'' = SInt (st_seq t + 1)"
    using row_from_unset [OF rf, of "''id''"] cell_default_row ut *(5) by simp
  moreover have "get_str (body_map (decode_body (rq_body rq))) (ae_password ae) = p"
    using *(1) by (auto simp: credentials_def Let_def split: decoded_body.splits if_splits)
  ultimately show ?thesis using * by blast
qed

text \<open>What is relied on of the token package: claims whose numbers are Go integers and whose texts are ASCII
  can be signed, and a signed token is validated into its claims up to the date at which it expires.\<close>

definition json_claims :: "claims \<Rightarrow> bool" where
  "json_claims c \<longleftrightarrow>
     list_all (\<lambda>n. - (2 ^ 63) \<le> n \<and> n < 2 ^ 63) [cl_site c, cl_user c, cl_issued c, cl_expires c]
     \<and> list_all (\<lambda>x. of_char x < (128 :: nat)) (cl_username c @ cl_role c)"

definition sound_tokens :: "pub_env \<Rightarrow> bool" where
  "sound_tokens en \<longleftrightarrow> (\<exists>v. pe_jwt en = Some v
     \<and> (\<forall>c. json_claims c \<longrightarrow> (\<exists>tok. pe_sign en c = Some tok \<and> (\<forall>t. t < cl_expires c * second_ns \<longrightarrow> v t tok = Some c))))"

lemma sound_token:
  assumes "sound_tokens en" "generate_user_token en uid u role = Some tok" "t < (pe_now en + pe_expiry en) div second_ns * second_ns"
    and "json_claims (user_claims en uid u role)"
  shows "validate_jwt (en\<lparr>pe_now := t\<rparr>) tok = Some (user_claims en uid u role)"
proof -
  from assms(1) obtain v where v: "pe_jwt en = Some v"
    "\<And>c. json_claims c \<Longrightarrow> \<exists>tok. pe_sign en c = Some tok \<and> (\<forall>t. t < cl_expires c * second_ns \<longrightarrow> v t tok = Some c)"
    unfolding sound_tokens_def by blast
  from assms(2) v(1) have "pe_sign en (user_claims en uid u role) = Some tok" by (simp add: generate_user_token_def)
  with v(2) [OF assms(4)] assms(3) have "v t tok = Some (user_claims en uid u role)" by (auto simp: user_claims_def)
  with v(1) show ?thesis by (simp add: validate_jwt_def)
qed


lemma find_login_cases:
  "find_login en st ae u = Some x \<Longrightarrow>
     \<exists>cols \<in> {[''id'', ae_password ae, ae_role_column ae], [''id'', ae_password ae]}.
       scan_login en ae (login_query en st ae u cols) = Some x"
  by (auto simp: find_login_def split: sum.splits sql_error.splits)

text \<open>C29. A login only succeeds for a user of the table: the token it answers with is for a row
  whose name is the one sent and whose stored hash the password sent passes, and carries the
  role stored in that row, or the default role where the row or the table has none.\<close>

theorem login_sound:
  assumes "auth_login en st rq ae = (rsp, st')" "rp_body rsp = TokenBody uid tok"
  shows "\<exists>u p m t r h role. credentials ae rq = Inr (u, p, m) \<and> find_table (si_db st) (ae_table ae) = Some t
     \<and> r \<in> set (st_rows t) \<and> scan_int (value_of t r ''id'') = Some uid
     \<and> sq_cmp (pe_engine en) (decl_type t (ae_username ae)) ''='' (value_of t r (ae_username ae)) (SText u)
     \<and> scan_string en (value_of t r (ae_password ae)) = Some h \<and> pe_check en p h
     \<and> role \<in> {or_default (scan_null_string en (value_of t r (ae_role_column ae))) (ae_default_role ae),
                ae_default_role ae}
     \<and> generate_user_token en uid u role = Some tok \<and> si_db st' = si_db st"
proof -
  from assms obtain u p m h role where c: "credentials ae rq = Inr (u, p, m)"
    and f: "find_login en st ae u = Some (uid, h, role)" and ch: "pe_check en p h"
    and tok: "generate_user_token en uid u (or_default role (ae_default_role ae)) = Some tok"
    and st: "si_db st' = si_db st"
    by (auto simp: auth_login_def Let_def dest: credentials_error split: sum.splits if_splits option.splits prod.splits)
  from f obtain cols where sc: "scan_login en ae (login_query en st ae u cols) = Some (uid, h, role)"
    and cols: "cols \<in> {[''id'', ae_password ae, ae_role_column ae], [''id'', ae_password ae]}"
    using find_login_cases by blast
  from sc obtain r0 rs where q: "login_query en st ae u cols = Inr (r0 # rs)"
    by (auto simp: scan_login_def split: sum.splits list.splits)
  from select_rows [OF q [unfolded login_query_def], of r0] obtain t r where
    t: "find_table (si_db st) (ae_table ae) = Some t" "r \<in> set (st_rows t)" "r0 = projected t (Columns cols) r"
    "matches (pe_engine en) t [Compare (ae_username ae) ''='' (SText u)] r" by auto
  with sc q cols have "scan_int (value_of t r ''id'') = Some uid" "scan_string en (value_of t r (ae_password ae)) = Some h"
    "role \<in> {scan_null_string en (value_of t r (ae_role_column ae)), ae_default_role ae}"
    by (auto simp: scan_login_def split: option.splits)
  with c t ch tok st show ?thesis
    by (intro exI [of _ u] exI [of _ p] exI [of _ m] exI [of _ t] exI [of _ r] exI [of _ h]
        exI [of _ "or_default role (ae_default_role ae)"]) (auto simp: or_default_def)
qed

section \<open>An instance\<close>

text \<open>A site with customers and staff, each with a users table and authentication routes.\<close>

definition users_columns :: "sql_column list" where
  "users_columns = map (\<lambda>(n, ty). \<lparr>sc_name = n, sc_type = ty, sc_default = SNull\<rparr>)
     [(''id'', ''INTEGER''), (''u'', ''TEXT''), (''p'', ''TEXT''), (''role'', ''TEXT'')]"

definition user_row :: "int \<Rightarrow> string \<Rightarrow> string \<Rightarrow> string \<Rightarrow> sql_row" where
  "user_row n u p r = [(''id'', SInt n), (''u'', SText u), (''p'', SText p), (''role'', SText r)]"

definition demo_auth_row :: "string \<Rightarrow> string \<Rightarrow> auth_row" where
  "demo_auth_row path tab = \<lparr>ar_path = path, ar_table = tab, ar_username = ''u'', ar_password = ''p'',
     ar_public_columns = ''[]'', ar_default_role = ''user'', ar_role_column = []\<rparr>"

definition demo_site :: site_state where
  "demo_site = \<lparr>si_endpoints = [], si_auth = [demo_auth_row ''c'' ''customers'', demo_auth_row ''s'' ''staff''],
     si_oauth = [], si_secrets = [], si_dynamic = [],
     si_db = [(''customers'', \<lparr>st_columns = users_columns, st_rows = [], st_seq = 0\<rparr>),
              (''staff'', \<lparr>st_columns = users_columns, st_rows = [user_row 1 ''boss'' ''#x'' ''admin''], st_seq = 1\<rparr>)],
     si_cache = Map.empty, si_events = []\<rparr>"

text \<open>A token is the text of the claims, separated by colons, which are written differently within a text.\<close>

fun colon_free :: "string \<Rightarrow> string" where
  "colon_free [] = []"
| "colon_free (c # s) = (if c = CHR '':'' then ''%c'' else if c = CHR ''%'' then ''%p'' else [c]) @ colon_free s"

fun with_colons :: "string \<Rightarrow> string option" where
  "with_colons [] = Some []"
| "with_colons (c # s) =
     (if c = CHR ''%'' then
        (case s of [] \<Rightarrow> None
         | d # s \<Rightarrow> map_option ((#) (if d = CHR ''c'' then CHR '':'' else CHR ''%'')) (with_colons s))
      else map_option ((#) c) (with_colons s))"

lemma with_colons_free [simp]: "with_colons (colon_free s) = Some s"
  by (induction s) auto

lemma colon_notin_free: "CHR '':'' \<notin> set (colon_free s)"
  by (induction s) auto

definition demo_sign :: "claims \<Rightarrow> string option" where
  "demo_sign c = Some (itoa (cl_site c) @ '':'' @ itoa (cl_user c) @ '':''
     @ colon_free (cl_username c) @ '':'' @ colon_free (cl_role c)
     @ '':'' @ itoa (cl_issued c) @ '':'' @ itoa (cl_expires c))"

definition demo_validate :: "instant \<Rightarrow> string \<Rightarrow> claims option" where
  "demo_validate now t =
     (case split_char (CHR '':'') t of
        [s, n, u, r, i, x] \<Rightarrow> (case (atoi s, atoi n, with_colons u, with_colons r, atoi i, atoi x) of
           (Some s, Some n, Some u, Some r, Some i, Some x) \<Rightarrow>
             if now < x * second_ns
             then Some \<lparr>cl_site = s, cl_user = n, cl_username = u, cl_role = r, cl_issued = i, cl_expires = x\<rparr> else None
         | _ \<Rightarrow> None)
      | _ \<Rightarrow> None)"

definition demo_env :: pub_env where
  "demo_env = \<lparr>pe_now = 0, pe_site = 7, pe_domain = None, pe_engine = plain_engine, pe_order = id,
     pe_jwt = Some demo_validate, pe_expiry = 3600 * second_ns, pe_sign = demo_sign, pe_hmac = rev, pe_random = Some ''ab'',
     pe_site_config = None, pe_hash = (\<lambda>p. Some (CHR ''#'' # p)), pe_check = (\<lambda>p h. h = CHR ''#'' # p),
     pe_encrypt = None, pe_decrypt = Some, pe_sprint = (\<lambda>_. []), pe_float_text = (\<lambda>_. []),
     pe_exchange = (\<lambda>_ _ _ _. Inl ''closed''), pe_userinfo = (\<lambda>_ _. Inl ''closed''), pe_error_text = (\<lambda>_. [])\<rparr>"

definition demo_request :: "string \<Rightarrow> string \<Rightarrow> string \<Rightarrow> string \<Rightarrow> request" where
  "demo_request meth path auth bd = \<lparr>rq_method = meth, rq_path = path, rq_query = [], rq_origin = [],
     rq_auth = auth, rq_body = bd, rq_cookie = None, rq_host = ''h'', rq_tls = False\<rparr>"

definition demo_ae :: "string \<Rightarrow> string \<Rightarrow> auth_endpoint" where
  "demo_ae path tab = \<lparr>ae_table = tab, ae_path = path, ae_username = ''u'', ae_password = ''p'',
     ae_public_columns = [], ae_default_role = ''user'', ae_role_column = ''role''\<rparr>"

definition demo_signup :: request where
  "demo_signup = demo_request ''POST'' ''/api/c/register'' []
     (''{'' @ quoted ''u'' @ '':'' @ quoted ''eve'' @ '','' @ quoted ''p'' @ '':'' @ quoted ''x'' @ '',''
        @ quoted ''role'' @ '':'' @ quoted ''admin'' @ ''}'')"

definition demo_customers :: sql_table where
  "demo_customers = \<lparr>st_columns = users_columns, st_rows = [], st_seq = 0\<rparr>"

lemma demo_text_column:
  assumes "c \<in> {''u'', ''p'', ''role''}"
  shows "text_column plain_engine demo_customers c"
  using assms
  by (auto simp: text_column_def plain_engine_def demo_customers_def users_columns_def decl_type_def
      column_of_def plain_cmp_def fold_case_def lower_char_def)

lemma demo_table_ok: "table_ok demo_customers"
  by code_simp

lemma demo_user_table: "user_table plain_engine (demo_ae path tab) demo_customers"
  unfolding user_table_def
  by (simp add: demo_ae_def demo_table_ok demo_text_column)
     (simp add: demo_customers_def users_columns_def plain_engine_def)

definition demo_registered :: "response \<times> site_state" where
  "demo_registered = auth_register demo_env demo_site demo_signup (demo_ae ''c'' ''customers'')"

lemma demo_registered_response: "fst demo_registered = answer 201 (TokenBody 1 ''7:1:eve:user:0:3600'')"
  by code_simp

lemma demo_registered_eq:
  "auth_register demo_env demo_site demo_signup (demo_ae ''c'' ''customers'')
     = (answer 201 (TokenBody 1 ''7:1:eve:user:0:3600''), snd demo_registered)"
  using demo_registered_response by (simp add: demo_registered_def prod_eq_iff)

lemma demo_find_customers: "find_table (si_db demo_site) (ae_table (demo_ae path ''customers'')) = Some demo_customers"
  by (simp add: demo_ae_def find_table_def demo_site_def demo_customers_def)

lemma demo_fair: "fair_order demo_env"
  by (simp add: fair_order_def demo_env_def)

lemma register_forces_default_role_witness:
  "\<exists>t' r p h. find_table (si_db (snd demo_registered)) ''customers'' = Some t' \<and> st_rows t' = [] @ [r]
     \<and> cell r ''role'' = SText ''user'' \<and> cell r ''id'' = SInt (0 + 1)
     \<and> get_str (body_map (decode_body (rq_body demo_signup))) ''p'' = p
     \<and> pe_hash demo_env p = Some h \<and> cell r ''p'' = SText h"
proof -
  have "user_table (pe_engine demo_env) (demo_ae ''c'' ''customers'') demo_customers"
    using demo_user_table by (simp add: demo_env_def)
  then show ?thesis
    using register_forces_default_role [OF demo_registered_eq answer_simps(1) demo_find_customers _ demo_fair]
    unfolding demo_ae_def demo_customers_def by simp
qed

definition demo_login :: "response \<times> site_state" where
  "demo_login = auth_login demo_env (snd demo_registered) demo_signup (demo_ae ''c'' ''customers'')"

lemma demo_login_eq:
  "auth_login demo_env (snd demo_registered) demo_signup (demo_ae ''c'' ''customers'')
     = (answer 200 (TokenBody 1 ''7:1:eve:user:0:3600''), snd demo_login)"
proof -
  have "fst demo_login = answer 200 (TokenBody 1 ''7:1:eve:user:0:3600'')" by code_simp
  then show ?thesis by (simp add: demo_login_def prod_eq_iff)
qed

lemma login_sound_witness:
  "\<exists>u p m t r h role. credentials (demo_ae ''c'' ''customers'') demo_signup = Inr (u, p, m)
     \<and> find_table (si_db (snd demo_registered)) ''customers'' = Some t
     \<and> r \<in> set (st_rows t) \<and> scan_int (value_of t r ''id'') = Some 1
     \<and> sq_cmp plain_engine (decl_type t ''u'') ''='' (value_of t r ''u'') (SText u)
     \<and> scan_string demo_env (value_of t r ''p'') = Some h \<and> pe_check demo_env p h
     \<and> role \<in> {or_default (scan_null_string demo_env (value_of t r ''role'')) ''user'', ''user''}
     \<and> generate_user_token demo_env 1 u role = Some ''7:1:eve:user:0:3600''
     \<and> si_db (snd demo_login) = si_db (snd demo_registered)"
proof -
  have "pe_engine demo_env = plain_engine" by (simp add: demo_env_def)
  then show ?thesis
    using login_sound [OF demo_login_eq answer_simps(1)] unfolding demo_ae_def by simp
qed

text \<open>A token is not tied to the users table it was issued for. A customer logs in and sends the
  token to the refresh route of the staff users: the code looks up the staff row with the same
  number, and answers with a token for the customer's id that carries the role of that row.\<close>

theorem refresh_crosses_tables:
  "fst (auth_login demo_env (snd demo_registered) demo_signup (demo_ae ''c'' ''customers''))
     = answer 200 (TokenBody 1 ''7:1:eve:user:0:3600'')
   \<and> auth_refresh demo_env (snd demo_registered) (demo_request ''POST'' ''/api/s/refresh'' ''Bearer 7:1:eve:user:0:3600'' [])
       (demo_ae ''s'' ''staff'') = answer 200 (TokenBody 1 ''7:1:eve:admin:0:3600'')"
proof
  show "auth_refresh demo_env (snd demo_registered) (demo_request ''POST'' ''/api/s/refresh'' ''Bearer 7:1:eve:user:0:3600'' [])
       (demo_ae ''s'' ''staff'') = answer 200 (TokenBody 1 ''7:1:eve:admin:0:3600'')" by code_simp
qed (simp add: demo_login_eq)

section \<open>The state of a provider login\<close>

lemma hex_digits:
  "list_all (\<lambda>n. hex_val (hex_digit n) = Some n \<and> hex_val (upper_hex n) = Some n \<and> hex_digit n \<noteq> CHR ''.''
     \<and> ident_char (hex_digit n) \<and> ident_char (upper_hex n)) [0..<16]"
  by code_simp

lemma hex_digit_val [simp]:
  "n < 16 \<Longrightarrow> hex_val (hex_digit n) = Some n" "n < 16 \<Longrightarrow> hex_val (upper_hex n) = Some n"
  "n < 16 \<Longrightarrow> hex_digit n \<noteq> CHR ''.''" "n < 16 \<Longrightarrow> ident_char (hex_digit n)"
  "n < 16 \<Longrightarrow> ident_char (upper_hex n)"
  using hex_digits by (simp_all add: list_all_iff)

lemma char_div16 [simp]: "(of_char c :: nat) div 16 < 16"
  using nat_of_char_less_256 [of c] by (simp add: less_mult_imp_div_less del: nat_of_char_less_256)

lemma hex_decode_encode [simp]: "hex_decode (hex_encode s) = Some s"
  by (induction s) (simp_all add: hex_encode_def)

lemma dot_notin_hex: "CHR ''.'' \<notin> set (hex_encode s)"
proof -
  have "CHR ''.'' \<noteq> hex_digit (of_char c div 16)" "CHR ''.'' \<noteq> hex_digit (of_char c mod 16)" for c :: char
    using hex_digit_val(3) [of "of_char c div 16"] hex_digit_val(3) [of "of_char c mod 16"] by fastforce+
  then show ?thesis by (induction s) (auto simp: hex_encode_def)
qed

lemma query_unescape_Cons:
  "c \<noteq> CHR ''%'' \<Longrightarrow> c \<noteq> CHR ''+'' \<Longrightarrow> query_unescape (c # s) = map_option ((#) c) (query_unescape s)"
  by simp

lemma ident_not_special:
  "ident_char c \<Longrightarrow> c \<notin> {CHR ''%'', CHR ''+'', CHR ''&'', CHR ''='', CHR '';''}"
  by (auto simp: ident_char_def ascii_letter_def is_digit_def Let_def)

definition escape_char :: "char \<Rightarrow> string" where
  "escape_char c =
     (if ascii_letter c \<or> is_digit c \<or> c \<in> set ''-_.~'' then [c]
      else if c = CHR '' '' then ''+''
      else [CHR ''%'', upper_hex (of_char c div 16), upper_hex (of_char c mod 16)])"

lemma query_escape_Cons: "query_escape (c # s) = escape_char c @ query_escape s"
  by (simp add: query_escape_def escape_char_def)

lemma unescape_escape_char: "query_unescape (escape_char c @ s) = map_option ((#) c) (query_unescape s)"
proof -
  consider "ascii_letter c \<or> is_digit c \<or> c \<in> set ''-_.~''" | "c = CHR '' ''"
    | "\<not> (ascii_letter c \<or> is_digit c \<or> c \<in> set ''-_.~'')" "c \<noteq> CHR '' ''" by blast
  then show ?thesis
  proof cases
    case 1
    then have "c \<noteq> CHR ''%'' \<and> c \<noteq> CHR ''+''" by (auto simp: ascii_letter_def is_digit_def Let_def)
    with 1 show ?thesis by (simp add: escape_char_def query_unescape_Cons del: query_unescape.simps)
  next
    case 2
    then show ?thesis by (simp add: escape_char_def ascii_letter_def is_digit_def)
  next
    case 3
    then show ?thesis by (simp add: escape_char_def)
  qed
qed

lemma query_unescape_escape [simp]: "query_unescape (query_escape s) = Some s"
  by (induction s) (simp_all add: query_escape_Cons unescape_escape_char, simp add: query_escape_def)

lemma escape_char_chars: "x \<in> set (escape_char c) \<Longrightarrow> ident_char x \<or> x \<in> set ''-_.~+%''"
proof -
  assume x: "x \<in> set (escape_char c)"
  have u: "ident_char (upper_hex (of_char c div 16))" "ident_char (upper_hex (of_char c mod 16))" by simp_all
  from x have "(x = c \<and> (ascii_letter c \<or> is_digit c \<or> c \<in> set ''-_.~'')) \<or> x = CHR ''+'' \<or> x = CHR ''%''
      \<or> x = upper_hex (of_char c div 16) \<or> x = upper_hex (of_char c mod 16)"
    unfolding escape_char_def by (simp split: if_splits)
  with u show ?thesis by (auto simp: ident_char_def)
qed

lemma escape_plain: "x \<in> set (query_escape s) \<Longrightarrow> x \<notin> {CHR ''&'', CHR ''='', CHR '';''}"
proof (induction s)
  case (Cons c s)
  then consider "x \<in> set (query_escape s)" | "x \<in> set (escape_char c)"
    by (auto simp: query_escape_Cons)
  then show ?case
  proof cases
    case 2
    then show ?thesis using escape_char_chars [OF 2] ident_not_special [of x] by auto
  qed (rule Cons.IH)
qed (simp add: query_escape_def)

lemma split_char_last: "d \<notin> set a \<Longrightarrow> split_char d a = [a]"
  by (induction a) auto

lemma split_char_app: "d \<notin> set a \<Longrightarrow> split_char d (a @ d # b) = a # split_char d b"
  by (induction a) auto

lemma contains_single: "contains s [c] \<longleftrightarrow> c \<in> set s"
  by (simp add: contains_iff_sublist sublist_Cons_right) (auto simp: sublist_def in_set_conv_decomp)

definition query_text :: "string \<Rightarrow> string \<Rightarrow> string" where
  "query_text k v = query_escape k @ CHR ''='' # query_escape v"

lemma query_text_plain: "x \<in> set (query_text k v) \<Longrightarrow> x \<notin> {CHR ''&'', CHR '';''}"
  by (auto simp: query_text_def dest: escape_plain)

lemma query_pair_text [simp]: "query_pair (query_text k v) = Some (k, v)"
proof -
  have "CHR ''='' \<notin> set (query_escape k)" using escape_plain by blast
  then have "cut_char (CHR ''='') (query_text k v) = (query_escape k, Some (query_escape v))"
    by (simp add: query_text_def cut_char_def takeWhile_append1 dropWhile_append)
  moreover have "CHR '';'' \<notin> set (query_text k v)" using query_text_plain by blast
  moreover have "query_text k v \<noteq> []" by (simp add: query_text_def)
  ultimately show ?thesis by (simp add: query_pair_def contains_single)
qed

lemma parse_query_text:
  "parse_query (query_text k v @ CHR ''&'' # query_text k' v') = add_pair (k', v') (add_pair (k, v) [])"
proof -
  have "CHR ''&'' \<notin> set (query_text x y)" for x y using query_text_plain by blast
  then show ?thesis
    by (simp add: parse_query_def split_char_app split_char_last List.map_filter_def)
qed

text \<open>The state of a provider login survives the round trip through the provider: the value that
  the authorisation redirect puts into the cookie and the URL passes every check of the
  callback, for any random bytes and any code, and gives the random bytes back.\<close>

theorem oauth_state_roundtrip:
  assumes "rq_cookie rq = Some (oauth_state en bytes)"
    and "rq_query rq = query_text ''code'' c @ CHR ''&'' # query_text ''state'' (oauth_state en bytes)"
  shows "check_oauth_state en rq = Inr bytes"
proof -
  have "query_get (parse_query (rq_query rq)) ''state'' = oauth_state en bytes"
    by (simp add: assms(2) parse_query_text query_get_def add_pair_def)
  moreover have "cut_char (CHR ''.'') (oauth_state en bytes) = (hex_encode bytes, Some (hex_encode (pe_hmac en bytes)))"
    using dot_notin_hex [of bytes] by (simp add: oauth_state_def cut_char_def takeWhile_append1 dropWhile_append)
  moreover have "oauth_state en bytes \<noteq> []" by (simp add: oauth_state_def)
  ultimately show ?thesis using assms(1) by (simp add: check_oauth_state_def)
qed

lemma oauth_state_roundtrip_witness:
  "check_oauth_state demo_env (demo_request ''GET'' [] [] [] \<lparr>rq_cookie := Some ''6162.6261'',
     rq_query := ''code=a%2Fb&state=6162.6261''\<rparr>) = Inr ''ab''"
  by (rule oauth_state_roundtrip [where c = "''a/b''"]) code_simp+

text \<open>A provider login changes the users table or answers with a redirect only for a request whose
  state parameter equals the cookie and carries the HMAC of its random bytes.\<close>

theorem oauth_requires_state:
  assumes "oauth_callback en st rq ae provider = (rsp, st')" "rp_status rsp = 302 \<or> st' \<noteq> st"
  shows "\<exists>cookie a bytes. rq_cookie rq = Some cookie
     \<and> query_get (parse_query (rq_query rq)) ''state'' = cookie
     \<and> cut_char (CHR ''.'') cookie = (a, Some (hex_encode (pe_hmac en bytes))) \<and> hex_decode a = Some bytes"
proof (cases "check_oauth_state en rq")
  case (Inl r)
  then have "rp_status r = 400"
    by (auto simp: check_oauth_state_def Let_def split: option.splits if_splits prod.splits)
  with Inl assms show ?thesis by (simp add: oauth_callback_def)
next
  case (Inr bytes)
  then show ?thesis
    by (auto simp: check_oauth_state_def Let_def split: option.splits if_splits prod.splits)
qed

definition oauth_env :: pub_env where
  "oauth_env = demo_env\<lparr>pe_exchange := (\<lambda>_ _ _ _. Inr ''t''),
     pe_userinfo := (\<lambda>_ _. Inr [(''login'', JStr ''eve'')])\<rparr>"

definition oauth_site :: site_state where
  "oauth_site = demo_site\<lparr>si_secrets := [(''k'', ''v'')],
     si_oauth := [\<lparr>oa_name = ''gh'', oa_client_id = ''i'', oa_secret_name = ''k'', oa_authorize_url = ''u'',
        oa_scopes = ''s'', oa_username_field = ''login'', oa_auth_path = ''c'', oa_enabled = True\<rparr>]\<rparr>"

definition oauth_request :: request where
  "oauth_request = demo_request ''GET'' [] [] [] \<lparr>rq_cookie := Some ''6162.6261'',
     rq_query := ''code=a&state=6162.6261''\<rparr>"

lemma oauth_requires_state_witness:
  "\<exists>cookie a bytes. rq_cookie oauth_request = Some cookie
     \<and> query_get (parse_query (rq_query oauth_request)) ''state'' = cookie
     \<and> cut_char (CHR ''.'') cookie = (a, Some (hex_encode (pe_hmac oauth_env bytes))) \<and> hex_decode a = Some bytes"
proof (rule oauth_requires_state [OF surjective_pairing])
  have "rp_status (fst (oauth_callback oauth_env oauth_site oauth_request (demo_ae ''c'' ''customers'') ''gh'')) = 302"
    by code_simp
  then show "rp_status (fst (oauth_callback oauth_env oauth_site oauth_request (demo_ae ''c'' ''customers'') ''gh'')) = 302
     \<or> snd (oauth_callback oauth_env oauth_site oauth_request (demo_ae ''c'' ''customers'') ''gh'') \<noteq> oauth_site" ..
qed

section \<open>Tokens of the instance\<close>

lemma split_char_append: "c \<notin> set a \<Longrightarrow> split_char c (a @ c # b) = a # split_char c b"
  by (induction a) auto

lemma split_char_single: "c \<notin> set a \<Longrightarrow> split_char c a = [a]"
  by (induction a) auto

lemma demo_sign_parts:
  "split_char CHR '':'' (the (demo_sign c)) =
     [itoa (cl_site c), itoa (cl_user c), colon_free (cl_username c), colon_free (cl_role c), itoa (cl_issued c), itoa (cl_expires c)]"
  by (simp add: demo_sign_def split_char_append split_char_single colon_notin_itoa colon_notin_free)

lemma demo_sound_tokens: "sound_tokens demo_env"
proof -
  have "demo_validate t (the (demo_sign c)) = Some c" if "json_claims c" "t < cl_expires c * second_ns" for c t
    using that unfolding demo_validate_def demo_sign_parts by (simp add: json_claims_def)
  moreover have "demo_sign c = Some (the (demo_sign c))" for c by (simp add: demo_sign_def)
  moreover have "pe_jwt demo_env = Some demo_validate" "pe_sign demo_env = demo_sign" by (simp_all add: demo_env_def)
  ultimately show ?thesis unfolding sound_tokens_def by metis
qed


end
