(* ===== verification/PublicApi.thy ===== *)
theory PublicApi
  imports PublicAuth
begin

text \<open>
  The generated CRUD interface of a published site, \<open>DynamicAPI\<close> of \<open>server/public/handler.go\<close>:
  routing, CORS, the checks of the caller, the owner filter of row-level security, the five
  operations on the rows of a table, and the cache of GET responses. A request is a function
  from the state of the site to a response and the state it leaves; routes that belong to other
  handlers are outcomes of their own.
\<close>

section \<open>Endpoints\<close>

record api_endpoint =
  ep_path :: string
  ep_table :: string
  ep_methods :: "string list"
  ep_public_columns :: "string list"
  ep_requires_auth :: bool
  ep_public_read :: bool
  ep_required_role :: string
  ep_cache_ttl :: int
  ep_secure :: "(string, string) gomap"
  ep_cors_origins :: string
  ep_cors_methods :: string
  ep_cors_headers :: string
  ep_owner_column :: string

definition load_endpoint :: "site_state \<Rightarrow> string \<Rightarrow> api_endpoint option" where
  "load_endpoint st path =
     map_option (\<lambda>r.
       \<lparr>ep_path = er_path r, ep_table = er_table r, ep_methods = unmarshal_strings (er_methods r),
        ep_public_columns = (case er_public_columns r of
           Some s \<Rightarrow> if s \<noteq> [] then unmarshal_strings s else [] | None \<Rightarrow> []),
        ep_requires_auth = er_requires_auth r, ep_public_read = er_public_read r,
        ep_required_role = er_required_role r, ep_cache_ttl = er_cache_ttl r,
        ep_secure = (case map_of (si_dynamic st) (er_table r) of
           Some s \<Rightarrow> unmarshal_string_map s | None \<Rightarrow> []),
        ep_cors_origins = er_cors_origins r, ep_cors_methods = er_cors_methods r,
        ep_cors_headers = er_cors_headers r, ep_owner_column = er_owner_column r\<rparr>)
     (find (\<lambda>r. er_path r = path) (si_endpoints st))"

definition method_allowed :: "string list \<Rightarrow> string \<Rightarrow> bool" where
  "method_allowed methods meth = list_ex (\<lambda>m. equal_fold m meth) methods"

text \<open>The context of a request: the owner the rows are restricted to, and the caller.\<close>

record api_ctx =
  rc_owner :: "int option"
  rc_user :: int

section \<open>Columns\<close>

definition is_hash :: "api_endpoint \<Rightarrow> string \<Rightarrow> bool" where
  "is_hash ep c = (map_of (ep_secure ep) c = Some ''hash'')"

text \<open>The public columns are texts of the configuration that are spliced into the statement: a list of
  identifiers selects columns, any other text is whatever the engine makes of it.\<close>

definition spliced :: "string list \<Rightarrow> projection" where
  "spliced cs = (if list_all (\<lambda>c. validate_column_name c = None) cs then Columns cs else Raw (join '', '' cs))"

definition visible_columns :: "api_endpoint \<Rightarrow> projection" where
  "visible_columns ep =
     (if ep_public_columns ep \<noteq> [] then
        (let safe = filter (\<lambda>c. \<not> is_hash ep c) (ep_public_columns ep)
         in if safe = [] then Columns [''id''] else spliced safe)
      else Star)"

text \<open>An endpoint whose public columns are column names.\<close>

definition plain_columns :: "api_endpoint \<Rightarrow> bool" where
  "plain_columns ep \<longleftrightarrow> list_all (\<lambda>c. validate_column_name c = None) (ep_public_columns ep)"

text \<open>One name of the \<open>fields\<close> parameter; the columns taken so far have no repetition.\<close>

definition take_field :: "api_endpoint \<Rightarrow> string \<Rightarrow> string list \<Rightarrow> string list" where
  "take_field ep f cols =
     (let c = trim_space f
      in if c = [] \<or> c \<in> set cols then cols
         else if validate_column_name c \<noteq> None then cols
         else if is_hash ep c then cols
         else if ep_public_columns ep \<noteq> [] \<and> c \<notin> set (ep_public_columns ep) then cols
         else cols @ [c])"

definition parse_fields_param :: "api_endpoint \<Rightarrow> query \<Rightarrow> string list" where
  "parse_fields_param ep q =
     (let raw = query_get q ''fields''
      in if raw = [] then []
         else let cols = fold (take_field ep) (split_char (CHR '','') raw) []
              in if cols = [] then [] else if ''id'' \<in> set cols then cols else ''id'' # cols)"

definition select_list :: "api_endpoint \<Rightarrow> query \<Rightarrow> projection" where
  "select_list ep q =
     (case parse_fields_param ep q of [] \<Rightarrow> visible_columns ep | cols \<Rightarrow> Columns cols)"

lemma visible_plain [simp]: "plain_columns ep \<Longrightarrow> \<not> is_raw (visible_columns ep)"
  by (auto simp: visible_columns_def spliced_def plain_columns_def list_all_iff Let_def)

lemma select_list_plain [simp]: "plain_columns ep \<Longrightarrow> \<not> is_raw (select_list ep q)"
  by (auto simp: select_list_def split: list.splits)

definition column_exists :: "site_state \<Rightarrow> string \<Rightarrow> string \<Rightarrow> bool" where
  "column_exists st tab c = (c \<in> set (table_columns st tab))"

definition get_text_columns :: "site_state \<Rightarrow> string \<Rightarrow> api_endpoint \<Rightarrow> string list" where
  "get_text_columns st tab ep =
     (case find_table (si_db st) tab of None \<Rightarrow> []
      | Some t \<Rightarrow> map sc_name (filter (\<lambda>c. equal_fold (sc_type c) ''TEXT'' \<and> sc_name c \<noteq> ''id''
                    \<and> sc_name c \<noteq> ''created_at'' \<and> \<not> is_hash ep (sc_name c)) (st_columns t)))"

section \<open>Conditions\<close>

definition reserved_params :: "string list" where
  "reserved_params = [''limit'', ''offset'', ''sort'', ''order'', ''order_by'', ''direction'',
     ''order_direction'', ''page'', ''search'', ''stats'', ''q'', ''fields'']"

text \<open>\<open>strings.SplitN(key, "__", 2)\<close>.\<close>

definition cut_filter :: "string \<Rightarrow> string \<times> string option" where
  "cut_filter key =
     (case str_index key ''__'' of
        None \<Rightarrow> (key, None) | Some i \<Rightarrow> (take i key, Some (drop (i + 2) key)))"

definition filter_ops :: "(string \<times> string) list" where
  "filter_ops = [(''gt'', ''>''), (''gte'', ''>=''), (''lt'', ''<''), (''lte'', ''<=''), (''ne'', ''!='')]"

text \<open>The column, the operator, and whether it is LIKE.\<close>

definition parse_filter_param :: "string \<Rightarrow> (string \<times> string \<times> bool) option" where
  "parse_filter_param key =
     (case cut_filter key of
        (c, None) \<Rightarrow> Some (c, ''='', False)
      | (c, Some opr) \<Rightarrow>
          if opr = ''like'' then Some (c, ''LIKE'', True)
          else map_option (\<lambda>x. (c, x, False)) (map_of filter_ops opr))"

definition filter_cond :: "api_endpoint \<Rightarrow> string \<times> string list \<Rightarrow> cond option" where
  "filter_cond ep kv =
     (case snd kv of [] \<Rightarrow> None
      | v # _ \<Rightarrow>
        if fst kv \<in> set reserved_params then None
        else (case parse_filter_param (fst kv) of None \<Rightarrow> None
          | Some (c, opr, is_like) \<Rightarrow>
              if validate_column_name c \<noteq> None then None
              else if is_hash ep c then None
              else if is_like then Some (LikeNocase c (SText (''%'' @ v @ ''%'')))
              else Some (Compare c opr (SText v))))"

definition query_pairs :: "pub_env \<Rightarrow> query \<Rightarrow> (string \<times> string list) list" where
  "query_pairs en q = List.map_filter (\<lambda>k. map_option (Pair k) (map_of q k)) (pe_order en (map fst q))"

definition search_conds :: "site_state \<Rightarrow> string \<Rightarrow> api_endpoint \<Rightarrow> query \<Rightarrow> cond list" where
  "search_conds st tab ep q =
     (let term = query_get q ''q''
      in if term = [] then []
         else case get_text_columns st tab ep of [] \<Rightarrow> []
           | cs \<Rightarrow> [AnyLike cs (SText (''%'' @ term @ ''%''))])"

definition owner_conds :: "api_endpoint \<Rightarrow> api_ctx \<Rightarrow> cond list" where
  "owner_conds ep rc =
     (case rc_owner rc of None \<Rightarrow> [] | Some u \<Rightarrow> [Compare (ep_owner_column ep) ''='' (SInt u)])"

definition list_conds :: "pub_env \<Rightarrow> site_state \<Rightarrow> string \<Rightarrow> api_endpoint \<Rightarrow> query \<Rightarrow> api_ctx \<Rightarrow> cond list" where
  "list_conds en st tab ep q rc =
     List.map_filter (filter_cond ep) (query_pairs en q) @ search_conds st tab ep q @ owner_conds ep rc"

definition first_of :: "query \<Rightarrow> string list \<Rightarrow> string" where
  "first_of q ks = (case find (\<lambda>k. query_get q k \<noteq> []) ks of Some k \<Rightarrow> query_get q k | None \<Rightarrow> [])"

definition list_order :: "site_state \<Rightarrow> string \<Rightarrow> query \<Rightarrow> string \<times> bool" where
  "list_order st tab q =
     (let c = first_of q [''sort'', ''order_by'']
      in if c \<noteq> [] \<and> validate_column_name c = None \<and> column_exists st tab c
         then (c, equal_fold (first_of q [''order'', ''direction'', ''order_direction'']) ''desc'')
         else (''id'', True))"

definition list_limit :: "query \<Rightarrow> int" where
  "list_limit q = (case atoi (query_get q ''limit'') of
     Some n \<Rightarrow> if n > 0 \<and> n \<le> 200 then n else 50 | None \<Rightarrow> 50)"

definition list_offset :: "query \<Rightarrow> int" where
  "list_offset q = (case atoi (query_get q ''offset'') of
     Some n \<Rightarrow> if n \<ge> 0 then n else 0 | None \<Rightarrow> 0)"

section \<open>Reading\<close>

definition api_list ::
  "pub_env \<Rightarrow> site_state \<Rightarrow> request \<Rightarrow> string \<Rightarrow> api_endpoint \<Rightarrow> api_ctx \<Rightarrow> response" where
  "api_list en st rq tab ep rc =
     (let q = parse_query (rq_query rq); limit = list_limit q; offset = list_offset q
      in case sql_select (pe_engine en) (si_db st) tab (select_list ep q) (list_conds en st tab ep q rc)
                (Some (list_order st tab q)) (Some (limit, offset)) of
           Inl (NoSuchColumn c) \<Rightarrow>
             write_public_error 400 (''invalid filter column: '' @ pe_error_text en (NoSuchColumn c))
         | Inl _ \<Rightarrow> write_public_error 500 ''query error''
         | Inr rows \<Rightarrow>
            (let results = strip_secure_columns (ep_secure ep) (scan_rows_to_maps rows)
             in answer 200 (ListBody results (length results) limit offset)))"

definition row_id_column :: "site_state \<Rightarrow> string \<Rightarrow> string \<Rightarrow> string" where
  "row_id_column st tab row_id =
     (if atoi row_id \<noteq> None then ''id''
      else case find (column_exists st tab) [''uuid'', ''slug''] of Some c \<Rightarrow> c | None \<Rightarrow> ''id'')"

definition row_conds :: "site_state \<Rightarrow> string \<Rightarrow> string \<Rightarrow> api_endpoint \<Rightarrow> api_ctx \<Rightarrow> cond list" where
  "row_conds st tab row_id ep rc =
     Compare (row_id_column st tab row_id) ''='' (SText row_id) # owner_conds ep rc"

definition api_get_one ::
  "pub_env \<Rightarrow> site_state \<Rightarrow> request \<Rightarrow> string \<Rightarrow> string \<Rightarrow> api_endpoint \<Rightarrow> api_ctx \<Rightarrow> response" where
  "api_get_one en st rq tab row_id ep rc =
     (case sql_select (pe_engine en) (si_db st) tab (select_list ep (parse_query (rq_query rq)))
             (row_conds st tab row_id ep rc) None None of
        Inl _ \<Rightarrow> write_public_error 500 ''query error''
      | Inr rows \<Rightarrow>
         (case strip_secure_columns (ep_secure ep) (scan_rows_to_maps rows) of
            [] \<Rightarrow> write_public_error 404 ''not found''
          | r # _ \<Rightarrow> answer 200 (RowBody r)))"

section \<open>Writing\<close>

text \<open>The loop over the secure columns: the body with their values processed, or the response.\<close>

definition secure_step :: "pub_env \<Rightarrow> string \<times> string \<Rightarrow> response + goobj \<Rightarrow> response + goobj" where
  "secure_step en ck acc =
     (case acc of Inl rsp \<Rightarrow> Inl rsp
      | Inr m \<Rightarrow>
         (case map_of m (fst ck) of None \<Rightarrow> Inr m
          | Some v \<Rightarrow>
             (case process_secure_value en (snd ck) v of
                Inl e \<Rightarrow> Inl (write_public_error 400 (''error processing '' @ fst ck @ '': '' @ e))
              | Inr v' \<Rightarrow> Inr (alist_put (fst ck) v' m))))"

definition secure_pairs :: "pub_env \<Rightarrow> api_endpoint \<Rightarrow> (string \<times> string) list" where
  "secure_pairs en ep =
     List.map_filter (\<lambda>k. map_option (Pair k) (map_of (ep_secure ep) k)) (pe_order en (map fst (ep_secure ep)))"

definition process_secure :: "pub_env \<Rightarrow> api_endpoint \<Rightarrow> goobj \<Rightarrow> response + goobj" where
  "process_secure en ep m = fold (secure_step en) (secure_pairs en ep) (Inr m)"

text \<open>A panic of the handler: \<open>body[ep.OwnerColumn] = ...\<close> on the nil map of a \<open>null\<close> body.\<close>

datatype outcome = Answered response | Panicked

definition insert_body :: "site_state \<Rightarrow> string \<Rightarrow> goobj \<Rightarrow> goobj" where
  "insert_body st tab m =
     (let cols = table_columns st tab
      in if cols = [] then m
         else filter (\<lambda>(k, _). k = ''id'' \<or> k = ''created_at'' \<or> k \<in> set cols) m)"

text \<open>The stored row, read back after a write.\<close>

definition read_back ::
  "pub_env \<Rightarrow> site_state \<Rightarrow> string \<Rightarrow> api_endpoint \<Rightarrow> cond \<Rightarrow> int \<Rightarrow> body \<Rightarrow> response" where
  "read_back en st tab ep c code dflt =
     (case sql_select (pe_engine en) (si_db st) tab (visible_columns ep) [c] None None of
        Inr (r # rows) \<Rightarrow>
          answer code (RowBody (hd (strip_secure_columns (ep_secure ep) (scan_rows_to_maps (r # rows)))))
      | _ \<Rightarrow> answer code dflt)"

definition event_payload :: "goobj \<Rightarrow> goobj" where
  "event_payload m = filter (\<lambda>(k, _). k \<noteq> ''table'' \<and> k \<noteq> ''id'') m"

definition insert_row ::
  "pub_env \<Rightarrow> site_state \<Rightarrow> string \<Rightarrow> api_endpoint \<Rightarrow> goobj \<Rightarrow> response \<times> site_state" where
  "insert_row en st tab ep m =
     (case bad_field (ranged en m) of
        Some k \<Rightarrow> (write_public_error 400 (''invalid field name: '' @ k), st)
      | None \<Rightarrow>
         (case exec_insert en (si_db st) tab (ranged en m) of
            Inl _ \<Rightarrow> (write_public_error 400 ''insert failed'', st)
          | Inr (key, db) \<Rightarrow>
             (let st = emit (DataInsert (ep_path ep) key (event_payload m)) (st\<lparr>si_db := db\<rparr>)
              in (read_back en st tab ep (Compare ''id'' ''='' (SInt key)) 201 (CreatedBody key), st))))"

definition api_insert ::
  "pub_env \<Rightarrow> site_state \<Rightarrow> request \<Rightarrow> string \<Rightarrow> api_endpoint \<Rightarrow> api_ctx \<Rightarrow> outcome \<times> site_state" where
  "api_insert en st rq tab ep rc =
     (let body = decode_body (rq_body rq)
      in if body = BadBody then (Answered (write_public_error 400 ''invalid JSON body''), st)
         else
           (let m = alist_del ''id'' (goobj_of (body_map body));
                own = (ep_owner_column ep \<noteq> [] \<and> rc_user rc > 0)
            in if own \<and> body = NilBody then (Panicked, st)
               else case process_secure en ep
                      (if own then alist_put (ep_owner_column ep) (GInt (rc_user rc)) m else m) of
                 Inl rsp \<Rightarrow> (Answered rsp, st)
               | Inr m \<Rightarrow>
                   if m = [] then (Answered (write_public_error 400 ''no data provided''), st)
                   else if insert_body st tab m = [] then
                     (Answered (write_public_error 400 ''no valid columns provided''), st)
                   else let (rsp, st) = insert_row en st tab ep (insert_body st tab m) in (Answered rsp, st)))"

definition exec_update ::
  "pub_env \<Rightarrow> database \<Rightarrow> string \<Rightarrow> goobj \<Rightarrow> cond list \<Rightarrow> sql_error + (nat \<times> database)" where
  "exec_update en db tab kvs cs =
     (case bind_all kvs of None \<Rightarrow> Inl UnsupportedType
      | Some sets \<Rightarrow> sql_update (pe_engine en) db tab sets cs)"

definition update_row ::
  "pub_env \<Rightarrow> site_state \<Rightarrow> string \<Rightarrow> string \<Rightarrow> api_endpoint \<Rightarrow> api_ctx \<Rightarrow> goobj \<Rightarrow> response \<times> site_state" where
  "update_row en st tab row_id ep rc m =
     (case bad_field (ranged en m) of
        Some k \<Rightarrow> (write_public_error 400 (''invalid field name: '' @ k), st)
      | None \<Rightarrow>
         (case exec_update en (si_db st) tab (ranged en m) (row_conds st tab row_id ep rc) of
            Inl _ \<Rightarrow> (write_public_error 400 ''update failed'', st)
          | Inr (n, db) \<Rightarrow>
             if n = 0 then (write_public_error 404 ''not found'', st\<lparr>si_db := db\<rparr>)
             else (let st' = emit (DataUpdate (ep_path ep) row_id (event_payload m)) (st\<lparr>si_db := db\<rparr>)
                   in (read_back en st' tab ep
                         (Compare (row_id_column st tab row_id) ''='' (SText row_id)) 200 SuccessBody, st'))))"

definition api_update ::
  "pub_env \<Rightarrow> site_state \<Rightarrow> request \<Rightarrow> string \<Rightarrow> string \<Rightarrow> api_endpoint \<Rightarrow> api_ctx \<Rightarrow> response \<times> site_state" where
  "api_update en st rq tab row_id ep rc =
     (let body = decode_body (rq_body rq)
      in if body = BadBody then (write_public_error 400 ''invalid JSON body'', st)
         else case process_secure en ep (alist_del ''id'' (goobj_of (body_map body))) of
           Inl rsp \<Rightarrow> (rsp, st)
         | Inr m \<Rightarrow>
            if m = [] then (write_public_error 400 ''no data provided'', st)
            else update_row en st tab row_id ep rc m)"

definition api_delete ::
  "pub_env \<Rightarrow> site_state \<Rightarrow> string \<Rightarrow> string \<Rightarrow> api_endpoint \<Rightarrow> api_ctx \<Rightarrow> response \<times> site_state" where
  "api_delete en st tab row_id ep rc =
     (case sql_delete (pe_engine en) (si_db st) tab (row_conds st tab row_id ep rc) of
        Inl _ \<Rightarrow> (write_public_error 500 ''delete failed'', st)
      | Inr (n, db) \<Rightarrow>
         if n = 0 then (write_public_error 404 ''not found'', st\<lparr>si_db := db\<rparr>)
         else (answer 200 SuccessBody, emit (DataDelete (ep_path ep) row_id) (st\<lparr>si_db := db\<rparr>)))"

section \<open>The caller\<close>

record caller =
  ca_user :: int
  ca_role :: string
  ca_site_key :: bool

definition anonymous :: caller where
  "anonymous = \<lparr>ca_user = 0, ca_role = [], ca_site_key = False\<rparr>"

definition user_caller :: "claims \<Rightarrow> caller" where
  "user_caller c = \<lparr>ca_user = cl_user c, ca_role = cl_role c, ca_site_key = False\<rparr>"

text \<open>The authentication step: the caller, or the response that refuses the request.\<close>

definition authenticate :: "pub_env \<Rightarrow> request \<Rightarrow> api_endpoint \<Rightarrow> response + caller" where
  "authenticate en rq ep =
     (if ep_requires_auth ep \<and> \<not> (rq_method rq = ''GET'' \<and> ep_public_read ep) then
        (if validate_site_token en (token_of rq) then Inr (anonymous\<lparr>ca_site_key := True\<rparr>)
         else if pe_jwt en = None then Inl (write_public_error 401 ''unauthorized'')
         else case validate_jwt en (token_of rq) of
             None \<Rightarrow> Inl (write_public_error 401 ''invalid or expired token'')
           | Some c \<Rightarrow>
              if cl_site c \<noteq> pe_site en then Inl (write_public_error 401 ''invalid or expired token'')
              else if ep_required_role ep \<noteq> [] \<and> cl_role c \<noteq> ep_required_role ep
              then Inl (write_public_error 403 ''insufficient permissions'')
              else Inr (user_caller c))
      else if ep_owner_column ep \<noteq> [] \<and> token_of rq \<noteq> [] then
        (case validate_jwt en (token_of rq) of
           Some c \<Rightarrow> if cl_site c = pe_site en then Inr (user_caller c) else Inr anonymous
         | None \<Rightarrow> Inr anonymous)
      else Inr anonymous)"

definition request_ctx :: "api_endpoint \<Rightarrow> caller \<Rightarrow> api_ctx" where
  "request_ctx ep ca =
     \<lparr>rc_owner = (if ep_owner_column ep \<noteq> [] \<and> \<not> ca_site_key ca \<and> ca_role ca \<noteq> ''admin'' \<and> ca_user ca > 0
                  then Some (ca_user ca) else None),
      rc_user = ca_user ca\<rparr>"

section \<open>Requests\<close>

definition read_request ::
  "pub_env \<Rightarrow> site_state \<Rightarrow> request \<Rightarrow> string \<Rightarrow> api_endpoint \<Rightarrow> api_ctx \<Rightarrow> response" where
  "read_request en st rq row_id ep rc =
     (if row_id \<noteq> [] then api_get_one en st rq (ep_table ep) row_id ep rc
      else api_list en st rq (ep_table ep) ep rc)"

definition with_header :: "string \<Rightarrow> string \<Rightarrow> response \<Rightarrow> response" where
  "with_header k v rsp = rsp\<lparr>rp_headers := rp_headers rsp @ [(k, v)]\<rparr>"

definition request_key :: "pub_env \<Rightarrow> request \<Rightarrow> api_endpoint \<Rightarrow> string" where
  "request_key en rq ep = cache_key (pe_site en) (ep_table ep) (rq_path rq) (rq_query rq)"

text \<open>A GET through the cache. The header of a miss is set after the response has been written.\<close>

definition cached_read ::
  "pub_env \<Rightarrow> site_state \<Rightarrow> request \<Rightarrow> string \<Rightarrow> api_endpoint \<Rightarrow> api_ctx \<Rightarrow> response \<times> site_state" where
  "cached_read en st rq row_id ep rc =
     (if ep_cache_ttl ep > 0 then
        (case cache_get (pe_now en) (si_cache st) (request_key en rq ep) of
           Some (b, code) \<Rightarrow> (with_header ''X-Cache'' ''HIT'' (answer code b), st)
         | None \<Rightarrow>
            (let rsp = read_request en st rq row_id ep rc
             in (rsp, if rp_status rsp = 200
                      then st\<lparr>si_cache := cache_set (pe_now en) (request_key en rq ep) (rp_body rsp)
                                (rp_status rsp) (ep_cache_ttl ep * second_ns) (si_cache st)\<rparr>
                      else st)))
      else (read_request en st rq row_id ep rc, st))"

definition invalidate :: "pub_env \<Rightarrow> api_endpoint \<Rightarrow> site_state \<Rightarrow> site_state" where
  "invalidate en ep st = st\<lparr>si_cache := invalidate_table (pe_site en) (ep_table ep) (si_cache st)\<rparr>"

definition crud ::
  "pub_env \<Rightarrow> site_state \<Rightarrow> request \<Rightarrow> string \<Rightarrow> api_endpoint \<Rightarrow> api_ctx \<Rightarrow> outcome \<times> site_state" where
  "crud en st rq row_id ep rc =
     (if rq_method rq = ''GET'' then
        (let (rsp, st) = cached_read en st rq row_id ep rc in (Answered rsp, st))
      else if rq_method rq = ''POST'' then
        (case api_insert en st rq (ep_table ep) ep rc of
           (Panicked, st) \<Rightarrow> (Panicked, st)
         | (rsp, st) \<Rightarrow> (rsp, invalidate en ep st))
      else if rq_method rq = ''PUT'' then
        (if row_id = [] then (Answered (write_public_error 400 ''ID required for PUT''), st)
         else let (rsp, st) = api_update en st rq (ep_table ep) row_id ep rc
              in (Answered rsp, invalidate en ep st))
      else if rq_method rq = ''DELETE'' then
        (if row_id = [] then (Answered (write_public_error 400 ''ID required for DELETE''), st)
         else let (rsp, st) = api_delete en st (ep_table ep) row_id ep rc
              in (Answered rsp, invalidate en ep st))
      else (Answered (write_public_error 405 ''method not allowed''), st))"

text \<open>The headers of cross-origin requests.\<close>

definition cors_headers :: "request \<Rightarrow> api_endpoint \<Rightarrow> (string \<times> string) list" where
  "cors_headers rq ep =
     (if ep_cors_origins ep = [] then []
      else (if ep_cors_origins ep = ''*'' then [(''Access-Control-Allow-Origin'', ''*'')]
            else if rq_origin rq \<noteq> []
              \<and> list_ex (\<lambda>a. trim_space a = rq_origin rq) (split_char (CHR '','') (ep_cors_origins ep))
            then [(''Access-Control-Allow-Origin'', rq_origin rq), (''Vary'', ''Origin'')] else [])
        @ [(''Access-Control-Allow-Methods'',
            if ep_cors_methods ep = [] then join '', '' (ep_methods ep) else ep_cors_methods ep),
           (''Access-Control-Allow-Headers'',
            if ep_cors_headers ep \<noteq> [] then ep_cors_headers ep else ''Content-Type, Authorization'')])"

fun add_headers :: "(string \<times> string) list \<Rightarrow> outcome \<Rightarrow> outcome" where
  "add_headers hs (Answered rsp) = Answered (rsp\<lparr>rp_headers := hs @ rp_headers rsp\<rparr>)"
| "add_headers hs Panicked = Panicked"

text \<open>Requests the CRUD handlers answer, with the headers set before them.\<close>

definition endpoint_request ::
  "pub_env \<Rightarrow> site_state \<Rightarrow> request \<Rightarrow> string \<Rightarrow> api_endpoint \<Rightarrow> outcome \<times> site_state" where
  "endpoint_request en st rq row_id ep =
     (if ep_cors_origins ep \<noteq> [] \<and> rq_method rq = ''OPTIONS'' then
        (Answered \<lparr>rp_status = 204, rp_headers = cors_headers rq ep @ [(''Access-Control-Max-Age'', ''86400'')],
           rp_body = EmptyBody\<rparr>, st)
      else if \<not> method_allowed (ep_methods ep) (rq_method rq) then
        (add_headers (cors_headers rq ep) (Answered (write_public_error 405 ''method not allowed'')), st)
      else case authenticate en rq ep of
          Inl rsp \<Rightarrow> (add_headers (cors_headers rq ep) (Answered rsp), st)
        | Inr ca \<Rightarrow> map_prod (add_headers (cors_headers rq ep)) id (crud en st rq row_id ep (request_ctx ep ca)))"

datatype route =
    Handled "outcome \<times> site_state"
  | ToDocs
  | ToStats string
  | ToUpload string
  | ToStream
  | ToLLM string string
  | ToWebSocket
  | ToRooms string

definition split_route :: "string \<Rightarrow> string \<times> string" where
  "split_route full = (case str_last_index full ''/'' of
     Some i \<Rightarrow> (take i full, drop (i + 1) full) | None \<Rightarrow> (full, []))"

definition dynamic_api :: "pub_env \<Rightarrow> site_state \<Rightarrow> request \<Rightarrow> route" where
  "dynamic_api en st rq =
     (let full = trim_prefix (rq_path rq) ''/api/''
      in if full = [] then Handled (Answered (write_public_error 404 ''endpoint not found''), st)
         else if full = ''docs.json'' \<and> rq_method rq = ''GET'' then ToDocs
         else case handle_auth_request en st rq full of
           Some (rsp, st) \<Rightarrow> Handled (Answered rsp, st)
         | None \<Rightarrow>
            (let (path, row_id) = split_route full
             in if row_id = ''_stats'' \<and> rq_method rq = ''GET'' then ToStats path
                else if row_id = ''upload'' \<and> rq_method rq = ''POST'' then ToUpload path
                else if row_id = ''stream'' \<and> rq_method rq = ''GET'' then ToStream
                else if row_id \<in> {''chat'', ''complete''} \<and> rq_method rq = ''POST'' then ToLLM path row_id
                else if row_id = ''ws'' then ToWebSocket
                else if row_id = ''rooms'' \<and> rq_method rq = ''GET'' then ToRooms path
                else case load_endpoint st path of
                    None \<Rightarrow> Handled (Answered (write_public_error 404 ''endpoint not found''), st)
                  | Some ep \<Rightarrow> Handled (endpoint_request en st rq row_id ep)))"

section \<open>Row-level security\<close>

fun body_rows :: "body \<Rightarrow> api_row list" where
  "body_rows (ListBody rows _ _ _) = rows"
| "body_rows (RowBody r) = [r]"
| "body_rows _ = []"

fun outcome_rows :: "outcome \<Rightarrow> api_row list" where
  "outcome_rows (Answered rsp) = body_rows (rp_body rsp)"
| "outcome_rows Panicked = []"

lemma outcome_rows_headers [simp]: "outcome_rows (add_headers hs out) = outcome_rows out"
  by (cases out) simp_all

text \<open>The owner of a row, and the rows that belong to a user.\<close>

definition owned_by :: "pub_env \<Rightarrow> api_endpoint \<Rightarrow> int \<Rightarrow> sql_table \<Rightarrow> sql_row \<Rightarrow> bool" where
  "owned_by en ep u t r =
     sq_cmp (pe_engine en) (decl_type t (ep_owner_column ep)) ''='' (value_of t r (ep_owner_column ep)) (SInt u)"

definition shown_row :: "api_endpoint \<Rightarrow> sql_table \<Rightarrow> projection \<Rightarrow> sql_row \<Rightarrow> api_row" where
  "shown_row ep t prj r = filter (\<lambda>(c, _). \<not> is_hash ep c) (scan_row (projected t prj r))"

lemma strip_shown:
  "strip_secure_columns (ep_secure ep) (scan_rows_to_maps (map (projected t prj) rows))
     = map (shown_row ep t prj) rows"
  by (simp add: strip_secure_columns_def scan_rows_to_maps_def shown_row_def is_hash_def)

lemma shown_of_select:
  assumes "sql_select e db tab prj cs ord lmt = Inr rows"
    "r \<in> set (strip_secure_columns (ep_secure ep) (scan_rows_to_maps rows))" "\<not> is_raw prj"
  shows "\<exists>t r'. find_table db tab = Some t \<and> r' \<in> set (st_rows t) \<and> matches e t cs r'
           \<and> r = shown_row ep t prj r'"
proof -
  from assms(2) obtain r0 where r0: "r0 \<in> set rows" "r = filter (\<lambda>(c, _). \<not> is_hash ep c) (scan_row r0)"
    by (auto simp: strip_secure_columns_def scan_rows_to_maps_def is_hash_def)
  from select_rows [OF assms(1) r0(1) assms(3)] r0(2) show ?thesis by (auto simp: shown_row_def)
qed

lemma owner_matches:
  "rc_owner rc = Some u \<Longrightarrow> matches (pe_engine en) t (owner_conds ep rc) r = owned_by en ep u t r"
  by (simp add: owner_conds_def owned_by_def)

lemma read_request_rows:
  assumes "r \<in> set (body_rows (rp_body (read_request en st rq row_id ep rc)))" "plain_columns ep"
  shows "\<exists>t r' prj. find_table (si_db st) (ep_table ep) = Some t \<and> r' \<in> set (st_rows t)
     \<and> matches (pe_engine en) t (owner_conds ep rc) r' \<and> r = shown_row ep t prj r'"
proof (cases "row_id = []")
  case True
  let ?q = "parse_query (rq_query rq)"
  from assms(1) True obtain rows where
    "sql_select (pe_engine en) (si_db st) (ep_table ep) (select_list ep ?q)
       (list_conds en st (ep_table ep) ep ?q rc) (Some (list_order st (ep_table ep) ?q))
       (Some (list_limit ?q, list_offset ?q)) = Inr rows"
    "r \<in> set (strip_secure_columns (ep_secure ep) (scan_rows_to_maps rows))"
    by (auto simp: read_request_def api_list_def Let_def split: sum.splits sql_error.splits)
  from shown_of_select [OF this select_list_plain [OF assms(2)]] show ?thesis by (auto simp: list_conds_def)
next
  case False
  from assms(1) False obtain rows where
    "sql_select (pe_engine en) (si_db st) (ep_table ep) (select_list ep (parse_query (rq_query rq)))
       (row_conds st (ep_table ep) row_id ep rc) None None = Inr rows"
    "r \<in> set (strip_secure_columns (ep_secure ep) (scan_rows_to_maps rows))"
    by (auto simp: read_request_def api_get_one_def split: sum.splits list.splits)
  from shown_of_select [OF this select_list_plain [OF assms(2)]] show ?thesis by (auto simp: row_conds_def)
qed

lemma keeps_rows_same_db [simp]: "keeps_rows P (si_db st) (si_db (st\<lparr>si_cache := c\<rparr>)) tab"
  by simp

lemma insert_row_keeps: "keeps_rows P (si_db st) (si_db (snd (insert_row en st tab ep m))) tab"
  by (auto simp: insert_row_def exec_insert_def Let_def split: option.splits sum.splits
      intro: insert_keeps)

lemma api_insert_keeps: "keeps_rows P (si_db st) (si_db (snd (api_insert en st rq tab ep rc))) tab"
  using insert_row_keeps by (auto simp: api_insert_def Let_def split_beta split: sum.splits)

lemma api_update_keeps:
  assumes "\<And>t r. P t r \<Longrightarrow> \<not> matches (pe_engine en) t (owner_conds ep rc) r"
  shows "keeps_rows P (si_db st) (si_db (snd (api_update en st rq tab row_id ep rc))) tab"
proof -
  have "keeps_rows P (si_db st) (si_db (snd (update_row en st tab row_id ep rc m))) tab" for m
    using assms by (auto simp: update_row_def exec_update_def row_conds_def Let_def
        split: option.splits sum.splits intro!: update_keeps)
  then show ?thesis by (auto simp: api_update_def Let_def split: sum.splits)
qed

lemma api_delete_keeps:
  assumes "\<And>t r. P t r \<Longrightarrow> \<not> matches (pe_engine en) t (owner_conds ep rc) r"
  shows "keeps_rows P (si_db st) (si_db (snd (api_delete en st tab row_id ep rc))) tab"
  using assms by (auto simp: api_delete_def row_conds_def split: sum.splits intro!: delete_keeps)

lemma db_invalidate [simp]: "si_db (invalidate en ep st) = si_db st"
  by (simp add: invalidate_def)

lemma cached_read_db [simp]: "si_db (snd (cached_read en st rq row_id ep rc)) = si_db st"
  by (simp add: cached_read_def Let_def split: option.splits)

lemma crud_keeps:
  assumes "\<And>t r. P t r \<Longrightarrow> \<not> matches (pe_engine en) t (owner_conds ep rc) r"
  shows "keeps_rows P (si_db st) (si_db (snd (crud en st rq row_id ep rc))) (ep_table ep)"
proof -
  have "keeps_rows P (si_db st) (si_db (snd (case api_insert en st rq (ep_table ep) ep rc of
          (Panicked, st) \<Rightarrow> (Panicked, st) | (Answered rsp, st) \<Rightarrow> (Answered rsp, invalidate en ep st)))) (ep_table ep)"
    using api_insert_keeps [of P st en rq "ep_table ep" ep rc]
    by (cases "api_insert en st rq (ep_table ep) ep rc") (auto split: outcome.splits)
  with api_update_keeps [where P = P and en = en and ep = ep and rc = rc and st = st and rq = rq and tab = "ep_table ep" and row_id = row_id, OF assms]
    api_delete_keeps [where P = P and en = en and ep = ep and rc = rc and st = st and tab = "ep_table ep" and row_id = row_id, OF assms]
  show ?thesis by (simp add: crud_def split_beta)
qed

section \<open>Properties of the interface\<close>

text \<open>A caller the owner filter applies to.\<close>

definition scoped :: "api_endpoint \<Rightarrow> caller \<Rightarrow> bool" where
  "scoped ep ca \<longleftrightarrow> ep_owner_column ep \<noteq> [] \<and> \<not> ca_site_key ca \<and> ca_role ca \<noteq> ''admin'' \<and> ca_user ca > 0"

lemma scoped_ctx: "scoped ep ca \<Longrightarrow> rc_owner (request_ctx ep ca) = Some (ca_user ca)"
  by (simp add: scoped_def request_ctx_def)

lemma endpoint_request_cases:
  "endpoint_request en st rq row_id ep =
     (if ep_cors_origins ep \<noteq> [] \<and> rq_method rq = ''OPTIONS'' \<or> \<not> method_allowed (ep_methods ep) (rq_method rq)
      then (fst (endpoint_request en st rq row_id ep), st)
      else case authenticate en rq ep of
          Inl rsp \<Rightarrow> (add_headers (cors_headers rq ep) (Answered rsp), st)
        | Inr ca \<Rightarrow> map_prod (add_headers (cors_headers rq ep)) id (crud en st rq row_id ep (request_ctx ep ca)))"
  by (auto simp: endpoint_request_def split: sum.splits)

lemma endpoint_request_rows:
  assumes "r \<in> set (outcome_rows (fst (endpoint_request en st rq row_id ep)))"
  obtains ca where "authenticate en rq ep = Inr ca"
    "r \<in> set (outcome_rows (fst (crud en st rq row_id ep (request_ctx ep ca))))"
proof -
  have no: "authenticate en rq ep = Inl rsp \<Longrightarrow> body_rows (rp_body rsp) = []" for rsp
    by (auto simp: authenticate_def split: if_splits option.splits)
  from assms that no show thesis
    by (auto simp: endpoint_request_def split: if_splits sum.splits)
qed

lemma endpoint_request_state:
  assumes "snd (endpoint_request en st rq row_id ep) \<noteq> st"
  obtains ca where "authenticate en rq ep = Inr ca"
    "snd (endpoint_request en st rq row_id ep) = snd (crud en st rq row_id ep (request_ctx ep ca))"
  using assms that by (auto simp: endpoint_request_def split: if_splits sum.splits)



text \<open>C28. An endpoint that requires authentication only changes state, or shows rows to a request
  other than a public GET, when the token is the key of the site or a token for a user of this
  site with the required role.\<close>

theorem access_requires_credentials:
  assumes "ep_requires_auth ep" "\<not> (rq_method rq = ''GET'' \<and> ep_public_read ep)"
    and "snd (endpoint_request en st rq row_id ep) \<noteq> st
         \<or> outcome_rows (fst (endpoint_request en st rq row_id ep)) \<noteq> []"
  shows "validate_site_token en (token_of rq)
     \<or> (\<exists>c. validate_jwt en (token_of rq) = Some c \<and> cl_site c = pe_site en
          \<and> (ep_required_role ep = [] \<or> cl_role c = ep_required_role ep))"
proof -
  obtain ca where "authenticate en rq ep = Inr ca"
    using assms(3) endpoint_request_state endpoint_request_rows by (metis list.set_intros(1) neq_Nil_conv)
  with assms(1,2) show ?thesis
    by (auto simp: authenticate_def split: if_splits option.splits)
qed

lemma shown_row_no_hash: "(c, v) \<in> set (shown_row ep t prj r) \<Longrightarrow> \<not> is_hash ep c"
  by (auto simp: shown_row_def)

lemma read_back_rows:
  assumes "r \<in> set (body_rows (rp_body (read_back en st tab ep c code dflt)))" "body_rows dflt = []" "plain_columns ep"
  shows "\<exists>t r' prj. r = shown_row ep t prj r'"
proof -
  from assms(1,2) obtain r0 rows where q: "sql_select (pe_engine en) (si_db st) tab (visible_columns ep) [c] None None = Inr (r0 # rows)"
    and r: "r = hd (strip_secure_columns (ep_secure ep) (scan_rows_to_maps (r0 # rows)))"
    by (auto simp: read_back_def split: sum.splits list.splits)
  then have "r \<in> set (strip_secure_columns (ep_secure ep) (scan_rows_to_maps (r0 # rows)))"
    by (simp add: strip_secure_columns_def scan_rows_to_maps_def)
  from shown_of_select [OF q this visible_plain [OF assms(3)]] show ?thesis by auto
qed

lemma secure_step_error:
  "secure_step en ck acc = Inl x \<Longrightarrow> \<forall>y. acc = Inl y \<longrightarrow> body_rows (rp_body y) = [] \<Longrightarrow> body_rows (rp_body x) = []"
  by (auto simp: secure_step_def split: sum.splits option.splits)

lemma secure_fold_error:
  "fold (secure_step en) cs acc = Inl rsp \<Longrightarrow> \<forall>y. acc = Inl y \<longrightarrow> body_rows (rp_body y) = [] \<Longrightarrow>
     body_rows (rp_body rsp) = []"
proof (induction cs arbitrary: acc)
  case (Cons ck cs)
  show ?case
    using Cons.IH [of "secure_step en ck acc"] Cons.prems secure_step_error [of en ck acc] by simp
qed simp

lemma secure_error: "process_secure en ep m = Inl rsp \<Longrightarrow> body_rows (rp_body rsp) = []"
  by (auto simp: process_secure_def intro: secure_fold_error)

lemma insert_row_rows:
  "r \<in> set (body_rows (rp_body (fst (insert_row en st tab ep m)))) \<Longrightarrow> plain_columns ep \<Longrightarrow> \<exists>t r' prj. r = shown_row ep t prj r'"
  by (auto simp: insert_row_def Let_def split: option.splits sum.splits dest!: read_back_rows)

lemma update_row_rows:
  "r \<in> set (body_rows (rp_body (fst (update_row en st tab row_id ep rc m)))) \<Longrightarrow> plain_columns ep \<Longrightarrow> \<exists>t r' prj. r = shown_row ep t prj r'"
  by (auto simp: update_row_def Let_def split: option.splits sum.splits if_splits dest!: read_back_rows)

lemma crud_rows:
  assumes "r \<in> set (outcome_rows (fst (crud en st rq row_id ep rc)))" "rq_method rq \<noteq> ''GET'' \<or> ep_cache_ttl ep \<le> 0"
    "plain_columns ep"
  shows "\<exists>t r' prj. r = shown_row ep t prj r'"
proof -
  have ins: "r \<in> set (outcome_rows (fst (api_insert en st rq (ep_table ep) ep rc))) \<Longrightarrow> ?thesis"
    using insert_row_rows [OF _ assms(3)] by (auto simp: api_insert_def Let_def split_beta split: sum.splits if_splits dest: secure_error)
  have upd: "r \<in> set (body_rows (rp_body (fst (api_update en st rq (ep_table ep) row_id ep rc)))) \<Longrightarrow> ?thesis"
    using update_row_rows [OF _ assms(3)] by (auto simp: api_update_def Let_def split: sum.splits if_splits dest: secure_error)
  have del: "body_rows (rp_body (fst (api_delete en st (ep_table ep) row_id ep rc))) = []"
    by (simp add: api_delete_def split: sum.splits)
  consider "rq_method rq = ''GET''" | "rq_method rq = ''POST''" | "rq_method rq \<noteq> ''GET''" "rq_method rq \<noteq> ''POST''" by blast
  then show ?thesis
  proof cases
    case 1
    with assms(1,2) have "r \<in> set (body_rows (rp_body (read_request en st rq row_id ep rc)))"
      by (simp add: crud_def cached_read_def)
    from read_request_rows [OF this assms(3)] show ?thesis by blast
  next
    case 2
    with assms(1) ins show ?thesis
      by (cases "api_insert en st rq (ep_table ep) ep rc") (auto simp: crud_def split: outcome.splits)
  next
    case 3
    with assms(1) upd del show ?thesis by (auto simp: crud_def split_beta split: if_splits)
  qed
qed


lemma list_limit_bounds: "0 < list_limit q \<and> list_limit q \<le> 200"
  by (simp add: list_limit_def split: option.splits)

lemma read_request_length:
  assumes "plain_columns ep"
  shows "length (body_rows (rp_body (read_request en st rq row_id ep rc))) \<le> 200"
proof (cases "row_id = []")
  case True
  have "length rows \<le> 200" if "sql_select e db tab prj cs ord (Some (list_limit q, off)) = Inr rows" "\<not> is_raw prj"
    for e db tab prj cs ord q off rows
    using select_length [OF that] list_limit_bounds [of q] by linarith
  with True assms show ?thesis
    by (auto simp: read_request_def api_list_def Let_def strip_secure_columns_def scan_rows_to_maps_def
        split: sum.splits sql_error.splits)
next
  case False
  then show ?thesis by (auto simp: read_request_def api_get_one_def split: sum.splits list.splits)
qed

text \<open>Pages of rows are bounded: a GET that is not answered from the cache shows at most 200
  rows, whatever limit is asked for.\<close>

theorem list_page_bounded:
  assumes "rq_method rq = ''GET''" "ep_cache_ttl ep \<le> 0" "plain_columns ep"
  shows "length (outcome_rows (fst (endpoint_request en st rq row_id ep))) \<le> 200"
proof (cases "outcome_rows (fst (endpoint_request en st rq row_id ep))")
  case (Cons r rs)
  then have "r \<in> set (outcome_rows (fst (endpoint_request en st rq row_id ep)))" by simp
  from endpoint_request_rows [OF this] obtain ca where ca: "authenticate en rq ep = Inr ca" by blast
  from Cons have "fst (endpoint_request en st rq row_id ep)
      = add_headers (cors_headers rq ep) (fst (crud en st rq row_id ep (request_ctx ep ca)))"
    using ca by (auto simp: endpoint_request_def split: if_splits)
  with assms(1,2) read_request_length [OF assms(3), of en st rq row_id "request_ctx ep ca"] show ?thesis
    by (simp add: crud_def cached_read_def)
qed simp

section \<open>An instance\<close>

fun route_rows :: "route \<Rightarrow> api_row list" where
  "route_rows (Handled res) = outcome_rows (fst res)"
| "route_rows _ = []"

fun route_state :: "site_state \<Rightarrow> route \<Rightarrow> site_state" where
  "route_state st (Handled res) = snd res"
| "route_state st _ = st"

definition demo_endpoint :: "string \<Rightarrow> string \<Rightarrow> bool \<Rightarrow> string \<Rightarrow> int \<Rightarrow> endpoint_row" where
  "demo_endpoint path tab auth own ttl =
     \<lparr>er_path = path, er_table = tab,
      er_methods = ''['' @ quoted ''GET'' @ '','' @ quoted ''PUT'' @ '']'',
      er_public_columns = None, er_requires_auth = auth, er_public_read = False, er_required_role = [],
      er_cors_origins = [], er_cors_methods = [], er_cors_headers = [], er_owner_column = own, er_cache_ttl = ttl\<rparr>"

definition note_row :: "int \<Rightarrow> int \<Rightarrow> string \<Rightarrow> sql_row" where
  "note_row n u t = [(''id'', SInt n), (''o'', SInt u), (''t'', SText t)]"

definition demo_api_site :: site_state where
  "demo_api_site = demo_site\<lparr>
     si_endpoints := [demo_endpoint ''n'' ''notes'' True ''o'' 60, demo_endpoint ''m'' ''notes'' True ''o'' 0,
                      demo_endpoint ''u'' ''users'' False [] 0],
     si_auth := [], si_dynamic := [(''users'', ''{'' @ quoted ''p'' @ '':'' @ quoted ''hash'' @ ''}'')],
     si_db := [(''notes'', \<lparr>st_columns = map (\<lambda>(n, ty). \<lparr>sc_name = n, sc_type = ty, sc_default = SNull\<rparr>)
                   [(''id'', ''INTEGER''), (''o'', ''INTEGER''), (''t'', ''TEXT'')],
                 st_rows = [note_row 1 1 ''mine'', note_row 2 2 ''yours''], st_seq = 2\<rparr>),
               (''users'', \<lparr>st_columns = users_columns, st_rows = [user_row 1 ''eve'' ''#x'' ''user''], st_seq = 1\<rparr>)]\<rparr>"

definition demo_get :: "string \<Rightarrow> int \<Rightarrow> request" where
  "demo_get path u = demo_request ''GET'' path (''Bearer 7:'' @ itoa u @ '':x:user:0:3600'') []"

text \<open>The cache is not aware of the owner: the key of an entry has the site, the table, the path
  and the query, so on an owner-scoped endpoint with a cache the list that was computed for user 1
  answers the same request of user 2, which without the cache only gets the row of user 2.\<close>

theorem cached_rows_cross_owners:
  "route_rows (dynamic_api demo_env demo_api_site (demo_get ''/api/m'' 2)) = [note_row 2 2 ''yours'']
   \<and> route_rows (dynamic_api demo_env
        (route_state demo_api_site (dynamic_api demo_env demo_api_site (demo_get ''/api/n'' 1)))
        (demo_get ''/api/n'' 2)) = [note_row 1 1 ''mine'']"
  by code_simp

text \<open>The row shown after an update is looked up by the row id of the path alone: when two users have a row
  with the same slug, the update of user 2 changes the row of user 2 and shows the row of user 1.\<close>

definition slug_row :: "int \<Rightarrow> int \<Rightarrow> string \<Rightarrow> sql_row" where
  "slug_row n u t = [(''id'', SInt n), (''o'', SInt u), (''slug'', SText ''a''), (''t'', SText t)]"

definition slug_site :: site_state where
  "slug_site = demo_site\<lparr>
     si_endpoints := [demo_endpoint ''m'' ''posts'' True ''o'' 0], si_auth := [], si_dynamic := [],
     si_db := [(''posts'', \<lparr>st_columns = map (\<lambda>(n, ty). \<lparr>sc_name = n, sc_type = ty, sc_default = SNull\<rparr>)
                   [(''id'', ''INTEGER''), (''o'', ''INTEGER''), (''slug'', ''TEXT''), (''t'', ''TEXT'')],
                 st_rows = [slug_row 1 1 ''mine'', slug_row 2 2 ''yours''], st_seq = 2\<rparr>)]\<rparr>"

theorem update_shows_other_owner:
  "(let res = dynamic_api (demo_env\<lparr>pe_sprint := (\<lambda>v. case v of GJson (JStr s) \<Rightarrow> s | _ \<Rightarrow> [])\<rparr>) slug_site
          (demo_request ''PUT'' ''/api/m/a'' (''Bearer 7:2:x:user:0:3600'') (''{'' @ quoted ''t'' @ '':'' @ quoted ''z'' @ ''}''))
    in route_rows res = [slug_row 1 1 ''mine'']
       \<and> (case find_table (si_db (route_state slug_site res)) ''posts'' of
            Some t \<Rightarrow> st_rows t = [slug_row 1 1 ''mine'', slug_row 2 2 ''z''] | None \<Rightarrow> False))"
  by code_simp

text \<open>An update is not protected as an insertion is: the names of the secure columns are compared
  with their case and those of SQL without, so a body that spells the password column in upper
  case stores the password as it was sent instead of its hash.\<close>

theorem update_bypasses_hashing:
  "(let put = (\<lambda>k. demo_request ''PUT'' ''/api/u/1'' [] (''{'' @ quoted k @ '':'' @ quoted ''y'' @ ''}''));
        stored = (\<lambda>st. map (\<lambda>r. cell r ''p'') (case find_table (si_db st) ''users'' of
                     Some t \<Rightarrow> st_rows t | None \<Rightarrow> []));
        run = (\<lambda>k. route_state demo_api_site
                 (dynamic_api (demo_env\<lparr>pe_sprint := (\<lambda>v. case v of GJson (JStr s) \<Rightarrow> s | _ \<Rightarrow> [])\<rparr>) demo_api_site (put k)))
    in stored (run ''p'') = [SText ''#y''] \<and> stored (run ''P'') = [SText ''y''])"
  by code_simp

lemma demo_note_caller:
  "authenticate demo_env (demo_get ''/api/m'' 2) (the (load_endpoint demo_api_site ''m''))
     = Inr \<lparr>ca_user = 2, ca_role = ''user'', ca_site_key = False\<rparr>"
  by code_simp

definition demo_ep :: api_endpoint where
  "demo_ep = the (load_endpoint demo_api_site ''m'')"

lemma demo_ep_simps:
  "ep_owner_column demo_ep = ''o''" "ep_cache_ttl demo_ep = 0" "ep_requires_auth demo_ep = True"
  "ep_table demo_ep = ''notes''" "ep_secure demo_ep = []" "ep_required_role demo_ep = []"
  "plain_columns demo_ep"
  by (simp_all add: plain_columns_def demo_ep_def load_endpoint_def demo_api_site_def demo_endpoint_def)

lemma demo_scoped: "scoped demo_ep \<lparr>ca_user = 2, ca_role = ''user'', ca_site_key = False\<rparr>"
  by (simp add: scoped_def demo_ep_simps)

lemma demo_get_rows:
  "outcome_rows (fst (endpoint_request demo_env demo_api_site (demo_get ''/api/m'' 2) [] demo_ep))
     = [note_row 2 2 ''yours'']"
  by code_simp


definition demo_put :: request where
  "demo_put = demo_request ''PUT'' ''/api/m/1'' (''Bearer 7:2:x:user:0:3600'') (''{'' @ quoted ''t'' @ '':'' @ quoted ''z'' @ ''}'')"


lemma access_requires_credentials_witness:
  "validate_site_token demo_env (token_of (demo_get ''/api/m'' 2))
     \<or> (\<exists>c. validate_jwt demo_env (token_of (demo_get ''/api/m'' 2)) = Some c \<and> cl_site c = pe_site demo_env
          \<and> (ep_required_role demo_ep = [] \<or> cl_role c = ep_required_role demo_ep))"
proof (rule access_requires_credentials)
  show "ep_requires_auth demo_ep" by (simp add: demo_ep_simps)
  have "\<not> ep_public_read demo_ep" by (simp add: demo_ep_def load_endpoint_def demo_api_site_def demo_endpoint_def)
  then show "\<not> (rq_method (demo_get ''/api/m'' 2) = ''GET'' \<and> ep_public_read demo_ep)" by simp
  show "snd (endpoint_request demo_env demo_api_site (demo_get ''/api/m'' 2) [] demo_ep) \<noteq> demo_api_site
     \<or> outcome_rows (fst (endpoint_request demo_env demo_api_site (demo_get ''/api/m'' 2) [] demo_ep)) \<noteq> []"
    using demo_get_rows by simp
qed

definition user_ep :: api_endpoint where
  "user_ep = the (load_endpoint demo_api_site ''u'')"

definition user_get :: request where
  "user_get = (demo_request ''GET'' ''/api/u'' [] [])\<lparr>rq_query := ''fields=u,p''\<rparr>"


lemma list_page_bounded_witness:
  "length (outcome_rows (fst (endpoint_request demo_env demo_api_site (demo_get ''/api/m'' 2) [] demo_ep))) \<le> 200"
  by (rule list_page_bounded) (simp_all add: demo_get_def demo_request_def demo_ep_simps)

end
