(* ===== verification/PublicCache.thy ===== *)
theory PublicCache
  imports PublicApi
begin

text \<open>
  The cache of the generated interface against its specification. The specification is the same
  interface with caching switched off on every endpoint; the abstraction function forgets the
  cache. For a site whose configuration is \<open>cache_safe\<close> every request is answered as the
  specification answers it and commutes with the abstraction, whatever requests came before and
  however much time passes between them.
\<close>

section \<open>The specification\<close>

definition nocache :: "api_endpoint \<Rightarrow> api_endpoint" where
  "nocache ep = ep\<lparr>ep_cache_ttl := 0\<rparr>"

definition uncached :: "site_state \<Rightarrow> site_state" where
  "uncached st = st\<lparr>si_endpoints := map (\<lambda>r. r\<lparr>er_cache_ttl := 0\<rparr>) (si_endpoints st), si_cache := Map.empty\<rparr>"

named_theorems abstraction \<open>how the operations commute with forgetting the cache\<close>

lemma nocache_simps [simp]:
  "ep_path (nocache ep) = ep_path ep" "ep_table (nocache ep) = ep_table ep"
  "ep_methods (nocache ep) = ep_methods ep" "ep_public_columns (nocache ep) = ep_public_columns ep"
  "ep_requires_auth (nocache ep) = ep_requires_auth ep" "ep_public_read (nocache ep) = ep_public_read ep"
  "ep_required_role (nocache ep) = ep_required_role ep" "ep_cache_ttl (nocache ep) = 0"
  "ep_secure (nocache ep) = ep_secure ep" "ep_owner_column (nocache ep) = ep_owner_column ep"
  "ep_cors_origins (nocache ep) = ep_cors_origins ep" "ep_cors_methods (nocache ep) = ep_cors_methods ep"
  "ep_cors_headers (nocache ep) = ep_cors_headers ep"
  by (simp_all add: nocache_def)

lemma uncached_simps [simp]:
  "si_db (uncached st) = si_db st" "si_auth (uncached st) = si_auth st" "si_oauth (uncached st) = si_oauth st"
  "si_secrets (uncached st) = si_secrets st" "si_dynamic (uncached st) = si_dynamic st"
  "si_events (uncached st) = si_events st" "si_cache (uncached st) = Map.empty"
  by (simp_all add: uncached_def)

lemma uncached_db [abstraction]: "(uncached st)\<lparr>si_db := db\<rparr> = uncached (st\<lparr>si_db := db\<rparr>)"
  by (simp add: uncached_def)

lemma uncached_emit [abstraction]: "emit ev (uncached st) = uncached (emit ev st)"
  by (simp add: emit_def uncached_def)

lemma uncached_cache [abstraction]: "uncached (st\<lparr>si_cache := c\<rparr>) = uncached st"
  by (simp add: uncached_def)

lemma uncached_invalidate [abstraction]:
  "invalidate en ep (uncached st) = uncached st" "uncached (invalidate en ep st) = uncached st"
  by (simp_all add: invalidate_def uncached_def invalidate_table_def fun_eq_iff)

lemma load_uncached [abstraction]: "load_endpoint (uncached st) path = map_option nocache (load_endpoint st path)"
proof -
  have "find (\<lambda>r. er_path r = path) (map (\<lambda>r. r\<lparr>er_cache_ttl := 0\<rparr>) rs)
      = map_option (\<lambda>r. r\<lparr>er_cache_ttl := 0\<rparr>) (find (\<lambda>r. er_path r = path) rs)" for rs :: "endpoint_row list"
    by (induction rs) auto
  then show ?thesis
    by (simp add: load_endpoint_def uncached_def nocache_def option.map_comp comp_def
        cong: option.map_cong)
qed

text \<open>The functions that look at the endpoint or the state but not at the cache.\<close>

lemma ep_hash [abstraction]: "is_hash (nocache ep) = is_hash ep"
  by (rule ext) (simp add: is_hash_def)

lemma ep_functions [abstraction]:
  "visible_columns (nocache ep) = visible_columns ep" "take_field (nocache ep) = take_field ep"
  "filter_cond (nocache ep) = filter_cond ep" "owner_conds (nocache ep) = owner_conds ep"
  "secure_pairs en (nocache ep) = secure_pairs en ep" "request_ctx (nocache ep) = request_ctx ep"
  "authenticate en rq (nocache ep) = authenticate en rq ep" "cors_headers rq (nocache ep) = cors_headers rq ep"
  unfolding fun_eq_iff visible_columns_def take_field_def filter_cond_def owner_conds_def secure_pairs_def
    request_ctx_def authenticate_def cors_headers_def nocache_simps ep_hash
  by simp_all

lemma ep_select [abstraction]: "select_list (nocache ep) = select_list ep"
  unfolding fun_eq_iff select_list_def parse_fields_param_def ep_functions by simp

lemma ep_process [abstraction]: "process_secure en (nocache ep) = process_secure en ep"
  unfolding fun_eq_iff process_secure_def ep_functions by simp

lemma st_columns [abstraction]:
  "table_columns (uncached st) = table_columns st" "column_exists (uncached st) = column_exists st"
  unfolding fun_eq_iff column_exists_def table_columns_def uncached_simps by simp_all

lemma st_functions [abstraction]:
  "get_text_columns (uncached st) tab (nocache ep) = get_text_columns st tab ep"
  "list_order (uncached st) = list_order st" "row_id_column (uncached st) = row_id_column st"
  "insert_body (uncached st) = insert_body st"
  "read_back en (uncached st) tab (nocache ep) = read_back en st tab ep"
  unfolding fun_eq_iff get_text_columns_def list_order_def row_id_column_def insert_body_def read_back_def
    uncached_simps nocache_simps st_columns ep_hash ep_functions
  by simp_all

lemma st_conds [abstraction]:
  "list_conds en (uncached st) tab (nocache ep) = list_conds en st tab ep"
  "row_conds (uncached st) tab row_id (nocache ep) = row_conds st tab row_id ep"
  unfolding fun_eq_iff list_conds_def row_conds_def search_conds_def st_functions ep_functions by simp_all

lemma read_uncached [abstraction]:
  "read_request en (uncached st) rq row_id (nocache ep) rc = read_request en st rq row_id ep rc"
  unfolding read_request_def api_list_def api_get_one_def st_conds st_functions ep_select
    nocache_simps uncached_simps ..

lemma insert_uncached [abstraction]:
  "api_insert en (uncached st) rq tab (nocache ep) rc = map_prod id uncached (api_insert en st rq tab ep rc)"
proof -
  have "insert_row en (uncached st) tab (nocache ep) m = map_prod id uncached (insert_row en st tab ep m)" for m
    unfolding insert_row_def nocache_simps uncached_simps
    by (auto simp: abstraction Let_def split: option.splits sum.splits)
  then show ?thesis
    unfolding api_insert_def nocache_simps ep_process st_functions
    by (auto simp: Let_def split_beta split: sum.splits)
qed

lemma update_uncached [abstraction]:
  "api_update en (uncached st) rq tab row_id (nocache ep) rc = map_prod id uncached (api_update en st rq tab row_id ep rc)"
proof -
  have "update_row en (uncached st) tab row_id (nocache ep) rc m = map_prod id uncached (update_row en st tab row_id ep rc m)" for m
    unfolding update_row_def nocache_simps uncached_simps st_conds st_functions
    by (auto simp: abstraction Let_def split: option.splits sum.splits)
  then show ?thesis
    unfolding api_update_def ep_process by (auto simp: Let_def split: sum.splits)
qed

lemma delete_uncached [abstraction]:
  "api_delete en (uncached st) tab row_id (nocache ep) rc = map_prod id uncached (api_delete en st tab row_id ep rc)"
  unfolding api_delete_def nocache_simps uncached_simps st_conds
  by (auto simp: abstraction Let_def split: sum.splits)

lemma auth_functions [abstraction]:
  "load_auth_endpoint (uncached st) = load_auth_endpoint st" "user_exists en (uncached st) = user_exists en st"
  "login_query en (uncached st) = login_query en st" "auth_me en (uncached st) = auth_me en st"
  "user_cell en (uncached st) = user_cell en st" "load_oauth_provider (uncached st) = load_oauth_provider st"
  unfolding fun_eq_iff load_auth_endpoint_def user_exists_def login_query_def auth_me_def user_cell_def
    load_oauth_provider_def uncached_simps
  by simp_all

lemma auth_functions2 [abstraction]:
  "find_login en (uncached st) = find_login en st" "auth_refresh en (uncached st) = auth_refresh en st"
  "oauth_authorize en (uncached st) = oauth_authorize en st" "oauth_username en (uncached st) = oauth_username en st"
  unfolding fun_eq_iff find_login_def auth_refresh_def oauth_authorize_def oauth_username_def
    auth_functions uncached_simps
  by simp_all

lemma register_uncached [abstraction]:
  "auth_register en (uncached st) rq ae = map_prod id uncached (auth_register en st rq ae)"
  unfolding auth_register_def auth_functions st_columns uncached_simps
  by (auto simp: abstraction Let_def split: sum.splits option.splits)

lemma login_uncached [abstraction]:
  "auth_login en (uncached st) rq ae = map_prod id uncached (auth_login en st rq ae)"
  unfolding auth_login_def auth_functions2
  by (auto simp: abstraction Let_def split: sum.splits option.splits)

lemma create_uncached [abstraction]:
  "find_or_create en (uncached st) ae bytes u
     = map_sum id (map_prod id (map_prod id uncached)) (find_or_create en st ae bytes u)"
  unfolding find_or_create_def auth_functions uncached_simps
  by (auto simp: abstraction Let_def split: sum.splits option.splits list.splits)

lemma callback_uncached [abstraction]:
  "oauth_callback en (uncached st) rq ae provider = map_prod id uncached (oauth_callback en st rq ae provider)"
  unfolding oauth_callback_def auth_functions2 create_uncached
  by (auto split: sum.splits option.splits)

lemma auth_uncached [abstraction]:
  "handle_auth_request en (uncached st) rq full
     = map_option (map_prod id uncached) (handle_auth_request en st rq full)"
  unfolding handle_auth_request_def auth_functions auth_functions2 register_uncached login_uncached callback_uncached
  by (auto simp: only_method_def split: option.splits prod.splits)

section \<open>What a request changes\<close>

text \<open>A request leaves the configuration alone, and changes at most one table.\<close>

definition same_config :: "site_state \<Rightarrow> site_state \<Rightarrow> bool" where
  "same_config st st' \<longleftrightarrow>
     si_endpoints st' = si_endpoints st \<and> si_auth st' = si_auth st \<and> si_dynamic st' = si_dynamic st"

definition only_table :: "string \<Rightarrow> site_state \<Rightarrow> site_state \<Rightarrow> bool" where
  "only_table tab st st' \<longleftrightarrow> same_config st st'
     \<and> (\<forall>n. fold_case n \<noteq> fold_case tab \<longrightarrow> find_table (si_db st') n = find_table (si_db st) n)"

lemma only_table_refl [simp]: "only_table tab st st"
  by (simp add: only_table_def same_config_def)

lemma only_table_emit [simp]: "only_table tab st (emit ev st') = only_table tab st st'"
  by (simp add: only_table_def same_config_def)

lemma only_table_cache [simp]: "only_table tab st (st'\<lparr>si_cache := c\<rparr>) = only_table tab st st'"
  by (simp add: only_table_def same_config_def)

lemma only_table_db:
  "keeps_rows P (si_db st) db tab \<Longrightarrow> only_table tab st (st\<lparr>si_db := db\<rparr>)"
  by (auto simp: only_table_def same_config_def keeps_rows_def split: option.splits)

lemma only_insert:
  assumes "sql_insert e (si_db st) tab sets = Inr (k, db)"
  shows "only_table tab st (st\<lparr>si_db := db\<rparr>)"
  by (rule only_table_db [OF insert_keeps [OF assms]])

lemma only_exec_insert:
  "exec_insert en (si_db st) tab kvs = Inr (k, db) \<Longrightarrow> only_table tab st (st\<lparr>si_db := db\<rparr>)"
  by (auto simp: exec_insert_def intro: only_insert split: option.splits)

lemma only_update:
  assumes "exec_update en (si_db st) tab kvs cs = Inr (n, db)"
  shows "only_table tab st (st\<lparr>si_db := db\<rparr>)"
proof -
  from assms obtain sets where "sql_update (pe_engine en) (si_db st) tab sets cs = Inr (n, db)"
    by (auto simp: exec_update_def split: option.splits)
  from only_table_db [OF update_keeps [OF this, of "\<lambda>_ _. False"]] show ?thesis by simp
qed

lemma only_delete:
  assumes "sql_delete e (si_db st) tab cs = Inr (n, db)"
  shows "only_table tab st (st\<lparr>si_db := db\<rparr>)"
  using only_table_db [OF delete_keeps [OF assms, of "\<lambda>_ _. False"]] by simp

lemma auth_only:
  "only_table (ae_table ae) st (snd (auth_register en st rq ae))"
  "snd (auth_login en st rq ae) = st \<or> (\<exists>ev. snd (auth_login en st rq ae) = emit ev st)"
  "only_table (ae_table ae) st (snd (oauth_callback en st rq ae provider))"
  subgoal by (auto simp: auth_register_def Let_def intro: only_exec_insert split: sum.splits option.splits)
  subgoal by (auto simp: auth_login_def Let_def split: sum.splits option.splits)
  subgoal by (auto simp: oauth_callback_def find_or_create_def Let_def intro: only_insert
      split: sum.splits option.splits list.splits)
  done

lemma auth_table:
  "load_auth_endpoint st path = Some ae \<Longrightarrow> ae_table ae \<in> ar_table ` set (si_auth st)"
  by (auto simp: load_auth_endpoint_def Let_def find_Some_iff split: option.splits if_splits)

lemma auth_cache:
  "si_cache (snd (auth_register en st rq ae)) = si_cache st"
  "si_cache (snd (auth_login en st rq ae)) = si_cache st"
  "si_cache (snd (oauth_callback en st rq ae provider)) = si_cache st"
  subgoal by (simp add: auth_register_def Let_def split: sum.splits option.splits prod.splits)
  subgoal by (simp add: auth_login_def Let_def split: sum.splits option.splits prod.splits)
  subgoal by (auto simp: oauth_callback_def find_or_create_def Let_def
      split: sum.splits option.splits list.splits)
  done

lemma auth_request_only:
  assumes "handle_auth_request en st rq full = Some (rsp, st')"
  shows "\<exists>tab \<in> ar_table ` set (si_auth st). only_table tab st st' \<and> si_cache st' = si_cache st"
proof -
  from assms obtain path ae where ae: "load_auth_endpoint st path = Some ae"
    by (auto simp: handle_auth_request_def split: prod.splits option.splits)
  have login: "only_table (ae_table ae') st (snd (auth_login en st rq ae'))" for ae'
    using auth_only(2) [of en st rq ae'] by auto
  from assms obtain path ae where "load_auth_endpoint st path = Some ae"
    "st' = snd (auth_register en st rq ae) \<or> st' = snd (auth_login en st rq ae) \<or> st' = st
     \<or> (\<exists>provider. st' = snd (oauth_callback en st rq ae provider))"
    by (auto simp: handle_auth_request_def only_method_def split: prod.splits option.splits if_splits)
      (metis snd_conv)+
  then have "only_table (ae_table ae) st st' \<and> si_cache st' = si_cache st"
    by (auto simp: auth_cache intro: auth_only(1,3) login)
  with auth_table [OF \<open>load_auth_endpoint st path = Some ae\<close>] show ?thesis by blast
qed

lemma insert_row_only:
  "only_table tab st (snd (insert_row en st tab ep m)) \<and> si_cache (snd (insert_row en st tab ep m)) = si_cache st"
  by (auto simp: insert_row_def Let_def split: sum.splits option.splits intro: only_exec_insert)

lemma api_insert_cases:
  "snd (api_insert en st rq tab ep rc) = st
   \<or> (\<exists>m. snd (api_insert en st rq tab ep rc) = snd (insert_row en st tab ep m) \<and> fst (api_insert en st rq tab ep rc) \<noteq> Panicked)"
  by (simp add: api_insert_def Let_def split_beta split: sum.splits) blast

lemma insert_only:
  "only_table tab st (snd (api_insert en st rq tab ep rc))"
  "si_cache (snd (api_insert en st rq tab ep rc)) = si_cache st"
  "fst (api_insert en st rq tab ep rc) = Panicked \<Longrightarrow> snd (api_insert en st rq tab ep rc) = st"
  using api_insert_cases [of en st rq tab ep rc] insert_row_only [of tab st en ep] by auto

lemma update_only:
  "only_table tab st (snd (api_update en st rq tab row_id ep rc))"
  "si_cache (snd (api_update en st rq tab row_id ep rc)) = si_cache st"
  by (auto simp: api_update_def update_row_def Let_def split: sum.splits option.splits
      intro: only_update)

lemma delete_only:
  "only_table tab st (snd (api_delete en st tab row_id ep rc))"
  "si_cache (snd (api_delete en st tab row_id ep rc)) = si_cache st"
  by (auto simp: api_delete_def split: sum.splits intro: only_delete)

text \<open>A request other than a GET changes one table and drops its cache entries, or changes nothing.\<close>

lemma crud_write:
  assumes "rq_method rq \<noteq> ''GET''"
  shows "snd (crud en st rq row_id ep rc) = st
     \<or> (only_table (ep_table ep) st (snd (crud en st rq row_id ep rc))
        \<and> si_cache (snd (crud en st rq row_id ep rc)) = invalidate_table (pe_site en) (ep_table ep) (si_cache st))"
proof (cases "rq_method rq = ''POST''")
  case True
  with assms insert_only [where tab = "ep_table ep" and st = st and en = en and rq = rq and ep = ep and rc = rc]
  show ?thesis
    by (cases "api_insert en st rq (ep_table ep) ep rc") (auto simp: crud_def invalidate_def split: outcome.splits)
next
  case False
  with assms
    update_only [where tab = "ep_table ep" and st = st and en = en and rq = rq and ep = ep and rc = rc and row_id = row_id]
    delete_only [where tab = "ep_table ep" and st = st and en = en and ep = ep and rc = rc and row_id = row_id]
  show ?thesis by (auto simp: crud_def invalidate_def split_beta)
qed

section \<open>What a read depends on\<close>

definition env_like :: "pub_env \<Rightarrow> pub_env \<Rightarrow> bool" where
  "env_like en en' \<longleftrightarrow> pe_site en' = pe_site en \<and> pe_engine en' = pe_engine en \<and> fair_order en'"

definition no_owner :: api_ctx where
  "no_owner = \<lparr>rc_owner = None, rc_user = 0\<rparr>"

lemma read_owner:
  "rc_owner rc = rc_owner rc' \<Longrightarrow> read_request en st rq row_id ep rc = read_request en st rq row_id ep rc'"
  by (simp add: read_request_def api_list_def api_get_one_def list_conds_def row_conds_def owner_conds_def)

lemma read_query:
  "rq_query rq = rq_query rq' \<Longrightarrow> read_request en st rq row_id ep rc = read_request en st rq' row_id ep rc"
  by (simp add: read_request_def api_list_def api_get_one_def)

lemma select_frame:
  "find_table db' tab = find_table db tab \<Longrightarrow> \<not> is_raw prj \<Longrightarrow> sql_select e db' tab prj cs ord lmt = sql_select e db tab prj cs ord lmt"
  by (simp add: select_plain select_columns_def)

lemma read_frame:
  assumes "find_table (si_db st') (ep_table ep) = find_table (si_db st) (ep_table ep)" "plain_columns ep"
  shows "read_request en st' rq row_id ep rc = read_request en st rq row_id ep rc"
proof -
  let ?tab = "ep_table ep"
  have c: "table_columns st' ?tab = table_columns st ?tab" by (simp add: table_columns_def assms)
  then have e: "column_exists st' ?tab = column_exists st ?tab" by (simp add: fun_eq_iff column_exists_def)
  have g: "get_text_columns st' ?tab ep = get_text_columns st ?tab ep" by (simp add: get_text_columns_def assms)
  have l: "list_conds en st' ?tab ep q rc = list_conds en st ?tab ep q rc" for q
    unfolding list_conds_def search_conds_def g ..
  have o': "list_order st' ?tab q = list_order st ?tab q" for q by (simp add: list_order_def e)
  have r: "row_conds st' ?tab row_id ep rc = row_conds st ?tab row_id ep rc"
    by (simp add: row_conds_def row_id_column_def e)
  show ?thesis
    unfolding read_request_def api_list_def api_get_one_def l o' r select_frame [OF assms(1) select_list_plain [OF assms(2)]] ..
qed

lemma check_names_None: "check_names e t ns = None \<longleftrightarrow> (\<forall>n \<in> set ns. check_name e t n = None)"
  by (induction ns) (auto split: option.splits)

lemma select_same_conds:
  assumes "set cs = set cs'" "sql_select e db tab prj cs ord lmt = Inr rows" "\<not> is_raw prj"
  shows "sql_select e db tab prj cs' ord lmt = Inr rows"
proof -
  from assms(2,3) have sel: "select_columns e db tab prj cs ord lmt = Inr rows" by (simp add: select_plain)
  then obtain t where t: "find_table db tab = Some t" by (auto simp: select_columns_def split: option.splits)
  have m: "matches e t cs' = matches e t cs"
    using assms(1) by (simp add: fun_eq_iff matches_def list_all_iff)
  let ?ns = "\<lambda>cs. projection_names prj @ concat (map cond_names cs) @ (case ord of Some (c, _) \<Rightarrow> [c] | None \<Rightarrow> [])"
  have n: "check_names e t (?ns cs) = None"
    using sel t by (cases "check_names e t (?ns cs)") (auto simp: select_columns_def)
  then have n': "check_names e t (?ns cs') = None" using assms(1) by (simp add: check_names_None)
  show ?thesis using sel unfolding select_plain [OF assms(3)] select_columns_def t option.case m n n' .
qed

lemma set_map_filter: "set (List.map_filter f xs) = {y. \<exists>x \<in> set xs. f x = Some y}"
  by (force simp: List.map_filter_def)

lemma list_conds_set:
  assumes "fair_order en" "fair_order en'"
  shows "set (list_conds en st tab ep q rc) = set (list_conds en' st tab ep q rc)"
proof -
  have "set (pe_order en xs) = set (pe_order en' xs)" for xs
    using assms by (simp add: fair_order_def)
  then show ?thesis by (simp add: list_conds_def query_pairs_def set_map_filter)
qed

lemma read_env:
  assumes "env_like en0 en" "env_like en0 en'" "rp_status (read_request en st rq row_id ep rc) = 200" "plain_columns ep"
  shows "read_request en' st rq row_id ep rc = read_request en st rq row_id ep rc"
proof (cases "row_id = []")
  case True
  let ?q = "parse_query (rq_query rq)"
  let ?sel = "\<lambda>en. sql_select (pe_engine en) (si_db st) (ep_table ep) (select_list ep ?q)
    (list_conds en st (ep_table ep) ep ?q rc) (Some (list_order st (ep_table ep) ?q)) (Some (list_limit ?q, list_offset ?q))"
  from assms(3) True obtain rows where "?sel en = Inr rows"
    by (auto simp: read_request_def api_list_def Let_def split: sum.splits sql_error.splits)
  moreover from this have "?sel en' = Inr rows"
    using assms(1,2,4) select_same_conds [OF list_conds_set [of en en' st "ep_table ep" ep ?q rc]]
    by (simp add: env_like_def)
  ultimately show ?thesis using True by (simp add: read_request_def api_list_def Let_def)
next
  case False
  with assms show ?thesis by (simp add: read_request_def api_get_one_def env_like_def)
qed

lemma read_answer: "read_request en st rq row_id ep rc
    = answer (rp_status (read_request en st rq row_id ep rc)) (rp_body (read_request en st rq row_id ep rc))"
  by (simp add: read_request_def api_list_def api_get_one_def Let_def split: sum.splits sql_error.splits list.splits)

section \<open>Valid entries\<close>

text \<open>The endpoint and the row a path leads to.\<close>

definition leads_to :: "site_state \<Rightarrow> request \<Rightarrow> string \<Rightarrow> api_endpoint \<Rightarrow> bool" where
  "leads_to st rq row_id ep \<longleftrightarrow>
     (\<exists>path. split_route (trim_prefix (rq_path rq) ''/api/'') = (path, row_id) \<and> load_endpoint st path = Some ep)"

text \<open>Every cached body is what the request would be answered with now.\<close>

definition cache_valid :: "pub_env \<Rightarrow> site_state \<Rightarrow> bool" where
  "cache_valid en0 st \<longleftrightarrow>
     (\<forall>key ent en rq row_id ep. si_cache st key = Some ent \<longrightarrow> env_like en0 en \<longrightarrow> CHR ''?'' \<notin> set (rq_path rq) \<longrightarrow>
        leads_to st rq row_id ep \<longrightarrow> ep_cache_ttl ep > 0 \<longrightarrow> request_key en rq ep = key \<longrightarrow>
        read_request en st rq row_id ep no_owner = answer (ce_status ent) (ce_body ent))"

lemma cache_validD:
  "cache_valid en0 st \<Longrightarrow> si_cache st (request_key en rq ep) = Some ent \<Longrightarrow> env_like en0 en \<Longrightarrow>
     CHR ''?'' \<notin> set (rq_path rq) \<Longrightarrow> leads_to st rq row_id ep \<Longrightarrow> ep_cache_ttl ep > 0 \<Longrightarrow>
     read_request en st rq row_id ep no_owner = answer (ce_status ent) (ce_body ent)"
  unfolding cache_valid_def by blast

text \<open>A configuration the cache is transparent for: no owner column on a cached endpoint and public columns
  that are column names, plain and consistently spelled table names, and no cached endpoint on a users table.\<close>

definition public_column_list :: "endpoint_row \<Rightarrow> string list" where
  "public_column_list r =
     (case er_public_columns r of Some s \<Rightarrow> if s \<noteq> [] then unmarshal_strings s else [] | None \<Rightarrow> [])"

definition cache_safe :: "site_state \<Rightarrow> bool" where
  "cache_safe st \<longleftrightarrow>
     (\<forall>e \<in> set (si_endpoints st). CHR '':'' \<notin> set (er_table e) \<and> (er_cache_ttl e > 0 \<longrightarrow> er_owner_column e = [])
        \<and> (er_cache_ttl e > 0 \<longrightarrow> list_all (\<lambda>c. validate_column_name c = None) (public_column_list e))
        \<and> (\<forall>e' \<in> set (si_endpoints st). fold_case (er_table e') = fold_case (er_table e) \<longrightarrow> er_table e' = er_table e)
        \<and> (er_cache_ttl e > 0 \<longrightarrow> (\<forall>a \<in> set (si_auth st). fold_case (ar_table a) \<noteq> fold_case (er_table e))))"

lemma leads_to_row:
  assumes "leads_to st rq row_id ep"
  shows "\<exists>e \<in> set (si_endpoints st). ep_table ep = er_table e \<and> ep_cache_ttl ep = er_cache_ttl e
           \<and> ep_owner_column ep = er_owner_column e \<and> ep_public_columns ep = public_column_list e"
  using assms by (auto simp: public_column_list_def leads_to_def load_endpoint_def find_Some_iff intro!: bexI [OF _ nth_mem])

lemma safe_plain:
  assumes "cache_safe st" "leads_to st rq row_id ep" "ep_cache_ttl ep > 0"
  shows "plain_columns ep"
proof -
  from leads_to_row [OF assms(2)] obtain e where
    e: "e \<in> set (si_endpoints st)" "ep_cache_ttl ep = er_cache_ttl e" "ep_public_columns ep = public_column_list e" by blast
  with assms(1,3) have "list_all (\<lambda>c. validate_column_name c = None) (public_column_list e)"
    by (simp add: cache_safe_def)
  with e(3) show ?thesis by (simp add: plain_columns_def)
qed

lemma leads_to_unique: "leads_to st rq row_id ep \<Longrightarrow> leads_to st rq' row_id' ep' \<Longrightarrow> rq_path rq = rq_path rq' \<Longrightarrow>
    row_id = row_id' \<and> ep = ep'"
  by (auto simp: leads_to_def)

lemma load_same: "same_config st st' \<Longrightarrow> load_endpoint st' path = load_endpoint st path"
  by (simp add: load_endpoint_def same_config_def)

lemma leads_to_same: "same_config st st' \<Longrightarrow> leads_to st' rq row_id ep = leads_to st rq row_id ep"
  by (simp add: leads_to_def load_same)

lemma safe_same: "same_config st st' \<Longrightarrow> cache_safe st' = cache_safe st"
  by (simp add: cache_safe_def same_config_def)

lemma split_at: "c \<notin> set a \<Longrightarrow> c \<notin> set b \<Longrightarrow> a @ c # x = b @ c # y \<Longrightarrow> a = b \<and> x = y"
proof (induction a arbitrary: b)
  case Nil
  then show ?case by (cases b) auto
next
  case (Cons d a)
  then show ?case by (cases b) auto
qed

lemma request_key_inj:
  assumes "request_key en rq ep = request_key en' rq' ep'" "pe_site en = pe_site en'"
    and "CHR '':'' \<notin> set (ep_table ep)" "CHR '':'' \<notin> set (ep_table ep')"
    and "CHR ''?'' \<notin> set (rq_path rq)" "CHR ''?'' \<notin> set (rq_path rq')"
  shows "rq_path rq = rq_path rq' \<and> rq_query rq = rq_query rq'"
proof -
  have "ep_table ep @ CHR '':'' # (rq_path rq @ CHR ''?'' # rq_query rq)
      = ep_table ep' @ CHR '':'' # (rq_path rq' @ CHR ''?'' # rq_query rq')"
    using assms(1,2) by (simp add: request_key_def cache_key_def invalidation_prefix_def)
  from split_at [OF assms(3,4) this] split_at [OF assms(5,6)] show ?thesis by blast
qed

text \<open>A change of one table keeps the entries of the other tables valid.\<close>

lemma valid_frame:
  assumes "cache_valid en0 st" "cache_safe st" "only_table tab st st'"
    and "\<And>key ent. si_cache st' key = Some ent \<Longrightarrow> si_cache st key = Some ent"
    and "\<And>en rq row_id ep ent. si_cache st' (request_key en rq ep) = Some ent \<Longrightarrow> env_like en0 en \<Longrightarrow>
           leads_to st rq row_id ep \<Longrightarrow> ep_cache_ttl ep > 0 \<Longrightarrow> fold_case (ep_table ep) \<noteq> fold_case tab"
  shows "cache_valid en0 st'"
  unfolding cache_valid_def
proof (intro allI impI)
  fix key ent en rq row_id ep
  assume c: "si_cache st' key = Some ent" "env_like en0 en" "CHR ''?'' \<notin> set (rq_path rq)"
    "leads_to st' rq row_id ep" "0 < ep_cache_ttl ep" "request_key en rq ep = key"
  have same: "same_config st st'" using assms(3) by (simp add: only_table_def)
  have l: "leads_to st rq row_id ep" using c(4) leads_to_same [OF same] by simp
  from c assms(5) [OF _ c(2) l] have "fold_case (ep_table ep) \<noteq> fold_case tab" by simp
  then have "find_table (si_db st') (ep_table ep) = find_table (si_db st) (ep_table ep)"
    using assms(3) by (simp add: only_table_def)
  from read_frame [OF this safe_plain [OF assms(2) l c(5)]] cache_validD [OF assms(1) _ c(2,3) l c(5)] assms(4) c(1,6)
  show "read_request en st' rq row_id ep no_owner = answer (ce_status ent) (ce_body ent)" by simp
qed

lemma valid_write:
  assumes "cache_valid en0 st" "cache_safe st" "env_like en0 en" "leads_to st rq row_id ep"
    and "only_table (ep_table ep) st st'"
    and "si_cache st' = invalidate_table (pe_site en) (ep_table ep) (si_cache st)"
  shows "cache_valid en0 st'"
proof (rule valid_frame [OF assms(1,2,5)])
  show "si_cache st key = Some ent" if "si_cache st' key = Some ent" for key ent
    using that assms(6) by (simp add: invalidate_table_def split: if_splits)
next
  fix en' rq' row_id' ep' ent
  assume c: "si_cache st' (request_key en' rq' ep') = Some ent" "env_like en0 en'" "leads_to st rq' row_id' ep'"
  have "ep_table ep' \<noteq> ep_table ep"
    using c(1,2) assms(3,6)
    by (auto simp: invalidate_table_def request_key_def cache_key_def env_like_def split: if_splits)
  moreover obtain e e' where "e \<in> set (si_endpoints st)" "e' \<in> set (si_endpoints st)"
    "ep_table ep = er_table e" "ep_table ep' = er_table e'"
    using leads_to_row [OF assms(4)] leads_to_row [OF c(3)] by blast
  ultimately show "fold_case (ep_table ep') \<noteq> fold_case (ep_table ep)"
    using assms(2) by (auto simp: cache_safe_def)
qed

lemma valid_auth:
  assumes "cache_valid en0 st" "cache_safe st" "tab \<in> ar_table ` set (si_auth st)"
    and "only_table tab st st'" "si_cache st' = si_cache st"
  shows "cache_valid en0 st'"
proof (rule valid_frame [OF assms(1,2,4)])
  show "si_cache st key = Some ent" if "si_cache st' key = Some ent" for key ent
    using that assms(5) by simp
next
  fix en' rq' row_id' ep' ent
  assume "leads_to st rq' row_id' ep'" "ep_cache_ttl ep' > 0"
  then obtain e where e: "e \<in> set (si_endpoints st)" "ep_table ep' = er_table e" "er_cache_ttl e > 0"
    using leads_to_row [of st rq' row_id' ep'] by auto
  from assms(2) e(1,3) have "\<forall>a \<in> set (si_auth st). fold_case (ar_table a) \<noteq> fold_case (er_table e)"
    unfolding cache_safe_def by blast
  with assms(3) e(2) show "fold_case (ep_table ep') \<noteq> fold_case tab" by auto
qed

lemma no_owner_read:
  assumes "cache_safe st" "leads_to st rq row_id ep" "ep_cache_ttl ep > 0"
  shows "read_request en st rq' row_id' ep (request_ctx ep ca) = read_request en st rq' row_id' ep no_owner"
proof (rule read_owner)
  from leads_to_row [OF assms(2)] assms(1,3) have "ep_owner_column ep = []" by (auto simp: cache_safe_def)
  then show "rc_owner (request_ctx ep ca) = rc_owner no_owner" by (simp add: request_ctx_def no_owner_def)
qed

lemma valid_store:
  assumes "cache_valid en0 st" "cache_safe st" "env_like en0 en" "CHR ''?'' \<notin> set (rq_path rq)"
    and "leads_to st rq row_id ep" "ep_cache_ttl ep > 0"
    and r: "rsp = read_request en st rq row_id ep no_owner" "rp_status rsp = 200"
  shows "cache_valid en0 (st\<lparr>si_cache := cache_set now (request_key en rq ep) (rp_body rsp) (rp_status rsp) ttl (si_cache st)\<rparr>)"
  unfolding cache_valid_def
proof (intro allI impI)
  let ?st = "st\<lparr>si_cache := cache_set now (request_key en rq ep) (rp_body rsp) (rp_status rsp) ttl (si_cache st)\<rparr>"
  fix key ent en' rq' row_id' ep'
  assume c: "si_cache ?st key = Some ent" "env_like en0 en'" "CHR ''?'' \<notin> set (rq_path rq')"
    "leads_to ?st rq' row_id' ep'" "0 < ep_cache_ttl ep'" "request_key en' rq' ep' = key"
  have same: "same_config st ?st" by (simp add: same_config_def)
  have l: "leads_to st rq' row_id' ep'" using c(4) leads_to_same [OF same] by simp
  have f: "read_request en' ?st rq' row_id' ep' no_owner = read_request en' st rq' row_id' ep' no_owner"
    by (rule read_frame) (simp_all add: safe_plain [OF assms(2) l c(5)])
  show "read_request en' ?st rq' row_id' ep' no_owner = answer (ce_status ent) (ce_body ent)"
  proof (cases "key = request_key en rq ep")
    case True
    have "CHR '':'' \<notin> set (ep_table ep)" "CHR '':'' \<notin> set (ep_table ep')"
      using leads_to_row [OF assms(5)] leads_to_row [OF l] assms(2) by (auto simp: cache_safe_def)
    then have path: "rq_path rq = rq_path rq'" "rq_query rq = rq_query rq'"
      using request_key_inj [of en rq ep en' rq' ep'] True c(2,3,6) assms(3,4) by (auto simp: env_like_def)
    from leads_to_unique [OF assms(5) l path(1)] have e: "row_id' = row_id" "ep' = ep" by auto
    have "answer (rp_status rsp) (rp_body rsp) = rsp" unfolding r(1) by (rule read_answer [symmetric])
    then have "answer (ce_status ent) (ce_body ent) = rsp"
      using c(1) True by (auto simp: cache_set_def)
    moreover have "read_request en' st rq' row_id ep no_owner = rsp"
      using read_env [OF assms(3) c(2) _ safe_plain [OF assms(2,5,6)]] read_query [OF path(2)] r by simp
    ultimately show ?thesis using f [unfolded e] by (simp only: e)
  next
    case False
    then have "si_cache st key = Some ent" using c(1) by (simp add: cache_set_def)
    with cache_validD [OF assms(1) _ c(2,3) l c(5)] c(6) f show ?thesis by simp
  qed
qed

section \<open>Refinement\<close>

text \<open>What the client sees of an outcome: the status and the body; a panic closes the connection.\<close>

fun visible_answer :: "outcome \<Rightarrow> (int \<times> body) option" where
  "visible_answer (Answered rsp) = Some (rp_status rsp, rp_body rsp)"
| "visible_answer Panicked = None"

lemma visible_headers [simp]: "visible_answer (add_headers hs out) = visible_answer out"
  by (cases out) simp_all

lemma read_refines:
  fixes ca :: caller
  assumes "cache_valid en0 st" "cache_safe st" "env_like en0 en" "CHR ''?'' \<notin> set (rq_path rq)" "leads_to st rq row_id ep"
  defines "res \<equiv> cached_read en st rq row_id ep (request_ctx ep ca)"
    and "spec \<equiv> cached_read en (uncached st) rq row_id (nocache ep) (request_ctx ep ca)"
  shows "(rp_status (fst res), rp_body (fst res)) = (rp_status (fst spec), rp_body (fst spec))
     \<and> snd spec = uncached (snd res) \<and> cache_valid en0 (snd res) \<and> same_config st (snd res)"
proof (cases "ep_cache_ttl ep > 0")
  case False
  then show ?thesis using assms(1) by (simp add: res_def spec_def cached_read_def abstraction same_config_def)
next
  case True
  let ?rsp = "read_request en st rq row_id ep no_owner"
  have r: "read_request en st rq row_id ep (request_ctx ep ca) = ?rsp"
    by (rule no_owner_read [OF assms(2,5) True])
  have spec: "spec = (?rsp, uncached st)" by (simp add: spec_def cached_read_def abstraction r)
  show ?thesis
  proof (cases "cache_get (pe_now en) (si_cache st) (request_key en rq ep)")
    case None
    show ?thesis
      using valid_store [OF assms(1-5) True refl] assms(1)
      by (auto simp: res_def spec cached_read_def None True r Let_def abstraction same_config_def)
  next
    case (Some x)
    then obtain ent where ent: "si_cache st (request_key en rq ep) = Some ent" "x = (ce_body ent, ce_status ent)"
      by (auto simp: cache_get_def split: option.splits if_splits)
    from cache_validD [OF assms(1) ent(1) assms(3,4,5) True] have "?rsp = answer (ce_status ent) (ce_body ent)" .
    with Some ent True assms(1) show ?thesis
      by (simp add: res_def spec cached_read_def with_header_def same_config_def)
  qed
qed

lemma crud_refines:
  fixes ca :: caller
  assumes "cache_valid en0 st" "cache_safe st" "env_like en0 en" "CHR ''?'' \<notin> set (rq_path rq)" "leads_to st rq row_id ep"
  defines "res \<equiv> crud en st rq row_id ep (request_ctx ep ca)"
    and "spec \<equiv> crud en (uncached st) rq row_id (nocache ep) (request_ctx ep ca)"
  shows "visible_answer (fst res) = visible_answer (fst spec) \<and> snd spec = uncached (snd res)
     \<and> cache_valid en0 (snd res) \<and> same_config st (snd res)"
proof (cases "rq_method rq = ''GET''")
  case True
  with read_refines [OF assms(1-5), of ca] show ?thesis
    by (simp add: res_def spec_def crud_def split_beta)
next
  case False
  have "visible_answer (fst res) = visible_answer (fst spec) \<and> snd spec = uncached (snd res)"
    unfolding res_def spec_def crud_def nocache_simps insert_uncached update_uncached delete_uncached
    using False by (auto simp: abstraction split_beta split: prod.splits outcome.splits)
  moreover have "cache_valid en0 (snd res) \<and> same_config st (snd res)"
  proof (cases "snd res = st")
    case same: True
    then show ?thesis using assms(1) by (simp add: same_config_def)
  next
    case changed: False
    then have w: "only_table (ep_table ep) st (snd res)"
      "si_cache (snd res) = invalidate_table (pe_site en) (ep_table ep) (si_cache st)"
      using crud_write [OF False, of en st row_id ep "request_ctx ep ca"] by (auto simp: res_def)
    from valid_write [OF assms(1,2,3,5) w] w(1) show ?thesis by (simp add: only_table_def)
  qed
  ultimately show ?thesis by blast
qed

lemma endpoint_refines:
  assumes "cache_valid en0 st" "cache_safe st" "env_like en0 en" "CHR ''?'' \<notin> set (rq_path rq)" "leads_to st rq row_id ep"
  defines "res \<equiv> endpoint_request en st rq row_id ep"
    and "spec \<equiv> endpoint_request en (uncached st) rq row_id (nocache ep)"
  shows "visible_answer (fst res) = visible_answer (fst spec) \<and> snd spec = uncached (snd res)
     \<and> cache_valid en0 (snd res) \<and> same_config st (snd res)"
proof -
  have same: "same_config st st" by (simp add: same_config_def)
  show ?thesis
    using crud_refines [OF assms(1-5)] assms(1) same
    by (auto simp: res_def spec_def endpoint_request_def abstraction split: sum.splits)
qed

text \<open>One request: the outcome, or None for a route of another handler, and the state after it.\<close>

definition serve :: "pub_env \<Rightarrow> site_state \<Rightarrow> request \<Rightarrow> outcome option \<times> site_state" where
  "serve en st rq = (case dynamic_api en st rq of Handled (out, st') \<Rightarrow> (Some out, st') | _ \<Rightarrow> (None, st))"

lemma serve_refines:
  assumes "cache_valid en0 st" "cache_safe st" "env_like en0 en" "CHR ''?'' \<notin> set (rq_path rq)"
  shows "map_option visible_answer (fst (serve en st rq)) = map_option visible_answer (fst (serve en (uncached st) rq))
     \<and> snd (serve en (uncached st) rq) = uncached (snd (serve en st rq))
     \<and> cache_valid en0 (snd (serve en st rq)) \<and> same_config st (snd (serve en st rq))"
proof (cases "handle_auth_request en st rq (trim_prefix (rq_path rq) ''/api/'')")
  case (Some x)
  obtain rsp st' where x: "x = (rsp, st')" by (cases x)
  from auth_request_only [OF Some [unfolded x]] obtain tab where
    t: "tab \<in> ar_table ` set (si_auth st)" "only_table tab st st'" "si_cache st' = si_cache st" by blast
  from valid_auth [OF assms(1,2) t] t(2) Some x assms(1) show ?thesis
    by (auto simp: serve_def dynamic_api_def auth_uncached Let_def only_table_def same_config_def)
next
  case None
  obtain path row_id where s: "split_route (trim_prefix (rq_path rq) ''/api/'') = (path, row_id)"
    by (cases "split_route (trim_prefix (rq_path rq) ''/api/'')")
  have refl_ok: "cache_valid en0 st \<and> same_config st st" using assms(1) by (simp add: same_config_def)
  show ?thesis
  proof (cases "load_endpoint st path")
    case none: None
    with None s refl_ok show ?thesis
      by (simp add: serve_def dynamic_api_def auth_uncached load_uncached Let_def)
  next
    case (Some ep)
    then have l: "leads_to st rq row_id ep" by (simp add: leads_to_def s)
    have "visible_answer (fst (endpoint_request en st rq row_id ep)) = visible_answer (fst (endpoint_request en (uncached st) rq row_id (nocache ep)))"
      "snd (endpoint_request en (uncached st) rq row_id (nocache ep)) = uncached (snd (endpoint_request en st rq row_id ep))"
      "cache_valid en0 (snd (endpoint_request en st rq row_id ep))" "same_config st (snd (endpoint_request en st rq row_id ep))"
      using endpoint_refines [OF assms l] by blast+
    with None Some s refl_ok show ?thesis
      by (simp add: serve_def dynamic_api_def auth_uncached load_uncached Let_def split_beta)
  qed
qed

fun serve_all :: "site_state \<Rightarrow> (pub_env \<times> request) list \<Rightarrow> (int \<times> body) option option list \<times> site_state" where
  "serve_all st [] = ([], st)"
| "serve_all st ((en, rq) # rqs) =
     (let (out, st) = serve en st rq; (outs, st) = serve_all st rqs
      in (map_option visible_answer out # outs, st))"

lemma serve_all_refines:
  assumes "cache_valid en0 st" "cache_safe st" "\<forall>(en, rq) \<in> set rqs. env_like en0 en \<and> CHR ''?'' \<notin> set (rq_path rq)"
  shows "serve_all (uncached st) rqs = map_prod id uncached (serve_all st rqs)"
  using assms
proof (induction rqs arbitrary: st)
  case (Cons x rqs)
  obtain en rq where x: "x = (en, rq)" by (cases x)
  from Cons.prems x have "env_like en0 en" "CHR ''?'' \<notin> set (rq_path rq)" by auto
  note s = serve_refines [OF Cons.prems(1,2) this]
  then have "serve_all (uncached (snd (serve en st rq))) rqs = map_prod id uncached (serve_all (snd (serve en st rq)) rqs)"
    using Cons.prems safe_same by (intro Cons.IH) auto
  with s show ?case by (simp add: x Let_def split_beta)
qed simp

lemma empty_cache_valid: "si_cache st = Map.empty \<Longrightarrow> cache_valid en0 st"
  by (simp add: cache_valid_def)


definition cache_demo_site :: site_state where
  "cache_demo_site = demo_api_site\<lparr>si_endpoints := [demo_endpoint ''n'' ''notes'' False [] 60]\<rparr>"

definition cache_demo_requests :: "(pub_env \<times> request) list" where
  "cache_demo_requests = map (\<lambda>(t, rq). (demo_env\<lparr>pe_now := t\<rparr>, rq))
     [(0, demo_request ''GET'' ''/api/n'' [] []), (1, demo_request ''GET'' ''/api/n'' [] []),
      (2, demo_request ''PUT'' ''/api/n/1'' [] (''{'' @ quoted ''t'' @ '':'' @ quoted ''z'' @ ''}'')),
      (3, demo_request ''GET'' ''/api/n'' [] [])]"


text \<open>The key of an entry is the path, a question mark and the query: row 1 asked for with the query
  \<open>x?y\<close> is the cached answer to a request for row \<open>1?x\<close> with the query \<open>y\<close>, which does not exist.\<close>

definition colliding_requests :: "(pub_env \<times> request) list" where
  "colliding_requests = map (\<lambda>(p, q). (demo_env, (demo_request ''GET'' p [] [])\<lparr>rq_query := q\<rparr>))
     [(''/api/n/1'', ''x?y''), (''/api/n/1?x'', ''y'')]"

theorem cache_key_collision:
  "map (map_option (map_option fst)) (fst (serve_all cache_demo_site colliding_requests)) = [Some (Some 200), Some (Some 200)]
   \<and> map (map_option (map_option fst)) (fst (serve_all (uncached cache_demo_site) colliding_requests))
       = [Some (Some 200), Some (Some 404)]"
  by code_simp

end
