(* ===== verification/RateLimit.thy ===== *)
theory RateLimit
  imports PublicRequest GoTime
begin

text \<open>
  The per-address limiter of \<open>server/middleware/ratelimit.go\<close>: a token bucket per client, swept once
  a minute, and the address of a client behind a local proxy. Tokens are \<open>float64\<close> in the code and
  rationals here. The abstract limiter at the end keeps one bucket per client for ever; the lemmas
  show that sweeping does not change an answer when a bucket fills up within two minutes.
\<close>

section \<open>The address of a client\<close>

text \<open>What the middleware reads of a request beside the fields the handlers use.\<close>

record conn_request = request +
  rq_remote :: string
  rq_forwarded_for :: string
  rq_real_ip :: string
  rq_request_id :: string

text \<open>\<open>net.SplitHostPort\<close>: the host, or nothing when the function returns an error.\<close>

definition split_host_port :: "string \<Rightarrow> string option" where
  "split_host_port s =
     (case str_last_index s '':'' of
        None \<Rightarrow> None
      | Some i \<Rightarrow>
          (if has_prefix s ''['' then
             (case str_index s '']'' of
                None \<Rightarrow> None
              | Some e \<Rightarrow>
                  (if e + 1 \<noteq> i \<or> contains (drop 1 s) ''['' \<or> contains (drop (e + 1) s) '']'' then None
                   else Some (take (e - 1) (drop 1 s))))
           else if contains (take i s) '':'' \<or> contains s ''['' \<or> contains s '']'' then None
           else Some (take i s)))"

definition loopback :: "string \<Rightarrow> bool" where
  "loopback host = (host = ''127.0.0.1'' \<or> host = ''::1'' \<or> host = ''localhost'')"

definition remote_host :: "'a conn_request_scheme \<Rightarrow> string" where
  "remote_host r = (case split_host_port (rq_remote r) of Some h \<Rightarrow> h | None \<Rightarrow> rq_remote r)"

definition client_ip :: "'a conn_request_scheme \<Rightarrow> string" where
  "client_ip r =
     (let host = remote_host r
      in if loopback host then
           (if rq_forwarded_for r \<noteq> [] then
              (case str_index (rq_forwarded_for r) '','' of
                 Some i \<Rightarrow> trim_space (take i (rq_forwarded_for r))
               | None \<Rightarrow> trim_space (rq_forwarded_for r))
            else if rq_real_ip r \<noteq> [] then trim_space (rq_real_ip r)
            else host)
         else host)"

text \<open>Headers a client sends count only behind a local proxy.\<close>

lemma client_ip_remote:
  "\<not> loopback (remote_host r) \<Longrightarrow>
   client_ip (r\<lparr>rq_forwarded_for := f, rq_real_ip := i\<rparr>) = client_ip r"
  by (cases "split_host_port (rq_remote r)") (simp_all add: client_ip_def remote_host_def Let_def)

section \<open>The limiter\<close>

record bucket =
  bk_tokens :: rat
  bk_last :: instant

record rate_limiter =
  rl_buckets :: "string \<rightharpoonup> bucket"
  rl_rate :: rat
  rl_burst :: rat
  rl_sweep :: instant

definition new_rate_limiter :: "instant \<Rightarrow> rat \<Rightarrow> int \<Rightarrow> rate_limiter" where
  "new_rate_limiter now rate burst =
     \<lparr>rl_buckets = Map.empty, rl_rate = rate, rl_burst = of_int burst, rl_sweep = now\<rparr>"

text \<open>\<open>Duration.Seconds\<close>.\<close>

definition seconds :: "int \<Rightarrow> rat" where
  "seconds d = of_int d / 1000000000"

definition sweep_stale :: "instant \<Rightarrow> rate_limiter \<Rightarrow> rate_limiter" where
  "sweep_stale now rl =
     (if now - rl_sweep rl > minute_ns then
        rl\<lparr>rl_buckets := (\<lambda>k. case rl_buckets rl k of
               Some b \<Rightarrow> if now - bk_last b > 2 * minute_ns then None else Some b | None \<Rightarrow> None),
           rl_sweep := now\<rparr>
      else rl)"

definition refill :: "rat \<Rightarrow> rat \<Rightarrow> instant \<Rightarrow> bucket \<Rightarrow> rat" where
  "refill rate burst now b =
     (let t = bk_tokens b + seconds (now - bk_last b) * rate in if t > burst then burst else t)"

definition allow :: "instant \<Rightarrow> string \<Rightarrow> rate_limiter \<Rightarrow> bool \<times> rate_limiter" where
  "allow now ip rl0 =
     (let rl = sweep_stale now rl0;
          b = (case rl_buckets rl ip of
                 None \<Rightarrow> \<lparr>bk_tokens = rl_burst rl, bk_last = now\<rparr> | Some b \<Rightarrow> b);
          t = refill (rl_rate rl) (rl_burst rl) now b
      in if t < 1
         then (False, rl\<lparr>rl_buckets := (rl_buckets rl)(ip \<mapsto> \<lparr>bk_tokens = t, bk_last = now\<rparr>)\<rparr>)
         else (True, rl\<lparr>rl_buckets := (rl_buckets rl)(ip \<mapsto> \<lparr>bk_tokens = t - 1, bk_last = now\<rparr>)\<rparr>))"

text \<open>A run: the requests in the order in which they take the lock, each with the clock read under
  it, and the answers.\<close>

fun allow_run :: "(instant \<times> string) list \<Rightarrow> rate_limiter \<Rightarrow> bool list \<times> rate_limiter" where
  "allow_run [] rl = ([], rl)"
| "allow_run ((t, ip) # es) rl =
     (let (ok, rl') = allow t ip rl; (oks, rl'') = allow_run es rl' in (ok # oks, rl''))"

section \<open>One bucket per client, for ever\<close>

text \<open>The level of a client's bucket as time passes, and the specification of one client's
  answers: a full bucket, a token per admitted request, refilled at the rate up to the capacity.\<close>

definition level_after :: "rat \<Rightarrow> rat \<Rightarrow> int \<Rightarrow> rat \<Rightarrow> rat" where
  "level_after rate burst d t = min burst (t + seconds d * rate)"

fun spec_answers :: "rat \<Rightarrow> rat \<Rightarrow> rat \<Rightarrow> instant \<Rightarrow> instant list \<Rightarrow> bool list" where
  "spec_answers rate burst t t0 [] = []"
| "spec_answers rate burst t t0 (now # ts) =
     (let t' = level_after rate burst (now - t0) t
      in (1 \<le> t') # spec_answers rate burst (if 1 \<le> t' then t' - 1 else t') now ts)"

definition limiter_ok :: "rate_limiter \<Rightarrow> bool" where
  "limiter_ok rl =
     (0 \<le> rl_rate rl \<and> 0 \<le> rl_burst rl
      \<and> (\<forall>ip b. rl_buckets rl ip = Some b \<longrightarrow> 0 \<le> bk_tokens b \<and> bk_tokens b \<le> rl_burst rl))"

text \<open>The level of a client in the code's limiter at a time after its last request.\<close>

definition bucket_level :: "instant \<Rightarrow> string \<Rightarrow> rate_limiter \<Rightarrow> rat" where
  "bucket_level now ip rl =
     (case rl_buckets rl ip of None \<Rightarrow> rl_burst rl
      | Some b \<Rightarrow> level_after (rl_rate rl) (rl_burst rl) (now - bk_last b) (bk_tokens b))"

section \<open>Sweeping does not change an answer\<close>

lemma seconds_simps [simp]:
  "seconds 0 = 0" "seconds (d + e) = seconds d + seconds e" "0 \<le> seconds d \<longleftrightarrow> 0 \<le> d"
  by (simp_all add: seconds_def add_divide_distrib zero_le_divide_iff)

lemma seconds_diff: "seconds (d - e) = seconds d - seconds e"
  by (simp add: seconds_def diff_divide_distrib)

lemma refill_level: "refill rate burst now b = level_after rate burst (now - bk_last b) (bk_tokens b)"
  by (simp add: refill_def level_after_def Let_def min_def del: seconds_simps)

lemma level_after_mono:
  assumes "0 \<le> rate" "0 \<le> d" "t \<le> burst"
  shows "t \<le> level_after rate burst d t" "level_after rate burst d t \<le> burst"
    "level_after rate burst d t \<le> t + seconds d * rate"
  using assms by (simp_all add: level_after_def)

lemma level_after_zero [simp]: "t \<le> burst \<Longrightarrow> level_after rate burst 0 t = t"
  by (simp add: level_after_def)

lemma level_after_full [simp]: "0 \<le> rate \<Longrightarrow> 0 \<le> d \<Longrightarrow> level_after rate burst d burst = burst"
  by (simp add: level_after_def min_def)

lemma level_after_twice:
  assumes "0 \<le> rate" "0 \<le> e"
  shows "level_after rate burst e (level_after rate burst d t) = level_after rate burst (d + e) t"
proof -
  have "0 \<le> seconds e * rate" using assms by simp
  then show ?thesis by (simp add: level_after_def min_def algebra_simps)
qed

text \<open>The times in a limiter are past.\<close>

definition past :: "instant \<Rightarrow> rate_limiter \<Rightarrow> bool" where
  "past now rl = (\<forall>ip b. rl_buckets rl ip = Some b \<longrightarrow> bk_last b \<le> now)"

lemma past_mono: "past t rl \<Longrightarrow> t \<le> t' \<Longrightarrow> past t' rl"
  unfolding past_def by (meson order_trans)

lemma level_bounds:
  assumes "limiter_ok rl" "past now rl"
  shows "0 \<le> bucket_level now ip rl" "bucket_level now ip rl \<le> rl_burst rl"
proof -
  have ok: "0 \<le> rl_rate rl" "0 \<le> rl_burst rl" using assms(1) by (simp_all add: limiter_ok_def)
  show "bucket_level now ip rl \<le> rl_burst rl"
    by (simp add: bucket_level_def level_after_def split: option.split)
  show "0 \<le> bucket_level now ip rl"
  proof (cases "rl_buckets rl ip")
    case None
    with ok show ?thesis by (simp add: bucket_level_def)
  next
    case (Some b)
    then have "0 \<le> bk_tokens b" "bk_tokens b \<le> rl_burst rl" "bk_last b \<le> now"
      using assms by (auto simp: limiter_ok_def past_def)
    then have "bk_tokens b \<le> level_after (rl_rate rl) (rl_burst rl) (now - bk_last b) (bk_tokens b)"
      using level_after_mono(1) ok by simp
    with Some \<open>0 \<le> bk_tokens b\<close> show ?thesis by (simp add: bucket_level_def)
  qed
qed

lemma sweep_frame [simp]:
  "rl_rate (sweep_stale now rl) = rl_rate rl" "rl_burst (sweep_stale now rl) = rl_burst rl"
  by (simp_all add: sweep_stale_def)

lemma sweep_subset:
  "rl_buckets (sweep_stale now rl) k = Some b \<Longrightarrow> rl_buckets rl k = Some b"
  by (auto simp: sweep_stale_def split: if_splits option.splits)

lemma sweep_ok: "limiter_ok rl \<Longrightarrow> limiter_ok (sweep_stale now rl)"
  by (auto simp: limiter_ok_def dest: sweep_subset)

lemma sweep_past: "past t rl \<Longrightarrow> past t (sweep_stale now rl)"
  by (auto simp: past_def dest: sweep_subset)

text \<open>A bucket that is dropped was full, when it fills up within two minutes.\<close>

lemma sweep_level:
  assumes ok: "limiter_ok rl" and fills: "rl_burst rl \<le> 120 * rl_rate rl" and later: "now \<le> now'"
  shows "bucket_level now' k (sweep_stale now rl) = bucket_level now' k rl"
proof (cases "rl_buckets rl k")
  case None
  then show ?thesis by (simp add: bucket_level_def sweep_stale_def)
next
  case (Some b)
  have pos: "0 \<le> rl_rate rl" "0 \<le> bk_tokens b" using ok Some by (auto simp: limiter_ok_def)
  show ?thesis
  proof (cases "now - rl_sweep rl > minute_ns \<and> now - bk_last b > 2 * minute_ns")
    case True
    have "(120::rat) \<le> seconds (now' - bk_last b)"
    proof -
      have "120 * 1000000000 \<le> now' - bk_last b" using True later by simp
      then have "(of_int (120 * 1000000000) :: rat) \<le> of_int (now' - bk_last b)"
        by (simp only: of_int_le_iff)
      then show ?thesis by (simp add: seconds_def)
    qed
    then have "120 * rl_rate rl \<le> seconds (now' - bk_last b) * rl_rate rl"
      using pos mult_right_mono by blast
    with fills pos have "level_after (rl_rate rl) (rl_burst rl) (now' - bk_last b) (bk_tokens b) = rl_burst rl"
      by (simp add: level_after_def del: seconds_simps)
    with True Some show ?thesis by (simp add: bucket_level_def sweep_stale_def)
  next
    case False
    with Some show ?thesis by (auto simp: bucket_level_def sweep_stale_def)
  qed
qed

section \<open>The limiter against its specification\<close>

definition drain :: "rat \<Rightarrow> rat" where
  "drain t = (if 1 \<le> t then t - 1 else t)"

lemma allow_frame [simp]:
  "rl_rate (snd (allow now ip rl)) = rl_rate rl" "rl_burst (snd (allow now ip rl)) = rl_burst rl"
  by (simp_all add: allow_def Let_def)

lemma drain_bounds: "0 \<le> t \<Longrightarrow> t \<le> b \<Longrightarrow> 0 \<le> drain t \<and> drain t \<le> b"
  by (simp add: drain_def)

definition read_bucket :: "instant \<Rightarrow> string \<Rightarrow> rate_limiter \<Rightarrow> bucket" where
  "read_bucket now ip rl =
     (case rl_buckets (sweep_stale now rl) ip of
        None \<Rightarrow> \<lparr>bk_tokens = rl_burst rl, bk_last = now\<rparr> | Some b \<Rightarrow> b)"

lemma allow_read:
  fixes now :: instant and ip :: string and rl :: rate_limiter
  defines "t \<equiv> refill (rl_rate rl) (rl_burst rl) now (read_bucket now ip rl)"
  shows "allow now ip rl = (1 \<le> t, (sweep_stale now rl)\<lparr>rl_buckets :=
      (rl_buckets (sweep_stale now rl))(ip \<mapsto> \<lparr>bk_tokens = drain t, bk_last = now\<rparr>)\<rparr>)"
  unfolding allow_def Let_def drain_def t_def sweep_frame read_bucket_def by (simp add: not_less)

lemma allow_ok:
  assumes "limiter_ok rl" "past now rl"
  shows "limiter_ok (snd (allow now ip rl))" "past now (snd (allow now ip rl))"
proof -
  let ?b = "read_bucket now ip rl"
  have b: "0 \<le> bk_tokens ?b" "bk_tokens ?b \<le> rl_burst rl" "bk_last ?b \<le> now"
    using assms by (auto simp: read_bucket_def limiter_ok_def past_def split: option.split dest!: sweep_subset)
  have "0 \<le> refill (rl_rate rl) (rl_burst rl) now ?b"
    using level_after_mono(1) [of "rl_rate rl" "now - bk_last ?b" "bk_tokens ?b" "rl_burst rl"] assms(1) b
    by (simp add: refill_level limiter_ok_def)
  moreover have "refill (rl_rate rl) (rl_burst rl) now ?b \<le> rl_burst rl"
    by (simp add: refill_level level_after_def)
  ultimately show "limiter_ok (snd (allow now ip rl))"
    using drain_bounds sweep_ok [OF assms(1), of now] by (auto simp: allow_read limiter_ok_def)
  show "past now (snd (allow now ip rl))"
    using sweep_past [OF assms(2)] by (auto simp: allow_read past_def)
qed

text \<open>The bucket \<open>allow\<close> reads holds the level.\<close>

lemma read_level:
  assumes "limiter_ok rl" "rl_burst rl \<le> 120 * rl_rate rl"
  shows "refill (rl_rate rl) (rl_burst rl) now (read_bucket now ip rl) = bucket_level now ip rl"
  using sweep_level [OF assms, of now now ip]
  by (simp add: read_bucket_def refill_level bucket_level_def split: option.splits)

lemma allow_unfold:
  assumes "limiter_ok rl" "rl_burst rl \<le> 120 * rl_rate rl"
  shows "allow now ip rl = (1 \<le> bucket_level now ip rl, (sweep_stale now rl)\<lparr>rl_buckets :=
      (rl_buckets (sweep_stale now rl))
        (ip \<mapsto> \<lparr>bk_tokens = drain (bucket_level now ip rl), bk_last = now\<rparr>)\<rparr>)"
  by (simp add: allow_read read_level [OF assms])

lemma allow_level:
  assumes "limiter_ok rl" "rl_burst rl \<le> 120 * rl_rate rl" "now \<le> now'"
  shows "bucket_level now' k (snd (allow now ip rl))
    = (if k = ip then level_after (rl_rate rl) (rl_burst rl) (now' - now) (drain (bucket_level now ip rl))
       else bucket_level now' k rl)"
  using sweep_level [OF assms, of k]
  by (auto simp: allow_unfold [OF assms(1,2)] bucket_level_def split: option.split)

text \<open>The answers a client gets in a run.\<close>

definition answers_to :: "string \<Rightarrow> (instant \<times> string) list \<Rightarrow> rate_limiter \<Rightarrow> bool list" where
  "answers_to ip es rl = map snd (filter (\<lambda>(e, ok). snd e = ip) (zip es (fst (allow_run es rl))))"

lemma answers_to_simps [simp]:
  "answers_to ip [] rl = []"
  "answers_to ip ((t, k) # es) rl =
     (if k = ip then [fst (allow t k rl)] else []) @ answers_to ip es (snd (allow t k rl))"
  by (simp_all add: answers_to_def split_beta)

text \<open>The simulation: at any time from now on, the client's bucket has the level the specification
  computes from its own last request.\<close>

lemma answers_to_spec:
  assumes "limiter_ok rl" "rl_burst rl \<le> 120 * rl_rate rl" "past now rl" "sorted (now # map fst es)"
    and "\<And>now'. now \<le> now' \<Longrightarrow> bucket_level now' ip rl = level_after (rl_rate rl) (rl_burst rl) (now' - t0) t"
  shows "answers_to ip es rl
    = spec_answers (rl_rate rl) (rl_burst rl) t t0 (map fst (filter (\<lambda>e. snd e = ip) es))"
  using assms
proof (induction es arbitrary: rl now t t0)
  case Nil
  then show ?case by simp
next
  case (Cons e es)
  obtain t1 k where e: "e = (t1, k)" by (cases e)
  have le: "now \<le> t1" using Cons.prems(4) e by simp
  have past: "past t1 rl" by (rule past_mono [OF Cons.prems(3) le])
  let ?rl = "snd (allow t1 k rl)"
  note step = allow_ok [OF Cons.prems(1) past, of k] and level = allow_level [OF Cons.prems(1,2)]
  have IH: "answers_to ip es ?rl = spec_answers (rl_rate rl) (rl_burst rl) t' t0'
      (map fst (filter (\<lambda>e. snd e = ip) es))"
    if "\<And>now'. t1 \<le> now' \<Longrightarrow> bucket_level now' ip ?rl
      = level_after (rl_rate rl) (rl_burst rl) (now' - t0') t'" for t' t0'
    using Cons.IH [OF step(1) _ step(2), where t = t' and ?t0.0 = t0'] Cons.prems(2,4) that e by simp
  show ?case
  proof (cases "k = ip")
    case True
    have "answers_to ip es ?rl = spec_answers (rl_rate rl) (rl_burst rl) (drain (bucket_level t1 ip rl)) t1
        (map fst (filter (\<lambda>e. snd e = ip) es))"
      by (rule IH) (simp add: level True)
    with True e Cons.prems(5) [OF le] show ?thesis
      by (simp add: allow_unfold [OF Cons.prems(1,2)] Let_def drain_def)
  next
    case False
    then have "answers_to ip es ?rl = spec_answers (rl_rate rl) (rl_burst rl) t t0
        (map fst (filter (\<lambda>e. snd e = ip) es))"
      using Cons.prems(5) le by (intro IH) (simp add: level)
    with False e show ?thesis by simp
  qed
qed

lemma new_limiter_ok:
  assumes "0 \<le> rate" "0 \<le> burst"
  shows "limiter_ok (new_rate_limiter now rate burst)" "past now (new_rate_limiter now rate burst)"
    "bucket_level now' ip (new_rate_limiter now rate burst) = of_int burst"
    "rl_rate (new_rate_limiter now rate burst) = rate" "rl_burst (new_rate_limiter now rate burst) = of_int burst"
  using assms by (simp_all add: new_rate_limiter_def limiter_ok_def past_def bucket_level_def)

text \<open>C7. The limiter refines one bucket per client that is never dropped: for capacities that fill up
  within two minutes, the answers a client gets in any run of requests are those of its own bucket,
  which starts full, gains the rate and loses a token per admitted request; neither the requests of
  other clients nor the sweeping show in them.\<close>

theorem rate_limiter_refines_bucket:
  assumes "0 \<le> rate" "0 \<le> burst" "of_int burst \<le> 120 * rate" "sorted (start # map fst es)"
  shows "answers_to ip es (new_rate_limiter start rate burst)
    = spec_answers rate (of_int burst) (of_int burst) start (map fst (filter (\<lambda>e. snd e = ip) es))"
  using answers_to_spec [OF new_limiter_ok(1) _ new_limiter_ok(2), where t = "of_int burst" and ?t0.0 = start] assms
  by (simp add: new_limiter_ok)

section \<open>What the specification bounds\<close>

definition admissions :: "bool list \<Rightarrow> rat" where
  "admissions oks = of_nat (length (filter id oks))"

lemma admissions_simps [simp]:
  "admissions [] = 0" "admissions (b # bs) = (if b then 1 else 0) + admissions bs"
  by (simp_all add: admissions_def)

lemma spec_answers_Cons: "spec_answers rate burst t t0 (now # ts) =
    (let t' = level_after rate burst (now - t0) t in (1 \<le> t') # spec_answers rate burst (drain t') now ts)"
  by (simp add: drain_def Let_def)

declare spec_answers.simps(2) [simp del]

lemma spec_bound:
  assumes "0 \<le> rate" "0 \<le> t" "t \<le> burst" "sorted (t0 # ts)" "list_all (\<lambda>x. x \<le> b) (t0 # ts)"
  shows "admissions (spec_answers rate burst t t0 ts) \<le> t + seconds (b - t0) * rate"
  using assms
proof (induction ts arbitrary: t t0)
  case Nil
  then show ?case by simp
next
  case (Cons now ts)
  let ?t = "level_after rate burst (now - t0) t"
  have t: "t \<le> ?t" "?t \<le> burst" "?t \<le> t + seconds (now - t0) * rate"
    using level_after_mono [of rate "now - t0" t burst] Cons.prems by simp_all
  have "admissions (spec_answers rate burst (drain ?t) now ts) \<le> drain ?t + seconds (b - now) * rate"
    using Cons.prems t drain_bounds [of ?t burst] by (intro Cons.IH) auto
  with t show ?case by (auto simp: spec_answers_Cons Let_def drain_def seconds_diff algebra_simps split: if_splits)
qed

lemma level_later:
  assumes "limiter_ok rl" "now \<le> now'"
  shows "bucket_level now' ip rl
    = level_after (rl_rate rl) (rl_burst rl) (now' - now) (bucket_level now ip rl)"
  using assms level_after_twice [of "rl_rate rl" "now' - now" "rl_burst rl"]
  by (auto simp: bucket_level_def limiter_ok_def split: option.split)

lemma run_ok:
  assumes "limiter_ok rl" "past now rl" "sorted (now # map fst es)"
    "list_all (\<lambda>e. fst e \<le> b) es" "now \<le> b"
  shows "limiter_ok (snd (allow_run es rl))" "past b (snd (allow_run es rl))"
    "rl_rate (snd (allow_run es rl)) = rl_rate rl" "rl_burst (snd (allow_run es rl)) = rl_burst rl"
proof -
  have "limiter_ok (snd (allow_run es rl)) \<and> past b (snd (allow_run es rl))
      \<and> rl_rate (snd (allow_run es rl)) = rl_rate rl \<and> rl_burst (snd (allow_run es rl)) = rl_burst rl"
    using assms
  proof (induction es arbitrary: rl now)
    case Nil
    then show ?case using past_mono by auto
  next
    case (Cons e es)
    obtain t k where e: "e = (t, k)" by (cases e)
    have past: "past t rl" using Cons.prems e past_mono by simp
    show ?case
      using Cons.IH [OF allow_ok(1) [OF Cons.prems(1) past, of k] allow_ok(2) [OF Cons.prems(1) past, of k]]
        Cons.prems e by (simp add: split_beta)
  qed
  then show "limiter_ok (snd (allow_run es rl))" "past b (snd (allow_run es rl))"
    "rl_rate (snd (allow_run es rl)) = rl_rate rl" "rl_burst (snd (allow_run es rl)) = rl_burst rl"
    by blast+
qed


lemma run_last:
  "rl_buckets (snd (allow_run es rl)) ip = Some b \<Longrightarrow>
   rl_buckets rl ip = Some b \<or> (bk_last b, ip) \<in> set es"
proof (induction es arbitrary: rl)
  case Nil
  then show ?case by simp
next
  case (Cons e es)
  obtain t k where e: "e = (t, k)" by (cases e)
  have "rl_buckets (snd (allow t k rl)) ip = Some b \<Longrightarrow> rl_buckets rl ip = Some b \<or> (bk_last b, ip) = (t, k)"
    by (auto simp: allow_read dest: sweep_subset split: if_splits)
  then show ?case using Cons.IH [of "snd (allow t k rl)"] Cons.prems e by (auto simp: split_beta)
qed

text \<open>A client that has waited for one token since its last request is let through, whatever the
  other clients did and however its earlier requests were answered.\<close>

theorem patient_client_admitted:
  assumes "0 \<le> rate" "1 \<le> burst" "sorted (start # map fst before @ [now])"
    and "list_all (\<lambda>e. snd e = ip \<longrightarrow> 1 \<le> seconds (now - fst e) * rate) before"
  shows "fst (allow now ip (snd (allow_run before (new_rate_limiter start rate burst))))"
proof -
  define rl where "rl = snd (allow_run before (new_rate_limiter start rate burst))"
  have "start \<le> now" "sorted (start # map fst before)" "list_all (\<lambda>e. fst e \<le> now) before"
    using assms(3) by (auto simp: sorted_append list_all_iff)
  then have ok: "limiter_ok rl" "past now rl" "rl_rate rl = rate" "rl_burst rl = of_int burst"
    using run_ok [OF new_limiter_ok(1) new_limiter_ok(2), of rate burst start before now] assms(1,2)
    by (simp_all add: rl_def new_limiter_ok)
  let ?b = "read_bucket now ip rl"
  have "1 \<le> level_after rate (of_int burst) (now - bk_last ?b) (bk_tokens ?b)"
  proof (cases "rl_buckets (sweep_stale now rl) ip")
    case None
    with assms(1,2) ok show ?thesis by (simp add: read_bucket_def)
  next
    case (Some b)
    then have b: "rl_buckets rl ip = Some b" by (rule sweep_subset)
    then have "(bk_last b, ip) \<in> set before"
      using run_last [of before "new_rate_limiter start rate burst" ip b]
      by (simp add: rl_def new_rate_limiter_def)
    then have "1 \<le> seconds (now - bk_last b) * rate" using assms(4) by (auto simp: list_all_iff)
    moreover have "0 \<le> bk_tokens b" using ok(1) b by (auto simp: limiter_ok_def)
    ultimately show ?thesis using assms(2) Some
      by (simp add: read_bucket_def level_after_def del: seconds_simps)
  qed
  then show ?thesis using ok by (simp add: allow_read refill_level flip: rl_def)
qed

section \<open>Concrete runs\<close>

lemma rate_limiter_refines_bucket_witness:
  "answers_to ''a'' [(0, ''a''), (0, ''b''), (0, ''a'')] (new_rate_limiter 0 5 1)
     = spec_answers 5 1 1 0 [0, 0]
   \<and> spec_answers 5 1 1 0 [0, 0] = [True, False]"
  using rate_limiter_refines_bucket [of 5 1 0 "[(0, ''a''), (0, ''b''), (0, ''a'')]" "''a''"]
  by (simp add: spec_answers.simps(2))


lemma patient_client_admitted_witness:
  "fst (allow 1000000000 ''a'' (snd (allow_run [(0, ''a''), (1, ''b'')] (new_rate_limiter 0 5 10))))"
  using patient_client_admitted [of 5 10 0 "[(0, ''a''), (1, ''b'')]" 1000000000 "''a''"]
  by (simp add: seconds_def)

end
