(* ===== verification/Middleware.thy ===== *)
theory Middleware
  imports RateLimit PublicApi
begin

text \<open>
  The middleware of the HTTP servers, \<open>server/middleware\<close>, and the order in which \<open>server/server.go\<close>
  puts it before the routes of the published sites: request id, log line, CORS, the limiter of
  theory \<open>RateLimit\<close>, security headers. A handler is a function of the request and the state it
  works on; headers it sets stand before those of the response, and of two settings of one header
  the later counts.
\<close>

type_synonym 's handler = "conn_request \<Rightarrow> 's \<Rightarrow> outcome \<times> 's"

definition header :: "string \<Rightarrow> response \<Rightarrow> string option" where
  "header name rsp = map_of (rev (rp_headers rsp)) name"

definition with_headers :: "(string \<times> string) list \<Rightarrow> 's handler \<Rightarrow> 's handler" where
  "with_headers hs next r st = (let (out, st') = next r st in (add_headers hs out, st'))"

section \<open>Cross-origin headers\<close>

definition allow_all :: "string list \<Rightarrow> bool" where
  "allow_all origins = (origins = [] \<or> ''*'' \<in> set origins)"

definition origin_headers :: "string list \<Rightarrow> string \<Rightarrow> (string \<times> string) list" where
  "origin_headers origins origin =
     (if allow_all origins then [(''Access-Control-Allow-Origin'', ''*'')]
      else if origin \<noteq> [] \<and> origin \<in> set origins then
        [(''Access-Control-Allow-Origin'', origin), (''Access-Control-Allow-Credentials'', ''true''),
         (''Vary'', ''Origin'')]
      else [])"

definition preflight_headers :: "(string \<times> string) list" where
  "preflight_headers =
     [(''Access-Control-Allow-Methods'', ''GET, POST, PUT, DELETE, OPTIONS, PATCH''),
      (''Access-Control-Allow-Headers'', ''Accept, Authorization, Content-Type, X-Request-ID''),
      (''Access-Control-Max-Age'', ''86400'')]"

definition cors :: "string list \<Rightarrow> 's handler \<Rightarrow> 's handler" where
  "cors origins next r st =
     (let hs = origin_headers origins (rq_origin r) @ preflight_headers
      in if rq_method r = ''OPTIONS'' then
           (Answered \<lparr>rp_status = 204, rp_headers = hs, rp_body = EmptyBody\<rparr>, st)
         else with_headers hs next r st)"

section \<open>The other middleware\<close>

text \<open>\<open>http.Error\<close> writes plain text.\<close>

definition limited_response :: response where
  "limited_response =
     \<lparr>rp_status = 429,
      rp_headers = [(''Content-Type'', ''text/plain; charset=utf-8''), (''X-Content-Type-Options'', ''nosniff'')],
      rp_body = ErrorBody ''rate limit exceeded''\<rparr>"

definition rate_limit :: "instant \<Rightarrow> 's handler \<Rightarrow> (rate_limiter \<times> 's) handler" where
  "rate_limit now next r st =
     (let (rl, s) = st; (ok, rl') = allow now (client_ip r) rl
      in if ok then (let (out, s') = next r s in (out, (rl', s')))
         else (Answered limited_response, (rl', s)))"

definition security_header_list :: "conn_request \<Rightarrow> (string \<times> string) list" where
  "security_header_list r =
     [(''X-Content-Type-Options'', ''nosniff''), (''X-Frame-Options'', ''SAMEORIGIN''),
      (''Referrer-Policy'', ''strict-origin-when-cross-origin''),
      (''Permissions-Policy'', ''camera=(self), microphone=(self), geolocation=()'')]
     @ (if rq_tls r then
          [(''Strict-Transport-Security'', ''max-age=63072000; includeSubDomains'')] else [])"

definition security_headers :: "'s handler \<Rightarrow> 's handler" where
  "security_headers next r st = with_headers (security_header_list r) next r st"

text \<open>The id a request carries, or a fresh one; \<open>uuid\<close> is what \<open>uuid.New\<close> returns.\<close>

definition request_id :: "string \<Rightarrow> 's handler \<Rightarrow> 's handler" where
  "request_id uuid next r st =
     (let i = (if rq_request_id r = [] then uuid else rq_request_id r)
      in with_headers [(''X-Request-ID'', i)] next (r\<lparr>rq_request_id := i\<rparr>) st)"

text \<open>The level of the line \<open>Logging\<close> writes about a response.\<close>

datatype log_level = LogDebug | LogWarn | LogError

definition access_level :: "response \<Rightarrow> log_level" where
  "access_level rsp =
     (if rp_status rsp \<ge> 500 then LogError else if rp_status rsp \<ge> 400 then LogWarn else LogDebug)"

definition logging :: "'s handler \<Rightarrow> (log_level list \<times> 's) handler" where
  "logging next r st =
     (let (out, s) = next r (snd st)
      in (out, ((case out of Answered rsp \<Rightarrow> fst st @ [access_level rsp] | Panicked \<Rightarrow> fst st), s)))"

section \<open>The public server\<close>

definition public_chain ::
  "instant \<Rightarrow> string \<Rightarrow> 's handler \<Rightarrow> (log_level list \<times> rate_limiter \<times> 's) handler" where
  "public_chain now uuid routes =
     request_id uuid (logging (cors [''*''] (rate_limit now (security_headers routes))))"

text \<open>The handler of one endpoint as a route.\<close>

definition endpoint_route :: "pub_env \<Rightarrow> string \<Rightarrow> api_endpoint \<Rightarrow> site_state handler" where
  "endpoint_route en row_id ep r st = endpoint_request en st (request.truncate r) row_id ep"

section \<open>The endpoint's own cross-origin headers\<close>

text \<open>The headers the CRUD handlers set themselves.\<close>

definition json_headers :: "response \<Rightarrow> bool" where
  "json_headers rsp = (set (map fst (rp_headers rsp)) \<subseteq> {''Content-Type'', ''X-Cache''})"

lemma json_headers_answer [simp]: "json_headers (answer code b)"
  by (simp add: json_headers_def answer_def)

lemma json_headers_read [simp]: "json_headers (fst (cached_read en st rq row_id ep rc))"
proof -
  have "json_headers (read_request en st rq row_id ep rc)"
    by (simp add: read_request_def api_list_def api_get_one_def Let_def split: sum.split sql_error.split list.split)
  moreover have "json_headers (with_header ''X-Cache'' v (answer code b))" for v code b
    by (simp add: json_headers_def with_header_def answer_def)
  ultimately show ?thesis by (simp add: cached_read_def Let_def split: option.split)
qed

lemma json_headers_fold:
  "fold (secure_step en) cs acc = Inl rsp \<Longrightarrow> \<forall>y. acc = Inl y \<longrightarrow> json_headers y \<Longrightarrow> json_headers rsp"
proof (induction cs arbitrary: acc)
  case (Cons ck cs)
  have "\<forall>y. secure_step en ck acc = Inl y \<longrightarrow> json_headers y"
    using Cons.prems(2) by (auto simp: secure_step_def split: sum.splits option.splits)
  with Cons show ?case by simp
qed simp

lemma json_headers_secure: "process_secure en ep m = Inl rsp \<Longrightarrow> json_headers rsp"
  by (auto simp: process_secure_def intro: json_headers_fold)

lemma json_headers_back [simp]: "json_headers (read_back en st tab ep c code dflt)"
  by (simp add: read_back_def split: sum.split list.split)

lemma json_headers_insert:
  assumes "fst (api_insert en st rq tab ep rc) = Answered rsp"
  shows "json_headers rsp"
proof -
  have "json_headers (fst (insert_row en st tab ep m))" for m
    by (auto simp: insert_row_def Let_def split: option.split sum.split prod.split)
  with assms show ?thesis
    by (auto simp: api_insert_def Let_def split_beta dest: json_headers_secure split: if_splits sum.splits)
qed

lemma json_headers_update [simp]: "json_headers (fst (api_update en st rq tab row_id ep rc))"
proof -
  have "json_headers (fst (update_row en st tab row_id ep rc m))" for m
    by (auto simp: update_row_def Let_def split: option.split sum.split prod.split)
  then show ?thesis
    by (auto simp: api_update_def Let_def dest: json_headers_secure split: sum.split)
qed

lemma json_headers_delete [simp]: "json_headers (fst (api_delete en st tab row_id ep rc))"
  by (auto simp: api_delete_def split: sum.split prod.split)

lemma json_headers_crud:
  "fst (crud en st rq row_id ep rc) = Answered rsp \<Longrightarrow> json_headers rsp"
  using json_headers_insert [of en st rq "ep_table ep" ep rc rsp]
    json_headers_read [of en st rq row_id ep rc] json_headers_update [of en st rq "ep_table ep" row_id ep rc]
    json_headers_delete [of en st "ep_table ep" row_id ep rc]
  by (auto simp: crud_def split_beta Let_def split: if_splits prod.splits outcome.splits)

lemma json_headers_auth: "authenticate en rq ep = Inl rsp \<Longrightarrow> json_headers rsp"
  by (auto simp: authenticate_def split: if_splits option.splits)

lemma header_prefix:
  "header name (rsp\<lparr>rp_headers := hs @ rp_headers rsp\<rparr>)
     = (case header name rsp of Some v \<Rightarrow> Some v | None \<Rightarrow> map_of (rev hs) name)"
  by (simp add: header_def map_add_def)

lemma header_json: "json_headers rsp \<Longrightarrow> name \<notin> {''Content-Type'', ''X-Cache''} \<Longrightarrow> header name rsp = None"
  unfolding header_def json_headers_def map_of_eq_None_iff set_rev set_map by blast

text \<open>What an endpoint sets of the origin header.\<close>

lemma cors_headers_origin:
  "map_of (rev (cors_headers rq ep)) ''Access-Control-Allow-Origin'' \<in> {None, Some ''*'', Some (rq_origin rq)}"
  by (simp add: cors_headers_def)

lemma endpoint_origin_header:
  assumes "fst (endpoint_request en st rq row_id ep) = Answered rsp"
  shows "header ''Access-Control-Allow-Origin'' rsp \<in> {None, Some ''*'', Some (rq_origin rq)}"
proof -
  have add: "header ''Access-Control-Allow-Origin'' rsp \<in> {None, Some ''*'', Some (rq_origin rq)}"
    if "add_headers (cors_headers rq ep) (Answered y) = Answered rsp" "json_headers y" for y
    using that header_json [of y "''Access-Control-Allow-Origin''"] cors_headers_origin [of rq ep]
    by (auto simp: header_prefix)
  consider "ep_cors_origins ep \<noteq> [] \<and> rq_method rq = ''OPTIONS''"
    | y where "add_headers (cors_headers rq ep) (Answered y) = Answered rsp" "json_headers y"
    | ca where "add_headers (cors_headers rq ep) (fst (crud en st rq row_id ep (request_ctx ep ca))) = Answered rsp"
    using assms json_headers_auth [of en rq ep]
    by (auto simp: endpoint_request_def split: if_splits sum.splits)
  then show ?thesis
  proof cases
    case 1
    with assms show ?thesis
      using cors_headers_origin [of rq ep] by (auto simp: endpoint_request_def header_def)
  next
    case 2
    with add show ?thesis by blast
  next
    case (3 ca)
    then show ?thesis
      using add json_headers_crud [of en st rq row_id ep "request_ctx ep ca"]
      by (cases "fst (crud en st rq row_id ep (request_ctx ep ca))") auto
  qed
qed

lemma add_headers_Answered:
  "add_headers hs out = Answered rsp \<longleftrightarrow>
     (\<exists>y. out = Answered y \<and> rsp = y\<lparr>rp_headers := hs @ rp_headers y\<rparr>)"
  by (cases out) auto

lemma client_ip_request_id [simp]: "client_ip (r\<lparr>rq_request_id := i\<rparr>) = client_ip r"
  by (simp add: client_ip_def remote_host_def Let_def split: option.split)

lemma origin_wildcard:
  "map_of (rev ((''X-Request-ID'', i) # origin_headers [''*''] o1 @ preflight_headers))
     ''Access-Control-Allow-Origin'' = Some ''*''"
  by (simp add: origin_headers_def allow_all_def preflight_headers_def)

text \<open>Every answer of the chain is one from behind the CORS middleware with the wildcard before it.\<close>

lemma chain_answer:
  assumes "fst (public_chain now uuid routes r (ls, rl, s)) = Answered rsp"
  obtains hs y where "rsp = y\<lparr>rp_headers := hs @ rp_headers y\<rparr>"
    "map_of (rev hs) ''Access-Control-Allow-Origin'' = Some ''*''"
    "rp_headers y = [] \<or> y = limited_response
     \<or> (\<exists>i st. fst (security_headers routes (r\<lparr>rq_request_id := i\<rparr>) st) = Answered y)"
proof -
  let ?r = "r\<lparr>rq_request_id := if rq_request_id r = [] then uuid else rq_request_id r\<rparr>"
  let ?hs = "(''X-Request-ID'', if rq_request_id r = [] then uuid else rq_request_id r)
      # origin_headers [''*''] (rq_origin r) @ preflight_headers"
  note unfold = public_chain_def request_id_def with_headers_def logging_def cors_def rate_limit_def
    split_beta Let_def add_headers_Answered
  show thesis
  proof (cases "rq_method r = ''OPTIONS''")
    case True
    with assms have "rsp = \<lparr>rp_status = 204, rp_headers = ?hs, rp_body = EmptyBody\<rparr>"
      by (auto simp: unfold simp del: map_of.simps)
    then have "rsp = (rsp\<lparr>rp_headers := []\<rparr>)\<lparr>rp_headers := ?hs @ rp_headers (rsp\<lparr>rp_headers := []\<rparr>)\<rparr>" by simp
    from that [OF this origin_wildcard] show thesis by simp
  next
    case False
    with assms obtain y where
      "rsp = y\<lparr>rp_headers := ?hs @ rp_headers y\<rparr>" "fst (rate_limit now (security_headers routes) ?r (rl, s)) = Answered y"
      by (auto simp: unfold simp del: map_of.simps)
    moreover from this(2) have "y = limited_response \<or> fst (security_headers routes ?r s) = Answered y"
      by (auto simp: rate_limit_def split_beta Let_def split: if_splits)
    ultimately show thesis using that origin_wildcard by blast
  qed
qed

text \<open>The origins an endpoint is restricted to do not restrict anything: because the public server
  puts the wildcard CORS middleware before every route, each answer to a request for the endpoint,
  the refusals included, allows the origin of the request.\<close>

theorem endpoint_origins_ineffective:
  assumes "fst (public_chain now uuid (endpoint_route en row_id ep) r (ls, rl, st)) = Answered rsp"
  shows "header ''Access-Control-Allow-Origin'' rsp \<in> {Some ''*'', Some (rq_origin r)}"
proof -
  let ?name = "''Access-Control-Allow-Origin''"
  obtain hs y where y: "rsp = y\<lparr>rp_headers := hs @ rp_headers y\<rparr>" "map_of (rev hs) ?name = Some ''*''"
    "rp_headers y = [] \<or> y = limited_response
     \<or> (\<exists>i st. fst (security_headers (endpoint_route en row_id ep) (r\<lparr>rq_request_id := i\<rparr>) st) = Answered y)"
    using chain_answer [OF assms] by blast
  have none: "map_of (rev (security_header_list r')) ?name = None" for r'
    by (simp add: security_header_list_def)
  have "header ?name y \<in> {None, Some ''*'', Some (rq_origin r)}"
    if "fst (security_headers (endpoint_route en row_id ep) (r\<lparr>rq_request_id := i\<rparr>) st') = Answered y" for i st'
  proof -
    from that obtain z where z: "fst (endpoint_request en st' (request.truncate (r\<lparr>rq_request_id := i\<rparr>)) row_id ep) = Answered z"
      "header ?name y = header ?name z"
      by (auto simp: security_headers_def with_headers_def split_beta Let_def add_headers_Answered
          endpoint_route_def header_prefix none split: option.splits)
    from endpoint_origin_header [OF z(1)] z(2) show ?thesis by (simp add: request.truncate_def)
  qed
  then have "header ?name y \<in> {None, Some ''*'', Some (rq_origin r)}"
    using y(3) by (auto simp: header_def limited_response_def)
  then show ?thesis using y(1,2) by (auto simp: header_prefix)
qed

text \<open>The limiter stands before the handlers: a request over the limit is answered 429 and leaves
  the state of the site as it was, whatever the route; a preflight request is answered without
  asking the limiter.\<close>

theorem limited_request_changes_nothing:
  assumes "rq_method r \<noteq> ''OPTIONS''" "\<not> fst (allow now (client_ip r) rl)"
  shows "\<exists>rsp ls' rl'. public_chain now uuid routes r (ls, rl, s) = (Answered rsp, ls', rl', s) \<and> rp_status rsp = 429"
  using assms
  by (auto simp: public_chain_def request_id_def with_headers_def logging_def cors_def rate_limit_def
      split_beta Let_def limited_response_def)

section \<open>Concrete requests\<close>

definition foreign_request :: conn_request where
  "foreign_request =
     request.extend ((demo_get ''/api/m'' 2)\<lparr>rq_origin := ''https://other.example''\<rparr>)
       (conn_request.fields ''9.9.9.9:1'' [] [] [])"

definition restricted_ep :: api_endpoint where
  "restricted_ep = demo_ep\<lparr>ep_cors_origins := ''https://shop.example''\<rparr>"

lemma foreign_answer:
  "(case fst (public_chain 0 ''id'' (endpoint_route demo_env [] restricted_ep) foreign_request
       ([], new_rate_limiter 0 5 10, demo_api_site)) of
      Answered rsp \<Rightarrow> rp_status rsp = 200 | Panicked \<Rightarrow> False)"
  by code_simp

lemma endpoint_origins_ineffective_witness:
  "\<exists>rsp. fst (public_chain 0 ''id'' (endpoint_route demo_env [] restricted_ep) foreign_request
       ([], new_rate_limiter 0 5 10, demo_api_site)) = Answered rsp \<and> rp_status rsp = 200
     \<and> header ''Access-Control-Allow-Origin'' rsp \<in> {Some ''*'', Some ''https://other.example''}"
proof -
  obtain rsp where rsp: "fst (public_chain 0 ''id'' (endpoint_route demo_env [] restricted_ep) foreign_request
       ([], new_rate_limiter 0 5 10, demo_api_site)) = Answered rsp" "rp_status rsp = 200"
    using foreign_answer by (auto split: outcome.splits)
  have "rq_origin foreign_request = ''https://other.example''"
    by (simp add: foreign_request_def request.defs conn_request.defs)
  with endpoint_origins_ineffective [OF rsp(1)] rsp show ?thesis by auto
qed

lemma limited_request_changes_nothing_witness:
  "\<exists>rsp ls' rl'. public_chain 0 ''id'' (endpoint_route demo_env [] restricted_ep) foreign_request
       ([], snd (allow 0 ''9.9.9.9'' (new_rate_limiter 0 5 1)), demo_api_site)
     = (Answered rsp, ls', rl', demo_api_site) \<and> rp_status rsp = 429"
  by (rule limited_request_changes_nothing)
    (code_simp, code_simp)

end
