(* ===== verification/Manager.thy ===== *)
theory Manager
  imports SiteDb
begin

text \<open>
  The manager of the brains, \<open>brain/manager.go\<close>: the map from sites to worker handles and the
  goroutines it starts, each with the context that cancels it. A goroutine may return by itself;
  the operations of the manager take its lock, so they are atomic. What a worker does is theory
  \<open>Pipeline\<close>; here it has a state that others may ask for.
\<close>

section \<open>Goroutines and handles\<close>

datatype worker_kind = PipelineKind | JobKind

record goroutine =
  gr_site :: int
  gr_kind :: worker_kind
  gr_cancelled :: bool
  gr_returned :: bool

record handle =
  hd_worker :: nat
  hd_job :: "nat option"

record manager =
  mg_workers :: "(int, handle) gomap"
  mg_go :: "goroutine list"

definition new_brain_manager :: manager where
  "new_brain_manager = \<lparr>mg_workers = [], mg_go = []\<rparr>"

definition go_start :: "int \<Rightarrow> worker_kind \<Rightarrow> goroutine" where
  "go_start site k = \<lparr>gr_site = site, gr_kind = k, gr_cancelled = False, gr_returned = False\<rparr>"

text \<open>\<open>StartSite\<close>: \<open>create\<close> is the error of \<open>NewPipelineWorker\<close>, if any, and \<open>opened\<close> whether the site
  database opens for the job worker.\<close>

definition start_site :: "string option \<Rightarrow> bool \<Rightarrow> int \<Rightarrow> manager \<Rightarrow> string option \<times> manager" where
  "start_site create opened site m =
     (if map_of (mg_workers m) site \<noteq> None then (None, m)
      else case create of
          Some e \<Rightarrow> (Some (''brain: failed to create pipeline worker for site '' @ itoa site @ '': '' @ e), m)
        | None \<Rightarrow>
           (let w = length (mg_go m); j = (if opened then Some (w + 1) else None)
            in (None, m\<lparr>mg_workers := alist_put site \<lparr>hd_worker = w, hd_job = j\<rparr> (mg_workers m),
                         mg_go := mg_go m @ go_start site PipelineKind # (if opened then [go_start site JobKind] else [])\<rparr>)))"

definition cancel_go :: "nat \<Rightarrow> goroutine list \<Rightarrow> goroutine list" where
  "cancel_go i gs = (if i < length gs then gs[i := (gs ! i)\<lparr>gr_cancelled := True\<rparr>] else gs)"

definition cancel_handle :: "handle \<Rightarrow> goroutine list \<Rightarrow> goroutine list" where
  "cancel_handle h gs =
     (let gs = cancel_go (hd_worker h) gs in case hd_job h of Some j \<Rightarrow> cancel_go j gs | None \<Rightarrow> gs)"

definition not_running :: "int \<Rightarrow> string" where
  "not_running site = ''brain: no worker running for site '' @ itoa site"

definition stop_site :: "int \<Rightarrow> manager \<Rightarrow> string option \<times> manager" where
  "stop_site site m =
     (case map_of (mg_workers m) site of
        None \<Rightarrow> (Some (not_running site), m)
      | Some h \<Rightarrow> (None, m\<lparr>mg_workers := alist_del site (mg_workers m), mg_go := cancel_handle h (mg_go m)\<rparr>))"

text \<open>\<open>StopAll\<close>, without the wait for the goroutines, which is bounded by 30 seconds.\<close>

definition stop_all :: "manager \<Rightarrow> manager" where
  "stop_all m = m\<lparr>mg_workers := [], mg_go := fold (\<lambda>(_, h). cancel_handle h) (mg_workers m) (mg_go m)\<rparr>"

definition brain_status :: "(nat \<Rightarrow> brain_state) \<Rightarrow> int \<Rightarrow> manager \<Rightarrow> brain_state" where
  "brain_status state site m =
     (case map_of (mg_workers m) site of None \<Rightarrow> StateIdle | Some h \<Rightarrow> state (hd_worker h))"

text \<open>\<open>SendCommand\<close>: \<open>deliver\<close> is \<open>worker.Send\<close>, whose error says that the channel of 16 commands stayed
  full for five seconds.\<close>

definition send_command :: "(nat \<Rightarrow> string option) \<Rightarrow> int \<Rightarrow> manager \<Rightarrow> string option" where
  "send_command deliver site m =
     (case map_of (mg_workers m) site of None \<Rightarrow> Some (not_running site) | Some h \<Rightarrow> deliver (hd_worker h))"

definition auto_start :: "(int \<Rightarrow> string option) \<Rightarrow> (int \<Rightarrow> bool) \<Rightarrow> int list \<Rightarrow> manager \<Rightarrow> manager" where
  "auto_start create opened sites m = fold (\<lambda>s m. snd (start_site (create s) (opened s) s m)) sites m"

definition is_running :: "int \<Rightarrow> manager \<Rightarrow> bool" where
  "is_running site m = (map_of (mg_workers m) site \<noteq> None)"

definition running_count :: "manager \<Rightarrow> nat" where
  "running_count m = length (mg_workers m)"

definition running_sites :: "manager \<Rightarrow> int list" where
  "running_sites m = map fst (mg_workers m)"

section \<open>One live pipeline per site\<close>

text \<open>Every call of the manager, and a goroutine that returns.\<close>

inductive manager_step :: "manager \<Rightarrow> manager \<Rightarrow> bool" where
  StartSite: "manager_step m (snd (start_site create opened site m))"
| StopSite: "manager_step m (snd (stop_site site m))"
| StopAll: "manager_step m (stop_all m)"
| AutoStart: "manager_step m (auto_start create' opened' sites m)"
| Return: "i < length (mg_go m) \<Longrightarrow>
    manager_step m (m\<lparr>mg_go := (mg_go m)[i := (mg_go m ! i)\<lparr>gr_returned := True\<rparr>]\<rparr>)"

inductive manager_reach :: "manager \<Rightarrow> bool" where
  Init: "manager_reach new_brain_manager"
| Step: "manager_reach m \<Longrightarrow> manager_step m m' \<Longrightarrow> manager_reach m'"

definition owns :: "goroutine list \<Rightarrow> int \<Rightarrow> worker_kind \<Rightarrow> nat \<Rightarrow> bool" where
  "owns gs s k i = (i < length gs \<and> gr_site (gs ! i) = s \<and> gr_kind (gs ! i) = k)"

text \<open>Handles point at goroutines of their site, and what is not cancelled has a handle.\<close>

definition holds_go :: "handle \<Rightarrow> worker_kind \<Rightarrow> nat \<Rightarrow> bool" where
  "holds_go h k i = (case k of PipelineKind \<Rightarrow> hd_worker h = i | JobKind \<Rightarrow> hd_job h = Some i)"

definition handles_ok :: "(int, handle) gomap \<Rightarrow> goroutine list \<Rightarrow> bool" where
  "handles_ok ws gs = (\<forall>s h k i. map_of ws s = Some h \<longrightarrow> holds_go h k i \<longrightarrow> owns gs s k i)"

definition live_held :: "(int, handle) gomap \<Rightarrow> goroutine list \<Rightarrow> bool" where
  "live_held ws gs = (\<forall>i < length gs. \<not> gr_cancelled (gs ! i) \<longrightarrow>
     (\<exists>h. map_of ws (gr_site (gs ! i)) = Some h \<and> holds_go h (gr_kind (gs ! i)) i))"

definition manager_ok :: "manager \<Rightarrow> bool" where
  "manager_ok m = (gm_ok (mg_workers m) \<and> handles_ok (mg_workers m) (mg_go m) \<and> live_held (mg_workers m) (mg_go m))"

lemma cancel_go_simps [simp]:
  "length (cancel_go i gs) = length gs"
  "k < length gs \<Longrightarrow> gr_site (cancel_go i gs ! k) = gr_site (gs ! k)"
  "k < length gs \<Longrightarrow> gr_kind (cancel_go i gs ! k) = gr_kind (gs ! k)"
  "k < length gs \<Longrightarrow> gr_cancelled (cancel_go i gs ! k) \<longleftrightarrow> gr_cancelled (gs ! k) \<or> k = i"
  by (auto simp: cancel_go_def nth_list_update)

lemma cancel_handle_simps [simp]:
  "length (cancel_handle h gs) = length gs"
  "k < length gs \<Longrightarrow> gr_site (cancel_handle h gs ! k) = gr_site (gs ! k)"
  "k < length gs \<Longrightarrow> gr_kind (cancel_handle h gs ! k) = gr_kind (gs ! k)"
  "k < length gs \<Longrightarrow> gr_cancelled (cancel_handle h gs ! k)
     \<longleftrightarrow> gr_cancelled (gs ! k) \<or> k = hd_worker h \<or> hd_job h = Some k"
  by (auto simp: cancel_handle_def Let_def split: option.split)

lemma holds_go_simps [simp]:
  "holds_go h PipelineKind i \<longleftrightarrow> hd_worker h = i" "holds_go h JobKind i \<longleftrightarrow> hd_job h = Some i"
  by (simp_all add: holds_go_def)

lemma cancelled_held:
  "k < length gs \<Longrightarrow> \<not> gr_cancelled (cancel_handle h gs ! k) \<Longrightarrow>
   \<not> gr_cancelled (gs ! k) \<and> \<not> holds_go h kd k"
  by (cases kd) auto

lemma handles_ok_same:
  assumes "handles_ok ws gs" "length gs' = length gs"
    "\<And>i. i < length gs \<Longrightarrow> gr_site (gs' ! i) = gr_site (gs ! i) \<and> gr_kind (gs' ! i) = gr_kind (gs ! i)"
  shows "handles_ok ws gs'"
  using assms by (auto simp: handles_ok_def owns_def)

lemma manager_ok_start: "manager_ok m \<Longrightarrow> manager_ok (snd (start_site create opened site m))"
proof -
  assume ok: "manager_ok m"
  let ?gs = "mg_go m" and ?ws = "mg_workers m"
  let ?new = "go_start site PipelineKind # (if opened then [go_start site JobKind] else [])"
  let ?h = "\<lparr>hd_worker = length ?gs, hd_job = if opened then Some (length ?gs + 1) else None\<rparr>"
  show ?thesis
  proof (cases "map_of ?ws site \<noteq> None \<or> create \<noteq> None")
    case True
    with ok show ?thesis by (auto simp: start_site_def)
  next
    case False
    have m': "snd (start_site create opened site m)
        = m\<lparr>mg_workers := alist_put site ?h ?ws, mg_go := ?gs @ ?new\<rparr>"
      using False by (simp add: start_site_def Let_def)
    have new: "owns (?gs @ ?new) site k i" if "holds_go ?h k i" for k i
      using that by (cases k) (auto simp: owns_def nth_append go_start_def split: if_splits)
    have old: "owns (?gs @ ?new) s k i" if "owns ?gs s k i" for s k i
      using that by (auto simp: owns_def nth_append)
    have "handles_ok (alist_put site ?h ?ws) (?gs @ ?new)"
      unfolding handles_ok_def
    proof (intro allI impI)
      fix s h k i
      assume "map_of (alist_put site ?h ?ws) s = Some h" "holds_go h k i"
      then show "owns (?gs @ ?new) s k i"
        using new old ok by (cases "s = site") (auto simp: manager_ok_def handles_ok_def)
    qed
    moreover have "live_held (alist_put site ?h ?ws) (?gs @ ?new)"
      unfolding live_held_def
    proof (intro allI impI)
      fix i
      assume i: "i < length (?gs @ ?new)" "\<not> gr_cancelled ((?gs @ ?new) ! i)"
      show "\<exists>h. map_of (alist_put site ?h ?ws) (gr_site ((?gs @ ?new) ! i)) = Some h
          \<and> holds_go h (gr_kind ((?gs @ ?new) ! i)) i"
      proof (cases "i < length ?gs")
        case True
        with i ok obtain h where "map_of ?ws (gr_site (?gs ! i)) = Some h" "holds_go h (gr_kind (?gs ! i)) i"
          by (auto simp: manager_ok_def live_held_def nth_append)
        with True False show ?thesis by (auto simp: nth_append)
      next
        case False
        then have "i = length ?gs \<or> opened \<and> i = length ?gs + 1" using i(1) by (auto split: if_splits)
        then show ?thesis by (auto simp: nth_append go_start_def)
      qed
    qed
    ultimately show ?thesis using ok by (simp add: m' manager_ok_def gm_ok_put)
  qed
qed

lemma cancel_keeps_handles: "handles_ok ws gs \<Longrightarrow> handles_ok ws (cancel_handle h gs)"
  using handles_ok_same [of ws gs "cancel_handle h gs"] by simp

lemma manager_ok_stop: "manager_ok m \<Longrightarrow> manager_ok (snd (stop_site site m))"
proof (cases "map_of (mg_workers m) site")
  case None
  then show "manager_ok m \<Longrightarrow> ?thesis" by (simp add: stop_site_def)
next
  case (Some h)
  assume ok: "manager_ok m"
  let ?gs = "cancel_handle h (mg_go m)"
  have "handles_ok (alist_del site (mg_workers m)) ?gs"
    using cancel_keeps_handles [of "mg_workers m" "mg_go m" h] ok
    by (simp add: manager_ok_def handles_ok_def)
  moreover have "live_held (alist_del site (mg_workers m)) ?gs"
    unfolding live_held_def
  proof (intro allI impI)
    fix i
    assume i: "i < length ?gs" "\<not> gr_cancelled (?gs ! i)"
    then have "\<not> gr_cancelled (mg_go m ! i)" "\<And>k. \<not> holds_go h k i"
      using cancelled_held [of i "mg_go m" h] by auto
    moreover from this(1) i obtain q where
      "map_of (mg_workers m) (gr_site (mg_go m ! i)) = Some q" "holds_go q (gr_kind (mg_go m ! i)) i"
      using ok by (auto simp: manager_ok_def live_held_def)
    ultimately show "\<exists>q. map_of (alist_del site (mg_workers m)) (gr_site (?gs ! i)) = Some q
        \<and> holds_go q (gr_kind (?gs ! i)) i"
      using i(1) Some by (cases "gr_site (mg_go m ! i) = site") auto
  qed
  ultimately show ?thesis using ok Some by (simp add: stop_site_def manager_ok_def gm_ok_del)
qed

lemma cancel_all_simps:
  "length (fold (\<lambda>(_, h). cancel_handle h) ws gs) = length gs"
  "k < length gs \<Longrightarrow> gr_cancelled (fold (\<lambda>(_, h). cancel_handle h) ws gs ! k)
     \<longleftrightarrow> gr_cancelled (gs ! k) \<or> (\<exists>(s, h) \<in> set ws. \<exists>kd. holds_go h kd k)"
proof (induction ws arbitrary: gs)
  case (Cons a ws)
  have h: "(\<exists>kd. holds_go h kd k) \<longleftrightarrow> hd_worker h = k \<or> hd_job h = Some k" for h
    by (metis (full_types) holds_go_simps worker_kind.exhaust)
  case 1
  then show ?case using Cons.IH(1) by (simp add: split_beta)
  case 2
  then show ?case using Cons.IH(2) [of "cancel_handle (snd a) gs"] h by (auto simp: split_beta)
qed auto

lemma manager_ok_stop_all: "manager_ok m \<Longrightarrow> manager_ok (stop_all m)"
proof -
  assume ok: "manager_ok m"
  have "gr_cancelled (mg_go (stop_all m) ! i)" if "i < length (mg_go m)" for i
  proof (cases "gr_cancelled (mg_go m ! i)")
    case False
    with ok that obtain h where "map_of (mg_workers m) (gr_site (mg_go m ! i)) = Some h"
      "holds_go h (gr_kind (mg_go m ! i)) i" by (auto simp: manager_ok_def live_held_def)
    then show ?thesis using that by (auto simp: stop_all_def cancel_all_simps dest!: map_of_SomeD)
  qed (use that in \<open>simp add: stop_all_def cancel_all_simps\<close>)
  then show ?thesis
    by (simp add: manager_ok_def handles_ok_def live_held_def stop_all_def cancel_all_simps)
qed

lemma manager_ok_step: "manager_step m m' \<Longrightarrow> manager_ok m \<Longrightarrow> manager_ok m'"
proof (induction rule: manager_step.induct)
  case (AutoStart m create' opened' sites)
  have "manager_ok (fold (\<lambda>s m. snd (start_site (create' s) (opened' s) s m)) sites m)"
    if "manager_ok m" for m
    using that by (induction sites arbitrary: m) (simp_all add: manager_ok_start)
  with AutoStart show ?case by (simp add: auto_start_def)
next
  case (Return i m)
  let ?gs = "(mg_go m)[i := (mg_go m ! i)\<lparr>gr_returned := True\<rparr>]"
  have same: "gr_site (?gs ! k) = gr_site (mg_go m ! k) \<and> gr_kind (?gs ! k) = gr_kind (mg_go m ! k)
      \<and> gr_cancelled (?gs ! k) = gr_cancelled (mg_go m ! k)" if "k < length (mg_go m)" for k
    using that by (cases "k = i") simp_all
  have "handles_ok (mg_workers m) (mg_go m)" using Return(2) by (simp add: manager_ok_def)
  then have "handles_ok (mg_workers m) ?gs"
    by (rule handles_ok_same) (use same in simp_all)
  moreover have "live_held (mg_workers m) ?gs"
    unfolding live_held_def
  proof (intro allI impI)
    fix k
    assume k: "k < length ?gs" "\<not> gr_cancelled (?gs ! k)"
    then obtain h where "map_of (mg_workers m) (gr_site (mg_go m ! k)) = Some h \<and> holds_go h (gr_kind (mg_go m ! k)) k"
      using Return(2) same by (auto simp: manager_ok_def live_held_def)
    then show "\<exists>h. map_of (mg_workers m) (gr_site (?gs ! k)) = Some h \<and> holds_go h (gr_kind (?gs ! k)) k"
      using k same by auto
  qed
  ultimately show ?case using Return(2) by (simp add: manager_ok_def)
qed (simp_all add: manager_ok_start manager_ok_stop manager_ok_stop_all)

lemma reachable_manager_ok: "manager_reach m \<Longrightarrow> manager_ok m"
proof (induction rule: manager_reach.induct)
  case Init
  then show ?case by (simp add: manager_ok_def new_brain_manager_def handles_ok_def live_held_def)
next
  case (Step m m')
  then show ?case using manager_ok_step by blast
qed

text \<open>C36. However sites are started and stopped, a site never has two pipeline workers, or two job
  workers, whose contexts are both alive; and a site without a handle has none.\<close>

theorem one_live_worker_per_site:
  assumes "manager_reach m" "i < length (mg_go m)" "k < length (mg_go m)"
    "\<not> gr_cancelled (mg_go m ! i)" "\<not> gr_cancelled (mg_go m ! k)"
    "gr_site (mg_go m ! i) = gr_site (mg_go m ! k)" "gr_kind (mg_go m ! i) = gr_kind (mg_go m ! k)"
  shows "i = k \<and> is_running (gr_site (mg_go m ! i)) m"
proof -
  have live: "live_held (mg_workers m) (mg_go m)"
    using reachable_manager_ok [OF assms(1)] by (simp add: manager_ok_def)
  from live obtain h where h: "map_of (mg_workers m) (gr_site (mg_go m ! i)) = Some h"
    "holds_go h (gr_kind (mg_go m ! i)) i"
    using assms(2,4) by (auto simp: live_held_def)
  moreover from live obtain q where "map_of (mg_workers m) (gr_site (mg_go m ! k)) = Some q"
    "holds_go q (gr_kind (mg_go m ! k)) k"
    using assms(3,5) by (auto simp: live_held_def)
  ultimately have "holds_go h (gr_kind (mg_go m ! i)) k" using assms(6,7) by simp
  with h show ?thesis by (cases "gr_kind (mg_go m ! i)") (auto simp: is_running_def)
qed

text \<open>A pipeline worker that has returned by itself (its site could not be loaded, or its state could
  not) keeps its handle: the site counts as running and starting it again does nothing.\<close>

lemma returned_worker_blocks_start:
  assumes "map_of (mg_workers m) site = Some h" "gr_returned (mg_go m ! hd_worker h)"
  shows "is_running site m \<and> start_site create opened site m = (None, m)"
  using assms by (simp add: is_running_def start_site_def)

section \<open>A concrete manager\<close>

definition demo_manager :: manager where
  "demo_manager = snd (start_site None True 7 (snd (stop_site 7 (snd (start_site None True 7 new_brain_manager)))))"

lemma demo_manager_go:
  "mg_go demo_manager = [(go_start 7 PipelineKind)\<lparr>gr_cancelled := True\<rparr>,
     (go_start 7 JobKind)\<lparr>gr_cancelled := True\<rparr>, go_start 7 PipelineKind, go_start 7 JobKind]"
  by code_simp

lemma demo_manager_reach: "manager_reach demo_manager"
  unfolding demo_manager_def
  by (intro manager_reach.Step [OF _ manager_step.StartSite] manager_reach.Step [OF _ manager_step.StopSite]
      manager_reach.Init)

lemma one_live_worker_per_site_witness: "(2::nat) = 2 \<and> is_running 7 demo_manager"
  using one_live_worker_per_site [OF demo_manager_reach, of 2 2] by (simp add: demo_manager_go go_start_def)

end
