(* ===== verification/ToolCore.thy ===== *)
theory ToolCore
  imports PlanTools SiteDb Sql "HOL-Library.Multiset"
begin

text \<open>
  What the tools of the model share (\<open>src/tools\<close>): results, the access to arguments, the dispatch
  of actions (\<open>helpers.go\<close>, \<open>types.go\<close>), the registry (\<open>registry.go\<close>, \<open>register.go\<close>), the executor
  (\<open>executor.go\<close>), and the tool sets of the stages (\<open>brain/stage_config.go\<close>). A handler works on a
  state that the component owning the tool chooses. The executor encodes a result as JSON for the
  model; the theory keeps the result itself.
\<close>

section \<open>Results and arguments\<close>

record tool_result =
  tr_success :: bool
  tr_data :: "json option"
  tr_error :: string

text \<open>What a handler returns: a result that may be nil, or an error, or a panic.\<close>

datatype tool_return =
    ToolResult tool_result
  | NilResult
  | ToolError string
  | ToolPanic string

definition ok_result :: "json \<Rightarrow> tool_return" where
  "ok_result d = ToolResult \<lparr>tr_success = True, tr_data = Some d, tr_error = []\<rparr>"

definition error_result :: "string \<Rightarrow> tool_return" where
  "error_result e = ToolResult \<lparr>tr_success = False, tr_data = None, tr_error = e\<rparr>"

type_synonym 'st action_handler = "jobj \<Rightarrow> 'st \<Rightarrow> tool_return \<times> 'st"

definition require_string :: "jobj \<Rightarrow> string \<Rightarrow> tool_return + string" where
  "require_string args key =
     (let v = get_str args key in if v = [] then Inl (error_result (key @ '' is required'')) else Inr v)"

definition optional_string :: "jobj \<Rightarrow> string \<Rightarrow> string \<Rightarrow> string" where
  "optional_string args key dflt =
     (case get_str_ok args key of Some v \<Rightarrow> if v \<noteq> [] then v else dflt | None \<Rightarrow> dflt)"

text \<open>The arguments come from JSON, where every number is a \<open>float64\<close>.\<close>

definition optional_int :: "jobj \<Rightarrow> string \<Rightarrow> int \<Rightarrow> int" where
  "optional_int args key dflt =
     (case get_num_ok args key of Some v \<Rightarrow> rat_to_int v | None \<Rightarrow> dflt)"

definition optional_bool :: "jobj \<Rightarrow> string \<Rightarrow> bool \<Rightarrow> bool" where
  "optional_bool args key dflt = (case map_of args key of Some (JBool b) \<Rightarrow> b | _ \<Rightarrow> dflt)"

definition require_action :: "jobj \<Rightarrow> tool_return + string" where
  "require_action args =
     (let a = get_str args ''action'' in if a = [] then Inl (error_result ''action is required'') else Inr a)"

text \<open>\<open>sort.Strings\<close>: bytewise.\<close>

fun str_le :: "string \<Rightarrow> string \<Rightarrow> bool" where
  "str_le [] t = True"
| "str_le (c # s) [] = False"
| "str_le (c # s) (d # t) = ((of_char c :: nat) < of_char d \<or> c = d \<and> str_le s t)"

definition sort_strings :: "string list \<Rightarrow> string list" where
  "sort_strings = sort_by_le str_le"

definition join_sorted :: "string list \<Rightarrow> string" where
  "join_sorted ss = join '', '' (sort_strings ss)"

text \<open>The verb \<open>%q\<close> on a text of printable ASCII characters.\<close>

definition go_quote :: "string \<Rightarrow> string" where
  "go_quote s = CHR 0x22 # concat (map (\<lambda>c. if c = CHR 0x22 \<or> c = CHR 0x5C then [CHR 0x5C, c] else [c]) s) @ [CHR 0x22]"

definition em_dash :: string where
  "em_dash = [CHR 0xE2, CHR 0x80, CHR 0x94]"

definition unknown_action :: "string \<Rightarrow> string list \<Rightarrow> tool_return" where
  "unknown_action a valid =
     error_result (''unknown action '' @ go_quote a @ '' '' @ em_dash @ '' valid actions: '' @ join_sorted valid)"

text \<open>An inferred action is also written into the arguments.\<close>

definition dispatch_action ::
  "(string \<times> 'st action_handler) list \<Rightarrow> (jobj \<Rightarrow> string) option \<Rightarrow> 'st action_handler" where
  "dispatch_action routes infer args st =
     (let given = get_str args ''action'';
          action = (if given \<noteq> [] then given else case infer of Some f \<Rightarrow> f args | None \<Rightarrow> []);
          args = (if given = [] \<and> action \<noteq> [] then alist_put ''action'' (JStr action) args else args)
      in if action = [] then (error_result ''action is required'', st)
         else case map_of routes action of
             Some h \<Rightarrow> h args st
           | None \<Rightarrow> (unknown_action action (map fst routes), st))"

lemma dispatch_known:
  "get_str args ''action'' = a \<Longrightarrow> a \<noteq> [] \<Longrightarrow> map_of routes a = Some h \<Longrightarrow>
   dispatch_action routes infer args st = h args st"
  by (simp add: dispatch_action_def)

text \<open>An action that is not one of the routes changes nothing.\<close>

lemma dispatch_unknown:
  assumes "\<And>a h. map_of routes a = Some h \<Longrightarrow> get_str args ''action'' = [] \<or> get_str args ''action'' \<noteq> a"
    "infer = None"
  shows "snd (dispatch_action routes infer args st) = st"
  using assms by (auto simp: dispatch_action_def Let_def split: option.split)

section \<open>The registry\<close>

record 'st tool =
  tl_name :: string
  tl_description :: string
  tl_parameters :: json
  tl_guide :: "string option"
  tl_execute :: "'st action_handler"

type_synonym 'st registry = "(string, 'st tool) gomap"

definition new_registry :: "'st registry" where "new_registry = []"

definition register :: "'st tool \<Rightarrow> 'st registry \<Rightarrow> 'st registry" where
  "register t r = alist_put (tl_name t) t r"

definition reg_get :: "'st registry \<Rightarrow> string \<Rightarrow> string + 'st tool" where
  "reg_get r name = (case map_of r name of Some t \<Rightarrow> Inr t | None \<Rightarrow> Inl (''tool not found: '' @ name))"

definition sorted_names :: "'st registry \<Rightarrow> string list" where
  "sorted_names r = sort_strings (map fst r)"

definition reg_list :: "'st registry \<Rightarrow> 'st tool list" where
  "reg_list r = List.map_filter (map_of r) (sorted_names r)"

definition reg_has :: "'st registry \<Rightarrow> string \<Rightarrow> bool" where
  "reg_has r name = (map_of r name \<noteq> None)"

record tool_def =
  td_name :: string
  td_description :: string
  td_parameters :: "json option"
  td_type :: string

definition tool_def_of :: "'st tool \<Rightarrow> tool_def" where
  "tool_def_of t = \<lparr>td_name = tl_name t, td_description = tl_description t,
     td_parameters = Some (tl_parameters t), td_type = []\<rparr>"

definition to_llm_tools :: "'st registry \<Rightarrow> tool_def list" where
  "to_llm_tools r = map tool_def_of (reg_list r)"

definition to_llm_tools_filtered :: "'st registry \<Rightarrow> string list \<Rightarrow> tool_def list" where
  "to_llm_tools_filtered r allowed =
     List.map_filter (\<lambda>n. map_option tool_def_of (map_of r n))
       (filter (\<lambda>n. n \<in> set allowed) (sorted_names r))"

definition newline :: string where "newline = [CHR 0x0A]"

definition build_guide :: "'st registry \<Rightarrow> string list \<Rightarrow> string" where
  "build_guide r allowed =
     concat (map (\<lambda>n. case map_of r n of
         Some t \<Rightarrow> (case tl_guide t of Some g \<Rightarrow> g @ newline | None \<Rightarrow> []) | None \<Rightarrow> [])
       (filter (\<lambda>n. n \<in> set allowed) (sorted_names r)))"

definition build_plan_guide :: "'st registry \<Rightarrow> string list \<Rightarrow> string" where
  "build_plan_guide r allowed =
     ''### Platform Capabilities'' @ newline
     @ concat (map (\<lambda>n. case map_of r n of
           Some t \<Rightarrow> ''- **'' @ n @ ''**: '' @ tl_description t @ newline | None \<Rightarrow> [])
         (filter (\<lambda>n. n \<in> set allowed) (sorted_names r)))
     @ newline"

text \<open>\<open>RegisterAll\<close>: the tools by name, in the order of the code; \<open>impl\<close> gives the bodies, which are
  the theories of the single tools.\<close>

definition tool_names :: "string list" where
  "tool_names =
     [''manage_pages'', ''manage_files'', ''manage_schema'', ''manage_data'', ''manage_endpoints'',
      ''manage_communication'', ''manage_analytics'', ''make_http_request'', ''manage_webhooks'',
      ''manage_providers'', ''manage_secrets'', ''manage_site'', ''manage_scheduler'', ''manage_layout'',
      ''manage_diagnostics'', ''manage_email'', ''manage_payments'', ''manage_search'', ''manage_seo'',
      ''manage_media'', ''manage_blobs'', ''manage_jobs'', ''manage_actions'', ''manage_memory'',
      ''manage_testing'', ''manage_components'', ''manage_plan'']"

definition register_all :: "(string \<Rightarrow> 'st tool) \<Rightarrow> 'st registry \<Rightarrow> 'st registry" where
  "register_all impl r = fold (\<lambda>n. register ((impl n)\<lparr>tl_name := n\<rparr>)) tool_names r"

section \<open>Tool sets and stage configurations\<close>

definition chat_tool_set :: "string list" where
  "chat_tool_set =
     [''manage_pages'', ''manage_files'', ''manage_layout'', ''manage_data'', ''manage_endpoints'',
      ''manage_schema'', ''manage_diagnostics'', ''manage_analytics'', ''manage_communication'',
      ''manage_scheduler'', ''manage_site'', ''manage_secrets'', ''manage_providers'', ''manage_email'',
      ''manage_payments'', ''manage_webhooks'', ''make_http_request'', ''manage_search'', ''manage_seo'',
      ''manage_media'', ''manage_blobs'', ''manage_jobs'', ''manage_actions'', ''manage_memory'',
      ''manage_testing'', ''manage_components'', ''manage_plan'']"

definition tool_set_except :: "string list \<Rightarrow> string list \<Rightarrow> string list" where
  "tool_set_except base exclude = filter (\<lambda>n. n \<notin> set exclude) base"

definition full_write_tool_set :: "string list" where "full_write_tool_set = chat_tool_set"

definition build_tool_set :: "string list" where
  "build_tool_set = tool_set_except chat_tool_set
     [''manage_diagnostics'', ''manage_analytics'', ''manage_site'', ''manage_memory'']"

definition chat_wake_tool_set :: "string list" where
  "chat_wake_tool_set = tool_set_except chat_tool_set [''manage_diagnostics'', ''manage_analytics'']"

definition chat_wake_lite_tool_set :: "string list" where
  "chat_wake_lite_tool_set =
     [''manage_pages'', ''manage_files'', ''manage_layout'', ''manage_components'',
      ''manage_communication'', ''manage_memory'']"

definition monitoring_tools :: "string list" where
  "monitoring_tools = [''manage_diagnostics'', ''manage_analytics'', ''manage_communication'', ''manage_memory'']"

definition plan_tool_set :: "string list" where "plan_tool_set = [''make_http_request'']"

definition validate_tool_set :: "string list" where
  "validate_tool_set =
     [''manage_pages'', ''manage_files'', ''manage_layout'', ''manage_schema'', ''manage_endpoints'',
      ''manage_data'', ''manage_search'', ''manage_seo'', ''manage_testing'', ''manage_components'']"

datatype prompt_section =
    SectionHeader | SectionSiteInfo | SectionSiteManifest | SectionDesignTokens | SectionCSSReference
  | SectionJSReference | SectionMemories | SectionPlatformContracts | SectionDataLayer
  | SectionAnalytics | SectionRecentErrors

datatype guide_mode = GuideModeNone | GuideModePlan | GuideModeFull

text \<open>The texts \<open>GuideReason\<close> and \<open>HeaderRole\<close> are left out.\<close>

record stage_config =
  sc_tools :: "string list option"
  sc_guide_tools :: "string list option"
  sc_guide_mode :: guide_mode
  sc_dynamic :: bool
  sc_max_iterations :: nat
  sc_max_tokens :: int
  sc_temperature :: rat
  sc_sections :: "prompt_section list"
  sc_web_search :: bool

definition zero_config :: stage_config where
  "zero_config = \<lparr>sc_tools = None, sc_guide_tools = None, sc_guide_mode = GuideModeNone, sc_dynamic = False,
     sc_max_iterations = 0, sc_max_tokens = 0, sc_temperature = 0, sc_sections = [], sc_web_search = False\<rparr>"

fun stage_config_of :: "stage \<Rightarrow> stage_config" where
  "stage_config_of StageExpand = zero_config\<lparr>sc_max_iterations := 1, sc_max_tokens := 1024,
     sc_temperature := 7/10, sc_sections := [SectionHeader]\<rparr>"
| "stage_config_of StagePlan = \<lparr>sc_tools = Some plan_tool_set, sc_guide_tools = Some full_write_tool_set,
     sc_guide_mode = GuideModePlan, sc_dynamic = False, sc_max_iterations = 5, sc_max_tokens = 16384,
     sc_temperature = 7/10, sc_sections = [SectionHeader, SectionSiteInfo, SectionPlatformContracts],
     sc_web_search = True\<rparr>"
| "stage_config_of StageBuild = \<lparr>sc_tools = Some build_tool_set, sc_guide_tools = None,
     sc_guide_mode = GuideModeFull, sc_dynamic = True, sc_max_iterations = 50, sc_max_tokens = 16384,
     sc_temperature = 4/10, sc_sections = [], sc_web_search = False\<rparr>"
| "stage_config_of StageValidate = \<lparr>sc_tools = Some validate_tool_set, sc_guide_tools = None,
     sc_guide_mode = GuideModeFull, sc_dynamic = False, sc_max_iterations = 4, sc_max_tokens = 4096,
     sc_temperature = 2/10,
     sc_sections = [SectionSiteManifest, SectionDesignTokens, SectionCSSReference, SectionJSReference],
     sc_web_search = False\<rparr>"
| "stage_config_of StageComplete = zero_config"
| "stage_config_of StageUpdatePlan = \<lparr>sc_tools = None, sc_guide_tools = Some full_write_tool_set,
     sc_guide_mode = GuideModePlan, sc_dynamic = False, sc_max_iterations = 1, sc_max_tokens = 4096,
     sc_temperature = 5/10, sc_sections = [SectionHeader, SectionSiteInfo, SectionPlatformContracts],
     sc_web_search = False\<rparr>"
| "stage_config_of _ = zero_config"

definition monitoring_config :: stage_config where
  "monitoring_config = \<lparr>sc_tools = Some monitoring_tools, sc_guide_tools = None, sc_guide_mode = GuideModeNone,
     sc_dynamic = False, sc_max_iterations = 5, sc_max_tokens = 2048, sc_temperature = 3/10,
     sc_sections = [SectionHeader, SectionSiteInfo, SectionAnalytics, SectionRecentErrors,
       SectionSiteManifest, SectionMemories], sc_web_search = False\<rparr>"

definition chat_wake_config :: stage_config where
  "chat_wake_config = \<lparr>sc_tools = Some chat_wake_tool_set, sc_guide_tools = None, sc_guide_mode = GuideModeFull,
     sc_dynamic = False, sc_max_iterations = 15, sc_max_tokens = 8192, sc_temperature = 5/10,
     sc_sections = [SectionHeader, SectionSiteInfo, SectionSiteManifest, SectionDesignTokens,
       SectionCSSReference, SectionJSReference, SectionDataLayer, SectionMemories], sc_web_search = False\<rparr>"

definition chat_wake_lite_config :: stage_config where
  "chat_wake_lite_config = \<lparr>sc_tools = Some chat_wake_lite_tool_set, sc_guide_tools = None,
     sc_guide_mode = GuideModePlan, sc_dynamic = False, sc_max_iterations = 8, sc_max_tokens = 4096,
     sc_temperature = 4/10,
     sc_sections = [SectionHeader, SectionSiteInfo, SectionSiteManifest, SectionCSSReference,
       SectionJSReference, SectionMemories], sc_web_search = False\<rparr>"

definition scheduled_task_config :: stage_config where
  "scheduled_task_config = \<lparr>sc_tools = Some full_write_tool_set, sc_guide_tools = None,
     sc_guide_mode = GuideModeFull, sc_dynamic = False, sc_max_iterations = 20, sc_max_tokens = 4096,
     sc_temperature = 4/10,
     sc_sections = [SectionHeader, SectionSiteInfo, SectionSiteManifest, SectionDataLayer,
       SectionPlatformContracts], sc_web_search = True\<rparr>"

definition web_search_tool_def :: tool_def where
  "web_search_tool_def = \<lparr>td_name = ''web_search'', td_description = [], td_parameters = None,
     td_type = ''web_search''\<rparr>"

definition build_tool_defs :: "stage_config \<Rightarrow> 'st registry \<Rightarrow> string list option \<Rightarrow> tool_def list" where
  "build_tool_defs sc r override =
     (let ts = (case override of Some s \<Rightarrow> Some s | None \<Rightarrow> sc_tools sc)
      in (case ts of Some s \<Rightarrow> to_llm_tools_filtered r s | None \<Rightarrow> [])
         @ (if sc_web_search sc then [web_search_tool_def] else []))"

definition stage_guide :: "stage_config \<Rightarrow> 'st registry \<Rightarrow> string list option \<Rightarrow> string" where
  "stage_guide sc r override =
     (case (case override of Some s \<Rightarrow> Some s
            | None \<Rightarrow> (case sc_guide_tools sc of Some s \<Rightarrow> Some s | None \<Rightarrow> sc_tools sc)) of
        None \<Rightarrow> []
      | Some s \<Rightarrow> (case sc_guide_mode sc of
                     GuideModePlan \<Rightarrow> build_plan_guide r s
                   | GuideModeFull \<Rightarrow> build_guide r s
                   | GuideModeNone \<Rightarrow> []))"

section \<open>The executor\<close>

datatype exec_event =
    ToolFailedEvent string jobj string
  | ToolExecutedEvent string jobj bool

text \<open>Whether the call ends before its context does; an abandoned call goes on in its goroutine.\<close>

datatype call_end = Ends | ContextDone string

record 'st execution =
  ex_result :: tool_result
  ex_error :: "string option"
  ex_events :: "exec_event list"
  ex_state :: 'st
  ex_abandoned :: "('st \<Rightarrow> 'st) option"

definition marshal_error :: "string \<Rightarrow> tool_result" where
  "marshal_error msg = \<lparr>tr_success = False, tr_data = None, tr_error = msg\<rparr>"

definition failed_execution :: "string \<Rightarrow> jobj \<Rightarrow> string \<Rightarrow> 'st \<Rightarrow> ('st \<Rightarrow> 'st) option \<Rightarrow> 'st execution" where
  "failed_execution name args e st ab =
     \<lparr>ex_result = marshal_error e, ex_error = Some e, ex_events = [ToolFailedEvent name args e],
      ex_state = st, ex_abandoned = ab\<rparr>"

definition executed :: "string \<Rightarrow> jobj \<Rightarrow> tool_result \<Rightarrow> 'st \<Rightarrow> 'st execution" where
  "executed name args r st =
     \<lparr>ex_result = r, ex_error = None, ex_events = [ToolExecutedEvent name args (tr_success r)],
      ex_state = st, ex_abandoned = None\<rparr>"

definition execute :: "'st registry \<Rightarrow> string \<Rightarrow> call_end \<Rightarrow> string \<Rightarrow> jobj \<Rightarrow> 'st \<Rightarrow> 'st execution" where
  "execute r stack ce name args st =
     (case reg_get r name of
        Inl _ \<Rightarrow> \<lparr>ex_result = marshal_error (''unknown tool: '' @ name), ex_error = None, ex_events = [],
                  ex_state = st, ex_abandoned = None\<rparr>
      | Inr t \<Rightarrow>
         (case ce of
            ContextDone e \<Rightarrow>
              failed_execution name args (''tool '' @ name @ '' timed out: '' @ e) st
                (Some (\<lambda>s. snd (tl_execute t args s)))
          | Ends \<Rightarrow>
             (case tl_execute t args st of
                (ToolResult res, st') \<Rightarrow> executed name args res st'
              | (NilResult, st') \<Rightarrow> executed name args \<lparr>tr_success = True, tr_data = None, tr_error = []\<rparr> st'
              | (ToolError e, st') \<Rightarrow> failed_execution name args e st' None
              | (ToolPanic e, st') \<Rightarrow>
                  failed_execution name args (''tool '' @ name @ '' panicked: '' @ e @ newline @ stack) st' None)))"

section \<open>Sorting names\<close>

lemma str_le_refl [simp]: "str_le s s"
  by (induction s) simp_all

lemma str_le_total: "str_le s t \<or> str_le t s"
  by (induction s t rule: str_le.induct) (auto simp: of_char_eq_iff)

lemma str_le_trans: "str_le s t \<Longrightarrow> str_le t u \<Longrightarrow> str_le s u"
proof (induction s t arbitrary: u rule: str_le.induct)
  case (3 c s d t)
  then show ?case by (cases u) auto
qed simp_all

lemma str_le_antisym: "str_le s t \<Longrightarrow> str_le t s \<Longrightarrow> s = t"
  by (induction s t rule: str_le.induct) (auto elim: str_le.elims)

lemma sorted_insert_sorted:
  "sorted_wrt str_le xs \<Longrightarrow> sorted_wrt str_le (insert_sorted str_le x xs)"
proof (induction xs)
  case (Cons y ys)
  have "set (insert_sorted str_le x ys) = insert x (set ys)" for ys by (induction ys) auto
  with Cons show ?case using str_le_total [of x y] by (auto dest: str_le_trans)
qed simp

lemma sorted_sort_strings: "sorted_wrt str_le (sort_strings xs)"
  unfolding sort_strings_def sort_by_le_def by (induction xs) (simp_all add: sorted_insert_sorted)

lemma set_sort_strings [simp]: "set (sort_strings xs) = set xs"
  by (simp add: sort_strings_def)

lemma mset_insert_sorted: "mset (insert_sorted le x xs) = add_mset x (mset xs)"
  by (induction xs) auto

lemma mset_sort_by_le [simp]: "mset (sort_by_le le xs) = mset xs"
  unfolding sort_by_le_def by (induction xs) (simp_all add: mset_insert_sorted)

lemma distinct_sort_strings [simp]: "distinct (sort_strings xs) = distinct xs"
  unfolding sort_strings_def by (metis mset_sort_by_le mset_eq_imp_distinct_iff)

section \<open>What the model is offered\<close>

text \<open>The invariant of a registry: every tool is stored once, under its name.\<close>

definition registry_ok :: "'st registry \<Rightarrow> bool" where
  "registry_ok r = (gm_ok r \<and> (\<forall>k t. map_of r k = Some t \<longrightarrow> tl_name t = k))"

lemma registry_ok_register [inv_intros]: "registry_ok r \<Longrightarrow> registry_ok (register t r)"
  by (auto simp: registry_ok_def register_def)

lemma registry_ok_fold:
  "registry_ok r \<Longrightarrow> registry_ok (fold (\<lambda>n. register ((impl n)\<lparr>tl_name := n\<rparr>)) ns r)"
  by (induction ns arbitrary: r) (auto intro: registry_ok_register)

lemma registry_ok_all: "registry_ok r \<Longrightarrow> registry_ok (register_all impl r)"
  unfolding register_all_def by (rule registry_ok_fold)

lemma registered_fold:
  "fst ` set (fold (\<lambda>n. register ((impl n)\<lparr>tl_name := n\<rparr>)) ns r) = fst ` set r \<union> set ns"
  by (induction ns arbitrary: r) (auto simp: register_def keys_alist_put)

lemma registered_all: "fst ` set (register_all impl new_registry) = set tool_names"
  by (simp add: register_all_def registered_fold new_registry_def)

lemma offered_names:
  assumes "registry_ok r"
  shows "map td_name (to_llm_tools_filtered r allowed) = filter (\<lambda>n. n \<in> set allowed) (sorted_names r)"
proof -
  have "map td_name (List.map_filter (\<lambda>n. map_option tool_def_of (map_of r n)) ns) = ns"
    if "set ns \<subseteq> fst ` set r" for ns
    using that
  proof (induction ns)
    case (Cons n ns)
    then have "map_of r n \<noteq> None" by (simp add: map_of_eq_None_iff)
    then obtain t where t: "map_of r n = Some t" by blast
    with assms have "tl_name t = n" by (simp add: registry_ok_def)
    with Cons t show ?case by (simp add: map_filter_simps tool_def_of_def)
  qed (simp add: map_filter_simps)
  from this [of "filter (\<lambda>n. n \<in> set allowed) (sorted_names r)"] show ?thesis
    by (auto simp: to_llm_tools_filtered_def sorted_names_def)
qed

lemma offered_order:
  assumes "registry_ok r"
  shows "sorted_wrt str_le (map td_name (to_llm_tools_filtered r allowed))"
    "distinct (map td_name (to_llm_tools_filtered r allowed))"
  using assms sorted_sort_strings
  by (simp_all add: offered_names sorted_names_def sorted_wrt_filter registry_ok_def gm_ok_def)

lemma chat_tools_registered: "set chat_tool_set = set tool_names"
  by code_simp

lemma build_tools_registered: "set (build_tool_set_for_plan p) \<subseteq> set tool_names"
proof -
  have cond: "set xs \<subseteq> S \<Longrightarrow> set (if b then xs else []) \<subseteq> S" for xs :: "string list" and b S by auto
  show ?thesis
    unfolding build_tool_set_for_plan_def set_append Un_subset_iff
    by (intro conjI cond; code_simp)
qed

text \<open>The configurations the brain runs sessions with.\<close>

definition session_configs :: "stage_config list" where
  "session_configs = map stage_config_of [StageExpand, StagePlan, StageBuild, StageValidate, StageComplete,
     StageUpdatePlan] @ [monitoring_config, chat_wake_config, chat_wake_lite_config, scheduled_task_config]"

lemma session_tools_registered:
  "sc \<in> set session_configs \<Longrightarrow> sc_tools sc = Some ts \<Longrightarrow> set ts \<subseteq> set tool_names"
  by (auto simp: session_configs_def zero_config_def plan_tool_set_def build_tool_set_def validate_tool_set_def
      monitoring_config_def monitoring_tools_def chat_wake_config_def chat_wake_tool_set_def
      chat_wake_lite_config_def chat_wake_lite_tool_set_def scheduled_task_config_def
      full_write_tool_set_def tool_set_except_def chat_tools_registered) (simp_all add: tool_names_def)

lemma registered_ok: "registry_ok (register_all impl new_registry)"
  by (rule registry_ok_all) (simp add: registry_ok_def new_registry_def)

text \<open>C33. With the tools of \<open>RegisterAll\<close>, a session is offered exactly the tools of its stage, or of the
  set computed from the plan, each once and in alphabetical order: no name in a tool set goes
  unregistered and nothing outside the set is offered, the provider's own web search apart.\<close>

theorem session_offered_its_tools:
  assumes "sc \<in> set session_configs" "override = None \<or> override = Some (build_tool_set_for_plan p)"
  shows "\<exists>ns. map td_name (build_tool_defs sc (register_all impl new_registry) override)
        = ns @ (if sc_web_search sc then [''web_search''] else [])
      \<and> sorted_wrt str_le ns \<and> distinct ns
      \<and> set ns = (case override of Some s \<Rightarrow> set s
                  | None \<Rightarrow> (case sc_tools sc of Some s \<Rightarrow> set s | None \<Rightarrow> {}))"
proof -
  let ?reg = "register_all impl new_registry"
  have set: "set (map td_name (to_llm_tools_filtered ?reg ts)) = set ts" if "set ts \<subseteq> set tool_names" for ts
    using that registered_all [of impl] by (auto simp: offered_names [OF registered_ok] sorted_names_def)
  have web: "td_name web_search_tool_def = ''web_search''" by (simp add: web_search_tool_def_def)
  define ts where "ts = (case override of Some s \<Rightarrow> Some s | None \<Rightarrow> sc_tools sc)"
  show ?thesis
  proof (cases ts)
    case None
    then show ?thesis
      by (intro exI [of _ "[]"]) (auto simp: ts_def build_tool_defs_def web split: option.splits)
  next
    case (Some s)
    have "set s \<subseteq> set tool_names"
      using Some assms session_tools_registered [OF assms(1)] build_tools_registered
      by (auto simp: ts_def split: option.splits)
    with Some show ?thesis
      using set [of s] offered_order [OF registered_ok, of impl s]
      by (intro exI [of _ "map td_name (to_llm_tools_filtered ?reg s)"])
        (auto simp: ts_def build_tool_defs_def web split: option.splits)
  qed
qed

text \<open>What the tool matrix in the comment of \<open>stage_config.go\<close> says of the sizes: it counts 23, 8 and 21
  tools where the sets hold 27, 10 and 25.\<close>

lemma tool_set_sizes:
  "length full_write_tool_set = 27 \<and> length validate_tool_set = 10 \<and> length chat_wake_tool_set = 25
   \<and> length chat_wake_lite_tool_set = 6 \<and> length monitoring_tools = 4 \<and> length build_tool_set = 23"
  by code_simp

text \<open>The executor contains a tool: whatever the tool does (returns nothing, fails, panics, or
  outlives its context) the model gets a result, the event bus gets exactly one event, which says
  failure exactly when an error is returned, and an error is returned together with a result that
  carries its text; an unregistered name changes nothing and is answered with a result alone.\<close>

theorem executor_contains_tools:
  "let ex = execute r stack ce name args st
   in if reg_has r name
     then (case ex_error ex of
             Some e \<Rightarrow> ex_result ex = marshal_error e \<and> ex_events ex = [ToolFailedEvent name args e]
           | None \<Rightarrow> ex_events ex = [ToolExecutedEvent name args (tr_success (ex_result ex))])
     else ex_events ex = [] \<and> ex_state ex = st \<and> ex_error ex = None \<and> \<not> tr_success (ex_result ex)"
  by (auto simp: execute_def reg_has_def reg_get_def failed_execution_def executed_def marshal_error_def
      split: option.splits call_end.splits tool_return.splits prod.splits)

section \<open>Concrete sessions\<close>

lemma session_offered_its_tools_witness:
  "\<exists>ns. map td_name (build_tool_defs (stage_config_of StageValidate)
         (register_all (\<lambda>n. \<lparr>tl_name = n, tl_description = [], tl_parameters = JNull, tl_guide = None,
            tl_execute = (\<lambda>args st. (NilResult, st :: nat))\<rparr>) new_registry) None) = ns
      \<and> sorted_wrt str_le ns \<and> distinct ns \<and> set ns = set validate_tool_set"
proof -
  have "stage_config_of StageValidate \<in> set session_configs" by (simp add: session_configs_def)
  from session_offered_its_tools [OF this, of None empty_plan
      "\<lambda>n. \<lparr>tl_name = n, tl_description = [], tl_parameters = JNull, tl_guide = None,
            tl_execute = (\<lambda>args st. (NilResult, st :: nat))\<rparr>"]
  show ?thesis by simp
qed

end
