(* ===== verification/Jobs.thy ===== *)
theory Jobs
  imports ToolCore Json GoTime
begin

text \<open>
  Background jobs of a site: the table \<open>ho_jobs\<close> with the tool \<open>manage_jobs\<close> (\<open>tools/jobs.go\<close>), the
  enqueuing action (\<open>actions/runner.go\<close>) and the worker that polls for jobs, runs them and retries
  them (\<open>brain/jobs.go\<close>). Stopping and restarting a site does not wait for its worker, so several
  workers may run; each statement they execute is a step of its own, interleaved with calls of the
  tool. What a job does outside the table (mail, HTTP, queries) is the record \<open>job_env\<close>.
\<close>

section \<open>Timestamps\<close>

text \<open>\<open>CURRENT_TIMESTAMP\<close>, in UTC.\<close>

definition two_digits :: "int \<Rightarrow> string" where
  "two_digits n = (if n < 10 then CHR ''0'' # itoa n else itoa n)"

definition four_digits :: "int \<Rightarrow> string" where
  "four_digits n =
     (if n < 10 then ''000'' @ itoa n else if n < 100 then ''00'' @ itoa n
      else if n < 1000 then CHR ''0'' # itoa n else itoa n)"

definition sql_date :: "instant \<Rightarrow> string" where
  "sql_date t = four_digits (t_year 0 t) @ ''-'' @ two_digits (t_month 0 t) @ ''-'' @ two_digits (t_day 0 t)"

definition sql_clock :: "instant \<Rightarrow> string" where
  "sql_clock t = two_digits (t_hour 0 t) @ '':'' @ two_digits (t_minute 0 t) @ '':''
     @ two_digits (t mod minute_ns div second_ns)"

definition sql_timestamp :: "instant \<Rightarrow> string" where
  "sql_timestamp t = sql_date t @ '' '' @ sql_clock t"

text \<open>A text that SQLite stores as a number in a column of numeric affinity: a well-formed integer or
  real literal, with spaces around it. The column \<open>scheduled_at\<close> is one, being declared \<open>DATETIME\<close>.\<close>

definition sql_space :: "char \<Rightarrow> bool" where
  "sql_space c = (c \<in> {CHR '' '', CHR 0x09, CHR 0x0A, CHR 0x0B, CHR 0x0C, CHR 0x0D})"

definition skip_digits :: "string \<Rightarrow> bool \<times> string" where
  "skip_digits s = (let d = takeWhile is_digit s in (d \<noteq> [], dropWhile is_digit s))"

definition skip_sign :: "string \<Rightarrow> string" where
  "skip_sign s = (case s of c # r \<Rightarrow> if c = CHR ''-'' \<or> c = CHR ''+'' then r else s | [] \<Rightarrow> [])"

definition numeric_text :: "string \<Rightarrow> bool" where
  "numeric_text s0 =
     (let s = skip_sign (dropWhile sql_space s0);
          (whole, s) = skip_digits s;
          (frac, s) = (case s of c # r \<Rightarrow> if c = CHR ''.'' then skip_digits r else (False, s) | [] \<Rightarrow> (False, s));
          (good, s) = (case s of
             c # r \<Rightarrow> if c = CHR ''e'' \<or> c = CHR ''E'' then skip_digits (skip_sign r) else (True, s)
           | [] \<Rightarrow> (True, s))
      in (whole \<or> frac) \<and> good \<and> list_all sql_space s)"

text \<open>\<open>scheduled_at <= CURRENT_TIMESTAMP\<close>: a number sorts before every text, and a null is
  never due.\<close>

definition due :: "instant \<Rightarrow> string option \<Rightarrow> bool" where
  "due now sched =
     (case sched of None \<Rightarrow> False | Some s \<Rightarrow> numeric_text s \<or> str_le s (sql_timestamp now))"

section \<open>The table\<close>

datatype job_status = Pending | Running | Completed | FailedJob | Cancelled

fun status_name :: "job_status \<Rightarrow> string" where
  "status_name Pending = ''pending''"
| "status_name Running = ''running''"
| "status_name Completed = ''completed''"
| "status_name FailedJob = ''failed''"
| "status_name Cancelled = ''cancelled''"

record job_row =
  jb_id :: int
  jb_type :: string
  jb_payload :: string
  jb_status :: job_status
  jb_attempts :: int
  jb_max :: int
  jb_result :: string
  jb_error :: string
  jb_scheduled :: "string option"
  jb_started :: "string option"
  jb_completed :: "string option"
  jb_created :: string

text \<open>The table, once \<open>EnsureJobsTable\<close> has run, with the next value of its \<open>AUTOINCREMENT\<close> key.\<close>

record jobs_db =
  jd_rows :: "job_row list"
  jd_next :: int

definition ensure_jobs_table :: "jobs_db option \<Rightarrow> jobs_db" where
  "ensure_jobs_table d = (case d of Some db \<Rightarrow> db | None \<Rightarrow> \<lparr>jd_rows = [], jd_next = 1\<rparr>)"

definition insert_job :: "instant \<Rightarrow> string \<Rightarrow> string \<Rightarrow> int \<Rightarrow> string \<Rightarrow> jobs_db \<Rightarrow> jobs_db" where
  "insert_job now ty payload mx sched d =
     d\<lparr>jd_rows := jd_rows d @ [\<lparr>jb_id = jd_next d, jb_type = ty, jb_payload = payload, jb_status = Pending,
         jb_attempts = 0, jb_max = mx, jb_result = [], jb_error = [], jb_scheduled = Some sched,
         jb_started = None, jb_completed = None, jb_created = sql_timestamp now\<rparr>],
       jd_next := jd_next d + 1\<rparr>"

definition update_job :: "int \<Rightarrow> (job_row \<Rightarrow> bool) \<Rightarrow> (job_row \<Rightarrow> job_row) \<Rightarrow> jobs_db \<Rightarrow> jobs_db" where
  "update_job i P f d = d\<lparr>jd_rows := map (\<lambda>r. if jb_id r = i \<and> P r then f r else r) (jd_rows d)\<rparr>"

definition affected :: "int \<Rightarrow> (job_row \<Rightarrow> bool) \<Rightarrow> jobs_db \<Rightarrow> nat" where
  "affected i P d = length (filter (\<lambda>r. jb_id r = i \<and> P r) (jd_rows d))"

definition find_job :: "int \<Rightarrow> jobs_db \<Rightarrow> job_row option" where
  "find_job i d = find (\<lambda>r. jb_id r = i) (jd_rows d)"

section \<open>The tool\<close>

definition job_types :: "string list" where
  "job_types = [''send_email'', ''http_request'', ''run_sql'', ''custom'']"

definition clamp_attempts :: "int \<Rightarrow> int" where
  "clamp_attempts n = (let n = (if n < 1 then 1 else n) in if n > 10 then 10 else n)"

definition job_enqueue :: "instant \<Rightarrow> jobs_db option action_handler" where
  "job_enqueue now args st =
     (case require_string args ''type'' of
        Inl e \<Rightarrow> (e, st)
      | Inr ty \<Rightarrow>
         if ty \<notin> set job_types
         then (error_result ''type must be one of: send_email, http_request, run_sql, custom'', st)
         else
           (let payload = optional_string args ''payload'' ''{}'';
                sched = optional_string args ''scheduled_at'' [];
                mx = clamp_attempts (optional_int args ''max_attempts'' 3);
                d = ensure_jobs_table st
            in (ok_result (JObj [(''id'', JNum (of_int (jd_next d))), (''type'', JStr ty),
                  (''status'', JStr ''pending''), (''max_attempts'', JNum (of_int mx))]),
                Some (insert_job now ty payload mx (if sched \<noteq> [] then sched else sql_timestamp now) d))))"

text \<open>\<open>show_time\<close> is the text the database driver gives for a \<open>DATETIME\<close> column.\<close>

definition job_data :: "(string \<Rightarrow> string) \<Rightarrow> job_row \<Rightarrow> json" where
  "job_data show_time r =
     JObj ([(''id'', JNum (of_int (jb_id r))), (''type'', JStr (jb_type r)),
            (''status'', JStr (status_name (jb_status r))), (''attempts'', JNum (of_int (jb_attempts r))),
            (''max_attempts'', JNum (of_int (jb_max r)))]
       @ (if jb_result r \<noteq> [] then [(''result'', JStr (jb_result r))] else [])
       @ (if jb_error r \<noteq> [] then [(''error'', JStr (jb_error r))] else [])
       @ (case jb_scheduled r of Some t \<Rightarrow> [(''scheduled_at'', JStr (show_time t))] | None \<Rightarrow> [])
       @ (case jb_started r of Some t \<Rightarrow> [(''started_at'', JStr (show_time t))] | None \<Rightarrow> [])
       @ (case jb_completed r of Some t \<Rightarrow> [(''completed_at'', JStr (show_time t))] | None \<Rightarrow> []))"

definition job_status :: "(string \<Rightarrow> string) \<Rightarrow> jobs_db option action_handler" where
  "job_status show_time args st =
     (let i = optional_int args ''id'' 0
      in if i \<le> 0 then (error_result ''id is required'', st)
         else (let d = ensure_jobs_table st
               in (case find_job i d of
                     None \<Rightarrow> error_result (''job '' @ itoa i @ '' not found'')
                   | Some r \<Rightarrow> ok_result (job_data show_time r), Some d)))"

definition listed_job :: "(string \<Rightarrow> string) \<Rightarrow> job_row \<Rightarrow> json" where
  "listed_job show_time r =
     JObj ([(''id'', JNum (of_int (jb_id r))), (''type'', JStr (jb_type r)),
            (''status'', JStr (status_name (jb_status r))), (''attempts'', JNum (of_int (jb_attempts r))),
            (''max_attempts'', JNum (of_int (jb_max r))), (''created_at'', JStr (show_time (jb_created r)))]
       @ (if jb_error r \<noteq> [] then [(''error'', JStr (jb_error r))] else []))"

text \<open>\<open>LIMIT n\<close>: a negative number is no limit. The rows are in the order of their keys.\<close>

definition sql_limit :: "int \<Rightarrow> 'a list \<Rightarrow> 'a list" where
  "sql_limit n xs = (if n < 0 then xs else take (nat n) xs)"

definition list_query :: "string \<Rightarrow> string \<Rightarrow> int \<Rightarrow> jobs_db \<Rightarrow> job_row list" where
  "list_query status ty n d =
     sql_limit n (rev (filter (\<lambda>r. (status = [] \<or> status_name (jb_status r) = status)
                                   \<and> (ty = [] \<or> jb_type r = ty)) (jd_rows d)))"

definition job_list :: "(string \<Rightarrow> string) \<Rightarrow> jobs_db option action_handler" where
  "job_list show_time args st =
     (let d = ensure_jobs_table st;
          limit = optional_int args ''limit'' 50;
          rows = list_query (optional_string args ''status'' []) (optional_string args ''type'' [])
                   (if limit > 200 then 200 else limit) d
      in (ok_result (if rows = [] then JNull else JArr (map (listed_job show_time) rows)), Some d))"

definition cancellable :: "job_row \<Rightarrow> bool" where
  "cancellable r = (jb_status r = Pending \<or> jb_status r = Running)"

definition job_cancel :: "jobs_db option action_handler" where
  "job_cancel args st =
     (let i = optional_int args ''id'' 0
      in if i \<le> 0 then (error_result ''id is required'', st)
         else (let d = ensure_jobs_table st
               in if affected i cancellable d = 0
                  then (error_result (''job '' @ itoa i @ '' not found or already completed/cancelled''), Some d)
                  else (ok_result (JObj [(''id'', JNum (of_int i)), (''status'', JStr ''cancelled'')]),
                        Some (update_job i cancellable (\<lambda>r. r\<lparr>jb_status := Cancelled\<rparr>) d))))"

definition jobs_tool :: "instant \<Rightarrow> (string \<Rightarrow> string) \<Rightarrow> jobs_db option action_handler" where
  "jobs_tool now show_time =
     dispatch_action [(''enqueue'', job_enqueue now), (''status'', job_status show_time),
       (''list'', job_list show_time), (''cancel'', job_cancel)] None"

section \<open>Enqueuing from an action\<close>

text \<open>\<open>marshal\<close> is \<open>json.Marshal\<close>, \<open>num_text\<close> the text SQLite shows for a number, \<open>unsupported\<close> the
  driver's error for a value it cannot bind.\<close>

definition bind_schedule :: "(rat \<Rightarrow> string) \<Rightarrow> string \<Rightarrow> json option \<Rightarrow> string + string option" where
  "bind_schedule num_text unsupported v =
     (case v of
        None \<Rightarrow> Inr None | Some JNull \<Rightarrow> Inr None
      | Some (JStr s) \<Rightarrow> Inr (Some s)
      | Some (JNum x) \<Rightarrow> Inr (Some (num_text x))
      | Some (JBool b) \<Rightarrow> Inr (Some (if b then ''1'' else ''0''))
      | _ \<Rightarrow> Inl unsupported)"

definition action_attempts :: "jobj \<Rightarrow> int" where
  "action_attempts config =
     (case get_num_ok config ''max_attempts'' of Some m \<Rightarrow> if m > 0 then rat_to_int m else 3 | None \<Rightarrow> 3)"

definition execute_enqueue_job ::
  "instant \<Rightarrow> (json \<Rightarrow> string) \<Rightarrow> (rat \<Rightarrow> string) \<Rightarrow> string \<Rightarrow> jobj \<Rightarrow> jobs_db option
     \<Rightarrow> string option \<times> jobs_db option" where
  "execute_enqueue_job now marshal num_text unsupported config st =
     (let ty = get_str config ''type'';
          payload = (case map_of config ''payload'' of
                       None \<Rightarrow> JObj [] | Some JNull \<Rightarrow> JObj [] | Some v \<Rightarrow> v)
      in if ty = [] then (Some (''enqueue_job: '' @ [CHR 0x27] @ ''type'' @ [CHR 0x27] @ '' is required''), st)
         else case st of
             None \<Rightarrow> (Some ''enqueue_job: no such table: ho_jobs'', st)
           | Some d \<Rightarrow>
              (case bind_schedule num_text unsupported (map_of config ''scheduled_at'') of
                 Inl e \<Rightarrow> (Some (''enqueue_job: '' @ e), st)
               | Inr sched \<Rightarrow>
                  (None, Some (insert_job now ty (marshal payload) (action_attempts config)
                     (case sched of Some s \<Rightarrow> s | None \<Rightarrow> sql_timestamp now) d))))"

section \<open>Running a job\<close>

record http_job =
  hj_method :: string
  hj_url :: string
  hj_headers :: "(string \<times> string) list"
  hj_body :: string

text \<open>The outside of the worker: the registered mail tool with the state it works on, the errors of
  building and of sending a request or its answer, the error of running a query, the text of a
  decoding error, and the verb \<open>%v\<close> on a header value.\<close>

record 'm job_env =
  je_tools :: "'m registry"
  je_mail :: 'm
  je_bad_request :: "http_job \<Rightarrow> string option"
  je_http :: "http_job \<Rightarrow> string + (int \<times> string)"
  je_query :: "string \<Rightarrow> string option"
  je_json_error :: "string \<Rightarrow> string"
  je_sprint :: "json \<Rightarrow> string"

text \<open>A job ends well, with an error, or in a panic that no one recovers.\<close>

datatype job_outcome = JobDone | JobError string | JobPanic

definition mail_args :: "jobj \<Rightarrow> jobj" where
  "mail_args params =
     (''action'', JStr ''send'')
     # List.map_filter (\<lambda>k. map_option (Pair k) (map_of params k))
         [''to'', ''subject'', ''body_html'', ''body_text'', ''template_name'', ''template_vars'']"

definition execute_send_email :: "'m job_env \<Rightarrow> jobj \<Rightarrow> job_outcome" where
  "execute_send_email en params =
     (case reg_get (je_tools en) ''manage_email'' of
        Inl _ \<Rightarrow> JobError ''email tool not found''
      | Inr t \<Rightarrow>
         (case fst (tl_execute t (mail_args params) (je_mail en)) of
            ToolError e \<Rightarrow> JobError e
          | ToolResult r \<Rightarrow> if tr_success r then JobDone else JobError (''email send failed: '' @ tr_error r)
          | NilResult \<Rightarrow> JobPanic
          | ToolPanic _ \<Rightarrow> JobPanic))"

definition header_get :: "string \<Rightarrow> (string \<times> string) list \<Rightarrow> string" where
  "header_get name hs =
     (case find (\<lambda>(k, _). to_lower k = name) (rev hs) of Some (_, v) \<Rightarrow> v | None \<Rightarrow> [])"

definition http_request :: "'m job_env \<Rightarrow> jobj \<Rightarrow> http_job" where
  "http_request en params =
     (let meth = get_str params ''method''; body = get_str params ''body'';
          hs = (case get_obj_ok params ''headers'' of
                  Some h \<Rightarrow> map (\<lambda>(k, v). (k, je_sprint en v)) h | None \<Rightarrow> [])
      in \<lparr>hj_method = (if meth = [] then ''GET'' else meth), hj_url = get_str params ''url'',
          hj_headers = (if header_get ''content-type'' hs = [] \<and> body \<noteq> []
                        then hs @ [(''Content-Type'', ''application/json'')] else hs),
          hj_body = body\<rparr>)"

definition execute_http_request :: "'m job_env \<Rightarrow> jobj \<Rightarrow> job_outcome" where
  "execute_http_request en params =
     (let rq = http_request en params
      in if hj_url rq = [] then JobError ''url is required''
         else case je_bad_request en rq of
             Some e \<Rightarrow> JobError (''creating request: '' @ e)
           | None \<Rightarrow>
              (case je_http en rq of
                 Inl e \<Rightarrow> JobError (''request failed: '' @ e)
               | Inr (code, body) \<Rightarrow>
                  if code \<ge> 400 then JobError (''HTTP '' @ itoa code @ '': '' @ take 2048 body) else JobDone))"

definition execute_run_sql :: "'m job_env \<Rightarrow> jobj \<Rightarrow> job_outcome" where
  "execute_run_sql en params =
     (let q = get_str params ''query''
      in if q = [] then JobError ''query is required''
         else if \<not> has_prefix (trim_space (to_upper q)) ''SELECT''
         then JobError ''run_sql only supports SELECT queries''
         else case je_query en q of Some e \<Rightarrow> JobError (''query failed: '' @ e) | None \<Rightarrow> JobDone)"

definition execute_job :: "'m job_env \<Rightarrow> string \<Rightarrow> string \<Rightarrow> job_outcome" where
  "execute_job en ty payload =
     (case unmarshal_object payload of
        None \<Rightarrow> JobError (''invalid payload JSON: '' @ je_json_error en payload)
      | Some params \<Rightarrow>
         if ty = ''send_email'' then execute_send_email en params
         else if ty = ''http_request'' then execute_http_request en params
         else if ty = ''run_sql'' then execute_run_sql en params
         else if ty = ''custom'' then JobDone
         else JobError (''unknown job type: '' @ ty))"

section \<open>The statements of the worker\<close>

definition next_job :: "instant \<Rightarrow> jobs_db \<Rightarrow> job_row option" where
  "next_job now d = find (\<lambda>r. jb_status r = Pending \<and> due now (jb_scheduled r)) (jd_rows d)"

definition is_pending :: "job_row \<Rightarrow> bool" where
  "is_pending r = (jb_status r = Pending)"

definition claim_row :: "instant \<Rightarrow> job_row \<Rightarrow> job_row" where
  "claim_row now r = r\<lparr>jb_status := Running, jb_started := Some (sql_timestamp now), jb_attempts := jb_attempts r + 1\<rparr>"

definition claim_job :: "instant \<Rightarrow> int \<Rightarrow> jobs_db \<Rightarrow> bool \<times> jobs_db" where
  "claim_job now i d = (affected i is_pending d \<noteq> 0, update_job i is_pending (claim_row now) d)"

definition complete_row :: "instant \<Rightarrow> job_row \<Rightarrow> job_row" where
  "complete_row now r = r\<lparr>jb_status := Completed, jb_completed := Some (sql_timestamp now)\<rparr>"

definition complete_job :: "instant \<Rightarrow> int \<Rightarrow> jobs_db \<Rightarrow> jobs_db" where
  "complete_job now i = update_job i (\<lambda>_. True) (complete_row now)"

text \<open>The conversion of a \<open>float64\<close> beyond the range of \<open>int\<close> gives the least integer on amd64.\<close>

definition float_to_int :: "int \<Rightarrow> int" where
  "float_to_int b = (if b \<ge> 2 ^ 63 then - (2 ^ 63) else b)"

definition backoff_secs :: "int \<Rightarrow> int" where
  "backoff_secs attempts = (let b = float_to_int (5 * 2 ^ nat (attempts - 1)) in if b > 300 then 300 else b)"

text \<open>\<open>datetime('now', '+n seconds')\<close>: with a negative number the modifier has two signs, which makes the
  result null.\<close>

definition datetime_after :: "instant \<Rightarrow> int \<Rightarrow> string option" where
  "datetime_after now n = (if n < 0 then None else Some (sql_timestamp (now + n * second_ns)))"

definition retry_row :: "instant \<Rightarrow> string \<Rightarrow> int \<Rightarrow> job_row \<Rightarrow> job_row" where
  "retry_row now e secs r =
     r\<lparr>jb_status := Pending, jb_error := e, jb_scheduled := datetime_after now secs\<rparr>"

definition fail_row :: "instant \<Rightarrow> string \<Rightarrow> job_row \<Rightarrow> job_row" where
  "fail_row now e r = r\<lparr>jb_status := FailedJob, jb_error := e, jb_completed := Some (sql_timestamp now)\<rparr>"

definition handle_failure :: "instant \<Rightarrow> int \<Rightarrow> string \<Rightarrow> jobs_db \<Rightarrow> jobs_db" where
  "handle_failure now i e d =
     (let (attempts, mx) = (case find_job i d of Some r \<Rightarrow> (jb_attempts r, jb_max r) | None \<Rightarrow> (0, 0))
      in if attempts < mx then update_job i (\<lambda>_. True) (retry_row now e (backoff_secs attempts)) d
         else update_job i (\<lambda>_. True) (fail_row now e) d)"

definition finish_job :: "instant \<Rightarrow> int \<Rightarrow> job_outcome \<Rightarrow> jobs_db \<Rightarrow> jobs_db" where
  "finish_job now i out d =
     (case out of JobDone \<Rightarrow> complete_job now i d | JobError e \<Rightarrow> handle_failure now i e d | JobPanic \<Rightarrow> d)"

text \<open>One tick of a worker that nothing interleaves with.\<close>

definition process_pending :: "'m job_env \<Rightarrow> instant \<Rightarrow> jobs_db \<Rightarrow> jobs_db" where
  "process_pending en now d =
     (case next_job now d of
        None \<Rightarrow> d
      | Some r \<Rightarrow>
         (let (ok, d') = claim_job now (jb_id r) d
          in if \<not> ok then d'
             else finish_job now (jb_id r) (execute_job en (jb_type r) (jb_payload r)) d'))"

section \<open>Workers and tool calls, interleaved\<close>

datatype worker_phase =
    Idle
  | Selected int string string
  | Executing int string string

record jobs_state =
  js_db :: "jobs_db option"
  js_workers :: "worker_phase list"

text \<open>Each step is one statement of the code on the table. \<open>Crash\<close> ends the process, with every worker
  in it; the table stays. The outcome of a job is any that does not end the process.\<close>

inductive job_step :: "bool \<Rightarrow> jobs_state \<Rightarrow> jobs_state \<Rightarrow> bool" for crashes where
  Tool: "snd (jobs_tool now show_time args (js_db s)) = db \<Longrightarrow> job_step crashes s (s\<lparr>js_db := db\<rparr>)"
| Action: "snd (execute_enqueue_job now marshal num_text unsupported config (js_db s)) = db \<Longrightarrow>
    job_step crashes s (s\<lparr>js_db := db\<rparr>)"
| Start: "job_step crashes s (s\<lparr>js_db := Some (ensure_jobs_table (js_db s)), js_workers := js_workers s @ [Idle]\<rparr>)"
| Select: "js_db s = Some d \<Longrightarrow> w < length (js_workers s) \<Longrightarrow> js_workers s ! w = Idle \<Longrightarrow>
    next_job now d = Some r \<Longrightarrow>
    job_step crashes s (s\<lparr>js_workers := (js_workers s)[w := Selected (jb_id r) (jb_type r) (jb_payload r)]\<rparr>)"
| Claim: "js_db s = Some d \<Longrightarrow> w < length (js_workers s) \<Longrightarrow> js_workers s ! w = Selected i ty p \<Longrightarrow>
    claim_job now i d = (ok, d') \<Longrightarrow>
    job_step crashes s (s\<lparr>js_db := Some d',
      js_workers := (js_workers s)[w := if ok then Executing i ty p else Idle]\<rparr>)"
| Finish: "js_db s = Some d \<Longrightarrow> w < length (js_workers s) \<Longrightarrow> js_workers s ! w = Executing i ty p \<Longrightarrow>
    out \<noteq> JobPanic \<Longrightarrow>
    job_step crashes s (s\<lparr>js_db := Some (finish_job now i out d), js_workers := (js_workers s)[w := Idle]\<rparr>)"
| Crash: "crashes \<Longrightarrow> job_step crashes s (s\<lparr>js_workers := []\<rparr>)"

inductive job_reach :: "bool \<Rightarrow> jobs_state \<Rightarrow> bool" for crashes where
  Init: "job_reach crashes \<lparr>js_db = None, js_workers = []\<rparr>"
| Step: "job_reach crashes s \<Longrightarrow> job_step crashes s s' \<Longrightarrow> job_reach crashes s'"

text \<open>The jobs being executed.\<close>

fun in_hand :: "worker_phase \<Rightarrow> int list" where
  "in_hand (Executing i ty p) = [i]"
| "in_hand _ = []"

definition executing :: "jobs_state \<Rightarrow> int list" where
  "executing s = concat (map in_hand (js_workers s))"

section \<open>The invariant of the queue\<close>

definition terminal :: "job_status \<Rightarrow> bool" where
  "terminal st = (st = Completed \<or> st = FailedJob \<or> st = Cancelled)"

definition row_ok :: "int list \<Rightarrow> job_row \<Rightarrow> bool" where
  "row_ok busy r =
     (0 \<le> jb_attempts r \<and> jb_attempts r \<le> max 1 (jb_max r)
      \<and> (jb_status r = Pending \<longrightarrow> jb_attempts r = 0 \<or> jb_attempts r < jb_max r)
      \<and> (jb_id r \<in> set busy \<longrightarrow> 1 \<le> jb_attempts r \<and> (jb_status r = Running \<or> jb_status r = Cancelled))
      \<and> (jb_status r = Running \<longrightarrow> 1 \<le> jb_attempts r))"

definition queue_ok :: "int list \<Rightarrow> jobs_db \<Rightarrow> bool" where
  "queue_ok busy d =
     (distinct (map jb_id (jd_rows d)) \<and> list_all (\<lambda>r. jb_id r < jd_next d \<and> row_ok busy r) (jd_rows d)
      \<and> set busy \<subseteq> jb_id ` set (jd_rows d))"

definition state_ok :: "jobs_state \<Rightarrow> bool" where
  "state_ok s = (distinct (executing s)
     \<and> (case js_db s of None \<Rightarrow> executing s = [] | Some d \<Rightarrow> queue_ok (executing s) d))"

lemma ids_update [simp]:
  assumes "\<And>r. jb_id (f r) = jb_id r"
  shows "map jb_id (jd_rows (update_job i P f d)) = map jb_id (jd_rows d)"
  using assms by (simp add: update_job_def comp_def if_distrib cong: if_cong)

lemma next_update [simp]: "jd_next (update_job i P f d) = jd_next d"
  by (simp add: update_job_def)

text \<open>An update keeps the invariant when it keeps it for the rows it touches.\<close>

lemma queue_ok_update:
  assumes "queue_ok busy d" "\<And>r. jb_id (f r) = jb_id r" "set busy' \<subseteq> insert i (set busy)"
    and "\<And>r. r \<in> set (jd_rows d) \<Longrightarrow> jb_id r = i \<Longrightarrow> row_ok busy r \<Longrightarrow> P r \<Longrightarrow> row_ok busy' (f r)"
    and "\<And>r. r \<in> set (jd_rows d) \<Longrightarrow> jb_id r = i \<Longrightarrow> row_ok busy r \<Longrightarrow> \<not> P r \<Longrightarrow> row_ok busy' r"
    and "\<And>j. j \<noteq> i \<Longrightarrow> j \<in> set busy' \<longleftrightarrow> j \<in> set busy"
    and "i \<in> set busy' \<Longrightarrow> i \<in> jb_id ` set (jd_rows d)"
  shows "queue_ok busy' (update_job i P f d)"
proof -
  have other: "row_ok busy' r" if "row_ok busy r" "jb_id r \<noteq> i" for r
    using that assms(6) by (simp add: row_ok_def)
  have "jb_id ` set (jd_rows (update_job i P f d)) = jb_id ` set (jd_rows d)"
    using ids_update [OF assms(2), of i P d] by (metis set_map)
  moreover have "set busy' \<subseteq> jb_id ` set (jd_rows d)"
    using assms(1,3,7) by (auto simp: queue_ok_def)
  moreover have "jb_id r < jd_next d \<and> row_ok busy' r" if "r \<in> set (jd_rows (update_job i P f d))" for r
  proof -
    from that obtain q where q: "q \<in> set (jd_rows d)" "r = (if jb_id q = i \<and> P q then f q else q)"
      by (auto simp: update_job_def)
    with assms(1) have "jb_id q < jd_next d" "row_ok busy q" by (auto simp: queue_ok_def list_all_iff)
    with q assms(2,4,5) other show ?thesis by auto
  qed
  moreover have "distinct (map jb_id (jd_rows (update_job i P f d)))"
    using assms(1) ids_update [OF assms(2), of i P d] by (simp add: queue_ok_def)
  ultimately show ?thesis by (auto simp: queue_ok_def list_all_iff)
qed

lemma queue_ok_ensure: "queue_ok [] \<lparr>jd_rows = [], jd_next = 1\<rparr>"
  by (simp add: queue_ok_def)

lemma queue_ok_insert:
  assumes "queue_ok busy d"
  shows "queue_ok busy (insert_job now ty p mx sched d)"
proof -
  have "jd_next d \<notin> jb_id ` set (jd_rows d)" using assms by (auto simp: queue_ok_def list_all_iff)
  then have "jd_next d \<notin> set busy" using assms by (auto simp: queue_ok_def)
  then have "row_ok busy \<lparr>jb_id = jd_next d, jb_type = ty, jb_payload = p, jb_status = Pending,
         jb_attempts = 0, jb_max = mx, jb_result = [], jb_error = [], jb_scheduled = Some sched,
         jb_started = None, jb_completed = None, jb_created = sql_timestamp now\<rparr>"
    by (simp add: row_ok_def)
  with assms \<open>jd_next d \<notin> jb_id ` set (jd_rows d)\<close> show ?thesis
    by (auto simp: insert_job_def queue_ok_def list_all_iff)
qed

lemma queue_ok_cancel:
  assumes "queue_ok busy d"
  shows "queue_ok busy (update_job i cancellable (\<lambda>r. r\<lparr>jb_status := Cancelled\<rparr>) d)"
  using assms by (intro queue_ok_update [OF assms]) (auto simp: row_ok_def queue_ok_def cancellable_def)

definition db_ok :: "int list \<Rightarrow> jobs_db option \<Rightarrow> bool" where
  "db_ok busy db = (case db of None \<Rightarrow> busy = [] | Some d \<Rightarrow> queue_ok busy d)"

lemma db_ok_ensure: "db_ok busy db \<Longrightarrow> queue_ok busy (ensure_jobs_table db)"
  by (auto simp: db_ok_def ensure_jobs_table_def queue_ok_ensure split: option.splits)

lemma db_ok_tool:
  assumes "db_ok busy db"
  shows "db_ok busy (snd (jobs_tool now show_time args db))"
  using db_ok_ensure [OF assms] assms
  by (auto simp: jobs_tool_def dispatch_action_def Let_def job_enqueue_def job_status_def job_list_def
      job_cancel_def db_ok_def intro: queue_ok_insert queue_ok_cancel split: sum.splits option.splits)

lemma db_ok_action:
  assumes "db_ok busy db"
  shows "db_ok busy (snd (execute_enqueue_job now marshal num_text unsupported config db))"
  using assms
  by (auto simp: execute_enqueue_job_def Let_def db_ok_def intro: queue_ok_insert split: sum.splits option.splits)

text \<open>The statements of the worker.\<close>

lemma claim_simps [simp]: "jb_id (claim_row now r) = jb_id r" "jb_id (complete_row now r) = jb_id r"
  "jb_id (retry_row now e n r) = jb_id r" "jb_id (fail_row now e r) = jb_id r"
  by (simp_all add: claim_row_def complete_row_def retry_row_def fail_row_def)

lemma affected_pending: "affected i P d \<noteq> 0 \<longleftrightarrow> (\<exists>r \<in> set (jd_rows d). jb_id r = i \<and> P r)"
  by (auto simp: affected_def filter_empty_conv)

lemma unique_row:
  "queue_ok busy d \<Longrightarrow> r \<in> set (jd_rows d) \<Longrightarrow> q \<in> set (jd_rows d) \<Longrightarrow> jb_id r = jb_id q \<Longrightarrow> r = q"
  by (auto simp: queue_ok_def distinct_map dest: inj_onD)

lemma find_job_row:
  assumes "queue_ok busy d" "r \<in> set (jd_rows d)"
  shows "find_job (jb_id r) d = Some r"
proof -
  obtain q where q: "find_job (jb_id r) d = Some q" "q \<in> set (jd_rows d)" "jb_id q = jb_id r"
    using assms(2) unfolding find_job_def by (metis (mono_tags, lifting) find_None_iff find_Some_iff not_None_eq nth_mem)
  with unique_row [OF assms(1)] assms(2) show ?thesis by metis
qed

lemma queue_ok_claim:
  assumes ok: "queue_ok busy d" and claim: "claim_job now i d = (True, d')"
  shows "queue_ok (i # busy) d'" "i \<notin> set busy"
proof -
  obtain r where r: "r \<in> set (jd_rows d)" "jb_id r = i" "jb_status r = Pending"
    using claim affected_pending [of i is_pending d] by (auto simp: claim_job_def is_pending_def)
  with ok show "i \<notin> set busy" by (auto simp: queue_ok_def list_all_iff row_ok_def)
  have "is_pending q" if "q \<in> set (jd_rows d)" "jb_id q = i" for q
    using unique_row [OF ok that(1) r(1)] r that by (auto simp: is_pending_def)
  then have "queue_ok (i # busy) (update_job i is_pending (claim_row now) d)"
    using r by (intro queue_ok_update [OF ok])
      (auto simp: row_ok_def is_pending_def claim_row_def intro: rev_image_eqI)
  with claim show "queue_ok (i # busy) d'" by (simp add: claim_job_def)
qed

lemma queue_ok_no_claim:
  assumes "queue_ok busy d" "claim_job now i d = (False, d')"
  shows "d' = d"
proof -
  have "\<not> (jb_id r = i \<and> is_pending r)" if "r \<in> set (jd_rows d)" for r
    using assms(2) that affected_pending [of i is_pending d] by (auto simp: claim_job_def)
  then have "map (\<lambda>r. if jb_id r = i \<and> is_pending r then claim_row now r else r) (jd_rows d) = jd_rows d"
    by (intro map_idI) auto
  with assms(2) show ?thesis by (simp add: claim_job_def update_job_def)
qed

lemma queue_ok_finish:
  assumes ok: "queue_ok busy d" and i: "i \<in> set busy" "i \<notin> set busy'" "set busy = insert i (set busy')"
    and out: "out \<noteq> JobPanic"
  shows "queue_ok busy' (finish_job now i out d)"
proof -
  obtain r where r: "r \<in> set (jd_rows d)" "jb_id r = i" "row_ok busy r"
    using ok i(1) by (auto simp: queue_ok_def list_all_iff)
  have the: "q = r" if "q \<in> set (jd_rows d)" "jb_id q = i" for q
    using unique_row [OF ok that(1) r(1)] r that by auto
  have upd: "queue_ok busy' (update_job i (\<lambda>_. True) f d)"
    if "\<And>q. jb_id (f q) = jb_id q" "row_ok busy' (f r)" for f
    using that i by (intro queue_ok_update [OF ok]) (auto dest: the)
  show ?thesis
  proof (cases out)
    case JobDone
    then show ?thesis using r i upd [of "complete_row now"]
      by (simp add: finish_job_def complete_job_def complete_row_def row_ok_def)
  next
    case (JobError e)
    have "find_job i d = Some r" using find_job_row [OF ok r(1)] r(2) by simp
    with JobError r i show ?thesis
      using upd [of "retry_row now e (backoff_secs (jb_attempts r))"] upd [of "fail_row now e"]
      by (auto simp: finish_job_def handle_failure_def retry_row_def fail_row_def row_ok_def)
  next
    case JobPanic
    with out show ?thesis by simp
  qed
qed

lemma executing_update:
  assumes "w < length ws"
  shows "mset (concat (map in_hand (ws[w := p]))) + mset (in_hand (ws ! w))
    = mset (concat (map in_hand ws)) + mset (in_hand p)"
  using assms
proof (induction ws arbitrary: w)
  case (Cons a ws)
  then show ?case by (cases w) (auto simp: ac_simps)
qed simp

lemma queue_ok_set: "queue_ok busy d \<Longrightarrow> set busy' = set busy \<Longrightarrow> queue_ok busy' d"
  by (simp add: queue_ok_def row_ok_def)

lemma executing_same:
  assumes "w < length (js_workers s)" "in_hand (js_workers s ! w) = []" "in_hand p = []"
  shows "set (executing (s\<lparr>js_workers := (js_workers s)[w := p]\<rparr>)) = set (executing s)"
    "distinct (executing (s\<lparr>js_workers := (js_workers s)[w := p]\<rparr>)) = distinct (executing s)"
proof -
  have eq: "mset (executing (s\<lparr>js_workers := (js_workers s)[w := p]\<rparr>)) = mset (executing s)"
    using executing_update [OF assms(1), of p] assms by (simp add: executing_def)
  then show "set (executing (s\<lparr>js_workers := (js_workers s)[w := p]\<rparr>)) = set (executing s)"
    by (rule mset_eq_setD)
  from eq show "distinct (executing (s\<lparr>js_workers := (js_workers s)[w := p]\<rparr>)) = distinct (executing s)"
    by (rule mset_eq_imp_distinct_iff)
qed

lemma executing_added:
  assumes "w < length (js_workers s)" "in_hand (js_workers s ! w) = []" "in_hand p = [i]"
  shows "set (executing (s\<lparr>js_db := d, js_workers := (js_workers s)[w := p]\<rparr>)) = insert i (set (executing s))"
    "distinct (executing (s\<lparr>js_db := d, js_workers := (js_workers s)[w := p]\<rparr>)) \<longleftrightarrow>
      distinct (i # executing s)"
proof -
  have eq: "mset (executing (s\<lparr>js_db := d, js_workers := (js_workers s)[w := p]\<rparr>)) = mset (i # executing s)"
    using executing_update [OF assms(1), of p] assms by (simp add: executing_def)
  show "set (executing (s\<lparr>js_db := d, js_workers := (js_workers s)[w := p]\<rparr>)) = insert i (set (executing s))"
    using mset_eq_setD [OF eq] by simp
  from eq show "distinct (executing (s\<lparr>js_db := d, js_workers := (js_workers s)[w := p]\<rparr>)) \<longleftrightarrow>
      distinct (i # executing s)" by (rule mset_eq_imp_distinct_iff)
qed

lemma executing_removed:
  assumes "w < length (js_workers s)" "in_hand (js_workers s ! w) = [i]" "in_hand p = []" "distinct (executing s)"
  shows "set (executing s) = insert i (set (executing (s\<lparr>js_db := d, js_workers := (js_workers s)[w := p]\<rparr>)))"
    "distinct (executing (s\<lparr>js_db := d, js_workers := (js_workers s)[w := p]\<rparr>))"
    "i \<notin> set (executing (s\<lparr>js_db := d, js_workers := (js_workers s)[w := p]\<rparr>))"
proof -
  let ?s = "s\<lparr>js_db := d, js_workers := (js_workers s)[w := p]\<rparr>"
  have eq: "mset (i # executing ?s) = mset (executing s)"
    using executing_update [OF assms(1), of p] assms by (simp add: executing_def)
  show "set (executing s) = insert i (set (executing ?s))"
    using mset_eq_setD [OF eq] by simp
  from mset_eq_imp_distinct_iff [OF eq] assms(4) show "distinct (executing ?s)" "i \<notin> set (executing ?s)"
    by simp_all
qed

lemma state_ok_db: "state_ok s \<longleftrightarrow> distinct (executing s) \<and> db_ok (executing s) (js_db s)"
  by (simp add: state_ok_def db_ok_def split: option.split)

lemma state_ok_step: "job_step crashes s s' \<Longrightarrow> state_ok s \<Longrightarrow> state_ok s'"
proof (induction rule: job_step.induct)
  case (Tool now show_time args s db)
  then show ?case using db_ok_tool by (auto simp: state_ok_db executing_def)
next
  case (Action now marshal num_text unsupported config s db)
  then show ?case using db_ok_action by (auto simp: state_ok_db executing_def)
next
  case (Start s)
  then show ?case using db_ok_ensure by (auto simp: state_ok_db executing_def db_ok_def)
next
  case (Select s d w now r)
  let ?p = "Selected (jb_id r) (jb_type r) (jb_payload r)"
  have same: "set (executing (s\<lparr>js_workers := (js_workers s)[w := ?p]\<rparr>)) = set (executing s)"
    "distinct (executing (s\<lparr>js_workers := (js_workers s)[w := ?p]\<rparr>)) = distinct (executing s)"
    using Select executing_same [of w s ?p] by simp_all
  show ?case
    using Select same queue_ok_set [OF _ same(1), of d] by (simp add: state_ok_db db_ok_def)
next
  case (Claim s d w i ty p now ok d')
  show ?case
  proof (cases ok)
    case True
    let ?s = "s\<lparr>js_db := Some d', js_workers := (js_workers s)[w := Executing i ty p]\<rparr>"
    have "queue_ok (executing s) d" using Claim by (simp add: state_ok_db db_ok_def)
    note claim = queue_ok_claim [OF this, of now i d']
    have add: "set (executing ?s) = insert i (set (executing s))" "distinct (executing ?s) = distinct (i # executing s)"
      using Claim executing_added [of w s "Executing i ty p" i "Some d'"] by simp_all
    with claim Claim True show ?thesis
      using queue_ok_set [of "i # executing s" d' "executing ?s"] by (simp add: state_ok_db db_ok_def)
  next
    case False
    let ?s = "s\<lparr>js_workers := (js_workers s)[w := Idle]\<rparr>"
    have ok: "queue_ok (executing s) d" using Claim by (simp add: state_ok_db db_ok_def)
    have "d' = d" using queue_ok_no_claim [OF ok] Claim(4) False by simp
    moreover have same: "set (executing ?s) = set (executing s)" "distinct (executing ?s) = distinct (executing s)"
      using Claim executing_same [of w s Idle] by simp_all
    moreover have "executing (s\<lparr>js_db := Some d, js_workers := (js_workers s)[w := Idle]\<rparr>) = executing ?s"
      by (simp add: executing_def)
    ultimately show ?thesis
      using Claim False queue_ok_set [OF ok same(1)] by (simp add: state_ok_db db_ok_def)
  qed
next
  case (Finish s d w i ty p out now)
  let ?d = "Some (finish_job now i out d)"
  let ?s = "s\<lparr>js_db := ?d, js_workers := (js_workers s)[w := Idle]\<rparr>"
  have ok: "queue_ok (executing s) d" "distinct (executing s)"
    using Finish by (simp_all add: state_ok_db db_ok_def)
  have rem: "set (executing s) = insert i (set (executing ?s))" "distinct (executing ?s)" "i \<notin> set (executing ?s)"
    using executing_removed [of w s i Idle ?d] Finish ok by simp_all
  have "queue_ok (executing ?s) (finish_job now i out d)"
    using queue_ok_finish [OF ok(1) _ rem(3,1) Finish(4)] rem(1) by simp
  with rem show ?case by (simp add: state_ok_db db_ok_def)
next
  case (Crash s)
  then show ?case
    by (auto simp: state_ok_db executing_def db_ok_def queue_ok_def list_all_iff row_ok_def split: option.splits)
qed

lemma reachable_state_ok: "job_reach crashes s \<Longrightarrow> state_ok s"
proof (induction rule: job_reach.induct)
  case Init
  then show ?case by (simp add: state_ok_def executing_def)
next
  case (Step s s')
  then show ?case using state_ok_step by blast
qed

text \<open>C5. Whatever the interleaving of workers, tool calls and enqueuing actions, crashes included: no
  job is executed by two workers at once, a job being executed is marked running or has been
  cancelled meanwhile, and no job is ever started more often than its \<open>max_attempts\<close> (once, for a
  maximum below one).\<close>

theorem job_queue_invariant:
  assumes "job_reach crashes s" "js_db s = Some d"
  shows "distinct (executing s) \<and> distinct (map jb_id (jd_rows d))
    \<and> list_all (\<lambda>r. jb_attempts r \<le> max 1 (jb_max r)
         \<and> (jb_id r \<in> set (executing s) \<longrightarrow> jb_status r = Running \<or> jb_status r = Cancelled)) (jd_rows d)"
  using reachable_state_ok [OF assms(1)] assms(2)
  by (auto simp: state_ok_def queue_ok_def list_all_iff row_ok_def)

section \<open>Settling\<close>

text \<open>Without crashes a running job is in some worker's hand.\<close>

definition attended :: "int list \<Rightarrow> jobs_db option \<Rightarrow> bool" where
  "attended busy db = (case db of None \<Rightarrow> True
     | Some d \<Rightarrow> list_all (\<lambda>r. jb_status r = Running \<longrightarrow> jb_id r \<in> set busy) (jd_rows d))"

lemma attended_insert: "attended busy (Some d) \<Longrightarrow> attended busy (Some (insert_job now ty p mx sched d))"
  by (simp add: attended_def insert_job_def)

lemma attended_update:
  assumes "attended busy (Some d)" "\<And>r. jb_id (f r) = jb_id r" "set busy \<subseteq> insert i (set busy')"
    and "\<And>r. r \<in> set (jd_rows d) \<Longrightarrow> jb_id r = i \<Longrightarrow>
      jb_status (if P r then f r else r) = Running \<Longrightarrow> i \<in> set busy'"
  shows "attended busy' (Some (update_job i P f d))"
proof -
  have "jb_id r \<in> set busy'" if "r \<in> set (jd_rows (update_job i P f d))" "jb_status r = Running" for r
  proof -
    from that obtain q where q: "q \<in> set (jd_rows d)" "r = (if jb_id q = i \<and> P q then f q else q)"
      by (auto simp: update_job_def)
    show ?thesis
    proof (cases "jb_id q = i")
      case True
      with q that(2) assms(2,4) [of q] show ?thesis by (auto split: if_splits)
    next
      case False
      with q that(2) assms(1,3) show ?thesis by (auto simp: attended_def list_all_iff)
    qed
  qed
  then show ?thesis by (simp add: attended_def list_all_iff)
qed

lemma attended_ensure: "attended busy db \<Longrightarrow> attended busy (Some (ensure_jobs_table db))"
  by (simp add: attended_def ensure_jobs_table_def split: option.splits)

lemma attended_tool: "attended busy db \<Longrightarrow> attended busy (snd (jobs_tool now show_time args db))"
  using attended_ensure [of busy db]
  by (auto simp: jobs_tool_def dispatch_action_def Let_def job_enqueue_def job_status_def job_list_def
      job_cancel_def intro: attended_insert intro!: attended_update split: sum.splits option.splits)
    (auto simp: attended_def list_all_iff cancellable_def split: if_splits)

lemma attended_action:
  "attended busy db \<Longrightarrow> attended busy (snd (execute_enqueue_job now marshal num_text unsupported config db))"
  by (auto simp: execute_enqueue_job_def Let_def intro: attended_insert split: sum.splits option.splits)

lemma attended_set: "attended busy db \<Longrightarrow> set busy \<subseteq> set busy' \<Longrightarrow> attended busy' db"
  by (auto simp: attended_def list_all_iff split: option.splits)

lemma attended_claim:
  "attended busy (Some d) \<Longrightarrow> attended (i # busy) (Some (update_job i is_pending (claim_row now) d))"
  by (rule attended_update) auto

lemma attended_finish:
  assumes "attended busy (Some d)" "set busy = insert i (set busy')" "out \<noteq> JobPanic"
  shows "attended busy' (Some (finish_job now i out d))"
  using assms
  by (cases out) (auto simp: finish_job_def complete_job_def handle_failure_def Let_def split_beta
      complete_row_def retry_row_def fail_row_def intro!: attended_update)

lemma attended_step:
  "job_step False s s' \<Longrightarrow> state_ok s \<Longrightarrow> attended (executing s) (js_db s) \<Longrightarrow> attended (executing s') (js_db s')"
proof (induction rule: job_step.induct)
  case (Tool now show_time args s db)
  then show ?case using attended_tool by (auto simp: executing_def)
next
  case (Action now marshal num_text unsupported config s db)
  then show ?case using attended_action by (auto simp: executing_def)
next
  case (Start s)
  then show ?case using attended_ensure by (auto simp: executing_def)
next
  case (Select s d w now r)
  then show ?case
    using executing_same [of w s "Selected (jb_id r) (jb_type r) (jb_payload r)"]
      attended_set [of "executing s" "js_db s"] by simp
next
  case (Claim s d w i ty p now ok d')
  show ?case
  proof (cases ok)
    case True
    with Claim show ?thesis
      using executing_added [of w s "Executing i ty p" i "Some d'"] attended_claim [of "executing s" d i now]
        attended_set [of "i # executing s" "Some d'"] by (auto simp: claim_job_def)
  next
    case False
    have "d' = d" using queue_ok_no_claim Claim False by (auto simp: state_ok_db db_ok_def)
    moreover have "set (executing (s\<lparr>js_db := Some d, js_workers := (js_workers s)[w := Idle]\<rparr>)) = set (executing s)"
      using Claim executing_same(1) [of w s Idle] by (simp add: executing_def)
    ultimately show ?thesis using Claim False attended_set by auto
  qed
next
  case (Finish s d w i ty p out now)
  then show ?case
    using executing_removed [of w s i Idle "Some (finish_job now i out d)"] attended_finish
    by (simp add: state_ok_db)
next
  case (Crash s)
  then show ?case by simp
qed

lemma reachable_attended: "job_reach False s \<Longrightarrow> attended (executing s) (js_db s)"
proof (induction rule: job_reach.induct)
  case Init
  then show ?case by (simp add: attended_def)
next
  case (Step s s')
  then show ?case using attended_step reachable_state_ok by blast
qed


text \<open>One tick with a due job strictly decreases the attempts left, unless the job panics; so with no new
  jobs the queue is worked off.\<close>

definition attempts_left :: "job_row \<Rightarrow> nat" where
  "attempts_left r = (if jb_status r = Pending then nat (max 1 (jb_max r) - jb_attempts r) else 0)"

definition work_left :: "jobs_db \<Rightarrow> nat" where
  "work_left d = sum_list (map attempts_left (jd_rows d))"

lemma work_left_update:
  assumes "distinct (map jb_id (jd_rows d))" "r \<in> set (jd_rows d)" "jb_id r = i" "P r"
  shows "work_left (update_job i P f d) + attempts_left r = work_left d + attempts_left (f r)"
proof -
  have "sum_list (map attempts_left (map (\<lambda>q. if jb_id q = i \<and> P q then f q else q) rows)) + attempts_left r
      = sum_list (map attempts_left rows) + attempts_left (f r)"
    if "distinct (map jb_id rows)" "r \<in> set rows" for rows
    using that
  proof (induction rows)
    case (Cons q rows)
    show ?case
    proof (cases "q = r")
      case True
      then have "map (\<lambda>q. if jb_id q = i \<and> P q then f q else q) rows = rows"
        using Cons.prems(1) assms(3) by (intro map_idI) (force simp: image_iff)
      with True assms(3,4) show ?thesis by (simp add: comp_def)
    next
      case False
      with Cons.prems assms(3) have "jb_id q \<noteq> i" by auto
      with False Cons show ?thesis by (simp add: comp_def)
    qed
  qed simp
  with assms show ?thesis by (simp add: work_left_def update_job_def)
qed

lemma claimed:
  assumes "queue_ok [] d" "next_job now d = Some r"
  defines "d' \<equiv> update_job (jb_id r) is_pending (claim_row now) d"
  shows "r \<in> set (jd_rows d)" "is_pending r" "claim_job now (jb_id r) d = (True, d')"
    "queue_ok [jb_id r] d'" "claim_row now r \<in> set (jd_rows d')" "work_left d' + attempts_left r = work_left d"
proof -
  show r: "r \<in> set (jd_rows d)" and p: "is_pending r"
    using assms(2) unfolding next_job_def is_pending_def by (auto simp: find_Some_iff)
  then show c: "claim_job now (jb_id r) d = (True, d')"
    using affected_pending [of "jb_id r" is_pending d] by (auto simp: claim_job_def d'_def)
  from queue_ok_claim(1) [OF assms(1) c] show "queue_ok [jb_id r] d'" .
  show "claim_row now r \<in> set (jd_rows d')"
    using r p by (force simp: d'_def update_job_def)
  show "work_left d' + attempts_left r = work_left d"
    using work_left_update [of d r "jb_id r" is_pending "claim_row now"] r p assms(1)
    by (simp add: d'_def queue_ok_def attempts_left_def claim_row_def)
qed

text \<open>C6. The queue is worked off: on a table that meets the invariant, a tick with a due job whose run
  does not panic uses up at least one of the attempts left, so after at most \<open>work_left d\<close> such
  ticks no job is due, however the jobs end; a tick without a due job changes nothing.\<close>

theorem process_pending_uses_attempts:
  assumes "queue_ok [] d"
    and "list_all (\<lambda>r. execute_job en (jb_type r) (jb_payload r) \<noteq> JobPanic) (jd_rows d)"
  shows "queue_ok [] (process_pending en now d)
    \<and> (if next_job now d = None then process_pending en now d = d
       else work_left (process_pending en now d) < work_left d)"
proof (cases "next_job now d")
  case None
  with assms show ?thesis by (simp add: process_pending_def)
next
  case (Some r)
  define d' where "d' = update_job (jb_id r) is_pending (claim_row now) d"
  note c = claimed [OF assms(1) Some, folded d'_def]
  let ?out = "execute_job en (jb_type r) (jb_payload r)" and ?q = "claim_row now r"
  have out: "?out \<noteq> JobPanic" using assms(2) c(1) by (auto simp: list_all_iff)
  have tick: "process_pending en now d = finish_job now (jb_id r) ?out d'"
    using Some c(3) by (simp add: process_pending_def)
  have "queue_ok [] (finish_job now (jb_id r) ?out d')"
    by (rule queue_ok_finish [OF c(4) _ _ _ out]) simp_all
  moreover have upd: "work_left (update_job (jb_id r) (\<lambda>_. True) f d') = work_left d' + attempts_left (f ?q)" for f
    using work_left_update [of d' ?q "jb_id r" "\<lambda>_. True" f] c(4,5)
    by (simp add: queue_ok_def attempts_left_def claim_row_def)
  have left: "0 < attempts_left r"
    using assms(1) c(1,2) by (auto simp: attempts_left_def is_pending_def queue_ok_def list_all_iff row_ok_def)
  have found: "find_job (jb_id r) d' = Some ?q" using find_job_row [OF c(4,5)] by simp
  have "work_left (finish_job now (jb_id r) ?out d') < work_left d"
  proof (cases ?out)
    case JobDone
    then show ?thesis
      using upd [of "complete_row now"] c(6) left
      by (simp add: finish_job_def complete_job_def attempts_left_def complete_row_def)
  next
    case (JobError e)
    show ?thesis
    proof (cases "jb_attempts ?q < jb_max ?q")
      case True
      then have "attempts_left (retry_row now e n ?q) < attempts_left r" for n
        using c(2) by (simp add: attempts_left_def retry_row_def claim_row_def is_pending_def)
      from this [of "backoff_secs (jb_attempts ?q)"] JobError True found c(6)
        upd [of "retry_row now e (backoff_secs (jb_attempts ?q))"] show ?thesis
        by (simp add: finish_job_def handle_failure_def)
    next
      case False
      with JobError found upd [of "fail_row now e"] c(6) left show ?thesis
        by (simp add: finish_job_def handle_failure_def attempts_left_def fail_row_def)
    qed
  next
    case JobPanic
    with out show ?thesis by simp
  qed
  ultimately show ?thesis using Some tick by simp
qed

section \<open>What cancelling, crashing, scheduling and listing do\<close>

lemma find_update:
  assumes "queue_ok busy d" "r \<in> set (jd_rows d)" "jb_id r = i" "\<And>r. jb_id (f r) = jb_id r"
  shows "find_job i (update_job i P f d) = Some (if P r then f r else r)"
proof -
  have "find_job i (update_job i P f d) = map_option (\<lambda>r. if jb_id r = i \<and> P r then f r else r) (find_job i d)"
  proof -
    have "find (\<lambda>r. jb_id r = i) (map (\<lambda>r. if jb_id r = i \<and> P r then f r else r) rows)
        = map_option (\<lambda>r. if jb_id r = i \<and> P r then f r else r) (find (\<lambda>r. jb_id r = i) rows)" for rows
      using assms(4) by (induction rows) auto
    then show ?thesis by (simp add: find_job_def update_job_def)
  qed
  with find_job_row [OF assms(1,2)] assms(3) show ?thesis by simp
qed

text \<open>Cancelling a job that is running does not hold: the tool reports success and marks the row, but
  the worker that has the job in hand writes its outcome without looking, so the job ends completed,
  or returns to the queue with its attempts as they were and is executed again.\<close>

theorem cancelled_running_job_revives:
  assumes "queue_ok busy d" "r \<in> set (jd_rows d)" "jb_status r = Running" "jb_attempts r < jb_max r"
    and "optional_int args ''id'' 0 = jb_id r" "0 < jb_id r"
  shows "\<exists>d'. job_cancel args (Some d)
        = (ok_result (JObj [(''id'', JNum (of_int (jb_id r))), (''status'', JStr ''cancelled'')]), Some d')
      \<and> map_option jb_status (find_job (jb_id r) d') = Some Cancelled
      \<and> map_option jb_status (find_job (jb_id r) (finish_job now (jb_id r) JobDone d')) = Some Completed
      \<and> map_option jb_status (find_job (jb_id r) (finish_job now (jb_id r) (JobError e) d')) = Some Pending"
proof -
  let ?i = "jb_id r" and ?f = "\<lambda>r. r\<lparr>jb_status := Cancelled\<rparr>"
  let ?d = "update_job ?i cancellable ?f d"
  have c: "cancellable r" using assms(3) by (simp add: cancellable_def)
  then have some: "affected ?i cancellable d \<noteq> 0" using affected_pending assms(2) by blast
  have q: "?f r \<in> set (jd_rows ?d)" using assms(2) c by (force simp: update_job_def)
  have ok: "queue_ok busy ?d" by (rule queue_ok_cancel [OF assms(1)])
  note upd = find_update [OF ok q, where i = ?i and P = "\<lambda>_. True", simplified]
  have here: "find_job ?i ?d = Some (?f r)" using find_job_row [OF ok q] by simp
  show ?thesis
    using assms(4-6) some here upd [of "complete_row now"] upd [of "retry_row now e (backoff_secs (jb_attempts r))"]
    by (intro exI [of _ ?d]) (simp add: job_cancel_def ensure_jobs_table_def finish_job_def complete_job_def
        handle_failure_def complete_row_def retry_row_def Let_def)
qed

text \<open>What one statement does to a row whose job is not in a worker's hand.\<close>

definition settled_as :: "int \<Rightarrow> int \<Rightarrow> jobs_db option \<Rightarrow> bool" where
  "settled_as i a db = (\<exists>d r. db = Some d \<and> r \<in> set (jd_rows d) \<and> jb_id r = i \<and> jb_attempts r = a
     \<and> (jb_status r = Running \<or> jb_status r = Cancelled))"

lemma settled_update:
  assumes "settled_as i a (Some d)"
    and "\<And>r. jb_id r = j \<Longrightarrow> P r \<Longrightarrow> jb_id r = i \<Longrightarrow> jb_status r = Running \<or> jb_status r = Cancelled \<Longrightarrow>
      jb_id (f r) = i \<and> jb_attempts (f r) = jb_attempts r \<and> (jb_status (f r) = Running \<or> jb_status (f r) = Cancelled)"
  shows "settled_as i a (Some (update_job j P f d))"
proof -
  obtain r where r: "r \<in> set (jd_rows d)" "jb_id r = i" "jb_attempts r = a"
    "jb_status r = Running \<or> jb_status r = Cancelled"
    using assms(1) by (auto simp: settled_as_def)
  let ?r = "if jb_id r = j \<and> P r then f r else r"
  have "?r \<in> set (jd_rows (update_job j P f d))" using r(1) by (force simp: update_job_def)
  moreover have "jb_id ?r = i \<and> jb_attempts ?r = a \<and> (jb_status ?r = Running \<or> jb_status ?r = Cancelled)"
    using assms(2) [of r] r by auto
  ultimately show ?thesis unfolding settled_as_def by blast
qed

lemma settled_insert: "settled_as i a (Some d) \<Longrightarrow> settled_as i a (Some (insert_job now ty p mx sched d))"
  by (auto simp: settled_as_def insert_job_def)

lemma settled_tool: "settled_as i a db \<Longrightarrow> settled_as i a (snd (jobs_tool now show_time args db))"
  by (cases db)
    (auto simp: settled_as_def [of i a None] jobs_tool_def dispatch_action_def Let_def job_enqueue_def job_status_def
      job_list_def job_cancel_def ensure_jobs_table_def intro: settled_insert intro!: settled_update
      split: sum.splits option.splits)

lemma settled_action:
  "settled_as i a db \<Longrightarrow> settled_as i a (snd (execute_enqueue_job now marshal num_text unsupported config db))"
  by (cases db)
    (auto simp: settled_as_def [of i a None] execute_enqueue_job_def Let_def intro: settled_insert
      split: sum.splits option.splits)

lemma settled_step:
  "job_step crashes s s' \<Longrightarrow> state_ok s \<Longrightarrow> settled_as i a (js_db s) \<Longrightarrow> i \<notin> set (executing s) \<Longrightarrow>
   settled_as i a (js_db s') \<and> i \<notin> set (executing s')"
proof (induction rule: job_step.induct)
  case (Tool now show_time args s db)
  then show ?case using settled_tool by (auto simp: executing_def)
next
  case (Action now marshal num_text unsupported config s db)
  then show ?case using settled_action by (auto simp: executing_def)
next
  case (Start s)
  then show ?case by (auto simp: executing_def ensure_jobs_table_def settled_as_def)
next
  case (Select s d w now r)
  then show ?case
    using executing_same [of w s "Selected (jb_id r) (jb_type r) (jb_payload r)"] by simp
next
  case (Claim s d w j ty p now ok d')
  have ok_d: "queue_ok (executing s) d" using Claim by (simp add: state_ok_db db_ok_def)
  have "settled_as i a (Some d')"
    using Claim settled_update [of i a d j is_pending "claim_row now"]
    by (auto simp: claim_job_def is_pending_def)
  moreover have "i \<noteq> j" if ok
  proof
    assume "i = j"
    obtain r where r: "r \<in> set (jd_rows d)" "jb_id r = j" "jb_status r = Pending"
      using Claim(4) \<open>ok\<close> affected_pending [of j is_pending d] by (auto simp: claim_job_def is_pending_def)
    obtain q where "q \<in> set (jd_rows d)" "jb_id q = i" "jb_status q = Running \<or> jb_status q = Cancelled"
      using Claim by (auto simp: settled_as_def)
    with unique_row [OF ok_d r(1)] r \<open>i = j\<close> show False by force
  qed
  ultimately show ?case
    using Claim executing_added(1) [of w s "Executing j ty p" j "Some d'"] executing_same(1) [of w s Idle]
    by (cases ok) (auto simp: executing_def)
next
  case (Finish s d w j ty p out now)
  have "j \<in> set (executing s)"
    using Finish executing_removed(1) [of w s j Idle "Some d"] by (simp add: state_ok_db)
  then have "i \<noteq> j" using Finish by blast
  have upd: "settled_as i a (Some (update_job j (\<lambda>_. True) f d))" for f
    using Finish \<open>i \<noteq> j\<close> by (intro settled_update) auto
  have "settled_as i a (Some (finish_job now j out d))"
    using Finish upd
    by (cases out) (simp_all add: finish_job_def complete_job_def handle_failure_def Let_def split_beta)
  then show ?case
    using Finish executing_removed(1) [of w s j Idle "Some (finish_job now j out d)"] by (simp add: state_ok_db)
next
  case (Crash s)
  then show ?case by (auto simp: executing_def)
qed

text \<open>A job that was running when the process ended is lost: nothing that happens later executes it
  again or takes it from \<open>running\<close>, except a cancellation; its remaining attempts are never used.\<close>

theorem interrupted_job_is_lost:
  assumes "job_reach True s" "js_db s = Some d" "r \<in> set (jd_rows d)" "jb_status r = Running"
    and "jb_id r \<notin> set (executing s)" "(job_step True)\<^sup>*\<^sup>* s s'"
  shows "jb_id r \<notin> set (executing s')
    \<and> (\<exists>d' r'. js_db s' = Some d' \<and> r' \<in> set (jd_rows d') \<and> jb_id r' = jb_id r
         \<and> jb_attempts r' = jb_attempts r \<and> (jb_status r' = Running \<or> jb_status r' = Cancelled))"
proof -
  from assms(6) have "state_ok s' \<and> settled_as (jb_id r) (jb_attempts r) (js_db s') \<and> jb_id r \<notin> set (executing s')"
  proof (induction rule: rtranclp_induct)
    case base
    then show ?case using reachable_state_ok [OF assms(1)] assms(2-5) by (auto simp: settled_as_def)
  next
    case (step y z)
    then show ?case using state_ok_step settled_step by blast
  qed
  then show ?thesis by (auto simp: settled_as_def)
qed

text \<open>A date is not a number for SQLite, and no later text on the same day comes before it.\<close>

lemma date_not_numeric:
  assumes "list_all is_digit ds" "ds \<noteq> []"
  shows "\<not> numeric_text (ds @ CHR ''-'' # rest)"
proof -
  obtain c cs where ds: "ds = c # cs" using assms(2) by (cases ds) auto
  with assms(1) have c: "is_digit c" "\<not> sql_space c" by (auto simp: sql_space_def is_digit_def)
  have tw: "takeWhile is_digit (ds @ CHR ''-'' # rest) = ds" "dropWhile is_digit (ds @ CHR ''-'' # rest) = CHR ''-'' # rest"
    using assms(1) by (simp_all add: takeWhile_append list_all_iff dropWhile_append is_digit_def)
  have "dropWhile sql_space (ds @ CHR ''-'' # rest) = ds @ CHR ''-'' # rest" using ds c by simp
  moreover have "skip_sign (ds @ CHR ''-'' # rest) = ds @ CHR ''-'' # rest"
    using ds c digit_not_sign [of c] by (simp add: skip_sign_def)
  ultimately show ?thesis
    using tw by (simp add: numeric_text_def skip_digits_def Let_def sql_space_def)
qed

lemma str_le_prefix: "str_le (p @ s) (p @ t) = str_le s t"
  by (induction p) simp_all

lemma four_digits_digits: "0 \<le> n \<Longrightarrow> list_all is_digit (four_digits n) \<and> four_digits n \<noteq> []"
  using nat_digits_digits [of "nat n"]
  by (auto simp: four_digits_def itoa_def is_digit_def)

text \<open>A job scheduled with an ISO time, as the tool's guide and the action's example ask for, is not run
  on the day it is scheduled for: the separator \<open>T\<close> sorts after the blank that SQLite writes, so the
  text is later than every moment of its day.\<close>

theorem iso_schedule_waits_a_day:
  assumes "sql_date now = sql_date day" "0 \<le> t_year 0 day"
  shows "\<not> due now (Some (sql_date day @ ''T'' @ clock))"
proof -
  have "\<not> numeric_text (sql_date day @ ''T'' @ clock)"
    using date_not_numeric [of "four_digits (t_year 0 day)"] four_digits_digits [OF assms(2)]
    by (simp add: sql_date_def)
  moreover have "\<not> str_le (sql_date day @ ''T'' @ clock) (sql_timestamp now)"
    unfolding sql_timestamp_def assms(1) by (simp add: str_le_prefix)
  ultimately show ?thesis by (simp add: due_def)
qed

text \<open>The cap of 200 on a listing does not hold for a negative limit, which SQLite reads as no limit.\<close>

theorem job_list_limit:
  assumes "optional_int args ''limit'' 50 = n"
  shows "(0 \<le> n \<longrightarrow> length (list_query st ty (if n > 200 then 200 else n) d) \<le> 200)
    \<and> (n < 0 \<longrightarrow> get_str_ok args ''status'' = None \<longrightarrow> get_str_ok args ''type'' = None \<longrightarrow> jd_rows d \<noteq> [] \<longrightarrow>
        job_list show_time args (Some d) = (ok_result (JArr (map (listed_job show_time) (rev (jd_rows d)))), Some d))"
  using assms
  by (auto simp: job_list_def list_query_def sql_limit_def optional_string_def ensure_jobs_table_def Let_def)

text \<open>The delays between attempts, while the numbers fit: 5, 10, 20, ... up to five minutes.\<close>

lemma backoff_bounds:
  assumes "1 \<le> a" "a \<le> 61"
  shows "backoff_secs a = min 300 (5 * 2 ^ nat (a - 1))" "5 \<le> backoff_secs a" "backoff_secs a \<le> 300"
proof -
  have "(2::int) ^ nat (a - 1) \<le> 2 ^ 60" using assms by (intro power_increasing) auto
  moreover have "(1::int) \<le> 2 ^ nat (a - 1)" by simp
  ultimately show "backoff_secs a = min 300 (5 * 2 ^ nat (a - 1))" "5 \<le> backoff_secs a" "backoff_secs a \<le> 300"
    by (auto simp: backoff_secs_def float_to_int_def Let_def)
qed

text \<open>An action may ask for more attempts than the tool allows; after the 62nd failure the delay
  overflows, and the job waits for ever.\<close>

lemma delay_overflow: "\<not> due now (jb_scheduled (retry_row now' e (backoff_secs 62) r))"
  by (simp add: backoff_secs_def float_to_int_def retry_row_def datetime_after_def due_def)

section \<open>A concrete queue\<close>

definition demo_queue :: jobs_db where
  "demo_queue = insert_job 0 ''custom'' ''{}'' 3 (sql_timestamp 0) \<lparr>jd_rows = [], jd_next = 1\<rparr>"

definition demo_row :: job_row where "demo_row = hd (jd_rows demo_queue)"

definition demo_claimed :: jobs_db where
  "demo_claimed = \<lparr>jd_rows = [claim_row 0 demo_row], jd_next = 2\<rparr>"

definition demo_waiting :: jobs_state where
  "demo_waiting = \<lparr>js_db = Some demo_queue, js_workers = [Idle]\<rparr>"

definition demo_busy :: jobs_state where
  "demo_busy = \<lparr>js_db = Some demo_claimed, js_workers = [Executing 1 ''custom'' ''{}'']\<rparr>"

lemma demo_waiting_reach: "job_reach crashes demo_waiting"
proof -
  have "job_reach crashes \<lparr>js_db = Some \<lparr>jd_rows = [], jd_next = 1\<rparr>, js_workers = [Idle]\<rparr>"
    using job_reach.Step [OF job_reach.Init job_step.Start] by (simp add: ensure_jobs_table_def)
  moreover have "snd (jobs_tool 0 id [(''action'', JStr ''enqueue''), (''type'', JStr ''custom'')]
      (Some \<lparr>jd_rows = [], jd_next = 1\<rparr>)) = Some demo_queue"
    by code_simp
  ultimately show ?thesis
    using job_reach.Step job_step.Tool [of 0 id "[(''action'', JStr ''enqueue''), (''type'', JStr ''custom'')]"
      "\<lparr>js_db = Some \<lparr>jd_rows = [], jd_next = 1\<rparr>, js_workers = [Idle]\<rparr>" "Some demo_queue"]
    by (fastforce simp: demo_waiting_def)
qed

lemma demo_busy_reach: "job_reach crashes demo_busy"
proof -
  have next1: "next_job 0 demo_queue = Some demo_row" by code_simp
  have row: "jb_id demo_row = 1" "jb_type demo_row = ''custom''" "jb_payload demo_row = ''{}''" by code_simp+
  have claim: "claim_job 0 1 demo_queue = (True, demo_claimed)" by code_simp
  let ?s = "\<lparr>js_db = Some demo_queue, js_workers = [Selected 1 ''custom'' ''{}'']\<rparr>"
  have "job_step crashes demo_waiting ?s"
    using job_step.Select [of demo_waiting demo_queue 0 0 demo_row] next1 row by (simp add: demo_waiting_def)
  moreover have "job_step crashes ?s demo_busy"
    using job_step.Claim [of ?s demo_queue 0 1 "''custom''" "''{}''" 0 True demo_claimed] claim
    by (simp add: demo_busy_def)
  ultimately show ?thesis using demo_waiting_reach job_reach.Step by blast
qed

lemma job_queue_invariant_witness:
  "distinct (executing demo_busy) \<and> executing demo_busy = [1]
    \<and> jb_attempts (claim_row 0 demo_row) \<le> max 1 (jb_max (claim_row 0 demo_row))
    \<and> (jb_status (claim_row 0 demo_row) = Running \<or> jb_status (claim_row 0 demo_row) = Cancelled)"
proof -
  have busy: "executing demo_busy = [1]" by (simp add: demo_busy_def executing_def)
  have "jb_id (claim_row 0 demo_row) = 1" by code_simp
  with job_queue_invariant [OF demo_busy_reach, of demo_claimed] busy show ?thesis
    by (simp add: demo_busy_def demo_claimed_def)
qed


definition demo_job_env :: "nat job_env" where
  "demo_job_env = \<lparr>je_tools = [], je_mail = 0, je_bad_request = (\<lambda>_. None), je_http = (\<lambda>_. Inr (200, [])),
     je_query = (\<lambda>_. None), je_json_error = id, je_sprint = (\<lambda>_. [])\<rparr>"

lemma demo_queue_ok: "queue_ok [] demo_queue"
  by (simp add: queue_ok_def demo_queue_def insert_job_def row_ok_def)

lemma process_pending_uses_attempts_witness:
  "queue_ok [] (process_pending demo_job_env 0 demo_queue)
    \<and> work_left (process_pending demo_job_env 0 demo_queue) < work_left demo_queue"
proof -
  have "next_job 0 demo_queue = Some demo_row" by code_simp
  moreover have "list_all (\<lambda>r. execute_job demo_job_env (jb_type r) (jb_payload r) \<noteq> JobPanic) (jd_rows demo_queue)"
    by code_simp
  ultimately show ?thesis using process_pending_uses_attempts [OF demo_queue_ok, of demo_job_env 0] by simp
qed

lemma cancelled_running_job_revives_witness:
  "\<exists>d'. job_cancel [(''id'', JNum 1)] (Some demo_claimed)
        = (ok_result (JObj [(''id'', JNum (of_int 1)), (''status'', JStr ''cancelled'')]), Some d')
      \<and> map_option jb_status (find_job 1 d') = Some Cancelled
      \<and> map_option jb_status (find_job 1 (finish_job 0 1 JobDone d')) = Some Completed
      \<and> map_option jb_status (find_job 1 (finish_job 0 1 (JobError ''refused'') d')) = Some Pending"
proof -
  have ok: "queue_ok [1] demo_claimed"
    using reachable_state_ok [OF demo_busy_reach] by (simp add: state_ok_def demo_busy_def executing_def)
  have row: "jb_id (claim_row 0 demo_row) = 1" "jb_status (claim_row 0 demo_row) = Running"
    "jb_attempts (claim_row 0 demo_row) < jb_max (claim_row 0 demo_row)" by code_simp+
  have arg: "optional_int [(''id'', JNum 1)] ''id'' 0 = 1"
    by (simp add: optional_int_def get_num_ok_def rat_to_int_def)
  show ?thesis
    using cancelled_running_job_revives [OF ok _ row(2,3), of "[(''id'', JNum 1)]" 0 "''refused''"] row arg
    by (simp add: demo_claimed_def)
qed

lemma interrupted_job_is_lost_witness:
  "1 \<notin> set (executing (demo_busy\<lparr>js_workers := []\<rparr>))
    \<and> (\<exists>d' r'. js_db (demo_busy\<lparr>js_workers := []\<rparr>) = Some d' \<and> r' \<in> set (jd_rows d') \<and> jb_id r' = 1
         \<and> jb_attempts r' = 1 \<and> (jb_status r' = Running \<or> jb_status r' = Cancelled))"
proof -
  have "job_reach True (demo_busy\<lparr>js_workers := []\<rparr>)"
    using job_reach.Step [OF demo_busy_reach job_step.Crash] by simp
  moreover have row: "jb_id (claim_row 0 demo_row) = 1" "jb_status (claim_row 0 demo_row) = Running"
    "jb_attempts (claim_row 0 demo_row) = 1" by code_simp+
  ultimately show ?thesis
    using interrupted_job_is_lost [of "demo_busy\<lparr>js_workers := []\<rparr>" demo_claimed "claim_row 0 demo_row"]
    by (simp add: demo_busy_def demo_claimed_def executing_def)
qed

lemma iso_schedule_waits_a_day_witness:
  "\<not> due (23 * hour_ns) (Some (sql_date 0 @ ''T'' @ ''09:00:00Z'')) \<and> sql_date 0 = ''0001-01-01''"
proof -
  have "sql_date (23 * hour_ns) = sql_date 0" "0 \<le> t_year 0 0" "sql_date 0 = ''0001-01-01''" by code_simp+
  with iso_schedule_waits_a_day [of "23 * hour_ns" 0] show ?thesis by simp
qed

lemma job_list_limit_witness:
  "job_list id [(''limit'', JNum (- 1))] (Some demo_queue)
     = (ok_result (JArr (map (listed_job id) (rev (jd_rows demo_queue)))), Some demo_queue)"
proof -
  have "\<lceil>- 1 :: rat\<rceil> = - 1" using ceiling_of_int [of "- 1", where 'a = rat] by simp
  then have "optional_int [(''limit'', JNum (- 1))] ''limit'' 50 = - 1"
    by (simp add: optional_int_def get_num_ok_def rat_to_int_def)
  then show ?thesis
    using job_list_limit [of "[(''limit'', JNum (- 1))]" "- 1" _ _ demo_queue]
    by (simp add: get_str_ok_def demo_queue_def insert_job_def)
qed

end
