(* ===== verification/Scheduler.thy ===== *)
theory Scheduler
  imports Cron ToolCore Progress PublicRequest
begin

text \<open>
  Scheduled tasks: the tables \<open>ho_scheduled_tasks\<close> and \<open>ho_task_runs\<close>, the tool \<open>manage_scheduler\<close>
  (\<open>tools/scheduler.go\<close>), the loop that dispatches due tasks (\<open>brain/scheduler.go\<close>) and what the
  worker does with a dispatched task (\<open>brain/scheduled.go\<close>). Times in the tables are instants: the
  texts the driver stores for them are taken to compare as the instants do. Which writes and
  deliveries succeed is the environment of a tick. The two tables are kept apart from the database the
  native actions work on, so an action that names one of them is outside the model.
\<close>

section \<open>The tables\<close>

record task =
  tk_id :: int
  tk_name :: string
  tk_description :: "string option"
  tk_cron :: "string option"
  tk_interval :: "int option"
  tk_prompt :: "string option"
  tk_native :: "string option"
  tk_enabled :: bool
  tk_last :: "instant option"
  tk_next :: "instant option"
  tk_runs :: int
  tk_errors :: int
  tk_created :: instant

datatype run_status = RunRunning | RunCompleted | RunFailed

record task_run =
  rn_id :: int
  rn_task :: int
  rn_status :: run_status
  rn_error :: "string option"

record sched_db =
  sd_tasks :: "task list"
  sd_runs :: "task_run list"
  sd_next_task :: int
  sd_next_run :: int

definition update_task :: "int \<Rightarrow> (task \<Rightarrow> task) \<Rightarrow> sched_db \<Rightarrow> sched_db" where
  "update_task i f d = d\<lparr>sd_tasks := map (\<lambda>t. if tk_id t = i then f t else t) (sd_tasks d)\<rparr>"

definition update_run :: "int \<Rightarrow> (task_run \<Rightarrow> task_run) \<Rightarrow> sched_db \<Rightarrow> sched_db" where
  "update_run i f d = d\<lparr>sd_runs := map (\<lambda>r. if rn_id r = i then f r else r) (sd_runs d)\<rparr>"

definition has_task :: "int \<Rightarrow> sched_db \<Rightarrow> bool" where
  "has_task i d = list_ex (\<lambda>t. tk_id t = i) (sd_tasks d)"

section \<open>The tool\<close>

definition compute_next_run :: "int \<Rightarrow> string \<Rightarrow> int \<Rightarrow> instant \<Rightarrow> instant" where
  "compute_next_run off cron secs now =
     (if cron \<noteq> [] then next_time off cron now
      else if secs > 0 then now + secs * second_ns else now + hour_ns)"

text \<open>\<open>err_text\<close> is the text of a cron error and \<open>show_time\<close> the JSON of a time.\<close>

definition get_int :: "jobj \<Rightarrow> string \<Rightarrow> int" where
  "get_int args k = (case get_num_ok args k of Some x \<Rightarrow> rat_to_int x | None \<Rightarrow> 0)"

definition get_num :: "jobj \<Rightarrow> string \<Rightarrow> rat" where
  "get_num args k = (case get_num_ok args k of Some x \<Rightarrow> x | None \<Rightarrow> 0)"

definition execute_create ::
  "int \<Rightarrow> instant \<Rightarrow> (cron_error \<Rightarrow> string) \<Rightarrow> (instant \<Rightarrow> json) \<Rightarrow> sched_db action_handler" where
  "execute_create off now err_text show_time args d =
     (let name = get_str args ''name''; prompt = get_str args ''prompt''; native = get_str args ''native_action'';
          cron = get_str args ''cron_expression''; secs = get_num args ''interval_seconds''
      in if name = [] then (error_result ''name is required'', d)
         else if prompt = [] \<and> native = [] then (error_result ''either prompt or native_action is required'', d)
         else case (if cron = [] then None else validate cron) of
             Some e \<Rightarrow> (error_result (''invalid cron expression: '' @ err_text e), d)
           | None \<Rightarrow>
              (let nxt = (if cron \<noteq> [] then Some (compute_next_run off cron 0 now)
                          else if secs > 0 then Some (compute_next_run off [] (rat_to_int secs) now) else None)
               in (ok_result (JObj ([(''id'', JNum (of_int (sd_next_task d))), (''name'', JStr name)]
                     @ (if native \<noteq> [] then [(''native_action'', JBool True)] else [])
                     @ (case nxt of Some t \<Rightarrow> [(''next_run'', show_time t)] | None \<Rightarrow> []))),
                   d\<lparr>sd_tasks := sd_tasks d @ [\<lparr>tk_id = sd_next_task d, tk_name = name,
                       tk_description = Some (get_str args ''description''), tk_cron = Some cron,
                       tk_interval = Some (rat_to_int secs), tk_prompt = Some prompt, tk_native = Some native,
                       tk_enabled = True, tk_last = None, tk_next = nxt, tk_runs = 0, tk_errors = 0,
                       tk_created = now\<rparr>],
                     sd_next_task := sd_next_task d + 1\<rparr>)))"

definition task_data :: "(instant \<Rightarrow> json) \<Rightarrow> task \<Rightarrow> json" where
  "task_data show_time t =
     JObj ([(''id'', JNum (of_int (tk_id t))), (''name'', JStr (tk_name t)), (''is_enabled'', JBool (tk_enabled t)),
            (''created_at'', show_time (tk_created t))]
       @ (case tk_description t of Some s \<Rightarrow> [(''description'', JStr s)] | None \<Rightarrow> [])
       @ (case tk_cron t of Some s \<Rightarrow> [(''cron_expression'', JStr s)] | None \<Rightarrow> [])
       @ (case tk_interval t of Some n \<Rightarrow> [(''interval_seconds'', JNum (of_int n))] | None \<Rightarrow> [])
       @ (case tk_prompt t of Some s \<Rightarrow> if s \<noteq> [] then [(''prompt'', JStr s)] else [] | None \<Rightarrow> [])
       @ (case tk_native t of Some s \<Rightarrow> if s \<noteq> [] then [(''native_action'', JStr s)] else [] | None \<Rightarrow> [])
       @ (case tk_last t of Some i \<Rightarrow> [(''last_run'', show_time i)] | None \<Rightarrow> [])
       @ (case tk_next t of Some i \<Rightarrow> [(''next_run'', show_time i)] | None \<Rightarrow> []))"

definition execute_list :: "(instant \<Rightarrow> json) \<Rightarrow> sched_db action_handler" where
  "execute_list show_time args d =
     (let ts = sort_by_le (\<lambda>a b. str_le (tk_name a) (tk_name b)) (sd_tasks d)
      in (ok_result (if ts = [] then JNull else JArr (map (task_data show_time) ts)), d))"

text \<open>The set clauses of an update.\<close>

definition set_task :: "jobj \<Rightarrow> task \<Rightarrow> task" where
  "set_task args t =
     (let t = (case get_str_ok args ''name'' of Some s \<Rightarrow> if s \<noteq> [] then t\<lparr>tk_name := s\<rparr> else t | None \<Rightarrow> t);
          t = (case get_str_ok args ''description'' of Some s \<Rightarrow> t\<lparr>tk_description := Some s\<rparr> | None \<Rightarrow> t);
          t = (case get_str_ok args ''cron_expression'' of Some s \<Rightarrow> t\<lparr>tk_cron := Some s\<rparr> | None \<Rightarrow> t);
          t = (case get_num_ok args ''interval_seconds'' of Some x \<Rightarrow> t\<lparr>tk_interval := Some (rat_to_int x)\<rparr> | None \<Rightarrow> t);
          t = (case get_str_ok args ''prompt'' of Some s \<Rightarrow> if s \<noteq> [] then t\<lparr>tk_prompt := Some s\<rparr> else t | None \<Rightarrow> t);
          t = (case get_str_ok args ''native_action'' of Some s \<Rightarrow> t\<lparr>tk_native := Some s\<rparr> | None \<Rightarrow> t)
      in case map_of args ''is_enabled'' of Some (JBool b) \<Rightarrow> t\<lparr>tk_enabled := b\<rparr> | _ \<Rightarrow> t)"

definition schedule_changed :: "jobj \<Rightarrow> bool" where
  "schedule_changed args =
     (get_str_ok args ''cron_expression'' \<noteq> None \<or> get_num_ok args ''interval_seconds'' \<noteq> None)"

definition execute_update :: "int \<Rightarrow> instant \<Rightarrow> (cron_error \<Rightarrow> string) \<Rightarrow> sched_db action_handler" where
  "execute_update off now err_text args d =
     (let i = get_int args ''id''; cron = get_str args ''cron_expression''
      in if get_num args ''id'' = 0 then (error_result ''id is required'', d)
         else case (if cron = [] then None else validate cron) of
             Some e \<Rightarrow> (error_result (''invalid cron expression: '' @ err_text e), d)
           | None \<Rightarrow>
              if \<not> has_task i d then (error_result ''task not found'', d)
              else (let d = update_task i (set_task args) d;
                        d = (if schedule_changed args
                             then update_task i (\<lambda>t. t\<lparr>tk_next :=
                                    Some (compute_next_run off cron (get_int args ''interval_seconds'') now)\<rparr>) d
                             else d)
                    in (ok_result (JObj [(''id'', JNum (of_int i))]), d)))"

definition execute_delete :: "sched_db action_handler" where
  "execute_delete args d =
     (let i = get_int args ''id''
      in if get_num args ''id'' = 0 then (error_result ''id is required'', d)
         else if \<not> has_task i d then (error_result ''task not found'', d)
         else (ok_result (JObj [(''deleted_id'', JNum (of_int i))]),
               d\<lparr>sd_tasks := filter (\<lambda>t. tk_id t \<noteq> i) (sd_tasks d),
                 sd_runs := filter (\<lambda>r. rn_task r \<noteq> i) (sd_runs d)\<rparr>))"

definition execute_run_now :: "instant \<Rightarrow> sched_db action_handler" where
  "execute_run_now now args d =
     (let i = get_int args ''id''
      in if get_num args ''id'' = 0 then (error_result ''id is required'', d)
         else if \<not> list_ex (\<lambda>t. tk_id t = i \<and> tk_enabled t) (sd_tasks d)
         then (error_result ''task not found or not enabled'', d)
         else (ok_result (JObj [(''id'', JNum (of_int i)),
                 (''message'', JStr ''task scheduled to run on next tick (~30 seconds)'')]),
               update_task i (\<lambda>t. if tk_enabled t then t\<lparr>tk_next := Some (truncate_to second_ns now)\<rparr> else t) d))"

definition scheduler_tool ::
  "int \<Rightarrow> instant \<Rightarrow> (cron_error \<Rightarrow> string) \<Rightarrow> (instant \<Rightarrow> json) \<Rightarrow> sched_db action_handler" where
  "scheduler_tool off now err_text show_time =
     dispatch_action [(''create'', execute_create off now err_text show_time), (''list'', execute_list show_time),
       (''update'', execute_update off now err_text), (''delete'', execute_delete),
       (''run_now'', execute_run_now now)] None"

section \<open>The scheduler\<close>

text \<open>The time after \<open>now\<close> a task is due next, when it recurs.\<close>

definition recurrence :: "int \<Rightarrow> instant \<Rightarrow> task \<Rightarrow> instant option" where
  "recurrence off now t =
     (case tk_cron t of
        Some (c # cs) \<Rightarrow> Some (next_time off (c # cs) now)
      | _ \<Rightarrow> (case tk_interval t of
                Some n \<Rightarrow> if n > 0 then Some (now + n * second_ns) else None | None \<Rightarrow> None))"

definition init_next :: "int \<Rightarrow> instant \<Rightarrow> task \<Rightarrow> task" where
  "init_next off now t =
     (if tk_enabled t \<and> tk_next t = None
      then (case recurrence off now t of Some n \<Rightarrow> t\<lparr>tk_next := Some n\<rparr> | None \<Rightarrow> t) else t)"

definition initialize_next_run :: "int \<Rightarrow> instant \<Rightarrow> (int \<Rightarrow> bool) \<Rightarrow> sched_db \<Rightarrow> sched_db" where
  "initialize_next_run off now ok d =
     d\<lparr>sd_tasks := map (\<lambda>t. if ok (tk_id t) then init_next off now t else t) (sd_tasks d)\<rparr>"

record command =
  cm_task :: int
  cm_run :: int
  cm_prompt :: string
  cm_native :: string

text \<open>Which inserts of a run and which updates of a task succeed, and the error of delivering a command.\<close>

record tick_env =
  te_insert :: "int \<Rightarrow> bool"
  te_update :: "int \<Rightarrow> bool"
  te_send :: "command \<Rightarrow> string option"

definition is_due :: "instant \<Rightarrow> task \<Rightarrow> bool" where
  "is_due now t = (tk_enabled t \<and> (case tk_next t of Some n \<Rightarrow> n \<le> now | None \<Rightarrow> False))"

text \<open>A row whose prompt or action is null cannot be scanned, and is passed over.\<close>

definition scannable :: "task \<Rightarrow> bool" where
  "scannable t = (tk_prompt t \<noteq> None \<and> tk_native t \<noteq> None)"

definition due_tasks :: "instant \<Rightarrow> sched_db \<Rightarrow> task list" where
  "due_tasks now d = filter (\<lambda>t. is_due now t \<and> scannable t) (sd_tasks d)"

definition after_dispatch :: "int \<Rightarrow> instant \<Rightarrow> task \<Rightarrow> task \<Rightarrow> task" where
  "after_dispatch off now due t =
     (case recurrence off now due of
        Some n \<Rightarrow> t\<lparr>tk_last := Some now, tk_next := Some n\<rparr>
      | None \<Rightarrow> t\<lparr>tk_enabled := False, tk_last := Some now\<rparr>)"

text \<open>One round of the loop of \<open>checkDueTasksForSite\<close>: the command with its delivery error, and the
  tables.\<close>

definition dispatch_task ::
  "int \<Rightarrow> tick_env \<Rightarrow> instant \<Rightarrow> task \<Rightarrow> sched_db \<Rightarrow> (command \<times> string option) \<times> sched_db" where
  "dispatch_task off en now t d =
     (let (run, d) = (if te_insert en (tk_id t)
            then (sd_next_run d, d\<lparr>sd_runs := sd_runs d @ [\<lparr>rn_id = sd_next_run d, rn_task = tk_id t,
                    rn_status = RunRunning, rn_error = None\<rparr>], sd_next_run := sd_next_run d + 1\<rparr>)
            else (0, d));
          cmd = \<lparr>cm_task = tk_id t, cm_run = run, cm_prompt = null_string (tk_prompt t),
                 cm_native = null_string (tk_native t)\<rparr>;
          err = te_send en cmd;
          d = (case err of
                 Some e \<Rightarrow> if run > 0 then update_run run (\<lambda>r. r\<lparr>rn_status := RunFailed,
                             rn_error := Some (''dispatch error: '' @ e)\<rparr>) d else d
               | None \<Rightarrow> d);
          d = (if te_update en (tk_id t) then update_task (tk_id t) (after_dispatch off now t) d else d)
      in ((cmd, err), d))"

fun dispatch_all ::
  "int \<Rightarrow> tick_env \<Rightarrow> instant \<Rightarrow> task list \<Rightarrow> sched_db \<Rightarrow> (command \<times> string option) list \<times> sched_db" where
  "dispatch_all off en now [] d = ([], d)"
| "dispatch_all off en now (t # ts) d =
     (let (c, d) = dispatch_task off en now t d; (cs, d) = dispatch_all off en now ts d in (c # cs, d))"

definition check_due_tasks ::
  "int \<Rightarrow> tick_env \<Rightarrow> instant \<Rightarrow> sched_db \<Rightarrow> (command \<times> string option) list \<times> sched_db" where
  "check_due_tasks off en now d = dispatch_all off en now (due_tasks now d) d"

section \<open>What the worker does with a task\<close>

datatype sched_event =
    ScheduledCompleted int int
  | ScheduledFailed int int string
  | TriggeredEvent string jobj

definition finalize_task_run :: "int \<Rightarrow> int \<Rightarrow> string option \<Rightarrow> sched_db \<Rightarrow> sched_event list \<times> sched_db" where
  "finalize_task_run run task err d =
     (if run \<le> 0 then ([], d)
      else case err of
          None \<Rightarrow>
            (let d = update_run run (\<lambda>r. r\<lparr>rn_status := RunCompleted\<rparr>) d
             in ([ScheduledCompleted task run],
                 if task > 0 then update_task task (\<lambda>t. t\<lparr>tk_runs := tk_runs t + 1\<rparr>) d else d))
        | Some e \<Rightarrow>
            (let d = update_run run (\<lambda>r. r\<lparr>rn_status := RunFailed, rn_error := Some e\<rparr>) d
             in ([ScheduledFailed task run e],
                 if task > 0 then update_task task (\<lambda>t. t\<lparr>tk_errors := tk_errors t + 1\<rparr>) d else d)))"

text \<open>The decoded action; the typed decoder of \<open>encoding/json\<close> is an argument. \<open>na_trigger\<close> is the text
  decoded a second time, for its event type and payload.\<close>

record native_action =
  na_type :: string
  na_table :: string
  na_column :: string
  na_age :: string
  na_query :: string
  na_params :: "json list"
  na_trigger :: "string + string \<times> jobj option"

definition is_safe_name :: "string \<Rightarrow> bool" where
  "is_safe_name s = (s \<noteq> [] \<and> list_all ident_char s)"

text \<open>The outside: the decoder, SQLite with its error texts and \<open>datetime('now', m)\<close>, and the statements of
  a raw SQL action: a query gives its numbers of rows and columns, a change the number of rows.\<close>

record native_env =
  ne_decode :: "string \<Rightarrow> string + native_action"
  ne_engine :: sqlite
  ne_error :: "sql_error \<Rightarrow> string"
  ne_datetime :: "string \<Rightarrow> sqlval"
  ne_query :: "string \<Rightarrow> json list \<Rightarrow> database \<Rightarrow> string + (nat \<times> nat)"
  ne_exec :: "string \<Rightarrow> json list \<Rightarrow> database \<Rightarrow> string + (nat \<times> database)"

definition nat_text :: "nat \<Rightarrow> string" where "nat_text n = itoa (int n)"

definition delete_stale :: "native_env \<Rightarrow> native_action \<Rightarrow> database \<Rightarrow> (string + string) \<times> database" where
  "delete_stale en a db =
     (let col = (if na_column a = [] then ''created_at'' else na_column a)
      in if na_table a = [] \<or> na_age a = [] then (Inl ''delete_stale requires table and age'', db)
         else if \<not> is_safe_name (na_table a) \<or> \<not> is_safe_name col then (Inl ''invalid table or column name'', db)
         else case sql_delete (ne_engine en) db (na_table a)
                [Compare col ''<'' (ne_datetime en (CHR ''-'' # na_age a))] of
             Inl e \<Rightarrow> (Inl (''delete_stale: '' @ ne_error en e), db)
           | Inr (n, db') \<Rightarrow>
              (Inr (''deleted '' @ nat_text n @ '' rows from '' @ na_table a @ '' older than '' @ na_age a), db'))"

definition count_rows :: "native_env \<Rightarrow> native_action \<Rightarrow> database \<Rightarrow> string + string" where
  "count_rows en a db =
     (if na_table a = [] then Inl ''count_rows requires table''
      else if \<not> is_safe_name (na_table a) then Inl ''invalid table name''
      else case find_table db (na_table a) of
          None \<Rightarrow> Inl (''count_rows: '' @ ne_error en (NoSuchTable (na_table a)))
        | Some t \<Rightarrow> Inr (''table '' @ na_table a @ '' has '' @ nat_text (length (st_rows t)) @ '' rows''))"

definition truncate_table :: "native_env \<Rightarrow> native_action \<Rightarrow> database \<Rightarrow> (string + string) \<times> database" where
  "truncate_table en a db =
     (if na_table a = [] then (Inl ''truncate requires table'', db)
      else if \<not> is_safe_name (na_table a) then (Inl ''invalid table name'', db)
      else case sql_delete (ne_engine en) db (na_table a) [] of
          Inl e \<Rightarrow> (Inl (''truncate: '' @ ne_error en e), db)
        | Inr (n, db') \<Rightarrow> (Inr (''truncated '' @ na_table a @ '': '' @ nat_text n @ '' rows deleted''), db'))"

definition raw_sql :: "native_env \<Rightarrow> native_action \<Rightarrow> database \<Rightarrow> (string + string) \<times> database" where
  "raw_sql en a db =
     (let q = trim_space (na_query a); upper = to_upper q
      in if na_query a = [] then (Inl ''sql requires query'', db)
         else if has_prefix upper ''SELECT'' then
           (case ne_query en q (na_params a) db of
              Inl e \<Rightarrow> (Inl (''sql query: '' @ e), db)
            | Inr (n, m) \<Rightarrow>
               (Inr (''query returned '' @ nat_text n @ '' rows ('' @ nat_text m @ '' columns)''), db))
         else if has_prefix upper ''DELETE'' \<or> has_prefix upper ''UPDATE'' \<or> has_prefix upper ''INSERT'' then
           (case ne_exec en q (na_params a) db of
              Inl e \<Rightarrow> (Inl (''sql exec: '' @ e), db)
            | Inr (n, db') \<Rightarrow> (Inr (''sql executed: '' @ nat_text n @ '' rows affected''), db'))
         else (Inl ''sql action only supports SELECT, INSERT, UPDATE, DELETE'', db))"

definition trigger_event :: "int \<Rightarrow> native_action \<Rightarrow> (string + string) \<times> sched_event list" where
  "trigger_event task a =
     (case na_trigger a of
        Inl e \<Rightarrow> (Inl (''trigger_event: invalid config: '' @ e), [])
      | Inr (event, payload) \<Rightarrow>
         (if event = [] then (Inl ''trigger_event: event_type is required'', [])
          else (let p = (case payload of Some p \<Rightarrow> p | None \<Rightarrow> []);
                    p = alist_put ''task_id'' (JNum (of_int task)) (alist_put ''source'' (JStr ''scheduler'') p)
                in (Inr (''published event '' @ [CHR 0x27] @ event @ [CHR 0x27]), [TriggeredEvent event p]))))"

definition run_native ::
  "native_env \<Rightarrow> int \<Rightarrow> native_action \<Rightarrow> database \<Rightarrow> (string + string) \<times> sched_event list \<times> database" where
  "run_native en task a db =
     (if na_type a = ''delete_stale'' then (let (r, db) = delete_stale en a db in (r, [], db))
      else if na_type a = ''count_rows'' then (count_rows en a db, [], db)
      else if na_type a = ''truncate'' then (let (r, db) = truncate_table en a db in (r, [], db))
      else if na_type a = ''sql'' then (let (r, db) = raw_sql en a db in (r, [], db))
      else if na_type a = ''trigger_event'' then (let (r, evs) = trigger_event task a in (r, evs, db))
      else (Inl (''unknown native action type: '' @ na_type a), [], db))"

definition execute_native_action ::
  "native_env \<Rightarrow> string \<Rightarrow> int \<Rightarrow> int \<Rightarrow> database \<times> sched_db \<Rightarrow> sched_event list \<times> database \<times> sched_db" where
  "execute_native_action en text run task st =
     (case ne_decode en text of
        Inl e \<Rightarrow>
          (let (evs, d) = finalize_task_run run task (Some (''invalid native_action JSON: '' @ e)) (snd st)
           in (evs, fst st, d))
      | Inr a \<Rightarrow>
          (let (r, evs, db) = run_native en task a (fst st);
               (evs', d) = finalize_task_run run task
                 (case r of Inl e \<Rightarrow> Some e | Inr _ \<Rightarrow> None) (snd st)
           in (evs @ evs', db, d)))"

text \<open>A task with a prompt: \<open>result\<close> is the error of the session with the model, if any.\<close>

definition execute_scheduled_task :: "string option \<Rightarrow> int \<Rightarrow> int \<Rightarrow> sched_db \<Rightarrow> sched_event list \<times> sched_db" where
  "execute_scheduled_task result run task d =
     finalize_task_run run task (map_option (\<lambda>e. ''LLM error: '' @ e) result) d"

text \<open>The command as the worker handles it; \<open>llm\<close> is the outcome of the session for a prompt.\<close>

definition handle_scheduled ::
  "native_env \<Rightarrow> (string \<Rightarrow> string option) \<Rightarrow> command \<Rightarrow> database \<times> sched_db
     \<Rightarrow> sched_event list \<times> database \<times> sched_db" where
  "handle_scheduled en llm c st =
     (if cm_native c \<noteq> [] then execute_native_action en (cm_native c) (cm_run c) (cm_task c) st
      else (let (evs, d) = execute_scheduled_task (llm (cm_prompt c)) (cm_run c) (cm_task c) (snd st)
            in (evs, fst st, d)))"

section \<open>One tick\<close>

lemma update_task_simps [simp]:
  "sd_runs (update_task i f d) = sd_runs d" "sd_next_run (update_task i f d) = sd_next_run d"
  "sd_tasks (update_run i g d) = sd_tasks d" "sd_next_run (update_run i g d) = sd_next_run d"
  by (simp_all add: update_task_def update_run_def)

lemma recurrence_later: "recurrence off now t = Some n \<Longrightarrow> now < n"
  by (auto simp: recurrence_def next_time_after split: option.splits list.splits if_splits)

lemma after_dispatch_not_due: "\<not> is_due now (after_dispatch off now t t')"
  using recurrence_later [of off now t] by (auto simp: after_dispatch_def is_due_def split: option.split)

lemma after_dispatch_id [simp]: "tk_id (after_dispatch off now t t') = tk_id t'"
  by (simp add: after_dispatch_def split: option.split)

lemma dispatch_task_tasks:
  "sd_tasks (snd (dispatch_task off en now t d)) =
     (if te_update en (tk_id t)
      then map (\<lambda>x. if tk_id x = tk_id t then after_dispatch off now t x else x) (sd_tasks d) else sd_tasks d)"
  by (simp add: dispatch_task_def Let_def split_beta update_task_def update_run_def split: option.split)

lemma dispatch_task_cmd: "cm_task (fst (fst (dispatch_task off en now t d))) = tk_id t"
  by (simp add: dispatch_task_def Let_def split_beta)

lemma dispatch_all_cmds: "map (cm_task \<circ> fst) (fst (dispatch_all off en now ts d)) = map tk_id ts"
  by (induction ts arbitrary: d) (simp_all add: split_beta dispatch_task_cmd)

text \<open>The effect on the tasks: those dispatched are moved on, all others stay.\<close>

lemma dispatch_all_tasks:
  assumes "te_update en = (\<lambda>_. True)" "distinct (map tk_id ts)"
  shows "sd_tasks (snd (dispatch_all off en now ts d)) =
    map (\<lambda>x. case find (\<lambda>t. tk_id t = tk_id x) ts of
               Some t \<Rightarrow> after_dispatch off now t x | None \<Rightarrow> x) (sd_tasks d)"
  using assms(2)
proof (induction ts arbitrary: d)
  case Nil
  then show ?case by simp
next
  case (Cons t ts)
  have none: "find (\<lambda>s. tk_id s = tk_id t) ts = None"
    using Cons.prems by (force simp: find_None_iff image_iff)
  show ?case
    using Cons none assms(1)
    by (auto simp: split_beta dispatch_task_tasks comp_def split: option.split)
qed

lemma find_in_tasks:
  assumes "distinct (map tk_id ts)" "t \<in> set ts"
  shows "find (\<lambda>x. tk_id x = tk_id t \<and> P x) ts = (if P t then Some t else None)"
  using assms
proof (induction ts)
  case Nil
  then show ?case by simp
next
  case (Cons x ts)
  have "find (\<lambda>x. tk_id x = tk_id t \<and> P x) ts = None" if "t = x"
    using Cons.prems(1) that by (force simp: find_None_iff image_iff)
  moreover have "tk_id x \<noteq> tk_id t" if "t \<noteq> x"
    using Cons.prems that by (auto simp: image_iff)
  ultimately show ?case using Cons by (cases "t = x") auto
qed

lemma find_filter: "find P (filter Q xs) = find (\<lambda>x. P x \<and> Q x) xs"
  by (induction xs) auto

text \<open>A tick, task by task.\<close>

lemma tick_tasks:
  assumes "te_update en = (\<lambda>_. True)" "distinct (map tk_id (sd_tasks d))"
  shows "sd_tasks (snd (check_due_tasks off en now d)) =
    map (\<lambda>t. if is_due now t \<and> scannable t then after_dispatch off now t t else t) (sd_tasks d)"
proof -
  have "distinct (map tk_id (due_tasks now d))"
    using assms(2) by (simp add: due_tasks_def distinct_map_filter)
  from dispatch_all_tasks [OF assms(1) this, of off now d] show ?thesis
    using find_in_tasks [OF assms(2), where P = "\<lambda>t. is_due now t \<and> scannable t"]
    by (auto simp: check_due_tasks_def due_tasks_def find_filter)
qed

lemma tick_effect:
  assumes "te_update en = (\<lambda>_. True)" "distinct (map tk_id (sd_tasks d))"
  shows "map (cm_task \<circ> fst) (fst (check_due_tasks off en now d)) = map tk_id (due_tasks now d)"
    and "due_tasks now (snd (check_due_tasks off en now d)) = []"
    and "map tk_id (sd_tasks (snd (check_due_tasks off en now d))) = map tk_id (sd_tasks d)"
    and "list_all (\<lambda>t. is_due now t \<and> scannable t \<or> t \<in> set (sd_tasks (snd (check_due_tasks off en now d)))) (sd_tasks d)"
proof -
  show "map (cm_task \<circ> fst) (fst (check_due_tasks off en now d)) = map tk_id (due_tasks now d)"
    by (simp add: check_due_tasks_def dispatch_all_cmds)
  show "due_tasks now (snd (check_due_tasks off en now d)) = []"
    using tick_tasks [OF assms, of off now]
    by (auto simp: due_tasks_def [of _ "snd _"] filter_empty_conv after_dispatch_not_due)
  show "map tk_id (sd_tasks (snd (check_due_tasks off en now d))) = map tk_id (sd_tasks d)"
    by (simp add: tick_tasks [OF assms] comp_def if_distrib cong: if_cong)
  show "list_all (\<lambda>t. is_due now t \<and> scannable t \<or> t \<in> set (sd_tasks (snd (check_due_tasks off en now d)))) (sd_tasks d)"
    by (auto simp: tick_tasks [OF assms] list_all_iff)
qed

text \<open>A tick dispatches each due task exactly once, in the order of the table, and leaves no task due:
  a dispatched task is due again strictly later, or disabled when it does not recur; every other
  task stays as it is.\<close>

theorem tick_dispatches_due_once:
  assumes "te_update en = (\<lambda>_. True)" "distinct (map tk_id (sd_tasks d))"
  shows "map (cm_task \<circ> fst) (fst (check_due_tasks off en now d)) = map tk_id (due_tasks now d)
    \<and> due_tasks now (snd (check_due_tasks off en now d)) = []
    \<and> map tk_id (sd_tasks (snd (check_due_tasks off en now d))) = map tk_id (sd_tasks d)
    \<and> list_all (\<lambda>t. is_due now t \<and> scannable t \<or> t \<in> set (sd_tasks (snd (check_due_tasks off en now d)))) (sd_tasks d)"
  using tick_effect [OF assms, where off = off and now = now] by simp

text \<open>A run of ticks, each with its environment.\<close>

fun run_ticks :: "int \<Rightarrow> (tick_env \<times> instant) list \<Rightarrow> sched_db \<Rightarrow> int list \<times> sched_db" where
  "run_ticks off [] d = ([], d)"
| "run_ticks off ((en, now) # ts) d =
     (let (cs, d) = check_due_tasks off en now d; (is, d) = run_ticks off ts d
      in (map (cm_task \<circ> fst) cs @ is, d))"

text \<open>Every write of the tasks table succeeds in a run.\<close>

definition writes_ok :: "(tick_env \<times> instant) list \<Rightarrow> bool" where
  "writes_ok ts = list_all (\<lambda>(en, _). te_update en = (\<lambda>_. True)) ts"

lemma quiet_ticks:
  assumes "writes_ok ts" "distinct (map tk_id (sd_tasks d))" "t \<in> set (sd_tasks d)"
    "list_all (\<lambda>(_, now). \<not> is_due now t) ts"
  shows "tk_id t \<notin> set (fst (run_ticks off ts d)) \<and> t \<in> set (sd_tasks (snd (run_ticks off ts d)))
    \<and> distinct (map tk_id (sd_tasks (snd (run_ticks off ts d))))"
  using assms
proof (induction ts arbitrary: d)
  case Nil
  then show ?case by simp
next
  case (Cons a ts)
  obtain en now where a: "a = (en, now)" by (cases a)
  let ?d = "snd (check_due_tasks off en now d)"
  have en: "te_update en = (\<lambda>_. True)" "writes_ok ts" using Cons.prems(1) a by (simp_all add: writes_ok_def)
  note tick = tick_effect [OF en(1) Cons.prems(2), where off = off and now = now]
  have no: "\<not> is_due now t" using Cons.prems(4) a by simp
  have "t \<in> set (sd_tasks ?d)" using tick Cons.prems(3) no by (auto simp: list_all_iff)
  moreover have "tk_id t \<notin> set (map tk_id (due_tasks now d))"
    using Cons.prems(2,3) no by (auto simp: due_tasks_def distinct_map dest: inj_onD)
  moreover have "distinct (map tk_id (sd_tasks ?d))" using tick Cons.prems(2) by simp
  ultimately show ?case
    using Cons.IH [of ?d] Cons.prems(4) en(2) tick a by (auto simp: split_beta)
qed

text \<open>A recurring task that has been dispatched at \<open>now\<close> is dispatched next at the first tick at or after
  its recurrence, and not before, whatever happens to the other tasks: that is one interval later,
  or the first firing time of its cron expression after \<open>now\<close>.\<close>

theorem next_dispatch_on_time:
  assumes "te_update en = (\<lambda>_. True)" "distinct (map tk_id (sd_tasks d))"
    and "t \<in> set (sd_tasks d)" "is_due now t" "scannable t" "recurrence off now t = Some n"
    and "writes_ok ts" "list_all (\<lambda>(_, tick). tick < n) ts"
    and "te_update en' = (\<lambda>_. True)" "n \<le> later"
  defines "d1 \<equiv> snd (check_due_tasks off en now d)"
  shows "tk_id t \<notin> set (fst (run_ticks off ts d1))
    \<and> tk_id t \<in> set (fst (run_ticks off [(en', later)] (snd (run_ticks off ts d1))))"
proof -
  let ?t = "after_dispatch off now t t"
  have t1: "?t \<in> set (sd_tasks d1)"
    using assms(3-5) by (force simp: d1_def tick_tasks [OF assms(1,2)])
  have dist: "distinct (map tk_id (sd_tasks d1))"
    using tick_effect [OF assms(1,2), where off = off and now = now] assms(2) by (simp add: d1_def)
  have due: "is_due m ?t \<longleftrightarrow> n \<le> m" for m
    using assms(4,6) by (auto simp: after_dispatch_def is_due_def)
  then have "list_all (\<lambda>(_, tick). \<not> is_due tick ?t) ts" using assms(8) by (auto simp: list_all_iff)
  from quiet_ticks [OF assms(7) dist t1 this, of off]
  have q: "tk_id t \<notin> set (fst (run_ticks off ts d1))" "?t \<in> set (sd_tasks (snd (run_ticks off ts d1)))"
    "distinct (map tk_id (sd_tasks (snd (run_ticks off ts d1))))" by simp_all
  have "scannable ?t" using assms(5) by (simp add: after_dispatch_def scannable_def split: option.split)
  with q(2) due assms(10) have "?t \<in> set (due_tasks later (snd (run_ticks off ts d1)))" by (simp add: due_tasks_def)
  then have "tk_id ?t \<in> set (map tk_id (due_tasks later (snd (run_ticks off ts d1))))" by (simp only: set_map) (rule imageI)
  with q(1) tick_effect [OF assms(9) q(3), where off = off and now = later] show ?thesis by (simp add: split_beta)
qed

lemma tick_dispatches_due_once_witness:
  defines "t \<equiv> \<lparr>tk_id = 1, tk_name = ''sweep'', tk_description = None, tk_cron = Some [],
      tk_interval = Some 60, tk_prompt = Some ''sweep'', tk_native = Some [], tk_enabled = True, tk_last = None,
      tk_next = Some 0, tk_runs = 0, tk_errors = 0, tk_created = 0\<rparr>"
    and "en \<equiv> \<lparr>te_insert = (\<lambda>_. True), te_update = (\<lambda>_. True), te_send = (\<lambda>_. None)\<rparr>"
  shows "map (cm_task \<circ> fst) (fst (check_due_tasks 0 en 5
      \<lparr>sd_tasks = [t, t\<lparr>tk_id := 2, tk_enabled := False\<rparr>], sd_runs = [], sd_next_task = 3, sd_next_run = 1\<rparr>)) = [1]"
proof -
  let ?d = "\<lparr>sd_tasks = [t, t\<lparr>tk_id := 2, tk_enabled := False\<rparr>], sd_runs = [], sd_next_task = 3, sd_next_run = 1\<rparr>"
  have "map (cm_task \<circ> fst) (fst (check_due_tasks 0 en 5 ?d)) = map tk_id (due_tasks 5 ?d)"
    using tick_dispatches_due_once [of en ?d 0 5] by (simp add: en_def t_def)
  also have "map tk_id (due_tasks 5 ?d) = [1]"
    by (simp add: due_tasks_def is_due_def scannable_def t_def)
  finally show ?thesis .
qed

lemma next_dispatch_on_time_witness:
  defines "t \<equiv> \<lparr>tk_id = 1, tk_name = ''sweep'', tk_description = None, tk_cron = Some [],
      tk_interval = Some 60, tk_prompt = Some ''sweep'', tk_native = Some [], tk_enabled = True, tk_last = None,
      tk_next = Some 0, tk_runs = 0, tk_errors = 0, tk_created = 0\<rparr>"
    and "en \<equiv> \<lparr>te_insert = (\<lambda>_. True), te_update = (\<lambda>_. True), te_send = (\<lambda>_. None)\<rparr>"
  shows "(1::int) \<notin> set (fst (run_ticks 0 [(en, 30 * second_ns)] (snd (check_due_tasks 0 en 5
        \<lparr>sd_tasks = [t], sd_runs = [], sd_next_task = 3, sd_next_run = 1\<rparr>))))"
proof -
  let ?d = "\<lparr>sd_tasks = [t], sd_runs = [], sd_next_task = 3, sd_next_run = 1\<rparr>"
  have "recurrence 0 5 t = Some (5 + 60 * second_ns)" by (simp add: recurrence_def t_def)
  moreover have "writes_ok [(en, 30 * second_ns)]" by (simp add: writes_ok_def en_def)
  moreover have "is_due 5 t" "scannable t" by (simp_all add: is_due_def scannable_def t_def)
  ultimately show ?thesis
    using next_dispatch_on_time [of en ?d t 5 0 "5 + 60 * second_ns" "[(en, 30 * second_ns)]" en "90 * second_ns"]
    by (simp add: en_def t_def)
qed

section \<open>Handling a task\<close>

text \<open>A task of the scheduler: whatever its action is, and whatever its decoding, its table names and the engine give,
  handling its command settles the run as completed or failed, adds one to exactly one of the two
  counters of the task, and touches neither another task nor another run.\<close>

theorem scheduled_command_settles:
  assumes "cm_run c > 0" "cm_task c > 0"
  shows "\<exists>err. snd (snd (handle_scheduled en llm c (db, d))) =
        d\<lparr>sd_tasks := map (\<lambda>t. if tk_id t = cm_task c
            then (if err = None then t\<lparr>tk_runs := tk_runs t + 1\<rparr> else t\<lparr>tk_errors := tk_errors t + 1\<rparr>)
            else t) (sd_tasks d),
          sd_runs := map (\<lambda>r. if rn_id r = cm_run c
            then (case err of None \<Rightarrow> r\<lparr>rn_status := RunCompleted\<rparr>
                  | Some e \<Rightarrow> r\<lparr>rn_status := RunFailed, rn_error := Some e\<rparr>) else r) (sd_runs d)\<rparr>"
proof -
  have fin: "snd (finalize_task_run (cm_run c) (cm_task c) err d) =
        d\<lparr>sd_tasks := map (\<lambda>t. if tk_id t = cm_task c
            then (if err = None then t\<lparr>tk_runs := tk_runs t + 1\<rparr> else t\<lparr>tk_errors := tk_errors t + 1\<rparr>)
            else t) (sd_tasks d),
          sd_runs := map (\<lambda>r. if rn_id r = cm_run c
            then (case err of None \<Rightarrow> r\<lparr>rn_status := RunCompleted\<rparr>
                  | Some e \<Rightarrow> r\<lparr>rn_status := RunFailed, rn_error := Some e\<rparr>) else r) (sd_runs d)\<rparr>" for err
    using assms by (cases err) (simp_all add: finalize_task_run_def update_task_def update_run_def)
  have "\<exists>err. snd (snd (handle_scheduled en llm c (db, d))) =
      snd (finalize_task_run (cm_run c) (cm_task c) err d)"
    by (auto simp: handle_scheduled_def execute_native_action_def execute_scheduled_task_def split_beta
        split: sum.split)
  with fin show ?thesis by metis
qed

text \<open>The actions other than raw SQL change no table but the one they name, and none at all when its name is
  not made of letters, digits and underscores.\<close>

lemma sql_delete_frame:
  assumes "sql_delete e db tab cs = Inr (n, db')" "fold_case T \<noteq> fold_case tab"
  shows "find_table db' T = find_table db T"
  using assms by (auto simp: sql_delete_def find_put_other split: option.splits if_splits)

lemma native_action_frame:
  assumes "na_type a \<noteq> ''sql''" "fold_case T \<noteq> fold_case (na_table a) \<or> \<not> is_safe_name (na_table a)"
  shows "find_table (snd (snd (run_native en task a db))) T = find_table db T"
  using assms sql_delete_frame
  by (auto simp: run_native_def delete_stale_def truncate_table_def Let_def split_beta
      split: option.splits sum.splits)

lemma scheduled_command_settles_witness:
  defines "t \<equiv> \<lparr>tk_id = 1, tk_name = ''sweep'', tk_description = None, tk_cron = Some [],
      tk_interval = Some 60, tk_prompt = Some ''sweep'', tk_native = Some [], tk_enabled = True, tk_last = None,
      tk_next = Some 0, tk_runs = 0, tk_errors = 0, tk_created = 0\<rparr>"
  shows "\<exists>err. sd_tasks (snd (snd (handle_scheduled undefined (\<lambda>_. None)
      \<lparr>cm_task = 1, cm_run = 7, cm_prompt = ''sweep'', cm_native = []\<rparr>
      ([], \<lparr>sd_tasks = [t, t\<lparr>tk_id := 2\<rparr>], sd_runs = [], sd_next_task = 3, sd_next_run = 8\<rparr>)))) =
    [if err then t\<lparr>tk_errors := 1\<rparr> else t\<lparr>tk_runs := 1\<rparr>, t\<lparr>tk_id := 2\<rparr>]"
proof -
  let ?c = "\<lparr>cm_task = 1, cm_run = 7, cm_prompt = ''sweep'', cm_native = []\<rparr>"
  obtain err where "sd_tasks (snd (snd (handle_scheduled undefined (\<lambda>_. None) ?c
      ([], \<lparr>sd_tasks = [t, t\<lparr>tk_id := 2\<rparr>], sd_runs = [], sd_next_task = 3, sd_next_run = 8\<rparr>)))) =
    [if err \<noteq> (None :: string option) then t\<lparr>tk_errors := 1\<rparr> else t\<lparr>tk_runs := 1\<rparr>, t\<lparr>tk_id := 2\<rparr>]"
    using scheduled_command_settles [of ?c undefined "\<lambda>_. None" "[]"
      "\<lparr>sd_tasks = [t, t\<lparr>tk_id := 2\<rparr>], sd_runs = [], sd_next_task = 3, sd_next_run = 8\<rparr>"]
    by (force simp: t_def)
  then show ?thesis by metis
qed

end
