(* ===== verification/Webhooks.thy ===== *)
theory Webhooks
  imports PublicAuth Jobs
begin

text \<open>
  Webhooks: the tables \<open>ho_webhooks\<close>, \<open>ho_webhook_subscriptions\<close> and \<open>ho_webhook_logs\<close>, the tool
  \<open>manage_webhooks\<close> (\<open>tools/webhooks.go\<close>), the route that receives a payload
  (\<open>server/public/webhooks.go\<close>) and the dispatcher that sends events out
  (\<open>webhooks/outgoing.go\<close>). HMAC-SHA256, the random secret, the JSON encoder and the answers of
  the called servers are in the environment.
\<close>

section \<open>The tables\<close>

record webhook =
  wb_id :: int
  wb_name :: string
  wb_secret :: "string option"
  wb_url :: "string option"
  wb_direction :: string
  wb_enabled :: bool
  wb_last :: "instant option"
  wb_created :: instant

record webhook_log =
  wl_webhook :: int
  wl_direction :: string
  wl_event :: string
  wl_payload :: string
  wl_status :: "int option"
  wl_response :: "string option"
  wl_success :: bool

record webhook_db =
  wd_hooks :: "webhook list"
  wd_subs :: "(int \<times> string) list"
  wd_logs :: "webhook_log list"
  wd_next :: int

definition find_webhook :: "string \<Rightarrow> webhook_db \<Rightarrow> webhook option" where
  "find_webhook name d = find (\<lambda>w. wb_name w = name) (wd_hooks d)"

definition add_log :: "webhook_log \<Rightarrow> webhook_db \<Rightarrow> webhook_db" where
  "add_log l d = d\<lparr>wd_logs := wd_logs d @ [l]\<rparr>"

definition touch :: "int \<Rightarrow> instant \<Rightarrow> webhook_db \<Rightarrow> webhook_db" where
  "touch i now d = d\<lparr>wd_hooks := map (\<lambda>w. if wb_id w = i then w\<lparr>wb_last := Some now\<rparr> else w) (wd_hooks d)\<rparr>"

text \<open>How an attempt to send a request ends.\<close>

datatype attempt =
    BadRequest string
  | SendError string
  | Reply int string

text \<open>
  \<open>we_hmac key msg\<close> are the bytes of the code; \<open>we_secret\<close> is the text of 32 random bytes;
  \<open>we_unique\<close> is the error for a second webhook of a name; \<open>we_send n rq\<close> is how attempt \<open>n\<close> ends.
\<close>

record webhook_env =
  we_now :: instant
  we_site :: int
  we_hmac :: "string \<Rightarrow> string \<Rightarrow> string"
  we_secret :: "string option"
  we_unique :: string
  we_marshal :: "json \<Rightarrow> string"
  we_show_time :: "instant \<Rightarrow> json"
  we_rfc3339 :: "instant \<Rightarrow> string"
  we_send :: "nat \<Rightarrow> http_job \<Rightarrow> attempt"

section \<open>The tool\<close>

definition webhook_direction :: "string \<Rightarrow> string" where
  "webhook_direction url = (if url \<noteq> [] then ''outgoing'' else ''incoming'')"

definition webhook_create :: "webhook_env \<Rightarrow> webhook_db action_handler" where
  "webhook_create en args d =
     (let name = get_str args ''name''; url = get_str args ''url''
      in if name = [] then (error_result ''name is required'', d)
         else case we_secret en of
             None \<Rightarrow> (ToolError ''generating secret'', d)
           | Some secret \<Rightarrow>
              if find_webhook name d \<noteq> None then (ToolError (''creating webhook: '' @ we_unique en), d)
              else (ok_result (JObj ([(''id'', JNum (of_int (wd_next d))), (''name'', JStr name),
                       (''secret'', JStr secret), (''direction'', JStr (webhook_direction url))]
                     @ (if url \<noteq> [] then [(''url'', JStr url)] else []))),
                    d\<lparr>wd_hooks := wd_hooks d @ [\<lparr>wb_id = wd_next d, wb_name = name, wb_secret = Some secret,
                        wb_url = Some url, wb_direction = webhook_direction url, wb_enabled = True,
                        wb_last = None, wb_created = we_now en\<rparr>],
                      wd_next := wd_next d + 1\<rparr>))"

definition shown_url :: "webhook \<Rightarrow> (string \<times> json) list" where
  "shown_url w = (case wb_url w of Some u \<Rightarrow> if u \<noteq> [] then [(''url'', JStr u)] else [] | None \<Rightarrow> [])"

definition shown_last :: "webhook_env \<Rightarrow> webhook \<Rightarrow> (string \<times> json) list" where
  "shown_last en w = (case wb_last w of Some t \<Rightarrow> [(''last_triggered'', we_show_time en t)] | None \<Rightarrow> [])"

text \<open>A missing secret cannot be scanned into a string.\<close>

definition webhook_get :: "webhook_env \<Rightarrow> webhook_db action_handler" where
  "webhook_get en args d =
     (let name = get_str args ''name''
      in if name = [] then (error_result ''name is required'', d)
         else case find_webhook name d of
             None \<Rightarrow> (error_result ''webhook not found'', d)
           | Some w \<Rightarrow>
              (case wb_secret w of None \<Rightarrow> (ToolError ''querying webhook'', d)
               | Some secret \<Rightarrow>
                  (let subs = sort_strings (map snd (filter (\<lambda>s. fst s = wb_id w) (wd_subs d)))
                   in (ok_result (JObj ([(''id'', JNum (of_int (wb_id w))), (''name'', JStr name),
                          (''secret'', JStr secret), (''direction'', JStr (wb_direction w)),
                          (''is_enabled'', JBool (wb_enabled w)), (''created_at'', we_show_time en (wb_created w))]
                        @ shown_url w @ shown_last en w
                        @ (if subs \<noteq> [] then [(''subscriptions'', JArr (map JStr subs))] else []))), d))))"

definition webhook_list :: "webhook_env \<Rightarrow> webhook_db action_handler" where
  "webhook_list en args d =
     (let ws = sort_by_le (\<lambda>a b. str_le (wb_name a) (wb_name b)) (wd_hooks d)
      in (ok_result (if ws = [] then JNull else JArr (map (\<lambda>w.
            JObj ([(''id'', JNum (of_int (wb_id w))), (''name'', JStr (wb_name w)),
                (''direction'', JStr (wb_direction w)), (''is_enabled'', JBool (wb_enabled w)),
                (''created_at'', we_show_time en (wb_created w))] @ shown_url w @ shown_last en w)) ws)), d))"

definition webhook_delete :: "webhook_db action_handler" where
  "webhook_delete args d =
     (let name = get_str args ''name''
      in if name = [] then (error_result ''name is required'', d)
         else case find_webhook name d of
             None \<Rightarrow> (error_result ''webhook not found'', d)
           | Some w \<Rightarrow>
              (ok_result (JObj [(''deleted'', JStr name)]),
               d\<lparr>wd_hooks := filter (\<lambda>v. wb_name v \<noteq> name) (wd_hooks d),
                 wd_subs := filter (\<lambda>s. fst s \<noteq> wb_id w) (wd_subs d),
                 wd_logs := filter (\<lambda>l. wl_webhook l \<noteq> wb_id w) (wd_logs d)\<rparr>))"

definition set_webhook :: "jobj \<Rightarrow> webhook \<Rightarrow> webhook" where
  "set_webhook args w =
     (let w = (case get_str_ok args ''url'' of Some u \<Rightarrow> w\<lparr>wb_url := Some u\<rparr> | None \<Rightarrow> w)
      in case map_of args ''is_enabled'' of Some (JBool b) \<Rightarrow> w\<lparr>wb_enabled := b\<rparr> | _ \<Rightarrow> w)"

definition has_update :: "jobj \<Rightarrow> bool" where
  "has_update args =
     (get_str_ok args ''url'' \<noteq> None \<or> (case map_of args ''is_enabled'' of Some (JBool _) \<Rightarrow> True | _ \<Rightarrow> False))"

definition webhook_update :: "webhook_db action_handler" where
  "webhook_update args d =
     (let name = get_str args ''name''
      in if name = [] then (error_result ''name is required'', d)
         else if \<not> has_update args
         then (error_result ''provide at least one field to update (url or is_enabled)'', d)
         else if find_webhook name d = None then (error_result ''webhook not found'', d)
         else (ok_result (JObj [(''updated'', JStr name)]),
               d\<lparr>wd_hooks := map (\<lambda>w. if wb_name w = name then set_webhook args w else w) (wd_hooks d)\<rparr>))"

text \<open>\<open>ON CONFLICT DO NOTHING\<close> is no error, so a type that was there counts as subscribed.\<close>

definition add_sub :: "int \<Rightarrow> string \<Rightarrow> webhook_db \<Rightarrow> webhook_db" where
  "add_sub i et d = (if (i, et) \<in> set (wd_subs d) then d else d\<lparr>wd_subs := wd_subs d @ [(i, et)]\<rparr>)"

definition named_types :: "json list \<Rightarrow> string list" where
  "named_types xs = filter (\<lambda>s. s \<noteq> []) (map json_text xs)"

definition webhook_subscribe :: "webhook_db action_handler" where
  "webhook_subscribe args d =
     (let name = get_str args ''name'';
          raw = (case get_arr_ok args ''event_types'' of Some xs \<Rightarrow> xs | None \<Rightarrow> [])
      in if name = [] then (error_result ''name is required'', d)
         else if raw = [] then (error_result ''event_types is required'', d)
         else case find_webhook name d of
             None \<Rightarrow> (error_result ''webhook not found'', d)
           | Some w \<Rightarrow>
              (ok_result (JObj [(''name'', JStr name),
                 (''subscribed'', if named_types raw = [] then JNull else JArr (map JStr (named_types raw)))]),
               fold (add_sub (wb_id w)) (named_types raw) d))"

section \<open>A signed request\<close>

text \<open>Both senders build it the same way.\<close>

definition webhook_request :: "webhook_env \<Rightarrow> string \<Rightarrow> string \<Rightarrow> string \<Rightarrow> http_job" where
  "webhook_request en url secret payload =
     \<lparr>hj_method = ''POST'', hj_url = url,
      hj_headers = [(''Content-Type'', ''application/json''), (''User-Agent'', ''HO-Webhook/1.0'')]
        @ (if secret \<noteq> []
           then [(''X-Webhook-Signature'', ''sha256='' @ hex_encode (we_hmac en secret payload))] else []),
      hj_body = payload\<rparr>"

definition status_ok :: "int \<Rightarrow> bool" where
  "status_ok code = (200 \<le> code \<and> code < 300)"

definition webhook_test :: "webhook_env \<Rightarrow> webhook_db action_handler" where
  "webhook_test en args d =
     (let name = get_str args ''name''
      in if name = [] then (error_result ''name is required'', d)
         else case find_webhook name d of
             None \<Rightarrow> (error_result ''webhook not found'', d)
           | Some w \<Rightarrow>
              (case wb_secret w of None \<Rightarrow> (ToolError ''querying webhook'', d)
               | Some secret \<Rightarrow>
                  if wb_direction w \<noteq> ''outgoing''
                  then (error_result ''test only works for outgoing ho_webhooks'', d)
                  else if null_string (wb_url w) = [] then (error_result ''webhook has no URL configured'', d)
                  else (let url = null_string (wb_url w);
                            body = we_marshal en (JObj [(''event'', JStr ''webhook.test''),
                              (''site_id'', JNum (of_int (we_site en))),
                              (''timestamp'', JStr (we_rfc3339 en (we_now en))),
                              (''payload'', JObj [(''test'', JBool True), (''message'', JStr ''Test delivery from HO'')])])
                        in case we_send en 0 (webhook_request en url secret body) of
                            BadRequest e \<Rightarrow> (error_result (''creating request: '' @ e), d)
                          | SendError e \<Rightarrow> (error_result (''delivery failed: '' @ e), d)
                          | Reply code resp \<Rightarrow>
                             (let resp = take 4096 resp
                              in (ToolResult \<lparr>tr_success = status_ok code,
                                    tr_data = Some (JObj [(''name'', JStr name), (''url'', JStr url),
                                      (''status_code'', JNum (of_int code)), (''response'', JStr resp)]),
                                    tr_error = []\<rparr>,
                                  add_log \<lparr>wl_webhook = wb_id w, wl_direction = ''outgoing'',
                                    wl_event = ''webhook.test'', wl_payload = body, wl_status = Some code,
                                    wl_response = Some resp, wl_success = status_ok code\<rparr> d)))))"

definition infer_webhook_action :: "jobj \<Rightarrow> string" where
  "infer_webhook_action a =
     (if map_of a ''event_types'' \<noteq> None then ''subscribe''
      else if map_of a ''url'' \<noteq> None then ''create''
      else if map_of a ''is_enabled'' \<noteq> None then ''update''
      else if map_of a ''name'' \<noteq> None then ''get''
      else ''list'')"

definition webhooks_tool :: "webhook_env \<Rightarrow> webhook_db action_handler" where
  "webhooks_tool en =
     dispatch_action [(''create'', webhook_create en), (''get'', webhook_get en), (''list'', webhook_list en),
       (''delete'', webhook_delete), (''update'', webhook_update), (''subscribe'', webhook_subscribe),
       (''test'', webhook_test en)] (Some infer_webhook_action)"

section \<open>Receiving\<close>

text \<open>The answer of the route, and the event \<open>webhook.received\<close> it publishes.\<close>

datatype webhook_answer = Refused int string | Received

record received_event =
  re_webhook :: int
  re_name :: string
  re_payload :: "jobj option"

definition signature_of :: "string \<Rightarrow> string \<Rightarrow> string" where
  "signature_of own hub = (if own = [] then hub else own)"

definition signature_ok :: "webhook_env \<Rightarrow> string \<Rightarrow> string \<Rightarrow> string \<Rightarrow> bool" where
  "signature_ok en secret signature body =
     (secret \<noteq> [] \<and> signature \<noteq> [] \<longrightarrow>
        hex_decode (trim_prefix signature ''sha256='') = Some (we_hmac en secret body))"

text \<open>\<open>own\<close> and \<open>hub\<close> are the headers \<open>X-Webhook-Signature\<close> and \<open>X-Hub-Signature-256\<close>, empty when absent. A
  webhook without a secret cannot be scanned. The body is cut at one megabyte.\<close>

definition incoming_webhook ::
  "webhook_env \<Rightarrow> string \<Rightarrow> string \<Rightarrow> string \<Rightarrow> string \<Rightarrow> webhook_db
     \<Rightarrow> webhook_answer \<times> received_event option \<times> webhook_db" where
  "incoming_webhook en name own hub raw d =
     (if name = [] then (Refused 404 ''webhook name required'', None, d)
      else case (case find_webhook name d of
                   Some w \<Rightarrow> (case wb_secret w of Some s \<Rightarrow> Some (w, s) | None \<Rightarrow> None) | None \<Rightarrow> None) of
          None \<Rightarrow> (Refused 404 ''webhook not found'', None, d)
        | Some (w, secret) \<Rightarrow>
           if \<not> wb_enabled w then (Refused 403 ''webhook is disabled'', None, d)
           else (let body = take 1048576 raw
                 in if \<not> signature_ok en secret (signature_of own hub) body
                    then (Refused 401 ''invalid signature'', None, d)
                    else (Received,
                      Some \<lparr>re_webhook = wb_id w, re_name = name,
                        re_payload = (case unmarshal body of Some (JObj m) \<Rightarrow> Some m | _ \<Rightarrow> None)\<rparr>,
                      add_log \<lparr>wl_webhook = wb_id w, wl_direction = ''incoming'', wl_event = ''webhook.received'',
                        wl_payload = body, wl_status = None, wl_response = None, wl_success = True\<rparr>
                        (touch (wb_id w) (we_now en) d))))"

section \<open>Sending\<close>

record out_event =
  oe_type :: string
  oe_site :: int
  oe_payload :: json
  oe_time :: json

text \<open>The webhooks an event goes to: one for each subscription whose webhook is enabled and has an URL.\<close>

definition event_targets :: "string \<Rightarrow> webhook_db \<Rightarrow> webhook list" where
  "event_targets et d =
     filter (\<lambda>w. (wb_id w, et) \<in> set (wd_subs d) \<and> wb_enabled w \<and> wb_url w \<noteq> None \<and> wb_url w \<noteq> Some [])
       (wd_hooks d)"

text \<open>What a delivery remembers between its attempts: the status and the body of the last answer.\<close>

record delivery =
  dv_status :: int
  dv_response :: string
  dv_sent :: "nat list"
  dv_done :: bool

definition retry_wait :: "nat \<Rightarrow> nat" where
  "retry_wait n = n * n * 2"

definition deliver_attempt :: "webhook_env \<Rightarrow> http_job \<Rightarrow> nat \<Rightarrow> delivery \<Rightarrow> delivery" where
  "deliver_attempt en rq n s =
     (if dv_done s then s
      else case we_send en n rq of
          BadRequest _ \<Rightarrow> s
        | SendError _ \<Rightarrow> s\<lparr>dv_sent := dv_sent s @ [n]\<rparr>
        | Reply code body \<Rightarrow>
           s\<lparr>dv_sent := dv_sent s @ [n], dv_status := code, dv_response := take 4096 body,
             dv_done := status_ok code\<rparr>)"

definition outgoing_payload :: "webhook_env \<Rightarrow> out_event \<Rightarrow> string" where
  "outgoing_payload en ev =
     we_marshal en (JObj [(''event'', JStr (oe_type ev)), (''site_id'', JNum (of_int (oe_site ev))),
       (''payload'', oe_payload ev), (''timestamp'', oe_time ev)])"

definition deliver :: "webhook_env \<Rightarrow> webhook \<Rightarrow> out_event \<Rightarrow> webhook_db \<Rightarrow> delivery \<times> webhook_db" where
  "deliver en w ev d =
     (let payload = outgoing_payload en ev;
          rq = webhook_request en (null_string (wb_url w)) (null_string (wb_secret w)) payload;
          s = fold (deliver_attempt en rq) [0, 1, 2] \<lparr>dv_status = 0, dv_response = [], dv_sent = [], dv_done = False\<rparr>;
          d = add_log \<lparr>wl_webhook = wb_id w, wl_direction = ''outgoing'', wl_event = oe_type ev,
                wl_payload = payload, wl_status = Some (dv_status s), wl_response = Some (dv_response s),
                wl_success = dv_done s\<rparr> d
      in (s, if dv_done s then touch (wb_id w) (we_now en) d else d))"

text \<open>The deliveries of an event run in goroutines of their own; \<open>handle_event\<close> runs them in one order. A
  database that is not open is \<open>None\<close>.\<close>

definition dispatcher_handle_event :: "webhook_env \<Rightarrow> out_event \<Rightarrow> webhook_db option \<Rightarrow> webhook_db option" where
  "dispatcher_handle_event en ev st =
     (if oe_site ev = 0 then st
      else map_option (\<lambda>d. fold (\<lambda>w d. snd (deliver en w ev d)) (event_targets (oe_type ev) d) d) st)"

section \<open>Facts\<close>

definition webhooks_ok :: "webhook_db \<Rightarrow> bool" where
  "webhooks_ok d =
     (distinct (map wb_id (wd_hooks d)) \<and> distinct (map wb_name (wd_hooks d))
      \<and> list_all (\<lambda>w. wb_id w < wd_next d) (wd_hooks d)
      \<and> distinct (wd_subs d) \<and> fst ` set (wd_subs d) \<subseteq> wb_id ` set (wd_hooks d)
      \<and> wl_webhook ` set (wd_logs d) \<subseteq> wb_id ` set (wd_hooks d))"

lemma find_webhook_Some:
  "find_webhook name d = Some w \<Longrightarrow> w \<in> set (wd_hooks d) \<and> wb_name w = name"
  by (auto simp: find_webhook_def find_Some_iff)

lemma find_webhook_None: "find_webhook name d = None \<longleftrightarrow> name \<notin> wb_name ` set (wd_hooks d)"
  by (auto simp: find_webhook_def find_None_iff)

lemma webhooks_ok_map:
  assumes "webhooks_ok d" "\<And>w. wb_id (f w) = wb_id w" "\<And>w. wb_name (f w) = wb_name w"
  shows "webhooks_ok (d\<lparr>wd_hooks := map f (wd_hooks d)\<rparr>)"
  using assms by (auto simp: webhooks_ok_def comp_def list_all_iff image_image)

lemma webhooks_ok_log:
  assumes "webhooks_ok d" "wl_webhook l \<in> wb_id ` set (wd_hooks d)"
  shows "webhooks_ok (add_log l d)"
  using assms by (auto simp: webhooks_ok_def add_log_def)

lemma webhooks_ok_touch: "webhooks_ok d \<Longrightarrow> webhooks_ok (touch i now d)"
  unfolding touch_def by (rule webhooks_ok_map) simp_all

lemma touch_simps [simp]:
  "wb_id ` set (wd_hooks (touch i now d)) = wb_id ` set (wd_hooks d)"
  "wd_subs (touch i now d) = wd_subs d" "wd_logs (touch i now d) = wd_logs d"
  "wd_next (touch i now d) = wd_next d"
proof -
  show "wb_id ` set (wd_hooks (touch i now d)) = wb_id ` set (wd_hooks d)"
    using arg_cong [of "map wb_id (wd_hooks (touch i now d))" "map wb_id (wd_hooks d)" set]
    by (simp add: touch_def flip: set_map)
qed (simp_all add: touch_def)

lemma add_log_simps [simp]:
  "wd_hooks (add_log l d) = wd_hooks d" "wd_subs (add_log l d) = wd_subs d"
  "wd_logs (add_log l d) = wd_logs d @ [l]" "wd_next (add_log l d) = wd_next d"
  by (simp_all add: add_log_def)

lemma add_sub_simps [simp]:
  "wd_hooks (add_sub i et d) = wd_hooks d" "wd_logs (add_sub i et d) = wd_logs d"
  "set (wd_subs (add_sub i et d)) = insert (i, et) (set (wd_subs d))"
  by (auto simp: add_sub_def)

lemma webhooks_ok_subs:
  assumes "webhooks_ok d" "i \<in> wb_id ` set (wd_hooks d)"
  shows "webhooks_ok (fold (add_sub i) ets d)"
  using assms
proof (induction ets arbitrary: d)
  case (Cons et ets)
  have "webhooks_ok (add_sub i et d)"
    using Cons.prems by (auto simp: webhooks_ok_def add_sub_def)
  with Cons show ?case by simp
qed simp

lemma set_webhook_simps [simp]: "wb_id (set_webhook args w) = wb_id w" "wb_name (set_webhook args w) = wb_name w"
  by (auto simp: set_webhook_def Let_def split: option.split json.split)

section \<open>The tables stay well formed\<close>

lemma create_ok: "webhooks_ok d \<Longrightarrow> webhooks_ok (snd (webhook_create en args d))"
proof -
  assume ok: "webhooks_ok d"
  have "webhooks_ok (d\<lparr>wd_hooks := wd_hooks d @ [w], wd_next := wd_next d + 1\<rparr>)"
    if "wb_id w = wd_next d" "wb_name w \<notin> wb_name ` set (wd_hooks d)" for w
    using ok that by (force simp: webhooks_ok_def list_all_iff)
  with ok show ?thesis
    by (auto simp: webhook_create_def Let_def find_webhook_None split: option.split)
qed

lemma image_filter_neq: "f ` set (filter (\<lambda>x. f x \<noteq> i) xs) = f ` set xs - {i}"
  by auto

lemma webhooks_ok_remove:
  assumes "webhooks_ok d"
  shows "webhooks_ok (d\<lparr>wd_hooks := filter (\<lambda>v. wb_id v \<noteq> i) (wd_hooks d),
      wd_subs := filter (\<lambda>s. fst s \<noteq> i) (wd_subs d), wd_logs := filter (\<lambda>l. wl_webhook l \<noteq> i) (wd_logs d)\<rparr>)"
  using assms unfolding webhooks_ok_def
  by (auto simp: list_all_iff distinct_map_filter image_filter_neq Diff_mono simp del: set_filter
      dest: subsetD [OF filter_is_subset])

lemma delete_ok: "webhooks_ok d \<Longrightarrow> webhooks_ok (snd (webhook_delete args d))"
proof -
  assume ok: "webhooks_ok d"
  {
    fix w assume w: "find_webhook (get_str args ''name'') d = Some w"
    have "wb_id v = wb_id w \<longleftrightarrow> wb_name v = get_str args ''name''" if "v \<in> set (wd_hooks d)" for v
      using find_webhook_Some [OF w] that ok
      by (metis inj_onD distinct_map webhooks_ok_def)
    then have "filter (\<lambda>v. wb_name v \<noteq> get_str args ''name'') (wd_hooks d) = filter (\<lambda>v. wb_id v \<noteq> wb_id w) (wd_hooks d)"
      by (intro filter_cong) simp_all
    then have "webhooks_ok (snd (webhook_delete args d))"
      using webhooks_ok_remove [OF ok, of "wb_id w"] w ok by (simp add: webhook_delete_def Let_def)
  }
  with ok show ?thesis by (cases "find_webhook (get_str args ''name'') d") (simp_all add: webhook_delete_def Let_def)
qed

lemma update_ok: "webhooks_ok d \<Longrightarrow> webhooks_ok (snd (webhook_update args d))"
  using webhooks_ok_map [of d "\<lambda>w. if wb_name w = get_str args ''name'' then set_webhook args w else w"]
  by (simp add: webhook_update_def Let_def)

lemma subscribe_ok: "webhooks_ok d \<Longrightarrow> webhooks_ok (snd (webhook_subscribe args d))"
  by (auto simp: webhook_subscribe_def Let_def split: option.split
      intro!: webhooks_ok_subs dest: find_webhook_Some)

lemma test_ok: "webhooks_ok d \<Longrightarrow> webhooks_ok (snd (webhook_test en args d))"
  by (auto simp: webhook_test_def Let_def split: option.split attempt.split
      intro!: webhooks_ok_log dest: find_webhook_Some)

lemma read_ok: "snd (webhook_get en args d) = d" "snd (webhook_list en args d) = d"
  by (auto simp: webhook_get_def webhook_list_def Let_def split: option.split)

lemma webhooks_tool_ok:
  assumes "webhooks_ok d"
  shows "webhooks_ok (snd (webhooks_tool en args d))"
  using assms
  by (auto simp: webhooks_tool_def dispatch_action_def Let_def read_ok create_ok delete_ok update_ok
      subscribe_ok test_ok split: option.split)

lemma incoming_ok:
  assumes "webhooks_ok d"
  shows "webhooks_ok (snd (snd (incoming_webhook en name own hub raw d)))"
  using assms
  by (auto simp: incoming_webhook_def Let_def split: option.split
      intro!: webhooks_ok_log webhooks_ok_touch dest: find_webhook_Some)

section \<open>Deliveries\<close>

definition answers_ok :: "webhook_env \<Rightarrow> http_job \<Rightarrow> nat \<Rightarrow> bool" where
  "answers_ok en rq n = (case we_send en n rq of Reply code _ \<Rightarrow> status_ok code | _ \<Rightarrow> False)"

definition goes_out :: "webhook_env \<Rightarrow> http_job \<Rightarrow> nat \<Rightarrow> bool" where
  "goes_out en rq n = (case we_send en n rq of BadRequest _ \<Rightarrow> False | _ \<Rightarrow> True)"

text \<open>The attempts made: up to the first that succeeds.\<close>

definition tried :: "(nat \<Rightarrow> bool) \<Rightarrow> nat list \<Rightarrow> nat list" where
  "tried ok ns = takeWhile (\<lambda>n. \<not> ok n) ns @ take 1 (dropWhile (\<lambda>n. \<not> ok n) ns)"

lemma tried_simps [simp]:
  "tried ok [] = []" "tried ok (n # ns) = (if ok n then [n] else n # tried ok ns)"
  by (simp_all add: tried_def)

lemma deliver_attempt_cases:
  assumes "\<not> dv_done s"
  shows "dv_done (deliver_attempt en rq n s) \<longleftrightarrow> answers_ok en rq n"
    and "dv_sent (deliver_attempt en rq n s) = dv_sent s @ (if goes_out en rq n then [n] else [])"
  using assms by (simp_all add: deliver_attempt_def answers_ok_def goes_out_def split: attempt.split)

lemma deliver_done: "dv_done s \<Longrightarrow> fold (deliver_attempt en rq) ns s = s"
  by (induction ns) (simp_all add: deliver_attempt_def)

lemma deliver_attempts:
  assumes "\<not> dv_done s"
  shows "dv_done (fold (deliver_attempt en rq) ns s) \<longleftrightarrow> list_ex (answers_ok en rq) ns"
    and "dv_sent (fold (deliver_attempt en rq) ns s)
      = dv_sent s @ filter (goes_out en rq) (tried (answers_ok en rq) ns)"
  using assms
proof (induction ns arbitrary: s)
  case (Cons n ns)
  case 1
  with Cons.IH(1) [of "deliver_attempt en rq n s"] show ?case
    by (cases "answers_ok en rq n") (simp_all add: deliver_attempt_cases deliver_done)
  case 2
  with Cons.IH(2) [of "deliver_attempt en rq n s"] show ?case
    by (cases "answers_ok en rq n") (simp_all add: deliver_attempt_cases deliver_done)
qed simp_all

definition without_last :: "webhook_db \<Rightarrow> webhook list" where
  "without_last d = map (\<lambda>w. w\<lparr>wb_last := None\<rparr>) (wd_hooks d)"

lemma without_last_simps [simp]:
  "without_last (touch i now d) = without_last d" "without_last (add_log l d) = without_last d"
  by (simp_all add: without_last_def touch_def)

definition request_of :: "webhook_env \<Rightarrow> webhook \<Rightarrow> out_event \<Rightarrow> http_job" where
  "request_of en w ev =
     webhook_request en (null_string (wb_url w)) (null_string (wb_secret w)) (outgoing_payload en ev)"

text \<open>A delivery of an event to a webhook: it succeeds if and only if one of three attempts is answered with
  a status of the two hundreds; requests go out until the first that succeeds and never after it;
  and whatever happens one row is added to the log, with the outcome, while no webhook changes but
  in the time it was last triggered.\<close>

theorem delivery_settles:
  "(dv_done (fst (deliver en w ev d)) \<longleftrightarrow>
      answers_ok en (request_of en w ev) 0 \<or> answers_ok en (request_of en w ev) 1 \<or> answers_ok en (request_of en w ev) 2)
    \<and> dv_sent (fst (deliver en w ev d))
        = filter (goes_out en (request_of en w ev)) (tried (answers_ok en (request_of en w ev)) [0, 1, 2])
    \<and> map (\<lambda>l. (wl_webhook l, wl_event l, wl_success l)) (wd_logs (snd (deliver en w ev d)))
        = map (\<lambda>l. (wl_webhook l, wl_event l, wl_success l)) (wd_logs d)
          @ [(wb_id w, oe_type ev, dv_done (fst (deliver en w ev d)))]
    \<and> without_last (snd (deliver en w ev d)) = without_last d"
  using deliver_attempts [of "\<lparr>dv_status = 0, dv_response = [], dv_sent = [], dv_done = False\<rparr>" en
      "request_of en w ev" "[0, 1, 2]"]
  by (simp add: deliver_def Let_def request_of_def del: fold_simps tried_simps)

lemma deliver_logs:
  "\<exists>l. wd_logs (snd (deliver en w ev d)) = wd_logs d @ [l] \<and> wl_webhook l = wb_id w
     \<and> wl_event l = oe_type ev \<and> wl_payload l = outgoing_payload en ev"
  by (simp add: deliver_def Let_def)

lemma deliver_ok: "webhooks_ok d \<Longrightarrow> wb_id w \<in> wb_id ` set (wd_hooks d) \<Longrightarrow> webhooks_ok (snd (deliver en w ev d))"
  by (simp add: deliver_def Let_def webhooks_ok_log webhooks_ok_touch)

lemma deliver_ids: "wb_id ` set (wd_hooks (snd (deliver en w ev d))) = wb_id ` set (wd_hooks d)"
  by (simp add: deliver_def Let_def)

lemma deliver_all:
  assumes "webhooks_ok d" "wb_id ` set ws \<subseteq> wb_id ` set (wd_hooks d)"
  shows "webhooks_ok (fold (\<lambda>w d. snd (deliver en w ev d)) ws d)
    \<and> (\<exists>ls. wd_logs (fold (\<lambda>w d. snd (deliver en w ev d)) ws d) = wd_logs d @ ls
        \<and> map wl_webhook ls = map wb_id ws
        \<and> list_all (\<lambda>l. wl_event l = oe_type ev \<and> wl_payload l = outgoing_payload en ev) ls)"
  using assms
proof (induction ws arbitrary: d)
  case (Cons w ws)
  have "webhooks_ok (snd (deliver en w ev d))" "wb_id ` set ws \<subseteq> wb_id ` set (wd_hooks (snd (deliver en w ev d)))"
    using Cons.prems by (auto simp: deliver_ok deliver_ids)
  from Cons.IH [OF this] deliver_logs [of en w ev d] show ?case by force
qed simp


section \<open>Signatures\<close>

lemma hex_length: "hex_encode s = [] \<longleftrightarrow> s = []"
  by (cases s) (simp_all add: hex_encode_def)

lemma request_signature:
  "header_get ''x-webhook-signature'' (hj_headers (webhook_request en url secret body))
     = (if secret = [] then [] else ''sha256='' @ hex_encode (we_hmac en secret body))"
proof -
  have "to_lower ''X-Webhook-Signature'' = ''x-webhook-signature''" "to_lower ''Content-Type'' = ''content-type''"
    "to_lower ''User-Agent'' = ''user-agent''" by code_simp+
  then show ?thesis by (simp add: webhook_request_def header_get_def)
qed

text \<open>What one HO server sends to the webhook of another that knows the secret is accepted, and its body is
  what the event of the receiver carries.\<close>

theorem webhook_signature_roundtrip:
  assumes "find_webhook name d = Some w" "wb_secret w = Some secret" "wb_enabled w" "name \<noteq> []"
    and "we_hmac sender = we_hmac en" "length body \<le> 1048576"
  shows "fst (incoming_webhook en name
      (header_get ''x-webhook-signature'' (hj_headers (webhook_request sender url secret body))) hub body d) = Received"
  using assms
  by (cases "secret = []")
    (simp_all add: incoming_webhook_def Let_def request_signature signature_of_def signature_ok_def trim_prefix_def
      hex_decode_encode)

text \<open>C40. A payload that comes with a signature, for an enabled webhook with a secret, is accepted if and only if
  the signature is the code of the body under the secret; when it is refused nothing is stored and
  no event is published.\<close>

theorem webhook_signature_checked:
  assumes "find_webhook name d = Some w" "wb_secret w = Some secret" "wb_enabled w" "name \<noteq> []"
    and "secret \<noteq> []" "signature_of own hub \<noteq> []"
  shows "(fst (incoming_webhook en name own hub raw d) = Received
        \<longleftrightarrow> hex_decode (trim_prefix (signature_of own hub) ''sha256='') = Some (we_hmac en secret (take 1048576 raw)))
    \<and> (fst (incoming_webhook en name own hub raw d) = Received
        \<or> snd (incoming_webhook en name own hub raw d) = (None, d))"
  using assms by (simp add: incoming_webhook_def Let_def signature_ok_def)

text \<open>Whatever secret an enabled webhook has, a payload that comes without a signature is accepted as well: it
  is logged as a success and published as the event \<open>webhook.received\<close>.\<close>

theorem unsigned_webhook_accepted:
  assumes "find_webhook name d = Some w" "wb_secret w = Some secret" "wb_enabled w" "name \<noteq> []"
  shows "fst (incoming_webhook en name [] [] raw d) = Received
    \<and> map_option (\<lambda>e. (re_name e, re_payload e)) (fst (snd (incoming_webhook en name [] [] raw d)))
        = Some (name, case unmarshal (take 1048576 raw) of Some (JObj m) \<Rightarrow> Some m | _ \<Rightarrow> None)
    \<and> map wl_success (wd_logs (snd (snd (incoming_webhook en name [] [] raw d)))) = map wl_success (wd_logs d) @ [True]"
  using assms by (simp add: incoming_webhook_def Let_def signature_ok_def signature_of_def)

text \<open>An outgoing webhook receives as well, since the route looks for a name in either direction.\<close>

section \<open>Instances\<close>

definition demo_hook :: webhook where
  "demo_hook = \<lparr>wb_id = 1, wb_name = ''orders'', wb_secret = Some ''k'', wb_url = Some ''http://x'',
     wb_direction = ''outgoing'', wb_enabled = True, wb_last = None, wb_created = 0\<rparr>"

definition demo_hooks :: webhook_db where
  "demo_hooks = \<lparr>wd_hooks = [demo_hook], wd_subs = [(1, ''data.insert'')], wd_logs = [], wd_next = 2\<rparr>"

definition demo_hook_env :: webhook_env where
  "demo_hook_env = \<lparr>we_now = 0, we_site = 1, we_hmac = (\<lambda>k m. k @ m), we_secret = Some ''s'', we_unique = ''unique'',
     we_marshal = (\<lambda>_. ''body''), we_show_time = (\<lambda>_. JNull), we_rfc3339 = (\<lambda>_. []),
     we_send = (\<lambda>n _. if n = 1 then Reply 200 [] else SendError ''timeout'')\<rparr>"

lemma demo_hooks_find: "find_webhook ''orders'' demo_hooks = Some demo_hook"
  by (simp add: find_webhook_def demo_hooks_def demo_hook_def)


lemma webhook_signature_roundtrip_witness:
  "fst (incoming_webhook demo_hook_env ''orders'' (header_get ''x-webhook-signature''
      (hj_headers (webhook_request demo_hook_env ''http://x'' ''k'' ''body''))) [] ''body'' demo_hooks) = Received"
  by (rule webhook_signature_roundtrip [OF demo_hooks_find]) (simp_all add: demo_hook_def)

lemma webhook_signature_checked_witness:
  "fst (incoming_webhook demo_hook_env ''orders'' ''sha256=00'' [] ''body'' demo_hooks) \<noteq> Received"
proof -
  have "hex_decode (trim_prefix ''sha256=00'' ''sha256='') = Some [CHR 0x00]" by code_simp
  then show ?thesis
    using webhook_signature_checked [OF demo_hooks_find, of "''k''" "''sha256=00''" "[]" demo_hook_env "''body''"]
    by (simp add: demo_hook_def demo_hook_env_def signature_of_def)
qed

lemma unsigned_webhook_accepted_witness:
  "fst (incoming_webhook demo_hook_env ''orders'' [] [] ''{}'' demo_hooks) = Received"
  using unsigned_webhook_accepted [OF demo_hooks_find, of "''k''" demo_hook_env "''{}''"] by (simp add: demo_hook_def)

end
