(* ===== verification/Actions.thy ===== *)
theory Actions
  imports Webhooks WsHub
begin

text \<open>
  Server-side actions: the table \<open>ho_actions\<close>, the tool \<open>manage_actions\<close> (\<open>tools/actions.go\<close>), and
  the runner that executes the actions of an event (\<open>actions/runner.go\<close>): the filter, the
  placeholders of the configuration and the eight kinds of action. The JSON encoder, SQLite, the decryption of secrets and the answers of the called servers are in the
  environment.
\<close>

section \<open>The table and the tool\<close>

record action_row =
  ac_id :: int
  ac_name :: string
  ac_event :: string
  ac_filter :: "string option"
  ac_type :: string
  ac_config :: string
  ac_enabled :: bool
  ac_created :: instant

type_synonym actions_db = "action_row list"

text \<open>The key of a table without \<open>AUTOINCREMENT\<close>.\<close>

definition next_rowid :: "actions_db \<Rightarrow> int" where
  "next_rowid d = Max (insert 0 (set (map ac_id d))) + 1"

definition action_types :: "string list" where
  "action_types = [''send_email'', ''http_request'', ''insert_data'', ''update_data'', ''trigger_webhook'',
     ''ws_broadcast'', ''run_sql'', ''enqueue_job'']"

definition quoted :: "string \<Rightarrow> string" where
  "quoted s = [CHR 0x27] @ s @ [CHR 0x27]"

definition action_create :: "instant \<Rightarrow> (json \<Rightarrow> string) \<Rightarrow> actions_db action_handler" where
  "action_create now marshal args d =
     (let name = get_str args ''name''; ev = get_str args ''event_type''; ty = get_str args ''action_type''
      in case get_obj_ok args ''action_config'' of
           None \<Rightarrow> (error_result ''name, event_type, action_type, and action_config are required'', d)
         | Some config \<Rightarrow>
            if name = [] \<or> ev = [] \<or> ty = []
            then (error_result ''name, event_type, action_type, and action_config are required'', d)
            else if ty \<notin> set action_types
            then (error_result (''invalid action_type '' @ quoted ty @ '' '' @ em_dash @ '' must be one of: ''
                    @ join '', '' action_types), d)
            else (ok_result (JObj [(''name'', JStr name), (''event_type'', JStr ev), (''action_type'', JStr ty)]),
                  d @ [\<lparr>ac_id = next_rowid d, ac_name = name, ac_event = ev,
                    ac_filter = map_option (\<lambda>f. marshal (JObj f)) (get_obj_ok args ''event_filter''),
                    ac_type = ty, ac_config = marshal (JObj config), ac_enabled = True, ac_created = now\<rparr>]))"

definition action_list :: "(instant \<Rightarrow> json) \<Rightarrow> actions_db action_handler" where
  "action_list show_time args d =
     (let rows = sort_by_le (\<lambda>a b. str_le (ac_name a) (ac_name b)) d
      in (ok_result (if rows = [] then JNull else JArr (map (\<lambda>a.
            JObj ([(''id'', JNum (of_int (ac_id a))), (''name'', JStr (ac_name a)),
                (''event_type'', JStr (ac_event a)), (''action_type'', JStr (ac_type a)),
                (''action_config'', JStr (ac_config a)), (''is_enabled'', JBool (ac_enabled a)),
                (''created_at'', show_time (ac_created a))]
              @ (case ac_filter a of Some f \<Rightarrow> [(''event_filter'', JStr f)] | None \<Rightarrow> []))) rows)), d))"

definition find_action :: "string \<Rightarrow> actions_db \<Rightarrow> action_row option" where
  "find_action name d = find (\<lambda>a. ac_name a = name) d"

definition action_not_found :: "string \<Rightarrow> tool_return" where
  "action_not_found name = error_result (''action '' @ quoted name @ '' not found'')"

definition set_action :: "(json \<Rightarrow> string) \<Rightarrow> jobj \<Rightarrow> action_row \<Rightarrow> action_row" where
  "set_action marshal args a =
     (let a = (case get_str_ok args ''event_type'' of Some s \<Rightarrow> a\<lparr>ac_event := s\<rparr> | None \<Rightarrow> a);
          a = (case get_str_ok args ''action_type'' of Some s \<Rightarrow> a\<lparr>ac_type := s\<rparr> | None \<Rightarrow> a);
          a = (case get_obj_ok args ''action_config'' of Some c \<Rightarrow> a\<lparr>ac_config := marshal (JObj c)\<rparr> | None \<Rightarrow> a);
          a = (case get_obj_ok args ''event_filter'' of Some f \<Rightarrow> a\<lparr>ac_filter := Some (marshal (JObj f))\<rparr> | None \<Rightarrow> a)
      in case map_of args ''is_enabled'' of Some (JBool b) \<Rightarrow> a\<lparr>ac_enabled := b\<rparr> | _ \<Rightarrow> a)"

definition action_has_update :: "jobj \<Rightarrow> bool" where
  "action_has_update args =
     (get_str_ok args ''event_type'' \<noteq> None \<or> get_str_ok args ''action_type'' \<noteq> None
      \<or> get_obj_ok args ''action_config'' \<noteq> None \<or> get_obj_ok args ''event_filter'' \<noteq> None
      \<or> (case map_of args ''is_enabled'' of Some (JBool _) \<Rightarrow> True | _ \<Rightarrow> False))"

definition action_update :: "(json \<Rightarrow> string) \<Rightarrow> actions_db action_handler" where
  "action_update marshal args d =
     (let name = get_str args ''name''
      in if name = [] then (error_result ''name is required'', d)
         else case find_action name d of
             None \<Rightarrow> (action_not_found name, d)
           | Some a \<Rightarrow>
              if \<not> action_has_update args then (error_result ''nothing to update'', d)
              else (ok_result (JObj [(''name'', JStr name), (''updated'', JBool True)]),
                    map (\<lambda>b. if ac_id b = ac_id a then set_action marshal args b else b) d))"

definition action_delete :: "actions_db action_handler" where
  "action_delete args d =
     (let name = get_str args ''name''
      in if name = [] then (error_result ''name is required'', d)
         else if find_action name d = None then (action_not_found name, d)
         else (ok_result (JObj [(''name'', JStr name), (''deleted'', JBool True)]),
               filter (\<lambda>a. ac_name a \<noteq> name) d))"

section \<open>Filters and placeholders\<close>

text \<open>\<open>fmt.Sprintf("%v", v)\<close>, given the text of a number: lists in brackets, objects as maps in the
  order of their keys. The definitions below take it as \<open>sprint\<close>.\<close>

fun sprint_v :: "(rat \<Rightarrow> string) \<Rightarrow> json \<Rightarrow> string" where
  "sprint_v num JNull = ''<nil>''"
| "sprint_v num (JBool b) = (if b then ''true'' else ''false'')"
| "sprint_v num (JNum x) = num x"
| "sprint_v num (JStr s) = s"
| "sprint_v num (JArr xs) = ''['' @ join '' '' (map (sprint_v num) xs) @ '']''"
| "sprint_v num (JObj m) = ''map['' @ join '' '' (map (\<lambda>(k, t). k @ '':'' @ t)
     (sort_by_le (\<lambda>a b. str_le (fst a) (fst b)) (map (\<lambda>(k, v). (k, sprint_v num v)) m))) @ '']''"

definition filter_holds :: "(json \<Rightarrow> string) \<Rightarrow> jobj \<Rightarrow> jobj \<Rightarrow> bool" where
  "filter_holds sprint flt payload =
     list_all (\<lambda>(k, v). case map_of payload k of Some a \<Rightarrow> sprint a = sprint v | None \<Rightarrow> False) flt"

definition matches_filter :: "(json \<Rightarrow> string) \<Rightarrow> string \<Rightarrow> jobj \<Rightarrow> bool" where
  "matches_filter sprint flt payload =
     (case unmarshal_object flt of None \<Rightarrow> False | Some f \<Rightarrow> filter_holds sprint f payload)"

text \<open>The match of \<open>\{\{(\w+)\}\}\<close> at the start of a text: the name and what follows.\<close>

definition placeholder :: "string \<Rightarrow> (string \<times> string) option" where
  "placeholder s =
     (if \<not> has_prefix s ''{{'' then None
      else (let key = takeWhile ident_char (drop 2 s); rest = dropWhile ident_char (drop 2 s)
            in if key \<noteq> [] \<and> has_prefix rest ''}}'' then Some (key, drop 2 rest) else None))"

lemma placeholder_shorter: "placeholder s = Some (k, r) \<Longrightarrow> length r < length s"
  using length_dropWhile_le [of ident_char "drop 2 s"]
  by (auto simp: placeholder_def Let_def dest: prefix_length_le split: if_splits)

text \<open>The leftmost matches, none overlapping; \<open>val\<close> is the text of a name of the payload.\<close>

function resolve_text :: "(string \<Rightarrow> string option) \<Rightarrow> string \<Rightarrow> string" where
  "resolve_text val [] = []"
| "resolve_text val (c # s) =
     (case placeholder (c # s) of
        Some (key, r) \<Rightarrow>
          (case val key of Some t \<Rightarrow> t | None \<Rightarrow> ''{{'' @ key @ ''}}'') @ resolve_text val r
      | None \<Rightarrow> c # resolve_text val s)"
  by pat_completeness auto
termination
  by (relation "measure (\<lambda>(_, s). length s)") (auto dest: placeholder_shorter)

definition payload_text :: "(json \<Rightarrow> string) \<Rightarrow> jobj \<Rightarrow> string \<Rightarrow> string option" where
  "payload_text sprint payload key = map_option sprint (map_of payload key)"

definition resolve_template :: "(json \<Rightarrow> string) \<Rightarrow> string \<Rightarrow> jobj \<Rightarrow> string" where
  "resolve_template sprint template payload = resolve_text (payload_text sprint payload) template"

text \<open>\<open>strings.ReplaceAll\<close> of a text that is not empty.\<close>

function replace_all :: "string \<Rightarrow> string \<Rightarrow> string \<Rightarrow> string" where
  "replace_all old new [] = []"
| "replace_all old new (c # s) =
     (if old \<noteq> [] \<and> has_prefix (c # s) old then new @ replace_all old new (drop (length old) (c # s))
      else c # replace_all old new s)"
  by pat_completeness auto
termination
  by (relation "measure (\<lambda>(_, _, s). length s)") (auto dest: prefix_length_le)

definition braces :: "string \<Rightarrow> string" where
  "braces key = ''{{'' @ key @ ''}}''"

definition replace_vars :: "(json \<Rightarrow> string) \<Rightarrow> jobj \<Rightarrow> string \<Rightarrow> string" where
  "replace_vars sprint vars s = fold (\<lambda>(k, v). replace_all (braces k) (sprint v)) vars s"

text \<open>The dry run resolves key by key, in the order of the payload.\<close>

definition action_test :: "(json \<Rightarrow> string) \<Rightarrow> actions_db action_handler" where
  "action_test sprint args d =
     (let name = get_str args ''name''
      in case get_obj_ok args ''test_payload'' of
           None \<Rightarrow> (error_result ''name and test_payload are required'', d)
         | Some payload \<Rightarrow>
            if name = [] then (error_result ''name and test_payload are required'', d)
            else case find_action name d of
                None \<Rightarrow> (action_not_found name, d)
              | Some a \<Rightarrow>
                 (ok_result (JObj [(''action_type'', JStr (ac_type a)),
                    (''filter_match'', JBool (case unmarshal_object (null_string (ac_filter a)) of
                        Some f \<Rightarrow> null_string (ac_filter a) = [] \<or> filter_holds sprint f payload
                      | None \<Rightarrow> True)),
                    (''resolved_config'', JStr (replace_vars sprint payload (ac_config a))),
                    (''note'', JStr (''Dry run '' @ em_dash @ '' no action was executed''))]), d))"

definition actions_tool ::
  "instant \<Rightarrow> (json \<Rightarrow> string) \<Rightarrow> (json \<Rightarrow> string) \<Rightarrow> (instant \<Rightarrow> json) \<Rightarrow> actions_db action_handler" where
  "actions_tool now marshal sprint show_time =
     dispatch_action [(''create'', action_create now marshal), (''list'', action_list show_time),
       (''update'', action_update marshal), (''delete'', action_delete), (''test'', action_test sprint)] None"

end
