(* ===== verification/Runner.thy ===== *)
theory Runner
  imports Actions
begin

text \<open>
  The executors of \<open>actions/runner.go\<close> over the state they change: the tables of the site, the job
  queue, the webhook log, the rooms of the WebSocket hub and the requests sent. Which event runs
  which actions is \<open>runner_handle_event\<close>; each action runs in a goroutine of its own.
\<close>

section \<open>Environment and state\<close>

text \<open>
  \<open>av_float\<close> is the verb \<open>%v\<close> on a \<open>float64\<close> and \<open>av_num_text\<close> the text SQLite shows for one;
  \<open>av_bad\<close> is the error of building a request, \<open>av_http\<close> the error of sending it or the answer's
  status and body; \<open>av_exec\<close> executes a statement as given; \<open>av_arith\<close> adds (\<open>True\<close>) or subtracts
  two values; \<open>av_decrypt\<close> is None without an encryptor.
\<close>

record run_env =
  av_now :: instant
  av_engine :: sqlite
  av_error :: "sql_error \<Rightarrow> string"
  av_unsupported :: string
  av_float :: "rat \<Rightarrow> string"
  av_marshal :: "json \<Rightarrow> string"
  av_num_text :: "rat \<Rightarrow> string"
  av_arith :: "bool \<Rightarrow> sqlval \<Rightarrow> sqlval \<Rightarrow> sqlval"
  av_exec :: "string \<Rightarrow> database \<Rightarrow> string + database"
  av_decrypt :: "(string \<Rightarrow> string option) option"
  av_hmac :: "string \<Rightarrow> string \<Rightarrow> string"
  av_bad :: "http_job \<Rightarrow> string option"
  av_http :: "http_job \<Rightarrow> string + (int \<times> string)"
  av_broadcaster :: bool

record run_state =
  rs_db :: database
  rs_jobs :: "jobs_db option"
  rs_hooks :: webhook_db
  rs_hub :: ws_hub
  rs_sent :: "http_job list"

type_synonym executor = "run_env \<Rightarrow> jobj \<Rightarrow> run_state \<Rightarrow> string option \<times> run_state"

definition send_request :: "run_env \<Rightarrow> http_job \<Rightarrow> run_state \<Rightarrow> (string + int \<times> string) \<times> run_state" where
  "send_request en rq st = (av_http en rq, st\<lparr>rs_sent := rs_sent st @ [rq]\<rparr>)"

section \<open>Reading a row\<close>

text \<open>\<open>QueryRow\<close> with \<open>Scan\<close>; any error is treated as no row.\<close>

definition query_row :: "run_env \<Rightarrow> database \<Rightarrow> string \<Rightarrow> string list \<Rightarrow> cond list \<Rightarrow> sqlval list option" where
  "query_row en db tab cols cs =
     (case sql_select (av_engine en) db tab (Columns cols) cs None None of
        Inr (r # _) \<Rightarrow> Some (map snd r) | _ \<Rightarrow> None)"

fun scan_text :: "run_env \<Rightarrow> sqlval \<Rightarrow> string option" where
  "scan_text en SNull = None"
| "scan_text en (SInt n) = Some (itoa n)"
| "scan_text en (SReal x) = Some (av_num_text en x)"
| "scan_text en (SText s) = Some s"
| "scan_text en (SBlob s) = Some s"

definition query_texts :: "run_env \<Rightarrow> database \<Rightarrow> string \<Rightarrow> string list \<Rightarrow> cond list \<Rightarrow> string list option" where
  "query_texts en db tab cols cs =
     (case query_row en db tab cols cs of Some vs \<Rightarrow> those (map (scan_text en) vs) | None \<Rightarrow> None)"

section \<open>Mail\<close>

record mail =
  ml_to :: string
  ml_subject :: string
  ml_html :: string
  ml_text :: string

definition or_else :: "string \<Rightarrow> string \<Rightarrow> string" where
  "or_else s t = (if s = [] then t else s)"

definition load_mail :: "run_env \<Rightarrow> jobj \<Rightarrow> database \<Rightarrow> string + mail" where
  "load_mail en config db =
     (let m = \<lparr>ml_to = get_str config ''to'', ml_subject = get_str config ''subject'',
            ml_html = get_str config ''body_html'', ml_text = get_str config ''body_text''\<rparr>;
          tmpl = get_str config ''template_name''
      in if ml_to m = [] then Inl (''send_email: '' @ quoted ''to'' @ '' is required'')
         else if tmpl = [] then Inr m
         else case query_texts en db ''email_templates'' [''subject'', ''body_html'', ''body_text'']
                [Compare ''name'' ''='' (SText tmpl)] of
             Some [subject, html, text] \<Rightarrow>
               (let vars = (case get_obj_ok config ''template_vars'' of Some v \<Rightarrow> v | None \<Rightarrow> [])
                in Inr (m\<lparr>ml_subject := replace_vars (sprint_v (av_float en)) vars (or_else (ml_subject m) subject),
                          ml_html := replace_vars (sprint_v (av_float en)) vars (or_else (ml_html m) html),
                          ml_text := replace_vars (sprint_v (av_float en)) vars (or_else (ml_text m) text)\<rparr>))
           | _ \<Rightarrow> Inl (''send_email: template '' @ quoted tmpl @ '' not found''))"

definition mail_request :: "run_env \<Rightarrow> string \<Rightarrow> string \<Rightarrow> string \<Rightarrow> string \<Rightarrow> mail \<Rightarrow> http_job" where
  "mail_request en ptype base addr name m =
     (let url = trim_right_chars ''/'' base; sender = name @ '' <'' @ addr @ ''>'';
          post = (\<lambda>path ct body. \<lparr>hj_method = ''POST'', hj_url = url @ path,
                    hj_headers = [(''Content-Type'', ct)], hj_body = body\<rparr>)
      in if ptype = ''sendgrid'' then post ''/mail/send'' ''application/json''
             (av_marshal en (JObj [(''personalizations'', JArr [JObj [(''to'', JArr [JObj [(''email'', JStr (ml_to m))]])]]),
                (''from'', JObj [(''email'', JStr addr), (''name'', JStr name)]), (''subject'', JStr (ml_subject m)),
                (''content'', JArr [JObj [(''type'', JStr ''text/html''), (''value'', JStr (ml_html m))]])]))
         else if ptype = ''mailgun'' then post ''/messages'' ''application/x-www-form-urlencoded''
             (''from='' @ sender @ ''&to='' @ ml_to m @ ''&subject='' @ ml_subject m @ ''&html='' @ ml_html m)
         else if ptype = ''resend'' then post ''/emails'' ''application/json''
             (av_marshal en (JObj [(''from'', JStr sender), (''to'', JArr [JStr (ml_to m)]),
                (''subject'', JStr (ml_subject m)), (''html'', JStr (ml_html m))]))
         else post ''/send'' ''application/json''
             (av_marshal en (JObj [(''from'', JStr addr), (''to'', JStr (ml_to m)), (''subject'', JStr (ml_subject m)),
                (''html'', JStr (ml_html m)), (''text'', JStr (ml_text m))])))"

text \<open>The stored secret, as the header of the provider wants it.\<close>

definition auth_header :: "run_env \<Rightarrow> string \<Rightarrow> string \<Rightarrow> string \<Rightarrow> string option \<Rightarrow> database
    \<Rightarrow> string + (string \<times> string) list" where
  "auth_header en ty header pre secret db =
     (if ty = ''none'' \<or> null_string secret = [] then Inr []
      else case query_texts en db ''ho_secrets'' [''value_encrypted''] [Compare ''name'' ''='' (SText (null_string secret))] of
          Some [enc] \<Rightarrow>
            (case av_decrypt en of
               None \<Rightarrow> Inl ''send_email: encryption not available''
             | Some f \<Rightarrow>
                (case f enc of
                   None \<Rightarrow> Inl ''send_email: failed to decrypt secret''
                 | Some v \<Rightarrow>
                    Inr (if ty = ''bearer'' then [(header, pre @ '' '' @ v)]
                         else if ty = ''api_key_header'' then [(header, v)]
                         else if ty = ''basic'' then [(header, ''Basic '' @ v)] else [])))
        | _ \<Rightarrow> Inl (''send_email: secret '' @ quoted (null_string secret) @ '' not found''))"

definition load_provider :: "run_env \<Rightarrow> string \<Rightarrow> database
    \<Rightarrow> (string \<times> string \<times> string \<times> string \<times> string option) option" where
  "load_provider en name db =
     (case query_row en db ''ho_service_providers''
        [''base_url'', ''auth_type'', ''auth_header'', ''auth_prefix'', ''secret_name'']
        [Compare ''name'' ''='' (SText name), Compare ''is_enabled'' ''='' (SInt 1)] of
        Some [b, t, h, p, s] \<Rightarrow>
          (case those (map (scan_text en) [b, t, h, p]) of
             Some [base, ty, header, pre] \<Rightarrow> Some (base, ty, header, pre, scan_text en s) | _ \<Rightarrow> None)
      | _ \<Rightarrow> None)"

definition send_mail :: executor where
  "send_mail en config st =
     (case load_mail en config (rs_db st) of
        Inl e \<Rightarrow> (Some e, st)
      | Inr m \<Rightarrow>
         if ml_subject m = [] \<or> (ml_html m = [] \<and> ml_text m = [])
         then (Some ''send_email: subject and body are required'', st)
         else case query_texts en (rs_db st) ''email_config''
                [''provider_name'', ''provider_type'', ''from_address'', ''from_name''] [Compare ''id'' ''='' (SInt 1)] of
             Some [pname, ptype, addr, name] \<Rightarrow>
               (case load_provider en pname (rs_db st) of
                  None \<Rightarrow> (Some (''send_email: provider '' @ quoted pname @ '' not found or disabled''), st)
                | Some (base, ty, header, pre, secret) \<Rightarrow>
                   (let rq = mail_request en ptype base addr name m
                    in case av_bad en rq of
                         Some e \<Rightarrow> (Some (''send_email: creating request: '' @ e), st)
                       | None \<Rightarrow>
                          (case auth_header en ty header pre secret (rs_db st) of
                             Inl e \<Rightarrow> (Some e, st)
                           | Inr hs \<Rightarrow>
                              (case send_request en (rq\<lparr>hj_headers := hj_headers rq @ hs\<rparr>) st of
                                 (Inl e, st) \<Rightarrow> (Some (''send_email: '' @ e), st)
                               | (Inr (code, _), st) \<Rightarrow>
                                  (if code \<ge> 400 then Some (''send_email: provider returned '' @ itoa code) else None, st)))))
           | _ \<Rightarrow> (Some ''send_email: email not configured'', st))"

section \<open>Requests\<close>

definition action_request :: "run_env \<Rightarrow> jobj \<Rightarrow> http_job" where
  "action_request en config =
     \<lparr>hj_method = to_upper (or_else (get_str config ''method'') ''POST''), hj_url = get_str config ''url'',
      hj_headers = [(''Content-Type'', ''application/json''), (''User-Agent'', ''HO-Action/1.0'')]
        @ (case get_obj_ok config ''headers'' of Some h \<Rightarrow> map (\<lambda>(k, v). (k, sprint_v (av_float en) v)) h | None \<Rightarrow> []),
      hj_body = (case map_of config ''body'' of Some b \<Rightarrow> av_marshal en b | None \<Rightarrow> [])\<rparr>"

definition run_http_request :: executor where
  "run_http_request en config st =
     (let rq = action_request en config
      in if hj_url rq = [] then (Some (''http_request: '' @ quoted ''url'' @ '' is required''), st)
         else case av_bad en rq of
             Some e \<Rightarrow> (Some (''http_request: '' @ e), st)
           | None \<Rightarrow>
              (case send_request en rq st of
                 (Inl e, st) \<Rightarrow> (Some (''http_request: '' @ e), st)
               | (Inr (code, _), st) \<Rightarrow>
                  (if code \<ge> 400 then Some (''http_request: returned '' @ itoa code) else None, st)))"

section \<open>Rows\<close>

definition plain_identifier :: "string \<Rightarrow> bool" where
  "plain_identifier s = (s \<noteq> [] \<and> ascii_letter (hd s) \<and> list_all ident_char s)"

definition bad_name :: "jobj \<Rightarrow> string option" where
  "bad_name m = map_option fst (find (\<lambda>(c, _). \<not> plain_identifier c) m)"

definition obj_arg :: "jobj \<Rightarrow> string \<Rightarrow> jobj" where
  "obj_arg config key = (case get_obj_ok config key of Some m \<Rightarrow> m | None \<Rightarrow> [])"

definition bind_json :: "jobj \<Rightarrow> (string \<times> sqlval) list option" where
  "bind_json m = bind_all (map (\<lambda>(c, v). (c, GJson v)) m)"

definition insert_data :: executor where
  "insert_data en config st =
     (let tab = get_str config ''table''; row = obj_arg config ''data''
      in if tab = [] \<or> row = []
         then (Some (''insert_data: '' @ quoted ''table'' @ '' and '' @ quoted ''data'' @ '' are required''), st)
         else if \<not> plain_identifier tab then (Some (''insert_data: invalid table name: '' @ tab), st)
         else case bad_name row of
             Some c \<Rightarrow> (Some (''insert_data: invalid column name: '' @ c), st)
           | None \<Rightarrow>
              (case bind_json row of
                 None \<Rightarrow> (Some (''insert_data: '' @ av_unsupported en), st)
               | Some sets \<Rightarrow>
                  (case sql_insert (av_engine en) (rs_db st) tab sets of
                     Inl e \<Rightarrow> (Some (''insert_data: '' @ av_error en e), st)
                   | Inr (_, db) \<Rightarrow> (None, st\<lparr>rs_db := db\<rparr>))))"

text \<open>A set clause: a value, or the amount to add to the column or to take from it.\<close>

datatype set_expr = SetTo sqlval | SetAdd sqlval | SetSub sqlval

definition set_clause :: "json \<Rightarrow> set_expr option" where
  "set_clause v =
     (case v of
        JObj m \<Rightarrow>
          (case map_of m ''$increment'' of
             Some x \<Rightarrow> map_option SetAdd (bind_value (GJson x))
           | None \<Rightarrow>
              (case map_of m ''$decrement'' of
                 Some x \<Rightarrow> map_option SetSub (bind_value (GJson x)) | None \<Rightarrow> None))
      | _ \<Rightarrow> map_option SetTo (bind_value (GJson v)))"

fun set_clauses :: "jobj \<Rightarrow> (string \<times> set_expr) list option" where
  "set_clauses [] = Some []"
| "set_clauses ((c, v) # m) =
     (case (set_clause v, set_clauses m) of (Some x, Some xs) \<Rightarrow> Some ((c, x) # xs) | _ \<Rightarrow> None)"

fun eval_expr :: "run_env \<Rightarrow> sql_table \<Rightarrow> sql_row \<Rightarrow> string \<times> set_expr \<Rightarrow> string \<times> sqlval" where
  "eval_expr en t r (c, SetTo v) = (c, v)"
| "eval_expr en t r (c, SetAdd v) = (c, av_arith en True (value_of t r c) v)"
| "eval_expr en t r (c, SetSub v) = (c, av_arith en False (value_of t r c) v)"

text \<open>\<open>UPDATE\<close> with expressions, which read the row as it was.\<close>

definition sql_update_expr ::
  "run_env \<Rightarrow> database \<Rightarrow> string \<Rightarrow> (string \<times> set_expr) list \<Rightarrow> cond list \<Rightarrow> sql_error + database" where
  "sql_update_expr en db tab sets cs =
     (let e = av_engine en
      in case find_table db tab of None \<Rightarrow> Inl (NoSuchTable tab)
         | Some t \<Rightarrow>
            (case check_names e t (map fst sets @ concat (map cond_names cs)) of
               Some err \<Rightarrow> Inl err
             | None \<Rightarrow>
                (let upd = (\<lambda>r. assign e t (map (eval_expr en t r) sets) r);
                     t' = t\<lparr>st_rows := map (\<lambda>r. if matches e t cs r then upd r else r) (st_rows t)\<rparr>
                 in if list_all (\<lambda>r. sq_accepts e t' (upd r)) (filter (matches e t cs) (st_rows t))
                    then Inr (put_table tab t' db) else Inl ConstraintFailed)))"

definition update_data :: executor where
  "update_data en config st =
     (let tab = get_str config ''table''; sets = obj_arg config ''set''; wh = obj_arg config ''where''
      in if tab = [] \<or> sets = [] \<or> wh = []
         then (Some (''update_data: '' @ quoted ''table'' @ '', '' @ quoted ''set'' @ '', and '' @ quoted ''where''
                @ '' are required (got table='' @ go_quote tab @ '', set keys='' @ itoa (int (length sets))
                @ '', where keys='' @ itoa (int (length wh)) @ '')''), st)
         else if \<not> plain_identifier tab then (Some (''update_data: invalid table name: '' @ tab), st)
         else case bad_name sets of
             Some c \<Rightarrow> (Some (''update_data: invalid column name in set: '' @ c), st)
           | None \<Rightarrow>
              (case bad_name wh of
                 Some c \<Rightarrow> (Some (''update_data: invalid column name in where: '' @ c), st)
               | None \<Rightarrow>
                  (case (set_clauses sets, bind_json wh) of
                     (Some xs, Some cs) \<Rightarrow>
                       (case sql_update_expr en (rs_db st) tab xs (map (\<lambda>(c, v). Compare c ''='' v) cs) of
                          Inl e \<Rightarrow> (Some (''update_data: '' @ av_error en e), st)
                        | Inr db \<Rightarrow> (None, st\<lparr>rs_db := db\<rparr>))
                   | _ \<Rightarrow> (Some (''update_data: '' @ av_unsupported en), st))))"

definition blocked_statements :: "string list" where
  "blocked_statements = [''DROP '', ''ALTER '', ''DELETE '', ''TRUNCATE '', ''CREATE '', ''ATTACH '', ''DETACH '']"

definition run_sql :: executor where
  "run_sql en config st =
     (let q = get_str config ''sql''; upper = to_upper (trim_space q)
      in if q = [] then (Some (''run_sql: '' @ quoted ''sql'' @ '' is required''), st)
         else case find (has_prefix upper) blocked_statements of
             Some b \<Rightarrow> (Some (''run_sql: '' @ quoted (trim_space b) @ '' statements are not allowed''), st)
           | None \<Rightarrow>
              (case av_exec en q (rs_db st) of
                 Inl e \<Rightarrow> (Some (''run_sql: '' @ e), st)
               | Inr db \<Rightarrow> (None, st\<lparr>rs_db := db\<rparr>)))"

section \<open>Webhooks, rooms and jobs\<close>

text \<open>The webhook of a name, which must be outgoing; a missing address or secret cannot be scanned.\<close>

definition outgoing_webhook :: "string \<Rightarrow> webhook_db \<Rightarrow> (webhook \<times> string \<times> string) option" where
  "outgoing_webhook name d =
     (case find (\<lambda>w. wb_name w = name \<and> wb_direction w = ''outgoing'') (wd_hooks d) of
        Some w \<Rightarrow> (case (wb_url w, wb_secret w) of (Some u, Some s) \<Rightarrow> Some (w, u, s) | _ \<Rightarrow> None)
      | None \<Rightarrow> None)"

definition trigger_request :: "run_env \<Rightarrow> string \<Rightarrow> string \<Rightarrow> string \<Rightarrow> http_job" where
  "trigger_request en url secret body =
     \<lparr>hj_method = ''POST'', hj_url = url,
      hj_headers = [(''Content-Type'', ''application/json''), (''User-Agent'', ''HO-Webhook/1.0'')]
        @ (if secret \<noteq> [] then [(''X-Webhook-Signature'', ''sha256='' @ hex_encode (av_hmac en secret body))] else []),
      hj_body = body\<rparr>"

definition log_trigger ::
  "int \<Rightarrow> string \<Rightarrow> string \<Rightarrow> int \<Rightarrow> string option \<Rightarrow> bool \<Rightarrow> run_state \<Rightarrow> run_state" where
  "log_trigger i et body code resp ok st =
     st\<lparr>rs_hooks := add_log \<lparr>wl_webhook = i, wl_direction = ''outgoing'', wl_event = et, wl_payload = body,
          wl_status = Some code, wl_response = resp, wl_success = ok\<rparr> (rs_hooks st)\<rparr>"

definition trigger_webhook :: "string \<Rightarrow> jobj \<Rightarrow> executor" where
  "trigger_webhook et payload en config st =
     (let name = get_str config ''webhook_name''
      in if name = [] then (Some (''trigger_webhook: '' @ quoted ''webhook_name'' @ '' is required''), st)
         else case outgoing_webhook name (rs_hooks st) of
             None \<Rightarrow> (Some (''trigger_webhook: outgoing webhook '' @ quoted name @ '' not found''), st)
           | Some (w, url, secret) \<Rightarrow>
              if \<not> wb_enabled w then (Some (''trigger_webhook: webhook '' @ quoted name @ '' is disabled''), st)
              else if url = [] then (Some (''trigger_webhook: webhook '' @ quoted name @ '' has no URL''), st)
              else (let body = av_marshal en (JObj (case get_obj_ok config ''payload'' of Some p \<Rightarrow> p | None \<Rightarrow> payload));
                        rq = trigger_request en url secret body
                    in case av_bad en rq of
                         Some e \<Rightarrow> (Some (''trigger_webhook: creating request: '' @ e), st)
                       | None \<Rightarrow>
                          (case send_request en rq st of
                             (Inl e, st) \<Rightarrow> (Some (''trigger_webhook: '' @ e), log_trigger (wb_id w) et body 0 None False st)
                           | (Inr (code, resp), st) \<Rightarrow>
                              (if code \<ge> 400 then Some (''trigger_webhook: webhook returned '' @ itoa code) else None,
                               log_trigger (wb_id w) et body code (Some (take 4096 resp)) (code < 400) st))))"

definition ws_broadcast :: "int \<Rightarrow> jobj \<Rightarrow> executor" where
  "ws_broadcast site payload en config st =
     (let path = get_str config ''endpoint_path''; room = or_else (get_str config ''room'') ''default'';
          msg = (case map_of config ''message'' of None \<Rightarrow> JObj payload | Some JNull \<Rightarrow> JObj payload | Some m \<Rightarrow> m)
      in if \<not> av_broadcaster en then (Some ''ws_broadcast: WebSocket broadcaster not available'', st)
         else if path = [] then (Some (''ws_broadcast: '' @ quoted ''endpoint_path'' @ '' is required''), st)
         else (None, st\<lparr>rs_hub := broadcast_to_room (ws_room_key site path room) (av_marshal en msg) (rs_hub st)\<rparr>))"

definition enqueue_job :: executor where
  "enqueue_job en config st =
     (let (e, j) = execute_enqueue_job (av_now en) (av_marshal en) (av_num_text en) (av_unsupported en) config (rs_jobs st)
      in (e, st\<lparr>rs_jobs := j\<rparr>))"

section \<open>An action\<close>

datatype run_outcome = BadConfig | UnknownAction | ActionFailed string | ActionDone

record run_event =
  ev_site :: int
  ev_type :: string
  ev_payload :: jobj

definition action_executor :: "run_event \<Rightarrow> string \<Rightarrow> executor option" where
  "action_executor ev ty = map_of
     [(''send_email'', send_mail), (''http_request'', run_http_request), (''insert_data'', insert_data),
      (''update_data'', update_data), (''trigger_webhook'', trigger_webhook (ev_type ev) (ev_payload ev)),
      (''ws_broadcast'', ws_broadcast (ev_site ev) (ev_payload ev)), (''run_sql'', run_sql),
      (''enqueue_job'', enqueue_job)] ty"

definition run_action :: "run_env \<Rightarrow> run_event \<Rightarrow> action_row \<Rightarrow> run_state \<Rightarrow> run_outcome \<times> run_state" where
  "run_action en ev a st =
     (case unmarshal_object (resolve_template (sprint_v (av_float en)) (ac_config a) (ev_payload ev)) of
        None \<Rightarrow> (BadConfig, st)
      | Some config \<Rightarrow>
         (case action_executor ev (ac_type a) of
            None \<Rightarrow> (UnknownAction, st)
          | Some f \<Rightarrow> (let (e, st) = f en config st
                       in (case e of Some e \<Rightarrow> ActionFailed e | None \<Rightarrow> ActionDone, st))))"

text \<open>The actions an event starts, in the order of the table; None when the site's database is not open.\<close>

definition matched_actions :: "run_env \<Rightarrow> run_event \<Rightarrow> actions_db option \<Rightarrow> action_row list" where
  "matched_actions en ev acts =
     (if ev_site ev = 0 then []
      else case acts of None \<Rightarrow> []
         | Some d \<Rightarrow> filter (\<lambda>a. ac_event a = ev_type ev \<and> ac_enabled a
              \<and> (null_string (ac_filter a) \<noteq> [] \<longrightarrow>
                   matches_filter (sprint_v (av_float en)) (null_string (ac_filter a)) (ev_payload ev))) d)"

definition runner_handle_event :: "run_env \<Rightarrow> run_event \<Rightarrow> actions_db option \<Rightarrow> run_state \<Rightarrow> run_state" where
  "runner_handle_event en ev acts st = fold (\<lambda>a st. snd (run_action en ev a st)) (matched_actions en ev acts) st"

section \<open>What an action can change\<close>

lemma send_request_simps [simp]:
  "rs_db (snd (send_request en rq st)) = rs_db st" "rs_jobs (snd (send_request en rq st)) = rs_jobs st"
  "rs_hub (snd (send_request en rq st)) = rs_hub st" "rs_hooks (snd (send_request en rq st)) = rs_hooks st"
  by (simp_all add: send_request_def)

lemma log_trigger_simps [simp]:
  "rs_db (log_trigger i et body code resp ok st) = rs_db st"
  "rs_jobs (log_trigger i et body code resp ok st) = rs_jobs st"
  "rs_hub (log_trigger i et body code resp ok st) = rs_hub st"
  by (simp_all add: log_trigger_def)

text \<open>What the site keeps of the work of an executor: its tables, its jobs, its rooms.\<close>

definition site_part :: "run_state \<Rightarrow> database \<times> jobs_db option \<times> ws_hub" where
  "site_part st = (rs_db st, rs_jobs st, rs_hub st)"

lemma senders_keep:
  "site_part (snd (send_mail en config st)) = site_part st"
  "site_part (snd (run_http_request en config st)) = site_part st"
  "site_part (snd (trigger_webhook et payload en config st)) = site_part st"
  by (auto simp: site_part_def send_mail_def run_http_request_def trigger_webhook_def send_request_def Let_def
      split: sum.split option.split list.split if_split)

lemma writers_fail_clean:
  assumes "fst (f en config st) = Some e"
    "f \<in> {insert_data, update_data, run_sql, enqueue_job, ws_broadcast site payload}"
  shows "site_part (snd (f en config st)) = site_part st"
  using assms
  by (auto simp: site_part_def insert_data_def update_data_def run_sql_def enqueue_job_def ws_broadcast_def
      execute_enqueue_job_def Let_def split: sum.splits option.splits if_splits)


section \<open>Values in the text of a configuration\<close>

text \<open>The example of the tool's guide, which counts the likes of a post, and a request body whose \<open>post_id\<close>
  closes the string it is put into.\<close>

definition likes_action :: action_row where
  "likes_action = \<lparr>ac_id = 1, ac_name = ''increment-post-likes'', ac_event = ''data.insert'',
     ac_filter = Some ''{\"table\":\"post_likes\"}'', ac_type = ''update_data'',
     ac_config = ''{\"set\":{\"likes\":{\"$increment\":1}},\"table\":\"posts\",\"where\":{\"id\":\"{{post_id}}\"}}'',
     ac_enabled = True, ac_created = 0\<rparr>"

definition intruder :: string where
  "intruder = ''7\"},\"set\":{\"role\":\"admin\"},\"table\":\"users\",\"where\":{\"username\":\"mallory''"

definition like_event :: run_event where
  "like_event = \<lparr>ev_site = 1, ev_type = ''data.insert'',
     ev_payload = [(''table'', JStr ''post_likes''), (''post_id'', JStr intruder)]\<rparr>"

lemma intruder_config:
  "unmarshal_object (resolve_template (sprint_v num) (ac_config likes_action) (ev_payload like_event))
     = Some [(''set'', JObj [(''role'', JStr ''admin'')]), (''table'', JStr ''users''),
             (''where'', JObj [(''username'', JStr ''mallory'')])]"
  by code_simp

lemma honest_config:
  "unmarshal_object (resolve_template (sprint_v num) (ac_config likes_action) [(''post_id'', JStr ''7'')])
     = Some [(''set'', JObj [(''likes'', JObj [(''$increment'', JNum 1)])]), (''table'', JStr ''posts''),
             (''where'', JObj [(''id'', JStr ''7'')])]"
  by code_simp

text \<open>The values of an event are put into the configuration before it is parsed. With the example of the
  guide, a visitor who likes a post under a \<open>post_id\<close> of their making has the action set a column
  of a table of their choice, here the role of a user.\<close>

theorem template_injection:
  "matched_actions en like_event (Some [likes_action]) = [likes_action]
   \<and> run_action en like_event likes_action st =
      (case sql_update_expr en (rs_db st) ''users'' [(''role'', SetTo (SText ''admin''))]
              [Compare ''username'' ''='' (SText ''mallory'')] of
         Inl e \<Rightarrow> (ActionFailed (''update_data: '' @ av_error en e), st)
       | Inr db \<Rightarrow> (ActionDone, st\<lparr>rs_db := db\<rparr>))"
proof
  have "unmarshal_object ''{\"table\":\"post_likes\"}'' = Some [(''table'', JStr ''post_likes'')]" by code_simp
  then show "matched_actions en like_event (Some [likes_action]) = [likes_action]"
    by (simp add: matched_actions_def like_event_def likes_action_def null_string_def matches_filter_def filter_holds_def)
  have names: "plain_identifier ''users''" "plain_identifier ''role''" "plain_identifier ''username''" by code_simp+
  show "run_action en like_event likes_action st =
      (case sql_update_expr en (rs_db st) ''users'' [(''role'', SetTo (SText ''admin''))]
              [Compare ''username'' ''='' (SText ''mallory'')] of
         Inl e \<Rightarrow> (ActionFailed (''update_data: '' @ av_error en e), st)
       | Inr db \<Rightarrow> (ActionDone, st\<lparr>rs_db := db\<rparr>))"
    using names
    by (simp add: run_action_def intruder_config action_executor_def likes_action_def [THEN arg_cong, of ac_type]
        update_data_def obj_arg_def get_str_def get_str_ok_def get_obj_ok_def bad_name_def set_clause_def bind_json_def
        split: sum.split)
qed

text \<open>The statements \<open>run_sql\<close> refuses are recognised by a keyword and a blank: with any other white space
  after the keyword the statement is executed.\<close>

theorem run_sql_guard_bypassed:
  "run_sql en [(''sql'', JStr (''DELETE'' @ [CHR 0x0A] @ ''FROM users''))] st =
     (case av_exec en (''DELETE'' @ [CHR 0x0A] @ ''FROM users'') (rs_db st) of
        Inl e \<Rightarrow> (Some (''run_sql: '' @ e), st) | Inr db \<Rightarrow> (None, st\<lparr>rs_db := db\<rparr>))
   \<and> run_sql en [(''sql'', JStr ''DELETE FROM users'')] st
     = (Some (''run_sql: '' @ quoted ''DELETE'' @ '' statements are not allowed''), st)"
proof -
  have "find (has_prefix (to_upper (trim_space (''DELETE'' @ [CHR 0x0A] @ ''FROM users'')))) blocked_statements = None"
    "find (has_prefix (to_upper (trim_space ''DELETE FROM users''))) blocked_statements = Some ''DELETE ''"
    "trim_space ''DELETE '' = ''DELETE''" by code_simp+
  then show ?thesis by (simp add: run_sql_def get_str_def get_str_ok_def Let_def)
qed

text \<open>The dry run replaces a name the runner leaves alone.\<close>

lemma dry_run_differs:
  "replace_vars (sprint_v num) [(''first-name'', JStr ''Ada'')] ''{\"who\":\"{{first-name}}\"}'' = ''{\"who\":\"Ada\"}''
   \<and> resolve_template (sprint_v num) ''{\"who\":\"{{first-name}}\"}'' [(''first-name'', JStr ''Ada'')]
       = ''{\"who\":\"{{first-name}}\"}''"
  by code_simp

definition demo_run_env :: run_env where
  "demo_run_env = \<lparr>av_now = 0, av_engine = plain_engine, av_error = (\<lambda>_. ''error''), av_unsupported = ''unsupported'',
     av_float = (\<lambda>_. []), av_marshal = (\<lambda>_. []), av_num_text = (\<lambda>_. []), av_arith = (\<lambda>_ x _. x),
     av_exec = (\<lambda>_ _. Inl ''error''), av_decrypt = None, av_hmac = (\<lambda>k m. k @ m), av_bad = (\<lambda>_. None),
     av_http = (\<lambda>_. Inr (200, [])), av_broadcaster = True\<rparr>"

definition demo_run_state :: run_state where
  "demo_run_state = \<lparr>rs_db = [(''posts'', \<lparr>st_columns = [], st_rows = [], st_seq = 0\<rparr>)], rs_jobs = None,
     rs_hooks = demo_hooks, rs_hub = new_ws_hub, rs_sent = []\<rparr>"


section \<open>The audit log\<close>

record activity_row =
  ay_type :: string
  ay_summary :: string
  ay_details :: string

definition audited_types :: "string list" where
  "audited_types = [''auth.register'', ''auth.login'', ''payment.completed'', ''payment.failed'', ''data.insert'',
     ''data.update'', ''data.delete'', ''schema.created'', ''schema.altered'', ''secret.stored'', ''settings.changed'']"

text \<open>A missing value prints as nil.\<close>

definition show_value :: "run_env \<Rightarrow> jobj \<Rightarrow> string \<Rightarrow> string" where
  "show_value en p k = sprint_v (av_float en) (case map_of p k of Some v \<Rightarrow> v | None \<Rightarrow> JNull)"

definition build_audit_summary :: "run_env \<Rightarrow> run_event \<Rightarrow> string" where
  "build_audit_summary en ev =
     (let v = show_value en (ev_payload ev); ty = ev_type ev
      in if ty = ''auth.register'' then ''New user registered in '' @ v ''table''
         else if ty = ''auth.login'' then ''User logged in (table: '' @ v ''table'' @ '')''
         else if ty = ''payment.completed'' then ''Payment completed: '' @ v ''session_id''
         else if ty = ''payment.failed'' then ''Payment failed: '' @ v ''session_id''
         else if ty = ''data.insert'' then ''Row inserted in '' @ v ''table''
         else if ty = ''data.update'' then ''Row updated in '' @ v ''table'' @ '' (id: '' @ v ''id'' @ '')''
         else if ty = ''data.delete'' then ''Row deleted from '' @ v ''table'' @ '' (id: '' @ v ''id'' @ '')''
         else if ty = ''schema.created'' then ''Table created: '' @ v ''table''
         else if ty = ''schema.altered'' then ''Table altered: '' @ v ''table''
         else if ty = ''secret.stored'' then ''Secret stored: '' @ v ''name''
         else if ty = ''settings.changed'' then ''Settings changed''
         else ty)"

definition audit_handle_event :: "run_env \<Rightarrow> run_event \<Rightarrow> activity_row list option \<Rightarrow> activity_row list option" where
  "audit_handle_event en ev logs =
     (if ev_site ev = 0 then logs
      else map_option (\<lambda>l. l @ [\<lparr>ay_type = ev_type ev, ay_summary = build_audit_summary en ev,
             ay_details = av_marshal en (JObj (ev_payload ev))\<rparr>]) logs)"

end
