(* ===== verification/Markup.thy ===== *)
theory Markup
  imports Regex Json SiteDb
begin

text \<open>
  The text processing behind the pages of a site (\<open>server/public/handler.go\<close>): the expressions that
  find tags, the functions that move them to the head or the end of a document, \<open>html.EscapeString\<close>,
  and the lexical path functions of \<open>path/filepath\<close> on Unix.
\<close>

section \<open>Matching\<close>

text \<open>The flag \<open>(?i)\<close>: a letter matches in both cases, and the letters s and k also match the long s and the
  Kelvin sign.\<close>

definition re_ci_char :: "char \<Rightarrow> regex" where
  "re_ci_char c =
     (let r = RChar (\<lambda>x. lower_char x = lower_char c)
      in if lower_char c = CHR ''s'' then RAlt r (re_lit [CHR 0xC5, CHR 0xBF])
         else if lower_char c = CHR ''k'' then RAlt r (re_lit [CHR 0xE2, CHR 0x84, CHR 0xAA])
         else r)"

definition re_ci :: "string \<Rightarrow> regex" where
  "re_ci s = re_seq (map re_ci_char s)"

text \<open>What a matcher leaves of a text it matches at the start.\<close>

type_synonym matcher = "string \<Rightarrow> string option"

definition re_matcher :: "regex \<Rightarrow> matcher" where
  "re_matcher r s = map_option snd (re_at r s)"

definition consumed :: "string \<Rightarrow> string \<Rightarrow> string" where
  "consumed s r = take (length s - length r) s"

text \<open>\<open>ReplaceAllStringFunc\<close> and \<open>FindAllString\<close>, for expressions that do not match the empty text.\<close>

function sub_all :: "matcher \<Rightarrow> (string \<Rightarrow> string) \<Rightarrow> string \<Rightarrow> string" where
  "sub_all m f [] = []"
| "sub_all m f (c # s) =
     (case m (c # s) of
        Some r \<Rightarrow> if length r < length (c # s) then f (consumed (c # s) r) @ sub_all m f r
                  else c # sub_all m f s
      | None \<Rightarrow> c # sub_all m f s)"
  by pat_completeness auto
termination by (relation "measure (\<lambda>(_, _, s). length s)") auto

function find_matches :: "matcher \<Rightarrow> string \<Rightarrow> string list" where
  "find_matches m [] = []"
| "find_matches m (c # s) =
     (case m (c # s) of
        Some r \<Rightarrow> if length r < length (c # s) then consumed (c # s) r # find_matches m r
                  else find_matches m s
      | None \<Rightarrow> find_matches m s)"
  by pat_completeness auto
termination by (relation "measure (\<lambda>(_, s). length s)") auto

definition drop_all :: "matcher \<Rightarrow> string \<Rightarrow> string" where
  "drop_all m = sub_all m (\<lambda>_. [])"

text \<open>The leftmost match of an expression, with its groups.\<close>

fun re_find :: "regex \<Rightarrow> string \<Rightarrow> match_state option" where
  "re_find r [] = re_at r []"
| "re_find r (c # s) = (case re_at r (c # s) of Some m \<Rightarrow> Some m | None \<Rightarrow> re_find r s)"

section \<open>Tags\<close>

definition re_not_gt :: regex where "re_not_gt = RStar (RChar (\<lambda>c. c \<noteq> CHR ''>''))"

definition re_quote :: regex where "re_quote = RChar (\<lambda>c. c = CHR 0x22 \<or> c = CHR 0x27)"

definition css_link :: matcher where
  "css_link = re_matcher (re_seq [re_ci ''<link'', re_not_gt, re_ci ''rel='', re_quote, re_ci ''stylesheet'',
     re_quote, re_not_gt, re_opt (re_lit ''/''), re_lit ''>''])"

text \<open>\<open>(?isU)<tag[\s>].*</tag>\<close>: up to the first closing tag.\<close>

fun after_first :: "regex \<Rightarrow> string \<Rightarrow> string option" where
  "after_first r [] = re_matcher r []"
| "after_first r (c # s) = (case re_matcher r (c # s) of Some t \<Rightarrow> Some t | None \<Rightarrow> after_first r s)"

definition block :: "string \<Rightarrow> matcher" where
  "block tag s =
     (case re_matcher (re_seq [re_ci (CHR ''<'' # tag), RChar (\<lambda>c. re_blank c \<or> c = CHR ''>'')]) s of
        Some r \<Rightarrow> after_first (re_ci (''</'' @ tag @ ''>'')) r | None \<Rightarrow> None)"

definition open_tag :: "string \<Rightarrow> regex" where
  "open_tag tag = re_seq [re_ci (CHR ''<'' # tag), re_not_gt, re_lit ''>'']"

definition close_tag :: "string \<Rightarrow> regex" where
  "close_tag tag = re_seq [re_ci (''</'' @ tag), RStar (RChar re_blank), re_lit ''>'']"

definition script_self_close :: matcher where
  "script_self_close = re_matcher (re_seq [re_ci ''<script'', re_not_gt, re_lit ''/'', RStar (RChar re_blank), re_lit ''>''])"

definition attr_value :: "string \<Rightarrow> regex" where
  "attr_value name = re_seq [re_ci name, RStar (RChar re_blank), re_lit ''='', RStar (RChar re_blank), re_quote,
     RGroup 1 (re_plus (RChar (\<lambda>c. c \<noteq> CHR 0x22 \<and> c \<noteq> CHR 0x27))), re_quote]"

definition extract_attr :: "string \<Rightarrow> string \<Rightarrow> string" where
  "extract_attr name tag = (case re_find (attr_value name) tag of Some m \<Rightarrow> group m 1 | None \<Rightarrow> [])"

definition extract_href :: "string \<Rightarrow> string" where "extract_href = extract_attr ''href''"
definition extract_src :: "string \<Rightarrow> string" where "extract_src = extract_attr ''src''"

text \<open>\<open>\bsrc\s*=\<close>: the flag says whether the character before is a word character.\<close>

fun has_src :: "bool \<Rightarrow> string \<Rightarrow> bool" where
  "has_src w [] = False"
| "has_src w (c # s) =
     ((\<not> w \<and> re_at (re_seq [re_ci ''src'', RStar (RChar re_blank), re_lit ''='']) (c # s) \<noteq> None
         \<and> word_char c)
      \<or> (w \<and> \<not> word_char c \<and> re_at (re_seq [re_ci ''src'', RStar (RChar re_blank), re_lit ''='']) (c # s) \<noteq> None)
      \<or> has_src (word_char c) s)"

definition script_open :: "string \<Rightarrow> string" where
  "script_open b = (case find_matches (re_matcher (open_tag ''script'')) b of [] \<Rightarrow> [] | t # _ \<Rightarrow> t)"

definition is_external_script :: "string \<Rightarrow> bool" where
  "is_external_script b = (script_open b \<noteq> [] \<and> has_src False (script_open b))"

definition extract_script_src :: "string \<Rightarrow> string" where
  "extract_script_src b = (if script_open b = [] then [] else extract_src (script_open b))"

text \<open>Style sheets and styles for the head, scripts for the end of the body, and the rest.\<close>

definition extract_asset_tags :: "string \<Rightarrow> string \<times> string \<times> string" where
  "extract_asset_tags c0 =
     (let links = find_matches css_link c0; c1 = drop_all css_link c0;
          styles = find_matches (block ''style'') c1; c2 = drop_all (block ''style'') c1;
          scripts = find_matches (block ''script'') c2; c3 = drop_all (block ''script'') c2;
          selfs = find_matches script_self_close c3; c4 = drop_all script_self_close c3
      in (join [CHR 0x0A] (links @ styles), join [CHR 0x0A] (scripts @ selfs), c4))"

text \<open>For the SPA: the addresses of style sheets and external scripts are taken out, inline code stays.\<close>

definition strip_for_spa :: "string \<Rightarrow> string \<times> string list \<times> string list" where
  "strip_for_spa c0 =
     (let css = filter (\<lambda>u. u \<noteq> []) (map extract_href (find_matches css_link c0)); c1 = drop_all css_link c0;
          js = filter (\<lambda>u. u \<noteq> []) (map extract_script_src (filter is_external_script (find_matches (block ''script'') c1)));
          c2 = sub_all (block ''script'') (\<lambda>b. if is_external_script b then [] else b) c1;
          js2 = filter (\<lambda>u. u \<noteq> []) (map extract_src (find_matches script_self_close c2));
          c3 = drop_all script_self_close c2
      in (trim_space c3, css, js @ js2))"

definition strip_document_shell :: "string \<Rightarrow> string" where
  "strip_document_shell c =
     (let lower = to_lower c
      in if \<not> contains lower ''<!doctype'' \<and> \<not> contains lower ''<html'' then c
         else (let rescued = concat (map (\<lambda>h. find_matches css_link h @ find_matches (block ''style'') h
                                  @ find_matches (block ''script'') h) (find_matches (block ''head'') c));
                   c = drop_all (re_matcher (open_tag ''!DOCTYPE'')) c;
                   c = drop_all (block ''head'') c;
                   c = drop_all (re_matcher (open_tag ''html'')) c;
                   c = drop_all (re_matcher (close_tag ''html'')) c;
                   c = drop_all (re_matcher (open_tag ''body'')) c;
                   c = drop_all (re_matcher (close_tag ''body'')) c
               in trim_space (if rescued \<noteq> [] then join [CHR 0x0A] rescued @ [CHR 0x0A] @ c else c)))"

text \<open>Tags that refer to one of the known assets are removed.\<close>

definition names_asset :: "string list \<Rightarrow> string \<Rightarrow> bool" where
  "names_asset names tag = list_ex (\<lambda>n. contains (to_lower tag) (''/assets/'' @ n)) names"

definition strip_asset_refs :: "string list \<Rightarrow> string \<Rightarrow> string" where
  "strip_asset_refs names c =
     (if names = [] then c
      else (let c = sub_all css_link (\<lambda>t. if names_asset names t then [] else t) c;
                c = sub_all (block ''script'') (\<lambda>t. if is_external_script t \<and> names_asset names t then [] else t) c
            in sub_all script_self_close (\<lambda>t. if names_asset names t then [] else t) c))"

section \<open>Components\<close>

definition include_ref :: regex where
  "include_ref = re_seq [re_lit ''{{include:'',
     RGroup 1 (re_plus (RChar (\<lambda>c. word_char c \<or> c = CHR ''-''))), re_lit ''}}'']"

definition include_name :: "string \<Rightarrow> string" where
  "include_name t = take (length t - 12) (drop 10 t)"

text \<open>Of the first twenty placeholders the components are loaded; each placeholder whose component was
  loaded is replaced, once.\<close>

definition resolve_components :: "(string, string) gomap \<Rightarrow> string \<Rightarrow> string" where
  "resolve_components comps c =
     (if \<not> contains c ''{{include:'' then c
      else (let names = map include_name (take 20 (find_matches (re_matcher include_ref) c))
            in if names = [] then c
               else sub_all (re_matcher include_ref) (\<lambda>t.
                      if include_name t \<in> set names
                      then (case map_of comps (include_name t) of Some h \<Rightarrow> h | None \<Rightarrow> t) else t) c))"

section \<open>Lists and escapes\<close>

fun dedup_from :: "string list \<Rightarrow> string list \<Rightarrow> string list" where
  "dedup_from seen [] = []"
| "dedup_from seen (s # ss) = (if s \<in> set seen then dedup_from seen ss else s # dedup_from (s # seen) ss)"

definition dedup_strings :: "string list \<Rightarrow> string list" where
  "dedup_strings = dedup_from []"

lemma dedup_from_spec: "distinct (dedup_from seen ss) \<and> set (dedup_from seen ss) = set ss - set seen"
  by (induction ss arbitrary: seen) auto

lemma dedup_strings_spec: "distinct (dedup_strings ss) \<and> set (dedup_strings ss) = set ss"
  using dedup_from_spec [of "[]" ss] by (simp add: dedup_strings_def)

definition escape_html_char :: "char \<Rightarrow> string" where
  "escape_html_char c =
     (if c = CHR ''&'' then ''&amp;'' else if c = CHR ''<'' then ''&lt;'' else if c = CHR ''>'' then ''&gt;''
      else if c = CHR 0x22 then ''&#34;'' else if c = CHR 0x27 then ''&#39;'' else [c])"

definition html_escape :: "string \<Rightarrow> string" where
  "html_escape s = concat (map escape_html_char s)"

lemma html_escape_inert: "set (html_escape s) \<inter> {CHR ''<'', CHR ''>'', CHR 0x22, CHR 0x27} = {}"
  by (auto simp: html_escape_def escape_html_char_def split: if_splits)

section \<open>Paths\<close>

text \<open>\<open>filepath.Clean\<close>, part by part; the parts kept are in reverse.\<close>

fun clean_parts :: "bool \<Rightarrow> string list \<Rightarrow> string list \<Rightarrow> string list" where
  "clean_parts rooted acc [] = rev acc"
| "clean_parts rooted acc (p # ps) =
     (if p = [] \<or> p = ''.'' then clean_parts rooted acc ps
      else if p = ''..'' then
        (if acc \<noteq> [] \<and> hd acc \<noteq> ''..'' then clean_parts rooted (tl acc) ps
         else if rooted then clean_parts rooted acc ps
         else clean_parts rooted (p # acc) ps)
      else clean_parts rooted (p # acc) ps)"

definition is_abs :: "string \<Rightarrow> bool" where "is_abs p = has_prefix p ''/''"

definition clean_path :: "string \<Rightarrow> string" where
  "clean_path p =
     (let r = (if is_abs p then ''/'' else []) @ join ''/'' (clean_parts (is_abs p) [] (split_char CHR ''/'' p))
      in if r = [] then ''.'' else r)"

definition join_path :: "string list \<Rightarrow> string" where
  "join_path ps = (let ps = filter (\<lambda>p. p \<noteq> []) ps in if ps = [] then [] else clean_path (join ''/'' ps))"

definition path_ext :: "string \<Rightarrow> string" where
  "path_ext p =
     (let base = last (split_char CHR ''/'' p)
      in case str_last_index base ''.'' of Some i \<Rightarrow> drop i base | None \<Rightarrow> [])"

definition mime_by_extension :: "string \<Rightarrow> string" where
  "mime_by_extension f =
     (case map_of
        [(''.css'', ''text/css''), (''.js'', ''application/javascript''), (''.svg'', ''image/svg+xml''),
         (''.json'', ''application/json''), (''.html'', ''text/html''), (''.htm'', ''text/html''),
         (''.png'', ''image/png''), (''.jpg'', ''image/jpeg''), (''.jpeg'', ''image/jpeg''), (''.gif'', ''image/gif''),
         (''.webp'', ''image/webp''), (''.woff'', ''font/woff''), (''.woff2'', ''font/woff2''), (''.ttf'', ''font/ttf''),
         (''.otf'', ''font/otf''), (''.ico'', ''image/x-icon''), (''.xml'', ''application/xml''),
         (''.pdf'', ''application/pdf''), (''.mp4'', ''video/mp4''), (''.webm'', ''video/webm''), (''.mp3'', ''audio/mpeg'')]
        (to_lower (path_ext f)) of Some t \<Rightarrow> t | None \<Rightarrow> [])"

end
