(* ===== verification/PublicPages.thy ===== *)
theory PublicPages
  imports Markup RateLimit Jobs
begin

text \<open>
  The pages of a published site and the other routes that are not the API
  (\<open>server/public/handler.go\<close>, \<open>server/public/routes.go\<close>): which site a request is for, pages rendered
  by the server and as JSON for the router in the browser, redirects and routes with parameters,
  the site map, and the assets and uploads read from the disk. The tables are records; SHA-256, the
  file system, the decoder of the page's metadata and the JSON encoder are in the environment.
\<close>

section \<open>Data\<close>

record web_site =
  ws_id :: int
  ws_name :: string
  ws_domain :: "string option"
  ws_description :: "string option"
  ws_status :: string

record web_page =
  wp_path :: string
  wp_title :: "string option"
  wp_content :: "string option"
  wp_metadata :: "string option"
  wp_layout :: "string option"
  wp_assets :: "string option"
  wp_status :: string
  wp_deleted :: bool
  wp_updated :: instant

record web_asset =
  wa_filename :: string
  wa_type :: "string option"
  wa_storage :: string
  wa_scope :: string
  wa_created :: "string option"

record web_file =
  wf_filename :: string
  wf_type :: "string option"
  wf_storage :: string

record web_layout =
  ly_name :: string
  ly_head :: "string option"
  ly_template :: "string option"

record page_view =
  pv_path :: string
  pv_visitor :: string
  pv_referrer :: string
  pv_agent :: string

record web_db =
  web_pages :: "web_page list"
  web_assets :: "web_asset list"
  web_files :: "web_file list"
  web_layouts :: "web_layout list"
  web_components :: "(string, string) gomap"
  web_redirects :: "(string, string \<times> int) gomap"
  web_views :: "page_view list"

record web_request =
  wq_host :: string
  wq_path :: string
  wq_query :: string
  wq_tunnel :: string
  wq_accept :: string
  wq_ip :: string
  wq_agent :: string
  wq_referrer :: string
  wq_match :: string

record page_meta =
  mt_description :: string
  mt_image :: string
  mt_canonical :: string
  mt_keywords :: string

definition empty_meta :: page_meta where
  "empty_meta = \<lparr>mt_description = [], mt_image = [], mt_canonical = [], mt_keywords = []\<rparr>"

text \<open>\<open>ve_sha\<close> is the hexadecimal text of SHA-256, \<open>ve_read\<close> a file of the disk; \<open>ve_meta\<close> what
  \<open>json.Unmarshal\<close> leaves in the metadata, whose error is ignored.\<close>

record web_env =
  ve_sha :: "string \<Rightarrow> string"
  ve_read :: "string \<Rightarrow> string option"
  ve_meta :: "string \<Rightarrow> page_meta"
  ve_marshal :: "json \<Rightarrow> string"

record spa_page =
  sp_path :: string
  sp_title :: string
  sp_content :: string
  sp_metadata :: string
  sp_site :: int
  sp_layout :: string
  sp_params :: "(string, string) gomap option"
  sp_css :: "string list"
  sp_js :: "string list"

datatype web_answer =
    Html int string
  | ErrorPage int string string
  | JsonError int string
  | JsonRedirect string int
  | JsonPage spa_page
  | RedirectTo string int
  | NotFoundText
  | NotModified string
  | FileContent string string string
  | PlainText string string

section \<open>The site of a request\<close>

definition strip_port :: "string \<Rightarrow> string" where
  "strip_port host = (case str_last_index host '':'' of Some i \<Rightarrow> take i host | None \<Rightarrow> host)"

definition wants_html :: "web_request \<Rightarrow> bool" where
  "wants_html r = contains (wq_accept r) ''text/html''"

definition active_sites :: "web_site list \<Rightarrow> web_site list" where
  "active_sites sites = sort_by_le (\<lambda>a b. ws_id a \<le> ws_id b) (filter (\<lambda>s. ws_status s = ''active'') sites)"

definition tunnel_site :: "web_site list \<Rightarrow> web_request \<Rightarrow> web_site option" where
  "tunnel_site sites r =
     (if wq_tunnel r = [] then None
      else case atoi (wq_tunnel r) of Some i \<Rightarrow> find (\<lambda>s. ws_id s = i) sites | None \<Rightarrow> None)"

definition refusal :: "web_request \<Rightarrow> string \<Rightarrow> string \<Rightarrow> web_answer" where
  "refusal r title msg = (if wants_html r then ErrorPage 404 title msg else JsonError 404 ''project not found'')"

definition resolve_site :: "web_site list \<Rightarrow> web_request \<Rightarrow> web_answer + web_site" where
  "resolve_site sites r =
     (let host = strip_port (wq_host r);
          site = (case tunnel_site sites r of
                    Some s \<Rightarrow> Some s
                  | None \<Rightarrow>
                     (case find (\<lambda>s. ws_domain s = Some host) sites of
                        Some s \<Rightarrow> Some s
                      | None \<Rightarrow> (case active_sites sites of [] \<Rightarrow> None | s # _ \<Rightarrow> Some s)))
      in case site of
           None \<Rightarrow> Inl (refusal r ''Site Not Found'' ''There is no site configured for this domain.'')
         | Some s \<Rightarrow>
            if ws_status s \<noteq> ''active''
            then Inl (refusal r ''Site Unavailable'' ''This site is currently unavailable. Please check back later.'')
            else Inr s)"

section \<open>Pages\<close>

definition published :: "web_page \<Rightarrow> bool" where
  "published p = (wp_status p = ''published'' \<and> \<not> wp_deleted p)"

definition find_published :: "web_db \<Rightarrow> string \<Rightarrow> web_page option" where
  "find_published db path = find (\<lambda>p. wp_path p = path \<and> published p) (web_pages db)"

definition home_fallbacks :: "string \<Rightarrow> string list" where
  "home_fallbacks path =
     (if path = ''/'' then [''/index.html'', ''/index'', ''/home'']
      else if path = ''/index.html'' \<or> path = ''/index'' then [''/''] else [])"

text \<open>The parts of a route with parameters against those of a path; a part after a colon names a parameter, and
  the last of two parameters of a name counts.\<close>

fun match_parts :: "string list \<Rightarrow> string list \<Rightarrow> (string, string) gomap \<Rightarrow> (string, string) gomap option" where
  "match_parts [] [] m = Some m"
| "match_parts (c # cs) (r # rs) m =
     (if has_prefix c '':'' then match_parts cs rs (alist_put (tl c) r m)
      else if c = r then match_parts cs rs m else None)"
| "match_parts _ _ m = None"

definition match_route :: "string \<Rightarrow> string \<Rightarrow> (string, string) gomap option" where
  "match_route template path = match_parts (split_char CHR ''/'' template) (split_char CHR ''/'' path) []"

definition find_param_page :: "web_db \<Rightarrow> string \<Rightarrow> (string \<times> (string, string) gomap) option" where
  "find_param_page db path =
     (case List.map_filter (\<lambda>p. if published p \<and> contains (wp_path p) '':''
               then map_option (Pair (wp_path p)) (match_route (wp_path p) path) else None) (web_pages db) of
        [] \<Rightarrow> None | x # _ \<Rightarrow> Some x)"

definition max_text :: "string list \<Rightarrow> string" where
  "max_text ss = fold (\<lambda>s m. if str_le m s then s else m) ss []"

definition asset_version_hash :: "web_env \<Rightarrow> web_db \<Rightarrow> string" where
  "asset_version_hash en db =
     (let m = max_text (List.map_filter wa_created (web_assets db)) in if m = [] then [] else take 8 (ve_sha en m))"

definition version_suffix :: "web_env \<Rightarrow> web_db \<Rightarrow> string" where
  "version_suffix en db = (let h = asset_version_hash en db in if h \<noteq> [] then ''?v='' @ h else [])"

definition css_tag :: "string \<Rightarrow> string" where
  "css_tag u = ''  <link rel=\"stylesheet\" href=\"/assets/'' @ u @ ''\">'' @ [CHR 0x0A]"

definition js_tag :: "string \<Rightarrow> string" where
  "js_tag u = ''  <script src=\"/assets/'' @ u @ ''\"></script>'' @ [CHR 0x0A]"

text \<open>The style sheets among some files and the scripts among the others.\<close>

definition css_files :: "string list \<Rightarrow> string list" where
  "css_files fs = filter (\<lambda>f. has_suffix (to_lower f) ''.css'') fs"

definition js_files :: "string list \<Rightarrow> string list" where
  "js_files fs = filter (\<lambda>f. \<not> has_suffix (to_lower f) ''.css'' \<and> has_suffix (to_lower f) ''.js'') fs"

definition tags_for :: "string \<Rightarrow> string list \<Rightarrow> string \<times> string" where
  "tags_for suff fs = (concat (map (\<lambda>f. css_tag (f @ suff)) (css_files fs)), concat (map (\<lambda>f. js_tag (f @ suff)) (js_files fs)))"

definition code_asset :: "web_asset \<Rightarrow> bool" where
  "code_asset a = (like_suffix (wa_filename a) ''.css'' \<or> like_suffix (wa_filename a) ''.js'')"

definition auto_inject_assets :: "web_env \<Rightarrow> web_db \<Rightarrow> string \<times> string" where
  "auto_inject_assets en db =
     tags_for (version_suffix en db)
       (sort_strings (map wa_filename (filter (\<lambda>a. wa_scope a = ''global'' \<and> code_asset a) (web_assets db))))"

text \<open>The list of a page's assets; an element that is no string is an error of the decoder.\<close>

definition decode_filenames :: "string \<Rightarrow> string list" where
  "decode_filenames s =
     (case unmarshal s of
        Some (JArr xs) \<Rightarrow>
          if list_all (\<lambda>x. case x of JStr _ \<Rightarrow> True | JNull \<Rightarrow> True | _ \<Rightarrow> False) xs
          then filter (\<lambda>f. f \<noteq> []) (map (\<lambda>x. trim_space (json_text x)) xs) else []
      | _ \<Rightarrow> [])"

definition page_filenames :: "string \<Rightarrow> string list" where
  "page_filenames s = (if s = [] \<or> s = ''null'' then [] else decode_filenames s)"

definition asset_names :: "web_db \<Rightarrow> string list" where
  "asset_names db = map (\<lambda>a. to_lower (wa_filename a)) (filter code_asset (web_assets db))"

section \<open>Rendering\<close>

definition line :: "string \<Rightarrow> string" where "line s = s @ [CHR 0x0A]"

definition meta_tag :: "string \<Rightarrow> string \<Rightarrow> string \<Rightarrow> string" where
  "meta_tag attr name v =
     (if v = [] then [] else line (''  <meta '' @ attr @ ''=\"'' @ name @ ''\" content=\"'' @ html_escape v @ ''\">''))"

definition canonical_url :: "web_site \<Rightarrow> page_meta \<Rightarrow> string \<Rightarrow> string" where
  "canonical_url site meta path =
     (if mt_canonical meta \<noteq> [] then mt_canonical meta
      else case ws_domain site of Some d \<Rightarrow> if d \<noteq> [] then ''https://'' @ d @ path else [] | None \<Rightarrow> [])"

definition load_layout :: "web_db \<Rightarrow> string \<Rightarrow> (string \<times> string) option" where
  "load_layout db name =
     (case find (\<lambda>l. ly_name l = name) (web_layouts db) of
        Some l \<Rightarrow> (case ly_head l of Some h \<Rightarrow> Some (h, null_string (ly_template l)) | None \<Rightarrow> None)
      | None \<Rightarrow> None)"

definition replace_first_text :: "string \<Rightarrow> string \<Rightarrow> string \<Rightarrow> string" where
  "replace_first_text old new s =
     (case str_index s old of Some i \<Rightarrow> take i s @ new @ drop (i + length old) s | None \<Rightarrow> s)"

definition wrap_layout :: "bool \<Rightarrow> (string \<times> string) option \<Rightarrow> string \<Rightarrow> string" where
  "wrap_layout bare layout content =
     (case layout of
        Some (h, t) \<Rightarrow>
          if bare then line content
          else if t \<noteq> [] \<and> contains t ''{{content}}'' then line (replace_first_text ''{{content}}'' content t)
          else line ''<main>'' @ content @ [CHR 0x0A] @ line ''</main>''
      | None \<Rightarrow> line content)"

definition params_script :: "web_env \<Rightarrow> (string, string) gomap \<Rightarrow> string" where
  "params_script en ps =
     line (''<script>window.__routeParams='' @
       (if ps = [] then ''{}'' else ve_marshal en (JObj (map (\<lambda>(k, v). (k, JStr v)) ps))) @ '';</script>'')"

definition page_title :: "web_site \<Rightarrow> string \<Rightarrow> string" where
  "page_title site title =
     (if title \<noteq> [] then html_escape title @ '' | '' @ html_escape (ws_name site) else html_escape (ws_name site))"

definition render_document ::
  "web_env \<Rightarrow> web_site \<Rightarrow> web_db \<Rightarrow> string \<Rightarrow> web_page \<Rightarrow> (string, string) gomap \<Rightarrow> string" where
  "render_document en site db path p params =
     (let title = null_string (wp_title p); metadata = null_string (wp_metadata p);
          meta = (if metadata \<noteq> [] \<and> metadata \<noteq> ''{}'' then ve_meta en metadata else empty_meta);
          url = canonical_url site meta path;
          descr = (if mt_description meta \<noteq> [] then mt_description meta else null_string (ws_description site));
          lname = null_string (wp_layout p);
          layout = load_layout db (if lname = [] \<or> lname = ''none'' then ''default'' else lname);
          (css, js) = auto_inject_assets en db;
          (pcss, pjs) = tags_for (version_suffix en db) (page_filenames (null_string (wp_assets p)));
          content = resolve_components (web_components db)
                      (strip_asset_refs (asset_names db) (strip_document_shell (null_string (wp_content p))));
          (head, body_end, clean) = extract_asset_tags content
      in line ''<!DOCTYPE html>'' @ line ''<html lang=\"en\" dir=\"ltr\">'' @ line ''<head>''
         @ line ''  <meta charset=\"utf-8\">''
         @ line ''  <meta name=\"viewport\" content=\"width=device-width, initial-scale=1\">''
         @ line (''  <title>'' @ page_title site title @ ''</title>'')
         @ meta_tag ''name'' ''description'' descr @ meta_tag ''name'' ''keywords'' (mt_keywords meta)
         @ line (''  <meta property=\"og:title\" content=\"'' @ html_escape title @ ''\">'')
         @ meta_tag ''property'' ''og:description'' descr @ meta_tag ''property'' ''og:image'' (mt_image meta)
         @ meta_tag ''property'' ''og:url'' url
         @ (if url \<noteq> [] then line (''  <link rel=\"canonical\" href=\"'' @ html_escape url @ ''\">'') else [])
         @ css @ pcss
         @ (case layout of Some (h, t) \<Rightarrow> if h \<noteq> [] then line (''  '' @ h) else [] | None \<Rightarrow> [])
         @ (if head \<noteq> [] then line head else []) @ line ''</head>'' @ line ''<body>''
         @ wrap_layout (lname = ''none'') layout clean
         @ params_script en params @ js @ pjs
         @ (if body_end \<noteq> [] then line body_end else []) @ line ''</body>'' @ ''</html>'')"

section \<open>Handlers\<close>

definition check_redirect :: "web_db \<Rightarrow> string \<Rightarrow> (string \<times> int) option" where
  "check_redirect db path = map_of (web_redirects db) path"

text \<open>The page for a path with the path it is rendered for and its parameters.\<close>

definition lookup_page :: "web_db \<Rightarrow> string \<Rightarrow> (web_page \<times> string \<times> (string, string) gomap) option" where
  "lookup_page db path =
     (case find_published db path of
        Some p \<Rightarrow> Some (p, path, [])
      | None \<Rightarrow>
         (case List.map_filter (\<lambda>a. map_option (\<lambda>p. (p, a, [])) (find_published db a)) (home_fallbacks path) of
            x # _ \<Rightarrow> Some x
          | [] \<Rightarrow>
             (case find_param_page db path of
                Some (t, ps) \<Rightarrow> map_option (\<lambda>p. (p, path, ps)) (find_published db t)
              | None \<Rightarrow> None)))"

definition track_page_view :: "web_env \<Rightarrow> web_request \<Rightarrow> string \<Rightarrow> web_db \<Rightarrow> web_db" where
  "track_page_view en r path db =
     db\<lparr>web_views := web_views db @ [\<lparr>pv_path = path, pv_visitor = take 16 (ve_sha en (wq_ip r @ wq_agent r)),
        pv_referrer = wq_referrer r, pv_agent = wq_agent r\<rparr>]\<rparr>"

definition serve_404 :: "web_env \<Rightarrow> web_site \<Rightarrow> web_db \<Rightarrow> web_answer" where
  "serve_404 en site db =
     (case find_published db ''/404'' of
        Some p \<Rightarrow> Html 404 (render_document en site db ''/404'' p [])
      | None \<Rightarrow> ErrorPage 404 ''Page Not Found'' (''The page you'' @ [CHR 0x27] @ ''re looking for doesn'' @ [CHR 0x27]
           @ ''t exist or has been moved.''))"

definition root_path :: "string \<Rightarrow> string" where "root_path p = (if p = [] then ''/'' else p)"

definition serve_page :: "web_env \<Rightarrow> web_site \<Rightarrow> web_request \<Rightarrow> web_db \<Rightarrow> web_answer \<times> web_db" where
  "serve_page en site r db =
     (let path = root_path (wq_path r)
      in case check_redirect db path of
           Some (target, code) \<Rightarrow> (RedirectTo target code, db)
         | None \<Rightarrow>
            (case lookup_page db path of
               None \<Rightarrow> (serve_404 en site db, db)
             | Some (p, at_path, ps) \<Rightarrow>
                (Html 200 (render_document en site db at_path p ps), track_page_view en r at_path db)))"

definition add_version :: "string \<Rightarrow> string \<Rightarrow> string" where
  "add_version suff u = (if has_prefix u ''/assets/'' \<and> \<not> contains u ''?'' then u @ suff else u)"

definition spa_page_of ::
  "web_env \<Rightarrow> web_site \<Rightarrow> web_db \<Rightarrow> string \<Rightarrow> web_page \<Rightarrow> (string, string) gomap option \<Rightarrow> spa_page" where
  "spa_page_of en site db path p params =
     (let content = resolve_components (web_components db) (null_string (wp_content p));
          (clean, css, js) = strip_for_spa (strip_asset_refs (asset_names db) content);
          files = page_filenames (null_string (wp_assets p));
          url = (\<lambda>f. ''/assets/'' @ f); suff = version_suffix en db
      in \<lparr>sp_path = path, sp_title = null_string (wp_title p), sp_content = trim_space clean,
          sp_metadata = null_string (wp_metadata p), sp_site = ws_id site,
          sp_layout = (if null_string (wp_layout p) = [] then ''default'' else null_string (wp_layout p)),
          sp_params = params,
          sp_css = dedup_strings (map (add_version suff) (map url (css_files files) @ css)),
          sp_js = dedup_strings (map (add_version suff) (map url (js_files files) @ js))\<rparr>)"

definition spa_handler :: "web_env \<Rightarrow> web_site \<Rightarrow> web_request \<Rightarrow> web_db \<Rightarrow> web_answer" where
  "spa_handler en site r db =
     (let path = root_path (query_get (parse_query (wq_query r)) ''path'')
      in case check_redirect db path of
           Some (target, code) \<Rightarrow> JsonRedirect target code
         | None \<Rightarrow>
            (case find_published db path of
               Some p \<Rightarrow> JsonPage (spa_page_of en site db path p None)
             | None \<Rightarrow>
                (case find_param_page db path of
                   None \<Rightarrow> JsonError 404 ''page not found''
                 | Some (t, ps) \<Rightarrow>
                    (case find_published db t of
                       Some p \<Rightarrow> JsonPage (spa_page_of en site db path p (Some ps))
                     | None \<Rightarrow> JsonError 404 ''page not found''))))"

definition base_url :: "web_site \<Rightarrow> web_request \<Rightarrow> string" where
  "base_url site r =
     ''https://'' @ (case ws_domain site of Some d \<Rightarrow> if d \<noteq> [] then d else wq_host r | None \<Rightarrow> wq_host r)"

definition sitemap :: "web_site \<Rightarrow> web_request \<Rightarrow> web_db \<Rightarrow> web_answer" where
  "sitemap site r db =
     PlainText ''application/xml; charset=utf-8''
       (line ''<?xml version=\"1.0\" encoding=\"UTF-8\"?>''
        @ line ''<urlset xmlns=\"http://www.sitemaps.org/schemas/sitemap/0.9\">''
        @ concat (map (\<lambda>p. line ''  <url>'' @ line (''    <loc>'' @ html_escape (base_url site r @ wp_path p) @ ''</loc>'')
            @ line (''    <lastmod>'' @ sql_date (wp_updated p) @ ''</lastmod>'') @ line ''  </url>'')
            (sort_by_le (\<lambda>a b. str_le (wp_path a) (wp_path b)) (filter published (web_pages db))))
        @ line ''</urlset>'')"

definition robots :: "web_site \<Rightarrow> web_request \<Rightarrow> web_answer" where
  "robots site r =
     PlainText ''text/plain; charset=utf-8''
       (line ''User-agent: *'' @ line ''Allow: /'' @ line (''Sitemap: '' @ base_url site r @ ''/sitemap.xml''))"

section \<open>Files\<close>

definition site_prefix :: "web_site \<Rightarrow> string" where
  "site_prefix site = join_path [''data'', ''sites'', itoa (ws_id site)]"

text \<open>The name after the route's prefix, refused unless it is clean and stays below.\<close>

definition safe_filename :: "string \<Rightarrow> bool" where
  "safe_filename f = (f \<noteq> [] \<and> clean_path f = f \<and> \<not> is_abs f \<and> \<not> has_prefix f ''..'')"

definition first_nonempty :: "string list \<Rightarrow> string" where
  "first_nonempty ss = (case filter (\<lambda>s. s \<noteq> []) ss of [] \<Rightarrow> [] | s # _ \<Rightarrow> s)"

definition etag_of :: "web_env \<Rightarrow> string \<Rightarrow> string" where
  "etag_of en content = CHR 0x22 # take 17 (ve_sha en content) @ [CHR 0x22]"

definition serve_stored ::
  "web_env \<Rightarrow> web_site \<Rightarrow> web_request \<Rightarrow> string \<Rightarrow> string \<Rightarrow> string \<Rightarrow> (string \<times> string option) option \<Rightarrow> web_answer" where
  "serve_stored en site r dir cache f row =
     (case row of
        None \<Rightarrow> NotFoundText
      | Some (storage, ctype) \<Rightarrow>
         (let path = (if storage = [] then join_path [site_prefix site, dir, f] else storage)
          in if \<not> has_prefix (clean_path path) (site_prefix site) then NotFoundText
             else case ve_read en path of
                 None \<Rightarrow> NotFoundText
               | Some content \<Rightarrow>
                  if wq_match r = etag_of en content then NotModified (etag_of en content)
                  else FileContent
                    (first_nonempty [mime_by_extension f, null_string ctype, ''application/octet-stream''])
                    cache content))"

definition serve_asset :: "web_env \<Rightarrow> web_site \<Rightarrow> web_request \<Rightarrow> web_db \<Rightarrow> web_answer" where
  "serve_asset en site r db =
     (let f = trim_prefix (wq_path r) ''/assets/''
      in if \<not> safe_filename f then NotFoundText
         else serve_stored en site r ''assets'' ''public, max-age=31536000, immutable'' f
           (map_option (\<lambda>a. (wa_storage a, wa_type a)) (find (\<lambda>a. wa_filename a = f) (web_assets db))))"

definition serve_file :: "web_env \<Rightarrow> web_site \<Rightarrow> web_request \<Rightarrow> web_db \<Rightarrow> web_answer" where
  "serve_file en site r db =
     (let f = trim_prefix (wq_path r) ''/files/''
      in if \<not> safe_filename f then NotFoundText
         else serve_stored en site r ''files'' ''public, max-age=86400, must-revalidate'' f
           (map_option (\<lambda>a. (wf_storage a, wf_type a)) (find (\<lambda>a. wf_filename a = f) (web_files db))))"

text \<open>A query for a column of \<open>ho_assets\<close>; one for a column the table does not have is an error.\<close>

definition asset_text :: "web_db \<Rightarrow> string \<Rightarrow> string \<Rightarrow> string option" where
  "asset_text db col f =
     (if col \<notin> set ho_assets_columns then None
      else case find (\<lambda>a. wa_filename a = f) (web_assets db) of
          None \<Rightarrow> None
        | Some a \<Rightarrow>
           if col = ''filename'' then Some (wa_filename a) else if col = ''content_type'' then wa_type a
           else if col = ''storage_path'' then Some (wa_storage a) else if col = ''scope'' then Some (wa_scope a)
           else if col = ''created_at'' then wa_created a else None)"

definition serve_manifest :: "web_db \<Rightarrow> web_answer" where
  "serve_manifest db =
     (case asset_text db ''content'' ''manifest.json'' of
        Some c \<Rightarrow> FileContent ''application/manifest+json'' ''public, max-age=86400'' c | None \<Rightarrow> NotFoundText)"

definition serve_service_worker :: "web_db \<Rightarrow> web_answer" where
  "serve_service_worker db =
     (case asset_text db ''content'' ''service-worker.js'' of
        Some c \<Rightarrow> FileContent ''application/javascript'' ''no-cache'' c | None \<Rightarrow> NotFoundText)"

section \<open>The routes\<close>

text \<open>A GET request; \<open>api\<close> answers the other paths below \<open>/api/\<close> (theory \<open>PublicApi\<close>). With the answer of a
  page comes the site whose statistics changed.\<close>

definition public_get :: "web_env \<Rightarrow> (web_site \<Rightarrow> web_request \<Rightarrow> web_answer) \<Rightarrow> web_site list \<Rightarrow> (int \<Rightarrow> web_db)
    \<Rightarrow> web_request \<Rightarrow> web_answer \<times> (int \<times> web_db) option" where
  "public_get en api sites dbs r =
     (case resolve_site sites r of
        Inl a \<Rightarrow> (a, None)
      | Inr site \<Rightarrow>
         (let db = dbs (ws_id site); path = wq_path r
          in if path = ''/sitemap.xml'' then (sitemap site r db, None)
             else if path = ''/robots.txt'' then (robots site r, None)
             else if path = ''/manifest.json'' then (serve_manifest db, None)
             else if path = ''/service-worker.js'' then (serve_service_worker db, None)
             else if has_prefix path ''/assets/'' then (serve_asset en site r db, None)
             else if has_prefix path ''/files/'' then (serve_file en site r db, None)
             else if path = ''/api/page'' then (spa_handler en site r db, None)
             else if has_prefix path ''/api/'' then (api site r, None)
             else (let (a, db) = serve_page en site r db in (a, Some (ws_id site, db)))))"

section \<open>Which site\<close>

lemma resolve_site_sound:
  assumes "resolve_site sites r = Inr s"
  shows "s \<in> set sites \<and> ws_status s = ''active''"
proof -
  have act: "x \<in> set sites" if "active_sites sites = x # xs" for x xs
  proof -
    have "x \<in> set (active_sites sites)" using that by simp
    then show ?thesis by (simp add: active_sites_def set_sort_by_le)
  qed
  show ?thesis
    using assms act
    by (auto simp: resolve_site_def tunnel_site_def Let_def find_Some_iff split: option.splits list.splits if_splits)
qed

lemma find_by_id:
  assumes "distinct (map f xs)" "x \<in> set xs"
  shows "find (\<lambda>y. f y = f x) xs = Some x"
  using assms by (induction xs) (auto simp: image_iff)

text \<open>A request is served from a site that exists and is active, and whoever sends the header
  \<open>X-Tunnel-Site-ID\<close> chooses which: the host it asks for does not matter then, and without the
  header a host of no site gets the active site of the least id.\<close>

theorem tunnel_header_selects_site:
  assumes "s \<in> set sites" "distinct (map ws_id sites)" "ws_status s = ''active''"
    and "wq_tunnel r = itoa (ws_id s)" "0 \<le> ws_id s" "ws_id s < 2 ^ 63"
  shows "resolve_site sites (r\<lparr>wq_host := h\<rparr>) = Inr s"
proof -
  have "atoi (itoa (ws_id s)) = Some (ws_id s)" using assms(5,6) by simp
  moreover have "itoa (ws_id s) \<noteq> []" using calculation by (auto simp: atoi_def)
  ultimately show ?thesis
    using assms find_by_id [of ws_id sites s] by (simp add: resolve_site_def tunnel_site_def)
qed

section \<open>Drafts\<close>

definition only_published :: "web_db \<Rightarrow> web_db" where
  "only_published db = db\<lparr>web_pages := filter published (web_pages db)\<rparr>"

lemma only_published_simps [simp]:
  "web_assets (only_published db) = web_assets db" "web_layouts (only_published db) = web_layouts db"
  "web_components (only_published db) = web_components db" "web_redirects (only_published db) = web_redirects db"
  "web_views (only_published db) = web_views db" "web_files (only_published db) = web_files db"
  by (simp_all add: only_published_def)

lemma find_filter_self: "(\<And>x. P x \<Longrightarrow> Q x) \<Longrightarrow> find P (filter Q xs) = find P xs"
  by (induction xs) auto

lemma map_filter_filter_self: "(\<And>x. f x \<noteq> None \<Longrightarrow> Q x) \<Longrightarrow> List.map_filter f (filter Q xs) = List.map_filter f xs"
  by (induction xs) (auto simp: List.map_filter_simps split: option.split)

lemma only_published_lookups [simp]:
  "find_published (only_published db) path = find_published db path"
  "find_param_page (only_published db) path = find_param_page db path"
  "lookup_page (only_published db) path = lookup_page db path"
proof -
  show find: "find_published (only_published db) path = find_published db path" for path
    unfolding find_published_def only_published_def by (simp, rule find_filter_self) simp
  show param: "find_param_page (only_published db) path = find_param_page db path"
    unfolding find_param_page_def only_published_def
    by (simp, subst map_filter_filter_self) (auto split: if_splits)
  show "lookup_page (only_published db) path = lookup_page db path"
    unfolding lookup_page_def find param ..
qed

lemma only_published_render [simp]:
  "render_document en site (only_published db) path p params = render_document en site db path p params"
  "spa_page_of en site (only_published db) path p params' = spa_page_of en site db path p params'"
  by (simp_all add: render_document_def spa_page_of_def auto_inject_assets_def version_suffix_def
      asset_version_hash_def load_layout_def asset_names_def)

text \<open>C17. Pages that are drafts or deleted have no influence on what a visitor gets: every route answers as if the
  table held the published pages alone.\<close>

theorem drafts_invisible:
  "fst (public_get en api sites dbs r) = fst (public_get en api sites (only_published \<circ> dbs) r)"
proof -
  have page: "fst (serve_page en site r (only_published db)) = fst (serve_page en site r db)" for site db
    by (auto simp: serve_page_def serve_404_def check_redirect_def Let_def split: option.split)
  have spa: "spa_handler en site r (only_published db) = spa_handler en site r db" for site db
    unfolding spa_handler_def check_redirect_def only_published_simps only_published_lookups only_published_render ..
  have map: "sitemap site r (only_published db) = sitemap site r db" for site db
    by (simp add: sitemap_def only_published_def)
  have files: "serve_asset en site r (only_published db) = serve_asset en site r db"
    "serve_file en site r (only_published db) = serve_file en site r db"
    "serve_manifest (only_published db) = serve_manifest db"
    "serve_service_worker (only_published db) = serve_service_worker db" for site db
    unfolding serve_asset_def serve_file_def serve_manifest_def serve_service_worker_def asset_text_def
      only_published_simps by (rule refl)+
  show ?thesis
    by (simp add: public_get_def page spa map files Let_def split_beta split: sum.split)
qed

section \<open>Routes with parameters\<close>

text \<open>A template filled in with values for its parameters.\<close>

definition fill_part :: "(string, string) gomap \<Rightarrow> string \<Rightarrow> string" where
  "fill_part ps c =
     (if has_prefix c '':'' then (case map_of ps (tl c) of Some v \<Rightarrow> v | None \<Rightarrow> c) else c)"

definition fill_route :: "string \<Rightarrow> (string, string) gomap \<Rightarrow> string" where
  "fill_route template ps = join ''/'' (map (fill_part ps) (split_char CHR ''/'' template))"

definition param_names :: "string list \<Rightarrow> string list" where
  "param_names cs = map tl (filter (\<lambda>c. has_prefix c '':'') cs)"

lemma param_names_simps [simp]:
  "param_names [] = []"
  "param_names (c # cs) = (if has_prefix c '':'' then tl c # param_names cs else param_names cs)"
  by (simp_all add: param_names_def)

lemma match_parts_keeps:
  assumes "match_parts cs rs m = Some ps" "k \<notin> set (param_names cs)"
  shows "map_of ps k = map_of m k"
  using assms by (induction cs rs m rule: match_parts.induct) (auto split: if_splits)

lemma match_parts_fill:
  assumes "match_parts cs rs m = Some ps" "distinct (param_names cs)"
  shows "map (fill_part ps) cs = rs"
  using assms
proof (induction cs rs m rule: match_parts.induct)
  case (2 c cs r rs m)
  show ?case
  proof (cases "has_prefix c '':''")
    case True
    with 2 match_parts_keeps [of cs rs "alist_put (tl c) r m" ps "tl c"] show ?thesis
      by (simp add: fill_part_def)
  next
    case False
    with 2 show ?thesis by (simp add: fill_part_def split: if_splits)
  qed
qed simp_all

lemma join_split: "join [c] (split_char c s) = s"
proof (induction s)
  case (Cons x s)
  have "split_char c s \<noteq> []" by (cases s) (auto split: list.split)
  then obtain y ys where y: "split_char c s = y # ys" by (cases "split_char c s") auto
  with Cons show ?case by (cases ys) auto
qed simp

lemma match_route_fill:
  assumes "match_route t path = Some ps" "distinct (param_names (split_char CHR ''/'' t))"
  shows "fill_route t ps = path"
  using match_parts_fill [of "split_char CHR ''/'' t" "split_char CHR ''/'' path" "[]" ps] assms
    join_split [of "CHR ''/''" path]
  by (simp add: match_route_def fill_route_def)

lemma map_filter_head: "List.map_filter f xs = y # ys \<Longrightarrow> \<exists>x \<in> set xs. f x = Some y"
  by (induction xs) (auto simp: List.map_filter_simps split: option.splits)

lemma find_param_page_route:
  assumes "find_param_page db path = Some (t, ps)"
  shows "\<exists>p \<in> set (web_pages db). published p \<and> wp_path p = t \<and> match_route t path = Some ps"
  using assms unfolding find_param_page_def
  by (auto split: list.splits if_splits dest!: map_filter_head)


section \<open>Answers of pages\<close>

lemma lookup_page_sound:
  assumes "lookup_page db path = Some (p, at_path, ps)"
  shows "p \<in> set (web_pages db) \<and> published p
    \<and> (wp_path p = path \<or> wp_path p \<in> set (home_fallbacks path) \<or> match_route (wp_path p) path = Some ps)"
proof -
  have pub: "q \<in> set (web_pages db) \<and> published q \<and> wp_path q = a" if "find_published db a = Some q" for a q
    using that by (auto simp: find_published_def find_Some_iff)
  show ?thesis
    using assms pub find_param_page_route [of db path]
    by (fastforce simp: lookup_page_def split: option.splits list.splits dest!: map_filter_head)
qed

text \<open>C16. A page is answered with status 200 only when it is published and its path is the one asked for, a variant of
  the home page, or a template the path matches with the parameters the page is given; the view of
  it is recorded once. Any other answer records nothing.\<close>

theorem page_answer_sound:
  assumes "serve_page en site r db = (a, db')"
  shows "(a = Html 200 (case a of Html _ d \<Rightarrow> d | _ \<Rightarrow> []) \<and>
        (\<exists>p at_path ps. p \<in> set (web_pages db) \<and> published p
          \<and> (wp_path p = root_path (wq_path r) \<or> wp_path p \<in> set (home_fallbacks (root_path (wq_path r)))
              \<or> match_route (wp_path p) (root_path (wq_path r)) = Some ps)
          \<and> a = Html 200 (render_document en site db at_path p ps)
          \<and> map pv_path (web_views db') = map pv_path (web_views db) @ [at_path]))
    \<or> db' = db \<and> (\<forall>d. a \<noteq> Html 200 d)"
  using assms lookup_page_sound [of db "root_path (wq_path r)"]
  by (auto simp: serve_page_def serve_404_def track_page_view_def Let_def split: option.splits) blast+

lemma serve_page_home:
  assumes "web_pages db = [p]" "wp_path p = ''/index.html''" "published p" "web_redirects db = []"
  shows "find_published db ''/'' = None" "find_published db ''/index.html'' = Some p" "find_param_page db ''/'' = None"
proof -
  have "\<not> contains ''/index.html'' '':''" by code_simp
  then show "find_published db ''/'' = None" "find_published db ''/index.html'' = Some p" "find_param_page db ''/'' = None"
    using assms by (simp_all add: find_published_def find_param_page_def List.map_filter_simps)
qed

text \<open>The home page saved as \<open>/index.html\<close> is served when the browser asks for the root, but the router in
  the browser, which asks for the same path as JSON, is told that there is no such page.\<close>

theorem spa_misses_home:
  assumes "web_pages db = [p]" "wp_path p = ''/index.html''" "published p" "web_redirects db = []"
  shows "fst (serve_page en site (r\<lparr>wq_path := ''/''\<rparr>) db)
        = Html 200 (render_document en site db ''/index.html'' p [])
    \<and> spa_handler en site (r\<lparr>wq_query := []\<rparr>) db = JsonError 404 ''page not found''"
proof -
  have "query_get (parse_query []) ''path'' = []" by code_simp
  then show ?thesis
    using serve_page_home [OF assms] assms(4)
    by (simp add: serve_page_def spa_handler_def root_path_def check_redirect_def lookup_page_def home_fallbacks_def
        List.map_filter_simps)
qed

section \<open>Files of a site\<close>

text \<open>Another site's directory begins with the text of this one's.\<close>

definition near_site :: web_site where
  "near_site = \<lparr>ws_id = 1, ws_name = ''a'', ws_domain = None, ws_description = None, ws_status = ''active''\<rparr>"

definition near_db :: web_db where
  "near_db = \<lparr>web_pages = [], web_assets = [\<lparr>wa_filename = ''logo.png'', wa_type = None,
      wa_storage = ''data/sites/12/files/contract.pdf'', wa_scope = ''global'', wa_created = None\<rparr>],
     web_files = [], web_layouts = [], web_components = [], web_redirects = [], web_views = []\<rparr>"

text \<open>A file may be read when its path begins with the text of the site's directory, with no separator after
  the site's number: an asset of site 1 whose stored path lies in the directory of site 12 is served.\<close>

theorem asset_crosses_sites:
  "serve_asset en near_site (r\<lparr>wq_path := ''/assets/logo.png''\<rparr>) near_db =
     (case ve_read en ''data/sites/12/files/contract.pdf'' of
        None \<Rightarrow> NotFoundText
      | Some c \<Rightarrow> if wq_match r = etag_of en c then NotModified (etag_of en c)
                  else FileContent ''image/png'' ''public, max-age=31536000, immutable'' c)"
proof -
  have "trim_prefix ''/assets/logo.png'' ''/assets/'' = ''logo.png''" "safe_filename ''logo.png''"
    "has_prefix (clean_path ''data/sites/12/files/contract.pdf'') (site_prefix near_site)"
    "mime_by_extension ''logo.png'' = ''image/png''" by code_simp+
  then show ?thesis
    by (simp add: serve_asset_def serve_stored_def near_db_def first_nonempty_def split: option.split)
qed

text \<open>No part of a cleaned path is \<open>..\<close> but those in front.\<close>

definition ups_first :: "string list \<Rightarrow> bool" where
  "ups_first ps = (''..'' \<in> set ps \<longrightarrow> hd ps = ''..'')"

definition stack_ok :: "string list \<Rightarrow> bool" where
  "stack_ok acc = (\<exists>n qs. acc = qs @ replicate n ''..'' \<and> ''..'' \<notin> set qs)"

lemma stack_ok_push: "stack_ok acc \<Longrightarrow> p \<noteq> ''..'' \<Longrightarrow> stack_ok (p # acc)"
  unfolding stack_ok_def by (metis Cons_eq_appendI insert_iff list.simps(15))

lemma stack_ok_up: "stack_ok acc \<Longrightarrow> acc = [] \<or> hd acc = ''..'' \<Longrightarrow> stack_ok (''..'' # acc)"
  unfolding stack_ok_def
proof (elim exE conjE)
  fix n qs
  assume "acc = qs @ replicate n ''..''" "''..'' \<notin> set qs" "acc = [] \<or> hd acc = ''..''"
  then have "qs = []" by (cases qs) auto
  then have "''..'' # acc = [] @ replicate (Suc n) ''..''" using \<open>acc = qs @ replicate n ''..''\<close> by simp
  then show "\<exists>n qs. ''..'' # acc = qs @ replicate n ''..'' \<and> ''..'' \<notin> set qs" by (metis empty_iff empty_set)
qed

lemma stack_ok_pop: "stack_ok acc \<Longrightarrow> acc \<noteq> [] \<Longrightarrow> hd acc \<noteq> ''..'' \<Longrightarrow> stack_ok (tl acc)"
  unfolding stack_ok_def
proof (elim exE conjE)
  fix n qs
  assume a: "acc = qs @ replicate n ''..''" "''..'' \<notin> set qs" "acc \<noteq> []" "hd acc \<noteq> ''..''"
  then obtain q qs' where "qs = q # qs'" by (cases qs; cases n) auto
  with a show "\<exists>n qs. tl acc = qs @ replicate n ''..'' \<and> ''..'' \<notin> set qs" by auto
qed

lemma clean_parts_ok: "stack_ok acc \<Longrightarrow> ups_first (clean_parts rooted acc ps)"
proof (induction rooted acc ps rule: clean_parts.induct)
  case (1 rooted acc)
  then obtain n qs where acc: "acc = qs @ replicate n ''..''" "''..'' \<notin> set qs" by (auto simp: stack_ok_def)
  have "hd (replicate k ''..'' @ ''..'' # qs') = ''..''" for k qs' by (cases k) simp_all
  with acc show ?case by (cases n) (auto simp: ups_first_def)
next
  case (2 rooted acc p ps)
  then show ?case by (auto simp: stack_ok_push stack_ok_up stack_ok_pop)
qed

lemma site_prefix_eq: "site_prefix site = ''data/sites/'' @ itoa (ws_id site)"
proof -
  let ?i = "itoa (ws_id site)"
  have plain: "list_all (\<lambda>c. is_digit c \<or> c = CHR ''-'') ?i"
    using nat_digits_digits by (auto simp: itoa_def list_all_iff)
  have "CHR ''/'' \<notin> set ?i" "CHR ''.'' \<notin> set ?i"
    using plain by (auto simp: list_all_iff is_digit_def)
  moreover have "split_char c s = [s]" if "c \<notin> set s" for c s
    using that by (induction s) auto
  ultimately have split: "split_char CHR ''/'' ?i = [?i]" and "?i \<noteq> ''.''" "?i \<noteq> ''..''" by auto
  moreover have "?i \<noteq> []" by (auto simp: itoa_def nat_digits.simps [of "nat _"])
  ultimately show ?thesis
    by (simp add: site_prefix_def join_path_def clean_path_def is_abs_def)
qed

lemma join_prefix: "ps \<noteq> [] \<Longrightarrow> prefix (hd ps) (join sep ps)"
  by (cases ps rule: remdups_adj.cases) auto


section \<open>Instances\<close>

definition demo_web_env :: web_env where
  "demo_web_env = \<lparr>ve_sha = (\<lambda>_. ''0123456789abcdef01''), ve_read = (\<lambda>_. Some ''logo''), ve_meta = (\<lambda>_. empty_meta),
     ve_marshal = (\<lambda>_. ''{}'')\<rparr>"

definition demo_web_request :: web_request where
  "demo_web_request = \<lparr>wq_host = ''a.example'', wq_path = ''/'', wq_query = [], wq_tunnel = ''1'', wq_accept = [],
     wq_ip = ''10.0.0.1'', wq_agent = [], wq_referrer = [], wq_match = []\<rparr>"

definition demo_page :: "string \<Rightarrow> web_page" where
  "demo_page path = \<lparr>wp_path = path, wp_title = None, wp_content = Some ''x'', wp_metadata = None, wp_layout = None,
     wp_assets = None, wp_status = ''published'', wp_deleted = False, wp_updated = 0\<rparr>"

lemma tunnel_header_selects_site_witness:
  "resolve_site [near_site] (demo_web_request\<lparr>wq_host := ''b.example''\<rparr>) = Inr near_site"
proof -
  have "itoa 1 = ''1''" by code_simp
  then show ?thesis
    by (intro tunnel_header_selects_site) (simp_all add: near_site_def demo_web_request_def)
qed


lemma page_answer_sound_witness:
  "snd (serve_page demo_web_env near_site demo_web_request near_db) = near_db"
proof -
  have "serve_page demo_web_env near_site demo_web_request near_db
      = (serve_404 demo_web_env near_site near_db, near_db)"
    by (simp add: serve_page_def check_redirect_def near_db_def lookup_page_def find_published_def find_param_page_def
        List.map_filter_def)
  from page_answer_sound [OF this] this show ?thesis by auto
qed

lemma spa_misses_home_witness:
  "spa_handler demo_web_env near_site (demo_web_request\<lparr>wq_query := []\<rparr>)
     (near_db\<lparr>web_pages := [demo_page ''/index.html'']\<rparr>) = JsonError 404 ''page not found''"
  using spa_misses_home [of "near_db\<lparr>web_pages := [demo_page ''/index.html'']\<rparr>" "demo_page ''/index.html''"
      demo_web_env near_site demo_web_request]
  by (simp add: demo_page_def near_db_def published_def)


end

