(* ===== verification/Approval.thy ===== *)
theory Approval
  imports ToolCore
begin

text \<open>
  The owner's approval of destructive actions (\<open>tools/approval.go\<close>): questions and answers of the
  site's database, the check of an approval, the request for one, which pauses the pipeline, and the
  trail of destructive actions in the log. Times of answers are integers.
\<close>

section \<open>State\<close>

record approval_question =
  aq_id :: int
  aq_text :: string
  aq_context :: "string option"
  aq_status :: string

record approval_answer =
  aa_question :: int
  aa_text :: string
  aa_created :: int

record approval_db =
  ap_questions :: "approval_question list"
  ap_answers :: "approval_answer list"
  ap_row :: pipeline_row
  ap_asked :: "(int \<times> string) list"
  ap_brain_log :: "string list"

section \<open>Answers\<close>

definition approval_context :: "string \<Rightarrow> string" where
  "approval_context key = ''approval:'' @ key"

text \<open>The answers to the questions with a context, the newest first; of two answers of one moment the earlier row.\<close>

definition answers_for :: "approval_db \<Rightarrow> string \<Rightarrow> approval_answer list" where
  "answers_for d ctx =
     sort_by_le (\<lambda>a b. aa_created b \<le> aa_created a)
       (concat (map (\<lambda>q. filter (\<lambda>a. aa_question a = aq_id q) (ap_answers d))
                    (filter (\<lambda>q. aq_context q = Some ctx) (ap_questions d))))"

definition latest_answer :: "approval_db \<Rightarrow> string \<Rightarrow> string option" where
  "latest_answer d key = (case answers_for d (approval_context key) of [] \<Rightarrow> None | a # _ \<Rightarrow> Some (aa_text a))"

definition says_yes :: "string \<Rightarrow> bool" where
  "says_yes s =
     (let l = to_lower (trim_space s)
      in l = ''approve'' \<or> l = ''yes'' \<or> l = ''approved'' \<or> has_prefix l ''yes'' \<or> has_prefix l ''approve'')"

definition says_no :: "string \<Rightarrow> bool" where
  "says_no s =
     (to_lower (trim_space s) \<in> {''deny'', ''no'', ''denied'', ''reject'', ''rejected'', ''cancel''})"

definition check_approval :: "approval_db \<Rightarrow> string \<Rightarrow> bool" where
  "check_approval d key = (case latest_answer d key of Some a \<Rightarrow> says_yes a | None \<Rightarrow> False)"

definition is_approval_denied :: "approval_db \<Rightarrow> string \<Rightarrow> bool" where
  "is_approval_denied d key = (case latest_answer d key of Some a \<Rightarrow> says_no a | None \<Rightarrow> False)"

section \<open>Requests\<close>

definition next_question_id :: "approval_db \<Rightarrow> int" where
  "next_question_id d = fold max (map aq_id (ap_questions d)) 0 + 1"

text \<open>One pending question for a key at a time.\<close>

definition ask :: "string \<Rightarrow> string \<Rightarrow> approval_db \<Rightarrow> approval_db" where
  "ask ctx question d =
     (if list_ex (\<lambda>q. aq_context q = Some ctx \<and> aq_status q = ''pending'') (ap_questions d) then d
      else (let k = next_question_id d
            in d\<lparr>ap_questions := ap_questions d @ [\<lparr>aq_id = k, aq_text = question, aq_context = Some ctx, aq_status = ''pending''\<rparr>],
                 ap_asked := ap_asked d @ [(k, question)]\<rparr>))"

definition request_approval ::
  "string \<Rightarrow> string \<Rightarrow> string \<Rightarrow> string \<Rightarrow> approval_db \<Rightarrow> tool_return \<times> approval_db" where
  "request_approval now key question detail d =
     (if is_approval_denied d key then (error_result (''ACTION_DENIED: The owner denied this action. '' @ detail), d)
      else (let d = ask (approval_context key) question d;
                d = d\<lparr>ap_row := pause_pipeline now pause_approval (ap_row d)\<rparr>
            in (error_result (''APPROVAL_REQUIRED: '' @ detail @ '' This action requires owner approval. A question has been created in the admin panel. The pipeline will resume automatically when the owner responds.''), d)))"

definition log_destructive :: "string \<Rightarrow> string \<Rightarrow> string \<Rightarrow> approval_db \<Rightarrow> approval_db" where
  "log_destructive t action target d =
     d\<lparr>ap_brain_log := ap_brain_log d @
         [''Destructive: '' @ t @ '' '' @ [CHR 0xE2, CHR 0x86, CHR 0x92] @ '' '' @ action @ '' on '' @ go_quote target]\<rparr>"

section \<open>Facts\<close>

lemma yes_excludes_no: "says_yes s \<Longrightarrow> \<not> says_no s"
proof
  assume y: "says_yes s" and n: "says_no s"
  let ?l = "to_lower (trim_space s)"
  from n consider "?l = ''deny''" | "?l = ''no''" | "?l = ''denied''" | "?l = ''reject''" | "?l = ''rejected''" | "?l = ''cancel''"
    by (auto simp: says_no_def)
  then show False using y by cases (simp_all add: says_yes_def)
qed

lemma approved_not_denied: "check_approval d key \<Longrightarrow> \<not> is_approval_denied d key"
  by (auto simp: check_approval_def is_approval_denied_def yes_excludes_no split: option.splits)

lemma ask_answers [simp]: "ap_answers (ask ctx q d) = ap_answers d"
  by (simp add: ask_def Let_def)

lemma request_refuses: "\<exists>e. fst (request_approval now key q detail d) = error_result e"
  by (cases "is_approval_denied d key") (auto simp: request_approval_def Let_def simp del: append_Cons)

lemma fold_max_ge: "x \<in> set xs \<or> x \<le> m \<Longrightarrow> x \<le> fold max xs (m :: int)"
proof (induction xs arbitrary: m)
  case (Cons a xs)
  then have "x \<in> set xs \<or> x \<le> max a m" by auto
  then show ?case using Cons.IH by simp
qed simp

lemma next_question_fresh: "q \<in> set (ap_questions d) \<Longrightarrow> aq_id q < next_question_id d"
  using fold_max_ge [of "aq_id q" "map aq_id (ap_questions d)" 0] by (auto simp: next_question_id_def)

lemma dispatch_args_cases:
  assumes "dispatch_action routes infer args st = (r, st')"
  shows "st' = st \<or> (\<exists>a h args'. (a, h) \<in> set routes \<and> h args' st = (r, st')
    \<and> (args' = args \<or> (\<exists>v. args' = alist_put ''action'' v args)))"
proof -
  define act where "act = (if get_str args ''action'' \<noteq> [] then get_str args ''action'' else case infer of Some f \<Rightarrow> f args | None \<Rightarrow> [])"
  define args' where "args' = (if get_str args ''action'' = [] \<and> act \<noteq> [] then alist_put ''action'' (JStr act) args else args)"
  have args': "args' = args \<or> (\<exists>v. args' = alist_put ''action'' v args)" by (auto simp: args'_def)
  from assms [unfolded dispatch_action_def Let_def, folded act_def, folded args'_def]
  consider "st' = st" | h where "map_of routes act = Some h" "h args' st = (r, st')"
    by (auto split: if_splits option.splits)
  then show ?thesis using args' map_of_SomeD by cases fast+
qed

lemma dispatch_cases:
  assumes "dispatch_action routes infer args st = (r, st')"
  shows "st' = st \<or> (\<exists>a h args'. (a, h) \<in> set routes \<and> h args' st = (r, st'))"
  using dispatch_args_cases [OF assms] by blast

text \<open>Question numbers are distinct, at most one question of a context is pending, and answers refer to questions.\<close>

definition approvals_ok :: "approval_db \<Rightarrow> bool" where
  "approvals_ok d \<longleftrightarrow>
     distinct (map aq_id (ap_questions d)) \<and>
     distinct (map aq_context (filter (\<lambda>q. aq_status q = ''pending'' \<and> aq_context q \<noteq> None) (ap_questions d))) \<and>
     aa_question ` set (ap_answers d) \<subseteq> aq_id ` set (ap_questions d)"

lemma ask_ok: "approvals_ok d \<Longrightarrow> approvals_ok (ask ctx q d)"
  using next_question_fresh [of _ d]
  by (fastforce simp: approvals_ok_def ask_def Let_def list_ex_iff image_iff)

lemma request_ok: "approvals_ok d \<Longrightarrow> approvals_ok (snd (request_approval now key q detail d))"
  using ask_ok [of d "approval_context key" q] by (simp add: request_approval_def Let_def approvals_ok_def)

lemma log_ok: "approvals_ok d \<Longrightarrow> approvals_ok (log_destructive t a x d)"
  by (simp add: approvals_ok_def log_destructive_def)

text \<open>A request does not make the check pass: only an answer of the owner does.\<close>

lemma answers_fresh:
  assumes "approvals_ok d"
  shows "filter (\<lambda>a. aa_question a = next_question_id d) (ap_answers d) = []"
  using assms next_question_fresh [of _ d] by (force simp: approvals_ok_def filter_empty_conv)

lemma ask_keeps_answers: "approvals_ok d \<Longrightarrow> answers_for (ask ctx q d) c = answers_for d c"
  by (simp add: answers_for_def ask_def Let_def answers_fresh)

lemma request_keeps_check:
  assumes "approvals_ok d"
  shows "check_approval (snd (request_approval now key q detail d)) k = check_approval d k"
  using ask_keeps_answers [OF assms]
  by (simp add: request_approval_def Let_def check_approval_def latest_answer_def answers_for_def)

lemma log_keeps_check [simp]: "check_approval (log_destructive t a x d) k = check_approval d k"
  by (simp add: log_destructive_def check_approval_def latest_answer_def answers_for_def)

end
