(* ===== verification/Marshal.thy ===== *)
theory Marshal
  imports ToolCore Json
begin

text \<open>
  \<open>json.Marshal\<close> of a list of texts and of a map of texts, for texts of printable ASCII characters
  that need no escape, such as the names of tables, columns, methods and roles the tools store; and that
  \<open>json.Unmarshal\<close> reads back what was written.
\<close>

section \<open>Encoding\<close>

definition plain_char :: "char \<Rightarrow> bool" where
  "plain_char c = (let n = of_char c :: nat
     in 32 \<le> n \<and> n < 127 \<and> c \<notin> {CHR 0x22, CHR 0x5C, CHR ''<'', CHR ''>'', CHR ''&''})"

definition plain_text :: "string \<Rightarrow> bool" where "plain_text s = list_all plain_char s"

definition marshal_text :: "string \<Rightarrow> string" where
  "marshal_text s = CHR 0x22 # s @ [CHR 0x22]"

text \<open>A nil slice is encoded as \<open>null\<close>; the lists below are not nil.\<close>

definition marshal_texts :: "string list \<Rightarrow> string" where
  "marshal_texts ss = ''['' @ join '','' (map marshal_text ss) @ '']''"

definition marshal_member :: "string \<times> string \<Rightarrow> string" where
  "marshal_member kv = marshal_text (fst kv) @ '':'' @ marshal_text (snd kv)"

text \<open>The keys of a map are sorted by the encoder; \<open>kvs\<close> are the bindings in that order.\<close>

definition marshal_members :: "(string \<times> string) list \<Rightarrow> string" where
  "marshal_members kvs = ''{'' @ join '','' (map marshal_member kvs) @ ''}''"

section \<open>Decoding\<close>

lemma raw_string_plain: "plain_text s \<Longrightarrow> raw_string (s @ CHR 0x22 # r) = Some (s, r)"
  by (induction s) (auto simp: plain_text_def plain_char_def Let_def)

lemma rune_width_ascii: "(of_char c :: nat) < 128 \<Longrightarrow> rune_width (c # cs) = Some 1"
  by (simp add: byte_in_def)

lemma go_runes_ascii: "(of_char c :: nat) < 128 \<Longrightarrow> go_runes (c # cs) = [c] # go_runes cs"
  using rune_width_ascii [of c cs] by (simp del: rune_width.simps)

lemma go_runes_plain: "plain_text s \<Longrightarrow> go_runes s = map (\<lambda>c. [c]) s"
  by (induction s) (auto simp: plain_text_def plain_char_def Let_def go_runes_ascii simp del: go_runes.simps(2))

lemma unescape_plain: "plain_text s \<Longrightarrow> unescape (map (\<lambda>c. [c]) s) = Some s"
  by (induction s) (auto simp: plain_text_def plain_char_def Let_def)

lemma parse_string_plain: "plain_text s \<Longrightarrow> parse_string (s @ CHR 0x22 # r) = Some (s, r)"
  by (simp add: parse_string_def raw_string_plain go_runes_plain unescape_plain)

lemma parse_value_text: "plain_text s \<Longrightarrow> parse_value d (marshal_text s @ r) = Some (JStr s, r)"
  by (subst parse_value.simps) (simp add: marshal_text_def json_space_def parse_string_plain)

lemma join_comma: "xs \<noteq> [] \<Longrightarrow> join '','' (x # xs) = x @ '','' @ join '','' xs"
  by (cases xs) auto

lemma length_joined: "\<forall>x \<in> set xs. x \<noteq> [] \<Longrightarrow> length xs \<le> length (join '','' xs)"
proof (induction xs)
  case (Cons x xs)
  then have "length x \<ge> 1" "length xs \<le> length (join '','' xs)" by (auto simp: Suc_le_eq)
  then show ?case by (cases xs) auto
qed simp

lemma json_space_stop [simp]:
  "\<not> json_space CHR '',''" "\<not> json_space CHR '']''" "\<not> json_space CHR ''}''" "\<not> json_space CHR '':''"
  "\<not> json_space CHR 0x22" "\<not> json_space CHR ''[''" "\<not> json_space CHR ''{''"
  by (simp_all add: json_space_def)

lemma parse_items_texts:
  assumes "ss \<noteq> []" "length ss \<le> n" "list_all plain_text ss"
  shows "parse_items (parse_value d) n (join '','' (map marshal_text ss) @ CHR '']'' # r) = Some (map JStr ss, r)"
  using assms
proof (induction ss arbitrary: n)
  case (Cons s ss)
  then obtain k where n: "n = Suc k" by (cases n) auto
  show ?case
  proof (cases "ss = []")
    case True
    with Cons.prems n show ?thesis by (simp add: parse_value_text Let_def)
  next
    case False
    with Cons n show ?thesis by (simp add: join_comma parse_value_text Let_def)
  qed
qed simp

theorem unmarshal_texts:
  assumes "list_all plain_text ss"
  shows "unmarshal (marshal_texts ss) = Some (JArr (map JStr ss))"
proof (cases "ss = []")
  case True
  have "unmarshal ''[]'' = Some (JArr [])" by code_simp
  with True show ?thesis by (simp add: marshal_texts_def)
next
  case False
  let ?t = "join '','' (map marshal_text ss) @ '']''"
  have len: "length ss \<le> length ?t"
    using length_joined [of "map marshal_text ss"] by (simp add: marshal_text_def)
  obtain c t where t: "?t = CHR 0x22 # t"
    using False by (cases ss; cases "tl ss") (auto simp: marshal_text_def)
  have "parse_items (parse_value 9999) (length ?t) ?t = Some (map JStr ss, [])"
    using parse_items_texts [OF False len assms, of 9999 "[]"] by simp
  then have "parse_value 10000 (marshal_texts ss) = Some (JArr (map JStr ss), [])"
    by (subst parse_value.simps) (simp add: marshal_texts_def t)
  then show ?thesis by (simp add: unmarshal_def)
qed

lemma parse_member_text:
  "plain_text (fst kv) \<Longrightarrow> plain_text (snd kv) \<Longrightarrow>
     parse_member (parse_value d) (marshal_member kv @ r) = Some ((fst kv, JStr (snd kv)), r)"
  using parse_value_text [of "snd kv" d r]
  by (simp add: parse_member_def marshal_member_def marshal_text_def parse_string_plain)

definition plain_pair :: "string \<times> string \<Rightarrow> bool" where
  "plain_pair kv = (plain_text (fst kv) \<and> plain_text (snd kv))"

lemma parse_members_texts:
  assumes "kvs \<noteq> []" "length kvs \<le> n" "list_all plain_pair kvs"
  shows "parse_members (parse_value d) n m (join '','' (map marshal_member kvs) @ CHR ''}'' # r)
    = Some (fold (\<lambda>(k, v). alist_put k (JStr v)) kvs m, r)"
  using assms
proof (induction kvs arbitrary: n m)
  case (Cons kv kvs)
  then obtain k where n: "n = Suc k" by (cases n) auto
  have kv: "plain_text (fst kv)" "plain_text (snd kv)" using Cons.prems by (auto simp: plain_pair_def)
  show ?case
  proof (cases "kvs = []")
    case True
    with n kv show ?thesis by (simp add: parse_member_text split_beta Let_def)
  next
    case False
    with Cons n kv show ?thesis by (simp add: join_comma parse_member_text split_beta Let_def)
  qed
qed simp

lemma fold_put_fresh:
  assumes "distinct (map fst kvs)" "fst ` set kvs \<inter> fst ` set m = {}"
  shows "fold (\<lambda>(k, v). alist_put k (f v)) kvs m = m @ map (\<lambda>(k, v). (k, f v)) kvs"
  using assms
proof (induction kvs arbitrary: m)
  case (Cons kv kvs)
  then have "alist_put (fst kv) (f (snd kv)) m = m @ [(fst kv, f (snd kv))]"
    by (auto simp: alist_put_def)
  with Cons.IH [of "m @ [(fst kv, f (snd kv))]"] Cons.prems show ?case
    by (auto simp: split_beta)
qed simp

theorem unmarshal_members:
  assumes "list_all plain_pair kvs" "distinct (map fst kvs)"
  shows "unmarshal (marshal_members kvs) = Some (JObj (map (\<lambda>(k, v). (k, JStr v)) kvs))"
proof (cases "kvs = []")
  case True
  have "unmarshal ''{}'' = Some (JObj [])" by code_simp
  with True show ?thesis by (simp add: marshal_members_def)
next
  case False
  let ?t = "join '','' (map marshal_member kvs) @ ''}''"
  have len: "length kvs \<le> length ?t"
    using length_joined [of "map marshal_member kvs"] by (simp add: marshal_member_def marshal_text_def)
  obtain t where t: "?t = CHR 0x22 # t"
    using False by (cases kvs; cases "tl kvs") (auto simp: marshal_member_def marshal_text_def)
  have "parse_members (parse_value 9999) (length ?t) [] ?t = Some (map (\<lambda>(k, v). (k, JStr v)) kvs, [])"
    using parse_members_texts [OF False len assms(1), of 9999 "[]" "[]"] fold_put_fresh [OF assms(2), of "[]" JStr] by simp
  then have "parse_value 10000 (marshal_members kvs) = Some (JObj (map (\<lambda>(k, v). (k, JStr v)) kvs), [])"
    by (subst parse_value.simps) (simp add: marshal_members_def t)
  then show ?thesis by (simp add: unmarshal_def)
qed

section \<open>The encoder as an interface\<close>

abbreviation text_obj :: "(string \<times> string) list \<Rightarrow> json" where
  "text_obj kvs \<equiv> JObj (map (\<lambda>(k, v). (k, JStr v)) kvs)"

text \<open>What the tools rely on of \<open>json.Marshal\<close>.\<close>

locale text_codec =
  fixes marshal :: "json \<Rightarrow> string"
  assumes decode_map: "list_all plain_pair kvs \<Longrightarrow> distinct (map fst kvs) \<Longrightarrow>
      \<exists>kvs'. unmarshal (marshal (text_obj kvs)) = Some (text_obj kvs') \<and> set kvs' = set kvs \<and> distinct (map fst kvs')"
    and decode_list: "list_all plain_text ss \<Longrightarrow> unmarshal (marshal (JArr (map JStr ss))) = Some (JArr (map JStr ss))"
begin

lemma decode_lookup:
  assumes "list_all plain_pair kvs" "distinct (map fst kvs)"
  shows "\<exists>kvs'. unmarshal (marshal (text_obj kvs)) = Some (text_obj kvs') \<and> map_of kvs' = map_of kvs"
  using decode_map [OF assms] assms(2) by (metis map_of_inject_set)

end

text \<open>An instance for evaluation, exact for texts, and lists and objects of texts.\<close>

definition key_order :: "(string \<times> string) list \<Rightarrow> (string \<times> string) list" where
  "key_order kvs = sort_by_le (\<lambda>a b. str_le (fst a) (fst b)) kvs"

definition json_str :: "json \<Rightarrow> string" where
  "json_str j = (case j of JStr s \<Rightarrow> s | _ \<Rightarrow> [])"

definition plain_marshal :: "json \<Rightarrow> string" where
  "plain_marshal j =
     (case j of
        JStr s \<Rightarrow> marshal_text s
      | JArr xs \<Rightarrow> marshal_texts (map json_str xs)
      | JObj kvs \<Rightarrow> marshal_members (key_order (map (\<lambda>(k, v). (k, json_str v)) kvs))
      | _ \<Rightarrow> ''null'')"

lemma insert_sorted_distinct: "distinct (map f (insert_sorted le x xs)) = distinct (map f (x # xs))"
  by (induction xs) auto

lemma sort_by_le_distinct: "distinct (map f (sort_by_le le xs)) = distinct (map f xs)"
  unfolding sort_by_le_def by (induction xs) (simp_all add: insert_sorted_distinct, simp add: sort_by_le_def [symmetric])

lemma key_order_facts: "set (key_order kvs) = set kvs" "distinct (map fst (key_order kvs)) = distinct (map fst kvs)"
  by (simp_all add: key_order_def sort_by_le_distinct)

interpretation plain: text_codec plain_marshal
proof
  fix kvs :: "(string \<times> string) list"
  assume k: "list_all plain_pair kvs" "distinct (map fst kvs)"
  have "map (\<lambda>(k, v). (k, json_str v)) (map (\<lambda>(k, v). (k, JStr v)) kvs) = kvs"
    by (induction kvs) (auto simp: json_str_def)
  then have "plain_marshal (text_obj kvs) = marshal_members (key_order kvs)"
    by (simp add: plain_marshal_def)
  moreover have "list_all plain_pair (key_order kvs)" using k(1) by (simp add: list_all_iff key_order_facts)
  ultimately show "\<exists>kvs'. unmarshal (plain_marshal (text_obj kvs)) = Some (text_obj kvs') \<and> set kvs' = set kvs \<and> distinct (map fst kvs')"
    using unmarshal_members [of "key_order kvs"] k(2) key_order_facts [of kvs] by auto
next
  fix ss :: "string list"
  assume "list_all plain_text ss"
  then show "unmarshal (plain_marshal (JArr (map JStr ss))) = Some (JArr (map JStr ss))"
    using unmarshal_texts [of ss] by (simp add: plain_marshal_def json_str_def comp_def)
qed

end
