(* ===== verification/Schema.thy ===== *)
theory Schema
  imports Approval Marshal PublicAuth Validate
begin

text \<open>
  The tool that manages the tables of a site (\<open>SchemaTool\<close> of \<open>tools/tables.go\<close>): definitions of
  columns, the statements that create and change tables, the registry of the columns that are hashed or
  encrypted, indexes and full-text search, and the approval a loss of data needs. What SQLite makes of a
  data definition statement is an argument, and so are \<open>json.Marshal\<close> and the table information.
\<close>

section \<open>Columns\<close>

record schema_column =
  co_name :: string
  co_type :: string
  co_sql_type :: string
  co_not_null :: bool
  co_unique :: bool
  co_default :: string
  co_check :: string
  co_references :: string
  co_secure :: bool
  co_kind :: string

definition allowed_column_types :: "(string \<times> string) list" where
  "allowed_column_types =
     [(''TEXT'', ''TEXT''), (''INTEGER'', ''INTEGER''), (''REAL'', ''REAL''), (''BLOB'', ''BLOB''),
      (''BOOLEAN'', ''BOOLEAN''), (''PASSWORD'', ''TEXT''), (''ENCRYPTED'', ''TEXT'')]"

definition secure_column_kinds :: "(string \<times> string) list" where
  "secure_column_kinds = [(''PASSWORD'', ''hash''), (''ENCRYPTED'', ''encrypt'')]"

abbreviation sq :: "string \<Rightarrow> string" where "sq s \<equiv> [CHR 0x27] @ s @ [CHR 0x27]"

text \<open>\<open>table(column)\<close>.\<close>

definition valid_fk_reference :: "string \<Rightarrow> bool" where
  "valid_fk_reference s =
     (case cut_char CHR ''('' s of
        (t, Some r) \<Rightarrow> valid_identifier t \<and> r \<noteq> [] \<and> last r = CHR '')'' \<and> valid_identifier (butlast r)
      | _ \<Rightarrow> False)"

text \<open>The constraints of the object form; a member of another type counts as absent.\<close>

definition object_column :: "string \<Rightarrow> jobj \<Rightarrow> string + schema_column" where
  "object_column name v =
     (if get_str v ''type'' = [] then Inl (''column '' @ name @ '': '' @ sq ''type'' @ '' is required in object format'')
      else if get_str v ''references'' \<noteq> [] \<and> \<not> valid_fk_reference (get_str v ''references'')
      then Inl (''column '' @ name @ '': invalid references format '' @ sq (get_str v ''references'') @ '' '' @ em_dash
        @ '' use '' @ sq ''table(column)'' @ '' (e.g. '' @ sq ''users(id)'' @ '')'')
      else Inr \<lparr>co_name = name, co_type = to_upper (get_str v ''type''), co_sql_type = [],
                co_not_null = get_bool v ''not_null'', co_unique = get_bool v ''unique'',
                co_default = get_str v ''default'', co_check = get_str v ''check'',
                co_references = get_str v ''references'', co_secure = False, co_kind = []\<rparr>)"

definition plain_column :: "string \<Rightarrow> string \<Rightarrow> schema_column" where
  "plain_column name ty = \<lparr>co_name = name, co_type = to_upper ty, co_sql_type = [], co_not_null = False,
     co_unique = False, co_default = [], co_check = [], co_references = [], co_secure = False, co_kind = []\<rparr>"

definition typed_column :: "schema_column \<Rightarrow> string + schema_column" where
  "typed_column cd =
     (case map_of allowed_column_types (co_type cd) of
        None \<Rightarrow> Inl (''unsupported column type: '' @ co_type cd @ '' (allowed: TEXT, INTEGER, REAL, BOOLEAN, PASSWORD, ENCRYPTED)'')
      | Some ty \<Rightarrow>
         (let cd = cd\<lparr>co_sql_type := ty\<rparr>
          in Inr (case map_of secure_column_kinds (co_type cd) of
                    Some k \<Rightarrow> cd\<lparr>co_secure := True, co_kind := k\<rparr> | None \<Rightarrow> cd)))"

definition parse_column_def :: "string \<Rightarrow> json \<Rightarrow> string + schema_column" where
  "parse_column_def name raw =
     (case raw of
        JStr ty \<Rightarrow> typed_column (plain_column name ty)
      | JObj v \<Rightarrow> (case object_column name v of Inl e \<Rightarrow> Inl e | Inr cd \<Rightarrow> typed_column cd)
      | _ \<Rightarrow> Inl (''column '' @ name @ '': type must be a string or object''))"

definition column_sql :: "schema_column \<Rightarrow> string" where
  "column_sql cd =
     join '' '' ([co_name cd, co_sql_type cd]
       @ (if co_not_null cd then [''NOT NULL''] else [])
       @ (if co_default cd \<noteq> [] then [''DEFAULT '' @ co_default cd] else [])
       @ (if co_check cd \<noteq> [] then [''CHECK ('' @ co_name cd @ '' '' @ co_check cd @ '')''] else [])
       @ (if co_references cd \<noteq> [] then [''REFERENCES '' @ co_references cd] else []))"

definition sanitized_table_name :: "string \<Rightarrow> string + string" where
  "sanitized_table_name name =
     (if \<not> valid_identifier name
      then Inl (''invalid table name: '' @ name @ '' (must be alphanumeric/underscore, start with letter)'')
      else if is_system_table name then Inl (''cannot use reserved system table: '' @ name)
      else Inr name)"

section \<open>State\<close>

datatype schema_event = SchemaCreated string | SchemaAltered string "string list" "string list"

text \<open>\<open>ss_defs\<close> are the definition and the time of creation in \<open>ho_dynamic_tables\<close>; the texts of its
  secure columns are \<open>si_dynamic\<close> of the site.\<close>

record schema_state =
  ss_site :: site_state
  ss_defs :: "(string, string \<times> string) gomap"
  ss_approvals :: approval_db
  ss_events :: "schema_event list"

text \<open>\<open>se_ddl\<close> executes one data definition statement on a table of the users, which changes their tables or
  fails as a whole. Defaults, checks, references and the names of columns to drop or to index are spliced
  into a statement as they come, and \<open>Exec\<close> runs every statement of a text that has several: \<open>se_script\<close> is
  the effect of such a text, an error or not, on everything the database of the site holds. \<open>se_info\<close> and \<open>se_fks\<close> are the rows of
  \<open>PRAGMA table_info\<close> (name, type, not null, default, key) and of \<open>foreign_key_list\<close>.\<close>

record schema_env =
  se_pub :: pub_env
  se_ddl :: "string \<Rightarrow> database \<Rightarrow> sql_error + database"
  se_script :: "string \<Rightarrow> schema_state \<Rightarrow> sql_error option \<times> schema_state"
  se_marshal :: "json \<Rightarrow> string"
  se_now :: string
  se_info :: "database \<Rightarrow> string \<Rightarrow> (string \<times> string \<times> bool \<times> string option \<times> bool) list"
  se_fks :: "database \<Rightarrow> string \<Rightarrow> (string \<times> string) list"

abbreviation se_text :: "schema_env \<Rightarrow> sql_error \<Rightarrow> string" where
  "se_text en \<equiv> pe_error_text (se_pub en)"

definition ss_db :: "schema_state \<Rightarrow> database" where "ss_db st = si_db (ss_site st)"

definition with_db :: "database \<Rightarrow> schema_state \<Rightarrow> schema_state" where
  "with_db db st = st\<lparr>ss_site := (ss_site st)\<lparr>si_db := db\<rparr>\<rparr>"

definition with_dynamic :: "(string, string) gomap \<Rightarrow> schema_state \<Rightarrow> schema_state" where
  "with_dynamic m st = st\<lparr>ss_site := (ss_site st)\<lparr>si_dynamic := m\<rparr>\<rparr>"

text \<open>A text with raw parts is executed as a statement when it is one, and as a script otherwise.\<close>

definition exec_text :: "schema_env \<Rightarrow> string \<Rightarrow> schema_state \<Rightarrow> sql_error option \<times> schema_state" where
  "exec_text en s st =
     (if single_statement s
      then (case se_ddl en s (ss_db st) of Inl e \<Rightarrow> (Some e, st) | Inr db \<Rightarrow> (None, with_db db st))
      else se_script en s st)"

definition ordered_members :: "schema_env \<Rightarrow> jobj \<Rightarrow> jobj" where
  "ordered_members en m = List.map_filter (\<lambda>k. map_option (Pair k) (map_of m k)) (pe_order (se_pub en) (map fst m))"

text \<open>\<open>LoadSecureColumns\<close>: a table that is not registered and a text that does not decode give no columns.\<close>

definition decode_secure :: "string \<Rightarrow> (string, string) gomap" where
  "decode_secure s =
     (case unmarshal s of
        Some (JObj m) \<Rightarrow>
          if list_all (\<lambda>(_, v). case v of JStr _ \<Rightarrow> True | JNull \<Rightarrow> True | _ \<Rightarrow> False) m
          then map (\<lambda>(k, v). (k, json_text v)) m else []
      | _ \<Rightarrow> [])"

definition load_secure_columns :: "schema_state \<Rightarrow> string \<Rightarrow> (string, string) gomap" where
  "load_secure_columns st tab =
     (case map_of (si_dynamic (ss_site st)) tab of Some s \<Rightarrow> decode_secure s | None \<Rightarrow> [])"

definition secure_text :: "schema_env \<Rightarrow> (string, string) gomap \<Rightarrow> string" where
  "secure_text en secure = se_marshal en (JObj (map (\<lambda>(k, v). (k, JStr v)) secure))"

definition registered :: "schema_state \<Rightarrow> string \<Rightarrow> bool" where
  "registered st tab = (map_of (si_dynamic (ss_site st)) tab \<noteq> None)"

section \<open>Creation\<close>

definition reserved_column :: "string \<Rightarrow> bool" where
  "reserved_column c = (equal_fold c ''id'' \<or> equal_fold c ''created_at'')"

fun gather_columns :: "jobj \<Rightarrow> string + schema_column list" where
  "gather_columns [] = Inr []"
| "gather_columns ((c, raw) # rest) =
     (if reserved_column c then gather_columns rest
      else if \<not> valid_identifier c then Inl (''invalid column name: '' @ c)
      else case parse_column_def c raw of Inl e \<Rightarrow> Inl e
        | Inr cd \<Rightarrow> (case gather_columns rest of Inl e \<Rightarrow> Inl e | Inr cds \<Rightarrow> Inr (cd # cds)))"

definition create_sql :: "string \<Rightarrow> schema_column list \<Rightarrow> string" where
  "create_sql name cds =
     ''CREATE TABLE IF NOT EXISTS '' @ name @ '' (id INTEGER PRIMARY KEY AUTOINCREMENT, ''
     @ join '', '' (map column_sql cds) @ '', created_at DATETIME DEFAULT CURRENT_TIMESTAMP)''"

definition secure_of :: "schema_column list \<Rightarrow> (string, string) gomap" where
  "secure_of cds = map (\<lambda>cd. (co_name cd, co_kind cd)) (filter co_secure cds)"

definition register_table :: "schema_env \<Rightarrow> string \<Rightarrow> jobj \<Rightarrow> (string, string) gomap \<Rightarrow> schema_state \<Rightarrow> schema_state" where
  "register_table en tab cols secure st =
     (let created = (case map_of (ss_defs st) tab of Some (_, t) \<Rightarrow> t | None \<Rightarrow> se_now en)
      in (with_dynamic (alist_put tab (secure_text en secure) (si_dynamic (ss_site st))) st)
           \<lparr>ss_defs := alist_put tab (se_marshal en (JObj cols), created) (ss_defs st)\<rparr>)"

definition unique_sql :: "string \<Rightarrow> string \<Rightarrow> string" where
  "unique_sql name c =
     ''CREATE UNIQUE INDEX IF NOT EXISTS idx_'' @ name @ ''_'' @ c @ ''_unique ON '' @ name @ '' ('' @ c @ '')''"

text \<open>Statements one after the other up to the first that fails; an error of statement \<open>s\<close> is reported as \<open>w s\<close>.\<close>

fun run_ddl :: "schema_env \<Rightarrow> (string \<times> string) list \<Rightarrow> database \<Rightarrow> string option \<times> database" where
  "run_ddl en [] db = (None, db)"
| "run_ddl en ((w, s) # ss) db =
     (case se_ddl en s db of Inl e \<Rightarrow> (Some (w @ '': '' @ se_text en e), db) | Inr db \<Rightarrow> run_ddl en ss db)"

definition is_text_column :: "jobj \<Rightarrow> string \<Rightarrow> bool" where
  "is_text_column cols c =
     (case map_of cols c of
        Some (JStr ty) \<Rightarrow> equal_fold ty ''TEXT''
      | Some (JObj v) \<Rightarrow> (case get_str_ok v ''type'' of Some ty \<Rightarrow> equal_fold ty ''TEXT'' | None \<Rightarrow> False)
      | _ \<Rightarrow> False)"

definition searchable_columns :: "jobj \<Rightarrow> jobj \<Rightarrow> string list" where
  "searchable_columns args cols =
     (case get_arr_ok args ''searchable_columns'' of
        None \<Rightarrow> []
      | Some xs \<Rightarrow>
          List.map_filter (\<lambda>x. case x of JStr c \<Rightarrow> if valid_identifier c \<and> is_text_column cols c then Some c else None
             | _ \<Rightarrow> None) xs)"

definition fts_statements :: "string \<Rightarrow> string list \<Rightarrow> (string \<times> string) list" where
  "fts_statements tab cols =
     (let fts = tab @ ''_fts''; cl = join '', '' cols;
          new = join '', '' (map (\<lambda>c. ''new.'' @ c) cols); old = join '', '' (map (\<lambda>c. ''old.'' @ c) cols);
          ins = ''INSERT INTO '' @ fts @ ''(rowid, '' @ cl @ '') VALUES (new.id, '' @ new @ ''); '';
          del = ''INSERT INTO '' @ fts @ ''('' @ fts @ '', rowid, '' @ cl @ '') VALUES('' @ sq ''delete'' @ '', old.id, '' @ old @ ''); ''
      in [(''creating FTS5 table'', ''CREATE VIRTUAL TABLE IF NOT EXISTS '' @ fts @ '' USING fts5('' @ cl @ '', content='' @ tab @ '', content_rowid=id)''),
          (''creating INSERT trigger'', ''CREATE TRIGGER IF NOT EXISTS '' @ tab @ ''_ai AFTER INSERT ON '' @ tab @ '' BEGIN '' @ ins @ ''END''),
          (''creating DELETE trigger'', ''CREATE TRIGGER IF NOT EXISTS '' @ tab @ ''_ad AFTER DELETE ON '' @ tab @ '' BEGIN '' @ del @ ''END''),
          (''creating UPDATE trigger'', ''CREATE TRIGGER IF NOT EXISTS '' @ tab @ ''_au AFTER UPDATE ON '' @ tab @ '' BEGIN '' @ del @ ins @ ''END'')])"

definition create_fts_index :: "schema_env \<Rightarrow> string \<Rightarrow> string list \<Rightarrow> database \<Rightarrow> string option \<times> database" where
  "create_fts_index en tab cols db = run_ddl en (fts_statements tab cols) db"

definition strs :: "string list \<Rightarrow> json" where "strs ss = JArr (map JStr ss)"

definition created_data :: "string \<Rightarrow> jobj \<Rightarrow> (string, string) gomap \<Rightarrow> jobj \<Rightarrow> json" where
  "created_data tab cols secure extra =
     JObj ([(''table'', JStr tab), (''columns'', JObj cols),
            (''secure_columns'', JObj (map (\<lambda>(k, v). (k, JStr v)) secure))] @ extra)"

definition emit_schema :: "schema_event \<Rightarrow> schema_state \<Rightarrow> schema_state" where
  "emit_schema ev st = st\<lparr>ss_events := ss_events st @ [ev]\<rparr>"

text \<open>The indexes, after the table is registered.\<close>

definition create_indexes ::
  "schema_env \<Rightarrow> string \<Rightarrow> jobj \<Rightarrow> jobj \<Rightarrow> schema_column list \<Rightarrow> schema_state \<Rightarrow> tool_return \<times> schema_state" where
  "create_indexes en tab args cols cds st =
     (let uniq = map (\<lambda>c. (''creating unique index on '' @ c, unique_sql tab c)) (map co_name (filter co_unique cds));
          secure = secure_of cds; search = searchable_columns args cols
      in case run_ddl en uniq (ss_db st) of
           (Some e, db) \<Rightarrow> (ToolError e, with_db db st)
         | (None, db) \<Rightarrow>
            (case (if search = [] then (None, db) else create_fts_index en tab search db) of
               (Some e, db) \<Rightarrow>
                 (ok_result (created_data tab cols secure [(''fts_warning'', JStr (''FTS5 index creation failed: '' @ e))]), with_db db st)
             | (None, db) \<Rightarrow>
                 (ok_result (created_data tab cols secure (if search = [] then [] else [(''fts_columns'', strs search)])),
                  emit_schema (SchemaCreated tab) (with_db db st))))"

definition schema_create :: "schema_env \<Rightarrow> schema_state action_handler" where
  "schema_create en args st =
     (let tab = get_str args ''table_name'';
          cols = (case get_obj_ok args ''columns'' of Some m \<Rightarrow> m | None \<Rightarrow> [])
      in if tab = [] \<or> cols = [] then (error_result ''table_name and columns are required'', st)
         else if registered st tab
         then (ok_result (JObj [(''table_name'', JStr tab),
                 (''message'', JStr (''Table '' @ tab @ '' already exists '' @ em_dash @ '' skipping creation.''))]), st)
         else case sanitized_table_name tab of Inl e \<Rightarrow> (error_result e, st)
           | Inr name \<Rightarrow>
              (case gather_columns (ordered_members en cols) of Inl e \<Rightarrow> (error_result e, st)
               | Inr cds \<Rightarrow>
                  (case exec_text en (create_sql name cds) st of
                     (Some e, st) \<Rightarrow> (ToolError (''creating table: '' @ se_text en e), st)
                   | (None, st) \<Rightarrow>
                      create_indexes en tab args cols cds (register_table en tab cols (secure_of cds) st))))"

section \<open>Alteration\<close>

text \<open>What the loop over the new columns has done so far: secure columns, names added, the state.\<close>

type_synonym alter_acc = "(string, string) gomap \<times> string list \<times> schema_state"

definition add_column :: "schema_env \<Rightarrow> string \<Rightarrow> schema_column \<Rightarrow> alter_acc \<Rightarrow> (tool_return \<times> schema_state) + alter_acc" where
  "add_column en tab cd acc =
     (let (secure, added, st) = acc; c = co_name cd
      in case exec_text en (''ALTER TABLE '' @ tab @ '' ADD COLUMN '' @ column_sql cd) st of
           (Some e, st) \<Rightarrow> Inl (ToolError (''adding column '' @ c @ '': '' @ se_text en e), st)
         | (None, st) \<Rightarrow>
            (let secure = (if co_secure cd then alist_put c (co_kind cd) secure else secure)
             in if co_unique cd
                then (case se_ddl en (unique_sql tab c) (ss_db st) of
                        Inl e \<Rightarrow> Inl (ToolError (''creating unique index on '' @ c @ '': '' @ se_text en e), st)
                      | Inr db \<Rightarrow> Inr (secure, added @ [c], with_db db st))
                else Inr (secure, added @ [c], st)))"

fun add_columns :: "schema_env \<Rightarrow> string \<Rightarrow> jobj \<Rightarrow> alter_acc \<Rightarrow> (tool_return \<times> schema_state) + alter_acc" where
  "add_columns en tab [] acc = Inr acc"
| "add_columns en tab ((c, raw) # rest) acc =
     (if \<not> valid_identifier c then Inl (error_result (''invalid column name: '' @ c), snd (snd acc))
      else case parse_column_def c raw of Inl e \<Rightarrow> Inl (error_result e, snd (snd acc))
        | Inr cd \<Rightarrow> (case add_column en tab cd acc of Inl x \<Rightarrow> Inl x | Inr acc \<Rightarrow> add_columns en tab rest acc))"

text \<open>The columns to drop, unless one is protected.\<close>

fun columns_to_drop :: "json list \<Rightarrow> string + string list" where
  "columns_to_drop [] = Inr []"
| "columns_to_drop (JStr c # rest) =
     (if c = [] then columns_to_drop rest
      else if c = ''id'' \<or> c = ''created_at'' then Inl (''cannot drop protected column: '' @ c)
      else map_sum id ((#) c) (columns_to_drop rest))"
| "columns_to_drop (_ # rest) = columns_to_drop rest"

fun drop_columns :: "schema_env \<Rightarrow> string \<Rightarrow> string list \<Rightarrow> alter_acc \<Rightarrow> (tool_return \<times> schema_state) + alter_acc" where
  "drop_columns en tab [] acc = Inr acc"
| "drop_columns en tab (c # cs) (secure, dropped, st) =
     (case exec_text en (''ALTER TABLE '' @ tab @ '' DROP COLUMN '' @ c) st of
        (Some e, st) \<Rightarrow> Inl (ToolError (''dropping column '' @ c @ '': '' @ se_text en e), st)
      | (None, st) \<Rightarrow> drop_columns en tab cs (alist_del c secure, dropped @ [c], st))"

definition drop_key :: "string \<Rightarrow> string list \<Rightarrow> string" where
  "drop_key tab cs = ''drop_columns:'' @ tab @ '':'' @ join '','' cs"

definition ask_owner :: "schema_env \<Rightarrow> string \<Rightarrow> string \<Rightarrow> string \<Rightarrow> schema_state \<Rightarrow> tool_return \<times> schema_state" where
  "ask_owner en key question detail st =
     (let (r, ap) = request_approval (se_now en) key question detail (ss_approvals st) in (r, st\<lparr>ss_approvals := ap\<rparr>))"

definition log_action :: "string \<Rightarrow> string \<Rightarrow> string \<Rightarrow> schema_state \<Rightarrow> schema_state" where
  "log_action t action target st = st\<lparr>ss_approvals := log_destructive t action target (ss_approvals st)\<rparr>"

text \<open>The second half: the registry is written only when both loops have ended.\<close>

definition finish_alter ::
  "schema_env \<Rightarrow> string \<Rightarrow> (string, string) gomap \<Rightarrow> string list \<Rightarrow> string list \<Rightarrow> schema_state \<Rightarrow> tool_return \<times> schema_state" where
  "finish_alter en tab secure added dropped st =
     (if added = [] \<and> dropped = [] then (error_result ''no columns to add or drop'', st)
      else (let st = (if registered st tab
                      then with_dynamic (alist_put tab (secure_text en secure) (si_dynamic (ss_site st))) st else st)
            in (ok_result (JObj [(''table'', JStr tab), (''added'', strs added), (''dropped'', strs dropped)]),
                emit_schema (SchemaAltered tab added dropped) st)))"

definition alter_drop ::
  "schema_env \<Rightarrow> string \<Rightarrow> string list \<Rightarrow> (string, string) gomap \<Rightarrow> string list \<Rightarrow> schema_state \<Rightarrow> tool_return \<times> schema_state" where
  "alter_drop en tab cs secure added st =
     (if cs \<noteq> [] \<and> \<not> check_approval (ss_approvals st) (drop_key tab cs)
      then ask_owner en (drop_key tab cs)
             (''The AI wants to drop column(s) '' @ join '', '' cs @ '' from table '' @ sq tab
                @ ''. Data in these columns will be permanently lost. Approve?'')
             (''Dropping columns ['' @ join '', '' cs @ ''] from table '' @ sq tab @ ''.'') st
      else case drop_columns en tab cs (secure, [], st) of
          Inl res \<Rightarrow> res
        | Inr (secure, dropped, st) \<Rightarrow>
           (let st = (if dropped = [] then st
                      else log_action ''manage_schema'' ''alter_drop_columns'' (tab @ '':['' @ join '','' dropped @ '']'') st)
            in finish_alter en tab secure added dropped st))"

definition schema_alter :: "schema_env \<Rightarrow> schema_state action_handler" where
  "schema_alter en args st =
     (let tab = get_str args ''table_name''
      in if tab = [] then (error_result ''table_name is required'', st)
         else case sanitized_table_name tab of Inl e \<Rightarrow> (error_result e, st)
           | Inr name \<Rightarrow>
              (let new = (case get_obj_ok args ''add_columns'' of Some m \<Rightarrow> ordered_members en m | None \<Rightarrow> [])
               in case add_columns en name new (load_secure_columns st tab, [], st) of
                    Inl res \<Rightarrow> res
                  | Inr (secure, added, st) \<Rightarrow>
                     (case get_arr_ok args ''drop_columns'' of
                        None \<Rightarrow> finish_alter en tab secure added [] st
                      | Some xs \<Rightarrow>
                         (case columns_to_drop xs of Inl e \<Rightarrow> (error_result e, st)
                          | Inr cs \<Rightarrow> alter_drop en tab cs secure added st))))"

section \<open>Description and removal\<close>

definition describe_column ::
  "(string, string) gomap \<Rightarrow> (string \<times> string) list \<Rightarrow> string \<times> string \<times> bool \<times> string option \<times> bool \<Rightarrow> json" where
  "describe_column secure fks ci =
     (case ci of (c, ty, nn, dflt, pk) \<Rightarrow>
        JObj ([(''name'', JStr c), (''type'', JStr ty)]
          @ (if pk then [(''primary_key'', JBool True)] else [])
          @ (if nn then [(''not_null'', JBool True)] else [])
          @ (case dflt of Some d \<Rightarrow> [(''default'', JStr d)] | None \<Rightarrow> [])
          @ (case map_of secure c of
               Some k \<Rightarrow> if k = ''hash'' then [(''secure'', JStr ''PASSWORD'')]
                         else if k = ''encrypt'' then [(''secure'', JStr ''ENCRYPTED'')] else []
             | None \<Rightarrow> [])
          @ (case map_of (rev fks) c of Some r \<Rightarrow> [(''references'', JStr r)] | None \<Rightarrow> [])))"

definition schema_describe :: "schema_env \<Rightarrow> schema_state action_handler" where
  "schema_describe en args st =
     (let tab = get_str args ''table_name''
      in if tab = [] then (error_result ''table_name is required'', st)
         else case sanitized_table_name tab of Inl e \<Rightarrow> (error_result e, st)
           | Inr name \<Rightarrow>
              (case se_info en (ss_db st) name of
                 [] \<Rightarrow> (error_result ''table not found'', st)
               | infos \<Rightarrow> (ok_result (JObj [(''table'', JStr tab),
                   (''columns'', JArr (map (describe_column (load_secure_columns st tab) (se_fks en (ss_db st) name)) infos))]), st)))"

definition schema_list :: "schema_state action_handler" where
  "schema_list args st =
     (ok_result (JArr (map (\<lambda>(n, d, t). JObj [(''table_name'', JStr n), (''schema'', JStr d), (''created_at'', JStr t)])
        (sort_by_le (\<lambda>a b. str_le (fst a) (fst b)) (ss_defs st)))), st)"

definition row_count :: "database \<Rightarrow> string \<Rightarrow> nat" where
  "row_count db tab = (case find_table db tab of Some t \<Rightarrow> length (st_rows t) | None \<Rightarrow> 0)"

text \<open>The removal of a table with its registration and the endpoints on it.\<close>

definition forget_table :: "string \<Rightarrow> schema_state \<Rightarrow> schema_state" where
  "forget_table tab st =
     (let s = ss_site st
      in st\<lparr>ss_site := s\<lparr>si_dynamic := alist_del tab (si_dynamic s),
              si_endpoints := filter (\<lambda>r. er_table r \<noteq> tab) (si_endpoints s),
              si_auth := filter (\<lambda>r. ar_table r \<noteq> tab) (si_auth s)\<rparr>,
            ss_defs := alist_del tab (ss_defs st)\<rparr>)"

definition schema_drop :: "schema_env \<Rightarrow> schema_state action_handler" where
  "schema_drop en args st =
     (let tab = get_str args ''table_name''
      in if tab = [] then (error_result ''table_name is required'', st)
         else case sanitized_table_name tab of Inl e \<Rightarrow> (error_result e, st)
           | Inr name \<Rightarrow>
              if \<not> registered st tab then (error_result ''table not found'', st)
              else (let n = itoa (int (row_count (ss_db st) name)); key = ''drop_table:'' @ tab
                    in if \<not> check_approval (ss_approvals st) key
                       then ask_owner en key
                              (''The AI wants to DROP the table '' @ sq tab @ '' ('' @ n @ '' rows). This will permanently delete all data in the table and remove related API endpoints. This cannot be undone. Approve?'')
                              (''Dropping table '' @ sq tab @ '' ('' @ n @ '' rows) and its related endpoints.'') st
                       else case se_ddl en (''DROP TABLE IF EXISTS '' @ name) (ss_db st) of
                           Inl e \<Rightarrow> (ToolError (''dropping table: '' @ se_text en e), st)
                         | Inr db \<Rightarrow>
                            (ok_result (JObj [(''dropped'', JStr tab)]),
                             log_action ''manage_schema'' ''drop'' tab (forget_table tab (with_db db st)))))"

section \<open>Indexes and dispatch\<close>

text \<open>The columns as a list, whose bad members are skipped, or as a JSON text, whose members are not checked.\<close>

definition index_columns :: "jobj \<Rightarrow> tool_return + string list" where
  "index_columns args =
     (case map_of args ''index_columns'' of
        Some (JArr xs) \<Rightarrow>
          Inr (List.map_filter (\<lambda>x. case x of JStr c \<Rightarrow> if valid_identifier c then Some c else None | _ \<Rightarrow> None) xs)
      | Some (JStr s) \<Rightarrow>
          (case unmarshal s of
             Some (JArr xs) \<Rightarrow>
               if list_all (\<lambda>x. case x of JStr _ \<Rightarrow> True | JNull \<Rightarrow> True | _ \<Rightarrow> False) xs then Inr (map json_text xs)
               else Inl (ToolError ''index_columns must be an array of column names'')
           | Some JNull \<Rightarrow> Inr []
           | _ \<Rightarrow> Inl (ToolError ''index_columns must be an array of column names''))
      | _ \<Rightarrow> Inr [])"

definition index_sql :: "bool \<Rightarrow> string \<Rightarrow> string list \<Rightarrow> string" where
  "index_sql uniq tab cs =
     (if uniq then ''CREATE UNIQUE INDEX'' else ''CREATE INDEX'') @ '' IF NOT EXISTS idx_'' @ tab @ ''_'' @ join ''_'' cs
       @ '' ON '' @ tab @ ''('' @ join '', '' cs @ '')''"

definition schema_add_index :: "schema_env \<Rightarrow> schema_state action_handler" where
  "schema_add_index en args st =
     (let tab = get_str args ''table_name''; uniq = get_bool args ''unique''
      in if tab = [] then (ToolError ''table_name is required'', st)
         else if \<not> valid_identifier tab then (ToolError (''invalid table name: '' @ go_quote tab), st)
         else if \<not> registered st tab then (ToolError (''table '' @ go_quote tab @ '' not found in ho_dynamic_tables''), st)
         else case index_columns args of Inl r \<Rightarrow> (r, st)
           | Inr cs \<Rightarrow>
              if cs = [] then (ToolError ''index_columns is required (array of column names)'', st)
              else (case exec_text en (index_sql uniq tab cs) st of
                      (Some e, st) \<Rightarrow> (ToolError (''create index failed: '' @ se_text en e), st)
                    | (None, st) \<Rightarrow>
                       (ok_result (JObj [(''index'', JStr (''idx_'' @ tab @ ''_'' @ join ''_'' cs)), (''table'', JStr tab),
                           (''columns'', strs cs), (''unique'', JBool uniq)]), st)))"

definition infer_schema_action :: "jobj \<Rightarrow> string" where
  "infer_schema_action args =
     (if map_of args ''columns'' \<noteq> None then ''create''
      else if map_of args ''table_name'' \<noteq> None then ''describe'' else ''list'')"

definition schema_routes :: "schema_env \<Rightarrow> (string \<times> schema_state action_handler) list" where
  "schema_routes en =
     [(''create'', schema_create en), (''alter'', schema_alter en), (''describe'', schema_describe en),
      (''list'', schema_list), (''drop'', schema_drop en), (''add_index'', schema_add_index en)]"

definition schema_tool :: "schema_env \<Rightarrow> schema_state action_handler" where
  "schema_tool en = dispatch_action (schema_routes en) (Some infer_schema_action)"

section \<open>The registry as an abstract set\<close>

definition reg_tables :: "schema_state \<Rightarrow> string set" where
  "reg_tables st = fst ` set (si_dynamic (ss_site st))"

definition approved :: "schema_state \<Rightarrow> string \<Rightarrow> bool" where
  "approved st t = check_approval (ss_approvals st) (''drop_table:'' @ t)"

text \<open>What a call may do to the set of registered tables, for an owner who approved some removals.\<close>

inductive registry_step :: "(string \<Rightarrow> bool) \<Rightarrow> string set \<Rightarrow> string set \<Rightarrow> bool" for appr where
  stay: "registry_step appr T T"
| created: "valid_identifier t \<Longrightarrow> \<not> is_system_table t \<Longrightarrow> registry_step appr T (insert t T)"
| dropped: "t \<in> T \<Longrightarrow> appr t \<Longrightarrow> registry_step appr T (T - {t})"

inductive_cases registry_stepE: "registry_step appr T T'"

named_theorems schema_frame \<open>what the small updates of the state leave alone\<close>

lemma frame_simps [simp, schema_frame]:
  "reg_tables (with_db db st) = reg_tables st"
  "reg_tables (emit_schema ev st) = reg_tables st"
  "reg_tables (log_action t a x st) = reg_tables st"
  "reg_tables (register_table en tab cols secure st) = insert tab (reg_tables st)"
  "reg_tables (forget_table tab st) = reg_tables st - {tab}"
  "reg_tables (with_dynamic m st) = fst ` set m"
  "ss_approvals (with_db db st) = ss_approvals st"
  "ss_approvals (with_dynamic m st) = ss_approvals st"
  "ss_approvals (emit_schema ev st) = ss_approvals st"
  "ss_approvals (register_table en tab cols secure st) = ss_approvals st"
  "ss_approvals (forget_table tab st) = ss_approvals st"
  "ss_approvals (log_action t a x st) = log_destructive t a x (ss_approvals st)"
  by (auto simp: reg_tables_def with_db_def emit_schema_def log_action_def register_table_def forget_table_def
      with_dynamic_def keys_alist_put alist_del_def Let_def)

lemma registered_iff: "registered st tab \<longleftrightarrow> tab \<in> reg_tables st"
  by (simp add: registered_def reg_tables_def map_of_eq_None_iff)

lemma registered_put: "registered st tab \<Longrightarrow> fst ` set (alist_put tab v (si_dynamic (ss_site st))) = reg_tables st"
  by (auto simp: registered_iff keys_alist_put reg_tables_def)

definition same_approvals :: "schema_state \<Rightarrow> schema_state \<Rightarrow> bool" where
  "same_approvals st st' \<longleftrightarrow> approvals_ok (ss_approvals st')
     \<and> check_approval (ss_approvals st') = check_approval (ss_approvals st)"

lemma same_approvals_simps [simp]:
  "approvals_ok (ss_approvals st) \<Longrightarrow> ss_approvals st' = ss_approvals st \<Longrightarrow> same_approvals st st'"
  "approvals_ok (ss_approvals st) \<Longrightarrow> ss_approvals st' = log_destructive t a x (ss_approvals st) \<Longrightarrow> same_approvals st st'"
  by (auto simp: same_approvals_def log_ok)

lemma ask_owner_frame:
  assumes "approvals_ok (ss_approvals st)" "ask_owner en key q d st = (r, st')"
  shows "reg_tables st' = reg_tables st" "same_approvals st st'" "ss_site st' = ss_site st"
  using assms request_ok [of "ss_approvals st"] request_keeps_check [of "ss_approvals st"]
  by (auto simp: ask_owner_def reg_tables_def same_approvals_def split: prod.splits intro!: ext) (metis snd_conv)+

definition call_frame :: "schema_state \<Rightarrow> schema_state \<Rightarrow> bool" where
  "call_frame st st' \<longleftrightarrow> registry_step (approved st) (reg_tables st) (reg_tables st') \<and> same_approvals st st'"

lemma call_frameI:
  "approvals_ok (ss_approvals st) \<Longrightarrow> reg_tables st' = reg_tables st \<Longrightarrow> ss_approvals st' = ss_approvals st \<Longrightarrow> call_frame st st'"
  by (simp add: call_frame_def registry_step.stay)

lemma create_indexes_frame:
  assumes "create_indexes en tab args cols cds st = (r, st')"
  shows "reg_tables st' = reg_tables st" "ss_approvals st' = ss_approvals st"
  using assms by (auto simp: create_indexes_def Let_def split: prod.splits option.splits)

text \<open>Calls whose raw texts do not hold a second statement.\<close>

definition single_columns :: "jobj \<Rightarrow> bool" where
  "single_columns m =
     list_all (\<lambda>(c, raw). case parse_column_def c raw of Inr cd \<Rightarrow> single_statement (column_sql cd) | Inl _ \<Rightarrow> True) m"

definition single_texts :: "jobj \<Rightarrow> bool" where
  "single_texts args \<longleftrightarrow>
     (case get_obj_ok args ''columns'' of Some m \<Rightarrow> single_columns m | None \<Rightarrow> True)
     \<and> (case get_obj_ok args ''add_columns'' of Some m \<Rightarrow> single_columns m | None \<Rightarrow> True)
     \<and> (case get_arr_ok args ''drop_columns'' of
          Some xs \<Rightarrow> list_all (\<lambda>x. case x of JStr c \<Rightarrow> single_statement c | _ \<Rightarrow> True) xs | None \<Rightarrow> True)
     \<and> (case index_columns args of Inr cs \<Rightarrow> list_all single_statement cs | Inl _ \<Rightarrow> True)"

text \<open>Only the tables of the users differ.\<close>

definition db_only :: "schema_state \<Rightarrow> schema_state \<Rightarrow> bool" where
  "db_only st st' \<longleftrightarrow> (\<exists>db. st' = with_db db st)"

lemma db_only_refl [simp]: "db_only st st"
  by (auto simp: db_only_def with_db_def intro!: exI [of _ "si_db (ss_site st)"])

lemma db_only_with [simp]: "db_only st (with_db db st)"
  by (auto simp: db_only_def)

lemma db_only_trans: "db_only st st' \<Longrightarrow> db_only st' st'' \<Longrightarrow> db_only st st''"
  by (auto simp: db_only_def with_db_def)

lemma db_only_facts:
  "db_only st st' \<Longrightarrow> reg_tables st' = reg_tables st \<and> ss_approvals st' = ss_approvals st
     \<and> ss_defs st' = ss_defs st \<and> ss_events st' = ss_events st"
  by (auto simp: db_only_def) (simp_all add: with_db_def)

lemma exec_single: "exec_text en s st = (e, st') \<Longrightarrow> single_statement s \<Longrightarrow> db_only st st'"
  by (auto simp: exec_text_def split: sum.splits)

lemma single_join: "single_statement (join sep xs) \<longleftrightarrow> (xs = [] \<or> list_all single_statement xs \<and> (length xs > 1 \<longrightarrow> single_statement sep))"
  by (induction xs rule: join.induct) auto

lemma identifier_single: "valid_identifier s \<Longrightarrow> single_statement s"
proof -
  have "ident_char c \<Longrightarrow> c \<noteq> CHR '';''" for c
    by (auto simp: ident_char_def ascii_letter_def is_digit_def Let_def)
  then show "valid_identifier s \<Longrightarrow> single_statement s"
    by (cases s) (auto simp: valid_identifier_def single_statement_def list_all_iff ident_char_def)
qed

lemma sanitized_single: "sanitized_table_name t = Inr n \<Longrightarrow> n = t \<and> valid_identifier t \<and> \<not> is_system_table t \<and> single_statement t"
  by (auto simp: sanitized_table_name_def identifier_single split: if_splits)

lemma gather_single:
  "gather_columns m = Inr cds \<Longrightarrow> single_columns m \<Longrightarrow> list_all (\<lambda>cd. single_statement (column_sql cd)) cds"
  by (induction m arbitrary: cds rule: gather_columns.induct)
    (auto simp: single_columns_def split: if_splits sum.splits)

lemma ordered_single: "single_columns m \<Longrightarrow> single_columns (ordered_members en m)"
proof -
  assume m: "single_columns m"
  have "x \<in> set (ordered_members en m) \<Longrightarrow> x \<in> set m" for x
    by (auto simp: ordered_members_def List.map_filter_def dest: map_of_SomeD)
  with m show ?thesis by (auto simp: single_columns_def list_all_iff)
qed

lemma create_single:
  assumes "sanitized_table_name t = Inr n" "gather_columns (ordered_members en m) = Inr cds" "single_columns m"
  shows "single_statement (create_sql n cds)"
  using sanitized_single [OF assms(1)] gather_single [OF assms(2) ordered_single [OF assms(3)]]
  by (simp add: create_sql_def single_join list_all_iff)

lemma create_frame:
  assumes "approvals_ok (ss_approvals st)" "single_texts args" "schema_create en args st = (r, st')"
  shows "call_frame st st'"
proof -
  let ?tab = "get_str args ''table_name''"
  define m where "m = (case get_obj_ok args ''columns'' of Some m \<Rightarrow> m | None \<Rightarrow> [])"
  have m: "single_columns m" using assms(2) by (auto simp: m_def single_texts_def single_columns_def split: option.splits)
  from assms(3) [unfolded schema_create_def Let_def, folded m_def] consider "st' = st"
    | name cds e st1 where "sanitized_table_name ?tab = Inr name" "gather_columns (ordered_members en m) = Inr cds"
      "exec_text en (create_sql name cds) st = (Some e, st1)" "st' = st1"
    | name cds st1 where "sanitized_table_name ?tab = Inr name" "gather_columns (ordered_members en m) = Inr cds"
      "exec_text en (create_sql name cds) st = (None, st1)"
      "create_indexes en ?tab args m cds (register_table en ?tab m (secure_of cds) st1) = (r, st')"
    by (auto simp del: append_Cons split: sum.splits if_splits prod.splits option.splits)
  then show ?thesis
  proof cases
    case 1
    with assms(1) show ?thesis by (simp add: call_frameI)
  next
    case (2 name cds e st1)
    from db_only_facts [OF exec_single [OF 2(3) create_single [OF 2(1,2) m]]] 2(4) assms(1) show ?thesis
      by (simp add: call_frameI)
  next
    case (3 name cds st1)
    from db_only_facts [OF exec_single [OF 3(3) create_single [OF 3(1,2) m]]]
      create_indexes_frame [OF 3(4)] sanitized_single [OF 3(1)] assms(1)
    show ?thesis by (auto simp: call_frame_def intro: registry_step.created)
  qed
qed

lemma finish_alter_frame:
  assumes "finish_alter en tab secure added dropped st = (r, st')"
  shows "reg_tables st' = reg_tables st" "ss_approvals st' = ss_approvals st"
  using assms by (auto simp: finish_alter_def registered_put Let_def split: if_splits)

lemma add_column_single:
  assumes "single_statement tab" "single_statement (column_sql cd)"
  shows "case add_column en tab cd (secure, added, st) of Inl (_, st') \<Rightarrow> db_only st st' | Inr (_, _, st') \<Rightarrow> db_only st st'"
proof (cases "exec_text en (''ALTER TABLE '' @ tab @ '' ADD COLUMN '' @ column_sql cd) st")
  case (Pair e st1)
  have "db_only st st1" by (rule exec_single [OF Pair]) (use assms in simp)
  then have "db_only st st1" "db_only st (with_db db st1)" for db using db_only_trans db_only_with by blast+
  with Pair show ?thesis
    by (simp add: add_column_def Let_def del: append_Cons split: option.split sum.split)
qed

lemma add_columns_single:
  "single_statement tab \<Longrightarrow> single_columns m \<Longrightarrow>
     case add_columns en tab m (secure, added, st) of Inl (_, st') \<Rightarrow> db_only st st' | Inr (_, _, st') \<Rightarrow> db_only st st'"
proof (induction m arbitrary: secure added st)
  case (Cons x m)
  obtain c raw where x: "x = (c, raw)" by (cases x)
  show ?case
  proof (cases "valid_identifier c")
    case True
    show ?thesis
    proof (cases "parse_column_def c raw")
      case (Inr cd)
      with Cons.prems x have "single_statement (column_sql cd)" "single_columns m" by (simp_all add: single_columns_def)
      note add = add_column_single [OF Cons.prems(1) this(1), where en = en and secure = secure and added = added and st = st] and ih = Cons.IH [OF Cons.prems(1) this(2)]
      show ?thesis
      proof (cases "add_column en tab cd (secure, added, st)")
        case (Inl y)
        with add x True Inr show ?thesis by (cases y) simp
      next
        case inr: (Inr y)
        obtain secure' added' st1 where y: "y = (secure', added', st1)" by (cases y)
        with add inr have "db_only st st1" by simp
        with ih [where secure = secure' and added = added' and st = st1] show ?thesis
          using x True Inr inr y by (auto split: sum.splits intro: db_only_trans)
      qed
    qed (use x True in simp)
  qed (use x in simp)
qed simp

lemma drop_columns_single:
  "single_statement tab \<Longrightarrow> list_all single_statement cs \<Longrightarrow>
     case drop_columns en tab cs (secure, dropped, st) of Inl (_, st') \<Rightarrow> db_only st st' | Inr (_, _, st') \<Rightarrow> db_only st st'"
proof (induction cs arbitrary: secure dropped st)
  case (Cons c cs)
  obtain e st1 where e: "exec_text en (''ALTER TABLE '' @ tab @ '' DROP COLUMN '' @ c) st = (e, st1)"
    by (cases "exec_text en (''ALTER TABLE '' @ tab @ '' DROP COLUMN '' @ c) st")
  have st1: "db_only st st1" by (rule exec_single [OF e]) (use Cons.prems in simp)
  from Cons.prems have "list_all single_statement cs" by simp
  from Cons.IH [OF Cons.prems(1) this, where secure = "alist_del c secure" and dropped = "dropped @ [c]" and st = st1] e st1 show ?case
    by (auto simp del: append_Cons split: option.splits sum.splits intro: db_only_trans)
qed simp

lemma columns_to_drop_single:
  "columns_to_drop xs = Inr cs \<Longrightarrow> list_all (\<lambda>x. case x of JStr c \<Rightarrow> single_statement c | _ \<Rightarrow> True) xs \<Longrightarrow> list_all single_statement cs"
proof (induction xs arbitrary: cs rule: columns_to_drop.induct)
  case (2 c rest)
  then show ?case by (cases "columns_to_drop rest") (auto split: if_splits)
qed auto

lemma alter_drop_frame:
  assumes "approvals_ok (ss_approvals st)" "single_statement tab" "list_all single_statement cs"
    and "alter_drop en tab cs secure added st = (r, st')"
  shows "reg_tables st' = reg_tables st" "same_approvals st st'"
proof -
  have "reg_tables st' = reg_tables st \<and> same_approvals st st'"
  proof (cases "cs \<noteq> [] \<and> \<not> check_approval (ss_approvals st) (drop_key tab cs)")
    case True
    with assms(4) show ?thesis using ask_owner_frame [OF assms(1)] by (simp add: alter_drop_def)
  next
    case False
    note d = drop_columns_single [OF assms(2,3), where en = en and secure = secure and dropped = "[]" and st = st]
    show ?thesis
    proof (cases "drop_columns en tab cs (secure, [], st)")
      case (Inl y)
      with d assms(1,4) False show ?thesis
        by (cases y) (auto simp: alter_drop_def dest!: db_only_facts)
    next
      case (Inr y)
      obtain secure' dropped st1 where y: "y = (secure', dropped, st1)" by (cases y)
      with d Inr have st1: "reg_tables st1 = reg_tables st" "ss_approvals st1 = ss_approvals st"
        by (auto dest: db_only_facts)
      let ?st = "if dropped = [] then st1
        else log_action ''manage_schema'' ''alter_drop_columns'' (tab @ '':['' @ join '','' dropped @ '']'') st1"
      from assms(4) False Inr y have "finish_alter en tab secure' added dropped ?st = (r, st')"
        by (simp add: alter_drop_def Let_def del: append_Cons)
      from finish_alter_frame [OF this] st1 assms(1) show ?thesis
        by (auto split: if_splits simp del: append_Cons)
    qed
  qed
  then show "reg_tables st' = reg_tables st" "same_approvals st st'" by simp_all
qed

lemma alter_frame:
  assumes "approvals_ok (ss_approvals st)" "single_texts args" "schema_alter en args st = (r, st')"
  shows "call_frame st st'"
proof (cases "get_str args ''table_name'' = [] \<or> (\<exists>e. sanitized_table_name (get_str args ''table_name'') = Inl e)")
  case True
  with assms(1,3) show ?thesis by (auto simp: schema_alter_def Let_def call_frameI split: if_splits)
next
  case False
  define tab where "tab = get_str args ''table_name''"
  define new where "new = (case get_obj_ok args ''add_columns'' of Some m \<Rightarrow> ordered_members en m | None \<Rightarrow> [])"
  from False have tab: "tab \<noteq> []" "sanitized_table_name tab = Inr tab" "single_statement tab"
    using sanitized_single [of tab] by (cases "sanitized_table_name tab"; auto simp: tab_def)+
  have "single_columns new"
    using assms(2) ordered_single by (auto simp: new_def single_texts_def single_columns_def split: option.splits)
  note add = add_columns_single [OF tab(3) this, where en = en and secure = "load_secure_columns st tab" and added = "[]" and st = st]
  note alt = assms(3) [unfolded schema_alter_def, folded tab_def, folded new_def]
  have "reg_tables st' = reg_tables st \<and> same_approvals st st'"
  proof (cases "add_columns en tab new (load_secure_columns st tab, [], st)")
    case (Inl y)
    with add alt tab assms(1) show ?thesis by (cases y) (auto dest!: db_only_facts)
  next
    case (Inr y)
    obtain secure added st1 where y: "y = (secure, added, st1)" by (cases y)
    with add Inr have st1: "reg_tables st1 = reg_tables st" "ss_approvals st1 = ss_approvals st"
      by (auto dest: db_only_facts)
    have same: "same_approvals st1 s = same_approvals st s" for s using st1(2) by (simp add: same_approvals_def)
    have ok1: "approvals_ok (ss_approvals st1)" using assms(1) st1(2) by simp
    from alt tab Inr y consider "finish_alter en tab secure added [] st1 = (r, st')" | "st' = st1"
      | xs cs where "get_arr_ok args ''drop_columns'' = Some xs" "columns_to_drop xs = Inr cs"
        "alter_drop en tab cs secure added st1 = (r, st')"
      by (auto split: option.splits sum.splits)
    then show ?thesis
    proof cases
      case 1
      from finish_alter_frame [OF 1] st1 assms(1) show ?thesis by simp
    next
      case 2
      with st1 assms(1) show ?thesis by simp
    next
      case (3 xs cs)
      have "list_all single_statement cs"
        using columns_to_drop_single [OF 3(2)] assms(2) 3(1) by (simp add: single_texts_def)
      from alter_drop_frame [OF ok1 tab(3) this 3(3)] st1 same show ?thesis by simp
    qed
  qed
  then show ?thesis by (simp add: call_frame_def registry_step.stay)
qed

lemma drop_step:
  "t \<in> reg_tables st \<Longrightarrow> check_approval (ss_approvals st) (''drop_table:'' @ t) \<Longrightarrow>
     registry_step (approved st) (reg_tables st) (reg_tables st - {t})"
  by (intro registry_step.dropped) (simp_all only: approved_def)

lemma drop_frame:
  assumes "approvals_ok (ss_approvals st)" "schema_drop en args st = (r, st')"
  shows "call_frame st st'"
  using assms ask_owner_frame [OF assms(1)]
  by (auto simp: schema_drop_def Let_def call_frame_def registered_iff simp del: append_Cons
      split: if_splits sum.splits intro: registry_step.stay drop_step)

lemma index_single: "list_all single_statement cs \<Longrightarrow> single_statement tab \<Longrightarrow> single_statement (index_sql u tab cs)"
  by (simp add: index_sql_def single_join)

lemma add_index_frame:
  assumes "approvals_ok (ss_approvals st)" "single_texts args" "schema_add_index en args st = (r, st')"
  shows "call_frame st st'"
proof (cases "st' = st")
  case True
  with assms(1) show ?thesis by (simp add: call_frameI)
next
  case False
  let ?tab = "get_str args ''table_name''"
  from False assms(3) obtain cs e where e: "valid_identifier ?tab" "index_columns args = Inr cs"
    "exec_text en (index_sql (get_bool args ''unique'') ?tab cs) st = (e, st')"
    unfolding schema_add_index_def
    by (auto simp: Let_def simp del: append_Cons split: if_splits sum.splits prod.splits option.splits)
  have "list_all single_statement cs" using assms(2) e(2) by (simp add: single_texts_def)
  from db_only_facts [OF exec_single [OF e(3) index_single [OF this identifier_single [OF e(1)]]]] assms(1)
  show ?thesis by (simp add: call_frameI)
qed

lemma other_frames:
  assumes "approvals_ok (ss_approvals st)"
  shows "schema_describe en args st = (r, st') \<Longrightarrow> call_frame st st'"
    "schema_list args st = (r, st') \<Longrightarrow> call_frame st st'"
  using assms
  by (auto simp: schema_describe_def schema_list_def Let_def
      split: if_splits sum.splits list.splits intro: call_frameI)

section \<open>Properties of the registry\<close>

lemma single_texts_action: "single_texts (alist_put ''action'' v args) = single_texts args"
  by (simp add: single_texts_def index_columns_def get_obj_ok_def get_arr_ok_def)

lemma tool_frame:
  assumes "approvals_ok (ss_approvals st)" "single_texts args"
  shows "call_frame st (snd (schema_tool en args st))"
proof -
  let ?st = "snd (schema_tool en args st)"
  have "schema_tool en args st = (fst (schema_tool en args st), ?st)" by simp
  from dispatch_args_cases [OF this [unfolded schema_tool_def]]
  consider "?st = st" | a h args' r where "(a, h) \<in> set (schema_routes en)" "h args' st = (r, ?st)"
    "args' = args \<or> (\<exists>v. args' = alist_put ''action'' v args)"
    unfolding schema_tool_def by blast
  then show ?thesis
  proof cases
    case 1
    with assms(1) show ?thesis by (simp add: call_frameI)
  next
    case (2 a h args' r)
    then have single: "single_texts args'" using assms(2) single_texts_action by auto
    from 2(1) consider "h = schema_create en" | "h = schema_alter en" | "h = schema_describe en" | "h = schema_list"
      | "h = schema_drop en" | "h = schema_add_index en" by (auto simp: schema_routes_def)
    then show ?thesis
      using assms(1) single 2(2) by cases (metis create_frame alter_frame drop_frame add_index_frame other_frames)+
  qed
qed


definition run_schema :: "schema_env \<Rightarrow> jobj list \<Rightarrow> schema_state \<Rightarrow> schema_state" where
  "run_schema en calls st = fold (\<lambda>args st. snd (schema_tool en args st)) calls st"

lemma run_schema_frame:
  assumes "approvals_ok (ss_approvals st)" "list_all single_texts calls"
  shows "approvals_ok (ss_approvals (run_schema en calls st)) \<and> approved (run_schema en calls st) = approved st
    \<and> (\<forall>t \<in> reg_tables st. \<not> approved st t \<longrightarrow> t \<in> reg_tables (run_schema en calls st))"
  using assms
proof (induction calls arbitrary: st)
  case (Cons args calls)
  let ?st = "snd (schema_tool en args st)"
  from Cons.prems have single: "single_texts args" "list_all single_texts calls" by simp_all
  have s: "call_frame st ?st" by (rule tool_frame [OF Cons.prems(1) single(1)])
  then have a: "approvals_ok (ss_approvals ?st)" "approved ?st = approved st"
    by (auto simp: call_frame_def same_approvals_def approved_def simp del: append_Cons)
  from s have "registry_step (approved st) (reg_tables st) (reg_tables ?st)" by (simp add: call_frame_def)
  then have "\<forall>t \<in> reg_tables st. \<not> approved st t \<longrightarrow> t \<in> reg_tables ?st" by cases auto
  with Cons.IH [OF a(1) single(2)] a(2) show ?case by (simp add: run_schema_def)
qed (simp add: run_schema_def)

text \<open>Whatever calls without spliced statements the model makes, a table stays registered unless the owner had approved its removal.\<close>

theorem tables_survive_unapproved:
  assumes "approvals_ok (ss_approvals st)" "list_all single_texts calls" "t \<in> reg_tables st" "\<not> approved st t"
  shows "t \<in> reg_tables (run_schema en calls st)"
  using run_schema_frame [OF assms(1,2)] assms(3,4) by blast

section \<open>Secure columns\<close>

lemma identifier_plain: "valid_identifier s \<Longrightarrow> plain_text s"
proof -
  have c: "ident_char c \<Longrightarrow> plain_char c" for c
    by (auto simp: ident_char_def plain_char_def ascii_letter_def is_digit_def Let_def)
  show "valid_identifier s \<Longrightarrow> plain_text s"
    using c by (cases s) (auto simp: valid_identifier_def plain_text_def list_all_iff ident_char_def)
qed

lemma typed_column_kind:
  assumes "typed_column cd = Inr cd'" "\<not> co_secure cd"
  shows "co_name cd' = co_name cd"
    "(if co_secure cd' then Some (co_kind cd') else None) = map_of secure_column_kinds (co_type cd)"
  using assms by (auto simp: typed_column_def Let_def split: option.splits)

definition declared_type :: "json \<Rightarrow> string" where
  "declared_type raw = (case raw of JStr ty \<Rightarrow> to_upper ty | JObj v \<Rightarrow> to_upper (get_str v ''type'') | _ \<Rightarrow> [])"

lemma parse_column_kind:
  assumes "parse_column_def c raw = Inr cd"
  shows "co_name cd = c"
    "(if co_secure cd then Some (co_kind cd) else None) = map_of secure_column_kinds (declared_type raw)"
proof -
  from assms obtain cd0 where "typed_column cd0 = Inr cd" "\<not> co_secure cd0" "co_name cd0 = c" "co_type cd0 = declared_type raw"
    by (auto simp: parse_column_def_def plain_column_def object_column_def declared_type_def
        split: json.splits sum.splits if_splits)
  with typed_column_kind [of cd0 cd] show "co_name cd = c"
    "(if co_secure cd then Some (co_kind cd) else None) = map_of secure_column_kinds (declared_type raw)" by auto
qed

lemma secure_of_simps [simp]:
  "secure_of [] = []"
  "secure_of (cd # cds) = (if co_secure cd then (co_name cd, co_kind cd) # secure_of cds else secure_of cds)"
  by (simp_all add: secure_of_def)

lemma gather_secure:
  assumes "gather_columns cols = Inr cds" "distinct (map fst cols)"
  shows "list_all plain_pair (secure_of cds)" "distinct (map fst (secure_of cds))"
    "map_of (secure_of cds) c =
       (if reserved_column c then None
        else case map_of cols c of Some raw \<Rightarrow> map_of secure_column_kinds (declared_type raw) | None \<Rightarrow> None)"
proof -
  have "list_all plain_pair (secure_of cds) \<and> distinct (map fst (secure_of cds))
      \<and> fst ` set (secure_of cds) \<subseteq> fst ` set cols
      \<and> (\<forall>c. map_of (secure_of cds) c =
         (if reserved_column c then None
          else case map_of cols c of Some raw \<Rightarrow> map_of secure_column_kinds (declared_type raw) | None \<Rightarrow> None))"
    using assms
  proof (induction cols arbitrary: cds)
    case (Cons x cols)
    obtain d raw where x: "x = (d, raw)" by (cases x)
    show ?case
    proof (cases "reserved_column d")
      case True
      with Cons x show ?thesis by (auto split: option.splits)
    next
      case False
      with Cons.prems x obtain cd cds' where cd: "valid_identifier d" "parse_column_def d raw = Inr cd"
        "gather_columns cols = Inr cds'" "cds = cd # cds'"
        by (auto split: if_splits sum.splits)
      have kind: "co_kind cd = ''hash'' \<or> co_kind cd = ''encrypt''" if "co_secure cd"
        using parse_column_kind(2) [OF cd(2)] that by (auto simp: secure_column_kinds_def split: if_splits)
      have "plain_text ''hash''" "plain_text ''encrypt''" by code_simp+
      with kind identifier_plain [OF cd(1)] parse_column_kind(1) [OF cd(2)]
      have pp: "co_secure cd \<Longrightarrow> plain_pair (co_name cd, co_kind cd)" by (auto simp: plain_pair_def)
      have d: "d \<notin> fst ` set cols" using Cons.prems(2) x by auto
      then have none: "map_of cols d = None" by (simp add: map_of_eq_None_iff)
      have dist: "distinct (map fst cols)" using Cons.prems(2) by simp
      note ih = Cons.IH [OF cd(3) dist]
      note k = parse_column_kind [OF cd(2)]
      have 1: "list_all plain_pair (secure_of cds)" using ih pp cd(4) by simp
      have 2: "distinct (map fst (secure_of cds)) \<and> fst ` set (secure_of cds) \<subseteq> fst ` set (x # cols)"
        using ih d cd(4) x k(1) by auto
      have "map_of (secure_of cds) c' = (if reserved_column c' then None
          else case map_of (x # cols) c' of Some raw \<Rightarrow> map_of secure_column_kinds (declared_type raw) | None \<Rightarrow> None)" for c'
      proof (cases "c' = d")
        case True
        with ih none have "map_of (secure_of cds') d = None" by simp
        with True False k cd(4) x show ?thesis by auto
      next
        case neq: False
        with ih k(1) cd(4) x show ?thesis by simp
      qed
      with 1 2 show ?thesis by blast
    qed
  qed simp
  then show "list_all plain_pair (secure_of cds)" "distinct (map fst (secure_of cds))"
    "map_of (secure_of cds) c =
       (if reserved_column c then None
        else case map_of cols c of Some raw \<Rightarrow> map_of secure_column_kinds (declared_type raw) | None \<Rightarrow> None)"
    by auto
qed

text \<open>A map has each key once, and Go visits every key once.\<close>

definition visits_once :: "pub_env \<Rightarrow> bool" where
  "visits_once en \<longleftrightarrow> (\<forall>xs. distinct xs \<longrightarrow> set (pe_order en xs) = set xs \<and> distinct (pe_order en xs))"

lemma map_filter_pair:
  assumes "set ks \<subseteq> dom (map_of m)"
  shows "List.map_filter (\<lambda>k. map_option (Pair k) (map_of m k)) ks = map (\<lambda>k. (k, the (map_of m k))) ks"
  using assms by (induction ks) (auto simp: List.map_filter_simps)

lemma map_of_keyed: "map_of (map (\<lambda>k. (k, f k)) ks) c = (if c \<in> set ks then Some (f c) else None)"
  by (induction ks) auto

lemma ordered_members_facts:
  assumes "visits_once (se_pub en)" "distinct (map fst m)"
  shows "distinct (map fst (ordered_members en m))" "map_of (ordered_members en m) = map_of m"
proof -
  let ?ks = "pe_order (se_pub en) (map fst m)"
  have ks: "set ?ks = fst ` set m" "distinct ?ks" using assms by (auto simp: visits_once_def)
  then have e: "ordered_members en m = map (\<lambda>k. (k, the (map_of m k))) ?ks"
    unfolding ordered_members_def by (intro map_filter_pair) (simp add: dom_map_of_conv_image_fst)
  then show "distinct (map fst (ordered_members en m))" using ks(2) by (simp add: comp_def)
  show "map_of (ordered_members en m) = map_of m"
  proof (rule ext)
    fix x
    show "map_of (ordered_members en m) x = map_of m x"
    proof (cases "map_of m x")
      case None
      then have "x \<notin> fst ` set m" by (simp add: map_of_eq_None_iff)
      with None show ?thesis by (simp add: e map_of_keyed ks(1))
    next
      case (Some v)
      then have "x \<in> fst ` set m" by (auto dest!: map_of_SomeD intro: rev_image_eqI)
      with Some show ?thesis by (simp add: e map_of_keyed ks(1))
    qed
  qed
qed

lemma create_indexes_dynamic:
  assumes "create_indexes en tab args cols cds st = (r, st')"
  shows "si_dynamic (ss_site st') = si_dynamic (ss_site st)"
  using assms
  by (auto simp: create_indexes_def Let_def with_db_def emit_schema_def split: prod.splits option.splits)

lemma secure_text_decodes:
  assumes "text_codec (se_marshal en)" "list_all plain_pair kvs" "distinct (map fst kvs)"
  shows "map_of (decode_secure (secure_text en kvs)) = map_of kvs"
proof -
  from text_codec.decode_lookup [OF assms] obtain kvs' where
    k: "unmarshal (secure_text en kvs) = Some (text_obj kvs')" "map_of kvs' = map_of kvs"
    unfolding secure_text_def by blast
  have "list_all (\<lambda>(_, v). case v of JStr _ \<Rightarrow> True | JNull \<Rightarrow> True | _ \<Rightarrow> False) (map (\<lambda>(k, v). (k, JStr v)) kvs')"
    by (simp add: list_all_iff split_beta)
  moreover have "map (\<lambda>(k, v). (k, json_text v)) (map (\<lambda>(k, v). (k, JStr v)) kvs') = kvs'"
    by (induction kvs') (auto simp: json_text_def)
  ultimately show ?thesis using k by (simp add: decode_secure_def)
qed

lemma create_success:
  assumes "schema_create en args st = (ToolResult r, st')" "tr_success r" "\<not> registered st (get_str args ''table_name'')"
    "get_obj_ok args ''columns'' = Some cols"
  shows "\<exists>cds st1. gather_columns (ordered_members en cols) = Inr cds
    \<and> sanitized_table_name (get_str args ''table_name'') = Inr (get_str args ''table_name'')
    \<and> exec_text en (create_sql (get_str args ''table_name'') cds) st = (None, st1)
    \<and> create_indexes en (get_str args ''table_name'') args cols cds
        (register_table en (get_str args ''table_name'') cols (secure_of cds) st1) = (ToolResult r, st')"
proof -
  have name: "sanitized_table_name t = Inr n \<Longrightarrow> n = t" for t n
    by (auto simp: sanitized_table_name_def split: if_splits)
  from assms show ?thesis
    by (auto simp: schema_create_def Let_def error_result_def dest: name split: if_splits sum.splits prod.splits option.splits)
qed

text \<open>C15. After a table was created the registry gives for each column the treatment its declared type asks for:
  passwords are hashed, encrypted columns encrypted, all others stored as they are.\<close>

theorem create_registers_secure:
  assumes "text_codec (se_marshal en)" "visits_once (se_pub en)"
    and "get_obj_ok args ''columns'' = Some cols" "distinct (map fst cols)"
    and "\<not> registered st (get_str args ''table_name'')"
    and "schema_create en args st = (ToolResult r, st')" "tr_success r"
  shows "map_of (load_secure_columns st' (get_str args ''table_name'')) c =
    (if reserved_column c then None
     else case map_of cols c of Some raw \<Rightarrow> map_of secure_column_kinds (declared_type raw) | None \<Rightarrow> None)"
proof -
  let ?tab = "get_str args ''table_name''"
  from create_success [OF assms(6,7,5,3)] obtain cds st1 where
    c: "gather_columns (ordered_members en cols) = Inr cds"
       "create_indexes en ?tab args cols cds (register_table en ?tab cols (secure_of cds) st1) = (ToolResult r, st')"
    by blast
  note o = ordered_members_facts [OF assms(2,4)]
  note g = gather_secure [OF c(1) o(1)]
  have "map_of (si_dynamic (ss_site st')) ?tab = Some (secure_text en (secure_of cds))"
    using create_indexes_dynamic [OF c(2)] by (simp add: register_table_def with_dynamic_def Let_def)
  then have "load_secure_columns st' ?tab = decode_secure (secure_text en (secure_of cds))"
    by (simp add: load_secure_columns_def)
  then show ?thesis using secure_text_decodes [OF assms(1) g(1,2)] g(3) [of c] o(2) by simp
qed

text \<open>A call that adds a password column and drops another column stops to ask the owner after the column
  was added and before the registry is written: the column exists, but values stored in it are not hashed.\<close>

theorem interrupted_alter_unsecured:
  assumes "get_str args ''table_name'' = tab" "valid_identifier tab" "\<not> is_system_table tab"
    and "get_obj_ok args ''add_columns'' = Some [(c, JStr ''PASSWORD'')]" "valid_identifier c"
    and "get_arr_ok args ''drop_columns'' = Some [JStr d]" "d \<notin> {[], ''id'', ''created_at''}"
    and "\<not> check_approval (ss_approvals st) (drop_key tab [d])" "visits_once (se_pub en)"
    and "se_ddl en (''ALTER TABLE '' @ tab @ '' ADD COLUMN '' @ c @ '' TEXT'') (ss_db st) = Inr db"
    and "schema_alter en args st = (r, st')"
  shows "ss_db st' = db \<and> load_secure_columns st' tab = load_secure_columns st tab \<and> (\<exists>e. r = error_result e)"
proof -
  have t: "tab \<noteq> []" "sanitized_table_name tab = Inr tab"
    using assms(2,3) by (auto simp: sanitized_table_name_def valid_identifier_def)
  have "set (pe_order (se_pub en) [c]) = {c} \<and> distinct (pe_order (se_pub en) [c])"
    using assms(9) by (auto simp: visits_once_def)
  then have "pe_order (se_pub en) [c] = [c]"
    by (cases "pe_order (se_pub en) [c]"; cases "tl (pe_order (se_pub en) [c])") auto
  then have o: "ordered_members en [(c, JStr ''PASSWORD'')] = [(c, JStr ''PASSWORD'')]"
    by (simp add: ordered_members_def List.map_filter_simps)
  have up: "to_upper ''PASSWORD'' = ''PASSWORD''" by code_simp
  let ?cd = "(plain_column c ''PASSWORD'')\<lparr>co_sql_type := ''TEXT'', co_secure := True, co_kind := ''hash''\<rparr>"
  have "parse_column_def c (JStr ''PASSWORD'') = Inr ?cd" "column_sql ?cd = c @ '' TEXT''"
    by (simp_all add: parse_column_def_def plain_column_def typed_column_def up allowed_column_types_def
        secure_column_kinds_def column_sql_def Let_def del: to_upper.simps)
  then obtain cd where cd: "parse_column_def c (JStr ''PASSWORD'') = Inr cd" "column_sql cd = c @ '' TEXT''"
    "co_secure cd" "\<not> co_unique cd" "co_name cd = c" by (simp add: plain_column_def)
  have x: "exec_text en (''ALTER TABLE '' @ tab @ '' ADD COLUMN '' @ c @ '' TEXT'') st = (None, with_db db st)"
    using assms(10) identifier_single [OF assms(2)] identifier_single [OF assms(5)] by (simp add: exec_text_def)
  have a: "schema_alter en args st = ask_owner en (drop_key tab [d])
       (''The AI wants to drop column(s) '' @ join '', '' [d] @ '' from table '' @ sq tab
          @ ''. Data in these columns will be permanently lost. Approve?'')
       (''Dropping columns ['' @ join '', '' [d] @ ''] from table '' @ sq tab @ ''.'') (with_db db st)"
    using assms(4-8) x t o cd
    by (simp add: schema_alter_def assms(1) add_column_def alter_drop_def Let_def)
  have "fst (ask_owner en k q e s) = fst (request_approval (se_now en) k q e (ss_approvals s))" for k q e s
    by (simp add: ask_owner_def split_beta)
  moreover have "ss_site (snd (ask_owner en k q e s)) = ss_site s" for k q e s
    by (simp add: ask_owner_def split_beta)
  ultimately have "ss_site st' = ss_site (with_db db st)" "\<exists>e. r = error_result e"
    using assms(11) a request_refuses by (metis fst_conv snd_conv)+
  then show ?thesis by (simp add: ss_db_def load_secure_columns_def with_db_def)
qed

section \<open>A concrete engine\<close>

text \<open>An instance for evaluation: the statements of the tool on columns without constraints; indexes are ignored.\<close>

definition drop_table_named :: "string \<Rightarrow> database \<Rightarrow> database" where
  "drop_table_named tab db = filter (\<lambda>(n, _). fold_case n \<noteq> fold_case tab) db"

definition column_words :: "string \<Rightarrow> sql_column option" where
  "column_words s =
     (case filter (\<lambda>w. w \<noteq> []) (split_char CHR '' '' s) of
        n # ty # _ \<Rightarrow> Some \<lparr>sc_name = n, sc_type = ty, sc_default = SNull\<rparr> | _ \<Rightarrow> None)"

definition plain_create :: "string \<Rightarrow> string \<Rightarrow> database \<Rightarrow> database" where
  "plain_create tab s db =
     (if find_table db tab \<noteq> None then db
      else db @ [(tab, \<lparr>st_columns = List.map_filter column_words
              (split_char CHR '','' (case snd (cut_char CHR ''('' s) of Some r \<Rightarrow> r | None \<Rightarrow> [])),
            st_rows = [], st_seq = 0\<rparr>)])"

definition change_columns :: "string \<Rightarrow> (sql_column list \<Rightarrow> sql_column list) \<Rightarrow> database \<Rightarrow> sql_error + database" where
  "change_columns tab f db =
     (case find_table db tab of
        None \<Rightarrow> Inl (NoSuchTable tab) | Some t \<Rightarrow> Inr (put_table tab (t\<lparr>st_columns := f (st_columns t)\<rparr>) db))"

definition plain_ddl :: "string \<Rightarrow> database \<Rightarrow> sql_error + database" where
  "plain_ddl s db =
     (let ws = split_char CHR '' '' s; w = (\<lambda>i. if i < length ws then ws ! i else [])
      in if take 5 ws = [''CREATE'', ''TABLE'', ''IF'', ''NOT'', ''EXISTS''] then Inr (plain_create (w 5) s db)
         else if take 4 ws = [''DROP'', ''TABLE'', ''IF'', ''EXISTS''] then Inr (drop_table_named (w 4) db)
         else if w 0 = ''ALTER'' \<and> w 3 = ''ADD'' then
           change_columns (w 2) (\<lambda>cs. cs @ [\<lparr>sc_name = w 5, sc_type = w 6, sc_default = SNull\<rparr>]) db
         else if w 0 = ''ALTER'' then change_columns (w 2) (filter (\<lambda>c. fold_case (sc_name c) \<noteq> fold_case (w 5))) db
         else Inr db)"

text \<open>The only script of the instance: it empties the registry of tables.\<close>

definition script_effect :: "string \<Rightarrow> schema_state \<Rightarrow> sql_error option \<times> schema_state" where
  "script_effect s st = (if contains s ''DELETE FROM ho_dynamic_tables'' then (None, with_dynamic [] st) else (Some (SyntaxError s), st))"

definition demo_schema_env :: schema_env where
  "demo_schema_env = \<lparr>se_pub = demo_env, se_ddl = plain_ddl, se_script = script_effect, se_marshal = plain_marshal, se_now = ''now'',
     se_info = (\<lambda>_ _. []), se_fks = (\<lambda>_ _. [])\<rparr>"

definition demo_approvals :: approval_db where
  "demo_approvals = \<lparr>ap_questions = [], ap_answers = [], ap_row = initial_row ''t0'', ap_asked = [], ap_brain_log = []\<rparr>"

definition demo_schema_state :: schema_state where
  "demo_schema_state = \<lparr>ss_site = \<lparr>si_endpoints = [], si_auth = [], si_oauth = [], si_secrets = [],
       si_dynamic = [(''members'', ''{}'')],
       si_db = [(''members'', \<lparr>st_columns = [\<lparr>sc_name = ''id'', sc_type = ''INTEGER'', sc_default = SNull\<rparr>,
          \<lparr>sc_name = ''nick'', sc_type = ''TEXT'', sc_default = SNull\<rparr>], st_rows = [], st_seq = 0\<rparr>)],
       si_cache = Map.empty, si_events = []\<rparr>,
     ss_defs = [(''members'', (''{}'', ''t0''))], ss_approvals = demo_approvals, ss_events = []\<rparr>"

lemma demo_visits_once: "visits_once (se_pub demo_schema_env)"
  by (simp add: visits_once_def demo_schema_env_def demo_env_def)

lemma demo_approvals_ok: "approvals_ok (ss_approvals demo_schema_state)"
  by (simp add: demo_schema_state_def demo_approvals_def approvals_ok_def)

definition demo_create :: jobj where
  "demo_create = [(''table_name'', JStr ''users''), (''columns'', JObj [(''email'', JStr ''TEXT''), (''pw'', JStr ''password'')])]"

definition demo_alter :: jobj where
  "demo_alter = [(''table_name'', JStr ''members''), (''add_columns'', JObj [(''pw'', JStr ''PASSWORD'')]),
     (''drop_columns'', JArr [JStr ''nick''])]"

definition demo_drop :: jobj where
  "demo_drop = [(''action'', JStr ''drop''), (''table_name'', JStr ''members'')]"

lemma create_registers_secure_witness:
  "map_of (load_secure_columns (snd (schema_create demo_schema_env demo_create demo_schema_state)) ''users'') ''pw'' = Some ''hash''"
proof -
  let ?r = "schema_create demo_schema_env demo_create demo_schema_state"
  have s: "case fst ?r of ToolResult r \<Rightarrow> tr_success r | _ \<Rightarrow> False" by code_simp
  then obtain r where r: "fst ?r = ToolResult r" "tr_success r" by (cases "fst ?r") auto
  have facts: "get_str demo_create ''table_name'' = ''users''"
    "get_obj_ok demo_create ''columns'' = Some [(''email'', JStr ''TEXT''), (''pw'', JStr ''password'')]"
    "\<not> reserved_column ''pw''" "map_of secure_column_kinds (declared_type (JStr ''password'')) = Some ''hash''" by code_simp+
  have "\<not> registered demo_schema_state ''users''" by code_simp
  moreover have "text_codec (se_marshal demo_schema_env)"
    using plain.text_codec_axioms by (simp add: demo_schema_env_def)
  moreover have "?r = (ToolResult r, snd ?r)" using r(1) by (metis prod.collapse)
  ultimately show ?thesis
    using create_registers_secure [of demo_schema_env demo_create _ demo_schema_state r "snd ?r" "''pw''"] facts r(2) demo_visits_once
    by simp
qed

lemma interrupted_alter_unsecured_witness:
  "load_secure_columns (snd (schema_alter demo_schema_env demo_alter demo_schema_state)) ''members'' = []
   \<and> table_columns (ss_site (snd (schema_alter demo_schema_env demo_alter demo_schema_state))) ''members'' = [''id'', ''nick'', ''pw'']"
proof -
  let ?r = "schema_alter demo_schema_env demo_alter demo_schema_state"
  define db where "db = (case plain_ddl ''ALTER TABLE members ADD COLUMN pw TEXT'' (ss_db demo_schema_state) of Inr d \<Rightarrow> d | Inl _ \<Rightarrow> [])"
  have f: "get_str demo_alter ''table_name'' = ''members''" "valid_identifier ''members''" "\<not> is_system_table ''members''"
    "get_obj_ok demo_alter ''add_columns'' = Some [(''pw'', JStr ''PASSWORD'')]" "valid_identifier ''pw''"
    "get_arr_ok demo_alter ''drop_columns'' = Some [JStr ''nick'']"
    "\<not> check_approval (ss_approvals demo_schema_state) (drop_key ''members'' [''nick''])" by code_simp+
  have d: "se_ddl demo_schema_env (''ALTER TABLE '' @ ''members'' @ '' ADD COLUMN '' @ ''pw'' @ '' TEXT'') (ss_db demo_schema_state) = Inr db"
    unfolding db_def by code_simp
  have "table_columns ((ss_site demo_schema_state)\<lparr>si_db := db\<rparr>) ''members'' = [''id'', ''nick'', ''pw'']"
    unfolding db_def by code_simp
  moreover have "load_secure_columns demo_schema_state ''members'' = []" by code_simp
  ultimately show ?thesis
    using interrupted_alter_unsecured [OF f(1-6) _ f(7) demo_visits_once d, of "fst ?r" "snd ?r"]
    by (simp add: ss_db_def table_columns_def)
qed

lemma tables_survive_unapproved_witness:
  "''members'' \<in> reg_tables (run_schema demo_schema_env [demo_drop, demo_alter] demo_schema_state)"
proof -
  have "list_all single_texts [demo_drop, demo_alter]" by code_simp
  moreover have "''members'' \<in> reg_tables demo_schema_state" "\<not> approved demo_schema_state ''members''" by code_simp+
  ultimately show ?thesis using tables_survive_unapproved [OF demo_approvals_ok] by blast
qed


text \<open>A default that ends the statement and starts another: the new column is added and the registration of a
  table the owner did not approve the removal of is gone.\<close>

definition spliced_alter :: jobj where
  "spliced_alter = [(''action'', JStr ''alter''), (''table_name'', JStr ''members''),
     (''add_columns'', JObj [(''x'', JObj [(''type'', JStr ''TEXT''), (''default'', JStr ''1; DELETE FROM ho_dynamic_tables; --'')])])]"

theorem spliced_statement_unregisters:
  "registered demo_schema_state ''members'' \<and> \<not> approved demo_schema_state ''members''
   \<and> \<not> registered (snd (schema_tool demo_schema_env spliced_alter demo_schema_state)) ''members''"
  by code_simp

end
