(* ===== verification/DataTool.thy ===== *)
theory DataTool
  imports Schema
begin

text \<open>
  The tool that reads and writes the rows of the tables of a site (\<open>DataTool\<close> of \<open>tools/tables.go\<close>):
  structured filters, reading, single and bulk insertion, update, deletion, aggregation, free queries,
  full-text search, and the exchange of rows as CSV. Statements of a fixed form have the meaning of theory
  \<open>Sql\<close>; where the program assembles a statement from parts it does not check, the statement is its text
  and what SQLite answers to it is an argument.
\<close>

section \<open>Environment\<close>

text \<open>\<open>de_query\<close> is the answer to one SELECT with its parameters, which reads: the names of the columns and the
  rows. The text of a free query and the columns of an export are not checked for a second statement, and
  the connection they run on writes: \<open>de_script\<close> is the answer to such a text and the state it leaves, whether
  it fails or not. \<open>de_exec\<close> is the number of the last row and the tables after a statement. \<open>de_float\<close> is a text scanned into
  a \<open>float64\<close>, \<open>de_base64\<close> the form of bytes in JSON, \<open>de_bytes\<close> their form under \<open>%v\<close>.\<close>

record data_env =
  de_schema :: schema_env
  de_query :: "string \<Rightarrow> sqlval list \<Rightarrow> database \<Rightarrow> sql_error + (string list \<times> sqlval list list)"
  de_script :: "string \<Rightarrow> sqlval list \<Rightarrow> schema_state \<Rightarrow> (sql_error + (string list \<times> sqlval list list)) \<times> schema_state"
  de_exec :: "string \<Rightarrow> sqlval list \<Rightarrow> database \<Rightarrow> sql_error + (int \<times> database)"
  de_float :: "string \<Rightarrow> rat option"
  de_base64 :: "string \<Rightarrow> string"
  de_bytes :: "string \<Rightarrow> string"

abbreviation de_pub :: "data_env \<Rightarrow> pub_env" where "de_pub en \<equiv> se_pub (de_schema en)"
abbreviation de_engine :: "data_env \<Rightarrow> sqlite" where "de_engine en \<equiv> pe_engine (de_pub en)"
abbreviation de_text :: "data_env \<Rightarrow> sql_error \<Rightarrow> string" where "de_text en \<equiv> pe_error_text (de_pub en)"

fun json_of :: "data_env \<Rightarrow> sqlval \<Rightarrow> json" where
  "json_of en SNull = JNull"
| "json_of en (SInt n) = JNum (of_int n)"
| "json_of en (SReal x) = JNum x"
| "json_of en (SText s) = JStr s"
| "json_of en (SBlob b) = JStr (de_base64 en b)"

section \<open>Filters\<close>

definition allowed_ops :: "string list" where
  "allowed_ops = [''='', ''!='', ''<'', ''>'', ''<='', ''>='', ''LIKE'', ''NOT LIKE'', ''IS NULL'', ''IS NOT NULL'']"

text \<open>A condition of a filter: column, operator, and the value unless the operator is a test for NULL.\<close>

type_synonym where_part = "string \<times> string \<times> json option"

definition null_op :: "string \<Rightarrow> bool" where
  "null_op opr = (opr = ''IS NULL'' \<or> opr = ''IS NOT NULL'')"

definition where_part :: "json \<Rightarrow> string + where_part" where
  "where_part f =
     (case f of
        JObj m \<Rightarrow>
          (let c = get_str m ''column''; opr = to_upper (trim_space (get_str m ''op''))
           in if \<not> valid_identifier c then Inl (''invalid column name in filter: '' @ c)
              else if opr \<notin> set allowed_ops then Inl (''unsupported operator: '' @ opr)
              else if null_op opr then Inr (c, opr, None)
              else case map_of m ''value'' of
                  None \<Rightarrow> Inl (''filter on '' @ c @ '' requires a value'')
                | Some v \<Rightarrow> Inr (c, opr, Some v))
      | _ \<Rightarrow> Inl ''each filter must be an object with column, op, and value'')"

fun where_parts :: "json list \<Rightarrow> string + where_part list" where
  "where_parts [] = Inr []"
| "where_parts (f # fs) =
     (case where_part f of Inl e \<Rightarrow> Inl e
      | Inr p \<Rightarrow> (case where_parts fs of Inl e \<Rightarrow> Inl e | Inr ps \<Rightarrow> Inr (p # ps)))"

fun part_text :: "where_part \<Rightarrow> string" where
  "part_text (c, opr, None) = c @ '' '' @ opr"
| "part_text (c, opr, Some v) = c @ '' '' @ opr @ '' ?''"

definition where_text :: "where_part list \<Rightarrow> string" where
  "where_text ps = (if ps = [] then [] else '' WHERE '' @ join '' AND '' (map part_text ps))"

definition where_values :: "where_part list \<Rightarrow> json list" where
  "where_values ps = List.map_filter (\<lambda>p. snd (snd p)) ps"

definition build_where_clause :: "json list \<Rightarrow> string + (string \<times> json list)" where
  "build_where_clause fs = map_sum id (\<lambda>ps. (where_text ps, where_values ps)) (where_parts fs)"

text \<open>The parameters as the driver binds them, and the conditions a clause means.\<close>

fun bind_list :: "json list \<Rightarrow> sqlval list option" where
  "bind_list [] = Some []"
| "bind_list (v # vs) =
     (case (bind_value (GJson v), bind_list vs) of (Some x, Some xs) \<Rightarrow> Some (x # xs) | _ \<Rightarrow> None)"

fun part_cond :: "where_part \<Rightarrow> cond option" where
  "part_cond (c, opr, None) = Some (NullTest c (opr = ''IS NOT NULL''))"
| "part_cond (c, opr, Some v) = map_option (Compare c opr) (bind_value (GJson v))"

fun part_conds :: "where_part list \<Rightarrow> cond list option" where
  "part_conds [] = Some []"
| "part_conds (p # ps) =
     (case (part_cond p, part_conds ps) of (Some c, Some cs) \<Rightarrow> Some (c # cs) | _ \<Rightarrow> None)"

definition filters_of :: "jobj \<Rightarrow> json list" where
  "filters_of args = (case get_arr_ok args ''filters'' of Some xs \<Rightarrow> xs | None \<Rightarrow> [])"

section \<open>Rows\<close>

text \<open>A whole \<open>float64\<close> becomes an integer.\<close>

fun whole_value :: "sqlval \<Rightarrow> sqlval" where
  "whole_value (SReal x) =
     (if x = of_int (rat_to_int x) \<and> - (2 ^ 63) \<le> rat_to_int x \<and> rat_to_int x < 2 ^ 63
      then SInt (rat_to_int x) else SReal x)"
| "whole_value v = v"

definition scan_map :: "sql_row \<Rightarrow> sql_row" where
  "scan_map r = fold (\<lambda>(c, v). alist_put c (whole_value v)) r []"

definition strip_hashes :: "(string, string) gomap \<Rightarrow> sql_row list \<Rightarrow> sql_row list" where
  "strip_hashes secure rows = map (filter (\<lambda>(c, _). map_of secure c \<noteq> Some ''hash'')) rows"

definition rows_json :: "data_env \<Rightarrow> sql_row list \<Rightarrow> json" where
  "rows_json en rows = JArr (map (\<lambda>r. JObj (map (\<lambda>(c, v). (c, json_of en v)) r)) rows)"

text \<open>The rows of a free query as maps.\<close>

definition answer_rows :: "string list \<times> sqlval list list \<Rightarrow> sql_row list" where
  "answer_rows a = map (\<lambda>vs. scan_map (zip (fst a) vs)) (snd a)"

section \<open>Reading\<close>

definition query_order :: "jobj \<Rightarrow> string + (string \<times> bool) option" where
  "query_order args =
     (case get_obj_ok args ''order_by'' of
        None \<Rightarrow> Inr None
      | Some m \<Rightarrow>
         (let c = get_str m ''column''
          in if c = [] then Inr None
             else if \<not> valid_identifier c then Inl (''invalid order_by column: '' @ c)
             else Inr (Some (c, to_upper (trim_space (get_str m ''direction'')) = ''DESC''))))"

definition query_limit :: "jobj \<Rightarrow> int" where
  "query_limit args = (case get_num_ok args ''limit'' of Some x \<Rightarrow> if x > 0 then rat_to_int x else 50 | None \<Rightarrow> 50)"

definition select_where ::
  "data_env \<Rightarrow> schema_state \<Rightarrow> string \<Rightarrow> where_part list \<Rightarrow> (string \<times> bool) option \<Rightarrow> (int \<times> int) option \<Rightarrow> sql_error + sql_row list" where
  "select_where en st tab ps ord lmt =
     (case part_conds ps of None \<Rightarrow> Inl UnsupportedType
      | Some cs \<Rightarrow> sql_select (de_engine en) (ss_db st) tab Star cs ord lmt)"

definition data_query :: "data_env \<Rightarrow> schema_state action_handler" where
  "data_query en args st =
     (case sanitized_table_name (get_str args ''table_name'') of Inl e \<Rightarrow> (error_result e, st)
      | Inr tab \<Rightarrow>
         (case where_parts (filters_of args) of Inl e \<Rightarrow> (error_result e, st)
          | Inr ps \<Rightarrow>
             (case query_order args of Inl e \<Rightarrow> (error_result e, st)
              | Inr ord \<Rightarrow>
                 (case select_where en st tab ps ord (Some (query_limit args, 0)) of
                    Inl e \<Rightarrow> (ToolError (''querying table: '' @ de_text en e), st)
                  | Inr rows \<Rightarrow>
                     (ok_result (rows_json en (strip_hashes (load_secure_columns st tab) (map scan_map rows))), st)))))"

definition data_count :: "data_env \<Rightarrow> schema_state action_handler" where
  "data_count en args st =
     (let name = get_str args ''table_name''
      in if name = [] then (error_result ''table_name is required'', st)
         else case sanitized_table_name name of Inl e \<Rightarrow> (error_result e, st)
      | Inr tab \<Rightarrow>
         (case where_parts (filters_of args) of Inl e \<Rightarrow> (error_result e, st)
          | Inr ps \<Rightarrow>
             (case select_where en st tab ps None None of
                Inl e \<Rightarrow> (ToolError (''counting rows: '' @ de_text en e), st)
              | Inr rows \<Rightarrow>
                 (ok_result (JObj [(''table'', JStr name), (''count'', JNum (of_nat (length rows)))]), st))))"

section \<open>Writing\<close>

text \<open>The bindings of a row with the secure columns processed; \<open>at_row\<close> names the row in messages.\<close>

fun prepare_values :: "data_env \<Rightarrow> (string, string) gomap \<Rightarrow> string \<Rightarrow> jobj \<Rightarrow> tool_return + goobj" where
  "prepare_values en secure at_row [] = Inr []"
| "prepare_values en secure at_row ((c, v) # rest) =
     (if \<not> valid_identifier c then Inl (error_result (''invalid column name'' @ at_row @ '': '' @ c))
      else case (case map_of secure c of
                   None \<Rightarrow> Inr (GJson v) | Some kind \<Rightarrow> process_secure_value (de_pub en) kind (GJson v)) of
          Inl e \<Rightarrow> Inl (ToolError (''processing secure column '' @ c @ at_row @ '': '' @ e))
        | Inr x \<Rightarrow> map_sum id ((#) (c, x)) (prepare_values en secure at_row rest))"

definition insert_values :: "data_env \<Rightarrow> database \<Rightarrow> string \<Rightarrow> goobj \<Rightarrow> sql_error + (int \<times> database)" where
  "insert_values en db tab kvs =
     (if kvs = [] then Inl (SyntaxError '')'') else exec_insert (de_pub en) db tab kvs)"

definition insert_single :: "data_env \<Rightarrow> string \<Rightarrow> jobj \<Rightarrow> schema_state \<Rightarrow> tool_return \<times> schema_state" where
  "insert_single en tab data st =
     (case prepare_values en (load_secure_columns st tab) [] (ordered_members (de_schema en) data) of
        Inl r \<Rightarrow> (r, st)
      | Inr kvs \<Rightarrow>
         (case insert_values en (ss_db st) tab kvs of
            Inl e \<Rightarrow> (ToolError (''inserting row: '' @ de_text en e), st)
          | Inr (key, db) \<Rightarrow>
             (ok_result (JObj [(''id'', JNum (of_int key)), (''table'', JStr tab)]), with_db db st)))"

text \<open>The rows of a bulk insertion in one transaction.\<close>

fun insert_rows ::
  "data_env \<Rightarrow> (string, string) gomap \<Rightarrow> string \<Rightarrow> nat \<Rightarrow> json list \<Rightarrow> database \<Rightarrow> tool_return + (int list \<times> database)" where
  "insert_rows en secure tab i [] db = Inr ([], db)"
| "insert_rows en secure tab i (JObj row # rows) db =
     (case prepare_values en secure ('' in row '' @ itoa (int i)) (ordered_members (de_schema en) row) of
        Inl r \<Rightarrow> Inl r
      | Inr kvs \<Rightarrow>
         (case insert_values en db tab kvs of
            Inl e \<Rightarrow> Inl (ToolError (''inserting row '' @ itoa (int i) @ '': '' @ de_text en e))
          | Inr (key, db) \<Rightarrow> map_sum id (\<lambda>(ks, db). (key # ks, db)) (insert_rows en secure tab (Suc i) rows db)))"
| "insert_rows en secure tab i (_ # rows) db =
     Inl (error_result (''row '' @ itoa (int i) @ '' is not a valid object''))"

definition insert_bulk :: "data_env \<Rightarrow> string \<Rightarrow> json list \<Rightarrow> schema_state \<Rightarrow> tool_return \<times> schema_state" where
  "insert_bulk en tab rows st =
     (if length rows > 100 then (error_result ''maximum 100 rows per bulk insert'', st)
      else case insert_rows en (load_secure_columns st tab) tab 0 rows (ss_db st) of
          Inl r \<Rightarrow> (r, st)
        | Inr (keys, db) \<Rightarrow>
           (ok_result (JObj [(''table'', JStr tab), (''inserted'', JNum (of_nat (length keys))),
              (''first_id'', JNum (of_int (hd keys))), (''last_id'', JNum (of_int (last keys)))]), with_db db st))"

definition data_insert :: "data_env \<Rightarrow> schema_state action_handler" where
  "data_insert en args st =
     (let name = get_str args ''table_name''; data = (case get_obj_ok args ''data'' of Some m \<Rightarrow> m | None \<Rightarrow> [])
      in if name = [] then (error_result ''table_name is required'', st)
         else case sanitized_table_name name of Inl e \<Rightarrow> (error_result e, st)
           | Inr tab \<Rightarrow>
              (case get_arr_ok args ''rows'' of
                 Some (r # rs) \<Rightarrow> insert_bulk en tab (r # rs) st
               | _ \<Rightarrow> if data = [] then (error_result ''data or rows parameter is required for insert'', st)
                      else insert_single en tab data st))"

definition row_id :: "jobj \<Rightarrow> int" where
  "row_id args = (case get_num_ok args ''id'' of Some x \<Rightarrow> rat_to_int x | None \<Rightarrow> 0)"

definition data_update :: "data_env \<Rightarrow> schema_state action_handler" where
  "data_update en args st =
     (let name = get_str args ''table_name''; data = (case get_obj_ok args ''data'' of Some m \<Rightarrow> m | None \<Rightarrow> [])
      in if name = [] \<or> data = [] then (error_result ''table_name, id, and data are required'', st)
         else case sanitized_table_name name of Inl e \<Rightarrow> (error_result e, st)
           | Inr tab \<Rightarrow>
              (case prepare_values en (load_secure_columns st tab) [] (ordered_members (de_schema en) data) of
                 Inl r \<Rightarrow> (r, st)
               | Inr kvs \<Rightarrow>
                  (case (case bind_all kvs of None \<Rightarrow> Inl UnsupportedType
                         | Some sets \<Rightarrow> sql_update (de_engine en) (ss_db st) tab sets [Compare ''id'' ''='' (SInt (row_id args))]) of
                     Inl e \<Rightarrow> (ToolError (''updating row: '' @ de_text en e), st)
                   | Inr (n, db) \<Rightarrow> (ok_result (JObj [(''rows_affected'', JNum (of_nat n))]), with_db db st))))"

definition data_delete :: "data_env \<Rightarrow> schema_state action_handler" where
  "data_delete en args st =
     (let name = get_str args ''table_name'' in
      if name = [] then (error_result ''table_name and id are required'', st)
      else case sanitized_table_name name of Inl e \<Rightarrow> (error_result e, st)
        | Inr tab \<Rightarrow>
           (case sql_delete (de_engine en) (ss_db st) tab [Compare ''id'' ''='' (SInt (row_id args))] of
              Inl e \<Rightarrow> (ToolError (''deleting row: '' @ de_text en e), st)
            | Inr (n, db) \<Rightarrow>
               if n = 0 then (error_result ''row not found'', with_db db st)
               else (ok_result (JObj [(''deleted_id'', JNum (of_int (row_id args)))]),
                     log_action ''manage_data'' ''delete'' (tab @ '' id='' @ itoa (row_id args)) (with_db db st))))"

text \<open>A filter that is not valid is left out.\<close>

definition batch_part :: "json \<Rightarrow> where_part option" where
  "batch_part f =
     (case f of
        JObj m \<Rightarrow>
          (let c = get_str m ''column''; opr = to_upper (get_str m ''op'')
           in if \<not> valid_identifier c \<or> opr \<notin> set allowed_ops then None
              else if null_op opr then Some (c, opr, None)
              else Some (c, opr, Some (case map_of m ''value'' of Some v \<Rightarrow> v | None \<Rightarrow> JNull)))
      | _ \<Rightarrow> None)"

definition data_batch_delete :: "data_env \<Rightarrow> schema_state action_handler" where
  "data_batch_delete en args st =
     (case sanitized_table_name (get_str args ''table_name'') of Inl e \<Rightarrow> (error_result e, st)
      | Inr tab \<Rightarrow>
         (let ps = List.map_filter batch_part (filters_of args)
          in if filters_of args = [] then
               (error_result ''filters required for batch_delete (safety: cannot delete all rows without filters)'', st)
             else if ps = [] then (error_result ''no valid filters provided'', st)
             else case (case part_conds ps of None \<Rightarrow> Inl UnsupportedType
                        | Some cs \<Rightarrow> sql_delete (de_engine en) (ss_db st) tab cs) of
                 Inl e \<Rightarrow> (error_result (''batch delete error: '' @ de_text en e), st)
               | Inr (n, db) \<Rightarrow>
                  (ok_result (JObj [(''table'', JStr tab), (''deleted'', JNum (of_nat n))]),
                   log_action ''manage_data'' ''batch_delete'' (tab @ '': '' @ itoa (int n) @ '' rows'') (with_db db st))))"

section \<open>Aggregation\<close>

definition aggregate_functions :: "string list" where
  "aggregate_functions = [''count'', ''sum'', ''avg'', ''min'', ''max'']"

fun group_columns :: "data_env \<Rightarrow> json list \<Rightarrow> string + string list" where
  "group_columns en [] = Inr []"
| "group_columns en (g # gs) =
     (let c = json_text g
      in if c = [] \<or> \<not> valid_identifier c
         then Inl (''invalid group_by column: '' @ pe_sprint (de_pub en) (GJson g))
         else map_sum id ((#) c) (group_columns en gs))"

definition aggregate_expr :: "string \<Rightarrow> string \<Rightarrow> string" where
  "aggregate_expr fn c =
     (if fn \<noteq> ''count'' then to_upper fn @ ''('' @ c @ '')''
      else if c \<noteq> [] then ''COUNT('' @ c @ '')'' else ''COUNT(*)'')"

definition aggregate_sql :: "string \<Rightarrow> string \<Rightarrow> string list \<Rightarrow> where_part list \<Rightarrow> string" where
  "aggregate_sql tab expr groups ps =
     ''SELECT '' @ join '', '' (groups @ [expr @ '' AS result'']) @ '' FROM '' @ tab @ where_text ps
     @ (if groups = [] then [] else '' GROUP BY '' @ join '', '' groups @ '' ORDER BY '' @ join '', '' groups)"

fun scan_float :: "data_env \<Rightarrow> sqlval \<Rightarrow> rat option" where
  "scan_float en SNull = None"
| "scan_float en (SInt n) = Some (of_int n)"
| "scan_float en (SReal x) = Some x"
| "scan_float en (SText s) = de_float en s"
| "scan_float en (SBlob s) = de_float en s"

definition run_query :: "data_env \<Rightarrow> schema_state \<Rightarrow> string \<Rightarrow> json list \<Rightarrow> sql_error + (string list \<times> sqlval list list)" where
  "run_query en st q vs =
     (case bind_list vs of None \<Rightarrow> Inl UnsupportedType | Some xs \<Rightarrow> de_query en q xs (ss_db st))"

text \<open>A text with unchecked parts.\<close>

definition query_text ::
  "data_env \<Rightarrow> string \<Rightarrow> json list \<Rightarrow> schema_state \<Rightarrow> (sql_error + (string list \<times> sqlval list list)) \<times> schema_state" where
  "query_text en q vs st =
     (case bind_list vs of None \<Rightarrow> (Inl UnsupportedType, st)
      | Some xs \<Rightarrow> if single_statement q then (de_query en q xs (ss_db st), st) else de_script en q xs st)"

definition group_row :: "data_env \<Rightarrow> string list \<Rightarrow> sqlval list \<Rightarrow> json" where
  "group_row en groups vs =
     JObj (alist_put ''result'' (json_of en (last vs)) (fold (\<lambda>(c, v). alist_put c (json_of en v)) (zip groups vs) []))"

definition aggregate_result :: "data_env \<Rightarrow> string \<Rightarrow> string \<Rightarrow> string list \<Rightarrow> sqlval list list \<Rightarrow> tool_return" where
  "aggregate_result en name fn groups rows =
     (if groups \<noteq> [] then ok_result (JObj [(''table'', JStr name), (''function'', JStr fn),
          (''data'', JArr (map (group_row en groups) rows))])
      else case rows of
          (v # _) # _ \<Rightarrow>
            (case scan_float en v of
               Some x \<Rightarrow> ok_result (JObj [(''table'', JStr name), (''function'', JStr fn), (''result'', JNum x)])
             | None \<Rightarrow> ToolError ''aggregate query: converting the result'')
        | _ \<Rightarrow> ToolError ''aggregate query: sql: no rows in result set'')"

definition data_aggregate :: "data_env \<Rightarrow> schema_state action_handler" where
  "data_aggregate en args st =
     (let name = get_str args ''table_name''; fn = to_lower (trim_space (get_str args ''function''));
          c = get_str args ''column'';
          gs = (case get_arr_ok args ''group_by'' of Some xs \<Rightarrow> xs | None \<Rightarrow> [])
      in if name = [] then (error_result ''table_name is required'', st)
         else case sanitized_table_name name of Inl e \<Rightarrow> (error_result e, st)
      | Inr tab \<Rightarrow>
         if fn \<notin> set aggregate_functions then (error_result ''function is required: count, sum, avg, min, or max'', st)
         else if fn \<noteq> ''count'' \<and> c = [] then (error_result (fn @ '' requires a column parameter''), st)
         else if c \<noteq> [] \<and> \<not> valid_identifier c then (error_result (''invalid column name: '' @ c), st)
         else case group_columns en gs of Inl e \<Rightarrow> (error_result e, st)
      | Inr groups \<Rightarrow>
         (case where_parts (filters_of args) of Inl e \<Rightarrow> (error_result e, st)
          | Inr ps \<Rightarrow>
             (case run_query en st (aggregate_sql tab (aggregate_expr fn c) groups ps) (where_values ps) of
                Inl e \<Rightarrow> (ToolError (''aggregate query: '' @ de_text en e), st)
              | Inr (cols, rows) \<Rightarrow> (aggregate_result en name fn groups rows, st))))"

section \<open>Insertion or update\<close>

definition conflict_names :: "json list \<Rightarrow> string list" where
  "conflict_names xs =
     List.map_filter (\<lambda>x. case x of JStr c \<Rightarrow> if valid_identifier c then Some c else None | _ \<Rightarrow> None) xs"

text \<open>The values of the secure columns that are given under exactly their name.\<close>

fun secure_data :: "data_env \<Rightarrow> (string \<times> string) list \<Rightarrow> goobj \<Rightarrow> string + goobj" where
  "secure_data en [] m = Inr m"
| "secure_data en ((c, kind) # cs) m =
     (case map_of m c of None \<Rightarrow> secure_data en cs m
      | Some v \<Rightarrow>
         (case process_secure_value (de_pub en) kind v of
            Inl e \<Rightarrow> Inl (''processing '' @ c @ '': '' @ e) | Inr x \<Rightarrow> secure_data en cs (alist_put c x m)))"

definition ordered_secure :: "data_env \<Rightarrow> (string, string) gomap \<Rightarrow> (string \<times> string) list" where
  "ordered_secure en m = List.map_filter (\<lambda>k. map_option (Pair k) (map_of m k)) (pe_order (de_pub en) (map fst m))"

definition upsert_sql :: "string \<Rightarrow> string list \<Rightarrow> string list \<Rightarrow> string" where
  "upsert_sql tab cols conflict =
     (let sets = map (\<lambda>c. c @ '' = excluded.'' @ c) (filter (\<lambda>c. c \<notin> set conflict) cols);
          body = tab @ '' ('' @ join '','' cols @ '') VALUES ('' @ join '','' (map (\<lambda>_. ''?'') cols) @ '')''
      in if sets = [] then ''INSERT OR IGNORE INTO '' @ body
         else ''INSERT INTO '' @ body @ '' ON CONFLICT('' @ join '','' conflict @ '') DO UPDATE SET '' @ join '','' sets)"

definition data_upsert :: "data_env \<Rightarrow> schema_state action_handler" where
  "data_upsert en args st =
     (case sanitized_table_name (get_str args ''table_name'') of Inl e \<Rightarrow> (error_result e, st)
      | Inr tab \<Rightarrow>
         (let data = (case get_obj_ok args ''data'' of Some m \<Rightarrow> m | None \<Rightarrow> []);
              conflict = (case get_arr_ok args ''conflict_columns'' of Some xs \<Rightarrow> xs | None \<Rightarrow> []);
              names = conflict_names conflict
          in if data = [] then (error_result ''data is required for upsert'', st)
             else if conflict = [] then (error_result ''conflict_columns is required for upsert'', st)
             else if names = [] then (error_result ''invalid conflict_columns'', st)
             else case secure_data en (ordered_secure en (load_secure_columns st tab)) (goobj_of data) of
                 Inl e \<Rightarrow> (error_result e, st)
               | Inr m \<Rightarrow>
                  (let kvs = filter (\<lambda>(c, _). valid_identifier c \<and> c \<noteq> ''id'') (ranged (de_pub en) m); cols = map fst kvs
                   in case (case bind_all kvs of None \<Rightarrow> Inl UnsupportedType
                            | Some sets \<Rightarrow> de_exec en (upsert_sql tab cols names) (map snd sets) (ss_db st)) of
                        Inl e \<Rightarrow> (error_result (''upsert error: '' @ de_text en e), st)
                      | Inr (key, db) \<Rightarrow>
                         (ok_result (if set cols \<subseteq> set names then JStr ''upserted (insert or ignore)''
                                     else JObj [(''id'', JNum (of_int key))]), with_db db st))))"

section \<open>Free queries and search\<close>

definition names_system_table :: "string \<Rightarrow> bool" where
  "names_system_table q = list_ex (contains (to_lower q)) system_tables"

definition sql_limit :: "jobj \<Rightarrow> int \<Rightarrow> int \<Rightarrow> int" where
  "sql_limit args dflt most =
     (case get_num_ok args ''limit'' of Some x \<Rightarrow> if x > 0 \<and> x \<le> of_int most then rat_to_int x else dflt | None \<Rightarrow> dflt)"

definition limited_sql :: "jobj \<Rightarrow> string" where
  "limited_sql args =
     (let q = get_str args ''sql''; t = trim_space q
      in if contains (to_upper t) ''LIMIT'' then q else t @ '' LIMIT '' @ itoa (sql_limit args 100 500))"

definition results_json :: "data_env \<Rightarrow> sql_row list \<Rightarrow> (string \<times> json) list" where
  "results_json en rows = [(''count'', JNum (of_nat (length rows))), (''results'', rows_json en rows)]"

definition data_execute_sql :: "data_env \<Rightarrow> schema_state action_handler" where
  "data_execute_sql en args st =
     (let q = get_str args ''sql''; t = trim_space q
      in if q = [] then (error_result ''sql is required'', st)
         else if \<not> has_prefix (to_upper t) ''SELECT'' then (error_result ''execute_sql only supports SELECT queries'', st)
         else if names_system_table t then
           (error_result (''cannot query system table: '' @
              hd (filter (contains (to_lower t)) (pe_order (de_pub en) system_tables))), st)
         else case query_text en (limited_sql args) [] st of
             (Inl e, st) \<Rightarrow> (error_result (''SQL error: '' @ de_text en e), st)
           | (Inr a, st) \<Rightarrow> (ok_result (JObj (results_json en (answer_rows a))), st))"

definition search_sql :: "string \<Rightarrow> string" where
  "search_sql tab =
     (let fts = tab @ ''_fts''
      in ''SELECT t.* FROM '' @ tab @ '' t JOIN '' @ fts @ '' f ON t.id = f.rowid WHERE '' @ fts @ '' MATCH ? ORDER BY f.rank LIMIT ?'')"

definition data_search :: "data_env \<Rightarrow> schema_state action_handler" where
  "data_search en args st =
     (let name = get_str args ''table_name''; q = get_str args ''query_text''
      in if name = [] \<or> q = [] then (error_result ''table_name and query_text are required'', st)
         else case sanitized_table_name name of Inl e \<Rightarrow> (error_result e, st)
           | Inr tab \<Rightarrow>
              if tab @ ''_fts'' \<notin> fst ` set (ss_db st) then
                (error_result (''no full-text search index for table '' @ name @ '' '' @ em_dash
                   @ '' create with searchable_columns in manage_schema''), st)
              else (case de_query en (search_sql tab) [SText q, SInt (sql_limit args 50 200)] (ss_db st) of
                      Inl e \<Rightarrow> (error_result (''search error: '' @ de_text en e), st)
                    | Inr a \<Rightarrow>
                       (ok_result (JObj ((''query'', JStr q)
                          # results_json en (strip_hashes (load_secure_columns st tab) (answer_rows a)))), st)))"

section \<open>CSV\<close>

text \<open>The writer of \<open>encoding/csv\<close>.\<close>

definition needs_quotes :: "string \<Rightarrow> bool" where
  "needs_quotes f =
     (f \<noteq> [] \<and> (f = [CHR 0x5C, CHR ''.''] \<or> (\<exists>c \<in> set f. c \<in> {CHR 0x0A, CHR 0x0D, CHR 0x22, CHR '',''}) \<or> trim_left f \<noteq> f))"

definition quote_field :: "string \<Rightarrow> string" where
  "quote_field f = concat (map (\<lambda>c. if c = CHR 0x22 then [CHR 0x22, CHR 0x22] else [c]) f)"

definition csv_field :: "string \<Rightarrow> string" where
  "csv_field f = (if needs_quotes f then CHR 0x22 # quote_field f @ [CHR 0x22] else f)"

definition csv_line :: "string list \<Rightarrow> string" where
  "csv_line fs = join '','' (map csv_field fs) @ [CHR 0x0A]"

definition csv_write :: "string list list \<Rightarrow> string" where
  "csv_write rows = concat (map csv_line rows)"

text \<open>The reader: line ends, then fields, then records of one length. Blank lines are skipped.\<close>

fun norm_newlines :: "string \<Rightarrow> string" where
  "norm_newlines [] = []"
| "norm_newlines [c] = (if c = CHR 0x0D then [] else [c])"
| "norm_newlines (c # d # s) =
     (if c = CHR 0x0D \<and> d = CHR 0x0A then norm_newlines (d # s) else c # norm_newlines (d # s))"

fun csv_quoted :: "string \<Rightarrow> (string \<times> string) option" where
  "csv_quoted [] = None"
| "csv_quoted [c] = (if c = CHR 0x22 then Some ([], []) else None)"
| "csv_quoted (c # d # s) =
     (if c \<noteq> CHR 0x22 then map_option (\<lambda>(f, r). (c # f, r)) (csv_quoted (d # s))
      else if d = CHR 0x22 then map_option (\<lambda>(f, r). (c # f, r)) (csv_quoted s)
      else if d = CHR '','' \<or> d = CHR 0x0A then Some ([], d # s) else None)"

definition csv_bare :: "string \<Rightarrow> (string \<times> string) option" where
  "csv_bare s =
     (let f = takeWhile (\<lambda>c. c \<noteq> CHR '','' \<and> c \<noteq> CHR 0x0A) s
      in if CHR 0x22 \<in> set f then None else Some (f, drop (length f) s))"

definition csv_next :: "string \<Rightarrow> (string \<times> string) option" where
  "csv_next s = (if s \<noteq> [] \<and> hd s = CHR 0x22 then csv_quoted (tl s) else csv_bare s)"

lemma csv_quoted_length: "csv_quoted s = Some (f, r) \<Longrightarrow> length r < length s"
proof (induction s arbitrary: f r rule: csv_quoted.induct)
  case (3 c d s)
  consider (other) "c \<noteq> CHR 0x22" | (double) "c = CHR 0x22" "d = CHR 0x22" | (stop) "c = CHR 0x22" "d \<noteq> CHR 0x22" by blast
  then show ?case
  proof cases
    case other
    with 3(3) obtain f' where "csv_quoted (d # s) = Some (f', r)" by auto
    from 3(1) [OF other this] show ?thesis by simp
  next
    case double
    with 3(3) obtain f' where "csv_quoted s = Some (f', r)" by auto
    with 3(2) double have "length r < length s" by simp
    then show ?thesis by simp
  next
    case stop
    with 3(3) show ?thesis by (auto split: if_splits)
  qed
qed (auto split: if_splits)

lemma csv_next_length: "csv_next s = Some (f, r) \<Longrightarrow> length r \<le> length s"
  using csv_quoted_length [of "tl s" f r]
  by (auto simp: csv_next_def csv_bare_def Let_def split: if_splits)

function csv_fields :: "string \<Rightarrow> (string list \<times> string) option" where
  "csv_fields s =
     (case csv_next s of
        None \<Rightarrow> None
      | Some (f, r) \<Rightarrow>
         (case r of [] \<Rightarrow> Some ([f], [])
          | c # r' \<Rightarrow> if c = CHR '','' then map_option (\<lambda>(fs, t). (f # fs, t)) (csv_fields r') else Some ([f], r')))"
  by pat_completeness auto
termination by (relation "measure length") (auto dest!: csv_next_length)

declare csv_fields.simps [simp del]

lemma csv_fields_length: "csv_fields s = Some (fs, r) \<Longrightarrow> s \<noteq> [] \<Longrightarrow> length r < length s"
proof (induction s arbitrary: fs r rule: csv_fields.induct)
  case (1 s)
  obtain f t where n: "csv_next s = Some (f, t)" using "1.prems"(1) by (auto simp: csv_fields.simps [of s] split: option.splits)
  note l = csv_next_length [OF n]
  show ?case
  proof (cases t)
    case Nil
    with "1.prems" n show ?thesis by (simp add: csv_fields.simps [of s])
  next
    case (Cons c t')
    show ?thesis
    proof (cases "c = CHR '',''")
      case True
      with "1.prems" n Cons obtain gs where g: "csv_fields t' = Some (gs, r)"
        by (auto simp: csv_fields.simps [of s])
      have "length r \<le> length t'"
      proof (cases "t' = []")
        case True
        with g show ?thesis by (simp add: csv_fields.simps [of "[]"] csv_next_def csv_bare_def)
      next
        case False
        from "1.IH" [OF n _ Cons True g False] show ?thesis by simp
      qed
      with l Cons show ?thesis by simp
    next
      case False
      with "1.prems" n Cons l show ?thesis by (simp add: csv_fields.simps [of s])
    qed
  qed
qed

function csv_records :: "string \<Rightarrow> string list list option" where
  "csv_records s =
     (case s of
        [] \<Rightarrow> Some []
      | c # s' \<Rightarrow>
          if c = CHR 0x0A then csv_records s'
          else (case csv_fields s of None \<Rightarrow> None
                | Some (fs, r) \<Rightarrow> map_option ((#) fs) (csv_records r)))"
  by pat_completeness auto
termination by (relation "measure length") (auto dest: csv_fields_length)

declare csv_records.simps [simp del]

definition csv_read :: "string \<Rightarrow> string list list option" where
  "csv_read s =
     (case csv_records (norm_newlines s) of
        None \<Rightarrow> None
      | Some rows \<Rightarrow> if list_all (\<lambda>r. length r = length (hd rows)) rows then Some rows else None)"

section \<open>Export and import\<close>

fun sprint_sql :: "data_env \<Rightarrow> sqlval \<Rightarrow> string" where
  "sprint_sql en SNull = ''<nil>''"
| "sprint_sql en (SInt n) = itoa n"
| "sprint_sql en (SReal x) = pe_float_text (de_pub en) x"
| "sprint_sql en (SText s) = s"
| "sprint_sql en (SBlob b) = de_bytes en b"

definition export_limit :: "jobj \<Rightarrow> int" where
  "export_limit args = min 5000 (optional_int args ''limit'' 500)"

definition export_columns :: "jobj \<Rightarrow> string" where
  "export_columns args =
     (let cs = (case get_arr_ok args ''columns'' of Some xs \<Rightarrow> filter (\<lambda>c. c \<noteq> []) (map json_text xs) | None \<Rightarrow> [])
      in if cs = [] then ''*'' else join '', '' cs)"

text \<open>The clause already begins with its keyword.\<close>

definition export_sql :: "jobj \<Rightarrow> string \<Rightarrow> where_part list \<Rightarrow> string" where
  "export_sql args tab ps =
     ''SELECT '' @ export_columns args @ '' FROM '' @ tab
     @ (if ps = [] then [] else '' WHERE '' @ where_text ps) @ '' LIMIT '' @ itoa (export_limit args)"

definition kept_cells :: "(string, string) gomap \<Rightarrow> string list \<Rightarrow> 'a list \<Rightarrow> 'a list" where
  "kept_cells secure cols vs = map snd (filter (\<lambda>(c, _). map_of secure c \<noteq> Some ''hash'') (zip cols vs))"

definition data_export_csv :: "data_env \<Rightarrow> schema_state action_handler" where
  "data_export_csv en args st =
     (case require_string args ''table_name'' of Inl r \<Rightarrow> (r, st)
      | Inr name \<Rightarrow>
     (case sanitized_table_name name of Inl e \<Rightarrow> (error_result e, st)
      | Inr tab \<Rightarrow>
         (case where_parts (filters_of args) of Inl e \<Rightarrow> (error_result e, st)
          | Inr ps \<Rightarrow>
             (case query_text en (export_sql args tab ps) (where_values ps) st of
                (Inl e, st) \<Rightarrow> (error_result (''query failed: '' @ de_text en e), st)
              | (Inr (cols, rows), st) \<Rightarrow>
                 if cols = [] then (error_result ''no columns in result'', st)
                 else (let secure = load_secure_columns st tab;
                           lines = kept_cells secure cols cols # map (\<lambda>vs. map (sprint_sql en) (kept_cells secure cols vs)) rows
                       in (ok_result (JObj [(''table'', JStr tab), (''rows'', JNum (of_nat (length rows))),
                             (''csv'', JStr (csv_write lines))]), st))))))"

text \<open>A value whose encryption fails is stored as it came.\<close>

definition import_value :: "data_env \<Rightarrow> (string, string) gomap \<Rightarrow> string \<Rightarrow> string \<Rightarrow> goval" where
  "import_value en secure c v =
     (case map_of secure c of
        None \<Rightarrow> GText v
      | Some kind \<Rightarrow> (case process_secure_value (de_pub en) kind (GText v) of Inr x \<Rightarrow> x | Inl _ \<Rightarrow> GText v))"

definition import_row :: "data_env \<Rightarrow> (string, string) gomap \<Rightarrow> string list \<Rightarrow> string list \<Rightarrow> goobj" where
  "import_row en secure headers row =
     map (\<lambda>(c, v). (c, import_value en secure c v)) (filter (\<lambda>(c, _). to_lower c \<noteq> ''id'') (zip headers row))"

fun import_rows :: "data_env \<Rightarrow> string \<Rightarrow> goobj list \<Rightarrow> nat \<Rightarrow> database \<Rightarrow> string + (nat \<times> database)" where
  "import_rows en tab [] n db = Inr (n, db)"
| "import_rows en tab (r # rs) n db =
     (case exec_insert (de_pub en) db tab r of
        Inl e \<Rightarrow> Inl (''row '' @ itoa (int n + 1) @ '': '' @ de_text en e)
      | Inr (_, db) \<Rightarrow> import_rows en tab rs (Suc n) db)"

definition data_import_csv :: "data_env \<Rightarrow> schema_state action_handler" where
  "data_import_csv en args st =
     (case require_string args ''table_name'' of Inl r \<Rightarrow> (r, st)
      | Inr name \<Rightarrow>
     (case sanitized_table_name name of Inl e \<Rightarrow> (error_result e, st)
      | Inr tab \<Rightarrow>
     (case require_string args ''csv_data'' of Inl r \<Rightarrow> (r, st)
      | Inr text \<Rightarrow>
     (case csv_read text of
        None \<Rightarrow> (error_result ''invalid CSV'', st)
      | Some (headers # rows) \<Rightarrow>
          if rows = [] then (error_result ''CSV must have at least a header row and one data row'', st)
          else if length rows > 500 then (error_result (''too many rows: '' @ itoa (int (length rows)) @ '' (max 500)''), st)
          else (case find (\<lambda>c. validate_column_name c \<noteq> None) headers of
                  Some c \<Rightarrow> (error_result (''invalid column name: '' @ c), st)
                | None \<Rightarrow>
                   if filter (\<lambda>c. to_lower c \<noteq> ''id'') headers = [] then (error_result ''no valid columns found in CSV header'', st)
                   else (case import_rows en tab (map (import_row en (load_secure_columns st tab) headers) rows) 0 (ss_db st) of
                           Inl e \<Rightarrow> (error_result e, st)
                         | Inr (n, db) \<Rightarrow>
                            (ok_result (JObj [(''table'', JStr tab), (''inserted'', JNum (of_nat n))]), with_db db st)))
      | Some [] \<Rightarrow> (error_result ''CSV must have at least a header row and one data row'', st)))))"

section \<open>Dispatch\<close>

definition infer_data_action :: "jobj \<Rightarrow> string" where
  "infer_data_action args =
     (let has = (\<lambda>k. map_of args k \<noteq> None)
      in if has ''sql'' then ''execute_sql'' else if has ''query_text'' then ''search''
         else if has ''rows'' then ''insert''
         else if has ''id'' then (if has ''data'' then ''update'' else ''delete'')
         else if has ''data'' then ''insert'' else if has ''function'' then ''aggregate'' else ''query'')"

definition data_routes :: "data_env \<Rightarrow> (string \<times> schema_state action_handler) list" where
  "data_routes en =
     [(''query'', data_query en), (''insert'', data_insert en), (''upsert'', data_upsert en),
      (''update'', data_update en), (''delete'', data_delete en), (''batch_delete'', data_batch_delete en),
      (''count'', data_count en), (''aggregate'', data_aggregate en), (''search'', data_search en),
      (''execute_sql'', data_execute_sql en), (''export_csv'', data_export_csv en), (''import_csv'', data_import_csv en)]"

definition data_tool :: "data_env \<Rightarrow> schema_state action_handler" where
  "data_tool en = dispatch_action (data_routes en) (Some infer_data_action)"

section \<open>Filters and their parameters\<close>

lemma identifier_no_mark: "valid_identifier c \<Longrightarrow> CHR ''?'' \<notin> set c"
proof -
  have "\<not> ident_char CHR ''?''" "\<not> ascii_letter CHR ''?''" by code_simp+
  then show "valid_identifier c \<Longrightarrow> CHR ''?'' \<notin> set c"
    by (cases c) (auto simp: valid_identifier_def list_all_iff)
qed

lemma op_no_mark: "opr \<in> set allowed_ops \<Longrightarrow> CHR ''?'' \<notin> set opr"
  by (auto simp: allowed_ops_def)

lemma where_part_mark:
  assumes "where_part f = Inr p"
  shows "count_list (part_text p) CHR ''?'' = (case snd (snd p) of None \<Rightarrow> 0 | Some _ \<Rightarrow> 1)"
proof -
  obtain c opr v where p: "p = (c, opr, v)" by (cases p)
  with assms have "valid_identifier c" "opr \<in> set allowed_ops"
    by (auto simp: where_part_def Let_def split: json.splits if_splits option.splits)
  then have "count_list c CHR ''?'' = 0" "count_list opr CHR ''?'' = 0"
    using identifier_no_mark op_no_mark by (auto intro: count_notin)
  with p show ?thesis by (cases v) simp_all
qed

lemma join_and_mark:
  "count_list (join '' AND '' xs) CHR ''?'' = sum_list (map (\<lambda>x. count_list x CHR ''?'') xs)"
proof (induction xs)
  case (Cons x xs)
  then show ?case by (cases xs) simp_all
qed simp

lemma where_parts_each: "where_parts fs = Inr ps \<Longrightarrow> p \<in> set ps \<Longrightarrow> \<exists>f. where_part f = Inr p"
  by (induction fs arbitrary: ps) (auto split: sum.splits)

text \<open>C0. The clause built from filters has exactly one placeholder for each of its parameters.\<close>

theorem where_clause_parameters:
  assumes "build_where_clause fs = Inr (w, vs)"
  shows "count_list w CHR ''?'' = length vs"
proof -
  obtain ps where ps: "where_parts fs = Inr ps" "w = where_text ps" "vs = where_values ps"
    using assms by (cases "where_parts fs") (auto simp: build_where_clause_def)
  have "sum_list (map (\<lambda>p. count_list (part_text p) CHR ''?'') ps') = length (where_values ps')"
    if "set ps' \<subseteq> set ps" for ps'
    using that
  proof (induction ps')
    case (Cons p ps')
    with where_parts_each [OF ps(1), of p] where_part_mark [of _ p] show ?case
      by (auto simp: where_values_def List.map_filter_simps split: option.splits)
  qed (simp add: where_values_def List.map_filter_simps)
  from this [of ps] show ?thesis
    by (simp add: ps where_text_def join_and_mark comp_def where_values_def List.map_filter_simps)
qed

section \<open>Deletion by filters\<close>

text \<open>A filter that counting refuses is silently left out of a bulk deletion, which then removes every row
  that meets the remaining filters.\<close>

theorem batch_delete_widens:
  assumes "get_str args ''table_name'' = tab" "sanitized_table_name tab = Inr tab"
    and "get_arr_ok args ''filters'' = Some [f, g]" "batch_part f = Some p" "batch_part g = None" "where_part g = Inl e"
    and "part_conds [p] = Some cs" "sql_delete (de_engine en) (ss_db st) tab cs = Inr (n, db)"
  shows "(\<exists>e. data_count en args st = (error_result e, st)) \<and>
    data_batch_delete en args st = (ok_result (JObj [(''table'', JStr tab), (''deleted'', JNum (of_nat n))]),
      log_action ''manage_data'' ''batch_delete'' (tab @ '': '' @ itoa (int n) @ '' rows'') (with_db db st))"
proof -
  have t: "tab \<noteq> []" using assms(2) by (auto simp: sanitized_table_name_def valid_identifier_def split: if_splits)
  have "\<exists>e. where_parts [f, g] = Inl e" using assms(6) by (cases "where_part f") auto
  then have "\<exists>e. data_count en args st = (error_result e, st)"
    using assms(1-3) t by (auto simp: data_count_def filters_of_def)
  moreover have "List.map_filter batch_part [f, g] = [p]"
    using assms(4,5) by (simp add: List.map_filter_simps)
  ultimately show ?thesis
    using assms(1-3,7,8) by (simp add: data_batch_delete_def filters_of_def)
qed

section \<open>Export\<close>

text \<open>An export with filters always fails: the statement says WHERE twice, which no SQL grammar accepts.\<close>

theorem export_with_filters_fails:
  assumes "\<And>q vs d. contains q '' WHERE  WHERE '' \<Longrightarrow> \<exists>e. de_query en q vs d = Inl e"
    and "\<And>q vs s. contains q '' WHERE  WHERE '' \<Longrightarrow> \<exists>e. fst (de_script en q vs s) = Inl e"
    and "get_str args ''table_name'' = tab" "sanitized_table_name tab = Inr tab"
    and "filters_of args \<noteq> []" "where_parts (filters_of args) = Inr ps"
  shows "\<exists>e. fst (data_export_csv en args st) = error_result (''query failed: '' @ e)"
proof -
  have t: "tab \<noteq> []" using assms(4) by (auto simp: sanitized_table_name_def valid_identifier_def split: if_splits)
  have ps: "ps \<noteq> []" using assms(5,6) by (cases "filters_of args") (auto split: sum.splits)
  have "export_sql args tab ps = (''SELECT '' @ export_columns args @ '' FROM '' @ tab) @ '' WHERE  WHERE ''
      @ join '' AND '' (map part_text ps) @ '' LIMIT '' @ itoa (export_limit args)"
    using ps by (simp add: export_sql_def where_text_def)
  then have "contains (export_sql args tab ps) '' WHERE  WHERE ''" by (metis contains_iff_sublist sublist_appendI)
  then have "\<exists>e. fst (query_text en (export_sql args tab ps) (where_values ps) st) = Inl e"
    using assms(1,2) by (auto simp: query_text_def split: option.splits)
  then obtain e st' where "query_text en (export_sql args tab ps) (where_values ps) st = (Inl e, st')"
    by (metis prod.collapse)
  then have "data_export_csv en args st = (error_result (''query failed: '' @ de_text en e), st')"
    using assms(3,4,6) t by (simp add: data_export_csv_def require_string_def Let_def del: append_Cons)
  then show ?thesis by auto
qed

text \<open>The columns of an export are taken as they are: under another name a column of password hashes is not
  recognised and its cells are written.\<close>

theorem export_alias_leaks_hash:
  assumes "get_str args ''table_name'' = tab" "sanitized_table_name tab = Inr tab" "filters_of args = []"
    and "get_arr_ok args ''columns'' = Some [JStr (c @ '' AS x'')]" "get_num_ok args ''limit'' = None"
    and "map_of (load_secure_columns st tab) c = Some ''hash''" "map_of (load_secure_columns st tab) ''x'' = None"
    and "valid_identifier c" and "de_query en (''SELECT '' @ c @ '' AS x FROM '' @ tab @ '' LIMIT 500'') [] (ss_db st) = Inr ([''x''], [[SText h]])"
  shows "fst (data_export_csv en args st) =
    ok_result (JObj [(''table'', JStr tab), (''rows'', JNum 1), (''csv'', JStr (csv_write [[''x''], [h]]))])"
proof -
  have t: "tab \<noteq> []" using assms(2) by (auto simp: sanitized_table_name_def valid_identifier_def split: if_splits)
  have i: "itoa 500 = ''500''" by code_simp
  have "export_sql args tab [] = ''SELECT '' @ c @ '' AS x FROM '' @ tab @ '' LIMIT 500''"
    using assms(4,5) by (simp add: export_sql_def export_columns_def json_text_def export_limit_def optional_int_def i Let_def)
  moreover have "single_statement c" "single_statement tab"
    using identifier_single [OF assms(8)] sanitized_single [OF assms(2)] by blast+
  ultimately have "query_text en (export_sql args tab []) (where_values []) st = (Inr ([''x''], [[SText h]]), st)"
    using assms(9) by (simp add: query_text_def where_values_def List.map_filter_simps)
  then show ?thesis
    using assms(1-3,7) t by (simp add: data_export_csv_def require_string_def Let_def kept_cells_def)
qed

section \<open>Secure values\<close>

lemma singleton_members:
  assumes "visits_once (se_pub en)"
  shows "ordered_members en [(k, v)] = [(k, v)]"
proof -
  have "set (pe_order (se_pub en) [k]) = {k} \<and> distinct (pe_order (se_pub en) [k])"
    using assms by (auto simp: visits_once_def)
  then have "pe_order (se_pub en) [k] = [k]"
    by (cases "pe_order (se_pub en) [k]"; cases "tl (pe_order (se_pub en) [k])") auto
  then show ?thesis by (simp add: ordered_members_def List.map_filter_simps)
qed

text \<open>What an insertion of one column leaves in the new row.\<close>

lemma insert_one:
  assumes "visits_once (de_pub en)" "valid_identifier k" "find_table (ss_db st) tab = Some t" "resolve t k = Some c"
    and "(case map_of (load_secure_columns st tab) k of None \<Rightarrow> Inr (GJson (JStr s))
          | Some kind \<Rightarrow> process_secure_value (de_pub en) kind (GJson (JStr s))) = Inr x" "bind_value x = Some y"
    and "insert_single en tab [(k, JStr s)] st = (ok_result r, st')"
  shows "\<exists>t'. find_table (ss_db st') tab = Some t' \<and>
    cell (last (st_rows t')) c = sq_store (de_engine en) (decl_type t k) y"
proof -
  have p: "prepare_values en (load_secure_columns st tab) [] (ordered_members (de_schema en) [(k, JStr s)]) = Inr [(k, x)]"
    using assms(2,5) singleton_members [OF assms(1)] by simp
  then obtain key db where i: "sql_insert (de_engine en) (ss_db st) tab [(k, y)] = Inr (key, db)" "st' = with_db db st"
    using assms(6,7)
    by (auto simp: insert_single_def insert_values_def exec_insert_def ok_result_def split: sum.splits)
  from insert_result [OF i(1)] assms(3) obtain t' where
    "find_table db tab = Some t'" "st_rows t' = st_rows t @ [assign (de_engine en) t [(k, y)] (default_row t key)]" by auto
  moreover have "ss_db st' = db" by (simp add: i(2) ss_db_def with_db_def)
  ultimately show ?thesis using assms(4) by (simp add: assign_def)
qed

lemma resolve_fold: "fold_case k = fold_case c \<Longrightarrow> resolve t k = resolve t c" "fold_case k = fold_case c \<Longrightarrow> decl_type t k = decl_type t c"
  by (simp_all add: resolve_def column_of_def decl_type_def)

text \<open>C0. A value given for a password column under its registered name is stored as its hash.\<close>

theorem insert_stores_hash:
  assumes "visits_once (de_pub en)" "valid_identifier c" "find_table (ss_db st) tab = Some t" "resolve t c = Some c"
    and "map_of (load_secure_columns st tab) c = Some ''hash''" "insert_single en tab [(c, JStr s)] st = (ok_result r, st')"
  shows "\<exists>t' h. find_table (ss_db st') tab = Some t' \<and> pe_hash (de_pub en) (pe_sprint (de_pub en) (GJson (JStr s))) = Some h
    \<and> cell (last (st_rows t')) c = sq_store (de_engine en) (decl_type t c) (SText h)"
proof -
  have "\<exists>h. pe_hash (de_pub en) (pe_sprint (de_pub en) (GJson (JStr s))) = Some h"
    using assms(2,5,6) singleton_members [OF assms(1)]
    by (auto simp: insert_single_def process_secure_value_def ok_result_def split: option.splits)
  then obtain h where h: "pe_hash (de_pub en) (pe_sprint (de_pub en) (GJson (JStr s))) = Some h" by blast
  then have "\<exists>t'. find_table (ss_db st') tab = Some t' \<and> cell (last (st_rows t')) c = sq_store (de_engine en) (decl_type t c) (SText h)"
    using insert_one [OF assms(1-4) _ _ assms(6), where x = "GText h" and y = "SText h"] assms(5) by (simp add: process_secure_value_def)
  with h show ?thesis by blast
qed

text \<open>Column names are looked up in the registry letter by letter, but SQLite ignores their case: a password
  given under a name in other case is stored as it is.\<close>

theorem case_variant_stores_plain:
  assumes "visits_once (de_pub en)" "valid_identifier k" "find_table (ss_db st) tab = Some t" "resolve t c = Some c"
    and "map_of (load_secure_columns st tab) c = Some ''hash''" "fold_case k = fold_case c"
    and "map_of (load_secure_columns st tab) k = None" "insert_single en tab [(k, JStr s)] st = (ok_result r, st')"
  shows "\<exists>t'. find_table (ss_db st') tab = Some t'
    \<and> cell (last (st_rows t')) c = sq_store (de_engine en) (decl_type t c) (SText s)"
  using insert_one [OF assms(1-3) _ _ _ assms(8), of c "GJson (JStr s)" "SText s"] assms(4,7) resolve_fold [OF assms(6)]
  by simp

section \<open>Failures\<close>

definition succeeded :: "tool_return \<Rightarrow> bool" where
  "succeeded r = (case r of ToolResult x \<Rightarrow> tr_success x | _ \<Rightarrow> False)"

lemma succeeded_simps [simp]:
  "succeeded (ok_result d)" "\<not> succeeded (error_result e)" "\<not> succeeded (ToolError e)"
  by (simp_all add: succeeded_def ok_result_def error_result_def)

text \<open>Table names differ by more than case.\<close>

definition tables_ok :: "database \<Rightarrow> bool" where
  "tables_ok db \<longleftrightarrow> distinct (map (\<lambda>(n, _). fold_case n) db)"

lemma put_same:
  assumes "tables_ok db" "find_table db tab = Some t"
  shows "put_table tab t db = db"
proof -
  have "x \<in> set db \<Longrightarrow> fold_case (fst x) = fold_case tab \<Longrightarrow> snd x = t" for x
    using assms
  proof (induction db)
    case (Cons y db)
    show ?case
    proof (cases "fold_case (fst y) = fold_case tab")
      case True
      with Cons.prems have "snd y = t" by (auto simp: find_table_def split_beta)
      moreover have "x = y"
        using Cons.prems True by (auto simp: tables_ok_def split_beta rev_image_eqI)
      ultimately show ?thesis by simp
    next
      case False
      with Cons show ?thesis by (auto simp: tables_ok_def find_table_def split_beta)
    qed
  qed (simp add: find_table_def)
  then have "map (\<lambda>(n, t'). if fold_case n = fold_case tab then (n, t) else (n, t')) db = map id db"
    by (intro map_cong) auto
  then show ?thesis by (simp add: put_table_def)
qed

lemma delete_none:
  assumes "tables_ok db" "sql_delete e db tab cs = Inr (0, db')"
  shows "db' = db"
proof -
  from assms(2) obtain t where t: "find_table db tab = Some t" "filter (matches e t cs) (st_rows t) = []"
    "db' = put_table tab (t\<lparr>st_rows := filter (\<lambda>r. \<not> matches e t cs r) (st_rows t)\<rparr>) db"
    by (auto simp: sql_delete_def split: option.splits)
  then have "filter (\<lambda>r. \<not> matches e t cs r) (st_rows t) = st_rows t"
    by (intro filter_True) (auto simp: filter_empty_conv)
  with t put_same [OF assms(1) t(1)] show ?thesis by simp
qed

text \<open>Calls whose free query and whose columns of an export hold no second statement.\<close>

definition single_data_texts :: "jobj \<Rightarrow> bool" where
  "single_data_texts args \<longleftrightarrow> single_statement (limited_sql args) \<and> single_statement (export_columns args)"

lemma single_data_action: "single_data_texts (alist_put ''action'' v args) = single_data_texts args"
proof -
  have "get_str (alist_put ''action'' v args) ''sql'' = get_str args ''sql''"
    "sql_limit (alist_put ''action'' v args) = sql_limit args"
    "get_arr_ok (alist_put ''action'' v args) ''columns'' = get_arr_ok args ''columns''"
    by (simp_all add: fun_eq_iff sql_limit_def get_str_def get_str_ok_def get_arr_ok_def get_num_ok_def)
  then show ?thesis by (simp only: single_data_texts_def limited_sql_def export_columns_def)
qed

lemma query_text_single: "single_statement q \<Longrightarrow> snd (query_text en q vs st) = st"
  by (simp add: query_text_def split: option.split)

lemma itoa_single: "single_statement (itoa n)"
proof -
  have d: "list_all is_digit (nat_digits k)" for k using nat_digits_digits by auto
  have "\<not> is_digit CHR '';''" by code_simp
  with d [of "nat n"] d [of "nat (- n)"] show ?thesis
    by (auto simp: itoa_def single_statement_def list_all_iff)
qed

lemma where_single: "where_parts fs = Inr ps \<Longrightarrow> list_all single_statement (map part_text ps)"
proof (induction fs arbitrary: ps)
  case (Cons f fs)
  have o: "list_all single_statement allowed_ops" by code_simp
  from Cons.prems obtain c opr v qs where *: "where_part f = Inr (c, opr, v)" "where_parts fs = Inr qs" "ps = (c, opr, v) # qs"
    by (auto split: sum.splits)
  then have "valid_identifier c" "opr \<in> set allowed_ops"
    by (auto simp: where_part_def Let_def split: json.splits if_splits option.splits)
  then have "single_statement c" "single_statement opr" using identifier_single o by (auto simp: list_all_iff)
  then have "single_statement (part_text (c, opr, v))" by (cases v) simp_all
  with Cons.IH [OF *(2)] *(3) show ?case by simp
qed simp

lemma export_single:
  assumes "sanitized_table_name n = Inr tab" "where_parts fs = Inr ps" "single_statement (export_columns args)"
  shows "single_statement (export_sql args tab ps)"
  using sanitized_single [OF assms(1)] where_single [OF assms(2)] assms(3) itoa_single
  by (simp add: export_sql_def where_text_def single_join)

lemma readers_keep:
  "snd (data_query en args st) = st" "snd (data_count en args st) = st" "snd (data_search en args st) = st"
  by (simp_all add: data_query_def data_count_def data_search_def Let_def split: sum.split prod.split)

lemma text_readers_keep:
  assumes "single_data_texts args"
  shows "snd (data_execute_sql en args st) = st" "snd (data_export_csv en args st) = st"
proof -
  have s: "single_statement (limited_sql args)" "single_statement (export_columns args)"
    using assms by (simp_all add: single_data_texts_def)
  obtain x where x: "query_text en (limited_sql args) [] st = (x, st)"
    using query_text_single [OF s(1), of en "[]" st] by (metis prod.collapse)
  show "snd (data_execute_sql en args st) = st"
    by (simp add: data_execute_sql_def Let_def x del: append_Cons split: sum.split)
  have "snd (case query_text en (export_sql args tab ps) (where_values ps) st of
                (Inl e, st) \<Rightarrow> (error_result (''query failed: '' @ de_text en e), st)
              | (Inr (cols, rows), st) \<Rightarrow> f cols rows st) = st"
    if "sanitized_table_name n = Inr tab" "where_parts (filters_of args) = Inr ps" "\<And>c r. snd (f c r st) = st"
    for n tab ps and f :: "string list \<Rightarrow> sqlval list list \<Rightarrow> schema_state \<Rightarrow> tool_return \<times> schema_state"
    using query_text_single [OF export_single [OF that(1,2) s(2)], of en "where_values ps" st] that(3)
    by (cases "query_text en (export_sql args tab ps) (where_values ps) st") (simp split: sum.split)
  then show "snd (data_export_csv en args st) = st"
    unfolding data_export_csv_def Let_def by (simp del: append_Cons split: sum.split)
qed

lemma aggregate_keeps: "snd (data_aggregate en args st) = st"
  by (simp add: data_aggregate_def Let_def split: sum.split prod.split)

lemma failed_handlers:
  assumes "tables_ok (ss_db st)" "(a, h) \<in> set (data_routes en)" "\<not> succeeded (fst (h args st))" "single_data_texts args"
  shows "ss_db (snd (h args st)) = ss_db st"
proof -
  have w: "ss_db (with_db db s) = db" "ss_db (log_action x y z s) = ss_db s" for db s x y z
    by (simp_all add: ss_db_def with_db_def log_action_def)
  note none = delete_none [OF assms(1)]
  from assms(2) consider "h = data_query en" | "h = data_insert en" | "h = data_upsert en" | "h = data_update en"
    | "h = data_delete en" | "h = data_batch_delete en" | "h = data_count en" | "h = data_aggregate en"
    | "h = data_search en" | "h = data_execute_sql en" | "h = data_export_csv en" | "h = data_import_csv en"
    by (auto simp: data_routes_def)
  then show ?thesis
  proof cases
    case 1
    then show ?thesis by (simp add: readers_keep)
  next
    case 2
    with assms(3) show ?thesis
      by (auto simp: data_insert_def insert_single_def insert_bulk_def Let_def w
          split: sum.splits if_splits option.splits list.splits)
  next
    case 3
    with assms(3) show ?thesis
      by (auto simp: data_upsert_def Let_def w split: sum.splits if_splits option.splits)
  next
    case 4
    with assms(3) show ?thesis by (auto simp: data_update_def Let_def w split: sum.splits if_splits)
  next
    case 5
    with assms(3) show ?thesis by (auto simp: data_delete_def Let_def w split: sum.splits if_splits dest: none)
  next
    case 6
    with assms(3) show ?thesis by (auto simp: data_batch_delete_def Let_def w split: sum.splits if_splits)
  next
    case 7
    then show ?thesis by (simp add: readers_keep)
  next
    case 8
    then show ?thesis by (simp add: aggregate_keeps)
  next
    case 9
    then show ?thesis by (simp add: readers_keep)
  next
    case 10
    with assms(4) show ?thesis by (simp add: text_readers_keep)
  next
    case 11
    with assms(4) show ?thesis by (simp add: text_readers_keep)
  next
    case 12
    with assms(3) show ?thesis
      by (auto simp: data_import_csv_def Let_def w split: sum.splits option.splits list.splits if_splits)
  qed
qed


section \<open>The round trip of CSV\<close>

lemma csv_quoted_step: "c \<noteq> CHR 0x22 \<Longrightarrow> s \<noteq> [] \<Longrightarrow> csv_quoted (c # s) = map_option (\<lambda>(f, r). (c # f, r)) (csv_quoted s)"
  by (cases s) auto

lemma csv_quoted_field:
  assumes "d = CHR '','' \<or> d = CHR 0x0A"
  shows "csv_quoted (quote_field f @ CHR 0x22 # d # r) = Some (f, d # r)"
proof (induction f)
  case Nil
  from assms show ?case by (auto simp: quote_field_def)
next
  case (Cons c f)
  have "quote_field (c # f) = (if c = CHR 0x22 then [CHR 0x22, CHR 0x22] else [c]) @ quote_field f"
    by (simp add: quote_field_def)
  with Cons show ?case by (cases "c = CHR 0x22") (simp_all add: csv_quoted_step)
qed

lemma csv_next_field:
  assumes "d = CHR '','' \<or> d = CHR 0x0A"
  shows "csv_next (csv_field f @ d # r) = Some (f, d # r)"
proof (cases "needs_quotes f")
  case True
  with csv_quoted_field [OF assms] show ?thesis by (simp add: csv_next_def csv_field_def)
next
  case False
  then have n: "CHR 0x22 \<notin> set f" "\<forall>c \<in> set f. c \<noteq> CHR '','' \<and> c \<noteq> CHR 0x0A"
    by (auto simp: needs_quotes_def)
  have "takeWhile (\<lambda>c. c \<noteq> CHR '','' \<and> c \<noteq> CHR 0x0A) (f @ d # r) = f"
    using n(2) assms by (subst takeWhile_append2) auto
  moreover have "hd (f @ d # r) \<noteq> CHR 0x22" using n(1) assms by (cases f) auto
  ultimately show ?thesis using n(1) False by (simp add: csv_next_def csv_bare_def csv_field_def Let_def)
qed

lemma csv_fields_line: "fs \<noteq> [] \<Longrightarrow> csv_fields (csv_line fs @ r) = Some (fs, r)"
proof (induction fs)
  case (Cons f fs)
  show ?case
  proof (cases fs)
    case Nil
    with csv_next_field [of "CHR 0x0A" f r] show ?thesis
      by (subst csv_fields.simps) (simp add: csv_line_def)
  next
    case (Cons g gs)
    then have "csv_line (f # fs) @ r = csv_field f @ CHR '','' # (csv_line fs @ r)" by (simp add: csv_line_def)
    with Cons.IH Cons csv_next_field [of "CHR '',''" f "csv_line fs @ r"] show ?thesis
      by (subst csv_fields.simps) simp
  qed
qed simp

lemma csv_field_head: "csv_field f \<noteq> [] \<Longrightarrow> hd (csv_field f) \<noteq> CHR 0x0A"
  by (cases f) (auto simp: csv_field_def needs_quotes_def split: if_splits)

lemma csv_field_empty: "csv_field f = [] \<longleftrightarrow> f = []"
  by (auto simp: csv_field_def needs_quotes_def)

lemma csv_line_head:
  assumes "fs \<noteq> []" "fs \<noteq> [[]]"
  shows "\<exists>c s. csv_line fs = c # s \<and> c \<noteq> CHR 0x0A"
proof -
  obtain f gs where f: "fs = f # gs" using assms(1) by (cases fs) auto
  show ?thesis
  proof (cases "f = []")
    case True
    then have "gs \<noteq> []" using assms(2) f by auto
    with True f show ?thesis by (cases gs) (auto simp: csv_line_def csv_field_def needs_quotes_def)
  next
    case False
    then obtain c s where "csv_field f = c # s" "c \<noteq> CHR 0x0A"
      using csv_field_head [of f] csv_field_empty [of f] by (cases "csv_field f") auto
    then show ?thesis unfolding f csv_line_def by (cases gs) auto
  qed
qed

lemma csv_records_write:
  assumes "\<forall>r \<in> set rows. r \<noteq> [] \<and> r \<noteq> [[]]"
  shows "csv_records (csv_write rows) = Some rows"
  using assms
proof (induction rows)
  case Nil
  show ?case by (subst csv_records.simps) (simp add: csv_write_def)
next
  case (Cons row rows)
  obtain c s where c: "csv_line row = c # s" "c \<noteq> CHR 0x0A" using csv_line_head [of row] Cons.prems by auto
  have w: "csv_write (row # rows) = csv_line row @ csv_write rows" by (simp add: csv_write_def)
  have "csv_fields (c # s @ csv_write rows) = Some (row, csv_write rows)"
    using csv_fields_line [of row "csv_write rows"] Cons.prems c(1) by simp
  with Cons c w show ?case by (subst csv_records.simps) simp
qed

lemma norm_no_return: "CHR 0x0D \<notin> set s \<Longrightarrow> norm_newlines s = s"
  by (induction s rule: norm_newlines.induct) auto

lemma csv_write_no_return: "\<forall>r \<in> set rows. \<forall>f \<in> set r. CHR 0x0D \<notin> set f \<Longrightarrow> CHR 0x0D \<notin> set (csv_write rows)"
proof -
  have f: "CHR 0x0D \<notin> set f \<Longrightarrow> CHR 0x0D \<notin> set (csv_field f)" for f
    by (auto simp: csv_field_def quote_field_def)
  have j: "(\<forall>x \<in> set xs. CHR 0x0D \<notin> set x) \<Longrightarrow> CHR 0x0D \<notin> set (join '','' xs)" for xs
  proof (induction xs)
    case (Cons x xs)
    then show ?case by (cases xs) auto
  qed simp
  assume r: "\<forall>r \<in> set rows. \<forall>f \<in> set r. CHR 0x0D \<notin> set f"
  have "CHR 0x0D \<notin> set (csv_line row)" if "row \<in> set rows" for row
    using r f that j [of "map csv_field row"] by (auto simp: csv_line_def)
  then show "CHR 0x0D \<notin> set (csv_write rows)" by (auto simp: csv_write_def)
qed


section \<open>Instances\<close>

definition demo_data_env :: data_env where
  "demo_data_env = \<lparr>de_schema = demo_schema_env,
     de_query = (\<lambda>q _ _. if contains q '' WHERE  WHERE '' then Inl (SyntaxError q) else Inr ([''n''], [[SInt 1]])),
     de_script = (\<lambda>q _ st. (Inl (SyntaxError q), if contains q ''DELETE FROM members'' then with_db [] st else st)),
     de_exec = (\<lambda>_ _ d. Inr (0, d)), de_float = (\<lambda>_. None), de_base64 = id, de_bytes = id\<rparr>"

text \<open>A table of members with a password column.\<close>

definition demo_members :: sql_table where
  "demo_members = \<lparr>st_columns = [\<lparr>sc_name = ''id'', sc_type = ''INTEGER'', sc_default = SNull\<rparr>,
       \<lparr>sc_name = ''nick'', sc_type = ''TEXT'', sc_default = SNull\<rparr>, \<lparr>sc_name = ''pw'', sc_type = ''TEXT'', sc_default = SNull\<rparr>],
     st_rows = [[(''id'', SInt 1), (''nick'', SText ''ann''), (''pw'', SText ''#a'')]], st_seq = 1\<rparr>"

definition demo_data_state :: schema_state where
  "demo_data_state = with_dynamic [(''members'', ''{'' @ quoted ''pw'' @ '':'' @ quoted ''hash'' @ ''}'')]
     (with_db [(''members'', demo_members)] demo_schema_state)"

definition demo_filters :: jobj where
  "demo_filters = [(''table_name'', JStr ''members''),
     (''filters'', JArr [JObj [(''column'', JStr ''nick''), (''op'', JStr ''=''), (''value'', JStr ''ann'')],
        JObj [(''column'', JStr ''id''), (''op'', JStr ''==''), (''value'', JNum 2)]])]"


lemma case_variant_stores_plain_witness:
  "\<exists>t'. find_table (ss_db (snd (insert_single demo_data_env ''members'' [(''PW'', JStr ''secret'')] demo_data_state))) ''members'' = Some t'
     \<and> cell (last (st_rows t')) ''pw'' = SText ''secret''"
proof -
  let ?r = "insert_single demo_data_env ''members'' [(''PW'', JStr ''secret'')] demo_data_state"
  have f: "valid_identifier ''PW''" "find_table (ss_db demo_data_state) ''members'' = Some demo_members"
    "resolve demo_members ''pw'' = Some ''pw''" "map_of (load_secure_columns demo_data_state ''members'') ''pw'' = Some ''hash''"
    "fold_case ''PW'' = fold_case ''pw''" "map_of (load_secure_columns demo_data_state ''members'') ''PW'' = None" by code_simp+
  have v: "visits_once (de_pub demo_data_env)" "sq_store (de_engine demo_data_env) = (\<lambda>_ v. v)"
    using demo_visits_once by (simp_all add: demo_data_env_def demo_schema_env_def demo_env_def plain_engine_def)
  have "fst ?r = ok_result (JObj [(''id'', JNum 2), (''table'', JStr ''members'')])" by code_simp
  then have "?r = (ok_result (JObj [(''id'', JNum 2), (''table'', JStr ''members'')]), snd ?r)" by (metis prod.collapse)
  from case_variant_stores_plain [OF v(1) f(1-6) this] v(2) show ?thesis by simp
qed

lemma batch_delete_widens_witness:
  "fst (data_batch_delete demo_data_env demo_filters demo_data_state)
     = ok_result (JObj [(''table'', JStr ''members''), (''deleted'', JNum 1)])"
proof -
  define f g where fg: "f = JObj [(''column'', JStr ''nick''), (''op'', JStr ''=''), (''value'', JStr ''ann'')]"
    "g = JObj [(''column'', JStr ''id''), (''op'', JStr ''==''), (''value'', JNum 2)]"
  have a: "get_str demo_filters ''table_name'' = ''members''" "sanitized_table_name ''members'' = Inr ''members''"
    "get_arr_ok demo_filters ''filters'' = Some [f, g]" "batch_part f = Some (''nick'', ''='', Some (JStr ''ann''))"
    "batch_part g = None" "where_part g = Inl ''unsupported operator: ==''"
    "part_conds [(''nick'', ''='', Some (JStr ''ann''))] = Some [Compare ''nick'' ''='' (SText ''ann'')]"
    unfolding fg by code_simp+
  have "\<exists>db. sql_delete (de_engine demo_data_env) (ss_db demo_data_state) ''members'' [Compare ''nick'' ''='' (SText ''ann'')] = Inr (1, db)"
    by (simp add: sql_delete_def demo_data_env_def demo_schema_env_def demo_env_def demo_data_state_def ss_db_def
        with_db_def with_dynamic_def find_table_def demo_members_def fold_case_def check_name_def plain_engine_def
        resolve_def column_of_def matches_def plain_cmp_def decl_type_def value_of_def cell_def lower_char_def)
  then obtain db where "sql_delete (de_engine demo_data_env) (ss_db demo_data_state) ''members'' [Compare ''nick'' ''='' (SText ''ann'')] = Inr (1, db)" ..
  from batch_delete_widens [OF a this] show ?thesis by simp
qed


text \<open>The check of a free query is for its first word: a second statement is executed, and stays done when a
  third one fails.\<close>

theorem failed_script_deletes:
  "(let r = data_tool demo_data_env [(''sql'', JStr ''SELECT 1; DELETE FROM members; bad'')] demo_data_state
    in \<not> succeeded (fst r) \<and> find_table (ss_db demo_data_state) ''members'' \<noteq> None \<and> find_table (ss_db (snd r)) ''members'' = None)"
  by code_simp

lemma export_with_filters_fails_witness:
  "\<exists>e. fst (data_export_csv demo_data_env
      [(''table_name'', JStr ''members''), (''filters'', JArr [JObj [(''column'', JStr ''nick''), (''op'', JStr ''IS NULL'')]])]
      demo_data_state) = error_result (''query failed: '' @ e)"
proof -
  let ?args = "[(''table_name'', JStr ''members''), (''filters'', JArr [JObj [(''column'', JStr ''nick''), (''op'', JStr ''IS NULL'')]])]"
  have q: "contains q '' WHERE  WHERE '' \<Longrightarrow> \<exists>e. de_query demo_data_env q vs d = Inl e"
    "contains q '' WHERE  WHERE '' \<Longrightarrow> \<exists>e. fst (de_script demo_data_env q vs s) = Inl e" for q vs d s
    by (simp_all add: demo_data_env_def)
  have f: "get_str ?args ''table_name'' = ''members''" "sanitized_table_name ''members'' = Inr ''members''"
    "filters_of ?args \<noteq> []" "where_parts (filters_of ?args) = Inr [(''nick'', ''IS NULL'', None)]" by code_simp+
  show ?thesis by (rule export_with_filters_fails [OF q f])
qed

end
