(* ===== verification/Endpoints.thy ===== *)
theory Endpoints
  imports DataTool
begin

text \<open>
  The tool that manages the endpoints of a site (\<open>EndpointsTool\<close> of \<open>tools/endpoints.go\<close>): generated
  interfaces on tables, authentication, login providers, uploads, event streams, web sockets and language
  models, each created, updated, listed and deleted, and the generated description of the interface. The
  rows the public server reads are those of theory \<open>PublicRequest\<close>; what it does not read of them is kept
  beside, by path. Creation first looks for a row of the path, so the conflict clause of the insertion is
  never used.
\<close>

section \<open>State\<close>

record row_info =
  ri_id :: int
  ri_created :: string

record upload_row =
  up_path :: string
  up_types :: string
  up_max_mb :: int
  up_auth :: bool
  up_table :: string

record stream_row =
  sm_path :: string
  sm_types :: string
  sm_auth :: bool

record ws_row =
  wr_path :: string
  wr_table :: string
  wr_room :: string
  wr_auth :: bool

record llm_row =
  lm_path :: string
  lm_prompt :: string
  lm_model :: string
  lm_max_tokens :: int
  lm_temperature :: rat
  lm_max_history :: int
  lm_rate :: int
  lm_auth :: bool
  lm_cors :: string

record provider_info =
  pi_display :: string
  pi_token_url :: string
  pi_userinfo_url :: string

text \<open>\<open>es_info\<close> are number and time of a row by table and path; \<open>es_rates\<close> the rate limits of the generated
  interfaces, \<open>es_providers\<close> the rest of the login providers; \<open>es_seq\<close> the last number given in a table.
  \<open>es_assets\<close> and \<open>es_pages\<close> are what the description writes.\<close>

record endpoint_state =
  es_schema :: schema_state
  es_info :: "(string \<times> string, row_info) gomap"
  es_seq :: "(string, int) gomap"
  es_rates :: "(string, int) gomap"
  es_providers :: "(string, provider_info) gomap"
  es_uploads :: "upload_row list"
  es_streams :: "stream_row list"
  es_sockets :: "ws_row list"
  es_llms :: "llm_row list"
  es_assets :: "(string, string \<times> int \<times> string \<times> string \<times> string) gomap"
  es_pages :: "(string, string \<times> string) gomap"

record endpoint_env =
  ee_data :: data_env
  ee_indent :: "json \<Rightarrow> string"
  ee_write :: "string \<Rightarrow> string + string"
  ee_site_name :: "string option"

abbreviation ee_schema :: "endpoint_env \<Rightarrow> schema_env" where "ee_schema en \<equiv> de_schema (ee_data en)"
abbreviation ee_pub :: "endpoint_env \<Rightarrow> pub_env" where "ee_pub en \<equiv> se_pub (ee_schema en)"

definition es_site :: "endpoint_state \<Rightarrow> site_state" where "es_site st = ss_site (es_schema st)"

definition on_site :: "(site_state \<Rightarrow> site_state) \<Rightarrow> endpoint_state \<Rightarrow> endpoint_state" where
  "on_site f st = st\<lparr>es_schema := (es_schema st)\<lparr>ss_site := f (es_site st)\<rparr>\<rparr>"

definition es_log :: "string \<Rightarrow> string \<Rightarrow> endpoint_state \<Rightarrow> endpoint_state" where
  "es_log action target st = st\<lparr>es_schema := log_action ''manage_endpoints'' action target (es_schema st)\<rparr>"

text \<open>A new row of a table gets the next number.\<close>

definition next_id :: "string \<Rightarrow> endpoint_state \<Rightarrow> int" where
  "next_id tab st = (case map_of (es_seq st) tab of Some n \<Rightarrow> n + 1 | None \<Rightarrow> 1)"

definition new_row :: "endpoint_env \<Rightarrow> string \<Rightarrow> string \<Rightarrow> endpoint_state \<Rightarrow> endpoint_state" where
  "new_row en tab path st =
     st\<lparr>es_seq := alist_put tab (next_id tab st) (es_seq st),
        es_info := alist_put (tab, path) \<lparr>ri_id = next_id tab st, ri_created = se_now (ee_schema en)\<rparr> (es_info st)\<rparr>"

definition info_of :: "string \<Rightarrow> string \<Rightarrow> endpoint_state \<Rightarrow> row_info" where
  "info_of tab path st = (case map_of (es_info st) (tab, path) of Some i \<Rightarrow> i | None \<Rightarrow> \<lparr>ri_id = 0, ri_created = []\<rparr>)"

section \<open>Arguments\<close>

definition get_bool_ok :: "jobj \<Rightarrow> string \<Rightarrow> bool option" where
  "get_bool_ok m k = (case map_of m k of Some (JBool b) \<Rightarrow> Some b | _ \<Rightarrow> None)"

text \<open>The texts among the elements of a list; a nil slice is encoded as \<open>null\<close>.\<close>

definition texts_in :: "json list \<Rightarrow> string list" where
  "texts_in xs = List.map_filter (\<lambda>x. case x of JStr s \<Rightarrow> Some s | _ \<Rightarrow> None) xs"

definition texts_value :: "string list \<Rightarrow> json" where
  "texts_value ss = (if ss = [] then JNull else strs ss)"

definition strings_json :: "endpoint_env \<Rightarrow> string list \<Rightarrow> string" where
  "strings_json en ss = se_marshal (ee_schema en) (texts_value ss)"

text \<open>A list argument that is given and not empty, else the default.\<close>

definition list_or :: "jobj \<Rightarrow> string \<Rightarrow> string list \<Rightarrow> string list" where
  "list_or args k dflt = (case get_arr_ok args k of Some (x # xs) \<Rightarrow> texts_in (x # xs) | _ \<Rightarrow> dflt)"

definition positive_or :: "jobj \<Rightarrow> string \<Rightarrow> int \<Rightarrow> int" where
  "positive_or args k dflt = (case get_num_ok args k of Some x \<Rightarrow> if x > 0 then rat_to_int x else dflt | None \<Rightarrow> dflt)"

definition str_or :: "jobj \<Rightarrow> string \<Rightarrow> string \<Rightarrow> string" where
  "str_or args k dflt = (case get_str_ok args k of Some s \<Rightarrow> s | None \<Rightarrow> dflt)"

definition int_or :: "jobj \<Rightarrow> string \<Rightarrow> int \<Rightarrow> int" where
  "int_or args k dflt = (case get_num_ok args k of Some x \<Rightarrow> rat_to_int x | None \<Rightarrow> dflt)"

definition bool_or :: "jobj \<Rightarrow> string \<Rightarrow> bool \<Rightarrow> bool" where
  "bool_or args k dflt = (case get_bool_ok args k of Some b \<Rightarrow> b | None \<Rightarrow> dflt)"

definition texts_or :: "endpoint_env \<Rightarrow> jobj \<Rightarrow> string \<Rightarrow> string \<Rightarrow> string" where
  "texts_or en args k dflt = (case get_arr_ok args k of Some xs \<Rightarrow> strings_json en (texts_in xs) | None \<Rightarrow> dflt)"

definition given :: "jobj \<Rightarrow> string list \<Rightarrow> string list \<Rightarrow> string list \<Rightarrow> string list \<Rightarrow> bool" where
  "given args strings nums bools arrays =
     (list_ex (\<lambda>k. get_str_ok args k \<noteq> None) strings \<or> list_ex (\<lambda>k. get_num_ok args k \<noteq> None) nums
      \<or> list_ex (\<lambda>k. get_bool_ok args k \<noteq> None) bools \<or> list_ex (\<lambda>k. get_arr_ok args k \<noteq> None) arrays)"

definition num :: "int \<Rightarrow> json" where "num n = JNum (of_int n)"

definition skip_message :: "string \<Rightarrow> string \<Rightarrow> string \<Rightarrow> tool_return" where
  "skip_message key name what =
     ok_result (JObj [(key, JStr name), (''message'', JStr (what @ '' already exists '' @ em_dash @ '' skipping creation.''))])"

definition updated_result :: "string \<Rightarrow> tool_return" where
  "updated_result path = ok_result (JObj [(''path'', JStr path), (''updated'', JBool True)])"

text \<open>A nil slice of rows is encoded as \<open>null\<close>.\<close>

definition list_value :: "json list \<Rightarrow> json" where
  "list_value xs = (if xs = [] then JNull else JArr xs)"

definition by_path :: "('a \<Rightarrow> string) \<Rightarrow> 'a list \<Rightarrow> 'a list" where
  "by_path f rows = sort_by_le (\<lambda>a b. str_le (f a) (f b)) rows"

definition has_path :: "('a \<Rightarrow> string) \<Rightarrow> string \<Rightarrow> 'a list \<Rightarrow> bool" where
  "has_path f path rows = list_ex (\<lambda>r. f r = path) rows"

definition change_path :: "('a \<Rightarrow> string) \<Rightarrow> string \<Rightarrow> ('a \<Rightarrow> 'a) \<Rightarrow> 'a list \<Rightarrow> 'a list" where
  "change_path f path g rows = map (\<lambda>r. if f r = path then g r else r) rows"

section \<open>Interfaces on tables\<close>

definition api_row :: "endpoint_env \<Rightarrow> jobj \<Rightarrow> endpoint_row" where
  "api_row en args =
     \<lparr>er_path = get_str args ''path'', er_table = get_str args ''table_name'',
      er_methods = strings_json en (list_or args ''methods'' [''GET'', ''POST'', ''PUT'', ''DELETE'']),
      er_public_columns = (case get_arr_ok args ''public_columns'' of
         Some (x # xs) \<Rightarrow> Some (strings_json en (texts_in (x # xs))) | _ \<Rightarrow> None),
      er_requires_auth = (get_bool args ''requires_auth'' \<or> get_str args ''required_role'' \<noteq> []
         \<or> get_str args ''owner_column'' \<noteq> []),
      er_public_read = get_bool args ''public_read'', er_required_role = get_str args ''required_role'',
      er_cors_origins = get_str args ''cors_origins'', er_cors_methods = get_str args ''cors_methods'',
      er_cors_headers = get_str args ''cors_headers'', er_owner_column = get_str args ''owner_column'',
      er_cache_ttl = positive_or args ''cache_ttl'' 0\<rparr>"

definition create_api :: "endpoint_env \<Rightarrow> endpoint_state action_handler" where
  "create_api en args st =
     (let path = get_str args ''path''; tab = get_str args ''table_name''; row = api_row en args;
          rate = positive_or args ''rate_limit'' 60
      in if path = [] \<or> tab = [] then (error_result ''path and table_name are required'', st)
         else if \<not> registered (es_schema st) tab then
           (error_result (''dynamic table '' @ sq tab @ '' does not exist '' @ em_dash @ '' create it first with manage_schema''), st)
         else if has_path er_path path (si_endpoints (es_site st)) then (skip_message ''path'' path (''Endpoint /api/'' @ path), st)
         else (ok_result (JObj ([(''path'', JStr path), (''table_name'', JStr tab),
                 (''methods'', texts_value (list_or args ''methods'' [''GET'', ''POST'', ''PUT'', ''DELETE''])),
                 (''requires_auth'', JBool (er_requires_auth row)), (''public_read'', JBool (er_public_read row)),
                 (''rate_limit'', num rate)]
                 @ (if er_required_role row \<noteq> [] then [(''required_role'', JStr (er_required_role row))] else [])
                 @ (if er_owner_column row \<noteq> [] then [(''owner_column'', JStr (er_owner_column row))] else []))),
               (new_row en ''ho_api_endpoints'' path (on_site (\<lambda>s. s\<lparr>si_endpoints := si_endpoints s @ [row]\<rparr>) st))
                 \<lparr>es_rates := alist_put path rate (es_rates st)\<rparr>))"

definition set_api :: "endpoint_env \<Rightarrow> jobj \<Rightarrow> endpoint_row \<Rightarrow> endpoint_row" where
  "set_api en args r =
     r\<lparr>er_methods := (case get_arr_ok args ''methods'' of
           Some xs \<Rightarrow> if texts_in xs \<noteq> [] then strings_json en (texts_in xs) else er_methods r | None \<Rightarrow> er_methods r),
       er_public_columns := (case get_arr_ok args ''public_columns'' of
           Some xs \<Rightarrow> Some (strings_json en (texts_in xs)) | None \<Rightarrow> er_public_columns r),
       er_requires_auth := bool_or args ''requires_auth'' (er_requires_auth r),
       er_public_read := bool_or args ''public_read'' (er_public_read r),
       er_required_role := str_or args ''required_role'' (er_required_role r),
       er_cors_origins := str_or args ''cors_origins'' (er_cors_origins r),
       er_cors_methods := str_or args ''cors_methods'' (er_cors_methods r),
       er_cors_headers := str_or args ''cors_headers'' (er_cors_headers r),
       er_owner_column := str_or args ''owner_column'' (er_owner_column r)\<rparr>"

text \<open>A list of methods without a text sets nothing.\<close>

definition api_given :: "jobj \<Rightarrow> bool" where
  "api_given args =
     ((case get_arr_ok args ''methods'' of Some xs \<Rightarrow> texts_in xs \<noteq> [] | None \<Rightarrow> False)
      \<or> given args [''required_role'', ''cors_origins'', ''cors_methods'', ''cors_headers'', ''owner_column'']
          [''rate_limit''] [''requires_auth'', ''public_read''] [''public_columns''])"

definition update_api :: "endpoint_env \<Rightarrow> endpoint_state action_handler" where
  "update_api en args st =
     (let path = get_str args ''path''
      in if path = [] then (error_result ''path is required'', st)
         else if \<not> api_given args then (error_result ''no fields to update'', st)
         else if \<not> has_path er_path path (si_endpoints (es_site st)) then
           (error_result (''endpoint '' @ sq path @ '' not found''), st)
         else (updated_result path,
               (on_site (\<lambda>s. s\<lparr>si_endpoints := change_path er_path path (set_api en args) (si_endpoints s)\<rparr>) st)
                 \<lparr>es_rates := (case get_num_ok args ''rate_limit'' of
                     Some x \<Rightarrow> alist_put path (rat_to_int x) (es_rates st) | None \<Rightarrow> es_rates st)\<rparr>))"

definition list_api :: "endpoint_state action_handler" where
  "list_api args st =
     (ok_result (list_value (map (\<lambda>r. let i = info_of ''ho_api_endpoints'' (er_path r) st in
        JObj [(''id'', num (ri_id i)), (''path'', JStr (er_path r)), (''table_name'', JStr (er_table r)),
          (''methods'', JStr (er_methods r)), (''public_columns'', JStr (null_string (er_public_columns r))),
          (''requires_auth'', JBool (er_requires_auth r)),
          (''rate_limit'', num (case map_of (es_rates st) (er_path r) of Some n \<Rightarrow> n | None \<Rightarrow> 0)),
          (''created_at'', JStr (ri_created i))]) (by_path er_path (si_endpoints (es_site st))))), st)"

definition delete_api :: "endpoint_state action_handler" where
  "delete_api args st =
     (let path = get_str args ''path''
      in if path = [] then (error_result ''path is required'', st)
         else if \<not> has_path er_path path (si_endpoints (es_site st)) then (error_result ''endpoint not found'', st)
         else (ok_result (JObj [(''deleted'', JStr path)]),
               es_log ''delete_api'' path
                 (on_site (\<lambda>s. s\<lparr>si_endpoints := filter (\<lambda>r. er_path r \<noteq> path) (si_endpoints s)\<rparr>) st)))"

section \<open>Authentication\<close>

definition auth_routes :: "string \<Rightarrow> json" where
  "auth_routes path = strs [''POST /api/'' @ path @ ''/register'', ''POST /api/'' @ path @ ''/login'', ''GET /api/'' @ path @ ''/me'']"

text \<open>\<open>public_columns\<close>: the first text that is no column name is refused.\<close>

fun valid_texts :: "json list \<Rightarrow> string + string list" where
  "valid_texts [] = Inr []"
| "valid_texts (JStr c # rest) =
     (if \<not> valid_identifier c then Inl c else map_sum id ((#) c) (valid_texts rest))"
| "valid_texts (_ # rest) = valid_texts rest"

definition auth_public_columns :: "endpoint_env \<Rightarrow> jobj \<Rightarrow> string + string" where
  "auth_public_columns en args =
     (case get_arr_ok args ''public_columns'' of
        Some (x # xs) \<Rightarrow> map_sum id (strings_json en) (valid_texts (x # xs))
      | _ \<Rightarrow> Inr ''[]'')"

text \<open>A text with a default for an absent or empty argument.\<close>

definition text_or :: "jobj \<Rightarrow> string \<Rightarrow> string \<Rightarrow> string" where
  "text_or args k dflt = (if get_str args k = [] then dflt else get_str args k)"

text \<open>\<open>LoadSecureColumns\<close> answers nil for a table that is not registered and for a text it cannot decode.\<close>

definition secure_known :: "schema_state \<Rightarrow> string \<Rightarrow> bool" where
  "secure_known st tab =
     (case map_of (si_dynamic (ss_site st)) tab of
        Some s \<Rightarrow> (case unmarshal s of
            Some (JObj m) \<Rightarrow> list_all (\<lambda>(_, v). case v of JStr _ \<Rightarrow> True | JNull \<Rightarrow> True | _ \<Rightarrow> False) m
          | _ \<Rightarrow> False)
      | None \<Rightarrow> False)"

text \<open>The checks of the table: the password column is registered as one, the login column is declared, and
  the table exists. The result is the declaration.\<close>

definition check_auth_table :: "endpoint_env \<Rightarrow> schema_state \<Rightarrow> string \<Rightarrow> string \<Rightarrow> string \<Rightarrow> string + jobj" where
  "check_auth_table en st tab user pass =
     (let secure = load_secure_columns st tab
      in if \<not> secure_known st tab then Inl (''table '' @ go_quote tab @ '' not found in dynamic tables registry'')
         else if map_of secure pass \<noteq> Some ''hash''
         then Inl (''column '' @ go_quote pass @ '' in table '' @ go_quote tab @ '' is not a PASSWORD column'')
         else case map_of (ss_defs st) tab of
             None \<Rightarrow> Inl (''could not load schema for table '' @ go_quote tab)
           | Some (def, _) \<Rightarrow>
              (case unmarshal_object def of
                 None \<Rightarrow> Inl (''invalid schema_def for table '' @ go_quote tab)
               | Some m \<Rightarrow>
                  if map_of m user = None
                  then Inl (''username_column '' @ go_quote user @ '' does not exist in table '' @ go_quote tab @ '' '' @ em_dash
                         @ '' available columns: ''
                         @ join '', '' (filter (\<lambda>c. c \<noteq> pass) (pe_order (ee_pub en) (map fst m))))
                  else if se_info (ee_schema en) (ss_db st) tab = []
                  then Inl (''table '' @ go_quote tab @ '' is registered but does not exist as a physical table '' @ em_dash
                         @ '' recreate it with manage_schema'')
                  else Inr m))"

text \<open>The role column is added to the table when the declaration lacks it.\<close>

definition ensure_role_column :: "endpoint_env \<Rightarrow> string \<Rightarrow> string \<Rightarrow> jobj \<Rightarrow> schema_state \<Rightarrow> string + schema_state" where
  "ensure_role_column en tab role m st =
     (if map_of m role \<noteq> None then Inr st
      else case se_ddl (ee_schema en) (''ALTER TABLE '' @ tab @ '' ADD COLUMN '' @ role @ '' TEXT DEFAULT '' @ sq []) (ss_db st) of
          Inl e \<Rightarrow> Inl (''role_column '' @ go_quote role @ '' does not exist in table '' @ go_quote tab
                     @ '' and could not be auto-added: '' @ se_text (ee_schema en) e)
        | Inr db \<Rightarrow>
           Inr ((with_db db st)\<lparr>ss_defs :=
             (case map_of (ss_defs st) tab of
                Some (_, t) \<Rightarrow> alist_put tab (se_marshal (ee_schema en) (JObj (alist_put role (JStr ''TEXT'') m)), t) (ss_defs st)
              | None \<Rightarrow> ss_defs st)\<rparr>))"

definition add_auth :: "endpoint_env \<Rightarrow> auth_row \<Rightarrow> endpoint_state \<Rightarrow> tool_return \<times> endpoint_state" where
  "add_auth en row st =
     (ok_result (JObj [(''id'', num (next_id ''ho_auth_endpoints'' st)), (''path'', JStr (ar_path row)),
        (''routes'', auth_routes (ar_path row)), (''table'', JStr (ar_table row)),
        (''username_column'', JStr (ar_username row)), (''password_column'', JStr (ar_password row)),
        (''default_role'', JStr (ar_default_role row)), (''role_column'', JStr (ar_role_column row))]),
      new_row en ''ho_auth_endpoints'' (ar_path row) (on_site (\<lambda>s. s\<lparr>si_auth := si_auth s @ [row]\<rparr>) st))"

definition create_auth :: "endpoint_env \<Rightarrow> endpoint_state action_handler" where
  "create_auth en args st =
     (let tab = get_str args ''table_name''; path = get_str args ''path''; user = get_str args ''username_column'';
          pass = text_or args ''password_column'' ''password''; role = text_or args ''role_column'' ''role''
      in if tab = [] \<or> path = [] \<or> user = [] then (error_result ''table_name, path, and username_column are required'', st)
         else if has_path ar_path path (si_auth (es_site st)) then (skip_message ''path'' path (''Auth endpoint /api/'' @ path), st)
         else if \<not> valid_identifier user then (error_result (''invalid username_column name: '' @ user), st)
         else if \<not> valid_identifier pass then (error_result (''invalid password_column name: '' @ pass), st)
         else case check_auth_table en (es_schema st) tab user pass of Inl e \<Rightarrow> (error_result e, st)
           | Inr m \<Rightarrow>
              (case auth_public_columns en args of Inl c \<Rightarrow> (error_result (''invalid public_column name: '' @ c), st)
               | Inr pub \<Rightarrow>
                  if \<not> valid_identifier role then (error_result (''invalid role_column name: '' @ role), st)
                  else case ensure_role_column en tab role m (es_schema st) of Inl e \<Rightarrow> (error_result e, st)
                    | Inr sst \<Rightarrow>
                       add_auth en \<lparr>ar_path = path, ar_table = tab, ar_username = user, ar_password = pass,
                         ar_public_columns = pub, ar_default_role = text_or args ''default_role'' ''user'',
                         ar_role_column = role\<rparr> (st\<lparr>es_schema := sst\<rparr>)))"

definition set_auth :: "endpoint_env \<Rightarrow> jobj \<Rightarrow> auth_row \<Rightarrow> auth_row" where
  "set_auth en args r =
     r\<lparr>ar_default_role := str_or args ''default_role'' (ar_default_role r),
       ar_public_columns := texts_or en args ''public_columns'' (ar_public_columns r),
       ar_role_column := str_or args ''role_column'' (ar_role_column r)\<rparr>"

definition update_auth :: "endpoint_env \<Rightarrow> endpoint_state action_handler" where
  "update_auth en args st =
     (let path = get_str args ''path''
      in if path = [] then (error_result ''path is required'', st)
         else if \<not> given args [''default_role'', ''role_column''] [] [] [''public_columns'']
         then (error_result ''no fields to update'', st)
         else if \<not> has_path ar_path path (si_auth (es_site st)) then
           (error_result (''auth endpoint '' @ go_quote path @ '' not found''), st)
         else (updated_result path,
               on_site (\<lambda>s. s\<lparr>si_auth := change_path ar_path path (set_auth en args) (si_auth s)\<rparr>) st))"

definition list_auth :: "endpoint_state action_handler" where
  "list_auth args st =
     (ok_result (list_value (map (\<lambda>r. let i = info_of ''ho_auth_endpoints'' (ar_path r) st in
        JObj [(''id'', num (ri_id i)), (''path'', JStr (ar_path r)), (''table_name'', JStr (ar_table r)),
          (''username_column'', JStr (ar_username r)), (''password_column'', JStr (ar_password r)),
          (''public_columns'', JStr (ar_public_columns r)), (''created_at'', JStr (ri_created i)),
          (''routes'', auth_routes (ar_path r))]) (by_path ar_path (si_auth (es_site st))))), st)"

definition delete_auth :: "endpoint_state action_handler" where
  "delete_auth args st =
     (let path = get_str args ''path''
      in if path = [] then (error_result ''path is required'', st)
         else if \<not> has_path ar_path path (si_auth (es_site st)) then (error_result ''auth endpoint not found'', st)
         else (ok_result (JObj [(''deleted'', JStr path)]),
               es_log ''delete_auth'' path
                 (on_site (\<lambda>s. s\<lparr>si_auth := filter (\<lambda>r. ar_path r \<noteq> path) (si_auth s)\<rparr>) st)))"

text \<open>The stored text of the row, or nothing when the query or the scan fails.\<close>

definition stored_hash :: "endpoint_env \<Rightarrow> schema_state \<Rightarrow> string \<Rightarrow> string \<Rightarrow> int \<Rightarrow> string option" where
  "stored_hash en st tab pass n =
     (case sql_select (pe_engine (ee_pub en)) (ss_db st) tab (Columns [pass]) [Compare ''id'' ''='' (SInt n)] None None of
        Inr (((_, v) # _) # _) \<Rightarrow> scan_string (ee_pub en) v | _ \<Rightarrow> None)"

definition verify_password :: "endpoint_env \<Rightarrow> endpoint_state action_handler" where
  "verify_password en args st =
     (let tab = get_str args ''table_name''; password = get_str args ''password'';
          pass = text_or args ''password_column'' ''password''
      in if tab = [] \<or> password = [] then (error_result ''table_name, id, and password are required'', st)
         else case sanitized_table_name tab of Inl e \<Rightarrow> (error_result e, st)
           | Inr name \<Rightarrow>
              if \<not> valid_identifier pass then (error_result (''invalid column name: '' @ pass), st)
              else case stored_hash en (es_schema st) name pass (row_id args) of
                  None \<Rightarrow> (error_result ''row not found'', st)
                | Some h \<Rightarrow> (ok_result (JObj [(''match'', JBool (pe_check (ee_pub en) password h))]), st))"

section \<open>Uploads\<close>

definition default_types :: "string list" where
  "default_types = [''image/*'', ''application/pdf'', ''text/*'', ''application/json'', ''application/zip'']"

definition create_upload :: "endpoint_env \<Rightarrow> endpoint_state action_handler" where
  "create_upload en args st =
     (let path = get_str args ''path''; types = list_or args ''allowed_types'' default_types;
          row = \<lparr>up_path = path, up_types = strings_json en types, up_max_mb = positive_or args ''max_size_mb'' 5,
                 up_auth = get_bool args ''requires_auth'', up_table = get_str args ''table_name''\<rparr>
      in if path = [] then (error_result ''path is required'', st)
         else if has_path up_path path (es_uploads st) then (skip_message ''path'' path (''Upload endpoint /api/'' @ path), st)
         else (ok_result (JObj [(''path'', JStr path), (''route'', JStr (''POST /api/'' @ path @ ''/upload'')),
                 (''allowed_types'', texts_value types), (''max_size_mb'', num (up_max_mb row)),
                 (''requires_auth'', JBool (up_auth row)), (''table_name'', JStr (up_table row))]),
               (new_row en ''ho_upload_endpoints'' path st)\<lparr>es_uploads := es_uploads st @ [row]\<rparr>))"

definition set_upload :: "endpoint_env \<Rightarrow> jobj \<Rightarrow> upload_row \<Rightarrow> upload_row" where
  "set_upload en args r =
     r\<lparr>up_types := texts_or en args ''allowed_types'' (up_types r),
       up_max_mb := int_or args ''max_size_mb'' (up_max_mb r),
       up_auth := bool_or args ''requires_auth'' (up_auth r)\<rparr>"

definition update_upload :: "endpoint_env \<Rightarrow> endpoint_state action_handler" where
  "update_upload en args st =
     (let path = get_str args ''path''
      in if path = [] then (error_result ''path is required'', st)
         else if \<not> given args [] [''max_size_mb''] [''requires_auth''] [''allowed_types'']
         then (error_result ''no fields to update'', st)
         else if \<not> has_path up_path path (es_uploads st) then
           (error_result (''upload endpoint '' @ go_quote path @ '' not found''), st)
         else (updated_result path, st\<lparr>es_uploads := change_path up_path path (set_upload en args) (es_uploads st)\<rparr>))"

definition list_upload :: "endpoint_state action_handler" where
  "list_upload args st =
     (ok_result (list_value (map (\<lambda>r. let i = info_of ''ho_upload_endpoints'' (up_path r) st in
        JObj [(''id'', num (ri_id i)), (''path'', JStr (up_path r)), (''table_name'', JStr (up_table r)),
          (''allowed_types'', JStr (up_types r)), (''max_size_mb'', num (up_max_mb r)),
          (''requires_auth'', JBool (up_auth r)), (''created_at'', JStr (ri_created i))]) (by_path up_path (es_uploads st)))), st)"

definition delete_upload :: "endpoint_state action_handler" where
  "delete_upload args st =
     (let path = get_str args ''path''
      in if path = [] then (error_result ''path is required'', st)
         else if \<not> has_path up_path path (es_uploads st) then (error_result ''upload endpoint not found'', st)
         else (ok_result (JObj [(''deleted'', JStr path)]),
               es_log ''delete_upload'' path (st\<lparr>es_uploads := filter (\<lambda>r. up_path r \<noteq> path) (es_uploads st)\<rparr>)))"

section \<open>Event streams\<close>

text \<open>The example of use in the result is a text over the path.\<close>

definition stream_usage :: "string \<Rightarrow> string" where
  "stream_usage path =
     ''const source = new EventSource('' @ sq (''/api/'' @ path @ ''/stream'') @ ''); source.addEventListener(''
     @ sq ''data.insert'' @ '', (e) => { const data = JSON.parse(e.data); ... });''"

definition create_stream :: "endpoint_env \<Rightarrow> endpoint_state action_handler" where
  "create_stream en args st =
     (let path = get_str args ''path'';
          types = list_or args ''event_types'' [''data.insert'', ''data.update'', ''data.delete''];
          row = \<lparr>sm_path = path, sm_types = strings_json en types, sm_auth = get_bool args ''requires_auth''\<rparr>
      in if path = [] then (error_result ''path is required'', st)
         else if has_path sm_path path (es_streams st) then (skip_message ''path'' path (''Stream endpoint /api/'' @ path), st)
         else (ok_result (JObj [(''path'', JStr path), (''route'', JStr (''GET /api/'' @ path @ ''/stream'')),
                 (''event_types'', texts_value types), (''requires_auth'', JBool (sm_auth row)),
                 (''usage'', JStr (stream_usage path))]),
               (new_row en ''ho_stream_endpoints'' path st)\<lparr>es_streams := es_streams st @ [row]\<rparr>))"

definition set_stream :: "endpoint_env \<Rightarrow> jobj \<Rightarrow> stream_row \<Rightarrow> stream_row" where
  "set_stream en args r =
     r\<lparr>sm_types := texts_or en args ''event_types'' (sm_types r), sm_auth := bool_or args ''requires_auth'' (sm_auth r)\<rparr>"

definition update_stream :: "endpoint_env \<Rightarrow> endpoint_state action_handler" where
  "update_stream en args st =
     (let path = get_str args ''path''
      in if path = [] then (error_result ''path is required'', st)
         else if \<not> given args [] [] [''requires_auth''] [''event_types'']
         then (error_result ''no fields to update'', st)
         else if \<not> has_path sm_path path (es_streams st) then
           (error_result (''stream endpoint '' @ go_quote path @ '' not found''), st)
         else (updated_result path, st\<lparr>es_streams := change_path sm_path path (set_stream en args) (es_streams st)\<rparr>))"

definition list_stream :: "endpoint_state action_handler" where
  "list_stream args st =
     (ok_result (list_value (map (\<lambda>r. let i = info_of ''ho_stream_endpoints'' (sm_path r) st in
        JObj [(''id'', num (ri_id i)), (''path'', JStr (sm_path r)), (''event_types'', JStr (sm_types r)),
          (''requires_auth'', JBool (sm_auth r)), (''created_at'', JStr (ri_created i))]) (by_path sm_path (es_streams st)))), st)"

definition delete_stream :: "endpoint_state action_handler" where
  "delete_stream args st =
     (let path = get_str args ''path''
      in if path = [] then (error_result ''path is required'', st)
         else if \<not> has_path sm_path path (es_streams st) then (error_result ''stream endpoint not found'', st)
         else (ok_result (JObj [(''deleted'', JStr path)]),
               es_log ''delete_stream'' path (st\<lparr>es_streams := filter (\<lambda>r. sm_path r \<noteq> path) (es_streams st)\<rparr>)))"

section \<open>Web sockets\<close>

text \<open>The explanation of the protocol in the result.\<close>

definition dq :: "string \<Rightarrow> string" where "dq s = [CHR 0x22] @ s @ [CHR 0x22]"

definition ws_usage :: "string \<Rightarrow> string" where
  "ws_usage path =
     join [CHR 0x0A]
      [''CONNECTION:'',
       ''  const ws = new WebSocket((location.protocol==='' @ sq ''https:'' @ ''?'' @ sq ''wss:'' @ '':''
       @ sq ''ws:'' @ '') + '' @ sq ''//'' @ '' + location.host + '' @ sq (''/api/'' @ path @ ''/ws?room='')
       @ '' + roomId);'',
       ''  // ?room= is always available. Clients in the same room see each other'' @ [CHR 0x27]
       @ ''s messages.'',
       ''  // Omit ?room= for a single global channel.'',
       [],
       ''RECEIVED MESSAGES (ws.onmessage):'',
       ''  Exactly what the other client sent, plus '' @ dq ''_sender'' @ '' (unique client ID).'',
       ''  Example: other client sends {type: '' @ dq ''move'' @ '', x: 5}'',
       ''           you receive:       {'' @ dq ''type'' @ '': '' @ dq ''move'' @ '', '' @ dq ''x'' @ '': 5, ''
       @ dq ''_sender'' @ '': '' @ dq ''uuid'' @ ''}'',
       [],
       ''  ws.onmessage = (e) => {'',
       ''    const msg = JSON.parse(e.data);'',
       ''    // msg has exactly the fields the sender set, plus msg._sender'',
       ''  };'',
       [],
       ''SENDING:'',
       ''  ws.send(JSON.stringify({ type: '' @ dq ''chat'' @ '', content: '' @ dq ''hello'' @ '' }));'',
       [],
       ''ECHO SUPPRESSION:'',
       ''  The server does NOT echo your message back to you.'',
       ''  Update your own UI immediately after ws.send().'',
       [],
       ''ROOMS:'',
       ''  All clients with the same ?room= value share a channel.'',
       ''  Clients in different rooms cannot see each other'' @ [CHR 0x27] @ ''s messages.'']"

definition create_websocket :: "endpoint_env \<Rightarrow> endpoint_state action_handler" where
  "create_websocket en args st =
     (let path = get_str args ''path''; tab = get_str args ''write_to_table'';
          row = \<lparr>wr_path = path, wr_table = tab, wr_room = get_str args ''room_column'',
                 wr_auth = get_bool args ''requires_auth''\<rparr>
      in if path = [] then (error_result ''path is required'', st)
         else if has_path wr_path path (es_sockets st) then (skip_message ''path'' path (''WebSocket endpoint /api/'' @ path), st)
         else if tab \<noteq> [] \<and> \<not> valid_identifier tab then (error_result (''invalid write_to_table name: '' @ tab), st)
         else (ok_result (JObj ([(''path'', JStr path), (''route'', JStr (''GET /api/'' @ path @ ''/ws'')),
                 (''requires_auth'', JBool (wr_auth row)), (''usage'', JStr (ws_usage path))]
                 @ (if tab \<noteq> [] then [(''write_to_table'', JStr tab)] else [])
                 @ (if wr_room row \<noteq> [] then [(''room_column'', JStr (wr_room row))] else []))),
               (new_row en ''ho_ws_endpoints'' path st)\<lparr>es_sockets := es_sockets st @ [row]\<rparr>))"

definition set_websocket :: "jobj \<Rightarrow> ws_row \<Rightarrow> ws_row" where
  "set_websocket args r =
     r\<lparr>wr_table := str_or args ''write_to_table'' (wr_table r), wr_room := str_or args ''room_column'' (wr_room r),
       wr_auth := bool_or args ''requires_auth'' (wr_auth r)\<rparr>"

definition update_websocket :: "endpoint_state action_handler" where
  "update_websocket args st =
     (let path = get_str args ''path''
      in if path = [] then (error_result ''path is required'', st)
         else if \<not> given args [''write_to_table'', ''room_column''] [] [''requires_auth''] []
         then (error_result ''no fields to update'', st)
         else if \<not> has_path wr_path path (es_sockets st) then
           (error_result (''websocket endpoint '' @ go_quote path @ '' not found''), st)
         else (updated_result path, st\<lparr>es_sockets := change_path wr_path path (set_websocket args) (es_sockets st)\<rparr>))"

definition list_websocket :: "endpoint_state action_handler" where
  "list_websocket args st =
     (ok_result (list_value (map (\<lambda>r. let i = info_of ''ho_ws_endpoints'' (wr_path r) st in
        JObj [(''id'', num (ri_id i)), (''path'', JStr (wr_path r)), (''write_to_table'', JStr (wr_table r)),
          (''room_column'', JStr (wr_room r)), (''requires_auth'', JBool (wr_auth r)),
          (''created_at'', JStr (ri_created i))]) (by_path wr_path (es_sockets st)))), st)"

definition delete_websocket :: "endpoint_state action_handler" where
  "delete_websocket args st =
     (let path = get_str args ''path''
      in if path = [] then (error_result ''path is required'', st)
         else if \<not> has_path wr_path path (es_sockets st) then (error_result ''websocket endpoint not found'', st)
         else (ok_result (JObj [(''deleted'', JStr path)]),
               es_log ''delete_websocket'' path (st\<lparr>es_sockets := filter (\<lambda>r. wr_path r \<noteq> path) (es_sockets st)\<rparr>)))"

section \<open>Language models\<close>

text \<open>The examples of use in the result.\<close>

definition chat_usage :: "string \<Rightarrow> string" where
  "chat_usage path =
     ''fetch('' @ sq (''/api/'' @ path @ ''/chat'') @ '', {method:'' @ sq ''POST'' @ '', headers:{''
     @ sq ''Content-Type'' @ '':'' @ sq ''application/json'' @ ''}, body: JSON.stringify({messages: [{role:''
     @ sq ''user'' @ '', content:'' @ sq ''Hello''
     @ ''}]})}).then(r => { const reader = r.body.getReader(); const decoder = new TextDecoder(); ''
     @ ''function read() { reader.read().then(({done, value}) => { if (done) return; const lines = ''
     @ ''decoder.decode(value).split('' @ sq ([CHR 0x5C] @ ''n'')
     @ ''); for (const line of lines) { if (line.startsWith('' @ sq ''data: ''
     @ '')) { try { const parsed = JSON.parse(line.slice(6)); if (parsed.text) output.textContent += ''
     @ ''parsed.text; } catch(e){} } } read(); }); } read(); });''"

definition complete_usage :: "string \<Rightarrow> string" where
  "complete_usage path =
     ''fetch('' @ sq (''/api/'' @ path @ ''/complete'') @ '', {method:'' @ sq ''POST'' @ '', headers:{''
     @ sq ''Content-Type'' @ '':'' @ sq ''application/json'' @ ''}, body: JSON.stringify({messages: [{role:''
     @ sq ''user'' @ '', content:'' @ sq ''Hello''
     @ ''}]})}).then(r => r.json()).then(data => console.log(data.content));''"

definition sse_format :: "string" where
  "sse_format =
     ''SSE events: '' @ sq ''token'' @ '' with data {'' @ dq ''text'' @ '':'' @ dq ''chunk''
     @ ''} (use parsed.text NOT parsed.content), '' @ sq ''done'' @ '' with data {}, '' @ sq ''error''
     @ '' with data {'' @ dq ''error'' @ '':'' @ dq ''msg'' @ ''}''"

definition llm_row_of :: "jobj \<Rightarrow> llm_row" where
  "llm_row_of args =
     \<lparr>lm_path = get_str args ''path'', lm_prompt = get_str args ''system_prompt'', lm_model = get_str args ''model_id'',
      lm_max_tokens = positive_or args ''max_tokens'' 4096,
      lm_temperature = (case get_num_ok args ''temperature'' of Some x \<Rightarrow> x | None \<Rightarrow> 7 / 10),
      lm_max_history = positive_or args ''max_history'' 20, lm_rate = positive_or args ''rate_limit'' 10,
      lm_auth = get_bool args ''requires_auth'', lm_cors = get_str args ''cors_origins''\<rparr>"

definition llm_routes :: "string \<Rightarrow> jobj" where
  "llm_routes path =
     [(''chat_route'', JStr (''POST /api/'' @ path @ ''/chat'')),
      (''complete_route'', JStr (''POST /api/'' @ path @ ''/complete''))]"

definition create_llm :: "endpoint_env \<Rightarrow> endpoint_state action_handler" where
  "create_llm en args st =
     (let path = get_str args ''path''; row = llm_row_of args
      in if path = [] then (error_result ''path is required'', st)
         else if has_path lm_path path (es_llms st) then (skip_message ''path'' path (''LLM endpoint /api/'' @ path), st)
         else (ok_result (JObj ([(''path'', JStr path)] @ llm_routes path
                 @ [(''system_prompt'', JStr (lm_prompt row)), (''max_tokens'', num (lm_max_tokens row)),
                 (''temperature'', JNum (lm_temperature row)), (''max_history'', num (lm_max_history row)),
                 (''rate_limit'', num (lm_rate row)), (''requires_auth'', JBool (lm_auth row))] 
                 @ [(''usage_stream'', JStr (chat_usage path)), (''usage_complete'', JStr (complete_usage path)),
                 (''sse_format'', JStr sse_format)])),
               (new_row en ''ho_llm_endpoints'' path st)\<lparr>es_llms := es_llms st @ [row]\<rparr>))"

definition set_llm :: "jobj \<Rightarrow> llm_row \<Rightarrow> llm_row" where
  "set_llm args r =
     r\<lparr>lm_prompt := str_or args ''system_prompt'' (lm_prompt r), lm_model := str_or args ''model_id'' (lm_model r),
       lm_max_tokens := int_or args ''max_tokens'' (lm_max_tokens r),
       lm_temperature := (case get_num_ok args ''temperature'' of Some x \<Rightarrow> x | None \<Rightarrow> lm_temperature r),
       lm_max_history := int_or args ''max_history'' (lm_max_history r), lm_rate := int_or args ''rate_limit'' (lm_rate r),
       lm_auth := bool_or args ''requires_auth'' (lm_auth r), lm_cors := str_or args ''cors_origins'' (lm_cors r)\<rparr>"

definition update_llm :: "endpoint_state action_handler" where
  "update_llm args st =
     (let path = get_str args ''path''
      in if path = [] then (error_result ''path is required'', st)
         else if \<not> given args [''system_prompt'', ''model_id'', ''cors_origins'']
                   [''max_tokens'', ''temperature'', ''max_history'', ''rate_limit''] [''requires_auth''] []
         then (error_result ''no fields to update'', st)
         else if \<not> has_path lm_path path (es_llms st) then
           (error_result (''LLM endpoint '' @ sq path @ '' not found''), st)
         else (updated_result path, st\<lparr>es_llms := change_path lm_path path (set_llm args) (es_llms st)\<rparr>))"

definition list_llm :: "endpoint_state action_handler" where
  "list_llm args st =
     (ok_result (list_value (map (\<lambda>r. let i = info_of ''ho_llm_endpoints'' (lm_path r) st in
        JObj ([(''id'', num (ri_id i)), (''path'', JStr (lm_path r)), (''system_prompt'', JStr (lm_prompt r)),
          (''model_id'', JStr (lm_model r)), (''max_tokens'', num (lm_max_tokens r)),
          (''temperature'', JNum (lm_temperature r)), (''max_history'', num (lm_max_history r)),
          (''rate_limit'', num (lm_rate r)), (''requires_auth'', JBool (lm_auth r)), (''cors_origins'', JStr (lm_cors r))]
          @ llm_routes (lm_path r) @ [(''created_at'', JStr (ri_created i))])) (by_path lm_path (es_llms st)))), st)"

definition delete_llm :: "endpoint_state action_handler" where
  "delete_llm args st =
     (let path = get_str args ''path''
      in if path = [] then (error_result ''path is required'', st)
         else if \<not> has_path lm_path path (es_llms st) then (error_result (''LLM endpoint '' @ sq path @ '' not found''), st)
         else (ok_result (JObj [(''path'', JStr path), (''deleted'', JBool True)]),
               st\<lparr>es_llms := filter (\<lambda>r. lm_path r \<noteq> path) (es_llms st)\<rparr>))"

section \<open>Login providers\<close>

text \<open>The name under which the secret of a provider is kept.\<close>

definition oauth_secret :: "string \<Rightarrow> string" where "oauth_secret name = ''oauth_'' @ name @ ''_secret''"

definition oauth_row_of :: "jobj \<Rightarrow> oauth_row" where
  "oauth_row_of args =
     \<lparr>oa_name = get_str args ''provider_name'', oa_client_id = get_str args ''client_id'',
      oa_secret_name = oauth_secret (get_str args ''provider_name''), oa_authorize_url = get_str args ''authorize_url'',
      oa_scopes = text_or args ''scopes'' ''openid email profile'',
      oa_username_field = text_or args ''username_field'' ''email'', oa_auth_path = get_str args ''auth_path'',
      oa_enabled = True\<rparr>"

definition create_oauth :: "endpoint_env \<Rightarrow> endpoint_state action_handler" where
  "create_oauth en args st =
     (let name = get_str args ''provider_name''; row = oauth_row_of args; path = oa_auth_path row;
          display = text_or args ''display_name'' name
      in if list_ex (\<lambda>k. get_str args k = []) [''provider_name'', ''client_id'', ''client_secret'', ''authorize_url'',
              ''token_url'', ''userinfo_url'', ''auth_path'']
         then (error_result ''provider_name, client_id, client_secret, authorize_url, token_url, userinfo_url, and auth_path are required'', st)
         else if has_path oa_name name (si_oauth (es_site st)) then (skip_message ''provider'' name (''OAuth provider '' @ name), st)
         else if \<not> has_path ar_path path (si_auth (es_site st)) then
           (error_result (''auth endpoint '' @ sq path @ '' does not exist '' @ em_dash @ '' create it first with create_auth''), st)
         else case pe_encrypt (ee_pub en) of None \<Rightarrow> (error_result ''encryption not available'', st)
           | Some f \<Rightarrow>
              (case f (get_str args ''client_secret'') of None \<Rightarrow> (error_result ''failed to encrypt client secret'', st)
               | Some x \<Rightarrow>
                  (ok_result (JObj [(''provider'', JStr name),
                     (''routes'', strs [''GET /api/'' @ path @ ''/oauth/'' @ name @ '' (redirect to provider)'',
                        ''GET /api/'' @ path @ ''/oauth/'' @ name @ ''/callback (automatic)'']),
                     (''display_name'', JStr display), (''auth_path'', JStr path)]),
                   (new_row en ''ho_oauth_providers'' name
                     (on_site (\<lambda>s. s\<lparr>si_secrets := alist_put (oa_secret_name row) x (si_secrets s),
                        si_oauth := si_oauth s @ [row]\<rparr>) st))
                     \<lparr>es_providers := alist_put name \<lparr>pi_display = display, pi_token_url = get_str args ''token_url'',
                        pi_userinfo_url = get_str args ''userinfo_url''\<rparr> (es_providers st)\<rparr>)))"

definition list_oauth :: "endpoint_state action_handler" where
  "list_oauth args st =
     (ok_result (list_value (map (\<lambda>r. let i = info_of ''ho_oauth_providers'' (oa_name r) st in
        JObj [(''id'', num (ri_id i)), (''name'', JStr (oa_name r)),
          (''display_name'', JStr (case map_of (es_providers st) (oa_name r) of Some p \<Rightarrow> pi_display p | None \<Rightarrow> [])),
          (''client_id'', JStr (oa_client_id r)), (''authorize_url'', JStr (oa_authorize_url r)),
          (''scopes'', JStr (oa_scopes r)), (''auth_path'', JStr (oa_auth_path r)), (''is_enabled'', JBool (oa_enabled r)),
          (''created_at'', JStr (ri_created i))]) (by_path oa_name (si_oauth (es_site st))))), st)"

text \<open>The secret is removed before the provider is looked up.\<close>

definition delete_oauth :: "endpoint_state action_handler" where
  "delete_oauth args st =
     (let name = get_str args ''provider_name'';
          st1 = on_site (\<lambda>s. s\<lparr>si_secrets := alist_del (oauth_secret name) (si_secrets s)\<rparr>) st
      in if name = [] then (error_result ''provider_name is required'', st)
         else if \<not> has_path oa_name name (si_oauth (es_site st)) then
           (error_result (''OAuth provider '' @ sq name @ '' not found''), st1)
         else (ok_result (JObj [(''deleted'', JStr name)]),
               on_site (\<lambda>s. s\<lparr>si_oauth := filter (\<lambda>r. oa_name r \<noteq> name) (si_oauth s)\<rparr>) st1))"

end
