(* ===== verification/ApiDocs.thy ===== *)
theory ApiDocs
  imports Endpoints
begin

text \<open>
  The generated description of the interface (\<open>generate_docs\<close> of \<open>tools/endpoints.go\<close>): an OpenAPI
  document with a path for every endpoint of the site, kept as an asset, and a page that shows it. Objects
  are lists of members in the order of the source; the indenting encoder is an argument.
\<close>

section \<open>Columns of a table\<close>

record doc_column =
  dc_name :: string
  dc_type :: string
  dc_required :: bool

definition sql_type_to_openapi :: "string \<Rightarrow> string" where
  "sql_type_to_openapi ty =
     (if to_upper ty = ''INTEGER'' then ''integer'' else if to_upper ty = ''REAL'' then ''number''
      else if to_upper ty = ''BOOLEAN'' then ''boolean'' else ''string'')"

text \<open>Decoding into a structure: members match the names of the fields whatever their case, the last one
  counts, a null leaves the field alone, and a value of another type is an error.\<close>

fun set_doc_fields :: "jobj \<Rightarrow> doc_column \<Rightarrow> doc_column option" where
  "set_doc_fields [] c = Some c"
| "set_doc_fields ((k, v) # rest) c =
     (if equal_fold k ''name''
      then (case v of JStr s \<Rightarrow> set_doc_fields rest (c\<lparr>dc_name := s\<rparr>) | JNull \<Rightarrow> set_doc_fields rest c | _ \<Rightarrow> None)
      else if equal_fold k ''type''
      then (case v of JStr s \<Rightarrow> set_doc_fields rest (c\<lparr>dc_type := s\<rparr>) | JNull \<Rightarrow> set_doc_fields rest c | _ \<Rightarrow> None)
      else if equal_fold k ''required''
      then (case v of JBool b \<Rightarrow> set_doc_fields rest (c\<lparr>dc_required := b\<rparr>) | JNull \<Rightarrow> set_doc_fields rest c | _ \<Rightarrow> None)
      else set_doc_fields rest c)"

definition doc_column_of :: "json \<Rightarrow> doc_column option" where
  "doc_column_of v =
     (let c = \<lparr>dc_name = [], dc_type = [], dc_required = False\<rparr>
      in case v of JObj m \<Rightarrow> set_doc_fields m c | JNull \<Rightarrow> Some c | _ \<Rightarrow> None)"

definition doc_columns_of :: "string \<Rightarrow> doc_column list option" where
  "doc_columns_of def =
     (case unmarshal def of
        Some (JArr xs) \<Rightarrow> those (map doc_column_of xs)
      | Some JNull \<Rightarrow> Some []
      | _ \<Rightarrow> None)"

definition table_schemas :: "endpoint_state \<Rightarrow> (string, doc_column list) gomap" where
  "table_schemas st =
     List.map_filter (\<lambda>(t, d, _). map_option (Pair t) (doc_columns_of d)) (ss_defs (es_schema st))"

section \<open>Pieces of the document\<close>

definition obj1 :: "string \<Rightarrow> json \<Rightarrow> json" where "obj1 k v = JObj [(k, v)]"

definition typed :: "string \<Rightarrow> json" where "typed ty = obj1 ''type'' (JStr ty)"

definition schema_ref :: "string \<Rightarrow> json" where
  "schema_ref name = obj1 ''$ref'' (JStr (''#/components/schemas/'' @ name))"

definition content :: "string \<Rightarrow> json \<Rightarrow> json" where
  "content kind schema = obj1 kind (obj1 ''schema'' schema)"

definition json_content :: "json \<Rightarrow> json" where "json_content schema = content ''application/json'' schema"

definition described :: "string \<Rightarrow> json" where "described d = obj1 ''description'' (JStr d)"

definition with_content :: "string \<Rightarrow> json \<Rightarrow> json" where
  "with_content d c = JObj [(''description'', JStr d), (''content'', c)]"

definition body_ref :: "string \<Rightarrow> json" where
  "body_ref name = JObj [(''required'', JBool True), (''content'', json_content (schema_ref name))]"

definition bearer :: "bool \<Rightarrow> jobj" where
  "bearer b = (if b then [(''security'', JArr [obj1 ''BearerAuth'' (JArr [])])] else [])"

definition op_names :: "string \<Rightarrow> string \<Rightarrow> jobj" where
  "op_names summary opid = [(''summary'', JStr summary), (''operationId'', JStr opid)]"

definition query_param :: "string \<Rightarrow> json \<Rightarrow> jobj \<Rightarrow> json" where
  "query_param name schema extra =
     JObj ([(''name'', JStr name), (''in'', JStr ''query''), (''schema'', schema)] @ extra)"

definition id_params :: "string \<times> json" where
  "id_params =
     (''parameters'', JArr [JObj [(''name'', JStr ''id''), (''in'', JStr ''path''), (''required'', JBool True),
        (''schema'', typed ''integer'')]])"

text \<open>\<open>strings.Title\<close>: a letter after a separator becomes upper case. Bytes beyond ASCII separate nothing.\<close>

definition title_separator :: "char \<Rightarrow> bool" where
  "title_separator c = (\<not> ident_char c \<and> (of_char c :: nat) < 128)"

fun title_from :: "char \<Rightarrow> string \<Rightarrow> string" where
  "title_from prev [] = []"
| "title_from prev (c # cs) = (if title_separator prev then upper_char c else c) # title_from c cs"

definition go_title :: "string \<Rightarrow> string" where "go_title s = title_from CHR '' '' s"

section \<open>Interfaces on tables\<close>

definition is_password :: "doc_column \<Rightarrow> bool" where "is_password c = (to_upper (dc_type c) = ''PASSWORD'')"

definition column_prop :: "doc_column \<Rightarrow> string \<times> json" where
  "column_prop c = (dc_name c, typed (sql_type_to_openapi (dc_type c)))"

definition put_all :: "jobj \<Rightarrow> jobj \<Rightarrow> jobj" where "put_all kvs m = fold (\<lambda>(k, v). alist_put k v) kvs m"

definition id_prop :: jobj where "id_prop = [(''id'', typed ''integer'')]"

definition response_props :: "doc_column list \<Rightarrow> jobj" where
  "response_props cols = put_all (map column_prop (filter (\<lambda>c. \<not> is_password c) cols)) id_prop"

definition request_props :: "doc_column list \<Rightarrow> jobj" where
  "request_props cols =
     put_all (map column_prop (filter (\<lambda>c. \<not> is_password c) cols)
        @ map (\<lambda>c. (dc_name c, JObj [(''type'', JStr ''string''), (''format'', JStr ''password'')])) (filter is_password cols)) []"

definition required_fields :: "doc_column list \<Rightarrow> string list" where
  "required_fields cols =
     map dc_name (filter dc_required (filter (\<lambda>c. \<not> is_password c) cols @ filter is_password cols))"

definition object_schema :: "jobj \<Rightarrow> jobj \<Rightarrow> json" where
  "object_schema props extra = JObj ([(''type'', JStr ''object''), (''properties'', JObj props)] @ extra)"

definition api_schemas :: "string \<Rightarrow> doc_column list \<Rightarrow> jobj" where
  "api_schemas path cols =
     [(go_title path, object_schema (response_props cols) []),
      (go_title path @ ''Input'', object_schema (request_props cols)
         (if required_fields cols = [] then [] else [(''required'', strs (required_fields cols))]))]"

definition list_op :: "string \<Rightarrow> bool \<Rightarrow> json" where
  "list_op path secured =
     JObj (op_names (''List '' @ path) (''list_'' @ path) @
       [(''parameters'', JArr
          [query_param ''limit'' (JObj [(''type'', JStr ''integer''), (''default'', JNum 20)]) [],
           query_param ''offset'' (JObj [(''type'', JStr ''integer''), (''default'', JNum 0)]) [],
           query_param ''q'' (typed ''string'') [(''description'', JStr ''Full-text search'')]]),
        (''responses'', obj1 ''200'' (with_content ''Success'' (json_content (object_schema
          [(''data'', JObj [(''type'', JStr ''array''), (''items'', schema_ref (go_title path))]),
           (''count'', typed ''integer''), (''limit'', typed ''integer''), (''offset'', typed ''integer'')] []))))]
       @ bearer secured)"

definition get_op :: "string \<Rightarrow> bool \<Rightarrow> json" where
  "get_op path secured =
     JObj (op_names (''Get '' @ path @ '' by ID'') (''get_'' @ path) @
       [id_params,
        (''responses'', JObj [(''200'', with_content ''Success'' (json_content (schema_ref (go_title path)))),
           (''404'', described ''Not found'')])]
       @ bearer secured)"

definition post_op :: "string \<Rightarrow> bool \<Rightarrow> json" where
  "post_op path secured =
     JObj (op_names (''Create '' @ path) (''create_'' @ path) @
       [(''requestBody'', body_ref (go_title path @ ''Input'')),
        (''responses'', obj1 ''201'' (with_content ''Created'' (json_content (schema_ref (go_title path)))))]
       @ bearer secured)"

definition put_op :: "string \<Rightarrow> bool \<Rightarrow> json" where
  "put_op path secured =
     JObj (op_names (''Update '' @ path) (''update_'' @ path) @
       [id_params, (''requestBody'', body_ref (go_title path @ ''Input'')),
        (''responses'', JObj [(''200'', with_content ''Updated'' (json_content (schema_ref (go_title path)))),
           (''404'', described ''Not found'')])]
       @ bearer secured)"

definition delete_op :: "string \<Rightarrow> bool \<Rightarrow> json" where
  "delete_op path secured =
     JObj (op_names (''Delete '' @ path) (''delete_'' @ path) @
       [id_params,
        (''responses'', JObj [(''200'', described ''Deleted''), (''404'', described ''Not found'')])]
       @ bearer secured)"

text \<open>The operations on the collection and those on a row.\<close>

definition collection_ops :: "endpoint_row \<Rightarrow> string \<Rightarrow> jobj" where
  "collection_ops r m =
     (let path = er_path r in
      if to_upper m = ''GET'' then [(''get'', list_op path (er_requires_auth r \<and> \<not> er_public_read r))]
      else if to_upper m = ''POST'' then [(''post'', post_op path (er_requires_auth r))] else [])"

definition row_ops :: "endpoint_row \<Rightarrow> string \<Rightarrow> jobj" where
  "row_ops r m =
     (let path = er_path r in
      if to_upper m = ''GET'' then [(''get'', get_op path (er_requires_auth r \<and> \<not> er_public_read r))]
      else if to_upper m = ''PUT'' then [(''put'', put_op path (er_requires_auth r))]
      else if to_upper m = ''DELETE'' then [(''delete'', delete_op path (er_requires_auth r))] else [])"

definition doc_methods :: "string \<Rightarrow> string list" where
  "doc_methods s =
     (case unmarshal s of
        Some (JArr xs) \<Rightarrow>
          if list_all (\<lambda>v. case v of JStr _ \<Rightarrow> True | JNull \<Rightarrow> True | _ \<Rightarrow> False) xs then map json_text xs
          else [''GET'', ''POST'', ''PUT'', ''DELETE'']
      | Some JNull \<Rightarrow> []
      | _ \<Rightarrow> [''GET'', ''POST'', ''PUT'', ''DELETE''])"

text \<open>The paths and the schemas of the document so far.\<close>

type_synonym api_doc = "jobj \<times> jobj"

definition put_item :: "string \<Rightarrow> jobj \<Rightarrow> jobj \<Rightarrow> jobj" where
  "put_item path item paths = (if item = [] then paths else alist_put path (JObj item) paths)"

definition doc_api :: "(string, doc_column list) gomap \<Rightarrow> endpoint_row \<Rightarrow> api_doc \<Rightarrow> api_doc" where
  "doc_api tables r doc =
     (let path = er_path r; ms = doc_methods (er_methods r);
          cols = (case map_of tables (er_table r) of Some cs \<Rightarrow> cs | None \<Rightarrow> []);
          item = put_all (concat (map (collection_ops r) ms)) [];
          item_id = put_all (concat (map (row_ops r) ms)) []
      in (put_item (''/api/'' @ path @ ''/{id}'') item_id (put_item (''/api/'' @ path) item (fst doc)),
          put_all (api_schemas path cols) (snd doc)))"

section \<open>The other endpoints\<close>

definition login_schema :: "string \<Rightarrow> json" where
  "login_schema user =
     object_schema (put_all [(user, typed ''string''),
         (''password'', JObj [(''type'', JStr ''string''), (''format'', JStr ''password'')])] [])
       [(''required'', strs [user, ''password''])]"

definition token_schema :: json where
  "token_schema = object_schema [(''token'', typed ''string'')] []"

definition auth_op :: "string \<Rightarrow> string \<Rightarrow> string \<Rightarrow> string \<Rightarrow> string \<Rightarrow> jobj \<Rightarrow> json" where
  "auth_op path summary opid code desc extra =
     obj1 ''post'' (JObj (op_names summary (opid @ path) @
       [(''requestBody'', body_ref (go_title path @ ''Login'')),
        (''responses'', JObj ([(code, with_content desc (json_content token_schema))] @ extra))]))"

definition me_op :: "string \<Rightarrow> json" where
  "me_op path =
     obj1 ''get'' (JObj (op_names ''Get current user'' (''me_'' @ path) @ bearer True @
       [(''responses'', JObj [(''200'', with_content ''Current user'' (json_content (schema_ref (go_title path @ ''User'')))),
          (''401'', described ''Unauthorized'')])]))"

definition doc_auth :: "(string, doc_column list) gomap \<Rightarrow> auth_row \<Rightarrow> api_doc \<Rightarrow> api_doc" where
  "doc_auth tables r doc =
     (let path = ar_path r; base = ''/api/'' @ path;
          cols = (case map_of tables (ar_table r) of Some cs \<Rightarrow> cs | None \<Rightarrow> [])
      in (put_all
            [(base @ ''/register'', auth_op path ''Register new user'' ''register_'' ''201'' ''Registered'' []),
             (base @ ''/login'', auth_op path ''Login'' ''login_'' ''200'' ''Login successful''
                [(''401'', described ''Invalid credentials'')]),
             (base @ ''/me'', me_op path)] (fst doc),
          put_all
            [(go_title path @ ''Login'', login_schema (ar_username r)),
             (go_title path @ ''User'', object_schema (response_props cols) [])] (snd doc)))"

definition upload_op :: "upload_row \<Rightarrow> json" where
  "upload_op r =
     JObj (op_names (''Upload file to '' @ up_path r) (''upload_'' @ up_path r) @
       [(''description'', JStr (''Upload a file'' @ (if up_types r \<noteq> [] then '' (allowed: '' @ up_types r @ '')'' else []))),
        (''requestBody'', JObj [(''required'', JBool True),
           (''content'', content ''multipart/form-data'' (object_schema
             [(''file'', JObj [(''type'', JStr ''string''), (''format'', JStr ''binary'')])] [(''required'', strs [''file''])]))]),
        (''responses'', obj1 ''200'' (with_content ''Upload successful'' (json_content (object_schema
           [(''url'', typed ''string''), (''filename'', typed ''string''), (''size'', typed ''integer''),
            (''type'', typed ''string'')] []))))]
       @ bearer (up_auth r))"

definition stream_op :: "stream_row \<Rightarrow> json" where
  "stream_op r =
     JObj (op_names (''SSE stream for '' @ sm_path r) (''stream_'' @ sm_path r) @
       [(''description'', JStr ''Server-Sent Events stream for real-time updates''),
        (''responses'', obj1 ''200'' (with_content ''SSE event stream'' (content ''text/event-stream'' (typed ''string''))))]
       @ bearer (sm_auth r))"

definition ws_op :: "ws_row \<Rightarrow> json" where
  "ws_op r =
     JObj (op_names (''WebSocket connection for '' @ wr_path r) (''ws_'' @ wr_path r) @
       [(''description'', JStr (''Connect via ws(s)://host/api/'' @ wr_path r @ ''/ws?room=ROOM_NAME'')),
        (''parameters'', JArr [query_param ''room'' (typed ''string'') [(''description'', JStr ''Room name for scoped messaging'')]]),
        (''responses'', obj1 ''101'' (described ''WebSocket upgrade''))]
       @ bearer (wr_auth r))"

definition other_paths :: "endpoint_state \<Rightarrow> jobj" where
  "other_paths st =
     map (\<lambda>r. (''/api/'' @ up_path r @ ''/upload'', obj1 ''post'' (upload_op r))) (es_uploads st)
     @ map (\<lambda>r. (''/api/'' @ sm_path r @ ''/stream'', obj1 ''get'' (stream_op r))) (es_streams st)
     @ map (\<lambda>r. (''/api/'' @ wr_path r @ ''/ws'', obj1 ''get'' (ws_op r))) (es_sockets st)"

section \<open>The document\<close>

definition api_doc_of :: "endpoint_state \<Rightarrow> api_doc" where
  "api_doc_of st =
     (let tables = table_schemas st;
          doc = fold (doc_auth tables) (si_auth (es_site st)) (fold (doc_api tables) (si_endpoints (es_site st)) ([], []))
      in (put_all (other_paths st) (fst doc), snd doc))"

definition spec_json :: "string \<Rightarrow> api_doc \<Rightarrow> json" where
  "spec_json title doc =
     JObj [(''openapi'', JStr ''3.0.0''),
       (''info'', JObj [(''title'', JStr (title @ '' API'')), (''version'', JStr ''1.0.0''),
          (''description'', JStr ''Auto-generated API documentation'')]),
       (''paths'', JObj (fst doc)),
       (''components'', JObj [(''schemas'', JObj (snd doc)),
          (''securitySchemes'', obj1 ''BearerAuth'' (JObj [(''type'', JStr ''http''), (''scheme'', JStr ''bearer''),
             (''bearerFormat'', JStr ''JWT'')]))])]"

definition swagger_html :: string where
  "swagger_html =
     join [CHR 0x0A]
      [''<div id='' @ dq ''swagger-ui'' @ ''></div>'',
       ''<link rel='' @ dq ''stylesheet'' @ '' href='' @ dq ''https://unpkg.com/swagger-ui-dist@5/swagger-ui.css'' @ ''>'',
       ''<script src='' @ dq ''https://unpkg.com/swagger-ui-dist@5/swagger-ui-bundle.js'' @ ''></script>'',
       ''<script>'',
       ''SwaggerUIBundle({'',
       ''  url: '' @ sq ''/api/docs.json'' @ '','',
       ''  dom_id: '' @ sq ''#swagger-ui'' @ '','',
       ''  presets: [SwaggerUIBundle.presets.apis],'',
       ''  layout: '' @ sq ''BaseLayout'',
       ''});'',
       ''</script>'']"

definition generate_docs :: "endpoint_env \<Rightarrow> endpoint_state action_handler" where
  "generate_docs en args st =
     (let title = (case ee_site_name en of Some s \<Rightarrow> if s = [] then ''API'' else s | None \<Rightarrow> ''API'');
          doc = api_doc_of st; text = ee_indent en (spec_json title doc);
          scope = (case map_of (es_assets st) ''api-docs.json'' of Some (_, _, _, _, sc) \<Rightarrow> sc | None \<Rightarrow> ''global'')
      in case ee_write en text of Inl e \<Rightarrow> (error_result (''failed to write spec file: '' @ e), st)
        | Inr stored \<Rightarrow>
           (ok_result (JObj [(''message'', JStr (''Generated OpenAPI spec with '' @ itoa (int (length (fst doc)))
                @ '' paths and '' @ itoa (int (length (snd doc))) @ '' schemas'')),
              (''spec_asset'', JStr ''api-docs.json''), (''docs_page'', JStr ''/api/docs''), (''spec_url'', JStr ''/api/docs.json'')]),
            st\<lparr>es_assets := alist_put ''api-docs.json''
                  (''application/json'', int (length text), stored, ''OpenAPI 3.0 specification'', scope) (es_assets st),
               es_pages := alist_put ''/api/docs'' (''API Documentation'', swagger_html) (es_pages st)\<rparr>))"

end
