(* ===== verification/EndpointTool.thy ===== *)
theory EndpointTool
  imports ApiDocs PublicApi
begin

text \<open>
  The dispatcher of the endpoints tool and what its calls keep: no path is given twice, an interface created
  with an owner column or a role asks for a login, a login endpoint is created on a registered password
  column. The last section puts the tool in front of the generated interface of theory \<open>PublicApi\<close>.
\<close>

definition endpoint_routes :: "endpoint_env \<Rightarrow> (string \<times> endpoint_state action_handler) list" where
  "endpoint_routes en =
     [(''create_api'', create_api en), (''update_api'', update_api en), (''list_api'', list_api), (''delete_api'', delete_api),
      (''create_auth'', create_auth en), (''update_auth'', update_auth en), (''list_auth'', list_auth), (''delete_auth'', delete_auth),
      (''create_upload'', create_upload en), (''update_upload'', update_upload en), (''list_upload'', list_upload),
      (''delete_upload'', delete_upload),
      (''create_stream'', create_stream en), (''update_stream'', update_stream en), (''list_stream'', list_stream),
      (''delete_stream'', delete_stream),
      (''create_websocket'', create_websocket en), (''update_websocket'', update_websocket), (''list_websocket'', list_websocket),
      (''delete_websocket'', delete_websocket), (''verify_password'', verify_password en),
      (''create_oauth'', create_oauth en), (''list_oauth'', list_oauth), (''delete_oauth'', delete_oauth),
      (''generate_docs'', generate_docs en),
      (''create_llm'', create_llm en), (''update_llm'', update_llm), (''list_llm'', list_llm), (''delete_llm'', delete_llm)]"

definition endpoints_tool :: "endpoint_env \<Rightarrow> endpoint_state action_handler" where
  "endpoints_tool en = dispatch_action (endpoint_routes en) None"

lemma route_cases:
  assumes "(a, h) \<in> set (endpoint_routes en)"
  obtains "h = create_api en" | "h = update_api en" "a = ''update_api''" | "h = list_api" | "h = delete_api"
    | "h = create_auth en" | "h = update_auth en" | "h = list_auth" | "h = delete_auth"
    | "h = create_upload en" | "h = update_upload en" | "h = list_upload" | "h = delete_upload"
    | "h = create_stream en" | "h = update_stream en" | "h = list_stream" | "h = delete_stream"
    | "h = create_websocket en" | "h = update_websocket" | "h = list_websocket" | "h = delete_websocket"
    | "h = verify_password en" | "h = create_oauth en" | "h = list_oauth" | "h = delete_oauth"
    | "h = generate_docs en" | "h = create_llm en" | "h = update_llm" | "h = list_llm" | "h = delete_llm"
  using assms by (auto simp: endpoint_routes_def)

section \<open>Frames\<close>

text \<open>The seven tables, as one value.\<close>

definition tables_of ::
  "endpoint_state \<Rightarrow> endpoint_row list \<times> auth_row list \<times> oauth_row list \<times> upload_row list \<times> stream_row list
     \<times> ws_row list \<times> llm_row list" where
  "tables_of st = (si_endpoints (es_site st), si_auth (es_site st), si_oauth (es_site st), es_uploads st, es_streams st,
     es_sockets st, es_llms st)"

lemma site_simps [simp]:
  "es_site (on_site f st) = f (es_site st)" "es_site (new_row en tab path st) = es_site st"
  "es_site (es_log a t st) = es_site st"
  "es_site (st\<lparr>es_rates := ra\<rparr>) = es_site st" "es_site (st\<lparr>es_providers := pr\<rparr>) = es_site st"
  "es_site (st\<lparr>es_uploads := us\<rparr>) = es_site st" "es_site (st\<lparr>es_streams := ss\<rparr>) = es_site st"
  "es_site (st\<lparr>es_sockets := ws\<rparr>) = es_site st" "es_site (st\<lparr>es_llms := ls\<rparr>) = es_site st"
  "es_site (st\<lparr>es_assets := aa, es_pages := pp\<rparr>) = es_site st"
  "es_site (st\<lparr>es_schema := sst\<rparr>) = ss_site sst"
  by (simp_all add: es_site_def on_site_def new_row_def es_log_def log_action_def)

lemma kept_simps [simp]:
  "es_uploads (on_site f st) = es_uploads st" "es_uploads (new_row en tab path st) = es_uploads st" "es_uploads (es_log a t st) = es_uploads st"
  "es_streams (on_site f st) = es_streams st" "es_streams (new_row en tab path st) = es_streams st" "es_streams (es_log a t st) = es_streams st"
  "es_sockets (on_site f st) = es_sockets st" "es_sockets (new_row en tab path st) = es_sockets st" "es_sockets (es_log a t st) = es_sockets st"
  "es_llms (on_site f st) = es_llms st" "es_llms (new_row en tab path st) = es_llms st" "es_llms (es_log a t st) = es_llms st"
  by (simp_all add: on_site_def new_row_def es_log_def)

lemma has_path_iff: "has_path f p rows \<longleftrightarrow> p \<in> f ` set rows"
  by (auto simp: has_path_def list_ex_iff image_iff)

text \<open>The three ways a table changes.\<close>

inductive table_step :: "('a \<Rightarrow> string) \<Rightarrow> 'a list \<Rightarrow> 'a list \<Rightarrow> bool" for f where
  table_same: "table_step f rows rows"
| table_add: "f r \<notin> f ` set rows \<Longrightarrow> table_step f rows (rows @ [r])"
| table_change: "(\<And>r. f (g r) = f r) \<Longrightarrow> table_step f rows (change_path f p g rows)"
| table_remove: "table_step f rows (filter (\<lambda>r. f r \<noteq> p) rows)"

lemma table_step_distinct:
  "table_step f rows rows' \<Longrightarrow> distinct (map f rows) \<Longrightarrow> distinct (map f rows')"
proof (induction rule: table_step.induct)
  case (table_change g rows p)
  then have "map f (change_path f p g rows) = map f rows" by (simp add: change_path_def)
  then show ?case using table_change by simp
qed (auto simp: distinct_map_filter)

text \<open>A call changes at most the rows of one table, in one of these ways.\<close>

definition tables_step :: "endpoint_state \<Rightarrow> endpoint_state \<Rightarrow> bool" where
  "tables_step st st' \<longleftrightarrow>
     table_step er_path (si_endpoints (es_site st)) (si_endpoints (es_site st')) \<and>
     table_step ar_path (si_auth (es_site st)) (si_auth (es_site st')) \<and>
     table_step oa_name (si_oauth (es_site st)) (si_oauth (es_site st')) \<and>
     table_step up_path (es_uploads st) (es_uploads st') \<and> table_step sm_path (es_streams st) (es_streams st') \<and>
     table_step wr_path (es_sockets st) (es_sockets st') \<and> table_step lm_path (es_llms st) (es_llms st')"

lemma path_kept [simp]:
  "er_path (set_api en args r) = er_path r" "ar_path (set_auth en args a) = ar_path a"
  "up_path (set_upload en args u) = up_path u" "sm_path (set_stream en args s) = sm_path s"
  "wr_path (set_websocket args w) = wr_path w" "lm_path (set_llm args l) = lm_path l"
  by (simp_all add: set_api_def set_auth_def set_upload_def set_stream_def set_websocket_def set_llm_def)

lemmas table_steps = table_same table_add table_change table_remove

lemma api_steps:
  "tables_step st (snd (create_api en args st))" "tables_step st (snd (update_api en args st))"
  "tables_step st (snd (list_api args st))" "tables_step st (snd (delete_api args st))"
  by (auto simp: tables_step_def create_api_def update_api_def list_api_def delete_api_def Let_def has_path_iff api_row_def
      simp del: append_Cons intro: table_steps)

lemma ensure_role_site:
  "ensure_role_column en tab role m sst = Inr sst' \<Longrightarrow>
     si_endpoints (ss_site sst') = si_endpoints (ss_site sst) \<and> si_auth (ss_site sst') = si_auth (ss_site sst)
     \<and> si_oauth (ss_site sst') = si_oauth (ss_site sst) \<and> si_dynamic (ss_site sst') = si_dynamic (ss_site sst)"
  by (auto simp: ensure_role_column_def with_db_def split: if_splits sum.splits)

text \<open>What a successful creation of a login endpoint has checked and does.\<close>

lemma create_auth_cases:
  obtains "snd (create_auth en args st) = st"
  | row m sst where "snd (create_auth en args st) =
        new_row en ''ho_auth_endpoints'' (ar_path row) (on_site (\<lambda>s. s\<lparr>si_auth := si_auth s @ [row]\<rparr>) (st\<lparr>es_schema := sst\<rparr>))"
      "ar_path row \<notin> ar_path ` set (si_auth (es_site st))"
      "valid_identifier (ar_username row)" "valid_identifier (ar_password row)" "valid_identifier (ar_role_column row)"
      "check_auth_table en (es_schema st) (ar_table row) (ar_username row) (ar_password row) = Inr m"
      "ensure_role_column en (ar_table row) (ar_role_column row) m (es_schema st) = Inr sst"
proof (cases "snd (create_auth en args st) = st")
  case False
  let ?row = "\<lambda>pub. \<lparr>ar_path = get_str args ''path'', ar_table = get_str args ''table_name'', ar_username = get_str args ''username_column'',
    ar_password = text_or args ''password_column'' ''password'', ar_public_columns = pub,
    ar_default_role = text_or args ''default_role'' ''user'', ar_role_column = text_or args ''role_column'' ''role''\<rparr>"
  let ?tab = "get_str args ''table_name''" and ?path = "get_str args ''path''" and ?user = "get_str args ''username_column''"
  let ?pass = "text_or args ''password_column'' ''password''" and ?role = "text_or args ''role_column'' ''role''"
  note unf = create_auth_def Let_def
  from False have 1: "\<not> (?tab = [] \<or> ?path = [] \<or> ?user = [])" by (rule contrapos_nn) (simp only: unf if_True snd_conv)
  from False have 2: "\<not> has_path ar_path ?path (si_auth (es_site st))"
    by (rule contrapos_nn) (simp only: unf 1 if_True if_False snd_conv)
  from False have 3: "valid_identifier ?user"
    by (rule contrapos_np) (simp only: unf 1 2 not_False_eq_True if_True if_False snd_conv)
  from False have 4: "valid_identifier ?pass"
    by (rule contrapos_np) (simp only: unf 1 2 3 not_False_eq_True not_True_eq_False if_True if_False snd_conv)
  note guards = 1 2 3 4 not_False_eq_True not_True_eq_False if_True if_False snd_conv sum.case
  from False obtain m where 5: "check_auth_table en (es_schema st) ?tab ?user ?pass = Inr m"
    by (cases "check_auth_table en (es_schema st) ?tab ?user ?pass") (simp_all only: unf guards, blast?)
  from False obtain pub where 6: "auth_public_columns en args = Inr pub"
    by (cases "auth_public_columns en args") (simp_all only: unf guards 5, blast?)
  from False have 7: "valid_identifier ?role"
    by (rule contrapos_np) (simp only: unf guards 5 6)
  from False obtain sst where 8: "ensure_role_column en ?tab ?role m (es_schema st) = Inr sst"
    by (cases "ensure_role_column en ?tab ?role m (es_schema st)") (simp_all only: unf guards 5 6 7, blast?)
  have "snd (create_auth en args st) = snd (add_auth en (?row pub) (st\<lparr>es_schema := sst\<rparr>))"
    by (simp only: unf guards 5 6 7 8)
  then show ?thesis using 2 3 4 5 7 8
    by (intro that(2) [of "?row pub" sst m]) (simp_all only: add_auth_def snd_conv has_path_iff auth_row.simps not_False_eq_True)
qed

lemma auth_steps:
  "tables_step st (snd (create_auth en args st))" "tables_step st (snd (update_auth en args st))"
  "tables_step st (snd (list_auth args st))" "tables_step st (snd (delete_auth args st))"
  "tables_step st (snd (verify_password en args st))"
proof -
  show "tables_step st (snd (create_auth en args st))"
  proof (cases rule: create_auth_cases [of en args st])
    case (2 row m sst)
    with ensure_role_site [OF 2(7)] show ?thesis
      by (simp add: tables_step_def es_site_def [symmetric] table_steps)
  qed (simp add: tables_step_def table_same)
qed (auto simp: tables_step_def update_auth_def list_auth_def delete_auth_def verify_password_def Let_def has_path_iff
      simp del: append_Cons intro: table_steps split: sum.split option.split)

lemma other_steps:
  "tables_step st (snd (create_upload en args st))" "tables_step st (snd (update_upload en args st))"
  "tables_step st (snd (list_upload args st))" "tables_step st (snd (delete_upload args st))"
  "tables_step st (snd (create_stream en args st))" "tables_step st (snd (update_stream en args st))"
  "tables_step st (snd (list_stream args st))" "tables_step st (snd (delete_stream args st))"
  "tables_step st (snd (create_websocket en args st))" "tables_step st (snd (update_websocket args st))"
  "tables_step st (snd (list_websocket args st))" "tables_step st (snd (delete_websocket args st))"
  by (auto simp: tables_step_def create_upload_def update_upload_def list_upload_def delete_upload_def create_stream_def
      update_stream_def list_stream_def delete_stream_def create_websocket_def update_websocket_def list_websocket_def
      delete_websocket_def Let_def has_path_iff simp del: append_Cons intro: table_steps)

lemma llm_steps:
  "tables_step st (snd (create_llm en args st))" "tables_step st (snd (update_llm args st))"
  "tables_step st (snd (list_llm args st))" "tables_step st (snd (delete_llm args st))"
  by (auto simp: tables_step_def create_llm_def update_llm_def list_llm_def delete_llm_def Let_def has_path_iff llm_row_of_def
      simp del: append_Cons intro: table_steps)

lemma oauth_steps:
  "tables_step st (snd (create_oauth en args st))" "tables_step st (snd (list_oauth args st))"
  "tables_step st (snd (delete_oauth args st))" "tables_step st (snd (generate_docs en args st))"
  by (auto simp: tables_step_def create_oauth_def list_oauth_def delete_oauth_def generate_docs_def Let_def has_path_iff
      oauth_row_of_def simp del: append_Cons intro: table_steps split: option.split sum.split)

lemma tool_step: "tables_step st (snd (endpoints_tool en args st))"
proof -
  obtain r st' where e: "endpoints_tool en args st = (r, st')" by fastforce
  from dispatch_cases [OF e [unfolded endpoints_tool_def]] show ?thesis
  proof (elim disjE exE conjE)
    fix a h args' assume "(a, h) \<in> set (endpoint_routes en)" "h args' st = (r, st')"
    then show ?thesis using api_steps auth_steps other_steps llm_steps oauth_steps
      by (cases rule: route_cases) (metis e snd_conv)+
  qed (simp add: e tables_step_def table_same)
qed

section \<open>Paths stay distinct\<close>

definition endpoints_ok :: "endpoint_state \<Rightarrow> bool" where
  "endpoints_ok st \<longleftrightarrow>
     distinct (map er_path (si_endpoints (es_site st))) \<and> distinct (map ar_path (si_auth (es_site st))) \<and>
     distinct (map oa_name (si_oauth (es_site st))) \<and> distinct (map up_path (es_uploads st)) \<and>
     distinct (map sm_path (es_streams st)) \<and> distinct (map wr_path (es_sockets st)) \<and> distinct (map lm_path (es_llms st))"

definition run_endpoints :: "endpoint_env \<Rightarrow> jobj list \<Rightarrow> endpoint_state \<Rightarrow> endpoint_state" where
  "run_endpoints en calls st = fold (\<lambda>args st. snd (endpoints_tool en args st)) calls st"

lemma run_endpoints_induct [case_names start step]:
  assumes "P st" "\<And>args st. args \<in> set calls \<Longrightarrow> P st \<Longrightarrow> P (snd (endpoints_tool en args st))"
  shows "P (run_endpoints en calls st)"
  using assms unfolding run_endpoints_def by (induction calls arbitrary: st) simp_all

text \<open>C13. Whatever the calls, successful or not, no table of endpoints ever holds a path twice, so that every path
  stands for one endpoint of its kind.\<close>

theorem endpoint_paths_distinct:
  assumes "endpoints_ok st"
  shows "endpoints_ok (run_endpoints en calls st)"
proof (induction rule: run_endpoints_induct)
  case (step args st)
  with tool_step [of st en args] show ?case
    unfolding endpoints_ok_def tables_step_def by (blast intro: table_step_distinct)
qed (rule assms)

section \<open>Protection of rows\<close>

text \<open>An owner column and a role are only looked at behind a login.\<close>

definition guarded :: "endpoint_row \<Rightarrow> bool" where
  "guarded r \<longleftrightarrow> (er_owner_column r \<noteq> [] \<or> er_required_role r \<noteq> [] \<longrightarrow> er_requires_auth r)"

lemma api_row_guarded: "guarded (api_row en args)" by (auto simp: guarded_def api_row_def)

definition all_guarded :: "endpoint_state \<Rightarrow> bool" where
  "all_guarded st \<longleftrightarrow> (\<forall>r\<in>set (si_endpoints (es_site st)). guarded r)"

lemma create_api_guarded: "all_guarded st \<Longrightarrow> all_guarded (snd (create_api en args st))"
  by (simp add: all_guarded_def create_api_def Let_def api_row_guarded ball_Un)

lemma delete_api_guarded: "all_guarded st \<Longrightarrow> all_guarded (snd (delete_api args st))"
  by (simp add: all_guarded_def delete_api_def Let_def)

lemma all_guarded_cong: "si_endpoints (es_site st') = si_endpoints (es_site st) \<Longrightarrow> all_guarded st' = all_guarded st"
  by (simp add: all_guarded_def)

lemma create_auth_endpoints: "si_endpoints (es_site (snd (create_auth en args st))) = si_endpoints (es_site st)"
proof (cases rule: create_auth_cases [of en args st])
  case (2 row m sst)
  with ensure_role_site [OF 2(7)] show ?thesis by (simp add: es_site_def [symmetric])
qed simp

lemma other_endpoints:
  "si_endpoints (es_site (snd (list_api args st))) = si_endpoints (es_site st)"
  "si_endpoints (es_site (snd (update_auth en args st))) = si_endpoints (es_site st)"
  "si_endpoints (es_site (snd (list_auth args st))) = si_endpoints (es_site st)"
  "si_endpoints (es_site (snd (delete_auth args st))) = si_endpoints (es_site st)"
  "si_endpoints (es_site (snd (verify_password en args st))) = si_endpoints (es_site st)"
  "si_endpoints (es_site (snd (create_upload en args st))) = si_endpoints (es_site st)"
  "si_endpoints (es_site (snd (update_upload en args st))) = si_endpoints (es_site st)"
  "si_endpoints (es_site (snd (list_upload args st))) = si_endpoints (es_site st)"
  "si_endpoints (es_site (snd (delete_upload args st))) = si_endpoints (es_site st)"
  "si_endpoints (es_site (snd (create_stream en args st))) = si_endpoints (es_site st)"
  "si_endpoints (es_site (snd (update_stream en args st))) = si_endpoints (es_site st)"
  "si_endpoints (es_site (snd (list_stream args st))) = si_endpoints (es_site st)"
  "si_endpoints (es_site (snd (delete_stream args st))) = si_endpoints (es_site st)"
  "si_endpoints (es_site (snd (create_websocket en args st))) = si_endpoints (es_site st)"
  "si_endpoints (es_site (snd (update_websocket args st))) = si_endpoints (es_site st)"
  "si_endpoints (es_site (snd (list_websocket args st))) = si_endpoints (es_site st)"
  "si_endpoints (es_site (snd (delete_websocket args st))) = si_endpoints (es_site st)"
  "si_endpoints (es_site (snd (create_llm en args st))) = si_endpoints (es_site st)"
  "si_endpoints (es_site (snd (update_llm args st))) = si_endpoints (es_site st)"
  "si_endpoints (es_site (snd (list_llm args st))) = si_endpoints (es_site st)"
  "si_endpoints (es_site (snd (delete_llm args st))) = si_endpoints (es_site st)"
  "si_endpoints (es_site (snd (create_oauth en args st))) = si_endpoints (es_site st)"
  "si_endpoints (es_site (snd (list_oauth args st))) = si_endpoints (es_site st)"
  "si_endpoints (es_site (snd (delete_oauth args st))) = si_endpoints (es_site st)"
  "si_endpoints (es_site (snd (generate_docs en args st))) = si_endpoints (es_site st)"
  by (simp_all add: list_api_def update_auth_def list_auth_def delete_auth_def verify_password_def
      create_upload_def update_upload_def list_upload_def delete_upload_def create_stream_def update_stream_def list_stream_def
      delete_stream_def create_websocket_def update_websocket_def list_websocket_def delete_websocket_def create_llm_def
      update_llm_def list_llm_def delete_llm_def create_oauth_def list_oauth_def delete_oauth_def generate_docs_def Let_def
      del: append_Cons split: option.split sum.split)

lemmas kept_guarded = other_endpoints [THEN all_guarded_cong] create_auth_endpoints [THEN all_guarded_cong]

lemma handler_guarded:
  assumes "(a, h) \<in> set (endpoint_routes en)" "a \<noteq> ''update_api''" "all_guarded st"
  shows "all_guarded (snd (h args st))"
  using assms by (cases rule: route_cases) (simp_all only: kept_guarded create_api_guarded delete_api_guarded simp_thms)

lemma dispatch_given:
  assumes "dispatch_action routes None args st = (r, st')"
  shows "st' = st \<or> (\<exists>h. (get_str args ''action'', h) \<in> set routes \<and> h args st = (r, st'))"
  using assms map_of_SomeD [of routes "get_str args ''action''"]
  by (auto simp: dispatch_action_def Let_def split: if_splits option.splits)

lemma tool_guarded:
  assumes "all_guarded st" "get_str args ''action'' \<noteq> ''update_api''"
  shows "all_guarded (snd (endpoints_tool en args st))"
proof -
  obtain r st' where e: "endpoints_tool en args st = (r, st')" by fastforce
  from dispatch_given [OF e [unfolded endpoints_tool_def]] show ?thesis
  proof (elim disjE exE conjE)
    fix h assume "(get_str args ''action'', h) \<in> set (endpoint_routes en)" and h: "h args st = (r, st')"
    from handler_guarded [OF this(1) assms(2,1), of args] show ?thesis by (simp add: e h)
  qed (simp add: e assms)
qed

section \<open>The tool and the generated interface\<close>

text \<open>C12. As long as no call updates an interface, whatever else is created, changed or deleted: a request to an
  interface with an owner column or a required role, other than a GET of one with public reading, is only let
  through with the key of the site or with a valid token of this site, and with the required role if there is one.\<close>

theorem guarded_interfaces_need_login:
  assumes "all_guarded st" "\<forall>args\<in>set calls. get_str args ''action'' \<noteq> ''update_api''"
    and "load_endpoint (es_site (run_endpoints en calls st)) path = Some ep"
    and "ep_owner_column ep \<noteq> [] \<or> ep_required_role ep \<noteq> []" "\<not> (rq_method rq = ''GET'' \<and> ep_public_read ep)"
    and "authenticate pe rq ep = Inr ca"
  shows "validate_site_token pe (token_of rq) \<or>
    (\<exists>c. validate_jwt pe (token_of rq) = Some c \<and> cl_site c = pe_site pe \<and> ca = user_caller c
       \<and> (ep_required_role ep \<noteq> [] \<longrightarrow> cl_role c = ep_required_role ep))"
proof -
  have "all_guarded (run_endpoints en calls st)"
  proof (induction rule: run_endpoints_induct)
    case (step args st)
    with assms(2) show ?case by (simp add: tool_guarded)
  qed (rule assms(1))
  moreover from assms(3) obtain r where "find (\<lambda>r. er_path r = path) (si_endpoints (es_site (run_endpoints en calls st))) = Some r"
    "ep_owner_column ep = er_owner_column r" "ep_required_role ep = er_required_role r" "ep_requires_auth ep = er_requires_auth r"
    unfolding load_endpoint_def by fastforce
  moreover from this(1) have "r \<in> set (si_endpoints (es_site (run_endpoints en calls st)))"
    by (auto simp: find_Some_iff)
  ultimately have "ep_requires_auth ep" using assms(4) by (auto simp: all_guarded_def guarded_def)
  with assms(5,6) show ?thesis by (auto simp: authenticate_def split: if_splits option.splits)
qed

definition demo_endpoint_env :: endpoint_env where
  "demo_endpoint_env = \<lparr>ee_data = demo_data_env, ee_indent = plain_marshal, ee_write = Inr, ee_site_name = None\<rparr>"

definition demo_endpoint_state :: endpoint_state where
  "demo_endpoint_state = \<lparr>es_schema = demo_data_state, es_info = [], es_seq = [], es_rates = [], es_providers = [],
     es_uploads = [], es_streams = [], es_sockets = [], es_llms = [], es_assets = [], es_pages = []\<rparr>"

definition demo_create_api :: jobj where
  "demo_create_api = [(''action'', JStr ''create_api''), (''path'', JStr ''m''), (''table_name'', JStr ''members'')]"

definition demo_owner :: "string \<times> json" where "demo_owner = (''owner_column'', JStr ''nick'')"

lemma guarded_interfaces_need_login_witness:
  "(let ep = the (load_endpoint (es_site (run_endpoints demo_endpoint_env [demo_owner # demo_create_api] demo_endpoint_state)) ''m'')
    in authenticate demo_env (demo_get ''/api/m'' 2) ep = Inr (user_caller (the (validate_jwt demo_env (token_of (demo_get ''/api/m'' 2))))))"
proof -
  let ?st = "es_site (run_endpoints demo_endpoint_env [demo_owner # demo_create_api] demo_endpoint_state)"
  let ?rq = "demo_get ''/api/m'' 2"
  obtain ep where ep: "load_endpoint ?st ''m'' = Some ep"
    "ep_owner_column ep \<noteq> [] \<or> ep_required_role ep \<noteq> []" "\<not> (rq_method ?rq = ''GET'' \<and> ep_public_read ep)"
  proof -
    have "load_endpoint ?st ''m'' \<noteq> None" "ep_owner_column (the (load_endpoint ?st ''m'')) \<noteq> []"
      "\<not> ep_public_read (the (load_endpoint ?st ''m''))" by code_simp+
    then show thesis using that by fastforce
  qed
  have "case authenticate demo_env ?rq (the (load_endpoint ?st ''m'')) of Inr _ \<Rightarrow> True | Inl _ \<Rightarrow> False"
    "\<not> validate_site_token demo_env (token_of ?rq)" by code_simp+
  then obtain ca where ca: "authenticate demo_env ?rq ep = Inr ca" "\<not> validate_site_token demo_env (token_of ?rq)"
    using ep(1) by (auto split: sum.splits)
  have "all_guarded demo_endpoint_state"
    "\<forall>args\<in>set [demo_owner # demo_create_api]. get_str args ''action'' \<noteq> ''update_api''" by code_simp+
  from guarded_interfaces_need_login [OF this ep(1-3) ca(1)] ca ep(1) show ?thesis by (auto simp: Let_def)
qed

text \<open>An update does not ask for a login when it gives an owner column: an interface created open and
  restricted to owners later lets anyone through, and without a token no row is filtered.\<close>

theorem owner_given_later_is_open:
  "let st = run_endpoints demo_endpoint_env
         [demo_create_api, [(''action'', JStr ''update_api''), (''path'', JStr ''m''), demo_owner]] demo_endpoint_state;
       ep = the (load_endpoint (es_site st) ''m''); rq = demo_request ''GET'' ''/api/m'' [] []
   in ep_owner_column ep = ''nick'' \<and> \<not> ep_requires_auth ep
      \<and> authenticate demo_env rq ep = Inr anonymous \<and> rc_owner (request_ctx ep anonymous) = None"
  by code_simp

section \<open>Login endpoints\<close>

text \<open>C21. A call of the action that creates login endpoints adds at most one, under a path that was free, with
  identifiers for its columns and on a table whose password column is registered as hashed and whose login
  column is declared.\<close>

theorem auth_created_on_hash:
  assumes "si_auth (es_site (snd (create_auth en args st))) \<noteq> si_auth (es_site st)"
  shows "\<exists>row. si_auth (es_site (snd (create_auth en args st))) = si_auth (es_site st) @ [row]
    \<and> ar_path row \<notin> ar_path ` set (si_auth (es_site st))
    \<and> list_all valid_identifier [ar_username row, ar_password row, ar_role_column row]
    \<and> map_of (load_secure_columns (es_schema (snd (create_auth en args st))) (ar_table row)) (ar_password row) = Some ''hash''
    \<and> (\<exists>def t m. map_of (ss_defs (es_schema st)) (ar_table row) = Some (def, t) \<and> unmarshal_object def = Some m
         \<and> map_of m (ar_username row) \<noteq> None)"
proof (cases rule: create_auth_cases [of en args st])
  case (2 row m sst)
  have s: "es_schema (snd (create_auth en args st)) = sst\<lparr>ss_site := (ss_site sst)\<lparr>si_auth := si_auth (ss_site sst) @ [row]\<rparr>\<rparr>"
    by (simp add: 2(1) new_row_def on_site_def es_site_def)
  from ensure_role_site [OF 2(7)] have e: "si_auth (ss_site sst) = si_auth (es_site st)"
    "si_dynamic (ss_site sst) = si_dynamic (ss_site (es_schema st))" by (simp_all add: es_site_def)
  have l: "load_secure_columns (es_schema (snd (create_auth en args st))) tab = load_secure_columns (es_schema st) tab" for tab
    unfolding s load_secure_columns_def by (simp add: e)
  have a: "si_auth (es_site (snd (create_auth en args st))) = si_auth (es_site st) @ [row]"
    unfolding es_site_def s by (simp add: e es_site_def)
  from 2(6) have "map_of (load_secure_columns (es_schema st) (ar_table row)) (ar_password row) = Some ''hash''"
    "\<exists>def t m. map_of (ss_defs (es_schema st)) (ar_table row) = Some (def, t) \<and> unmarshal_object def = Some m
       \<and> map_of m (ar_username row) \<noteq> None"
    by (auto simp: check_auth_table_def Let_def simp del: append_Cons split: if_splits option.splits)
  with 2(2-5) a l show ?thesis by (intro exI [of _ row]) simp
qed (use assms in simp)

section \<open>The description of the interface\<close>

text \<open>Since the definitions of tables are kept as objects and the description reads them as lists, no column
  of a table is ever described: the document is that of a site without tables.\<close>

theorem docs_describe_no_column:
  assumes "\<forall>(t, def, c)\<in>set (ss_defs (es_schema st)). \<exists>m. unmarshal def = Some (JObj m)"
  shows "api_doc_of st = api_doc_of (st\<lparr>es_schema := (es_schema st)\<lparr>ss_defs := []\<rparr>\<rparr>)"
proof -
  have "doc_columns_of d = None" if "\<exists>m. unmarshal d = Some (JObj m)" for d
    using that by (auto simp: doc_columns_of_def)
  with assms have "table_schemas st = []"
    by (fastforce simp: table_schemas_def map_filter_def filter_empty_conv)
  then show ?thesis by (simp add: api_doc_of_def table_schemas_def other_paths_def es_site_def map_filter_def)
qed

section \<open>Concrete inputs\<close>

lemma endpoint_paths_distinct_witness:
  "endpoints_ok (run_endpoints demo_endpoint_env [demo_create_api, demo_owner # demo_create_api] demo_endpoint_state)"
proof -
  have "endpoints_ok demo_endpoint_state" by code_simp
  then show ?thesis by (rule endpoint_paths_distinct)
qed

definition demo_auth_env :: endpoint_env where
  "demo_auth_env = demo_endpoint_env\<lparr>ee_data := demo_data_env\<lparr>de_schema := demo_schema_env\<lparr>se_info :=
     (\<lambda>_ _. [(''id'', ''INTEGER'', False, None, True), (''nick'', ''TEXT'', False, None, False)])\<rparr>\<rparr>\<rparr>"

definition demo_auth_state :: endpoint_state where
  "demo_auth_state = demo_endpoint_state\<lparr>es_schema := demo_data_state\<lparr>ss_defs :=
     [(''members'', (plain_marshal (JObj [(''nick'', JStr ''TEXT''), (''pw'', JStr ''PASSWORD''), (''role'', JStr ''TEXT'')]), ''t0''))]\<rparr>\<rparr>"

definition demo_auth :: jobj where
  "demo_auth = [(''path'', JStr ''auth''), (''table_name'', JStr ''members''), (''username_column'', JStr ''nick''),
     (''password_column'', JStr ''pw'')]"

lemma auth_created_on_hash_witness:
  "\<exists>row. si_auth (es_site (snd (create_auth demo_auth_env demo_auth demo_auth_state))) = [row] \<and> valid_identifier (ar_username row)
    \<and> map_of (load_secure_columns (es_schema (snd (create_auth demo_auth_env demo_auth demo_auth_state))) (ar_table row)) (ar_password row)
       = Some ''hash''"
proof -
  have "si_auth (es_site demo_auth_state) = []"
    "si_auth (es_site (snd (create_auth demo_auth_env demo_auth demo_auth_state))) \<noteq> []" by code_simp+
  with auth_created_on_hash [of demo_auth_env demo_auth demo_auth_state] show ?thesis by auto
qed

lemma docs_describe_no_column_witness:
  "api_doc_of demo_auth_state = api_doc_of (demo_auth_state\<lparr>es_schema := (es_schema demo_auth_state)\<lparr>ss_defs := []\<rparr>\<rparr>)"
proof -
  have "list_all (\<lambda>(t, def, c). case unmarshal def of Some (JObj _) \<Rightarrow> True | _ \<Rightarrow> False) (ss_defs (es_schema demo_auth_state))"
    by code_simp
  then have "\<forall>(t, def, c)\<in>set (ss_defs (es_schema demo_auth_state)). \<exists>m. unmarshal def = Some (JObj m)"
    by (fastforce simp: list_all_iff split: option.splits json.splits)
  then show ?thesis by (rule docs_describe_no_column)
qed

end
