(* ===== verification/Spec2Isabelle.thy ===== *)
theory Spec2Isabelle
  imports Cron EventBus WsHub Pipeline ToolLoop PublicCache Middleware Manager Jobs Scheduler Runner PublicPages EndpointTool
begin

text \<open>
  A verification development for HO, a Go program that plans, builds and hosts web projects with
  the help of a language model. A site has a \<^emph>\<open>brain\<close>: a goroutine that takes the site through the
  stages of a pipeline, each a conversation with a model that calls tools, and that afterwards
  watches over the site. The same process serves the published sites: pages, the CRUD interface
  generated for their tables, the authentication of their users, and WebSocket rooms.

  \<^bold>\<open>Layout.\<close> Every theory models one part of the source; the definitions have the names of the Go
  functions in snake case and stand in the order of the code.

  Basis.
  \<^item> \<open>Prelude\<close>: Go strings as byte lists and the functions of packages \<open>strings\<close> and \<open>strconv\<close>,
    Go maps as association lists or as given orders, decoded JSON values and their accessors.
  \<^item> \<open>GoTime\<close>: instants, calendar fields and the functions of package \<open>time\<close>, in a zone at a fixed
    offset from UTC.
  \<^item> \<open>Json\<close>, \<open>Regex\<close>: the decoder of \<open>encoding/json\<close> into untyped values, and the leftmost-first
    matcher for the regular expressions the code compiles.
  \<^item> \<open>Sql\<close>: the tables the users of a site create, and the meaning of the statements the program
    builds on them. What SQLite decides by declared types is the record \<open>sqlite\<close>, an argument.

  The brain (\<open>src/brain\<close>, \<open>src/events\<close>, \<open>src/internal/cron\<close>, \<open>src/prompt\<close>).
  \<^item> \<open>Cron\<close> (\<open>internal/cron/cron.go\<close>): \<open>validate\<close>, \<open>parse_field\<close> and \<open>next_time\<close>. An accepted
    expression parses to non-empty fields within bounds, and \<open>next_time\<close> is the earliest firing
    instant when the zone's offset is a whole number of hours; at half an hour it skips one.
  \<^item> \<open>EventBus\<close> (\<open>events/bus.go\<close>): subscriptions and delivery with panics isolated.
  \<^item> \<open>PlanData\<close>, \<open>PlanTools\<close> (\<open>brain/plan.go\<close>, \<open>brain/stages.go\<close>): plans, patches, \<open>validate_plan\<close>
    against a declarative well-formedness, and the endpoints a plan needs.
  \<^item> \<open>JsonRepair\<close> (\<open>brain/plan.go\<close>): extraction and repair of JSON in a model's answer.
  \<^item> \<open>SiteDb\<close>, \<open>Progress\<close>, \<open>Validate\<close>: the pipeline's tables, the build trackers, the build checks.
  \<^item> \<open>Stages\<close> (\<open>brain/stages.go\<close>): the six stage handlers as functions on the worker's context, with
    the outcomes of model sessions, decoding and HTTP checks as arguments.
  \<^item> \<open>Pipeline\<close> (\<open>brain/pipeline.go\<close>): the worker goroutine as a step relation over its program
    point, its state variable and the row it keeps in the database; failing accesses are inputs of
    a step. The invariant bounds retries and iterations, a measure over stages and retries shows
    that a build leaves the build loop, and monitoring is shown never to build.
  \<^item> \<open>Conversation\<close>, \<open>Extract\<close>, \<open>Anchors\<close>, \<open>ToolLoop\<close> (\<open>brain/messages.go\<close>, \<open>prompt/extract.go\<close>,
    \<open>brain/anchors.go\<close>, \<open>brain/tool_loop.go\<close>): the messages of a session and their pruning, the
    summaries of built files, and the session itself, confined to its tools and bounded in calls.

  The public server (\<open>src/server/public\<close>).
  \<^item> \<open>ApiCache\<close> (\<open>cache.go\<close>), \<open>WsHub\<close> (\<open>ws_hub.go\<close> and the connection handler): cached responses and
    rate window; rooms, buffers and relaying.
  \<^item> \<open>PublicRequest\<close>: queries, bodies, identifiers, tokens and secure values.
  \<^item> \<open>PublicAuth\<close> (\<open>auth.go\<close>): registration, login, own record, refresh, OAuth.
  \<^item> \<open>PublicApi\<close> (\<open>handler.go\<close>): the generated interface with CORS, callers, row-level security and the
    five operations on the tables of \<open>Sql\<close>.
  \<^item> \<open>PublicCache\<close>: its refinement: for a site whose endpoints are \<open>cache_safe\<close>, each request is answered
    as the same interface without caching answers it, by a simulation that forgets the cache.

  \<^item> \<open>RateLimit\<close>, \<open>Middleware\<close> (\<open>src/server/middleware\<close>): the token bucket per client and its clean-up, as a
    refinement of a bucket with a real clock; request limits, headers and recovery.
  \<^item> \<open>Webhooks\<close> (\<open>server/public/webhooks.go\<close>, \<open>webhooks/outgoing.go\<close>, \<open>tools/webhooks.go\<close>): incoming hooks and their
    signatures, subscriptions, deliveries with their retries.
  \<^item> \<open>Markup\<close>, \<open>PublicPages\<close> (\<open>handler.go\<close>): the scanning of documents, and the routes of pages, assets, files,
    layouts, site map and client-side router; an answered page is published, and no file outside the
    directory of stored files is read.

  Background work (\<open>src/actions\<close>, \<open>src/brain\<close>, with their tools in \<open>src/tools\<close>).
  \<^item> \<open>Manager\<close> (\<open>brain/manager.go\<close>): one worker per site. \<open>Scheduler\<close> (\<open>brain/scheduler.go\<close>,
    \<open>brain/scheduled.go\<close>): due tasks and their runs.
  \<^item> \<open>Jobs\<close> (\<open>brain/jobs.go\<close>): the queue of jobs, its states and attempts.
  \<^item> \<open>Actions\<close>, \<open>Runner\<close> (\<open>actions/runner.go\<close>, \<open>actions/audit.go\<close>): server actions on events, their
    templates and their effects on the tables of a site.

  The tools of the model (\<open>src/tools\<close>).
  \<^item> \<open>ToolCore\<close> (\<open>registry.go\<close>, \<open>helpers.go\<close>, \<open>executor.go\<close>): results, argument access, dispatch, the registry of tools.
  \<^item> \<open>Approval\<close> (\<open>approval.go\<close>): questions to the owner, their answers, the log of destructive actions.
  \<^item> \<open>Marshal\<close>: the contract between encoder and decoder as the locale \<open>text_codec\<close>, and an encoder for which
    it holds.
  \<^item> \<open>Schema\<close> (\<open>tables.go\<close>): tables with typed and secure columns, and their registry. Each call is a step of an
    abstract registry in which a table is only forgotten when the owner approved.
  \<^item> \<open>DataTool\<close> (\<open>tables.go\<close>): queries, insertions, updates and deletions on the tables of a site, CSV. Failing
    calls leave the tables alone; what is exported is read back.
  \<^item> \<open>Endpoints\<close>, \<open>ApiDocs\<close>, \<open>EndpointTool\<close> (\<open>endpoints.go\<close>): the endpoints the public server reads. Paths stay
    distinct, and a created interface with an owner column or a role only answers after a login, which
    is shown through the authentication of \<open>PublicApi\<close>; an update breaks this.

  \<^bold>\<open>Bounds and fuel.\<close> Loops with a bound in the code recurse on it: the retries of a call, the passes
  of a session (\<open>MaxIterations\<close>), the iterations of a build (100), the days, hours and minutes that
  the cron search may skip. Where Go iterates over a map the order is an argument and the result
  is shown for every order. Machine integers that cannot leave their range are \<open>int\<close>; the
  conversion of a \<open>float64\<close> truncates; \<open>float64\<close> quantities themselves are rationals.

  \<^bold>\<open>The environment.\<close> Arguments of the definitions stand for what the code calls but does not
  define: the model providers, the tools a session runs, bcrypt, AES and the signing of tokens,
  HTTP requests to third parties, typed decoding of JSON, case folding of non-ASCII text and
  the failing of database accesses. The driver's conversion of columns declared \<open>BOOLEAN\<close> or
  \<open>DATETIME\<close> is left out of \<open>Sql\<close>, and the site database does not fail in \<open>PublicApi\<close>.
  A data definition statement and a query in free text are executed by arguments too, as are the JSON
  encoder, HMAC and SHA-256, and the bodies of the tools in a model session. The queue of jobs keeps
  times as texts like its table; the scheduler uses instants; the tokens of a rate limiter are
  rationals. Actions on one event run in the order of their rows.

  \<^bold>\<open>Not modelled.\<close> Texts assembled for the model (\<open>brain/prompts.go\<close>, \<open>brain/manifests.go\<close>): nothing in
  the code depends on them. Transport: model clients, bots, the reverse proxy and the tunnel, the
  admin interface and its client. Start-up and configuration. Of the public server the handlers of
  uploads, event streams and language models; of the tools those for pages, files, layouts, e-mail
  and payments.
\<close>

end
